(* ===== verification/Prelude.thy ===== *)
theory Prelude
  imports Main "HOL-Library.Word" "HOL-Library.List_Lexorder" "HOL-Library.Char_ord"
begin

text \<open>
  The shared layer of the development: fallible results, the loops over lists that stop at the
  first error, the Rust integer widths, the two dictionary types of the configuration documents
  (insertion ordered and key ordered association lists) and the interface both of them meet.
\<close>

named_theorems result_simps \<open>rewriting of fallible computations\<close>
named_theorems dict_simps \<open>lookups after dictionary updates\<close>
named_theorems rust_simps \<open>definitions of the Rust string and integer operations\<close>

type_synonym u8 = "8 word"
type_synonym u16 = "16 word"
type_synonym u32 = "32 word"
type_synonym u64 = "64 word"

section \<open>Results\<close>

text \<open>
  A Rust \<open>Result<T, E>\<close> is \<open>'e + 'a\<close> with \<open>Inl\<close> for \<open>Err\<close>; the \<open>?\<close> operator is \<open>rbind\<close>.
\<close>

fun rbind :: "'e + 'a \<Rightarrow> ('a \<Rightarrow> 'e + 'b) \<Rightarrow> 'e + 'b" where
  "rbind (Inl e) f = Inl e"
| "rbind (Inr x) f = f x"

fun ok_or :: "'e \<Rightarrow> 'a option \<Rightarrow> 'e + 'a" where
  "ok_or e None = Inl e"
| "ok_or e (Some x) = Inr x"

fun ok :: "'e + 'a \<Rightarrow> 'a option" where
  "ok (Inl e) = None"
| "ok (Inr x) = Some x"

definition is_ok :: "'e + 'a \<Rightarrow> bool" where
  "is_ok r = (case r of Inl _ \<Rightarrow> False | Inr _ \<Rightarrow> True)"

definition ensure :: "'e \<Rightarrow> bool \<Rightarrow> 'e + unit" where
  "ensure e b = (if b then Inr () else Inl e)"

text \<open>A loop whose body returns a new element or leaves the function with an error.\<close>

fun map_result :: "('a \<Rightarrow> 'e + 'b) \<Rightarrow> 'a list \<Rightarrow> 'e + 'b list" where
  "map_result f [] = Inr []"
| "map_result f (x # xs) = rbind (f x) (\<lambda>y. rbind (map_result f xs) (\<lambda>ys. Inr (y # ys)))"

text \<open>The same loop with \<open>enumerate()\<close>: the body also sees the index.\<close>

fun map_result_from :: "nat \<Rightarrow> (nat \<Rightarrow> 'a \<Rightarrow> 'e + 'b) \<Rightarrow> 'a list \<Rightarrow> 'e + 'b list" where
  "map_result_from i f [] = Inr []"
| "map_result_from i f (x # xs) =
     rbind (f i x) (\<lambda>y. rbind (map_result_from (Suc i) f xs) (\<lambda>ys. Inr (y # ys)))"

text \<open>Loops that only check.\<close>

fun each_result :: "('a \<Rightarrow> 'e + unit) \<Rightarrow> 'a list \<Rightarrow> 'e + unit" where
  "each_result f [] = Inr ()"
| "each_result f (x # xs) = rbind (f x) (\<lambda>_. each_result f xs)"

fun each_result_from :: "nat \<Rightarrow> (nat \<Rightarrow> 'a \<Rightarrow> 'e + unit) \<Rightarrow> 'a list \<Rightarrow> 'e + unit" where
  "each_result_from i f [] = Inr ()"
| "each_result_from i f (x # xs) = rbind (f i x) (\<lambda>_. each_result_from (Suc i) f xs)"

lemma rbind_Inr [result_simps]: "rbind r f = Inr y \<longleftrightarrow> (\<exists>x. r = Inr x \<and> f x = Inr y)"
  by (cases r) auto

lemma rbind_Inl [result_simps]:
  "rbind r f = Inl e \<longleftrightarrow> r = Inl e \<or> (\<exists>x. r = Inr x \<and> f x = Inl e)"
  by (cases r) auto

lemma ok_or_Inr [result_simps]: "ok_or e p = Inr x \<longleftrightarrow> p = Some x"
  by (cases p) auto

lemma ok_or_Inl [result_simps]: "ok_or e p = Inl d \<longleftrightarrow> p = None \<and> d = e"
  by (cases p) auto

lemma ok_Some [result_simps]: "ok r = Some x \<longleftrightarrow> r = Inr x"
  by (cases r) auto

lemma ensure_Inr [result_simps]: "ensure e b = Inr u \<longleftrightarrow> b"
  by (simp add: ensure_def)

lemma ensure_Inl [result_simps]: "ensure e b = Inl d \<longleftrightarrow> \<not> b \<and> d = e"
  by (auto simp: ensure_def)

lemma rbind_cong [fundef_cong]:
  "r = r' \<Longrightarrow> (\<And>x. r' = Inr x \<Longrightarrow> f x = f' x) \<Longrightarrow> rbind r f = rbind r' f'"
  by (cases r') auto

lemma map_result_cong [fundef_cong]:
  "xs = ys \<Longrightarrow> (\<And>x. x \<in> set ys \<Longrightarrow> f x = g x) \<Longrightarrow> map_result f xs = map_result g ys"
  by (induction xs arbitrary: ys) auto

lemma map_result_from_cong [fundef_cong]:
  "i = j \<Longrightarrow> xs = ys \<Longrightarrow> (\<And>k x. x \<in> set ys \<Longrightarrow> f k x = g k x) \<Longrightarrow>
     map_result_from i f xs = map_result_from j g ys"
  by (induction xs arbitrary: i j ys) auto

lemma each_result_cong [fundef_cong]:
  "xs = ys \<Longrightarrow> (\<And>x. x \<in> set ys \<Longrightarrow> f x = g x) \<Longrightarrow> each_result f xs = each_result g ys"
  by (induction xs arbitrary: ys) auto

lemma each_result_from_cong [fundef_cong]:
  "i = j \<Longrightarrow> xs = ys \<Longrightarrow> (\<And>k x. x \<in> set ys \<Longrightarrow> f k x = g k x) \<Longrightarrow>
     each_result_from i f xs = each_result_from j g ys"
  by (induction xs arbitrary: i j ys) auto

lemma each_result_Inr [result_simps]: "each_result f xs = Inr u \<longleftrightarrow> (\<forall>x\<in>set xs. f x = Inr ())"
  by (induction xs) (auto simp: result_simps)

lemma each_result_Inl:
  "each_result f xs = Inl e \<Longrightarrow> \<exists>x\<in>set xs. f x = Inl e"
  by (induction xs) (auto simp: result_simps)

lemma each_result_from_Inr:
  "each_result_from i f xs = Inr u \<longleftrightarrow> (\<forall>j<length xs. f (i + j) (xs ! j) = Inr ())"
  by (induction xs arbitrary: i) (auto simp: result_simps less_Suc_eq_0_disj)

lemma each_result_from_uniform:
  assumes "\<And>i x. f i x = Inr () \<longleftrightarrow> P x"
  shows "each_result_from i f xs = Inr u \<longleftrightarrow> (\<forall>x\<in>set xs. P x)"
  using assms by (induction xs arbitrary: i) (auto simp: result_simps)

lemma map_result_Inr:
  "map_result f xs = Inr ys \<longleftrightarrow> list_all2 (\<lambda>x y. f x = Inr y) xs ys"
  by (induction xs arbitrary: ys) (auto simp: result_simps list_all2_Cons1)

lemma map_result_from_Inr:
  "map_result_from i f xs = Inr ys \<longleftrightarrow>
     length ys = length xs \<and> (\<forall>j<length xs. f (i + j) (xs ! j) = Inr (ys ! j))"
proof (induction xs arbitrary: i ys)
  case Nil
  then show ?case by auto
next
  case (Cons x xs)
  show ?case
  proof (cases ys)
    case Nil
    then show ?thesis by (simp add: result_simps)
  next
    case (Cons z zs)
    then show ?thesis
      using Cons.IH [of "Suc i" zs] by (auto simp: result_simps less_Suc_eq_0_disj)
  qed
qed

lemma map_result_from_length: "map_result_from i f xs = Inr ys \<Longrightarrow> length ys = length xs"
  by (simp add: map_result_from_Inr)

lemma map_result_from_all:
  assumes "map_result_from i f xs = Inr ys" and "\<And>j x y. f j x = Inr y \<Longrightarrow> P y"
  shows "\<forall>y\<in>set ys. P y"
  using assms by (fastforce simp: map_result_from_Inr in_set_conv_nth)

lemma map_result_elem: "map_result f xs = Inr ys \<Longrightarrow> y \<in> set ys \<Longrightarrow> \<exists>x\<in>set xs. f x = Inr y"
  by (induction xs arbitrary: ys) (auto simp: result_simps)

lemma map_result_keys:
  "map_result f m = Inr m' \<Longrightarrow> (\<And>p q. f p = Inr q \<Longrightarrow> fst q = fst p) \<Longrightarrow> map fst m' = map fst m"
  by (induction m arbitrary: m') (auto simp: result_simps)

lemma map_result_from_elem:
  "map_result_from i f xs = Inr ys \<Longrightarrow> y \<in> set ys \<Longrightarrow> \<exists>j. \<exists>x\<in>set xs. f j x = Inr y"
  by (fastforce simp: map_result_from_Inr in_set_conv_nth)

section \<open>Dictionaries\<close>

text \<open>
  Association lists with distinct keys. \<open>serde_yaml_ng::Mapping\<close> keeps insertion order: \<open>insert\<close>
  replaces the value of a present key in place and appends a new one, \<open>remove\<close> swaps the last
  entry into the hole. \<open>serde_json::Map\<close> (built without \<open>preserve_order\<close>) is a \<open>BTreeMap\<close>, so
  its entries are sorted by key.
\<close>

type_synonym ('k, 'v) dict = "('k \<times> 'v) list"

abbreviation dict_get :: "('k, 'v) dict \<Rightarrow> 'k \<Rightarrow> 'v option" where
  "dict_get \<equiv> map_of"

fun idx_insert :: "'k \<Rightarrow> 'v \<Rightarrow> ('k, 'v) dict \<Rightarrow> ('k, 'v) dict" where
  "idx_insert k v [] = [(k, v)]"
| "idx_insert k v ((k', v') # m) = (if k = k' then (k, v) # m else (k', v') # idx_insert k v m)"

fun swap_remove :: "'k \<Rightarrow> ('k, 'v) dict \<Rightarrow> ('k, 'v) dict" where
  "swap_remove k [] = []"
| "swap_remove k ((k', v') # m) =
     (if k = k' then (if m = [] then [] else last m # butlast m)
      else (k', v') # swap_remove k m)"

definition dict_retain :: "('k \<Rightarrow> bool) \<Rightarrow> ('k, 'v) dict \<Rightarrow> ('k, 'v) dict" where
  "dict_retain P m = filter (\<lambda>(k, _). P k) m"

fun ord_insert :: "'k::linorder \<Rightarrow> 'v \<Rightarrow> ('k, 'v) dict \<Rightarrow> ('k, 'v) dict" where
  "ord_insert k v [] = [(k, v)]"
| "ord_insert k v ((k', v') # m) =
     (if k < k' then (k, v) # (k', v') # m
      else if k = k' then (k, v) # m
      else (k', v') # ord_insert k v m)"

definition dict_inv :: "('k, 'v) dict \<Rightarrow> bool" where
  "dict_inv m = distinct (map fst m)"

definition ord_inv :: "('k::linorder, 'v) dict \<Rightarrow> bool" where
  "ord_inv m = sorted_wrt (<) (map fst m)"

lemma set_idx_insert: "set (idx_insert k v m) \<subseteq> insert (k, v) (set m)"
  by (induction m) (auto split: if_splits)

lemma get_idx_insert [dict_simps]:
  "dict_get (idx_insert k v m) k' = (if k' = k then Some v else dict_get m k')"
  by (induction m) auto

lemma keys_idx_insert: "fst ` set (idx_insert k v m) = insert k (fst ` set m)"
  by (induction k v m rule: idx_insert.induct) (simp_all add: insert_commute)

lemma inv_idx_insert: "dict_inv m \<Longrightarrow> dict_inv (idx_insert k v m)"
  by (induction m) (auto simp: dict_inv_def keys_idx_insert)

lemma idx_insert_in: "dict_inv m \<Longrightarrow> (k', w) \<in> set (idx_insert k v m) \<longleftrightarrow>
    (k' = k \<and> w = v) \<or> (k' \<noteq> k \<and> (k', w) \<in> set m)"
  by (induction m) (force simp: dict_inv_def)+

lemma set_last_butlast: "m \<noteq> [] \<Longrightarrow> insert (last m) (set (butlast m)) = set m"
  by (metis append_butlast_last_id Un_insert_right list.simps(15) set_append sup_bot.right_neutral empty_set)

lemma set_swap_remove: "dict_inv m \<Longrightarrow> set (swap_remove k m) = {(k', v) \<in> set m. k' \<noteq> k}"
proof (induction m)
  case Nil
  then show ?case by simp
next
  case (Cons p m)
  obtain k' v' where p: "p = (k', v')" by (cases p)
  from Cons.prems have inv: "dict_inv m" and fresh: "k' \<notin> fst ` set m"
    by (auto simp: dict_inv_def p)
  show ?case
  proof (cases "k = k'")
    case True
    with fresh have "set (swap_remove k (p # m)) = set m"
      by (auto simp: p set_last_butlast [symmetric])
    with True fresh show ?thesis by (force simp: p)
  next
    case False
    with Cons.IH [OF inv] show ?thesis by (auto simp: p)
  qed
qed

lemma distinct_last_butlast: "m \<noteq> [] \<Longrightarrow> distinct (map fst (last m # butlast m)) = distinct (map fst m)"
  by (cases m rule: rev_cases) auto

lemma inv_swap_remove: "dict_inv m \<Longrightarrow> dict_inv (swap_remove k m)"
proof (induction m)
  case Nil
  then show ?case by (simp add: dict_inv_def)
next
  case (Cons p m)
  obtain k' v' where p: "p = (k', v')" by (cases p)
  from Cons.prems have inv: "dict_inv m" and fresh: "k' \<notin> fst ` set m"
    by (auto simp: dict_inv_def p)
  show ?case
  proof (cases "k = k'")
    case True
    then show ?thesis
      using inv distinct_last_butlast [of m] by (auto simp: p dict_inv_def)
  next
    case False
    have "k' \<notin> fst ` set (swap_remove k m)"
      using fresh by (force simp: set_swap_remove [OF inv])
    with False Cons.IH [OF inv] show ?thesis by (simp add: p dict_inv_def)
  qed
qed

lemma get_in: "dict_inv m \<Longrightarrow> dict_get m k = Some v \<longleftrightarrow> (k, v) \<in> set m"
  unfolding dict_inv_def by (rule map_of_eq_Some_iff)

lemma get_swap_remove [dict_simps]:
  "dict_inv m \<Longrightarrow> dict_get (swap_remove k m) k' = (if k' = k then None else dict_get m k')"
proof -
  assume inv: "dict_inv m"
  have "dict_get (swap_remove k m) k' = Some v \<longleftrightarrow> k' \<noteq> k \<and> dict_get m k' = Some v" for v
    using get_in [OF inv_swap_remove [OF inv], of k k' v] get_in [OF inv, of k' v]
    by (simp add: set_swap_remove [OF inv]) blast
  then show ?thesis by (metis not_Some_eq)
qed

lemma set_dict_retain: "set (dict_retain P m) = {(k, v) \<in> set m. P k}"
  by (auto simp: dict_retain_def)

lemma keys_dict_retain: "fst ` set (dict_retain P m) = {k \<in> fst ` set m. P k}"
  by (force simp: set_dict_retain)

lemma get_dict_retain [dict_simps]:
  "dict_get (dict_retain P m) k = (if P k then dict_get m k else None)"
  by (induction m) (auto simp: dict_retain_def)

lemma inv_dict_retain: "dict_inv m \<Longrightarrow> dict_inv (dict_retain P m)"
  by (induction m) (auto simp: dict_inv_def dict_retain_def)

lemma get_ord_insert [dict_simps]:
  "dict_get (ord_insert k v m) k' = (if k' = k then Some v else dict_get m k')"
  by (induction m) auto

lemma keys_ord_insert: "fst ` set (ord_insert k v m) = insert k (fst ` set m)"
  by (induction k v m rule: ord_insert.induct) (simp_all add: insert_commute)

lemma set_ord_insert: "set (ord_insert k v m) \<subseteq> insert (k, v) (set m)"
  by (induction m) (auto split: if_splits)

lemma inv_ord_insert: "ord_inv m \<Longrightarrow> ord_inv (ord_insert k v m)"
proof (induction m)
  case Nil
  then show ?case by (simp add: ord_inv_def)
next
  case (Cons p m)
  obtain k' v' where p: "p = (k', v')" by (cases p)
  from Cons.prems have below: "\<forall>x\<in>fst ` set m. k' < x" and inv: "ord_inv m"
    by (auto simp: ord_inv_def p)
  have "\<forall>x\<in>fst ` set (ord_insert k v m). k' < x" if "\<not> k < k'" "k \<noteq> k'"
    using below that by (auto simp only: keys_ord_insert)
  with below inv Cons.IH [OF inv] show ?case by (auto simp: p ord_inv_def)
qed

lemma inv_ord_retain: "ord_inv m \<Longrightarrow> ord_inv (dict_retain P m)"
  by (induction m) (auto simp: ord_inv_def dict_retain_def)

lemma ord_inv_dict_inv: "ord_inv m \<Longrightarrow> dict_inv m"
  unfolding ord_inv_def dict_inv_def by (simp add: strict_sorted_iff)

lemma map_result_get:
  assumes "map_result f m = Inr m'" and key: "\<And>p q. f p = Inr q \<Longrightarrow> fst q = fst p"
    and "dict_get m' k = Some w"
  shows "\<exists>v. dict_get m k = Some v \<and> f (k, v) = Inr (k, w)"
  using assms(1,3)
proof (induction m arbitrary: m')
  case Nil
  then show ?case by simp
next
  case (Cons p m)
  then obtain q ms where q: "f p = Inr q" "map_result f m = Inr ms" "m' = q # ms"
    by (auto simp: result_simps)
  show ?case
  proof (cases "fst p = k")
    case True
    with q Cons.prems key [OF q(1)] show ?thesis by (cases p; cases q) auto
  next
    case False
    with q Cons key [OF q(1)] show ?thesis by (cases p; cases q) auto
  qed
qed

subsection \<open>The dictionary interface\<close>

text \<open>
  What the sanitisers rely on from a document dictionary: \<open>insert\<close> sets one key and keeps the
  others, \<open>retain\<close> keeps the entries whose key is accepted, and both keep the representation
  invariant.
\<close>

locale document_dict =
  fixes insert :: "'k \<Rightarrow> 'v \<Rightarrow> ('k, 'v) dict \<Rightarrow> ('k, 'v) dict"
    and invar :: "('k, 'v) dict \<Rightarrow> bool"
  assumes get_insert: "dict_get (insert k v m) k' = (if k' = k then Some v else dict_get m k')"
    and insert_entries: "set (insert k v m) \<subseteq> Set.insert (k, v) (set m)"
    and invar_empty: "invar []"
    and invar_insert: "invar m \<Longrightarrow> invar (insert k v m)"
    and invar_retain: "invar m \<Longrightarrow> invar (dict_retain P m)"
    and invar_distinct: "invar m \<Longrightarrow> dict_inv m"
begin

text \<open>Writing a batch of forced settings, one \<open>insert\<close> after the other.\<close>

definition force :: "('k \<times> 'v) list \<Rightarrow> ('k, 'v) dict \<Rightarrow> ('k, 'v) dict" where
  "force kvs m = fold (\<lambda>(k, v). insert k v) kvs m"

lemma invar_force: "invar m \<Longrightarrow> invar (force kvs m)"
  by (induction kvs arbitrary: m) (auto simp: force_def invar_insert)

lemma get_force_other: "k \<notin> fst ` set kvs \<Longrightarrow> dict_get (force kvs m) k = dict_get m k"
proof (induction kvs arbitrary: m)
  case Nil
  then show ?case by (simp add: force_def)
next
  case (Cons p kvs)
  then show ?case by (cases p) (simp add: force_def get_insert)
qed

lemma get_force: "distinct (map fst kvs) \<Longrightarrow> (k, v) \<in> set kvs \<Longrightarrow> dict_get (force kvs m) k = Some v"
proof (induction kvs arbitrary: m)
  case Nil
  then show ?case by simp
next
  case (Cons p kvs)
  obtain k' v' where p: "p = (k', v')" by (cases p)
  show ?case
  proof (cases "(k, v) \<in> set kvs")
    case True
    with Cons show ?thesis by (simp add: force_def p)
  next
    case False
    with Cons.prems have kv: "k = k'" "v = v'" and "k \<notin> fst ` set kvs"
      by (auto simp: p)
    then have "dict_get (force kvs (insert k v m)) k = Some v"
      by (simp add: get_force_other get_insert)
    with kv show ?thesis by (simp add: force_def p)
  qed
qed

lemma retain_insert_keys:
  "invar m \<Longrightarrow> (k', w) \<in> set (insert k v (dict_retain P m)) \<Longrightarrow> k' = k \<or> P k'"
  using insert_entries [of k v "dict_retain P m"] by (auto simp: set_dict_retain)

end

interpretation idx: document_dict idx_insert dict_inv
  by unfold_locales
    (simp_all add: get_idx_insert set_idx_insert inv_idx_insert inv_dict_retain, simp add: dict_inv_def)

interpretation ord: document_dict ord_insert ord_inv
  by unfold_locales
    (simp_all add: get_ord_insert set_ord_insert inv_ord_insert inv_ord_retain ord_inv_dict_inv,
     simp add: ord_inv_def)

end
