(* ===== verification/Json_Doc.thy ===== *)
theory Json_Doc
  imports Rust_Str
begin

text \<open>
  JSON documents (\<open>serde_json::Value\<close>): the value type, the accessors the program uses, and the
  members and values found at any depth of a document. Objects are sorted by key, as in the
  \<open>BTreeMap\<close> behind \<open>serde_json::Map\<close>. A float is kept as its bit pattern; the program never
  computes with one.
\<close>

datatype num_value = PosInt u64 | NegInt "64 word" | Float "64 word"

datatype json =
    JNull
  | JBool bool
  | JNumber num_value
  | JString string
  | JArray "json list"
  | JObject "(string \<times> json) list"

type_synonym json_map = "(string, json) dict"

fun jas_str :: "json \<Rightarrow> string option" where
  "jas_str (JString s) = Some s"
| "jas_str _ = None"

fun jas_array :: "json \<Rightarrow> json list option" where
  "jas_array (JArray vs) = Some vs"
| "jas_array _ = None"

fun jas_object :: "json \<Rightarrow> json_map option" where
  "jas_object (JObject m) = Some m"
| "jas_object _ = None"

fun num_as_u64 :: "num_value \<Rightarrow> u64 option" where
  "num_as_u64 (PosInt n) = Some n"
| "num_as_u64 _ = None"

fun jis_boolean :: "json \<Rightarrow> bool" where
  "jis_boolean (JBool _) = True"
| "jis_boolean _ = False"

fun jis_u64 :: "json \<Rightarrow> bool" where
  "jis_u64 (JNumber n) = (num_as_u64 n \<noteq> None)"
| "jis_u64 _ = False"

definition jis_string :: "json \<Rightarrow> bool" where
  "jis_string v \<longleftrightarrow> jas_str v \<noteq> None"

lemma jas_object_Some: "jas_object v = Some m \<longleftrightarrow> v = JObject m"
  by (cases v) auto

lemma jas_array_Some: "jas_array v = Some m \<longleftrightarrow> v = JArray m"
  by (cases v) auto

lemma member_size: "(k, v) \<in> set m \<Longrightarrow> size v < size (JObject m)"
  by (induction m) auto

fun jvalues :: "json \<Rightarrow> json list" where
  "jvalues (JArray vs) = JArray vs # concat (map jvalues vs)"
| "jvalues (JObject m) = JObject m # concat (map (\<lambda>p. jvalues (snd p)) m)"
| "jvalues v = [v]"

fun jmembers :: "json \<Rightarrow> (string \<times> json) list" where
  "jmembers (JArray vs) = concat (map jmembers vs)"
| "jmembers (JObject m) = concat (map (\<lambda>p. p # jmembers (snd p)) m)"
| "jmembers v = []"

text \<open>Every object of a document is a sorted dictionary.\<close>

fun json_wf :: "json \<Rightarrow> bool" where
  "json_wf (JArray vs) = (\<forall>v\<in>set vs. json_wf v)"
| "json_wf (JObject m) = (ord_inv m \<and> (\<forall>p\<in>set m. json_wf (snd p)))"
| "json_wf v = True"

end
