(* ===== verification/Ip_Addr.thy ===== *)
theory Ip_Addr
  imports Rust_Str
begin

unbundle bit_operations_syntax

text \<open>
  \<open>std::net::IpAddr\<close> as the program uses it (textual parsing, \<open>is_loopback\<close>, the numeric value)
  and the CIDR prefixes of \<open>mihomo_dns_guard.rs\<close>. The parser follows the standard library's
  recursive descent: IPv4 first (four decimal groups without leading zeros), then IPv6 (hexadecimal
  groups, one \<open>::\<close>, an optional trailing dotted quad).
\<close>

section \<open>Textual addresses\<close>

datatype ip_addr = V4 u32 | V6 "128 word"

definition digit_in :: "nat \<Rightarrow> char \<Rightarrow> nat option" where
  "digit_in radix c =
     (let n = byte c;
          d = (if 48 \<le> n \<and> n \<le> 57 then n - 48
               else if 97 \<le> n \<and> n \<le> 122 then n - 87
               else if 65 \<le> n \<and> n \<le> 90 then n - 55 else 99)
      in if d < radix then Some d else None)"

definition digits_of :: "nat \<Rightarrow> string \<Rightarrow> nat" where
  "digits_of radix ds = foldl (\<lambda>a c. a * radix + the (digit_in radix c)) 0 ds"

definition read_number ::
    "nat \<Rightarrow> nat \<Rightarrow> bool \<Rightarrow> nat \<Rightarrow> string \<Rightarrow> (nat \<times> string) option" where
  "read_number radix max_digits allow_zero_prefix hi s =
     (let ds = takeWhile (\<lambda>c. digit_in radix c \<noteq> None) s; n = length ds
      in if n = 0 \<or> n > max_digits then None
         else if \<not> allow_zero_prefix \<and> hd ds = CHR ''0'' \<and> n > 1 then None
         else if digits_of radix ds \<le> hi then Some (digits_of radix ds, drop n s) else None)"

fun read_given_char :: "char \<Rightarrow> string \<Rightarrow> string option" where
  "read_given_char d [] = None"
| "read_given_char d (c # cs) = (if c = d then Some cs else None)"

definition read_separator ::
    "char \<Rightarrow> nat \<Rightarrow> (string \<Rightarrow> ('a \<times> string) option) \<Rightarrow> string \<Rightarrow> ('a \<times> string) option" where
  "read_separator sep i inner s =
     (if i > 0 then Option.bind (read_given_char sep s) inner else inner s)"

definition read_octet :: "string \<Rightarrow> (nat \<times> string) option" where
  "read_octet s = read_number 10 3 False 255 s"

fun read_octets :: "nat \<Rightarrow> nat \<Rightarrow> string \<Rightarrow> (nat list \<times> string) option" where
  "read_octets 0 i s = Some ([], s)"
| "read_octets (Suc n) i s =
     (case read_separator CHR ''.'' i read_octet s of
        None \<Rightarrow> None
      | Some (o1, t) \<Rightarrow>
          (case read_octets n (Suc i) t of None \<Rightarrow> None | Some (os, u) \<Rightarrow> Some (o1 # os, u)))"

definition read_ipv4_octets :: "string \<Rightarrow> (nat list \<times> string) option" where
  "read_ipv4_octets s = read_octets 4 0 s"

fun read_groups :: "nat \<Rightarrow> nat \<Rightarrow> string \<Rightarrow> nat list \<times> bool \<times> string" where
  "read_groups 0 i s = ([], False, s)"
| "read_groups (Suc r) i s =
     (case (if r > 0 then read_separator CHR '':'' i read_ipv4_octets s else None) of
        Some ([a, b, c, d], t) \<Rightarrow> ([a * 256 + b, c * 256 + d], True, t)
      | _ \<Rightarrow>
          (case read_separator CHR '':'' i (read_number 16 4 True 65535) s of
             None \<Rightarrow> ([], False, s)
           | Some (g, t) \<Rightarrow>
               (case read_groups r (Suc i) t of (gs, v4, u) \<Rightarrow> (g # gs, v4, u))))"

definition from_groups :: "nat list \<Rightarrow> 128 word" where
  "from_groups gs = foldl (\<lambda>a g. a * 65536 + of_nat g) 0 gs"

definition from_octets :: "nat list \<Rightarrow> u32" where
  "from_octets os = foldl (\<lambda>a g. a * 256 + of_nat g) 0 os"

definition read_ipv6_addr :: "string \<Rightarrow> (128 word \<times> string) option" where
  "read_ipv6_addr s =
     (case read_groups 8 0 s of (head, v4, t) \<Rightarrow>
        if length head = 8 then Some (from_groups head, t)
        else if v4 then None
        else (case Option.bind (read_given_char CHR '':'' t) (read_given_char CHR '':'') of
                None \<Rightarrow> None
              | Some u \<Rightarrow>
                  (case read_groups (8 - (length head + 1)) 0 u of (tail, _, w) \<Rightarrow>
                     Some (from_groups
                       (head @ replicate (8 - length head - length tail) 0 @ tail), w))))"

definition parse_ip :: "string \<Rightarrow> ip_addr option" where
  "parse_ip s =
     (case (case read_ipv4_octets s of
              Some (os, t) \<Rightarrow> Some (V4 (from_octets os), t)
            | None \<Rightarrow> map_option (\<lambda>(a, t). (V6 a, t)) (read_ipv6_addr s)) of
        Some (a, []) \<Rightarrow> Some a
      | _ \<Rightarrow> None)"

fun is_loopback :: "ip_addr \<Rightarrow> bool" where
  "is_loopback (V4 a) \<longleftrightarrow> drop_bit 24 a = 127"
| "is_loopback (V6 a) \<longleftrightarrow> a = 1"

section \<open>CIDR prefixes\<close>

record cidr =
  address :: ip_addr
  prefix_len :: u8

fun is_ipv6 :: "ip_addr \<Rightarrow> bool" where
  "is_ipv6 (V4 _) = False"
| "is_ipv6 (V6 _) = True"

definition cidr_parse :: "string \<Rightarrow> cidr option" where
  "cidr_parse text =
     (case split_once CHR ''/'' (trim text) of
        None \<Rightarrow> None
      | Some (a, l) \<Rightarrow>
          (case parse_ip (trim a) of
             None \<Rightarrow> None
           | Some ip \<Rightarrow>
               (case parse_u8 (trim l) of
                  None \<Rightarrow> None
                | Some n \<Rightarrow>
                    (if n \<le> (if is_ipv6 ip then 128 else 32)
                     then Some \<lparr>address = ip, prefix_len = n\<rparr> else None))))"

definition cidr_is_v6 :: "cidr \<Rightarrow> bool" where
  "cidr_is_v6 p = is_ipv6 (address p)"

text \<open>\<open>MAX.checked_shl(n).unwrap_or(0)\<close> at width \<open>'a\<close>.\<close>

definition all_ones_shl :: "nat \<Rightarrow> 'a::len word" where
  "all_ones_shl n = (if n < LENGTH('a) then push_bit n (- 1) else 0)"

definition cidr_covers :: "cidr \<Rightarrow> cidr \<Rightarrow> bool" where
  "cidr_covers outer inner \<longleftrightarrow>
     (if prefix_len outer > prefix_len inner then False
      else case (address outer, address inner) of
             (V4 a, V4 b) \<Rightarrow>
               (let mask = all_ones_shl (32 - unat (prefix_len outer)) in a AND mask = b AND mask)
           | (V6 a, V6 b) \<Rightarrow>
               (let mask = all_ones_shl (128 - unat (prefix_len outer)) in a AND mask = b AND mask)
           | _ \<Rightarrow> False)"

text \<open>The addresses a prefix stands for: those that agree with it on the leading bits.\<close>

definition agree_above :: "nat \<Rightarrow> 'a::len word \<Rightarrow> 'a word \<Rightarrow> bool" where
  "agree_above n a b \<longleftrightarrow> (\<forall>k. n \<le> k \<longrightarrow> k < LENGTH('a) \<longrightarrow> bit a k = bit b k)"

fun in_cidr :: "ip_addr \<Rightarrow> cidr \<Rightarrow> bool" where
  "in_cidr (V4 a) p =
     (case address p of V4 b \<Rightarrow> agree_above (32 - unat (prefix_len p)) a b | _ \<Rightarrow> False)"
| "in_cidr (V6 a) p =
     (case address p of V6 b \<Rightarrow> agree_above (128 - unat (prefix_len p)) a b | _ \<Rightarrow> False)"

definition cidr_wf :: "cidr \<Rightarrow> bool" where
  "cidr_wf p \<longleftrightarrow> prefix_len p \<le> (if cidr_is_v6 p then 128 else 32)"

lemma cidr_parse_wf: "cidr_parse text = Some p \<Longrightarrow> cidr_wf p"
  by (auto simp: cidr_parse_def cidr_wf_def cidr_is_v6_def split: option.splits if_splits prod.splits)

lemma bit_all_ones_shl: "bit (all_ones_shl n :: 'a::len word) k \<longleftrightarrow> n \<le> k \<and> k < LENGTH('a)"
  by (auto simp: all_ones_shl_def bit_push_bit_iff bit_not_iff bit_mask_iff dest: bit_imp_le_length)

lemma masked_eq_iff:
  "(a AND all_ones_shl n = b AND all_ones_shl n) \<longleftrightarrow> agree_above n a (b :: 'a::len word)"
  by (auto simp: bit_eq_iff bit_and_iff bit_all_ones_shl agree_above_def)

lemma agree_above_refl [simp]: "agree_above n a a"
  by (simp add: agree_above_def)

lemma agree_above_subset:
  fixes a b :: "'a::len word"
  assumes "n \<le> LENGTH('a)" and "m \<le> LENGTH('a)"
  shows "(\<forall>x. agree_above m x b \<longrightarrow> agree_above n x a) \<longleftrightarrow> m \<le> n \<and> agree_above n a b"
proof
  assume sub: "\<forall>x. agree_above m x b \<longrightarrow> agree_above n x a"
  then have ab: "agree_above n b a" by simp
  have "m \<le> n"
  proof (rule ccontr)
    assume "\<not> m \<le> n"
    then have nm: "n < m" by simp
    define x where "x = b XOR push_bit n 1"
    have bx: "bit x k \<longleftrightarrow> bit b k \<noteq> (k = n)" if "k < LENGTH('a)" for k
      using that by (auto simp: x_def bit_xor_iff bit_exp_iff)
    have "agree_above m x b" using nm by (simp add: agree_above_def bx)
    with sub have "agree_above n x a" by blast
    moreover from nm assms(2) have "n < LENGTH('a)" by simp
    ultimately show False using ab by (auto simp: agree_above_def bx)
  qed
  with ab show "m \<le> n \<and> agree_above n a b" by (auto simp: agree_above_def)
next
  assume "m \<le> n \<and> agree_above n a b"
  then show "\<forall>x. agree_above m x b \<longrightarrow> agree_above n x a" by (auto simp: agree_above_def)
qed

lemma all_ip_addr: "(\<forall>x. P x) \<longleftrightarrow> (\<forall>a. P (V4 a)) \<and> (\<forall>a. P (V6 a))"
  by (metis ip_addr.exhaust)

lemma in_cidr_same_family: "in_cidr a p \<Longrightarrow> is_ipv6 a = cidr_is_v6 p"
  by (cases a) (auto simp: cidr_is_v6_def split: ip_addr.splits)

lemma in_cidr_self: "in_cidr (address p) p"
  by (cases "address p") auto

lemma cidr_covers_v4:
  "address outer = V4 a \<Longrightarrow> address inner = V4 b \<Longrightarrow>
     cidr_covers outer inner \<longleftrightarrow>
       prefix_len outer \<le> prefix_len inner \<and> agree_above (32 - unat (prefix_len outer)) a b"
  by (auto simp: cidr_covers_def masked_eq_iff)

lemma cidr_covers_v6:
  "address outer = V6 a \<Longrightarrow> address inner = V6 b \<Longrightarrow>
     cidr_covers outer inner \<longleftrightarrow>
       prefix_len outer \<le> prefix_len inner \<and> agree_above (128 - unat (prefix_len outer)) a b"
  by (auto simp: cidr_covers_def masked_eq_iff)

lemma cidr_wf_len: "cidr_wf p \<Longrightarrow> unat (prefix_len p) \<le> (if cidr_is_v6 p then 128 else 32)"
  by (auto simp: cidr_wf_def word_le_nat_alt split: if_splits)

lemma cidr_covers_mixed:
  "cidr_is_v6 outer \<noteq> cidr_is_v6 inner \<Longrightarrow> \<not> cidr_covers outer inner"
  by (auto simp: cidr_covers_def cidr_is_v6_def split: ip_addr.splits)

lemma cidr_covers_subset:
  assumes wf: "cidr_wf outer" "cidr_wf inner"
  shows "cidr_covers outer inner \<longleftrightarrow> (\<forall>a. in_cidr a inner \<longrightarrow> in_cidr a outer)"
proof (cases "cidr_is_v6 outer = cidr_is_v6 inner")
  case False
  then have "\<not> in_cidr (address inner) outer"
    using in_cidr_same_family [of "address inner" outer] by (auto simp: cidr_is_v6_def)
  with False show ?thesis using in_cidr_self cidr_covers_mixed by blast
next
  case same: True
  show ?thesis
  proof (cases "address outer")
    case (V4 a)
    with same obtain b where b: "address inner = V4 b"
      by (cases "address inner") (auto simp: cidr_is_v6_def)
    have len: "unat (prefix_len outer) \<le> 32" "unat (prefix_len inner) \<le> 32"
      using wf [THEN cidr_wf_len] V4 b by (auto simp: cidr_is_v6_def)
    have "(\<forall>x. in_cidr x inner \<longrightarrow> in_cidr x outer) \<longleftrightarrow>
        (\<forall>x. agree_above (32 - unat (prefix_len inner)) x b \<longrightarrow>
              agree_above (32 - unat (prefix_len outer)) x a)"
      by (subst all_ip_addr) (simp add: V4 b)
    also have "\<dots> \<longleftrightarrow> cidr_covers outer inner"
      using len by (simp add: agree_above_subset cidr_covers_v4 [OF V4 b] word_le_nat_alt) linarith
    finally show ?thesis by blast
  next
    case (V6 a)
    with same obtain b where b: "address inner = V6 b"
      by (cases "address inner") (auto simp: cidr_is_v6_def)
    have len: "unat (prefix_len outer) \<le> 128" "unat (prefix_len inner) \<le> 128"
      using wf [THEN cidr_wf_len] V6 b by (auto simp: cidr_is_v6_def)
    have "(\<forall>x. in_cidr x inner \<longrightarrow> in_cidr x outer) \<longleftrightarrow>
        (\<forall>x. agree_above (128 - unat (prefix_len inner)) x b \<longrightarrow>
              agree_above (128 - unat (prefix_len outer)) x a)"
      by (subst all_ip_addr) (simp add: V6 b)
    also have "\<dots> \<longleftrightarrow> cidr_covers outer inner"
      using len by (simp add: agree_above_subset cidr_covers_v6 [OF V6 b] word_le_nat_alt) linarith
    finally show ?thesis by blast
  qed
qed

text \<open>Evaluating address literals with the simplifier.\<close>

lemmas read_octets_numeral = read_octets.simps(2) [of "pred_numeral k" for k, folded numeral_eq_Suc]
lemmas read_groups_numeral = read_groups.simps(2) [of "pred_numeral k" for k, folded numeral_eq_Suc]

lemmas replicate_numeral = replicate_Suc [of "pred_numeral k" for k, folded numeral_eq_Suc]

lemmas ip_eval =
  cidr_parse_def parse_ip_def read_ipv6_addr_def read_ipv4_octets_def read_octet_def
  read_separator_def read_number_def digits_of_def digit_in_def from_groups_def from_octets_def
  read_octets_numeral read_groups_numeral replicate_numeral parse_u8_def parse_uint_def is_ascii_digit_def Let_def

end
