(* ===== verification/Sanitize_Base.thy ===== *)
theory Sanitize_Base
  imports Json_Doc Ip_Addr
begin

text \<open>
  What the Mihomo and the Xray halves of \<open>config_sanitize.rs\<close> share: the error type, the
  locations that error messages carry, and case-folded key lookup.
\<close>

datatype sanitize_error =
    Malformed
  | MissingMixedPort
  | FileReference string
  | NonLoopbackListener string
  | ServiceDirectory
  | ForbiddenProtocol string
  | ForbiddenField string
  | LocalEndpoint string

text \<open>\<open>format!("{at}.{name}")\<close> and \<open>format!("{at}[{index}]")\<close>.\<close>

definition at_field :: "string \<Rightarrow> string \<Rightarrow> string" where
  "at_field at name = at @ ''.'' @ name"

definition at_index :: "string \<Rightarrow> nat \<Rightarrow> string" where
  "at_index at i = at @ ''['' @ show_nat i @ '']''"

definition is_named :: "string \<Rightarrow> string list \<Rightarrow> bool" where
  "is_named name names = list_ex (\<lambda>known. eq_ignore_ascii_case name known) names"

definition field :: "json_map \<Rightarrow> string \<Rightarrow> json option" where
  "field m name = map_option snd (find (\<lambda>p. eq_ignore_ascii_case (fst p) name) m)"

definition keep_known :: "string list \<Rightarrow> json_map \<Rightarrow> json_map" where
  "keep_known allowed m =
     foldl (\<lambda>acc p.
       case find (\<lambda>known. eq_ignore_ascii_case (fst p) known) allowed of
         Some canonical \<Rightarrow> ord_insert canonical (snd p) acc
       | None \<Rightarrow> acc) [] m"

definition only_known :: "string list \<Rightarrow> string \<Rightarrow> json_map \<Rightarrow> sanitize_error + json_map" where
  "only_known allowed at m =
     (case find (\<lambda>p. \<not> is_named (fst p) allowed) m of
        Some p \<Rightarrow> Inl (ForbiddenField (at_field at (fst p)))
      | None \<Rightarrow> Inr (keep_known allowed m))"

section \<open>Case folding\<close>

lemma is_named_iff: "is_named name names \<longleftrightarrow> (\<exists>k\<in>set names. eq_ignore_ascii_case name k)"
  by (simp add: is_named_def list_ex_iff)

lemma is_named_fold: "eq_ignore_ascii_case a b \<Longrightarrow> is_named a names = is_named b names"
  by (simp add: is_named_iff eq_ignore_ascii_case_def)

lemma is_named_member [simp]: "k \<in> set names \<Longrightarrow> is_named k names"
  by (auto simp: is_named_iff intro: bexI [of _ k])

definition fold_distinct :: "string list \<Rightarrow> bool" where
  "fold_distinct ks = distinct (map to_ascii_lowercase ks)"

lemma find_fold_Some:
  "find (\<lambda>known. eq_ignore_ascii_case n known) allowed = Some c \<Longrightarrow>
     c \<in> set allowed \<and> eq_ignore_ascii_case n c"
  by (auto simp: find_Some_iff)

lemma find_fold_None:
  "find (\<lambda>known. eq_ignore_ascii_case n known) allowed = None \<longleftrightarrow> \<not> is_named n allowed"
  by (auto simp: find_None_iff is_named_iff)

lemma find_fold_unique:
  "fold_distinct allowed \<Longrightarrow> c \<in> set allowed \<Longrightarrow> eq_ignore_ascii_case n c \<Longrightarrow>
     find (\<lambda>known. eq_ignore_ascii_case n known) allowed = Some c"
proof (induction allowed)
  case Nil
  then show ?case by simp
next
  case (Cons a allowed)
  show ?case
  proof (cases "eq_ignore_ascii_case n a")
    case True
    with Cons.prems have "to_ascii_lowercase a = to_ascii_lowercase c"
      by (simp add: eq_ignore_ascii_case_def)
    with Cons.prems(1,2) have "c = a" by (auto simp: fold_distinct_def)
    with True show ?thesis by simp
  next
    case False
    with Cons show ?thesis by (auto simp: fold_distinct_def)
  qed
qed

section \<open>Keeping known fields\<close>

text \<open>A snoc-recursive view of the loop of \<open>keep_known\<close>.\<close>

lemma keep_known_snoc:
  "keep_known allowed (m @ [p]) =
     (case find (\<lambda>known. eq_ignore_ascii_case (fst p) known) allowed of
        Some canonical \<Rightarrow> ord_insert canonical (snd p) (keep_known allowed m)
      | None \<Rightarrow> keep_known allowed m)"
  by (simp add: keep_known_def split: option.split)

lemma keep_known_Nil [simp]: "keep_known allowed [] = []"
  by (simp add: keep_known_def)

lemma keep_known_entries:
  "(c, v) \<in> set (keep_known allowed m) \<Longrightarrow>
     c \<in> set allowed \<and> (\<exists>n. (n, v) \<in> set m \<and> eq_ignore_ascii_case n c)"
proof (induction m rule: rev_induct)
  case Nil
  then show ?case by simp
next
  case (snoc p m)
  show ?case
  proof (cases "find (\<lambda>known. eq_ignore_ascii_case (fst p) known) allowed")
    case None
    with snoc show ?thesis by (auto simp: keep_known_snoc)
  next
    case (Some d)
    note d = find_fold_Some [OF Some]
    from snoc.prems Some have "(c, v) = (d, snd p) \<or> (c, v) \<in> set (keep_known allowed m)"
      using set_ord_insert [of d "snd p" "keep_known allowed m"] by (auto simp: keep_known_snoc)
    with d snoc.IH show ?thesis by (cases p) fastforce
  qed
qed

lemma keep_known_ord_inv: "ord_inv (keep_known allowed m)"
proof (induction m rule: rev_induct)
  case Nil
  then show ?case by (simp add: ord_inv_def)
next
  case (snoc p m)
  then show ?case by (auto simp: keep_known_snoc inv_ord_insert split: option.splits)
qed

lemma field_snoc:
  "field (m @ [p]) n =
     (case field m n of Some v \<Rightarrow> Some v
      | None \<Rightarrow> if eq_ignore_ascii_case (fst p) n then Some (snd p) else None)"
  by (induction m) (auto simp: field_def)

lemma field_None: "field m n = None \<longleftrightarrow> (\<forall>p\<in>set m. \<not> eq_ignore_ascii_case (fst p) n)"
  by (auto simp: field_def find_None_iff)

lemma field_Some: "field m n = Some v \<Longrightarrow> \<exists>k. (k, v) \<in> set m \<and> eq_ignore_ascii_case k n"
  by (auto simp: field_def find_Some_iff) (metis nth_mem fst_conv)

text \<open>
  With keys that do not collide under folding, the kept object answers an exact lookup of a
  canonical name with what a folded lookup finds in the original.
\<close>

lemma get_keep_known:
  assumes "fold_distinct (map fst m)" and "fold_distinct allowed" and "c \<in> set allowed"
  shows "dict_get (keep_known allowed m) c = field m c"
  using assms
proof (induction m rule: rev_induct)
  case Nil
  then show ?case by (simp add: field_def)
next
  case (snoc p m)
  then have IH: "dict_get (keep_known allowed m) c = field m c"
    by (simp add: fold_distinct_def)
  show ?case
  proof (cases "eq_ignore_ascii_case (fst p) c")
    case True
    then have "find (\<lambda>known. eq_ignore_ascii_case (fst p) known) allowed = Some c"
      using snoc.prems by (intro find_fold_unique) auto
    moreover have "field m c = None"
      using snoc.prems(1) True
      by (force simp: field_None fold_distinct_def eq_ignore_ascii_case_def)
    ultimately show ?thesis
      using True by (simp add: keep_known_snoc field_snoc get_ord_insert)
  next
    case False
    have "dict_get (keep_known allowed (m @ [p])) c = dict_get (keep_known allowed m) c"
      using False
      by (auto simp: keep_known_snoc get_ord_insert dest: find_fold_Some split: option.splits)
    with False IH show ?thesis by (simp add: field_snoc split: option.splits)
  qed
qed

lemma only_known_Inr:
  "only_known allowed at m = Inr k \<longleftrightarrow>
     (\<forall>p\<in>set m. is_named (fst p) allowed) \<and> k = keep_known allowed m"
  by (auto simp: only_known_def find_None_iff find_Some_iff split: option.splits)

end
