(* ===== verification/Xray_Sanitize.thy ===== *)
theory Xray_Sanitize
  imports Sanitize_Base
begin

text \<open>
  The Xray half of \<open>config_sanitize.rs\<close>: what \<open>sanitize_xray\<close> does to a staged Xray document
  before the privileged service runs it. The definitions follow the source function by function;
  every early return is an \<open>Inl\<close> with the source's error and location.
\<close>

section \<open>Tables\<close>

definition ALLOWED_XRAY_LOG_KEYS :: "string list" where
  "ALLOWED_XRAY_LOG_KEYS = [''loglevel'', ''dnslog'', ''maskaddress'']"

definition ALLOWED_XRAY_SECTIONS :: "string list" where
  "ALLOWED_XRAY_SECTIONS =
     [''log'', ''dns'', ''routing'', ''inbounds'', ''outbounds'', ''policy'', ''observatory'',
      ''burstObservatory'', ''fakedns'']"

definition ALLOWED_XRAY_INBOUND_PROTOCOLS :: "string list" where
  "ALLOWED_XRAY_INBOUND_PROTOCOLS = [''socks'']"

definition ALLOWED_XRAY_INBOUND_KEYS :: "string list" where
  "ALLOWED_XRAY_INBOUND_KEYS =
     [''tag'', ''listen'', ''port'', ''protocol'', ''settings'', ''sniffing'']"

definition ALLOWED_XRAY_SOCKS_SETTINGS :: "string list" where
  "ALLOWED_XRAY_SOCKS_SETTINGS =
     [''auth'', ''udp'', ''ip'', ''accounts'', ''users'', ''userLevel'']"

definition ALLOWED_XRAY_SOCKS_ACCOUNT_KEYS :: "string list" where
  "ALLOWED_XRAY_SOCKS_ACCOUNT_KEYS = [''user'', ''pass'']"

definition ALLOWED_XRAY_SOCKS_AUTH :: "string list" where
  "ALLOWED_XRAY_SOCKS_AUTH = [''noauth'', ''password'']"

definition ALLOWED_XRAY_SNIFFING_KEYS :: "string list" where
  "ALLOWED_XRAY_SNIFFING_KEYS =
     [''enabled'', ''destOverride'', ''domainsExcluded'', ''ipsExcluded'', ''metadataOnly'',
      ''routeOnly'']"

definition ALLOWED_XRAY_OUTBOUND_PROTOCOLS :: "string list" where
  "ALLOWED_XRAY_OUTBOUND_PROTOCOLS =
     [''blackhole'', ''block'', ''dns'', ''direct'', ''freedom'', ''http'', ''hysteria'',
      ''loopback'', ''masque'', ''shadowsocks'', ''socks'', ''trojan'', ''vless'', ''vmess'',
      ''wireguard'']"

definition ALLOWED_XRAY_OUTBOUND_KEYS :: "string list" where
  "ALLOWED_XRAY_OUTBOUND_KEYS =
     [''protocol'', ''sendThrough'', ''tag'', ''settings'', ''streamSettings'', ''proxySettings'',
      ''mux'', ''targetStrategy'']"

definition ALLOWED_XRAY_ROUTING_KEYS :: "string list" where
  "ALLOWED_XRAY_ROUTING_KEYS = [''rules'', ''domainStrategy'', ''balancers'']"

definition ALLOWED_XRAY_RULE_KEYS :: "string list" where
  "ALLOWED_XRAY_RULE_KEYS =
     [''type'', ''ruleTag'', ''outboundTag'', ''balancerTag'', ''domain'', ''domains'', ''ip'',
      ''port'', ''network'', ''sourceIP'', ''source'', ''sourcePort'', ''user'', ''vlessRoute'',
      ''inboundTag'', ''protocol'', ''attrs'', ''localIP'', ''localPort'', ''process'',
      ''localOS'']"

definition ALLOWED_XRAY_BALANCER_KEYS :: "string list" where
  "ALLOWED_XRAY_BALANCER_KEYS = [''tag'', ''selector'', ''strategy'', ''fallbackTag'']"

definition ALLOWED_XRAY_STRATEGY_KEYS :: "string list" where
  "ALLOWED_XRAY_STRATEGY_KEYS = [''type'', ''settings'']"

definition XRAY_ENDPOINT_KEYS :: "string list" where
  "XRAY_ENDPOINT_KEYS =
     [''address'', ''server'', ''servers'', ''target'', ''dest'', ''destination'', ''url'',
      ''host'', ''endpoint'', ''redirect'', ''sendThrough'', ''rewriteAddress'', ''probeURL'',
      ''connectivity'', ''stunServers'', ''resolvers'', ''addr'']"

definition XRAY_FORBIDDEN_KEYS :: "string list" where
  "XRAY_FORBIDDEN_KEYS =
     [''masquerade'', ''fallbacks'', ''decryption'', ''echServerKeys'', ''customSockopt'']"

definition XRAY_XDRIVE_SERVICES :: "string list" where
  "XRAY_XDRIVE_SERVICES = [''local'', ''Google Drive'', ''template'']"

definition XRAY_XDRIVE_DIRECTORY :: string where
  "XRAY_XDRIVE_DIRECTORY = ''xdrive''"

definition XRAY_OUTPUT_FILE_KEYS :: "string list" where
  "XRAY_OUTPUT_FILE_KEYS = [''masterKeyLog'']"

section \<open>Refusals at any depth\<close>

fun reject_ambiguous_keys :: "json \<Rightarrow> sanitize_error + unit" where
  "reject_ambiguous_keys (JObject m) =
     each_result_from 0
       (\<lambda>i p. if \<not> is_ascii (fst p)
                 \<or> to_ascii_lowercase (fst p) \<in> set (map (\<lambda>q. to_ascii_lowercase (fst q)) (take i m))
               then Inl Malformed else reject_ambiguous_keys (snd p)) m"
| "reject_ambiguous_keys (JArray vs) = each_result reject_ambiguous_keys vs"
| "reject_ambiguous_keys v = Inr ()"

definition is_external_geodata :: "string \<Rightarrow> bool" where
  "is_external_geodata text =
     (case get_prefix 4 text of None \<Rightarrow> False | Some p \<Rightarrow> eq_ignore_ascii_case p ''ext:'')"

definition is_local_endpoint :: "string \<Rightarrow> bool" where
  "is_local_endpoint text =
     (let trimmed = trim_start text; lower = to_ascii_lowercase trimmed
      in CHR 0x00 \<in> set text
         \<or> (case trimmed of b # _ \<Rightarrow> b \<in> {CHR ''/'', CHR ''@'', CHR 0x5C} | [] \<Rightarrow> False)
         \<or> starts_with ''file:'' lower
         \<or> starts_with ''env:'' lower
         \<or> contains_str ''unix:'' lower
         \<or> (case trimmed of
              a # b # rest \<Rightarrow>
                is_ascii_alphabetic a \<and> b = CHR '':''
                \<and> (case rest of [] \<Rightarrow> True | c # _ \<Rightarrow> c \<in> {CHR ''/'', CHR 0x5C})
            | _ \<Rightarrow> False))"

definition is_local_value :: "json \<Rightarrow> bool" where
  "is_local_value v = (case jas_str v of Some s \<Rightarrow> is_local_endpoint s | None \<Rightarrow> False)"

fun first_index :: "nat \<Rightarrow> ('a \<Rightarrow> bool) \<Rightarrow> 'a list \<Rightarrow> nat option" where
  "first_index i P [] = None"
| "first_index i P (x # xs) = (if P x then Some i else first_index (Suc i) P xs)"

text \<open>The checks on one member of an object, in the order of the source.\<close>

definition check_xray_member :: "string \<Rightarrow> string \<Rightarrow> json \<Rightarrow> sanitize_error + unit" where
  "check_xray_member here name child =
     (if is_named name [''certificateFile'', ''keyFile''] \<or> is_external_geodata name
      then Inl (FileReference here)
      else if is_named name XRAY_FORBIDDEN_KEYS
           \<or> (eq_ignore_ascii_case name ''tproxy''
              \<and> \<not> (case jas_str child of
                     Some mode \<Rightarrow> mode = [] \<or> eq_ignore_ascii_case mode ''off''
                   | None \<Rightarrow> False))
      then Inl (ForbiddenField here)
      else if is_named name [''type'', ''network'']
           \<and> (case jas_str child of
                Some kind \<Rightarrow> contains_str ''unix'' (to_ascii_lowercase kind)
              | None \<Rightarrow> False)
      then Inl (LocalEndpoint here)
      else if is_named name XRAY_ENDPOINT_KEYS
      then (case child of
              JString text \<Rightarrow> if is_local_endpoint text then Inl (LocalEndpoint here) else Inr ()
            | JArray items \<Rightarrow>
                (case first_index 0 is_local_value items of
                   Some i \<Rightarrow> Inl (LocalEndpoint (at_index here i))
                 | None \<Rightarrow> Inr ())
            | _ \<Rightarrow> Inr ())
      else Inr ())"

fun reject_xray_references :: "json \<Rightarrow> string \<Rightarrow> sanitize_error + unit" where
  "reject_xray_references (JObject m) at =
     each_result
       (\<lambda>p. rbind (check_xray_member (at_field at (fst p)) (fst p) (snd p))
              (\<lambda>_. reject_xray_references (snd p) (at_field at (fst p)))) m"
| "reject_xray_references (JArray vs) at =
     each_result_from 0 (\<lambda>i v. reject_xray_references v (at_index at i)) vs"
| "reject_xray_references (JString text) at =
     (if is_external_geodata text then Inl (FileReference at) else Inr ())"
| "reject_xray_references v at = Inr ()"

function strip_output_files :: "json \<Rightarrow> json" where
  "strip_output_files (JObject m) =
     JObject (map (\<lambda>p. (fst p, strip_output_files (snd p)))
       (dict_retain (\<lambda>n. \<not> is_named n XRAY_OUTPUT_FILE_KEYS) m))"
| "strip_output_files (JArray vs) = JArray (map strip_output_files vs)"
| "strip_output_files JNull = JNull"
| "strip_output_files (JBool b) = JBool b"
| "strip_output_files (JNumber n) = JNumber n"
| "strip_output_files (JString s) = JString s"
  by pat_completeness auto
termination
  by (relation "measure size")
    (auto simp: set_dict_retain dest: member_size, simp add: less_Suc_eq_le size_list_estimation')

section \<open>The xdrive transport\<close>

definition xdrive_devices :: "string list" where
  "xdrive_devices = [''con'', ''prn'', ''aux'', ''nul'', ''conin$'', ''conout$'']"

definition is_xdrive_component :: "string \<Rightarrow> bool" where
  "is_xdrive_component component =
     (let stem = to_ascii_lowercase (hd (split_on CHR ''.'' component));
          numbered_device =
            (starts_with ''com'' stem \<or> starts_with ''lpt'' stem)
            \<and> length stem = 4 \<and> is_ascii_digit (stem ! 3)
      in 1 \<le> length component \<and> length component \<le> 64
         \<and> list_all (\<lambda>b. is_ascii_alphanumeric b \<or> b \<in> {CHR ''-'', CHR ''_'', CHR ''.''}) component
         \<and> \<not> ends_with ''.'' component
         \<and> stem \<notin> set xdrive_devices
         \<and> \<not> numbered_device)"

definition check_xdrive_url :: "string \<Rightarrow> string \<Rightarrow> sanitize_error + unit" where
  "check_xdrive_url text at =
     (let lower = to_ascii_lowercase text;
          stripped = (case strip_prefix ''https://'' lower of
                        Some r \<Rightarrow> Some r | None \<Rightarrow> strip_prefix ''http://'' lower);
          rest = (case stripped of
                    None \<Rightarrow> None
                  | Some r \<Rightarrow>
                      if list_ex (\<lambda>b. is_ascii_control b \<or> b = CHR '' '') text then None else Some r)
      in case rest of
           None \<Rightarrow> Inl (if is_local_endpoint text then LocalEndpoint at else ForbiddenField at)
         | Some r \<Rightarrow>
             (let authority = before_any [CHR ''/'', CHR ''?'', CHR ''#''] r;
                  host_port = after_last CHR ''@'' authority;
                  host = (case strip_prefix ''['' host_port of
                            Some bracketed \<Rightarrow> before_any [CHR '']''] bracketed
                          | None \<Rightarrow> before_any [CHR '':''] host_port)
              in if list_ex (\<lambda>b. b \<in> {CHR ''{'', CHR ''}'', CHR 0x5C, CHR ''%''}) authority \<or> host = []
                 then Inl (ForbiddenField at)
                 else if is_local_endpoint host then Inl (LocalEndpoint at)
                 else Inr ()))"

definition not_null :: "json option \<Rightarrow> json option" where
  "not_null v = (case v of Some JNull \<Rightarrow> None | _ \<Rightarrow> v)"

definition xdrive_operation_url ::
    "json_map \<Rightarrow> string \<Rightarrow> string \<Rightarrow> sanitize_error + (string \<times> json) list" where
  "xdrive_operation_url template at operation =
     (case not_null (field template operation) of
        None \<Rightarrow> Inr []
      | Some settings \<Rightarrow>
          rbind (ok_or Malformed (jas_object settings)) (\<lambda>settings.
            case field settings ''url'' of
              None \<Rightarrow> Inr []
            | Some url \<Rightarrow> Inr [(at_field (at_field at operation) ''url'', url)]))"

definition check_xdrive_template :: "json \<Rightarrow> string \<Rightarrow> sanitize_error + unit" where
  "check_xdrive_template template at =
     rbind (ok_or Malformed (jas_object template)) (\<lambda>template.
     rbind (map_result (xdrive_operation_url template at) [''put'', ''get'', ''delete'', ''list''])
       (\<lambda>urls.
     rbind (case not_null (field template ''auth'') of
              None \<Rightarrow> Inr []
            | Some auth \<Rightarrow>
                rbind (ok_or Malformed (jas_object auth)) (\<lambda>auth.
                  case field auth ''tokenUrl'' of
                    None \<Rightarrow> Inr []
                  | Some url \<Rightarrow> Inr [(at_field (at_field at ''auth'') ''tokenUrl'', url)]))
       (\<lambda>token.
     each_result
       (\<lambda>(here, url).
         case url of
           JNull \<Rightarrow> Inr ()
         | JString text \<Rightarrow> if text = [] then Inr () else check_xdrive_url text here
         | _ \<Rightarrow> Inl Malformed) (concat urls @ token))))"

definition xdrive_components :: "string \<Rightarrow> string list" where
  "xdrive_components folder = filter (\<lambda>c. c \<noteq> []) (split_on CHR ''/'' folder)"

definition shape_xdrive :: "string \<Rightarrow> json \<Rightarrow> string \<Rightarrow> sanitize_error + json" where
  "shape_xdrive client_home settings at =
     (if settings = JNull then Inr settings
      else rbind (ok_or Malformed (jas_object settings)) (\<lambda>m.
        rbind (ok_or (ForbiddenField (at_field at ''service''))
                 (case Option.bind (field m ''service'') jas_str of
                    None \<Rightarrow> None
                  | Some s \<Rightarrow> if s \<in> set XRAY_XDRIVE_SERVICES then Some s else None)) (\<lambda>service.
        rbind (case not_null (field m ''template'') of
                 None \<Rightarrow> Inr ()
               | Some template \<Rightarrow> check_xdrive_template template (at_field at ''template'')) (\<lambda>_.
        if service \<noteq> ''local'' then Inr (JObject m)
        else rbind (ok_or (FileReference (at_field at ''remoteFolder''))
                      (Option.bind (field m ''remoteFolder'') jas_str)) (\<lambda>folder.
          let components = xdrive_components folder
          in if starts_with ''/'' folder \<or> components = [] \<or> length components > 8
                \<or> \<not> list_all is_xdrive_component components
             then Inl (FileReference (at_field at ''remoteFolder''))
             else rbind (ok_or ServiceDirectory
                    (to_str (foldl path_join (path_join client_home XRAY_XDRIVE_DIRECTORY) components)))
               (\<lambda>directory.
                 Inr (JObject (ord_insert ''remoteFolder'' (JString directory)
                   (dict_retain (\<lambda>n. \<not> eq_ignore_ascii_case n ''remoteFolder'') m)))))))))"

fun shape_xdrive_settings :: "string \<Rightarrow> json \<Rightarrow> string \<Rightarrow> sanitize_error + json" where
  "shape_xdrive_settings client_home (JObject m) at =
     rbind (map_result
       (\<lambda>p. rbind (if eq_ignore_ascii_case (fst p) ''xdriveSettings''
                    then shape_xdrive client_home (snd p) (at_field at (fst p))
                    else shape_xdrive_settings client_home (snd p) (at_field at (fst p)))
              (\<lambda>child. Inr (fst p, child))) m)
       (\<lambda>m'. Inr (JObject m'))"
| "shape_xdrive_settings client_home (JArray vs) at =
     rbind (map_result_from 0 (\<lambda>i v. shape_xdrive_settings client_home v (at_index at i)) vs)
       (\<lambda>vs'. Inr (JArray vs'))"
| "shape_xdrive_settings client_home v at = Inr v"

section \<open>Inbounds\<close>

definition is_loopback_ip :: "json \<Rightarrow> bool" where
  "is_loopback_ip v =
     (case Option.bind (jas_str v) parse_ip of Some a \<Rightarrow> is_loopback a | None \<Rightarrow> False)"

definition check_account :: "json \<Rightarrow> sanitize_error + json" where
  "check_account account =
     rbind (ok_or Malformed (jas_object account)) (\<lambda>m.
       let m' = keep_known ALLOWED_XRAY_SOCKS_ACCOUNT_KEYS m
       in if list_all (\<lambda>p. jis_string (snd p)) m' then Inr (JObject m') else Inl Malformed)"

definition shape_socks_member :: "string \<Rightarrow> string \<times> json \<Rightarrow> sanitize_error + string \<times> json" where
  "shape_socks_member at p =
     (let name = fst p; value = snd p
      in if name = ''auth'' then
           (if (case jas_str value of Some a \<Rightarrow> a \<in> set ALLOWED_XRAY_SOCKS_AUTH | None \<Rightarrow> False)
            then Inr p else Inl (ForbiddenField (at_field at ''auth'')))
         else if name = ''udp'' \<and> \<not> jis_boolean value then Inl Malformed
         else if name = ''userLevel'' \<and> \<not> jis_u64 value then Inl Malformed
         else if name = ''ip'' \<and> \<not> is_loopback_ip value
           then Inl (NonLoopbackListener (at_field at ''ip''))
         else if name = ''accounts'' \<or> name = ''users'' then
           (if value = JNull then Inr p
            else rbind (ok_or Malformed (jas_array value)) (\<lambda>accounts.
                 rbind (map_result check_account accounts) (\<lambda>accounts'.
                 Inr (name, JArray accounts'))))
         else Inr p)"

definition shape_socks_settings :: "json \<Rightarrow> string \<Rightarrow> sanitize_error + json" where
  "shape_socks_settings settings at =
     (if settings = JNull then Inr settings
      else rbind (ok_or Malformed (jas_object settings)) (\<lambda>m.
           rbind (map_result (shape_socks_member at) (keep_known ALLOWED_XRAY_SOCKS_SETTINGS m)) (\<lambda>m'.
           Inr (JObject m'))))"

definition split_string_list :: "string \<Rightarrow> json" where
  "split_string_list text =
     JArray (map JString (filter (\<lambda>s. s \<noteq> []) (map trim (split_on CHR '','' text))))"

definition shape_sniffing_member :: "string \<times> json \<Rightarrow> sanitize_error + string \<times> json" where
  "shape_sniffing_member p =
     (let value = (case snd p of JString text \<Rightarrow> split_string_list text | v \<Rightarrow> v);
          fits = (if fst p \<in> {''enabled'', ''metadataOnly'', ''routeOnly''} then jis_boolean value
                  else case jas_array value of Some items \<Rightarrow> list_all jis_string items | None \<Rightarrow> False)
      in if fits then Inr (fst p, value) else Inl Malformed)"

definition shape_sniffing :: "json \<Rightarrow> sanitize_error + json" where
  "shape_sniffing sniffing =
     rbind (ok_or Malformed (jas_object sniffing)) (\<lambda>m.
     rbind (map_result shape_sniffing_member (keep_known ALLOWED_XRAY_SNIFFING_KEYS m)) (\<lambda>m'.
     Inr (JObject m')))"

definition inbound_port :: "json option \<Rightarrow> u16 option" where
  "inbound_port v =
     (case (case v of
              Some (JNumber n) \<Rightarrow> num_as_u64 n
            | Some (JString text) \<Rightarrow>
                (if list_all is_ascii_digit text then parse_u64 text else None)
            | _ \<Rightarrow> None) of
        None \<Rightarrow> None
      | Some n \<Rightarrow>
          (case u16_try_from n of
             None \<Rightarrow> None | Some p \<Rightarrow> if p \<noteq> 0 then Some p else None))"

text \<open>\<open>if let Some(v) = map.get_mut(name)\<close> with a fallible body that rewrites the value.\<close>

definition update_member ::
    "string \<Rightarrow> (json \<Rightarrow> sanitize_error + json) \<Rightarrow> json_map \<Rightarrow> sanitize_error + json_map" where
  "update_member name f m =
     (case dict_get m name of
        None \<Rightarrow> Inr m
      | Some v \<Rightarrow> rbind (f v) (\<lambda>v'. Inr (ord_insert name v' m)))"

definition port_json :: "u16 \<Rightarrow> json" where
  "port_json p = JNumber (PosInt (ucast p))"

definition inbound_listen :: "string \<Rightarrow> json_map \<Rightarrow> sanitize_error + json_map" where
  "inbound_listen at m =
     (case field m ''listen'' of
        None \<Rightarrow> Inr (ord_insert ''listen'' (JString ''127.0.0.1'') m)
      | Some listen \<Rightarrow>
          if is_loopback_ip listen then Inr m
          else Inl (NonLoopbackListener (at_field at ''listen'')))"

definition inbound_protocol_ok :: "json_map \<Rightarrow> bool" where
  "inbound_protocol_ok m =
     (case Option.bind (field m ''protocol'') jas_str of
        Some protocol \<Rightarrow> is_named protocol ALLOWED_XRAY_INBOUND_PROTOCOLS
      | None \<Rightarrow> False)"

definition shape_inbound :: "nat \<Rightarrow> json \<Rightarrow> sanitize_error + json" where
  "shape_inbound index inbound =
     (let at = at_index ''inbounds'' index in
      rbind (ok_or Malformed (jas_object inbound)) (\<lambda>m.
      rbind (inbound_listen at m) (\<lambda>m.
      if \<not> inbound_protocol_ok m then Inl (ForbiddenProtocol (at_field at ''protocol''))
      else rbind (only_known ALLOWED_XRAY_INBOUND_KEYS at m) (\<lambda>m.
      let m = ord_insert ''protocol'' (JString ''socks'') m in
      rbind (ok_or (ForbiddenField (at_field at ''port'')) (inbound_port (dict_get m ''port'')))
        (\<lambda>port.
      let m = ord_insert ''port'' (port_json port) m in
      if (case dict_get m ''tag'' of Some tag \<Rightarrow> \<not> jis_string tag | None \<Rightarrow> False)
      then Inl Malformed
      else rbind (update_member ''settings''
               (\<lambda>s. shape_socks_settings s (at_field at ''settings'')) m) (\<lambda>m.
           rbind (update_member ''sniffing'' shape_sniffing m) (\<lambda>m.
           Inr (JObject m))))))))"

definition shape_inbounds :: "json \<Rightarrow> sanitize_error + json" where
  "shape_inbounds value =
     rbind (ok_or Malformed (jas_array value)) (\<lambda>inbounds.
     rbind (map_result_from 0 shape_inbound inbounds) (\<lambda>vs. Inr (JArray vs)))"

section \<open>Outbounds and routing\<close>

definition shape_outbound :: "nat \<Rightarrow> json \<Rightarrow> sanitize_error + json" where
  "shape_outbound index outbound =
     rbind (ok_or Malformed (jas_object outbound)) (\<lambda>m.
     let m = keep_known ALLOWED_XRAY_OUTBOUND_KEYS m in
     rbind (ok_or (ForbiddenProtocol (at_field (at_index ''outbounds'' index) ''protocol''))
              (case Option.bind (dict_get m ''protocol'') jas_str of
                 None \<Rightarrow> None
               | Some p \<Rightarrow> if is_named p ALLOWED_XRAY_OUTBOUND_PROTOCOLS then Some p else None))
       (\<lambda>protocol.
     if eq_ignore_ascii_case protocol ''wireguard'' then
       (let settings = (case dict_get m ''settings'' of
                          None \<Rightarrow> JObject [] | Some JNull \<Rightarrow> JObject [] | Some v \<Rightarrow> v) in
        rbind (ok_or Malformed (jas_object settings)) (\<lambda>s.
          Inr (JObject (ord_insert ''settings''
            (JObject (ord_insert ''noKernelTun'' (JBool True)
              (dict_retain (\<lambda>n. \<not> eq_ignore_ascii_case n ''noKernelTun'') s))) m))))
     else Inr (JObject m)))"

definition shape_outbounds :: "json \<Rightarrow> sanitize_error + json" where
  "shape_outbounds value =
     rbind (ok_or Malformed (jas_array value)) (\<lambda>outbounds.
     rbind (map_result_from 0 shape_outbound outbounds) (\<lambda>vs. Inr (JArray vs)))"

definition keep_known_value :: "string list \<Rightarrow> json \<Rightarrow> sanitize_error + json" where
  "keep_known_value allowed v =
     rbind (ok_or Malformed (jas_object v)) (\<lambda>m. Inr (JObject (keep_known allowed m)))"

definition unless_null :: "(json \<Rightarrow> sanitize_error + json) \<Rightarrow> json \<Rightarrow> sanitize_error + json" where
  "unless_null f v = (if v = JNull then Inr v else f v)"

definition shape_balancer :: "json \<Rightarrow> sanitize_error + json" where
  "shape_balancer balancer =
     rbind (ok_or Malformed (jas_object balancer)) (\<lambda>m.
     rbind (update_member ''strategy''
              (unless_null (keep_known_value ALLOWED_XRAY_STRATEGY_KEYS))
              (keep_known ALLOWED_XRAY_BALANCER_KEYS m)) (\<lambda>m.
     Inr (JObject m)))"

definition shape_array :: "(json \<Rightarrow> sanitize_error + json) \<Rightarrow> json \<Rightarrow> sanitize_error + json" where
  "shape_array f v =
     rbind (ok_or Malformed (jas_array v)) (\<lambda>vs.
     rbind (map_result f vs) (\<lambda>vs'. Inr (JArray vs')))"

definition shape_routing :: "json \<Rightarrow> sanitize_error + json" where
  "shape_routing value =
     (if value = JNull then Inr value
      else rbind (ok_or Malformed (jas_object value)) (\<lambda>m.
           rbind (update_member ''rules''
                    (unless_null (shape_array (keep_known_value ALLOWED_XRAY_RULE_KEYS)))
                    (keep_known ALLOWED_XRAY_ROUTING_KEYS m)) (\<lambda>m.
           rbind (update_member ''balancers'' (unless_null (shape_array shape_balancer)) m) (\<lambda>m.
           Inr (JObject m)))))"

section \<open>The sanitiser\<close>

definition shape_log :: "string \<times> json \<Rightarrow> sanitize_error + string \<times> json" where
  "shape_log p =
     (if eq_ignore_ascii_case (fst p) ''log'' then
        rbind (ok_or Malformed (jas_object (snd p))) (\<lambda>log.
          Inr (fst p, JObject (dict_retain (\<lambda>n. is_named n ALLOWED_XRAY_LOG_KEYS) log)))
      else Inr p)"

definition shape_section :: "string \<times> json \<Rightarrow> sanitize_error + string \<times> json" where
  "shape_section p =
     rbind (if eq_ignore_ascii_case (fst p) ''inbounds'' then shape_inbounds (snd p)
            else if eq_ignore_ascii_case (fst p) ''outbounds'' then shape_outbounds (snd p)
            else if eq_ignore_ascii_case (fst p) ''routing'' then shape_routing (snd p)
            else Inr (snd p)) (\<lambda>v. Inr (fst p, v))"

text \<open>What \<open>sanitize_xray\<close> does between parsing and serialising.\<close>

definition sanitize_xray_document :: "string \<Rightarrow> json \<Rightarrow> sanitize_error + json" where
  "sanitize_xray_document client_home document =
     rbind (reject_ambiguous_keys document) (\<lambda>_.
     rbind (ok_or Malformed (jas_object document)) (\<lambda>root.
     rbind (map_result shape_log (dict_retain (\<lambda>n. is_named n ALLOWED_XRAY_SECTIONS) root)) (\<lambda>root.
     rbind (reject_xray_references (JObject root) ''$'') (\<lambda>_.
     rbind (shape_xdrive_settings client_home (strip_output_files (JObject root)) ''$'') (\<lambda>document.
     rbind (ok_or Malformed (jas_object document)) (\<lambda>root.
     rbind (map_result shape_section root) (\<lambda>root.
     Inr (JObject root))))))))"

text \<open>\<open>from_slice\<close> and \<open>to_vec\<close> of \<open>serde_json\<close> are parameters.\<close>

definition sanitize_xray ::
    "(string \<Rightarrow> json option) \<Rightarrow> (json \<Rightarrow> string option) \<Rightarrow> string \<Rightarrow> string \<Rightarrow> sanitize_error + string"
  where
  "sanitize_xray from_slice to_vec input client_home =
     (if \<not> is_absolute client_home then Inl ServiceDirectory
      else rbind (ok_or ServiceDirectory (to_str client_home)) (\<lambda>client_home.
           rbind (ok_or Malformed (from_slice input)) (\<lambda>document.
           rbind (sanitize_xray_document client_home document) (\<lambda>document.
           ok_or Malformed (to_vec document)))))"

end
