(* ===== verification/Xray_Safety.thy ===== *)
theory Xray_Safety
  imports Xray_Sanitize
begin

text \<open>
  What an accepted Xray document satisfies. The refusals at any depth are characterised exactly,
  carried through the rewriting passes by one locale (a property of members that no pass can
  break), and the shape of inbounds, outbounds, routing and \<open>xdrive\<close> folders is read off the
  passes that build them.
\<close>

section \<open>Properties of all members of a document\<close>

text \<open>\<open>doc_all P stop v\<close>: every member satisfies \<open>P\<close>, not looking below members named by \<open>stop\<close>.\<close>

fun doc_all :: "(string \<Rightarrow> json \<Rightarrow> bool) \<Rightarrow> (string \<Rightarrow> bool) \<Rightarrow> json \<Rightarrow> bool" where
  "doc_all P stop (JObject m) \<longleftrightarrow>
     (\<forall>p\<in>set m. P (fst p) (snd p) \<and> (stop (fst p) \<or> doc_all P stop (snd p)))"
| "doc_all P stop (JArray vs) \<longleftrightarrow> (\<forall>v\<in>set vs. doc_all P stop v)"
| "doc_all P stop JNull \<longleftrightarrow> True"
| "doc_all P stop (JBool b) \<longleftrightarrow> True"
| "doc_all P stop (JNumber n) \<longleftrightarrow> True"
| "doc_all P stop (JString s) \<longleftrightarrow> True"

abbreviation never :: "string \<Rightarrow> bool" where
  "never \<equiv> \<lambda>_. False"

lemma doc_all_members: "doc_all P never v \<longleftrightarrow> (\<forall>p\<in>set (jmembers v). P (fst p) (snd p))"
  by (induction v rule: jmembers.induct) auto

lemma first_index_None: "first_index i P xs = None \<longleftrightarrow> (\<forall>x\<in>set xs. \<not> P x)"
  by (induction xs arbitrary: i) auto

lemma first_index_Some: "first_index i P xs = Some j \<Longrightarrow> \<exists>x\<in>set xs. P x"
  by (induction xs arbitrary: i) (auto split: if_splits)

definition xray_member_ok :: "string \<Rightarrow> json \<Rightarrow> bool" where
  "xray_member_ok n c \<longleftrightarrow>
     \<not> is_named n [''certificateFile'', ''keyFile'']
     \<and> \<not> is_external_geodata n
     \<and> \<not> is_named n XRAY_FORBIDDEN_KEYS
     \<and> (eq_ignore_ascii_case n ''tproxy'' \<longrightarrow>
          (\<exists>mode. jas_str c = Some mode \<and> (mode = [] \<or> eq_ignore_ascii_case mode ''off'')))
     \<and> (is_named n [''type'', ''network''] \<longrightarrow>
          (\<forall>kind. jas_str c = Some kind \<longrightarrow> \<not> contains_str ''unix'' (to_ascii_lowercase kind)))
     \<and> (is_named n XRAY_ENDPOINT_KEYS \<longrightarrow>
          (\<forall>s. jas_str c = Some s \<longrightarrow> \<not> is_local_endpoint s)
          \<and> (\<forall>items. c = JArray items \<longrightarrow> (\<forall>v\<in>set items. \<not> is_local_value v)))"

lemma check_xray_member_Inr: "check_xray_member here n c = Inr () \<longleftrightarrow> xray_member_ok n c"
proof -
  have "(case child of
          JString text \<Rightarrow> if is_local_endpoint text then Inl (LocalEndpoint here) else Inr ()
        | JArray items \<Rightarrow>
            (case first_index 0 is_local_value items of
               Some i \<Rightarrow> Inl (LocalEndpoint (at_index here i))
             | None \<Rightarrow> Inr ())
        | _ \<Rightarrow> Inr ()) = Inr () \<longleftrightarrow>
      (\<forall>s. jas_str child = Some s \<longrightarrow> \<not> is_local_endpoint s)
      \<and> (\<forall>items. child = JArray items \<longrightarrow> (\<forall>v\<in>set items. \<not> is_local_value v))" for child
    by (cases child) (auto simp: first_index_None dest: first_index_Some split: option.splits)
  then show ?thesis
    by (auto simp: check_xray_member_def xray_member_ok_def split: option.splits)
qed

lemma reject_xray_references_Inr:
  "reject_xray_references v at = Inr () \<longleftrightarrow>
     doc_all xray_member_ok never v
     \<and> (\<forall>s. JString s \<in> set (jvalues v) \<longrightarrow> \<not> is_external_geodata s)"
proof (induction v at rule: reject_xray_references.induct)
  case (1 m at)
  then show ?case by (force simp: result_simps check_xray_member_Inr)
next
  case (2 vs at)
  have "reject_xray_references (JArray vs) at = Inr () \<longleftrightarrow>
      (\<forall>x\<in>set vs. doc_all xray_member_ok never x
        \<and> (\<forall>s. JString s \<in> set (jvalues x) \<longrightarrow> \<not> is_external_geodata s))"
    unfolding reject_xray_references.simps each_result_from_Inr
    using 2 by (fastforce simp: in_set_conv_nth)
  then show ?case by auto
qed auto

section \<open>Keys that collide under folding\<close>

fun fold_ok :: "json \<Rightarrow> bool" where
  "fold_ok (JObject m) \<longleftrightarrow> fold_distinct (map fst m) \<and> (\<forall>p\<in>set m. fold_ok (snd p))"
| "fold_ok (JArray vs) \<longleftrightarrow> (\<forall>v\<in>set vs. fold_ok v)"
| "fold_ok v \<longleftrightarrow> True"

lemma distinct_iff_not_seen:
  "distinct (map f xs) \<longleftrightarrow> (\<forall>i<length xs. f (xs ! i) \<notin> set (map f (take i xs)))"
proof (induction xs rule: rev_induct)
  case Nil
  then show ?case by simp
next
  case (snoc x xs)
  then show ?case by (auto simp: nth_append less_Suc_eq)
qed

lemma reject_ambiguous_keys_Inr:
  "reject_ambiguous_keys v = Inr () \<longleftrightarrow>
     fold_ok v \<and> (\<forall>p\<in>set (jmembers v). is_ascii (fst p))"
proof (induction v rule: jmembers.induct)
  case (2 m)
  have "reject_ambiguous_keys (JObject m) = Inr () \<longleftrightarrow>
      (\<forall>i<length m. is_ascii (fst (m ! i)) \<and> reject_ambiguous_keys (snd (m ! i)) = Inr ()) \<and>
      (\<forall>i<length m. to_ascii_lowercase (fst (m ! i)) \<notin>
         set (map (\<lambda>q. to_ascii_lowercase (fst q)) (take i m)))"
    by (auto simp: each_result_from_Inr split: if_splits)
  also have "\<dots> \<longleftrightarrow>
      (\<forall>p\<in>set m. is_ascii (fst p) \<and> reject_ambiguous_keys (snd p) = Inr ())
      \<and> fold_distinct (map fst m)"
    unfolding fold_distinct_def map_map comp_def distinct_iff_not_seen all_set_conv_all_nth
    by blast
  also have "\<dots> \<longleftrightarrow> fold_ok (JObject m) \<and> (\<forall>p\<in>set (jmembers (JObject m)). is_ascii (fst p))"
    using 2 by auto
  finally show ?case .
next
  case (1 vs)
  then show ?case by (auto simp: result_simps)
qed auto

section \<open>Properties the shaping passes keep\<close>

text \<open>
  The keys whose values the shaping passes write or rewrite. A property of members that ignores
  the case of the key and accepts anything under these keys survives every shaping pass.
\<close>

definition rewritten_keys :: "string list" where
  "rewritten_keys =
     [''inbounds'', ''outbounds'', ''routing'', ''listen'', ''protocol'', ''port'', ''settings'',
      ''sniffing'', ''accounts'', ''users'', ''noKernelTun'', ''rules'', ''balancers'',
      ''strategy''] @ ALLOWED_XRAY_SNIFFING_KEYS"

locale member_property =
  fixes P :: "string \<Rightarrow> json \<Rightarrow> bool" and stop :: "string \<Rightarrow> bool"
  assumes P_fold: "P n c \<Longrightarrow> eq_ignore_ascii_case n n' \<Longrightarrow> P n' c"
    and stop_fold: "eq_ignore_ascii_case n n' \<Longrightarrow> stop n = stop n'"
    and P_rewritten: "is_named n rewritten_keys \<Longrightarrow> P n c"
    and stop_rewritten: "is_named n rewritten_keys \<Longrightarrow> \<not> stop n"
begin

definition keeps :: "(json \<Rightarrow> sanitize_error + json) \<Rightarrow> bool" where
  "keeps f \<longleftrightarrow> (\<forall>v v'. f v = Inr v' \<longrightarrow> doc_all P stop v \<longrightarrow> doc_all P stop v')"

lemma keepsI: "(\<And>v v'. f v = Inr v' \<Longrightarrow> doc_all P stop v \<Longrightarrow> doc_all P stop v') \<Longrightarrow> keeps f"
  by (simp add: keeps_def)

lemma keepsD: "keeps f \<Longrightarrow> f v = Inr v' \<Longrightarrow> doc_all P stop v \<Longrightarrow> doc_all P stop v'"
  by (simp add: keeps_def)

lemma keep_known_all:
  assumes "doc_all P stop (JObject m)"
  shows "doc_all P stop (JObject (keep_known allowed m))"
proof -
  have "P k v \<and> (stop k \<or> doc_all P stop v)" if kv: "(k, v) \<in> set (keep_known allowed m)" for k v
  proof -
    from keep_known_entries [OF kv] obtain n where n: "(n, v) \<in> set m" "eq_ignore_ascii_case n k"
      by blast
    with assms have "P n v" "stop n \<or> doc_all P stop v" by auto
    with n P_fold stop_fold show ?thesis by blast
  qed
  then show ?thesis by auto
qed

lemma retain_all: "doc_all P stop (JObject m) \<Longrightarrow> doc_all P stop (JObject (dict_retain Q m))"
  by (auto simp: set_dict_retain)

lemma insert_all:
  "doc_all P stop (JObject m) \<Longrightarrow> k \<in> set rewritten_keys \<Longrightarrow> doc_all P stop v \<Longrightarrow>
     doc_all P stop (JObject (ord_insert k v m))"
  using set_ord_insert [of k v m] by (auto simp: P_rewritten)

lemma member_all:
  "doc_all P stop (JObject m) \<Longrightarrow> (k, v) \<in> set m \<Longrightarrow> is_named k rewritten_keys \<Longrightarrow> doc_all P stop v"
  using stop_rewritten by force

lemma update_member_all:
  assumes "update_member k f m = Inr m'" "keeps f" "k \<in> set rewritten_keys"
    "doc_all P stop (JObject m)"
  shows "doc_all P stop (JObject m')"
proof (cases "dict_get m k")
  case None
  with assms show ?thesis by (simp add: update_member_def)
next
  case (Some v)
  with assms(1) obtain v' where v': "f v = Inr v'" "m' = ord_insert k v' m"
    by (auto simp: update_member_def result_simps)
  have "doc_all P stop v"
    using assms(4) map_of_SomeD [OF Some] is_named_member [OF assms(3)] by (rule member_all)
  then have "doc_all P stop v'" by (rule keepsD [OF assms(2) v'(1)])
  then show ?thesis unfolding v'(2) by (rule insert_all [OF assms(4,3)])
qed

lemma array_all: "keeps f \<Longrightarrow> keeps (shape_array f)"
  by (rule keepsI)
    (force simp: shape_array_def result_simps elim!: jas_array.elims dest: keepsD map_result_elem)

lemma indexed_array_all:
  assumes "\<And>i. keeps (f i)" "map_result_from 0 f vs = Inr vs'" "doc_all P stop (JArray vs)"
  shows "doc_all P stop (JArray vs')"
  using assms(3) by (auto dest!: map_result_from_elem [OF assms(2)] dest: keepsD [OF assms(1)])

lemma unless_null_all: "keeps f \<Longrightarrow> keeps (unless_null f)"
  by (rule keepsI) (auto simp: unless_null_def dest: keepsD split: if_splits)

lemma keep_known_value_all: "keeps (keep_known_value allowed)"
  by (rule keepsI)
    (auto simp: keep_known_value_def result_simps simp del: doc_all.simps elim!: jas_object.elims
      intro: keep_known_all)

lemma members_all:
  assumes "map_result f m = Inr m'"
    and "\<And>p p'. f p = Inr p' \<Longrightarrow> p \<in> set m \<Longrightarrow>
           P (fst p') (snd p') \<and> (stop (fst p') \<or> doc_all P stop (snd p'))"
  shows "doc_all P stop (JObject m')"
  using assms by (auto simp del: split_paired_All dest!: map_result_elem [OF assms(1)])

end

lemma jas_str_Some: "jas_str v = Some s \<longleftrightarrow> v = JString s"
  by (cases v) auto

lemmas accessor_simps = jas_object_Some jas_array_Some jas_str_Some

text \<open>An accepted inbound, taken apart along the passes of \<open>shape_inbound\<close>.\<close>

definition inbound_base :: "json_map \<Rightarrow> u16 \<Rightarrow> json_map" where
  "inbound_base m port =
     ord_insert ''port'' (port_json port)
       (ord_insert ''protocol'' (JString ''socks'') (keep_known ALLOWED_XRAY_INBOUND_KEYS m))"

lemma shape_inboundE:
  assumes "shape_inbound i v = Inr v'"
  obtains m m1 port m4 m5 where "v = JObject m"
    and "inbound_listen (at_index ''inbounds'' i) m = Inr m1"
    and "\<forall>p\<in>set m1. is_named (fst p) ALLOWED_XRAY_INBOUND_KEYS"
    and "inbound_port (dict_get (ord_insert ''protocol'' (JString ''socks'')
           (keep_known ALLOWED_XRAY_INBOUND_KEYS m1)) ''port'') = Some port"
    and "update_member ''settings''
           (\<lambda>s. shape_socks_settings s (at_field (at_index ''inbounds'' i) ''settings''))
           (inbound_base m1 port) = Inr m4"
    and "update_member ''sniffing'' shape_sniffing m4 = Inr m5"
    and "v' = JObject m5"
  using assms unfolding shape_inbound_def Let_def inbound_base_def
  by (simp add: result_simps accessor_simps only_known_Inr split: if_splits) blast

context member_property
begin

lemma rewritten [simp]:
  "k \<in> {''inbounds'', ''outbounds'', ''routing'', ''listen'', ''protocol'', ''port'',
     ''settings'', ''sniffing'', ''accounts'', ''users'', ''noKernelTun'', ''rules'',
     ''balancers'', ''strategy''} \<Longrightarrow> k \<in> set rewritten_keys"
  by (auto simp: rewritten_keys_def)

lemma check_account_all: "keeps check_account"
  by (rule keepsI)
    (auto simp: check_account_def result_simps accessor_simps Let_def simp del: doc_all.simps
      intro: keep_known_all split: if_splits)

lemma socks_member_all:
  assumes "shape_socks_member at p = Inr p'" "p \<in> set m" "doc_all P stop (JObject m)"
  shows "P (fst p') (snd p') \<and> (stop (fst p') \<or> doc_all P stop (snd p'))"
proof (cases "p' = p")
  case True
  with assms(2,3) show ?thesis by auto
next
  case False
  with assms(1) obtain vs vs' where kind: "fst p = ''accounts'' \<or> fst p = ''users''"
    and vs: "snd p = JArray vs" "map_result check_account vs = Inr vs'" "p' = (fst p, JArray vs')"
    by (auto simp: shape_socks_member_def Let_def result_simps accessor_simps
        split: if_splits option.splits)
  from kind have named: "is_named (fst p) rewritten_keys"
    by (auto intro!: is_named_member)
  have "doc_all P stop (snd p)"
    using member_all [OF assms(3), of "fst p" "snd p"] assms(2) named by simp
  then have "doc_all P stop (JArray vs')"
    using vs(1,2) keepsD [OF check_account_all]
    by (auto dest!: map_result_elem [OF vs(2)])
  with vs(3) named show ?thesis by (simp add: P_rewritten)
qed

lemma socks_settings_all: "keeps (\<lambda>v. shape_socks_settings v at)"
proof (rule keepsI)
  fix v v' assume "shape_socks_settings v at = Inr v'" and ok: "doc_all P stop v"
  then consider "v' = v" | m m' where "v = JObject m" "v' = JObject m'"
      "map_result (shape_socks_member at) (keep_known ALLOWED_XRAY_SOCKS_SETTINGS m) = Inr m'"
    by (auto simp: shape_socks_settings_def result_simps accessor_simps split: if_splits)
  then show "doc_all P stop v'"
  proof cases
    case 2
    from ok have "doc_all P stop (JObject (keep_known ALLOWED_XRAY_SOCKS_SETTINGS m))"
      unfolding 2(1) by (rule keep_known_all)
    then show ?thesis
      unfolding 2(2) by (intro members_all [OF 2(3)]) (rule socks_member_all)
  qed (use ok in simp)
qed

lemma sniffing_all: "keeps shape_sniffing"
proof (rule keepsI)
  fix v v' assume "shape_sniffing v = Inr v'"
  then obtain m m' where v': "v' = JObject m'"
    and m': "map_result shape_sniffing_member (keep_known ALLOWED_XRAY_SNIFFING_KEYS m) = Inr m'"
    by (auto simp: shape_sniffing_def result_simps)
  have "P (fst p') (snd p') \<and> (stop (fst p') \<or> doc_all P stop (snd p'))"
    if f: "shape_sniffing_member p = Inr p'" and p: "p \<in> set (keep_known ALLOWED_XRAY_SNIFFING_KEYS m)"
    for p p'
  proof -
    have "fst p' = fst p" using f by (auto simp: shape_sniffing_member_def Let_def split: if_splits)
    moreover have "fst p \<in> set ALLOWED_XRAY_SNIFFING_KEYS"
      using keep_known_entries p by (cases p) force
    ultimately have "is_named (fst p') rewritten_keys"
      by (auto intro!: is_named_member simp: rewritten_keys_def)
    moreover have "doc_all P stop (snd p')"
    proof -
      from f have "jis_boolean (snd p') \<or> (\<exists>vs. snd p' = JArray vs \<and> list_all jis_string vs)"
        by (auto simp: shape_sniffing_member_def Let_def accessor_simps
            split: if_splits option.splits)
      then show ?thesis
        by (fastforce simp: jis_string_def accessor_simps list_all_iff elim!: jis_boolean.elims)
    qed
    ultimately show ?thesis by (simp add: P_rewritten)
  qed
  then show "doc_all P stop v'" unfolding v' by (rule members_all [OF m'])
qed

lemma inbound_all: "keeps (shape_inbound i)"
proof (rule keepsI)
  fix v v' assume f: "shape_inbound i v = Inr v'" and ok: "doc_all P stop v"
  from f obtain m m1 port m4 m5 at where v: "v = JObject m"
    and m1: "inbound_listen at m = Inr m1"
    and m4: "update_member ''settings'' (\<lambda>s. shape_socks_settings s (at_field at ''settings''))
           (inbound_base m1 port) = Inr m4"
    and m5: "update_member ''sniffing'' shape_sniffing m4 = Inr m5" and v': "v' = JObject m5"
    by (elim shape_inboundE)
  have "doc_all P stop (JObject m1)"
    using m1 ok unfolding v inbound_listen_def
    by (auto simp del: doc_all.simps(1) intro!: insert_all split: option.splits if_splits)
  then have "doc_all P stop (JObject (inbound_base m1 port))"
    unfolding inbound_base_def
    by (intro insert_all keep_known_all) (simp_all add: port_json_def del: doc_all.simps(1))
  then have "doc_all P stop (JObject m4)"
    by (rule update_member_all [OF m4 socks_settings_all, rotated]) simp
  then show "doc_all P stop v'"
    unfolding v' by (rule update_member_all [OF m5 sniffing_all, rotated]) simp
qed

lemma outbound_all: "keeps (shape_outbound i)"
proof (rule keepsI)
  fix v v' assume f: "shape_outbound i v = Inr v'" and ok: "doc_all P stop v"
  from f obtain m m1 where v: "v = JObject m" and m1: "m1 = keep_known ALLOWED_XRAY_OUTBOUND_KEYS m"
    and v': "v' = JObject m1 \<or> (\<exists>s. (s = [] \<or> (''settings'', JObject s) \<in> set m1) \<and>
        v' = JObject (ord_insert ''settings'' (JObject (ord_insert ''noKernelTun'' (JBool True)
              (dict_retain (\<lambda>n. \<not> eq_ignore_ascii_case n ''noKernelTun'') s))) m1))"
    by (auto simp: shape_outbound_def Let_def result_simps accessor_simps
        dest!: map_of_SomeD split: if_splits option.splits json.splits)
  have ok1: "doc_all P stop (JObject m1)"
    using ok unfolding v m1 by (rule keep_known_all)
  have settings: "doc_all P stop (JObject s)" if "s = [] \<or> (''settings'', JObject s) \<in> set m1" for s
    using that member_all [OF ok1, of "''settings''" "JObject s"] by (auto intro: is_named_member)
  from v' show "doc_all P stop v'"
  proof (rule disjE)
    assume "\<exists>s. (s = [] \<or> (''settings'', JObject s) \<in> set m1) \<and>
        v' = JObject (ord_insert ''settings'' (JObject (ord_insert ''noKernelTun'' (JBool True)
              (dict_retain (\<lambda>n. \<not> eq_ignore_ascii_case n ''noKernelTun'') s))) m1)"
    then obtain s where s: "s = [] \<or> (''settings'', JObject s) \<in> set m1"
      and v': "v' = JObject (ord_insert ''settings'' (JObject (ord_insert ''noKernelTun'' (JBool True)
              (dict_retain (\<lambda>n. \<not> eq_ignore_ascii_case n ''noKernelTun'') s))) m1)"
      by blast
    from settings s have "doc_all P stop (JObject s)" by blast
    then show ?thesis
      unfolding v' by (intro insert_all retain_all ok1) simp_all
  qed (use ok1 in simp_all)
qed

lemma balancer_all: "keeps shape_balancer"
proof (rule keepsI)
  fix v v' assume f: "shape_balancer v = Inr v'" and ok: "doc_all P stop v"
  from f obtain m m' where v: "v = JObject m" "v' = JObject m'"
    and u: "update_member ''strategy'' (unless_null (keep_known_value ALLOWED_XRAY_STRATEGY_KEYS))
              (keep_known ALLOWED_XRAY_BALANCER_KEYS m) = Inr m'"
    by (auto simp: shape_balancer_def result_simps accessor_simps)
  from ok show "doc_all P stop v'"
    unfolding v
    by (intro update_member_all [OF u unless_null_all [OF keep_known_value_all]] keep_known_all) simp_all
qed

lemma routing_all: "keeps shape_routing"
proof (rule keepsI)
  fix v v' assume f: "shape_routing v = Inr v'" and ok: "doc_all P stop v"
  then consider "v' = v" | m m1 m2 where "v = JObject m" "v' = JObject m2"
    "update_member ''rules'' (unless_null (shape_array (keep_known_value ALLOWED_XRAY_RULE_KEYS)))
       (keep_known ALLOWED_XRAY_ROUTING_KEYS m) = Inr m1"
    "update_member ''balancers'' (unless_null (shape_array shape_balancer)) m1 = Inr m2"
    by (auto simp: shape_routing_def result_simps accessor_simps split: if_splits)
  then show "doc_all P stop v'"
  proof cases
    case 2
    have "doc_all P stop (JObject m1)"
      using ok unfolding 2(1)
      by (intro update_member_all [OF 2(3)] unless_null_all array_all keep_known_value_all
          keep_known_all) simp_all
    then show ?thesis
      unfolding 2(2)
      by (intro update_member_all [OF 2(4)] unless_null_all array_all balancer_all) simp_all
  qed (use ok in simp)
qed

lemma inbounds_all: "keeps shape_inbounds"
  by (rule keepsI)
    (auto simp: shape_inbounds_def result_simps accessor_simps simp del: doc_all.simps
      intro: indexed_array_all [OF inbound_all])

lemma outbounds_all: "keeps shape_outbounds"
  by (rule keepsI)
    (auto simp: shape_outbounds_def result_simps accessor_simps simp del: doc_all.simps
      intro: indexed_array_all [OF outbound_all])

lemma section_all:
  assumes "shape_section p = Inr p'" "P (fst p) (snd p) \<and> (stop (fst p) \<or> doc_all P stop (snd p))"
  shows "P (fst p') (snd p') \<and> (stop (fst p') \<or> doc_all P stop (snd p'))"
proof (cases "is_named (fst p) [''inbounds'', ''outbounds'', ''routing'']")
  case True
  then have named: "is_named (fst p) rewritten_keys" by (auto simp: is_named_iff rewritten_keys_def)
  with assms(2) stop_rewritten have "doc_all P stop (snd p)" by blast
  then have "doc_all P stop (snd p')" "fst p' = fst p"
    using assms(1) inbounds_all outbounds_all routing_all
    by (auto simp: shape_section_def result_simps dest: keepsD split: if_splits)
  with named P_rewritten show ?thesis by simp
next
  case False
  then have "p' = p" using assms(1) by (auto simp: shape_section_def is_named_iff result_simps)
  with assms(2) show ?thesis by simp
qed

lemma sections_all:
  assumes "map_result shape_section root = Inr root'" "doc_all P stop (JObject root)"
  shows "doc_all P stop (JObject root')"
proof (rule members_all [OF assms(1)])
  fix p p' assume f: "shape_section p = Inr p'" and p: "p \<in> set root"
  from assms(2) p have "P (fst p) (snd p) \<and> (stop (fst p) \<or> doc_all P stop (snd p))" by simp
  with f show "P (fst p') (snd p') \<and> (stop (fst p') \<or> doc_all P stop (snd p'))" by (rule section_all)
qed

end

end
