(* ===== verification/Xray_Guarantees.thy ===== *)
theory Xray_Guarantees
  imports Xray_Safety
begin

text \<open>
  The guarantees of \<open>sanitize_xray\<close>, assembled from the passes: what survives at any depth, the
  shape of every inbound, outbound and routing rule, and where an \<open>xdrive\<close> folder may lie.
\<close>

section \<open>Rewrites that keep the strings of a member\<close>

definition string_view :: "json \<Rightarrow> json \<Rightarrow> bool" where
  "string_view c d \<longleftrightarrow>
     jas_str c = jas_str d
     \<and> (\<forall>ds. d = JArray ds \<longrightarrow> (\<exists>cs. c = JArray cs \<and> map jas_str cs = map jas_str ds))"

lemma string_view_refl [simp]: "string_view c c"
  by (simp add: string_view_def)

lemma member_ok_view: "xray_member_ok n c \<Longrightarrow> string_view c d \<Longrightarrow> xray_member_ok n d"
proof -
  assume ok: "xray_member_ok n c" and view: "string_view c d"
  have "\<forall>v\<in>set ds. \<not> is_local_value v"
    if "d = JArray ds" and named: "is_named n XRAY_ENDPOINT_KEYS" for ds
  proof -
    from view that obtain cs where cs: "c = JArray cs" "map jas_str cs = map jas_str ds"
      by (auto simp: string_view_def)
    with ok named have "\<forall>v\<in>set cs. \<not> is_local_value v" by (auto simp: xray_member_ok_def)
    then have "\<forall>x\<in>set (map jas_str cs). \<not> (case x of Some s \<Rightarrow> is_local_endpoint s | None \<Rightarrow> False)"
      by (auto simp: is_local_value_def)
    with cs(2) show ?thesis by (auto simp: is_local_value_def)
  qed
  moreover from view have "jas_str d = jas_str c" by (simp add: string_view_def)
  ultimately show ?thesis using ok by (simp add: xray_member_ok_def)
qed

lemma utf8_cont_lower [simp]: "utf8_cont (ascii_lower c) = utf8_cont c"
  by (simp add: utf8_cont_def ascii_lower_def)

lemma is_external_geodata_lower: "is_external_geodata (to_ascii_lowercase s) = is_external_geodata s"
  by (auto simp: is_external_geodata_def get_prefix_def is_char_boundary_def to_ascii_lowercase_def
      eq_ignore_ascii_case_def take_map split: option.splits)

lemma is_external_geodata_fold:
  "eq_ignore_ascii_case a b \<Longrightarrow> is_external_geodata a = is_external_geodata b"
  by (metis is_external_geodata_lower eq_ignore_ascii_case_def)

lemma member_ok_fold: "xray_member_ok n c \<Longrightarrow> eq_ignore_ascii_case n n' \<Longrightarrow> xray_member_ok n' c"
  using is_named_fold [of n n'] is_external_geodata_fold [of n n']
  by (simp add: xray_member_ok_def eq_ignore_ascii_case_def)

lemmas fold_eval =
  is_named_def eq_ignore_ascii_case_def to_ascii_lowercase_def ascii_lower_Char

lemmas table_eval =
  ALLOWED_XRAY_LOG_KEYS_def ALLOWED_XRAY_SECTIONS_def ALLOWED_XRAY_INBOUND_PROTOCOLS_def
  ALLOWED_XRAY_INBOUND_KEYS_def ALLOWED_XRAY_SOCKS_SETTINGS_def
  ALLOWED_XRAY_SOCKS_ACCOUNT_KEYS_def ALLOWED_XRAY_SOCKS_AUTH_def ALLOWED_XRAY_SNIFFING_KEYS_def
  ALLOWED_XRAY_OUTBOUND_PROTOCOLS_def ALLOWED_XRAY_OUTBOUND_KEYS_def
  ALLOWED_XRAY_ROUTING_KEYS_def ALLOWED_XRAY_RULE_KEYS_def ALLOWED_XRAY_BALANCER_KEYS_def
  ALLOWED_XRAY_STRATEGY_KEYS_def XRAY_ENDPOINT_KEYS_def XRAY_FORBIDDEN_KEYS_def
  XRAY_XDRIVE_SERVICES_def XRAY_XDRIVE_DIRECTORY_def XRAY_OUTPUT_FILE_KEYS_def

lemmas geodata_eval =
  is_external_geodata_def get_prefix_def is_char_boundary_def utf8_cont_def

text \<open>No rewritten key is one of the restricted names.\<close>

lemma rewritten_key_unrestricted:
  "k \<in> set rewritten_keys \<Longrightarrow>
     \<not> is_named k ([''certificateFile'', ''keyFile'', ''tproxy'', ''type'', ''network'',
        ''xdriveSettings''] @ XRAY_FORBIDDEN_KEYS @ XRAY_ENDPOINT_KEYS @ XRAY_OUTPUT_FILE_KEYS)"
  by (auto simp: rewritten_keys_def table_eval fold_eval)

lemma rewritten_key_not_ext: "k \<in> set rewritten_keys \<Longrightarrow> \<not> is_external_geodata k"
  by (auto simp: rewritten_keys_def table_eval fold_eval geodata_eval)

lemma is_named_append: "is_named k (xs @ ys) \<longleftrightarrow> is_named k xs \<or> is_named k ys"
  by (auto simp: is_named_iff)

lemma named_rewritten:
  assumes "is_named n rewritten_keys"
  shows "\<not> is_named n [''certificateFile'', ''keyFile'']" "\<not> eq_ignore_ascii_case n ''tproxy''"
    "\<not> is_named n [''type'', ''network'']" "\<not> eq_ignore_ascii_case n ''xdriveSettings''"
    "\<not> is_named n XRAY_FORBIDDEN_KEYS" "\<not> is_named n XRAY_ENDPOINT_KEYS"
    "\<not> is_named n XRAY_OUTPUT_FILE_KEYS" "\<not> is_external_geodata n"
proof -
  from assms obtain k where k: "k \<in> set rewritten_keys" "eq_ignore_ascii_case n k"
    by (auto simp: is_named_iff)
  note r = rewritten_key_unrestricted [OF k(1), folded is_named_fold [OF k(2)]]
  show "\<not> is_external_geodata n"
    using rewritten_key_not_ext [OF k(1)] is_external_geodata_fold [OF k(2)] by simp
  show "\<not> is_named n [''certificateFile'', ''keyFile'']" "\<not> eq_ignore_ascii_case n ''tproxy''"
    "\<not> is_named n [''type'', ''network'']" "\<not> eq_ignore_ascii_case n ''xdriveSettings''"
    "\<not> is_named n XRAY_FORBIDDEN_KEYS" "\<not> is_named n XRAY_ENDPOINT_KEYS"
    "\<not> is_named n XRAY_OUTPUT_FILE_KEYS"
    using r by (auto simp: is_named_iff)
qed

definition xdrive_ok :: "string \<Rightarrow> json \<Rightarrow> bool" where
  "xdrive_ok home v \<longleftrightarrow> v = JNull \<or>
     (\<exists>m s. v = JObject m \<and> field m ''service'' = Some (JString s) \<and> s \<in> set XRAY_XDRIVE_SERVICES
        \<and> (s = ''local'' \<longrightarrow>
             (\<exists>cs. dict_get m ''remoteFolder'' =
                     Some (JString (foldl path_join (path_join home XRAY_XDRIVE_DIRECTORY) cs))
                   \<and> cs \<noteq> [] \<and> length cs \<le> 8 \<and> list_all is_xdrive_component cs)
             \<and> (\<forall>p\<in>set m. eq_ignore_ascii_case (fst p) ''remoteFolder'' \<longrightarrow> fst p = ''remoteFolder'')))"

definition xdrive_member :: "string \<Rightarrow> string \<Rightarrow> json \<Rightarrow> bool" where
  "xdrive_member home n c \<longleftrightarrow> (eq_ignore_ascii_case n ''xdriveSettings'' \<longrightarrow> xdrive_ok home c)"

abbreviation is_xdrive :: "string \<Rightarrow> bool" where
  "is_xdrive n \<equiv> eq_ignore_ascii_case n ''xdriveSettings''"

interpretation refs: member_property xray_member_ok never
proof unfold_locales
  fix n n' c assume "xray_member_ok n c" "eq_ignore_ascii_case n n'"
  then show "xray_member_ok n' c" by (rule member_ok_fold)
next
  fix n c assume "is_named n rewritten_keys"
  note r = named_rewritten [OF this]
  show "xray_member_ok n c" by (simp add: xray_member_ok_def r)
qed simp_all

interpretation files: member_property "\<lambda>n _. \<not> is_named n XRAY_OUTPUT_FILE_KEYS" never
proof unfold_locales
  fix n n' assume "\<not> is_named n XRAY_OUTPUT_FILE_KEYS" "eq_ignore_ascii_case n n'"
  then show "\<not> is_named n' XRAY_OUTPUT_FILE_KEYS" by (simp add: is_named_fold)
qed (simp_all add: named_rewritten)

interpretation drives: member_property "xdrive_member home" is_xdrive for home
  by unfold_locales
    (auto simp: xdrive_member_def eq_ignore_ascii_case_def
      dest: named_rewritten(4) [unfolded eq_ignore_ascii_case_def])

section \<open>Passes before shaping\<close>

lemma strip_view: "string_view v (strip_output_files v)"
proof (cases v)
  case (JArray vs)
  have "jas_str (strip_output_files x) = jas_str x" for x by (cases x) auto
  with JArray show ?thesis by (simp add: string_view_def)
qed (auto simp: string_view_def)

lemma strip_refs: "doc_all xray_member_ok never v \<Longrightarrow> doc_all xray_member_ok never (strip_output_files v)"
proof (induction v rule: strip_output_files.induct)
  case (1 m)
  have "xray_member_ok n (strip_output_files c)" "doc_all xray_member_ok never (strip_output_files c)"
    if "(n, c) \<in> set m" "\<not> is_named n XRAY_OUTPUT_FILE_KEYS" for n c
    using 1 that member_ok_view [OF _ strip_view] by (force simp: set_dict_retain)+
  then show ?case by (auto simp: set_dict_retain)
qed auto

lemma strip_files: "doc_all (\<lambda>n _. \<not> is_named n XRAY_OUTPUT_FILE_KEYS) never (strip_output_files v)"
proof (induction v rule: strip_output_files.induct)
  case (1 m)
  then show ?case by (auto simp: set_dict_retain)
qed auto

lemma fold_distinct_retain: "fold_distinct (map fst m) \<Longrightarrow> fold_distinct (map fst (dict_retain Q m))"
  by (induction m) (auto simp: fold_distinct_def dict_retain_def)

lemma strip_fold: "fold_ok v \<Longrightarrow> fold_ok (strip_output_files v)"
proof (induction v rule: strip_output_files.induct)
  case (1 m)
  then show ?case
    using fold_distinct_retain [of m] by (auto simp: set_dict_retain comp_def)
qed auto

lemma fold_distinct_ord_insert:
  assumes "fold_distinct (map fst m)" "\<forall>p\<in>set m. \<not> eq_ignore_ascii_case (fst p) k"
  shows "fold_distinct (map fst (ord_insert k v m))"
  using assms
proof (induction m)
  case Nil
  then show ?case by (simp add: fold_distinct_def)
next
  case (Cons p m)
  have "to_ascii_lowercase ` fst ` set (ord_insert k v m) =
      insert (to_ascii_lowercase k) (to_ascii_lowercase ` fst ` set m)"
    by (simp add: keys_ord_insert)
  with Cons show ?case
    by (cases p) (auto simp: fold_distinct_def eq_ignore_ascii_case_def image_image)
qed

section \<open>The xdrive pass\<close>

lemma guard_Inr: "(if b then Inl e else r) = Inr y \<longleftrightarrow> \<not> b \<and> r = Inr y"
  by simp

lemma to_str_Some: "to_str p = Some q \<longleftrightarrow> valid_utf8 p \<and> q = p"
  by (auto simp: to_str_def)

text \<open>What \<open>shape_xdrive\<close> returns, on each of its successful branches.\<close>

lemma shape_xdriveE:
  assumes "shape_xdrive home v at = Inr v'"
  obtains (null) "v = JNull" "v' = JNull"
  | (remote) m s where "v = JObject m" "v' = JObject m" "field m ''service'' = Some (JString s)"
      "s \<in> set XRAY_XDRIVE_SERVICES" "s \<noteq> ''local''"
  | (local) m cs where "v = JObject m" "field m ''service'' = Some (JString ''local'')"
      "v' = JObject (ord_insert ''remoteFolder''
              (JString (foldl path_join (path_join home XRAY_XDRIVE_DIRECTORY) cs))
              (dict_retain (\<lambda>n. \<not> eq_ignore_ascii_case n ''remoteFolder'') m))"
      "cs \<noteq> []" "length cs \<le> 8" "list_all is_xdrive_component cs"
proof (cases "v = JNull")
  case True
  with assms null show thesis by (simp add: shape_xdrive_def)
next
  case False
  with assms obtain m where v: "v = JObject m"
    by (simp add: shape_xdrive_def result_simps accessor_simps) blast
  from assms obtain s where "Option.bind (field m ''service'') jas_str = Some s"
      and allowed: "s \<in> set XRAY_XDRIVE_SERVICES"
    unfolding shape_xdrive_def v by (simp add: result_simps split: option.splits if_splits)
  then have service: "field m ''service'' = Some (JString s)"
    by (simp add: bind_eq_Some_conv accessor_simps)
  note m = v service allowed
  show thesis
  proof (cases "s = ''local''")
    case False
    with assms m(2,3) have "v' = JObject m"
      unfolding m(1) by (simp add: shape_xdrive_def result_simps)
    from m(1) this m(2,3) False show thesis by (rule remote)
  next
    case True
    from assms m True obtain folder where
        "field m ''remoteFolder'' = Some (JString folder)"
        "\<not> (starts_with ''/'' folder \<or> xdrive_components folder = []
            \<or> length (xdrive_components folder) > 8
            \<or> \<not> list_all is_xdrive_component (xdrive_components folder))"
        "v' = JObject (ord_insert ''remoteFolder''
              (JString (foldl path_join (path_join home XRAY_XDRIVE_DIRECTORY) (xdrive_components folder)))
              (dict_retain (\<lambda>n. \<not> eq_ignore_ascii_case n ''remoteFolder'') m))"
      unfolding shape_xdrive_def
      by (simp add: result_simps guard_Inr to_str_Some accessor_simps bind_eq_Some_conv Let_def) blast
    with True m show thesis by (auto intro!: local [of m "xdrive_components folder"])
  qed
qed

lemma shape_xdrive_ok: "shape_xdrive home v at = Inr v' \<Longrightarrow> xdrive_ok home v'"
proof (erule shape_xdriveE)
  fix m cs
  assume m: "field m ''service'' = Some (JString ''local'')" and cs: "cs \<noteq> []" "length cs \<le> 8"
    "list_all is_xdrive_component cs"
    and v': "v' = JObject (ord_insert ''remoteFolder''
              (JString (foldl path_join (path_join home XRAY_XDRIVE_DIRECTORY) cs))
              (dict_retain (\<lambda>n. \<not> eq_ignore_ascii_case n ''remoteFolder'') m))"
      (is "_ = JObject (ord_insert _ ?f ?r)")
  have other: "\<not> eq_ignore_ascii_case k ''service'' \<or> \<not> eq_ignore_ascii_case k ''remoteFolder''" for k
    by (auto simp: eq_ignore_ascii_case_def to_ascii_lowercase_def ascii_lower_Char)
  have "field (dict_retain (\<lambda>n. \<not> eq_ignore_ascii_case n ''remoteFolder'') xs) ''service'' =
      field xs ''service''" for xs
    using other by (induction xs) (auto simp: field_def dict_retain_def)
  moreover have "field (ord_insert ''remoteFolder'' w xs) ''service'' = field xs ''service''" for w xs
    using other [of "''remoteFolder''"] by (induction xs) (auto simp: field_def eq_ignore_ascii_case_def)
  ultimately have "field (ord_insert ''remoteFolder'' ?f ?r) ''service'' = Some (JString ''local'')"
    using m by simp
  moreover have "fst p = ''remoteFolder''"
    if "p \<in> set (ord_insert ''remoteFolder'' ?f ?r)" "eq_ignore_ascii_case (fst p) ''remoteFolder''" for p
    using that set_ord_insert [of "''remoteFolder''" ?f ?r] by (auto simp: set_dict_retain)
  ultimately show ?thesis
    unfolding xdrive_ok_def v' using cs by (auto simp: get_ord_insert XRAY_XDRIVE_SERVICES_def)
qed (auto simp: xdrive_ok_def)

lemma xdrive_established:
  "shape_xdrive_settings home v at = Inr v' \<Longrightarrow> doc_all (xdrive_member home) is_xdrive v'"
proof (induction home v at arbitrary: v' rule: shape_xdrive_settings.induct)
  case (1 home m at)
  then obtain m' where v': "v' = JObject m'"
    and m': "map_result
       (\<lambda>p. rbind (if eq_ignore_ascii_case (fst p) ''xdriveSettings''
                    then shape_xdrive home (snd p) (at_field at (fst p))
                    else shape_xdrive_settings home (snd p) (at_field at (fst p)))
              (\<lambda>child. Inr (fst p, child))) m = Inr m'"
    by (auto simp: result_simps)
  show ?case unfolding v' doc_all.simps
  proof (intro ballI)
    fix q assume "q \<in> set m'"
    from map_result_elem [OF m' this] obtain p where p: "p \<in> set m" "fst q = fst p"
      and sub: "(if is_xdrive (fst p) then shape_xdrive home (snd p) (at_field at (fst p))
                 else shape_xdrive_settings home (snd p) (at_field at (fst p))) = Inr (snd q)"
      by (auto simp: result_simps)
    show "xdrive_member home (fst q) (snd q) \<and>
        (is_xdrive (fst q) \<or> doc_all (xdrive_member home) is_xdrive (snd q))"
      using sub 1(1) [OF p(1)] shape_xdrive_ok p(2)
      by (cases "is_xdrive (fst p)") (simp_all add: xdrive_member_def [of home "fst p"])
  qed
next
  case (2 home vs at)
  then show ?case by (fastforce simp: result_simps dest: map_result_from_elem)
qed auto

text \<open>The other properties of members and the folding of keys survive the xdrive pass.\<close>

lemma shape_xdrive_members:
  assumes "shape_xdrive home (JObject m) at = Inr v'"
  obtains m' where "v' = JObject m'"
    "\<forall>q\<in>set m'. q \<in> set m \<or> (\<exists>s. q = (''remoteFolder'', JString s))"
proof -
  have "set (ord_insert ''remoteFolder'' w (dict_retain Q m)) \<subseteq> insert (''remoteFolder'', w) (set m)"
    for w Q
    using set_ord_insert [of "''remoteFolder''" w "dict_retain Q m"] by (auto simp: set_dict_retain)
  with assms that show thesis by (elim shape_xdriveE) blast+
qed

lemma xdrive_view: "shape_xdrive home v at = Inr v' \<Longrightarrow> string_view v v'"
  by (erule shape_xdriveE) (auto simp: string_view_def)

lemma xdrive_settings_str: "shape_xdrive_settings home v at = Inr v' \<Longrightarrow> jas_str v' = jas_str v"
  by (cases v) (auto simp: result_simps)

lemma xdrive_settings_view: "shape_xdrive_settings home v at = Inr v' \<Longrightarrow> string_view v v'"
proof (cases v)
  case (JArray vs)
  assume "shape_xdrive_settings home v at = Inr v'"
  with JArray obtain vs' where "v' = JArray vs'"
    "map_result_from 0 (\<lambda>i v. shape_xdrive_settings home v (at_index at i)) vs = Inr vs'"
    by (auto simp: result_simps)
  moreover from this(2) have "map jas_str vs' = map jas_str vs"
    by (intro nth_equalityI) (auto simp: map_result_from_Inr intro: xdrive_settings_str)
  ultimately show ?thesis using JArray by (simp add: string_view_def)
qed (auto simp: string_view_def result_simps)

lemma xdrive_keeps:
  assumes remote: "\<And>s. P ''remoteFolder'' (JString s)"
    and view: "\<And>n c d. P n c \<Longrightarrow> string_view c d \<Longrightarrow> P n d"
  shows "shape_xdrive_settings home v at = Inr v' \<Longrightarrow> doc_all P never v \<Longrightarrow> doc_all P never v'"
proof (induction home v at arbitrary: v' rule: shape_xdrive_settings.induct)
  case (1 home m at)
  then obtain m' where v': "v' = JObject m'"
    and m': "map_result
       (\<lambda>p. rbind (if is_xdrive (fst p) then shape_xdrive home (snd p) (at_field at (fst p))
                    else shape_xdrive_settings home (snd p) (at_field at (fst p)))
              (\<lambda>child. Inr (fst p, child))) m = Inr m'"
    by (auto simp: result_simps)
  show ?case unfolding v' doc_all.simps
  proof (intro ballI)
    fix q assume "q \<in> set m'"
    from map_result_elem [OF m' this] obtain p where p: "p \<in> set m" "fst q = fst p"
      and sub: "(if is_xdrive (fst p) then shape_xdrive home (snd p) (at_field at (fst p))
                 else shape_xdrive_settings home (snd p) (at_field at (fst p))) = Inr (snd q)"
      by (auto simp: result_simps)
    from 1(3) p(1) have ok: "P (fst p) (snd p)" "doc_all P never (snd p)" by auto
    have "string_view (snd p) (snd q)"
      using sub xdrive_view xdrive_settings_view by (auto split: if_splits)
    moreover have "doc_all P never (snd q)"
    proof (cases "is_xdrive (fst p)")
      case True
      with sub have x: "shape_xdrive home (snd p) (at_field at (fst p)) = Inr (snd q)" by simp
      then have "snd q = snd p \<or> (\<exists>m. snd p = JObject m)" by (elim shape_xdriveE) auto
      with x ok(2) remote show ?thesis by (fastforce elim: shape_xdrive_members)
    qed (use sub 1(1) [OF p(1)] ok(2) in simp)
    ultimately show "P (fst q) (snd q) \<and> (False \<or> doc_all P never (snd q))"
      using view [OF ok(1)] p(2) by simp
  qed
next
  case (2 home vs at)
  then show ?case by (fastforce simp: result_simps dest: map_result_from_elem)
qed auto

lemma xdrive_fold: "shape_xdrive_settings home v at = Inr v' \<Longrightarrow> fold_ok v \<Longrightarrow> fold_ok v'"
proof (induction home v at arbitrary: v' rule: shape_xdrive_settings.induct)
  case (1 home m at)
  then obtain m' where v': "v' = JObject m'"
    and m': "map_result
       (\<lambda>p. rbind (if is_xdrive (fst p) then shape_xdrive home (snd p) (at_field at (fst p))
                    else shape_xdrive_settings home (snd p) (at_field at (fst p)))
              (\<lambda>child. Inr (fst p, child))) m = Inr m'"
    by (auto simp: result_simps)
  have "fold_ok (snd q)" if q: "q \<in> set m'" for q
  proof -
    from map_result_elem [OF m' q] obtain p where p: "p \<in> set m"
      and sub: "(if is_xdrive (fst p) then shape_xdrive home (snd p) (at_field at (fst p))
                 else shape_xdrive_settings home (snd p) (at_field at (fst p))) = Inr (snd q)"
      by (auto simp: result_simps)
    from 1(3) p(1) have "fold_ok (snd p)" by auto
    with sub 1(1) [OF p] show ?thesis
      by (auto simp: set_dict_retain fold_distinct_retain elim!: shape_xdriveE
          dest!: subsetD [OF set_ord_insert] intro!: fold_distinct_ord_insert split: if_splits)
        fastforce
  qed
  moreover have "map fst m' = map fst m"
    by (rule map_result_keys [OF m']) (auto simp: result_simps)
  ultimately show ?case using 1(3) v' by simp
next
  case (2 home vs at)
  then show ?case by (fastforce simp: result_simps dest: map_result_from_elem)
qed auto

section \<open>Updates of one member\<close>

lemma get_update_member_other:
  "update_member k f m = Inr m' \<Longrightarrow> k' \<noteq> k \<Longrightarrow> dict_get m' k' = dict_get m k'"
  by (auto simp: update_member_def result_simps get_ord_insert split: option.splits)

lemma get_update_member:
  "update_member k f m = Inr m' \<Longrightarrow> dict_get m' k = Some w \<Longrightarrow> \<exists>v. dict_get m k = Some v \<and> f v = Inr w"
  by (auto simp: update_member_def result_simps get_ord_insert split: option.splits)

lemma keys_update_member:
  assumes "update_member k f m = Inr m'" shows "fst ` set m' = fst ` set m"
proof (cases "dict_get m k")
  case None
  with assms show ?thesis by (simp add: update_member_def)
next
  case (Some v)
  then have "k \<in> fst ` set m" by (force dest: map_of_SomeD)
  with assms Some show ?thesis
    by (simp add: update_member_def result_simps) (metis insert_absorb keys_ord_insert)
qed

lemma ord_inv_update_member: "update_member k f m = Inr m' \<Longrightarrow> ord_inv m \<Longrightarrow> ord_inv m'"
  by (auto simp: update_member_def result_simps inv_ord_insert split: option.splits)

lemma keep_known_keys: "fst ` set (keep_known allowed m) \<subseteq> set allowed"
  using keep_known_entries [of _ _ allowed m] by force

section \<open>The shape of an inbound\<close>

text \<open>
  What the service promises of every inbound it starts: a SOCKS bridge on a loopback address with
  a fixed port, carrying no field outside the allowed ones.
\<close>

definition socks_settings_ok :: "json \<Rightarrow> bool" where
  "socks_settings_ok v \<longleftrightarrow> v = JNull \<or>
     (\<exists>s. v = JObject s \<and> fst ` set s \<subseteq> set ALLOWED_XRAY_SOCKS_SETTINGS
        \<and> (\<forall>ip. (''ip'', ip) \<in> set s \<longrightarrow> is_loopback_ip ip)
        \<and> (\<forall>a. (''auth'', a) \<in> set s \<longrightarrow> (\<exists>t\<in>set ALLOWED_XRAY_SOCKS_AUTH. a = JString t)))"

definition loopback_bridge :: "json \<Rightarrow> bool" where
  "loopback_bridge v \<longleftrightarrow>
     (\<exists>m. v = JObject m \<and> fst ` set m \<subseteq> set ALLOWED_XRAY_INBOUND_KEYS
        \<and> (\<exists>l. dict_get m ''listen'' = Some l \<and> is_loopback_ip l)
        \<and> dict_get m ''protocol'' = Some (JString ''socks'')
        \<and> (\<exists>p. p \<noteq> 0 \<and> dict_get m ''port'' = Some (port_json p))
        \<and> (\<forall>s. dict_get m ''settings'' = Some s \<longrightarrow> socks_settings_ok s))"

lemma shape_socks_settings_ok:
  assumes "shape_socks_settings v at = Inr v'" shows "socks_settings_ok v'"
proof (cases "v = JNull")
  case True
  with assms show ?thesis by (simp add: shape_socks_settings_def socks_settings_ok_def)
next
  case False
  with assms obtain m s where v': "v' = JObject s"
    and s: "map_result (shape_socks_member at) (keep_known ALLOWED_XRAY_SOCKS_SETTINGS m) = Inr s"
    by (auto simp: shape_socks_settings_def result_simps)
  have "map fst s = map fst (keep_known ALLOWED_XRAY_SOCKS_SETTINGS m)"
    by (rule map_result_keys [OF s])
      (auto simp: shape_socks_member_def Let_def result_simps split: if_splits)
  then have "fst ` set s = fst ` set (keep_known ALLOWED_XRAY_SOCKS_SETTINGS m)"
    by (metis set_map)
  with keep_known_keys have "fst ` set s \<subseteq> set ALLOWED_XRAY_SOCKS_SETTINGS" by metis
  moreover have "(fst q = ''ip'' \<longrightarrow> is_loopback_ip (snd q))
      \<and> (fst q = ''auth'' \<longrightarrow> (\<exists>t\<in>set ALLOWED_XRAY_SOCKS_AUTH. snd q = JString t))"
    if q: "q \<in> set s" for q
  proof -
    from map_result_elem [OF s q] obtain p where "shape_socks_member at p = Inr q" by blast
    then show ?thesis
      by (auto simp: shape_socks_member_def Let_def result_simps accessor_simps
          split: if_splits option.splits)
  qed
  ultimately show ?thesis by (auto simp: socks_settings_ok_def v')
qed

lemma inbound_listen_Inr:
  assumes "inbound_listen at m = Inr m1" "fold_distinct (map fst m)"
  shows "fold_distinct (map fst m1) \<and> (\<exists>l. field m1 ''listen'' = Some l \<and> is_loopback_ip l)"
proof (cases "field m ''listen''")
  case None
  with assms(1) have m1: "m1 = ord_insert ''listen'' (JString ''127.0.0.1'') m"
    by (simp add: inbound_listen_def)
  have "field (ord_insert ''listen'' w m) ''listen'' = Some w" for w
    using None by (induction m) (auto simp: field_def eq_ignore_ascii_case_def split: if_splits)
  moreover have "is_loopback_ip (JString ''127.0.0.1'')"
    by code_simp
  ultimately show ?thesis
    using None assms(2) by (auto simp: m1 field_None intro: fold_distinct_ord_insert)
next
  case (Some l)
  with assms show ?thesis by (auto simp: inbound_listen_def split: if_splits)
qed

lemma inbound_port_nonzero: "inbound_port v = Some p \<Longrightarrow> p \<noteq> 0"
  by (auto simp: inbound_port_def split: option.splits if_splits)

lemma shape_inbound_ok:
  assumes "shape_inbound i v = Inr v'" "fold_ok v"
  shows "loopback_bridge v'"
proof -
  from assms(1) obtain m m1 port m4 m5 where v: "v = JObject m"
    and m1: "inbound_listen (at_index ''inbounds'' i) m = Inr m1"
    and port: "inbound_port (dict_get (ord_insert ''protocol'' (JString ''socks'')
           (keep_known ALLOWED_XRAY_INBOUND_KEYS m1)) ''port'') = Some port"
    and m4: "update_member ''settings''
           (\<lambda>s. shape_socks_settings s (at_field (at_index ''inbounds'' i) ''settings''))
           (inbound_base m1 port) = Inr m4"
    and m5: "update_member ''sniffing'' shape_sniffing m4 = Inr m5" and v': "v' = JObject m5"
    by (elim shape_inboundE)
  from inbound_listen_Inr [OF m1] assms(2) v obtain l
    where fold: "fold_distinct (map fst m1)" and l: "field m1 ''listen'' = Some l" "is_loopback_ip l"
    by auto
  have allowed: "fold_distinct ALLOWED_XRAY_INBOUND_KEYS"
    by (simp add: table_eval fold_distinct_def to_ascii_lowercase_def ascii_lower_Char)
  have base: "dict_get (inbound_base m1 port) ''listen'' = Some l"
    using get_keep_known [OF fold allowed, of "''listen''"] l(1)
    by (simp add: inbound_base_def get_ord_insert ALLOWED_XRAY_INBOUND_KEYS_def)
  have get: "dict_get m5 k = dict_get (inbound_base m1 port) k" if "k \<notin> {''settings'', ''sniffing''}" for k
    using that get_update_member_other [OF m4] get_update_member_other [OF m5] by simp
  have "fst ` set m5 = fst ` set (inbound_base m1 port)"
    using keys_update_member [OF m4] keys_update_member [OF m5] by simp
  then have keys: "fst ` set m5 \<subseteq> set ALLOWED_XRAY_INBOUND_KEYS"
    using keep_known_keys [of ALLOWED_XRAY_INBOUND_KEYS m1]
    by (auto simp: inbound_base_def keys_ord_insert ALLOWED_XRAY_INBOUND_KEYS_def)
  have "socks_settings_ok s" if "dict_get m5 ''settings'' = Some s" for s
    using that get_update_member_other [OF m5] get_update_member [OF m4] shape_socks_settings_ok
    by fastforce
  moreover have "dict_get m5 ''protocol'' = Some (JString ''socks'')"
    "dict_get m5 ''port'' = Some (port_json port)"
    using get by (simp_all add: inbound_base_def get_ord_insert)
  ultimately show ?thesis
    using keys get [of "''listen''"] base l(2) inbound_port_nonzero [OF port]
    by (auto simp: loopback_bridge_def v')
qed

section \<open>The shape of outbounds and routing\<close>

text \<open>An outbound of an allowed protocol; WireGuard never gets a kernel interface.\<close>

definition outbound_ok :: "json \<Rightarrow> bool" where
  "outbound_ok v \<longleftrightarrow>
     (\<exists>m p. v = JObject m \<and> fst ` set m \<subseteq> set ALLOWED_XRAY_OUTBOUND_KEYS
        \<and> dict_get m ''protocol'' = Some (JString p) \<and> is_named p ALLOWED_XRAY_OUTBOUND_PROTOCOLS
        \<and> (eq_ignore_ascii_case p ''wireguard'' \<longrightarrow>
             (\<exists>s. dict_get m ''settings'' = Some (JObject s)
                \<and> dict_get s ''noKernelTun'' = Some (JBool True)
                \<and> (\<forall>q\<in>set s. eq_ignore_ascii_case (fst q) ''noKernelTun'' \<longrightarrow>
                      q = (''noKernelTun'', JBool True)))))"

lemma shape_outbound_ok:
  assumes "shape_outbound i v = Inr v'" shows "outbound_ok v'"
proof -
  define allow where "allow = ALLOWED_XRAY_OUTBOUND_KEYS"
  from assms obtain m p where v: "v = JObject m"
    and "Option.bind (dict_get (keep_known allow m) ''protocol'') jas_str = Some p"
    and p: "is_named p ALLOWED_XRAY_OUTBOUND_PROTOCOLS"
    unfolding shape_outbound_def allow_def
    by (auto simp: result_simps accessor_simps Let_def split: option.splits if_splits)
  then have proto: "dict_get (keep_known allow m) ''protocol'' = Some (JString p)"
    by (simp add: bind_eq_Some_conv accessor_simps)
  show ?thesis
  proof (cases "eq_ignore_ascii_case p ''wireguard''")
    case False
    with assms proto p have "v' = JObject (keep_known allow m)"
      by (simp add: shape_outbound_def v result_simps flip: allow_def)
    with False proto p keep_known_keys [of allow m] show ?thesis
      by (simp add: outbound_ok_def flip: allow_def)
  next
    case True
    define drop :: "json_map \<Rightarrow> json_map" where "drop = dict_retain (\<lambda>n. \<not> eq_ignore_ascii_case n ''noKernelTun'')"
    from assms proto True obtain s where
      v': "v' = JObject (ord_insert ''settings'' (JObject (ord_insert ''noKernelTun'' (JBool True)
              (drop s))) (keep_known allow m))"
      unfolding shape_outbound_def v drop_def allow_def
      by (auto simp: result_simps Let_def split: if_splits)
    have "\<forall>q\<in>set (ord_insert ''noKernelTun'' (JBool True) (drop s)).
        eq_ignore_ascii_case (fst q) ''noKernelTun'' \<longrightarrow> q = (''noKernelTun'', JBool True)"
      using set_ord_insert [of "''noKernelTun''" "JBool True" "drop s"]
      by (auto simp: drop_def set_dict_retain)
    moreover have "''settings'' \<in> set allow" by (simp add: allow_def ALLOWED_XRAY_OUTBOUND_KEYS_def)
    ultimately show ?thesis
      using keep_known_keys [of allow m] proto p
      by (auto simp: outbound_ok_def v' get_ord_insert keys_ord_insert simp flip: allow_def)
  qed
qed

definition keys_within :: "string list \<Rightarrow> json \<Rightarrow> bool" where
  "keys_within allowed v \<longleftrightarrow> (\<exists>m. v = JObject m \<and> fst ` set m \<subseteq> set allowed)"

definition each_within :: "string list \<Rightarrow> json \<Rightarrow> bool" where
  "each_within allowed v \<longleftrightarrow> v = JNull \<or> (\<exists>vs. v = JArray vs \<and> (\<forall>x\<in>set vs. keys_within allowed x))"

definition routing_ok :: "json \<Rightarrow> bool" where
  "routing_ok v \<longleftrightarrow> v = JNull \<or>
     (\<exists>m. v = JObject m \<and> fst ` set m \<subseteq> set ALLOWED_XRAY_ROUTING_KEYS
        \<and> (\<forall>r. dict_get m ''rules'' = Some r \<longrightarrow> each_within ALLOWED_XRAY_RULE_KEYS r)
        \<and> (\<forall>b. dict_get m ''balancers'' = Some b \<longrightarrow> each_within ALLOWED_XRAY_BALANCER_KEYS b))"

lemma shape_array_within:
  assumes "unless_null (shape_array f) v = Inr v'" "\<And>x y. f x = Inr y \<Longrightarrow> keys_within allowed y"
  shows "each_within allowed v'"
  using assms(1) map_result_elem [of f] assms(2)
  by (fastforce simp: unless_null_def shape_array_def each_within_def result_simps split: if_splits)

lemma keep_known_value_within: "keep_known_value allowed x = Inr y \<Longrightarrow> keys_within allowed y"
  using keep_known_keys [of allowed] by (auto simp: keep_known_value_def keys_within_def result_simps)

lemma shape_balancer_within: "shape_balancer x = Inr y \<Longrightarrow> keys_within ALLOWED_XRAY_BALANCER_KEYS y"
  using keep_known_keys [of ALLOWED_XRAY_BALANCER_KEYS]
  by (auto simp: shape_balancer_def keys_within_def result_simps dest!: keys_update_member)

lemma shape_routing_ok:
  assumes "shape_routing v = Inr v'" shows "routing_ok v'"
proof (cases "v = JNull")
  case True
  with assms show ?thesis by (simp add: shape_routing_def routing_ok_def)
next
  case False
  with assms obtain m m1 m2 where v': "v' = JObject m2"
    and m1: "update_member ''rules'' (unless_null (shape_array (keep_known_value ALLOWED_XRAY_RULE_KEYS)))
       (keep_known ALLOWED_XRAY_ROUTING_KEYS m) = Inr m1"
    and m2: "update_member ''balancers'' (unless_null (shape_array shape_balancer)) m1 = Inr m2"
    by (auto simp: shape_routing_def result_simps)
  have "each_within ALLOWED_XRAY_RULE_KEYS r" if "dict_get m2 ''rules'' = Some r" for r
    using that get_update_member_other [OF m2] get_update_member [OF m1]
      shape_array_within keep_known_value_within by fastforce
  moreover have "each_within ALLOWED_XRAY_BALANCER_KEYS b" if "dict_get m2 ''balancers'' = Some b" for b
    using get_update_member [OF m2 that] shape_array_within shape_balancer_within by blast
  ultimately show ?thesis
    using keys_update_member [OF m1] keys_update_member [OF m2]
      keep_known_keys [of ALLOWED_XRAY_ROUTING_KEYS m] by (auto simp: routing_ok_def v')
qed

end
