(* ===== verification/Xray_Strings.thy ===== *)
theory Xray_Strings
  imports Xray_Guarantees
begin

text \<open>
  The strings of a document, at any depth: which passes of \<open>sanitize_xray\<close> can put a string into
  the output that names an external geodata file. Only \<open>shape_sniffing\<close> can, so the check of
  \<open>reject_xray_references\<close> on the input holds of the output everywhere else.
\<close>

definition geodata_free :: "json \<Rightarrow> bool" where
  "geodata_free v \<longleftrightarrow> (\<forall>s. JString s \<in> set (jvalues v) \<longrightarrow> \<not> is_external_geodata s)"

lemma geodata_free_simps [simp]:
  "geodata_free (JString s) \<longleftrightarrow> \<not> is_external_geodata s"
  "geodata_free (JArray vs) \<longleftrightarrow> (\<forall>v\<in>set vs. geodata_free v)"
  "geodata_free (JObject m) \<longleftrightarrow> (\<forall>p\<in>set m. geodata_free (snd p))"
  "geodata_free JNull" "geodata_free (JBool b)" "geodata_free (JNumber n)"
  by (auto simp: geodata_free_def)

definition keeps_free :: "(json \<Rightarrow> sanitize_error + json) \<Rightarrow> bool" where
  "keeps_free f \<longleftrightarrow> (\<forall>v v'. f v = Inr v' \<longrightarrow> geodata_free v \<longrightarrow> geodata_free v')"

lemma keeps_freeI: "(\<And>v v'. f v = Inr v' \<Longrightarrow> geodata_free v \<Longrightarrow> geodata_free v') \<Longrightarrow> keeps_free f"
  by (simp add: keeps_free_def)

lemma keeps_freeD: "keeps_free f \<Longrightarrow> f v = Inr v' \<Longrightarrow> geodata_free v \<Longrightarrow> geodata_free v'"
  by (simp add: keeps_free_def)

section \<open>The rewrites of one object\<close>

lemma keep_known_free:
  assumes "geodata_free (JObject m)" shows "geodata_free (JObject (keep_known allowed m))"
  using assms keep_known_entries [of _ _ allowed m] by fastforce

lemma insert_free:
  "geodata_free (JObject m) \<Longrightarrow> geodata_free v \<Longrightarrow> geodata_free (JObject (ord_insert k v m))"
  using set_ord_insert [of k v m] by auto

lemma retain_free: "geodata_free (JObject m) \<Longrightarrow> geodata_free (JObject (dict_retain Q m))"
  by (auto simp: set_dict_retain)

lemma member_free: "geodata_free (JObject m) \<Longrightarrow> dict_get m k = Some v \<Longrightarrow> geodata_free v"
  by (force dest: map_of_SomeD)

lemma update_member_free:
  assumes "update_member k f m = Inr m'" "keeps_free f" "geodata_free (JObject m)"
  shows "geodata_free (JObject m')"
proof (cases "dict_get m k")
  case None
  with assms show ?thesis by (simp add: update_member_def)
next
  case (Some v)
  with assms(1) obtain v' where v': "f v = Inr v'" "m' = ord_insert k v' m"
    by (auto simp: update_member_def result_simps)
  from keeps_freeD [OF assms(2) v'(1) member_free [OF assms(3) Some]]
  show ?thesis unfolding v'(2) by (rule insert_free [OF assms(3)])
qed

lemma array_free: "keeps_free f \<Longrightarrow> keeps_free (shape_array f)"
  by (rule keeps_freeI)
    (force simp: shape_array_def result_simps elim!: jas_array.elims dest: keeps_freeD map_result_elem)

lemma unless_null_free: "keeps_free f \<Longrightarrow> keeps_free (unless_null f)"
  by (rule keeps_freeI) (auto simp: unless_null_def dest: keeps_freeD split: if_splits)

lemma keep_known_value_free: "keeps_free (keep_known_value allowed)"
  by (rule keeps_freeI)
    (auto simp: keep_known_value_def result_simps simp del: geodata_free_simps(3)
      elim!: jas_object.elims intro: keep_known_free)

section \<open>The passes\<close>

lemma constant_strings_free [simp]:
  "\<not> is_external_geodata ''socks''" "\<not> is_external_geodata ''127.0.0.1''"
  by (simp_all add: geodata_eval fold_eval)

lemma absolute_not_geodata: "is_absolute p \<Longrightarrow> \<not> is_external_geodata (p @ q)"
  by (cases p) (auto simp: is_absolute_def starts_with_def geodata_eval fold_eval
      split: option.splits if_splits)

lemma check_account_free: "keeps_free check_account"
  by (rule keeps_freeI)
    (auto simp: check_account_def result_simps accessor_simps Let_def simp del: geodata_free_simps(3)
      intro: keep_known_free split: if_splits)

lemma socks_member_free:
  assumes "shape_socks_member at p = Inr p'" "geodata_free (snd p)"
  shows "geodata_free (snd p')"
proof (cases "p' = p")
  case False
  with assms(1) obtain vs vs' where "snd p = JArray vs" and vs': "map_result check_account vs = Inr vs'"
    "p' = (fst p, JArray vs')"
    by (auto simp: shape_socks_member_def Let_def result_simps accessor_simps
        split: if_splits option.splits)
  with assms(2) show ?thesis
    by (auto dest!: map_result_elem [OF vs'(1)] dest: keeps_freeD [OF check_account_free])
qed (use assms in simp)

lemma socks_settings_free: "keeps_free (\<lambda>v. shape_socks_settings v at)"
proof (rule keeps_freeI)
  fix v v' assume "shape_socks_settings v at = Inr v'" and ok: "geodata_free v"
  then consider "v' = v" | m m' where "v = JObject m" "v' = JObject m'"
      "map_result (shape_socks_member at) (keep_known ALLOWED_XRAY_SOCKS_SETTINGS m) = Inr m'"
    by (auto simp: shape_socks_settings_def result_simps accessor_simps split: if_splits)
  then show "geodata_free v'"
  proof cases
    case 2
    from ok have "geodata_free (JObject (keep_known ALLOWED_XRAY_SOCKS_SETTINGS m))"
      unfolding 2(1) by (rule keep_known_free)
    then show ?thesis
      unfolding 2(2) by (auto dest!: map_result_elem [OF 2(3)] dest: socks_member_free)
  qed (use ok in simp)
qed

text \<open>An inbound keeps the check outside its \<open>sniffing\<close> settings.\<close>

definition inbound_free :: "json \<Rightarrow> bool" where
  "inbound_free v \<longleftrightarrow>
     (\<exists>m. v = JObject m \<and> (\<forall>(name, child)\<in>set m. name = ''sniffing'' \<or> geodata_free child))"

lemma inbound_free:
  assumes "shape_inbound i v = Inr v'" and ok: "geodata_free v"
  shows "inbound_free v'"
proof -
  from assms(1) obtain m m1 port m4 m5 at where v: "v = JObject m"
    and m1: "inbound_listen at m = Inr m1"
    and m4: "update_member ''settings'' (\<lambda>s. shape_socks_settings s (at_field at ''settings''))
           (inbound_base m1 port) = Inr m4"
    and m5: "update_member ''sniffing'' shape_sniffing m4 = Inr m5" and v': "v' = JObject m5"
    by (elim shape_inboundE)
  have "geodata_free (JObject m1)"
    using m1 ok unfolding v inbound_listen_def
    by (auto simp del: geodata_free_simps(3) intro!: insert_free split: option.splits if_splits)
  then have "geodata_free (JObject (inbound_base m1 port))"
    unfolding inbound_base_def
    by (intro insert_free keep_known_free) (simp_all add: port_json_def del: geodata_free_simps(3))
  then have m4: "geodata_free (JObject m4)"
    by (rule update_member_free [OF m4 socks_settings_free])
  have "set m5 \<subseteq> set m4 \<union> {p. fst p = ''sniffing''}"
    using m5 set_ord_insert [of "''sniffing''" _ m4]
    by (fastforce simp: update_member_def result_simps split: option.splits)
  with m4 show ?thesis unfolding v' inbound_free_def by fastforce
qed

lemma outbound_free: "keeps_free (shape_outbound i)"
proof (rule keeps_freeI)
  fix v v' assume f: "shape_outbound i v = Inr v'" and ok: "geodata_free v"
  from f obtain m m1 where v: "v = JObject m" and m1: "m1 = keep_known ALLOWED_XRAY_OUTBOUND_KEYS m"
    and v': "v' = JObject m1 \<or> (\<exists>s. (s = [] \<or> dict_get m1 ''settings'' = Some (JObject s)) \<and>
        v' = JObject (ord_insert ''settings'' (JObject (ord_insert ''noKernelTun'' (JBool True)
              (dict_retain (\<lambda>n. \<not> eq_ignore_ascii_case n ''noKernelTun'') s))) m1))"
    by (auto simp: shape_outbound_def Let_def result_simps accessor_simps
        split: if_splits option.splits json.splits)
  have ok1: "geodata_free (JObject m1)"
    using ok unfolding v m1 by (rule keep_known_free)
  from v' show "geodata_free v'"
  proof (elim disjE exE conjE)
    fix s assume s: "dict_get m1 ''settings'' = Some (JObject s)"
      and v': "v' = JObject (ord_insert ''settings'' (JObject (ord_insert ''noKernelTun'' (JBool True)
              (dict_retain (\<lambda>n. \<not> eq_ignore_ascii_case n ''noKernelTun'') s))) m1)"
    from member_free [OF ok1 s] show ?thesis
      unfolding v' by (intro insert_free retain_free ok1) simp_all
  next
    fix s :: json_map assume s: "s = []"
      and v': "v' = JObject (ord_insert ''settings'' (JObject (ord_insert ''noKernelTun'' (JBool True)
              (dict_retain (\<lambda>n. \<not> eq_ignore_ascii_case n ''noKernelTun'') s))) m1)"
    show ?thesis unfolding v' s by (intro insert_free retain_free ok1) simp_all
  qed (use ok1 in simp)
qed

lemma balancer_free: "keeps_free shape_balancer"
proof (rule keeps_freeI)
  fix v v' assume f: "shape_balancer v = Inr v'" and ok: "geodata_free v"
  from f obtain m m' where v: "v = JObject m" "v' = JObject m'"
    and u: "update_member ''strategy'' (unless_null (keep_known_value ALLOWED_XRAY_STRATEGY_KEYS))
              (keep_known ALLOWED_XRAY_BALANCER_KEYS m) = Inr m'"
    by (auto simp: shape_balancer_def result_simps accessor_simps)
  from ok show "geodata_free v'"
    unfolding v
    by (intro update_member_free [OF u unless_null_free [OF keep_known_value_free]] keep_known_free)
qed

lemma routing_free: "keeps_free shape_routing"
proof (rule keeps_freeI)
  fix v v' assume f: "shape_routing v = Inr v'" and ok: "geodata_free v"
  then consider "v' = v" | m m1 m2 where "v = JObject m" "v' = JObject m2"
    "update_member ''rules'' (unless_null (shape_array (keep_known_value ALLOWED_XRAY_RULE_KEYS)))
       (keep_known ALLOWED_XRAY_ROUTING_KEYS m) = Inr m1"
    "update_member ''balancers'' (unless_null (shape_array shape_balancer)) m1 = Inr m2"
    by (auto simp: shape_routing_def result_simps accessor_simps split: if_splits)
  then show "geodata_free v'"
  proof cases
    case 2
    have "geodata_free (JObject m1)"
      using ok unfolding 2(1)
      by (intro update_member_free [OF 2(3)] unless_null_free array_free keep_known_value_free
          keep_known_free)
    then show ?thesis
      unfolding 2(2) by (intro update_member_free [OF 2(4)] unless_null_free array_free balancer_free)
  qed (use ok in simp)
qed

text \<open>One section of an accepted document.\<close>

definition section_free :: "string \<Rightarrow> json \<Rightarrow> bool" where
  "section_free name section \<longleftrightarrow>
     (if eq_ignore_ascii_case name ''inbounds''
      then \<exists>vs. section = JArray vs \<and> (\<forall>v\<in>set vs. inbound_free v)
      else geodata_free section)"

lemma section_free:
  assumes "shape_section p = Inr q" "geodata_free (snd p)"
  shows "section_free (fst q) (snd q)"
proof -
  have "geodata_free v'" if v: "shape_outbounds v = Inr v'" "geodata_free v" for v v'
  proof -
    from v(1) obtain vs vs' where vs: "v = JArray vs" "v' = JArray vs'"
      "map_result_from 0 shape_outbound vs = Inr vs'"
      by (auto simp: shape_outbounds_def result_simps accessor_simps)
    with v(2) show ?thesis
      by (auto dest!: map_result_from_elem [OF vs(3)] dest: keeps_freeD [OF outbound_free])
  qed
  moreover have "\<exists>vs. v' = JArray vs \<and> (\<forall>v\<in>set vs. inbound_free v)"
    if v: "shape_inbounds v = Inr v'" "geodata_free v" for v v'
  proof -
    from v(1) obtain vs vs' where vs: "v = JArray vs" "v' = JArray vs'"
      "map_result_from 0 shape_inbound vs = Inr vs'"
      by (auto simp: shape_inbounds_def result_simps accessor_simps)
    with v(2) show ?thesis by (auto dest!: map_result_from_elem [OF vs(3)] dest: inbound_free)
  qed
  ultimately show ?thesis
    using assms keeps_freeD [OF routing_free]
    by (auto simp: shape_section_def section_free_def result_simps split: if_splits)
qed

section \<open>The passes before shaping\<close>

lemma strip_free: "geodata_free v \<Longrightarrow> geodata_free (strip_output_files v)"
  by (induction v rule: strip_output_files.induct) (auto simp: set_dict_retain)

lemma path_join_prefix: "is_absolute p \<Longrightarrow> (\<exists>q. path_join p c = p @ q) \<or> is_absolute c"
  by (auto simp: path_join_def)

lemma foldl_join_free:
  assumes "is_absolute p" shows "is_absolute (foldl path_join p cs)"
  using assms
proof (induction cs arbitrary: p)
  case (Cons c cs)
  have "is_absolute (path_join p c)"
    using Cons.prems by (auto simp: path_join_def is_absolute_def starts_with_iff)
  from Cons.IH [OF this] show ?case by simp
qed simp

lemma xdrive_free:
  assumes "shape_xdrive home v at = Inr v'" "is_absolute home" "geodata_free v"
  shows "geodata_free v'"
  using assms(1)
proof (cases rule: shape_xdriveE)
  case (local m cs)
  have "is_absolute (path_join home XRAY_XDRIVE_DIRECTORY)"
    using foldl_join_free [OF assms(2), of "[XRAY_XDRIVE_DIRECTORY]"] by simp
  from absolute_not_geodata [OF foldl_join_free [OF this, of cs], of "[]"] assms(3) show ?thesis
    unfolding local by (intro insert_free retain_free) simp_all
qed (use assms in simp_all)

lemma xdrive_settings_free:
  "shape_xdrive_settings home v at = Inr v' \<Longrightarrow> is_absolute home \<Longrightarrow> geodata_free v \<Longrightarrow> geodata_free v'"
proof (induction home v at arbitrary: v' rule: shape_xdrive_settings.induct)
  case (1 home m at)
  then obtain m' where v': "v' = JObject m'"
    and m': "map_result
       (\<lambda>p. rbind (if is_xdrive (fst p) then shape_xdrive home (snd p) (at_field at (fst p))
                    else shape_xdrive_settings home (snd p) (at_field at (fst p)))
              (\<lambda>child. Inr (fst p, child))) m = Inr m'"
    by (auto simp: result_simps)
  have "geodata_free (snd q)" if q: "q \<in> set m'" for q
  proof -
    from map_result_elem [OF m' q] obtain p where p: "p \<in> set m"
      and sub: "(if is_xdrive (fst p) then shape_xdrive home (snd p) (at_field at (fst p))
                 else shape_xdrive_settings home (snd p) (at_field at (fst p))) = Inr (snd q)"
      by (auto simp: result_simps)
    from 1(4) p have "geodata_free (snd p)" by simp
    with sub xdrive_free 1(1) [OF p] 1(3) show ?thesis by (auto split: if_splits)
  qed
  then show ?case unfolding v' by simp
next
  case (2 home vs at)
  then show ?case by (fastforce simp: result_simps dest: map_result_from_elem)
qed auto

end
