(* ===== verification/Xray_Properties.thy ===== *)
theory Xray_Properties
  imports Xray_Strings
begin

text \<open>
  The theorems about \<open>sanitize_xray\<close> as a whole, with a sample subscription that exercises every
  pass and witnesses their hypotheses.
\<close>

section \<open>The passes of an accepted document\<close>

lemma sanitize_xray_documentE:
  assumes "sanitize_xray_document home v = Inr v'"
  obtains root logs mid out where "v = JObject root" "fold_ok v"
    and "map_result shape_log (dict_retain (\<lambda>n. is_named n ALLOWED_XRAY_SECTIONS) root) = Inr logs"
    and "doc_all xray_member_ok never (JObject logs)" "geodata_free (JObject logs)"
    and "shape_xdrive_settings home (strip_output_files (JObject logs)) ''$'' = Inr (JObject mid)"
    and "map_result shape_section mid = Inr out" and "v' = JObject out"
  using assms unfolding sanitize_xray_document_def
  by (auto simp: result_simps accessor_simps reject_ambiguous_keys_Inr reject_xray_references_Inr
      geodata_free_def simp del: geodata_free_simps doc_all.simps fold_ok.simps jvalues.simps jmembers.simps strip_output_files.simps
        shape_xdrive_settings.simps reject_xray_references.simps reject_ambiguous_keys.simps)

lemma shape_section_key: "shape_section p = Inr q \<Longrightarrow> fst q = fst p"
  by (auto simp: shape_section_def result_simps)

lemma shape_log_key: "shape_log p = Inr q \<Longrightarrow> fst q = fst p"
  by (auto simp: shape_log_def result_simps split: if_splits)

lemma xdrive_settings_keys:
  "shape_xdrive_settings home (JObject m) at = Inr (JObject m') \<Longrightarrow> map fst m' = map fst m"
  by (auto simp: result_simps intro: map_result_keys)

lemma logs_fold:
  assumes "fold_ok (JObject root)"
    and "map_result shape_log (dict_retain Q root) = Inr logs"
  shows "fold_ok (JObject logs)"
proof -
  have "fold_ok (snd q)" if q: "q \<in> set logs" for q
  proof -
    from map_result_elem [OF assms(2) q] obtain p where p: "p \<in> set root" "shape_log p = Inr q"
      by (auto simp: set_dict_retain)
    with assms(1) have "fold_ok (snd p)" by auto
    with p(2) show ?thesis
      by (auto simp: shape_log_def result_simps accessor_simps set_dict_retain fold_distinct_retain
          split: if_splits) fastforce
  qed
  moreover have "map fst logs = map fst (dict_retain Q root)"
    by (rule map_result_keys [OF assms(2) shape_log_key])
  ultimately show ?thesis using assms(1) fold_distinct_retain [of root Q] by simp
qed

text \<open>What the passes before shaping hand over, and the keys they leave at the root.\<close>

lemma sanitize_xray_mid:
  assumes "sanitize_xray_document home v = Inr v'"
  obtains mid out where "map_result shape_section mid = Inr out" "v' = JObject out"
    and "fold_ok (JObject mid)" and "doc_all xray_member_ok never (JObject mid)"
    and "doc_all (\<lambda>n _. \<not> is_named n XRAY_OUTPUT_FILE_KEYS) never (JObject mid)"
    and "doc_all (xdrive_member home) is_xdrive (JObject mid)"
    and "is_absolute home \<longrightarrow> geodata_free (JObject mid)"
    and "\<forall>p\<in>set mid. is_named (fst p) ALLOWED_XRAY_SECTIONS"
proof -
  from assms obtain root logs mid out where v: "v = JObject root" "fold_ok v"
    and logs: "map_result shape_log (dict_retain (\<lambda>n. is_named n ALLOWED_XRAY_SECTIONS) root) = Inr logs"
    and refs: "doc_all xray_member_ok never (JObject logs)" "geodata_free (JObject logs)"
    and mid: "shape_xdrive_settings home (strip_output_files (JObject logs)) ''$'' = Inr (JObject mid)"
    and out: "map_result shape_section mid = Inr out" "v' = JObject out"
    by (elim sanitize_xray_documentE)
  have "fst ` set logs = fst ` set (dict_retain (\<lambda>n. is_named n ALLOWED_XRAY_SECTIONS) root)"
    by (metis map_result_keys [OF logs shape_log_key] set_map)
  then have named: "\<forall>k\<in>fst ` set logs. is_named k ALLOWED_XRAY_SECTIONS"
    unfolding keys_dict_retain by blast
  have "map fst mid = map fst (dict_retain (\<lambda>n. \<not> is_named n XRAY_OUTPUT_FILE_KEYS) logs)"
    using xdrive_settings_keys [OF mid [unfolded strip_output_files.simps]] by (simp add: comp_def)
  then have "set (map fst mid) = set (map fst (dict_retain (\<lambda>n. \<not> is_named n XRAY_OUTPUT_FILE_KEYS) logs))"
    by (rule arg_cong)
  then have "fst ` set mid \<subseteq> fst ` set logs" unfolding set_map keys_dict_retain by blast
  with named have "\<forall>k\<in>fst ` set mid. is_named k ALLOWED_XRAY_SECTIONS" by (meson subsetD)
  then have "\<forall>p\<in>set mid. is_named (fst p) ALLOWED_XRAY_SECTIONS" by simp
  moreover have "fold_ok (JObject mid)"
    using logs_fold [OF v(2)[unfolded v(1)] logs] by (intro xdrive_fold [OF mid] strip_fold)
  moreover have "doc_all xray_member_ok never (JObject mid)"
    by (rule xdrive_keeps [OF _ member_ok_view mid strip_refs [OF refs(1)]])
      (simp add: xray_member_ok_def table_eval fold_eval geodata_eval)
  moreover have "doc_all (\<lambda>n _. \<not> is_named n XRAY_OUTPUT_FILE_KEYS) never (JObject mid)"
    by (rule xdrive_keeps [OF _ _ mid strip_files]) (simp_all add: table_eval fold_eval)
  moreover have "doc_all (xdrive_member home) is_xdrive (JObject mid)"
    by (rule xdrive_established [OF mid])
  moreover have "is_absolute home \<longrightarrow> geodata_free (JObject mid)"
    using xdrive_settings_free [OF mid _ strip_free [OF refs(2)]] by blast
  ultimately show thesis using that out by blast
qed

section \<open>A sample subscription\<close>

definition sample_home :: string where
  "sample_home = ''/home/u''"

definition sample_xray :: json where
  "sample_xray = JObject
     [(''Routing'', JObject [(''rules'', JArray [JObject [(''Domain'', JString ''a.b''),
         (''outboundTag'', JString ''p''), (''webhook'', JString ''x'')]])]),
      (''api'', JObject []),
      (''inbounds'', JArray [JObject
         [(''Port'', JString ''1080''), (''protocol'', JString ''SOCKS''),
          (''settings'', JObject [(''ip'', JString ''127.0.0.1''), (''udp'', JBool True)])]]),
      (''outbounds'', JArray
         [JObject [(''protocol'', JString ''wireguard''), (''tag'', JString ''p'')],
          JObject [(''protocol'', JString ''vless''),
            (''streamSettings'', JObject [(''xdriveSettings'', JObject
               [(''remoteFolder'', JString ''a/b''), (''service'', JString ''local'')])])]])]"

definition sample_xray_out :: json where
  "sample_xray_out = JObject
     [(''Routing'', JObject [(''rules'', JArray [JObject [(''domain'', JString ''a.b''),
         (''outboundTag'', JString ''p'')]])]),
      (''inbounds'', JArray [JObject
         [(''listen'', JString ''127.0.0.1''), (''port'', JNumber (PosInt 1080)),
          (''protocol'', JString ''socks''),
          (''settings'', JObject [(''ip'', JString ''127.0.0.1''), (''udp'', JBool True)])]]),
      (''outbounds'', JArray
         [JObject [(''protocol'', JString ''wireguard''),
            (''settings'', JObject [(''noKernelTun'', JBool True)]), (''tag'', JString ''p'')],
          JObject [(''protocol'', JString ''vless''),
            (''streamSettings'', JObject [(''xdriveSettings'', JObject
               [(''remoteFolder'', JString ''/home/u/xdrive/a/b''), (''service'', JString ''local'')])])]])]"

lemma loopback_literal: "is_loopback_ip (JString ''127.0.0.1'')"
  by code_simp

lemmas xray_eval =
  str_eval is_named_def table_eval at_field_def at_index_def field_def keep_known_def only_known_def
  dict_retain_def is_external_geodata_def is_local_endpoint_def is_local_value_def
  check_xray_member_def is_xdrive_component_def xdrive_devices_def not_null_def
  xdrive_components_def shape_xdrive_def loopback_literal check_account_def shape_socks_member_def
  shape_socks_settings_def split_string_list_def shape_sniffing_member_def shape_sniffing_def
  inbound_port_def update_member_def port_json_def inbound_listen_def inbound_protocol_ok_def
  shape_inbound_def shape_inbounds_def shape_outbound_def shape_outbounds_def keep_known_value_def
  unless_null_def shape_balancer_def shape_array_def shape_routing_def shape_log_def
  shape_section_def jis_string_def Let_def sanitize_xray_document_def

lemma sample_xray_sanitized: "sanitize_xray_document sample_home sample_xray = Inr sample_xray_out"
  by (simp add: sample_home_def sample_xray_def sample_xray_out_def xray_eval)

section \<open>Theorems\<close>

text \<open>
  C1. What the sanitiser refuses does not survive in an accepted document. At any depth, no member
  is named after a credential file or an external geodata file, is a forbidden field, turns on
  transparent proxying, selects a unix-socket transport or puts a local endpoint under an endpoint
  key, and none names an output file. And the sanitiser's own check, run again on the output, still
  accepts every section and, of every inbound, every member but \<open>sniffing\<close>: outside the sniffing
  lists, which a shaping pass splits at commas, no string names an external geodata file either.
  The shaping passes, which rename, rewrite and insert members, cannot reintroduce one there.
\<close>

theorem xray_members_safe:
  assumes "is_absolute client_home" "sanitize_xray_document client_home document = Inr sanitized"
  shows "(\<forall>(name, child)\<in>set (jmembers sanitized).
            xray_member_ok name child \<and> \<not> is_named name XRAY_OUTPUT_FILE_KEYS)
    \<and> (\<exists>root. sanitized = JObject root \<and> (\<forall>(name, section)\<in>set root.
          if eq_ignore_ascii_case name ''inbounds''
          then \<exists>vs. section = JArray vs \<and> (\<forall>v\<in>set vs. \<exists>m. v = JObject m \<and>
                 (\<forall>(key, child)\<in>set m. key = ''sniffing'' \<or> reject_xray_references child at = Inr ()))
          else reject_xray_references section at = Inr ()))"
proof -
  from assms obtain mid out where out: "map_result shape_section mid = Inr out"
    "sanitized = JObject out" and refs: "doc_all xray_member_ok never (JObject mid)"
    and files: "doc_all (\<lambda>n _. \<not> is_named n XRAY_OUTPUT_FILE_KEYS) never (JObject mid)"
    and strings: "geodata_free (JObject mid)"
    by (elim sanitize_xray_mid) blast
  have ok: "doc_all xray_member_ok never (JObject out)" by (rule refs.sections_all [OF out(1) refs])
  have members: "\<forall>(name, child)\<in>set (jmembers sanitized).
      xray_member_ok name child \<and> \<not> is_named name XRAY_OUTPUT_FILE_KEYS"
    using ok files.sections_all [OF out(1) files] unfolding out(2) doc_all_members by fastforce
  have each: "if eq_ignore_ascii_case (fst q) ''inbounds''
      then \<exists>vs. snd q = JArray vs \<and> (\<forall>v\<in>set vs. \<exists>m. v = JObject m \<and>
             (\<forall>(key, child)\<in>set m. key = ''sniffing'' \<or> reject_xray_references child at = Inr ()))
      else reject_xray_references (snd q) at = Inr ()" if q: "q \<in> set out" for q
  proof -
    from map_result_elem [OF out(1) q] obtain p where p: "p \<in> set mid" "shape_section p = Inr q"
      by blast
    have free: "section_free (fst q) (snd q)" using section_free [OF p(2)] strings p(1) by simp
    have "doc_all xray_member_ok never (snd q)" using ok q by auto
    with free show ?thesis
      unfolding section_free_def inbound_free_def reject_xray_references_Inr geodata_free_def
      by (auto simp del: split_paired_All split: if_splits) fastforce
  qed
  have sections: "\<forall>(name, section)\<in>set out.
      if eq_ignore_ascii_case name ''inbounds''
      then \<exists>vs. section = JArray vs \<and> (\<forall>v\<in>set vs. \<exists>m. v = JObject m \<and>
             (\<forall>(key, child)\<in>set m. key = ''sniffing'' \<or> reject_xray_references child at = Inr ()))
      else reject_xray_references section at = Inr ()"
    using each unfolding case_prod_beta by blast
  show ?thesis using members sections unfolding out(2) by blast
qed

theorem xray_members_safe_witness:
  "xray_member_ok ''protocol'' (JString ''socks'') \<and>
   reject_xray_references (JObject [(''rules'', JArray [JObject [(''domain'', JString ''a.b''),
     (''outboundTag'', JString ''p'')]])]) ''$'' = Inr ()"
proof -
  have home: "is_absolute sample_home" by (simp add: sample_home_def is_absolute_def starts_with_def)
  note safe = xray_members_safe [OF home sample_xray_sanitized, of "''$''"]
  have "(''protocol'', JString ''socks'') \<in> set (jmembers sample_xray_out)"
    by (simp add: sample_xray_out_def)
  with safe have "xray_member_ok ''protocol'' (JString ''socks'')" by blast
  moreover have "reject_xray_references (JObject [(''rules'', JArray [JObject [(''domain'', JString ''a.b''),
     (''outboundTag'', JString ''p'')]])]) ''$'' = Inr ()"
    using safe unfolding sample_xray_out_def by (simp add: fold_eval del: reject_xray_references.simps)
  ultimately show ?thesis ..
qed

text \<open>
  C11. The root of an accepted document holds allowed sections only; every inbound is a SOCKS
  bridge listening on a loopback address at a fixed non-zero port with allowed fields only, every
  outbound has an allowed protocol and allowed fields (and WireGuard is kept out of the kernel),
  and routing keeps allowed fields of rules and balancers only.
\<close>

theorem xray_sections_shaped:
  assumes "sanitize_xray_document client_home document = Inr sanitized"
  shows "\<exists>root. sanitized = JObject root \<and> (\<forall>(name, section) \<in> set root.
      is_named name ALLOWED_XRAY_SECTIONS
      \<and> (eq_ignore_ascii_case name ''inbounds'' \<longrightarrow>
           (\<exists>vs. section = JArray vs \<and> (\<forall>v\<in>set vs. loopback_bridge v)))
      \<and> (eq_ignore_ascii_case name ''outbounds'' \<longrightarrow>
           (\<exists>vs. section = JArray vs \<and> (\<forall>v\<in>set vs. outbound_ok v)))
      \<and> (eq_ignore_ascii_case name ''routing'' \<longrightarrow> routing_ok section))"
proof -
  from assms obtain mid out where out: "map_result shape_section mid = Inr out"
    "sanitized = JObject out" and fold: "fold_ok (JObject mid)"
    and named: "\<forall>p\<in>set mid. is_named (fst p) ALLOWED_XRAY_SECTIONS"
    by (elim sanitize_xray_mid)
  have distinct: "to_ascii_lowercase ''inbounds'' \<noteq> to_ascii_lowercase ''outbounds''"
    "to_ascii_lowercase ''inbounds'' \<noteq> to_ascii_lowercase ''routing''"
    "to_ascii_lowercase ''outbounds'' \<noteq> to_ascii_lowercase ''routing''"
    by (simp_all add: fold_eval)
  have "is_named (fst q) ALLOWED_XRAY_SECTIONS
      \<and> (eq_ignore_ascii_case (fst q) ''inbounds'' \<longrightarrow>
           (\<exists>vs. snd q = JArray vs \<and> (\<forall>v\<in>set vs. loopback_bridge v)))
      \<and> (eq_ignore_ascii_case (fst q) ''outbounds'' \<longrightarrow>
           (\<exists>vs. snd q = JArray vs \<and> (\<forall>v\<in>set vs. outbound_ok v)))
      \<and> (eq_ignore_ascii_case (fst q) ''routing'' \<longrightarrow> routing_ok (snd q))"
    if q: "q \<in> set out" for q
  proof -
    from map_result_elem [OF out(1) q] obtain p where p: "p \<in> set mid" "shape_section p = Inr q"
      by blast
    note key = shape_section_key [OF p(2)]
    from fold p(1) have "fold_ok (snd p)" by auto
    then have "eq_ignore_ascii_case (fst p) ''inbounds'' \<longrightarrow>
           (\<exists>vs. snd q = JArray vs \<and> (\<forall>v\<in>set vs. loopback_bridge v))"
      using p(2) shape_inbound_ok
      by (fastforce simp: shape_section_def shape_inbounds_def result_simps accessor_simps
          dest: map_result_from_elem)
    moreover have "eq_ignore_ascii_case (fst p) ''outbounds'' \<longrightarrow>
           (\<exists>vs. snd q = JArray vs \<and> (\<forall>v\<in>set vs. outbound_ok v))"
      using p(2) shape_outbound_ok distinct
      by (fastforce simp: shape_section_def shape_outbounds_def result_simps accessor_simps
          eq_ignore_ascii_case_def dest: map_result_from_elem)
    moreover have "eq_ignore_ascii_case (fst p) ''routing'' \<longrightarrow> routing_ok (snd q)"
      using p(2) shape_routing_ok distinct
      by (auto simp: shape_section_def result_simps eq_ignore_ascii_case_def split: if_splits)
    ultimately show ?thesis using key named p(1) by simp
  qed
  then show ?thesis unfolding out(2) by fastforce
qed

theorem xray_sections_shaped_witness:
  "loopback_bridge (JObject
     [(''listen'', JString ''127.0.0.1''), (''port'', JNumber (PosInt 1080)),
      (''protocol'', JString ''socks''),
      (''settings'', JObject [(''ip'', JString ''127.0.0.1''), (''udp'', JBool True)])])
   \<and> outbound_ok (JObject [(''protocol'', JString ''wireguard''),
      (''settings'', JObject [(''noKernelTun'', JBool True)]), (''tag'', JString ''p'')])
   \<and> routing_ok (JObject [(''rules'', JArray [JObject [(''domain'', JString ''a.b''),
         (''outboundTag'', JString ''p'')]])])"
  using xray_sections_shaped [OF sample_xray_sanitized]
  by (simp add: sample_xray_out_def fold_eval)

text \<open>
  A folder name is one plain component: not empty, no separator, and neither the current nor the
  parent directory.
\<close>

definition plain_component :: "string \<Rightarrow> bool" where
  "plain_component c \<longleftrightarrow> c \<noteq> [] \<and> CHR ''/'' \<notin> set c \<and> c \<noteq> ''.'' \<and> c \<noteq> ''..''"

definition drive_confined :: "string \<Rightarrow> json \<Rightarrow> bool" where
  "drive_confined home v \<longleftrightarrow> v = JNull \<or>
     (\<exists>m s. v = JObject m \<and> field m ''service'' = Some (JString s) \<and> s \<in> set XRAY_XDRIVE_SERVICES
        \<and> (s = ''local'' \<longrightarrow>
             (\<exists>cs. field m ''remoteFolder'' =
                     Some (JString (path_join home ''xdrive'' @ concat (map (\<lambda>c. CHR ''/'' # c) cs)))
                   \<and> cs \<noteq> [] \<and> length cs \<le> 8 \<and> list_all plain_component cs)))"

lemma xdrive_component_plain: "is_xdrive_component c \<Longrightarrow> plain_component c"
  by (auto simp: is_xdrive_component_def plain_component_def Let_def list_all_iff ends_with_def
      strip_suffix_def is_ascii_alphanumeric_def is_ascii_alphabetic_def is_ascii_digit_def)

lemma join_components:
  "list_all plain_component cs \<Longrightarrow> base \<noteq> [] \<Longrightarrow> last base \<noteq> CHR ''/'' \<Longrightarrow>
     foldl path_join base cs = base @ concat (map (\<lambda>c. CHR ''/'' # c) cs)"
proof (induction cs arbitrary: base)
  case Nil
  then show ?case by simp
next
  case (Cons c cs)
  then have c: "c \<noteq> []" "CHR ''/'' \<notin> set c" by (auto simp: plain_component_def)
  then have "last c \<noteq> CHR ''/''" by (metis last_in_set)
  moreover from c Cons.prems have "path_join base c = base @ CHR ''/'' # c"
    by (auto simp: path_join_def is_absolute_def starts_with_iff)
  ultimately show ?case using Cons c by simp
qed

lemma field_unique:
  assumes "dict_get m k = Some v" "\<forall>p\<in>set m. eq_ignore_ascii_case (fst p) k \<longrightarrow> fst p = k"
  shows "field m k = Some v"
  using assms by (induction m) (auto simp: field_def eq_ignore_ascii_case_def split: if_splits)

lemma xdrive_ok_confined: "xdrive_ok home v \<Longrightarrow> drive_confined home v"
proof -
  assume ok: "xdrive_ok home v"
  have base: "path_join home ''xdrive'' \<noteq> []" "last (path_join home ''xdrive'') \<noteq> CHR ''/''"
    by (auto simp: path_join_def is_absolute_def starts_with_def)
  have plain: "list_all is_xdrive_component cs \<Longrightarrow> list_all plain_component cs" for cs
    by (auto simp: list_all_iff xdrive_component_plain)
  show ?thesis
  proof (cases "v = JNull")
    case True
    then show ?thesis by (simp add: drive_confined_def)
  next
    case False
    with ok obtain m s where m: "v = JObject m" "field m ''service'' = Some (JString s)"
      "s \<in> set XRAY_XDRIVE_SERVICES"
      and "s = ''local'' \<longrightarrow>
             (\<exists>cs. dict_get m ''remoteFolder'' =
                     Some (JString (foldl path_join (path_join home XRAY_XDRIVE_DIRECTORY) cs))
                   \<and> cs \<noteq> [] \<and> length cs \<le> 8 \<and> list_all is_xdrive_component cs)
             \<and> (\<forall>p\<in>set m. eq_ignore_ascii_case (fst p) ''remoteFolder'' \<longrightarrow> fst p = ''remoteFolder'')"
      unfolding xdrive_ok_def by blast
    then have "s = ''local'' \<longrightarrow> (\<exists>cs. field m ''remoteFolder'' =
                     Some (JString (path_join home ''xdrive'' @ concat (map (\<lambda>c. CHR ''/'' # c) cs)))
                   \<and> cs \<noteq> [] \<and> length cs \<le> 8 \<and> list_all plain_component cs)"
      using field_unique [of m "''remoteFolder''"] join_components [OF plain base] plain
      by (auto simp: XRAY_XDRIVE_DIRECTORY_def)
    with m show ?thesis by (auto simp: drive_confined_def)
  qed
qed

lemma doc_all_mono: "doc_all P stop v \<Longrightarrow> (\<And>n c. P n c \<Longrightarrow> Q n c) \<Longrightarrow> doc_all Q stop v"
  by (induction P stop v rule: doc_all.induct) auto

text \<open>
  C12. Every \<open>xdriveSettings\<close> object of an accepted document that does not lie inside another one
  names a known service, and a local one stores its files in the client's own \<open>xdrive\<close> directory: at
  most eight plain components below it, under the only spelling of \<open>remoteFolder\<close> left.
\<close>

theorem xray_drive_confined:
  assumes "sanitize_xray_document client_home document = Inr sanitized"
  shows "doc_all (\<lambda>name child. is_xdrive name \<longrightarrow> drive_confined client_home child) is_xdrive sanitized"
proof -
  from assms obtain mid out where out: "map_result shape_section mid = Inr out"
    "sanitized = JObject out" and mid: "doc_all (xdrive_member client_home) is_xdrive (JObject mid)"
    by (elim sanitize_xray_mid)
  from drives.sections_all [OF out(1) mid] show ?thesis
    unfolding out(2) by (rule doc_all_mono) (simp add: xdrive_member_def xdrive_ok_confined)
qed

theorem xray_drive_confined_witness:
  "drive_confined ''/home/u''
     (JObject [(''remoteFolder'', JString ''/home/u/xdrive/a/b''), (''service'', JString ''local'')])"
  using xray_drive_confined [OF sample_xray_sanitized]
  by (simp add: sample_xray_out_def sample_home_def fold_eval)

text \<open>
  The key check is exact: it accepts a document just when every key at every depth is ASCII
  and no object holds two keys that a case-insensitive reader would take for the same field.
\<close>

theorem ambiguous_keys_exact:
  "reject_ambiguous_keys document = Inr () \<longleftrightarrow>
     list_all (\<lambda>p. is_ascii (fst p)) (jmembers document)
     \<and> list_all (\<lambda>v. case v of JObject m \<Rightarrow> fold_distinct (map fst m) | _ \<Rightarrow> True) (jvalues document)"
proof -
  have "fold_ok v \<longleftrightarrow>
      (\<forall>w\<in>set (jvalues v). case w of JObject m \<Rightarrow> fold_distinct (map fst m) | _ \<Rightarrow> True)" for v
    by (induction v rule: fold_ok.induct) auto
  then show ?thesis by (auto simp: reject_ambiguous_keys_Inr list_all_iff)
qed

section \<open>Limits of the checks\<close>

text \<open>A document whose one inbound has a sniffing list written as one string, and what comes out.\<close>

definition sniffed_xray :: "u16 \<Rightarrow> string \<Rightarrow> string \<Rightarrow> json" where
  "sniffed_xray port key text = JObject [(''inbounds'', JArray [JObject
     [(''port'', port_json port), (''protocol'', JString ''socks''),
      (''sniffing'', JObject [(key, JString text)])]])]"

definition sniffed_out :: "u16 \<Rightarrow> string \<Rightarrow> string \<Rightarrow> json" where
  "sniffed_out port key text = JObject [(''inbounds'', JArray [JObject
     [(''listen'', JString ''127.0.0.1''), (''port'', port_json port), (''protocol'', JString ''socks''),
      (''sniffing'', JObject [(key, split_string_list text)])]])]"

lemma inbound_port_json: "port \<noteq> 0 \<Longrightarrow> inbound_port (Some (port_json port)) = Some port"
proof -
  assume "port \<noteq> 0"
  have "unat port < 2 ^ 16" using unsigned_less [of port, where ?'a = nat] by simp
  then have "unat (ucast port :: u64) = unat port" by (simp add: unsigned_ucast_eq take_bit_nat_eq_self)
  with \<open>unat port < 2 ^ 16\<close> \<open>port \<noteq> 0\<close> show ?thesis
    by (simp add: inbound_port_def port_json_def u16_try_from_def)
qed

lemma sniffed_sanitized:
  assumes "\<not> is_external_geodata text" "port \<noteq> 0"
    and key: "key \<in> {''destOverride'', ''domainsExcluded'', ''ipsExcluded''}"
  shows "sanitize_xray_document home (sniffed_xray port key text) = Inr (sniffed_out port key text)"
proof -
  let ?doc = "sniffed_xray port key text"
  let ?m = "[(''port'', port_json port), (''protocol'', JString ''socks''),
      (''sniffing'', JObject [(key, JString text)])]"
  have keys: "reject_ambiguous_keys ?doc = Inr ()"
    using key by (auto simp: sniffed_xray_def port_json_def str_eval fold_eval)
  have refs: "reject_xray_references ?doc ''$'' = Inr ()"
    using key assms(1) unfolding reject_xray_references_Inr
    by (auto simp: sniffed_xray_def port_json_def xray_member_ok_def table_eval fold_eval geodata_eval)
  have drives: "shape_xdrive_settings home (strip_output_files ?doc) ''$'' = Inr ?doc"
    using key by (auto simp: sniffed_xray_def port_json_def dict_retain_def table_eval fold_eval)
  have sniffing: "shape_sniffing (JObject [(key, JString text)]) = Inr (JObject [(key, split_string_list text)])"
    using key
    by (auto simp: shape_sniffing_def keep_known_def field_def table_eval fold_eval shape_sniffing_member_def
        split_string_list_def list_all_iff jis_string_def)
  have inbound: "shape_inbound i (JObject ?m) = Inr (JObject ((''listen'', JString ''127.0.0.1'') #
      butlast ?m @ [(''sniffing'', JObject [(key, split_string_list text)])]))" for i
    using assms(2)
    by (simp add: shape_inbound_def Let_def inbound_listen_def field_def inbound_protocol_ok_def
        only_known_def keep_known_def update_member_def sniffing inbound_port_json table_eval fold_eval)
  have "map_result shape_log (dict_retain (\<lambda>n. is_named n ALLOWED_XRAY_SECTIONS) [(''inbounds'', v)])
      = Inr [(''inbounds'', v)]" for v
    by (simp add: dict_retain_def shape_log_def table_eval fold_eval)
  moreover have "map_result shape_section [(''inbounds'', JArray [JObject ?m])] = Inr [(''inbounds'',
      JArray [JObject ((''listen'', JString ''127.0.0.1'') #
        butlast ?m @ [(''sniffing'', JObject [(key, split_string_list text)])])])]"
    by (simp add: shape_section_def shape_inbounds_def inbound fold_eval)
  ultimately show ?thesis
    using keys refs drives unfolding sniffed_xray_def
    by (simp add: sanitize_xray_document_def sniffed_out_def
        del: reject_ambiguous_keys.simps reject_xray_references.simps strip_output_files.simps
          shape_xdrive_settings.simps)
qed

text \<open>
  C13. The check on external geodata looks at whole strings before \<open>shape_sniffing\<close> splits a list
  written as one string. So whatever list text is given, as long as it does not begin with a file
  reference itself, under any of the three list keys and for any port: the document is accepted, and
  a file reference behind a comma comes out as an item of its own, a string that the same check
  refuses in the output.
\<close>

theorem sniffing_split_admits_geodata:
  assumes "\<not> is_external_geodata text" "port \<noteq> 0"
    and "key \<in> {''destOverride'', ''domainsExcluded'', ''ipsExcluded''}"
    and "item \<in> set (split_on CHR '','' text)" "is_external_geodata (trim item)"
  shows "\<exists>sanitized. sanitize_xray_document client_home (sniffed_xray port key text) = Inr sanitized
     \<and> JString (trim item) \<in> set (jvalues sanitized)
     \<and> reject_xray_references sanitized ''$'' \<noteq> Inr ()"
proof -
  have "trim item \<noteq> []" using assms(5) by (auto simp: geodata_eval fold_eval)
  then have "JString (trim item) \<in> set (jvalues (sniffed_out port key text))"
    using assms(4) by (auto simp: sniffed_out_def split_string_list_def simp del: trim_def)
  with sniffed_sanitized [OF assms(1-3)] assms(5) show ?thesis
    by (auto simp: reject_xray_references_Inr)
qed

lemma sniffed_eval: "trim ''ext:x:y'' = ''ext:x:y''"
  by code_simp

theorem sniffing_split_admits_geodata_witness:
  "JString ''ext:x:y'' \<in> set (jvalues (sniffed_out 1080 ''domainsExcluded'' ''a,ext:x:y''))"
proof -
  have "\<exists>sanitized. sanitize_xray_document ''/h'' (sniffed_xray 1080 ''domainsExcluded'' ''a,ext:x:y'')
      = Inr sanitized \<and> JString (trim ''ext:x:y'') \<in> set (jvalues sanitized)
     \<and> reject_xray_references sanitized ''$'' \<noteq> Inr ()"
    by (rule sniffing_split_admits_geodata) (simp_all add: geodata_eval fold_eval str_eval sniffed_eval del: trim_def)
  then show ?thesis
    using sniffed_sanitized [of "''a,ext:x:y''" 1080 "''domainsExcluded''" "''/h''"]
    by (simp add: geodata_eval fold_eval sniffed_eval del: trim_def)
qed

text \<open>
  \<open>shape_xdrive_settings\<close> shapes an \<open>xdriveSettings\<close> object without descending into it, so one
  nested inside another keeps whatever folder it names.
\<close>

definition nested_xdrive :: json where
  "nested_xdrive = JObject [(''dns'', JObject [(''xdriveSettings'', JObject
     [(''service'', JString ''template''), (''xdriveSettings'', JObject
        [(''remoteFolder'', JString ''/etc''), (''service'', JString ''local'')])])])]"

theorem nested_xdrive_unshaped:
  "sanitize_xray_document ''/h'' nested_xdrive = Inr nested_xdrive"
  by (simp add: nested_xdrive_def xray_eval)

end
