(* ===== verification/Yaml_Doc.thy ===== *)
theory Yaml_Doc
  imports Json_Doc
begin

text \<open>
  \<open>serde_yaml_ng::Value\<close> and the accessors the code uses. A mapping keeps its insertion order; the
  \<open>as_*\<close> accessors look through tags.
\<close>

datatype yaml =
    YNull
  | YBool bool
  | YNumber num_value
  | YString string
  | YSequence "yaml list"
  | YMapping "(yaml \<times> yaml) list"
  | YTagged string yaml

type_synonym yaml_map = "(yaml, yaml) dict"

fun untag :: "yaml \<Rightarrow> yaml" where
  "untag (YTagged t v) = untag v"
| "untag v = v"

definition yas_str :: "yaml \<Rightarrow> string option" where
  "yas_str v = (case untag v of YString s \<Rightarrow> Some s | _ \<Rightarrow> None)"

definition yas_bool :: "yaml \<Rightarrow> bool option" where
  "yas_bool v = (case untag v of YBool b \<Rightarrow> Some b | _ \<Rightarrow> None)"

definition yas_u64 :: "yaml \<Rightarrow> u64 option" where
  "yas_u64 v = (case untag v of YNumber n \<Rightarrow> num_as_u64 n | _ \<Rightarrow> None)"

definition yas_mapping :: "yaml \<Rightarrow> yaml_map option" where
  "yas_mapping v = (case untag v of YMapping m \<Rightarrow> Some m | _ \<Rightarrow> None)"

definition yas_sequence :: "yaml \<Rightarrow> yaml list option" where
  "yas_sequence v = (case untag v of YSequence vs \<Rightarrow> Some vs | _ \<Rightarrow> None)"

definition yis_null :: "yaml \<Rightarrow> bool" where
  "yis_null v \<longleftrightarrow> untag v = YNull"

text \<open>Writing through \<open>as_mapping_mut\<close> and \<open>as_sequence_mut\<close>: the tags stay.\<close>

fun retag :: "yaml \<Rightarrow> yaml \<Rightarrow> yaml" where
  "retag (YTagged t v) w = YTagged t (retag v w)"
| "retag _ w = w"

abbreviation yget :: "yaml_map \<Rightarrow> string \<Rightarrow> yaml option" where
  "yget m name \<equiv> dict_get m (YString name)"

abbreviation yinsert :: "string \<Rightarrow> yaml \<Rightarrow> yaml_map \<Rightarrow> yaml_map" where
  "yinsert name v m \<equiv> idx_insert (YString name) v m"

abbreviation yremove :: "string \<Rightarrow> yaml_map \<Rightarrow> yaml_map" where
  "yremove name m \<equiv> swap_remove (YString name) m"

text \<open>\<open>if let Some(v) = mapping.get_mut(key(name))\<close>, rewriting the value in place.\<close>

definition yupdate :: "string \<Rightarrow> (yaml \<Rightarrow> yaml) \<Rightarrow> yaml_map \<Rightarrow> yaml_map" where
  "yupdate name f m = (case yget m name of None \<Rightarrow> m | Some v \<Rightarrow> yinsert name (f v) m)"

definition yupdate_result ::
    "string \<Rightarrow> (yaml \<Rightarrow> 'e + yaml) \<Rightarrow> yaml_map \<Rightarrow> 'e + yaml_map" where
  "yupdate_result name f m =
     (case yget m name of None \<Rightarrow> Inr m | Some v \<Rightarrow> rbind (f v) (\<lambda>v'. Inr (yinsert name v' m)))"

fun yvalues :: "yaml \<Rightarrow> yaml list" where
  "yvalues (YSequence vs) = YSequence vs # concat (map yvalues vs)"
| "yvalues (YMapping m) = YMapping m # concat (map (\<lambda>p. yvalues (snd p)) m)"
| "yvalues (YTagged t v) = YTagged t v # yvalues v"
| "yvalues v = [v]"

text \<open>Every mapping of a document has distinct keys, as \<open>Mapping\<close> guarantees.\<close>

fun yaml_wf :: "yaml \<Rightarrow> bool" where
  "yaml_wf (YSequence vs) = (\<forall>v\<in>set vs. yaml_wf v)"
| "yaml_wf (YMapping m) = (dict_inv m \<and> (\<forall>p\<in>set m. yaml_wf (snd p)))"
| "yaml_wf (YTagged t v) = yaml_wf v"
| "yaml_wf v = True"

lemma untag_idem [simp]: "untag (untag v) = untag v"
  by (induction v) auto

lemma untag_not_tagged [simp]: "untag v \<noteq> YTagged t w"
  by (induction v) auto

lemma untag_retag [simp]: "untag (retag v w) = untag w"
  by (induction v w rule: retag.induct) auto

lemma yas_simps [simp]:
  "yas_str (YString s) = Some s" "yas_str (YMapping m) = None" "yas_str (YSequence vs) = None"
  "yas_str YNull = None" "yas_str (YBool b) = None" "yas_str (YNumber n) = None"
  "yas_mapping (YMapping m) = Some m" "yas_mapping (YString s) = None"
  "yas_mapping (YSequence vs) = None" "yas_mapping YNull = None" "yas_mapping (YBool b) = None"
  "yas_mapping (YNumber n) = None"
  "yas_sequence (YSequence vs) = Some vs" "yas_sequence (YMapping m) = None"
  "yas_sequence (YString s) = None" "yas_sequence YNull = None" "yas_sequence (YBool b) = None"
  "yas_sequence (YNumber n) = None"
  "yas_bool (YBool b) = Some b" "yas_bool (YString s) = None" "yas_bool (YMapping m) = None"
  "yas_bool YNull = None"
  "yas_u64 (YNumber n) = num_as_u64 n" "yas_u64 (YString s) = None" "yas_u64 YNull = None"
  by (simp_all add: yas_str_def yas_mapping_def yas_sequence_def yas_bool_def yas_u64_def)

lemma get_yupdate:
  "yget (yupdate name f m) k = (if k = name then map_option f (yget m name) else yget m k)"
  by (simp add: yupdate_def get_idx_insert split: option.split)

lemma get_yupdate_result:
  "yupdate_result name f m = Inr m' \<Longrightarrow> k \<noteq> name \<Longrightarrow> yget m' k = yget m k"
  by (auto simp: yupdate_result_def result_simps get_idx_insert split: option.splits)

lemma get_yupdate_result_same:
  "yupdate_result name f m = Inr m' \<Longrightarrow> yget m' name = Some w \<Longrightarrow>
     \<exists>v. yget m name = Some v \<and> f v = Inr w"
  by (auto simp: yupdate_result_def result_simps get_idx_insert split: option.splits)

lemma keys_yupdate: "fst ` set (yupdate name f m) = fst ` set m"
proof (cases "yget m name")
  case None
  then show ?thesis by (simp add: yupdate_def)
next
  case (Some v)
  then have "YString name \<in> fst ` set m" by (force dest: map_of_SomeD)
  with Some show ?thesis by (simp add: yupdate_def keys_idx_insert insert_absorb)
qed

lemma keys_yupdate_result:
  assumes "yupdate_result name f m = Inr m'" shows "fst ` set m' = fst ` set m"
proof (cases "yget m name")
  case None
  with assms show ?thesis by (simp add: yupdate_result_def)
next
  case (Some v)
  then have "YString name \<in> fst ` set m" by (force dest: map_of_SomeD)
  with Some assms show ?thesis
    by (simp add: yupdate_result_def result_simps) (metis insert_absorb keys_idx_insert)
qed

lemma inv_yupdate: "dict_inv m \<Longrightarrow> dict_inv (yupdate name f m)"
  by (simp add: yupdate_def inv_idx_insert split: option.split)

lemma inv_yupdate_result: "yupdate_result name f m = Inr m' \<Longrightarrow> dict_inv m \<Longrightarrow> dict_inv m'"
  by (auto simp: yupdate_result_def result_simps inv_idx_insert split: option.splits)

end
