(* ===== verification/Mihomo_Sanitize.thy ===== *)
theory Mihomo_Sanitize
  imports Sanitize_Base Yaml_Doc
begin

text \<open>
  The Mihomo half of \<open>config_sanitize.rs\<close>. The YAML parser, \<open>apply_merge\<close>, the emitter, SHA-256 and
  base64 decoding come from other crates and are parameters.
\<close>

section \<open>Tables and policy\<close>

definition REALITY_MLKEM_KEY :: string where
  "REALITY_MLKEM_KEY = ''reality-mlkem''"

definition REALITY_CLIENT_VERSION_KEY :: string where
  "REALITY_CLIENT_VERSION_KEY = ''reality-client-version''"

definition ALLOWED_MIHOMO_KEYS :: "string list" where
  "ALLOWED_MIHOMO_KEYS =
     [''mode'', ''log-level'', ''ipv6'', ''unified-delay'', ''tcp-concurrent'',
      ''find-process-mode'', ''global-client-fingerprint'', ''global-ua'', ''etag-support'',
      ''keep-alive-idle'', ''keep-alive-interval'', ''disable-keep-alive'', ''interface-name'',
      ''routing-mark'', ''geodata-mode'', ''geodata-loader'', ''geosite-matcher'',
      ''geo-auto-update'', ''geo-update-interval'', ''geox-url'', ''hosts'', ''dns'', ''ntp'',
      ''tun'', ''sniffer'', ''profile'', ''proxies'', ''proxy-groups'', ''proxy-providers'',
      ''rule-providers'', ''rules'', ''sub-rules'', ''mixed-port'', REALITY_MLKEM_KEY,
      REALITY_CLIENT_VERSION_KEY]"

definition ALLOWED_PROFILE_KEYS :: "string list" where
  "ALLOWED_PROFILE_KEYS = [''store-selected'', ''store-fake-ip'']"

definition PROVIDER_CHECKED_FIELDS :: "string list" where
  "PROVIDER_CHECKED_FIELDS = [''type'', ''path'', ''payload'', ''format'']"

record mihomo_service_policy =
  service_directory :: string
  controller_port :: u16
  controller_secret :: string

record sanitized_mihomo =
  yaml_text :: string
  mixed_port :: "u16 option"

section \<open>REALITY policy\<close>

definition is_reality_client_version :: "string \<Rightarrow> bool" where
  "is_reality_client_version value =
     (let parts = split_on CHR ''.''
            (case strip_prefix ''v'' value of Some r \<Rightarrow> r | None \<Rightarrow> value)
      in length parts = 3
         \<and> list_all (\<lambda>part. part \<noteq> [] \<and> length part \<le> 3 \<and> list_all is_ascii_digit part
              \<and> (case parse_u16 part of Some n \<Rightarrow> unat n \<le> 255 | None \<Rightarrow> False)) parts)"

definition reality_mlkem :: "yaml_map \<Rightarrow> string option" where
  "reality_mlkem m =
     (case Option.bind (yget m REALITY_MLKEM_KEY) yas_str of
        None \<Rightarrow> None
      | Some v \<Rightarrow>
          (let v = to_ascii_lowercase (trim v)
           in if v \<in> {''auto'', ''on'', ''off''} then Some v else None))"

definition reality_version :: "yaml_map \<Rightarrow> string option" where
  "reality_version m =
     (case Option.bind (yget m REALITY_CLIENT_VERSION_KEY) yas_str of
        None \<Rightarrow> None
      | Some v \<Rightarrow> if is_reality_client_version (trim v) then Some (trim v) else None)"

definition normalize_reality_policy :: "yaml_map \<Rightarrow> yaml_map" where
  "normalize_reality_policy m =
     (let m = (case reality_mlkem m of
                 Some v \<Rightarrow> yinsert REALITY_MLKEM_KEY (YString v) m
               | None \<Rightarrow> yremove REALITY_MLKEM_KEY m)
      in case reality_version m of
           Some v \<Rightarrow> yinsert REALITY_CLIENT_VERSION_KEY (YString v) m
         | None \<Rightarrow> yremove REALITY_CLIENT_VERSION_KEY m)"

section \<open>Providers\<close>

definition hex_digit :: "nat \<Rightarrow> char" where
  "hex_digit n = (if n < 10 then char_of (48 + n) else char_of (87 + n))"

definition hex_prefix :: "u8 list \<Rightarrow> string" where
  "hex_prefix digest =
     concat (map (\<lambda>b. [hex_digit (unat b div 16), hex_digit (unat b mod 16)]) (take 8 digest))"

definition mihomo_field_name :: "string \<Rightarrow> sanitize_error + string" where
  "mihomo_field_name name =
     (if \<not> is_ascii name then Inl Malformed
      else Inr (map (\<lambda>c. if c = CHR ''_'' then CHR ''-'' else c) (to_ascii_lowercase name)))"

definition name_or_empty :: "yaml \<Rightarrow> string" where
  "name_or_empty k = (case yas_str k of Some s \<Rightarrow> s | None \<Rightarrow> [])"

definition check_provider_field :: "yaml \<Rightarrow> sanitize_error + unit" where
  "check_provider_field f =
     rbind (mihomo_field_name (name_or_empty f)) (\<lambda>normalised.
       if normalised \<in> set PROVIDER_CHECKED_FIELDS \<and> name_or_empty f \<noteq> normalised
       then Inl Malformed else Inr ())"

definition provider_kind :: "yaml_map \<Rightarrow> string" where
  "provider_kind provider =
     (case Option.bind (yget provider ''type'') yas_str of Some k \<Rightarrow> k | None \<Rightarrow> [])"

definition provider_extension :: "yaml_map \<Rightarrow> string" where
  "provider_extension provider =
     (case Option.bind (yget provider ''format'') yas_str of
        Some f \<Rightarrow> if f = ''mrs'' then ''mrs'' else if f = ''text'' then ''txt'' else ''yaml''
      | None \<Rightarrow> ''yaml'')"

definition provider_file :: "(string \<Rightarrow> u8 list) \<Rightarrow> string \<Rightarrow> string \<Rightarrow> string \<Rightarrow> string" where
  "provider_file sha256 prefix name extension =
     prefix @ ''-'' @ hex_prefix (sha256 name) @ ''.'' @ extension"

definition rewrite_provider ::
    "(string \<Rightarrow> u8 list) \<Rightarrow> string \<Rightarrow> string \<Rightarrow> string \<Rightarrow> yaml \<times> yaml \<Rightarrow> sanitize_error + yaml \<times> yaml"
  where
  "rewrite_provider sha256 section prefix dir p =
     rbind (ok_or Malformed (yas_str (fst p))) (\<lambda>name.
     rbind (ok_or Malformed (yas_mapping (snd p))) (\<lambda>provider.
     rbind (each_result check_provider_field (map fst provider)) (\<lambda>_.
     if provider_kind provider = ''file''
     then Inl (FileReference (at_field (at_field section name) ''path''))
     else if provider_kind provider = ''inline''
     then Inr (fst p, retag (snd p) (YMapping (yremove ''path'' provider)))
     else rbind (ok_or ServiceDirectory (to_str
            (path_join (path_join dir ''providers'')
               (provider_file sha256 prefix name (provider_extension provider))))) (\<lambda>path.
          Inr (fst p, retag (snd p) (YMapping (yinsert ''path'' (YString path) provider)))))))"

definition rewrite_provider_paths ::
    "(string \<Rightarrow> u8 list) \<Rightarrow> string \<Rightarrow> string \<Rightarrow> string \<Rightarrow> yaml_map \<Rightarrow> sanitize_error + yaml_map" where
  "rewrite_provider_paths sha256 section prefix dir =
     yupdate_result section (\<lambda>providers.
       rbind (ok_or Malformed (yas_mapping providers)) (\<lambda>m.
       rbind (map_result (rewrite_provider sha256 section prefix dir) m) (\<lambda>m'.
       Inr (retag providers (YMapping m')))))"

section \<open>Merge keys, tags and credential files\<close>

fun reject_merge_keys_and_tags :: "yaml \<Rightarrow> sanitize_error + unit" where
  "reject_merge_keys_and_tags (YMapping m) =
     each_result
       (\<lambda>p. if yas_str (fst p) = Some ''<<'' \<or> \<not> (case fst p of YString _ \<Rightarrow> True | _ \<Rightarrow> False)
             then Inl Malformed else reject_merge_keys_and_tags (snd p)) m"
| "reject_merge_keys_and_tags (YSequence vs) = each_result reject_merge_keys_and_tags vs"
| "reject_merge_keys_and_tags (YTagged t v) = Inl Malformed"
| "reject_merge_keys_and_tags v = Inr ()"

definition is_pem :: "string \<Rightarrow> bool" where
  "is_pem text = starts_with ''-----BEGIN'' (trim_start text)"

definition is_wireguard_key :: "(string \<Rightarrow> string option) \<Rightarrow> string \<Rightarrow> bool" where
  "is_wireguard_key base64_decode text =
     (case base64_decode (trim text) of Some bytes \<Rightarrow> length bytes = 32 | None \<Rightarrow> False)"

definition credential_inline :: "(string \<Rightarrow> string option) \<Rightarrow> string \<Rightarrow> string \<Rightarrow> bool" where
  "credential_inline base64_decode name text =
     (if name = ''certificate'' \<or> name = ''ca'' then is_pem text
      else if name = ''private-key'' then is_pem text \<or> is_wireguard_key base64_decode text
      else True)"

definition check_credential ::
    "(string \<Rightarrow> string option) \<Rightarrow> string \<Rightarrow> string \<Rightarrow> yaml \<Rightarrow> sanitize_error + unit" where
  "check_credential base64_decode here name child =
     (case yas_str child of
        Some text \<Rightarrow>
          if trim text \<noteq> [] \<and> \<not> credential_inline base64_decode name text
          then Inl (FileReference here) else Inr ()
      | None \<Rightarrow> Inr ())"

fun reject_credential_paths_in ::
    "(string \<Rightarrow> string option) \<Rightarrow> yaml \<Rightarrow> string \<Rightarrow> sanitize_error + unit" where
  "reject_credential_paths_in b64 (YMapping m) at =
     each_result
       (\<lambda>p. rbind (mihomo_field_name (name_or_empty (fst p))) (\<lambda>field.
             rbind (check_credential b64 (at_field at (name_or_empty (fst p))) field (snd p)) (\<lambda>_.
             reject_credential_paths_in b64 (snd p) (at_field at (name_or_empty (fst p)))))) m"
| "reject_credential_paths_in b64 (YSequence vs) at =
     each_result_from 0 (\<lambda>i v. reject_credential_paths_in b64 v (at_index at i)) vs"
| "reject_credential_paths_in b64 v at = Inr ()"

text \<open>\<open>field.as_str().and_then(|field| mihomo_field_name(field).ok()).as_deref() == Some(wanted)\<close>\<close>

definition names_field :: "string \<Rightarrow> yaml \<Rightarrow> bool" where
  "names_field wanted k \<longleftrightarrow>
     Option.bind (yas_str k) (\<lambda>f. ok (mihomo_field_name f)) = Some wanted"

definition provider_payload :: "yaml \<Rightarrow> yaml list option" where
  "provider_payload provider =
     Option.bind (yas_mapping provider) (\<lambda>m.
     Option.bind (map_option snd (find (\<lambda>p. names_field ''payload'' (fst p)) m)) yas_sequence)"

definition check_items ::
    "(string \<Rightarrow> string option) \<Rightarrow> string \<Rightarrow> yaml list option \<Rightarrow> sanitize_error + unit" where
  "check_items b64 at items =
     (case items of
        None \<Rightarrow> Inr ()
      | Some vs \<Rightarrow>
          each_result_from 0 (\<lambda>i v. reject_credential_paths_in b64 v (at_index at i)) vs)"

definition reject_credential_files ::
    "(string \<Rightarrow> string option) \<Rightarrow> yaml_map \<Rightarrow> sanitize_error + unit" where
  "reject_credential_files b64 m =
     rbind (check_items b64 ''proxies'' (Option.bind (yget m ''proxies'') yas_sequence)) (\<lambda>_.
     case Option.bind (yget m ''proxy-providers'') yas_mapping of
       None \<Rightarrow> Inr ()
     | Some providers \<Rightarrow>
         each_result
           (\<lambda>p. check_items b64
                 (at_field (at_field ''proxy-providers'' (name_or_empty (fst p))) ''payload'')
                 (provider_payload (snd p))) providers)"

section \<open>EasyTier state directories\<close>

text \<open>One field of the scan: whether the proxy is an EasyTier one, and its name so far.\<close>

definition scan_proxy_field ::
    "yaml \<times> yaml \<Rightarrow> bool \<times> string option \<Rightarrow> sanitize_error + bool \<times> string option" where
  "scan_proxy_field p st =
     rbind (mihomo_field_name (name_or_empty (fst p))) (\<lambda>field.
       Inr (if field = ''type'' then
              (fst st \<or> (case yas_str (snd p) of
                           Some kind \<Rightarrow> eq_ignore_ascii_case (trim kind) ''easytier''
                         | None \<Rightarrow> False), snd st)
            else if field = ''name'' \<and> (snd st = None \<or> yas_str (fst p) = Some ''name'')
            then (fst st, yas_str (snd p))
            else st))"

fun scan_proxy :: "yaml_map \<Rightarrow> bool \<times> string option \<Rightarrow> sanitize_error + bool \<times> string option" where
  "scan_proxy [] st = Inr st"
| "scan_proxy (p # m) st = rbind (scan_proxy_field p st) (scan_proxy m)"

definition easytier_directory :: "(string \<Rightarrow> u8 list) \<Rightarrow> string \<Rightarrow> string \<Rightarrow> string option \<Rightarrow> string" where
  "easytier_directory sha256 dir scope name =
     path_join (path_join dir ''easytier'')
       (hex_prefix (sha256 (scope @ '' '' @ (case name of Some n \<Rightarrow> n | None \<Rightarrow> []))))"

definition confine_easytier_state_dir ::
    "(string \<Rightarrow> u8 list) \<Rightarrow> string \<Rightarrow> string \<Rightarrow> yaml \<Rightarrow> sanitize_error + yaml" where
  "confine_easytier_state_dir sha256 scope dir proxy =
     (case yas_mapping proxy of
        None \<Rightarrow> Inr proxy
      | Some m \<Rightarrow>
          rbind (scan_proxy m (False, None)) (\<lambda>(is_easytier, name).
          if \<not> is_easytier then Inr proxy
          else rbind (ok_or ServiceDirectory
                 (to_str (easytier_directory sha256 dir scope name))) (\<lambda>directory.
               Inr (retag proxy (YMapping (yinsert ''state-dir'' (YString directory)
                 (dict_retain (\<lambda>f. \<not> names_field ''state-dir'' f) m)))))))"

definition confine_items ::
    "(string \<Rightarrow> u8 list) \<Rightarrow> string \<Rightarrow> string \<Rightarrow> yaml \<Rightarrow> sanitize_error + yaml" where
  "confine_items sha256 scope dir v =
     (case yas_sequence v of
        None \<Rightarrow> Inr v
      | Some vs \<Rightarrow>
          rbind (map_result (confine_easytier_state_dir sha256 scope dir) vs) (\<lambda>vs'.
          Inr (retag v (YSequence vs'))))"

definition confine_provider ::
    "(string \<Rightarrow> u8 list) \<Rightarrow> string \<Rightarrow> yaml \<times> yaml \<Rightarrow> sanitize_error + yaml \<times> yaml" where
  "confine_provider sha256 dir p =
     (let scope = at_field ''proxy-providers'' (name_or_empty (fst p)) in
      case yas_mapping (snd p) of
        None \<Rightarrow> Inr p
      | Some m \<Rightarrow>
          rbind (map_result
            (\<lambda>q. if names_field ''payload'' (fst q)
                  then rbind (confine_items sha256 scope dir (snd q)) (\<lambda>v.
                       Inr (fst q, v))
                  else Inr q) m) (\<lambda>m'.
          Inr (fst p, retag (snd p) (YMapping m'))))"

definition confine_providers :: "(string \<Rightarrow> u8 list) \<Rightarrow> string \<Rightarrow> yaml \<Rightarrow> sanitize_error + yaml" where
  "confine_providers sha256 dir v =
     (case yas_mapping v of
        None \<Rightarrow> Inr v
      | Some providers \<Rightarrow>
          rbind (map_result (confine_provider sha256 dir) providers) (\<lambda>providers'.
          Inr (retag v (YMapping providers'))))"

definition confine_easytier_state_dirs ::
    "(string \<Rightarrow> u8 list) \<Rightarrow> string \<Rightarrow> yaml_map \<Rightarrow> sanitize_error + yaml_map" where
  "confine_easytier_state_dirs sha256 dir m =
     rbind (yupdate_result ''proxies'' (confine_items sha256 ''proxies'' dir) m) (\<lambda>m.
     yupdate_result ''proxy-providers'' (confine_providers sha256 dir) m)"

section \<open>The sanitiser\<close>

definition retain_named :: "string list \<Rightarrow> yaml_map \<Rightarrow> yaml_map" where
  "retain_named allowed m =
     dict_retain (\<lambda>k. case yas_str k of Some n \<Rightarrow> n \<in> set allowed | None \<Rightarrow> False) m"

definition shape_profile :: "yaml \<Rightarrow> yaml" where
  "shape_profile v =
     (case yas_mapping v of
        Some m \<Rightarrow> retag v (YMapping (retain_named ALLOWED_PROFILE_KEYS m))
      | None \<Rightarrow> YMapping [])"

definition shape_ntp :: "yaml \<Rightarrow> yaml" where
  "shape_ntp v =
     (case yas_mapping v of
        Some m \<Rightarrow> retag v (YMapping (yinsert ''write-to-system'' (YBool False) m))
      | None \<Rightarrow> YMapping [])"

definition shape_dns :: "yaml \<Rightarrow> yaml" where
  "shape_dns v =
     (case yas_mapping v of
        Some m \<Rightarrow> retag v (YMapping (yremove ''listen'' m))
      | None \<Rightarrow> v)"

definition pinned_tun_keys :: "string list" where
  "pinned_tun_keys =
     [''iproute2-table-index'', ''iproute2-rule-index'',
      ''auto-redirect-iproute2-fallback-rule-index'', ''file-descriptor'']"

definition shape_tun_map :: "yaml_map \<Rightarrow> yaml_map" where
  "shape_tun_map m =
     foldl (\<lambda>t pinned. yremove pinned t)
       (yinsert ''device'' (YString ''MultiCore'') (yinsert ''enable'' (YBool False) m))
       pinned_tun_keys"

definition shape_tun :: "yaml_map \<Rightarrow> yaml_map" where
  "shape_tun m =
     (let tun = (case yget m ''tun'' of
                   Some v \<Rightarrow> if yas_mapping v = None then YMapping [] else v
                 | None \<Rightarrow> YMapping [])
      in yinsert ''tun''
           (retag tun (YMapping (shape_tun_map (case yas_mapping tun of Some t \<Rightarrow> t | None \<Rightarrow> [])))) m)"

definition force_controller :: "u16 \<Rightarrow> string \<Rightarrow> yaml_map \<Rightarrow> yaml_map" where
  "force_controller port secret m =
     yinsert ''allow-lan'' (YBool False)
       (yinsert ''bind-address'' (YString ''127.0.0.1'')
         (yinsert ''secret'' (YString secret)
           (yinsert ''external-controller'' (YString (''127.0.0.1:'' @ show_nat (unat port))) m)))"

text \<open>The four insertions are one batch of forced settings of the dictionary interface.\<close>

lemma force_controller_force:
  "force_controller port secret m =
     idx.force
       [(YString ''external-controller'', YString (''127.0.0.1:'' @ show_nat (unat port))),
        (YString ''secret'', YString secret),
        (YString ''bind-address'', YString ''127.0.0.1''),
        (YString ''allow-lan'', YBool False)] m"
  by (simp add: force_controller_def idx.force_def)

definition proxy_mode :: "yaml_map \<Rightarrow> bool" where
  "proxy_mode m \<longleftrightarrow>
     Option.bind (Option.bind (Option.bind (yget m ''tun'') yas_mapping)
       (\<lambda>tun. yget tun ''enable'')) yas_bool = Some False"

definition staged_port :: "yaml_map \<Rightarrow> u16 option" where
  "staged_port m =
     (case Option.bind (Option.bind (yget m ''mixed-port'') yas_u64) u16_try_from of
        Some p \<Rightarrow> if p \<noteq> 0 then Some p else None
      | None \<Rightarrow> None)"

definition shape_mixed_port :: "yaml_map \<Rightarrow> sanitize_error + yaml_map \<times> u16 option" where
  "shape_mixed_port m =
     (if proxy_mode m then
        rbind (ok_or MissingMixedPort (staged_port m)) (\<lambda>port.
          Inr (yinsert ''mixed-port'' (YNumber (PosInt (ucast port))) m, Some port))
      else Inr (yremove ''mixed-port'' m, None))"

text \<open>What \<open>sanitize_mihomo\<close> does between \<open>apply_merge\<close> and the emitter.\<close>

definition shape_sections :: "u16 \<Rightarrow> string \<Rightarrow> yaml_map \<Rightarrow> yaml_map" where
  "shape_sections port secret m =
     force_controller port secret
       (yupdate ''ntp'' shape_ntp
         (normalize_reality_policy
           (yupdate ''profile'' shape_profile (retain_named ALLOWED_MIHOMO_KEYS m))))"

definition sanitize_mihomo_document ::
    "(string \<Rightarrow> u8 list) \<Rightarrow> (string \<Rightarrow> string option) \<Rightarrow> mihomo_service_policy \<Rightarrow> yaml \<Rightarrow>
       sanitize_error + yaml \<times> u16 option" where
  "sanitize_mihomo_document sha256 b64 policy document =
     (let dir = service_directory policy in
      rbind (reject_merge_keys_and_tags document) (\<lambda>_.
      rbind (ok_or Malformed (yas_mapping document)) (\<lambda>m.
      rbind (shape_mixed_port (shape_sections (controller_port policy) (controller_secret policy) m))
        (\<lambda>(m, port).
      rbind (rewrite_provider_paths sha256 ''rule-providers'' ''rule'' dir
               (shape_tun (yupdate ''dns'' shape_dns m))) (\<lambda>m.
      rbind (rewrite_provider_paths sha256 ''proxy-providers'' ''proxy'' dir m) (\<lambda>m.
      rbind (confine_easytier_state_dirs sha256 dir m) (\<lambda>m.
      rbind (reject_credential_files b64 m) (\<lambda>_.
      rbind (reject_merge_keys_and_tags (retag document (YMapping m))) (\<lambda>_.
      Inr (retag document (YMapping m), port))))))))))"

definition sanitize_mihomo ::
    "(string \<Rightarrow> yaml option) \<Rightarrow> (yaml \<Rightarrow> yaml option) \<Rightarrow> (yaml \<Rightarrow> string option) \<Rightarrow>
       (string \<Rightarrow> u8 list) \<Rightarrow> (string \<Rightarrow> string option) \<Rightarrow>
       string \<Rightarrow> mihomo_service_policy \<Rightarrow> sanitize_error + sanitized_mihomo" where
  "sanitize_mihomo from_slice apply_merge to_yaml sha256 b64 input policy =
     (if \<not> is_absolute (service_directory policy) then Inl ServiceDirectory
      else rbind (ok_or ServiceDirectory (to_str (service_directory policy))) (\<lambda>_.
           rbind (ok_or Malformed (from_slice input)) (\<lambda>document.
           rbind (ok_or Malformed (apply_merge document)) (\<lambda>document.
           rbind (sanitize_mihomo_document sha256 b64 policy document) (\<lambda>(document, port).
           rbind (ok_or Malformed (to_yaml document)) (\<lambda>text.
           Inr \<lparr>yaml_text = text, mixed_port = port\<rparr>))))))"

section \<open>Lookups through the REALITY policy\<close>

lemma reality_keys [simp]: "REALITY_MLKEM_KEY \<noteq> REALITY_CLIENT_VERSION_KEY"
  by (simp add: REALITY_MLKEM_KEY_def REALITY_CLIENT_VERSION_KEY_def)

lemma inv_normalize: "dict_inv m \<Longrightarrow> dict_inv (normalize_reality_policy m)"
  by (simp add: normalize_reality_policy_def Let_def inv_idx_insert inv_swap_remove split: option.split)

lemma get_normalize_other:
  "dict_inv m \<Longrightarrow> k \<notin> {REALITY_MLKEM_KEY, REALITY_CLIENT_VERSION_KEY} \<Longrightarrow>
     yget (normalize_reality_policy m) k = yget m k"
  by (simp add: normalize_reality_policy_def Let_def dict_simps inv_idx_insert inv_swap_remove
      split: option.split)

end
