(* ===== verification/Mihomo_Properties.thy ===== *)
theory Mihomo_Properties
  imports Mihomo_Sanitize
begin

text \<open>
  What \<open>sanitize_mihomo\<close> guarantees of the document it hands to the privileged core: the root keys
  and the settings the service owns, provider files and EasyTier state inside the service
  directory, and credentials only inline.
\<close>

section \<open>Plain documents\<close>

text \<open>No tag anywhere and every key an ordinary string: what the emitter writes back as it is.\<close>

fun plain_yaml :: "yaml \<Rightarrow> bool" where
  "plain_yaml (YMapping m) =
     (\<forall>p\<in>set m. (\<exists>n. fst p = YString n \<and> n \<noteq> ''<<'') \<and> plain_yaml (snd p))"
| "plain_yaml (YSequence vs) = (\<forall>v\<in>set vs. plain_yaml v)"
| "plain_yaml (YTagged t v) = False"
| "plain_yaml v = True"

lemma reject_merge_keys_and_tags_Inr: "reject_merge_keys_and_tags v = Inr u \<longleftrightarrow> plain_yaml v"
proof (induction v rule: plain_yaml.induct)
  case (1 m)
  have "(if yas_str (fst p) = Some ''<<'' \<or> \<not> (case fst p of YString _ \<Rightarrow> True | _ \<Rightarrow> False)
         then Inl Malformed else reject_merge_keys_and_tags (snd p)) = Inr () \<longleftrightarrow>
      (\<exists>n. fst p = YString n \<and> n \<noteq> ''<<'') \<and> plain_yaml (snd p)" if "p \<in> set m" for p
    using 1 [OF that] by (cases "fst p") auto
  then show ?case by (simp add: each_result_Inr)
qed (auto simp: each_result_Inr)

lemma plain_untag: "plain_yaml v \<Longrightarrow> untag v = v"
  by (cases v) auto

lemma plain_retag: "plain_yaml (retag v w) \<Longrightarrow> retag v w = w"
  by (cases v) auto

lemma plain_retag_arg: "plain_yaml v \<Longrightarrow> retag v w = w"
  by (cases v) auto

lemma plain_mapping: "plain_yaml v \<Longrightarrow> yas_mapping v = Some m \<Longrightarrow> v = YMapping m"
  by (cases v) (auto simp: yas_mapping_def)

lemma plain_sequence: "plain_yaml v \<Longrightarrow> yas_sequence v = Some vs \<Longrightarrow> v = YSequence vs"
  by (cases v) (auto simp: yas_sequence_def)

lemma plain_get: "plain_yaml (YMapping m) \<Longrightarrow> dict_get m k = Some v \<Longrightarrow> plain_yaml v"
  by (auto dest!: map_of_SomeD)

section \<open>Lookups through the passes\<close>

lemma keys_swap_remove: "dict_inv m \<Longrightarrow> fst ` set (swap_remove k m) = fst ` set m - {k}"
  by (force simp: set_swap_remove)

lemma keys_normalize:
  "dict_inv m \<Longrightarrow> fst ` set (normalize_reality_policy m) \<subseteq>
     insert (YString REALITY_MLKEM_KEY) (insert (YString REALITY_CLIENT_VERSION_KEY) (fst ` set m))"
  by (auto simp: normalize_reality_policy_def Let_def keys_idx_insert keys_swap_remove inv_idx_insert
      inv_swap_remove split: option.splits)

lemma inv_retain_named: "dict_inv m \<Longrightarrow> dict_inv (retain_named allowed m)"
  by (simp add: retain_named_def inv_dict_retain)

lemma get_retain_named:
  "yget (retain_named allowed m) k = (if k \<in> set allowed then yget m k else None)"
  by (simp add: retain_named_def get_dict_retain)

lemma inv_shape_sections: "dict_inv m \<Longrightarrow> dict_inv (shape_sections port secret m)"
  by (simp add: shape_sections_def force_controller_force idx.invar_force inv_yupdate inv_normalize
      inv_retain_named)

definition controller_keys :: "string list" where
  "controller_keys = [''external-controller'', ''secret'', ''bind-address'', ''allow-lan'']"

lemma get_sections_other:
  assumes "dict_inv m" "k \<in> set ALLOWED_MIHOMO_KEYS"
    "k \<notin> {''ntp'', ''profile'', REALITY_MLKEM_KEY, REALITY_CLIENT_VERSION_KEY}"
  shows "yget (shape_sections port secret m) k = yget m k"
proof -
  have "k \<notin> set controller_keys"
    using assms(2)
    by (auto simp: ALLOWED_MIHOMO_KEYS_def controller_keys_def REALITY_MLKEM_KEY_def
        REALITY_CLIENT_VERSION_KEY_def)
  then have "yget (shape_sections port secret m) k =
      yget (yupdate ''ntp'' shape_ntp (normalize_reality_policy
        (yupdate ''profile'' shape_profile (retain_named ALLOWED_MIHOMO_KEYS m)))) k"
    unfolding shape_sections_def force_controller_force
    by (subst idx.get_force_other) (auto simp: controller_keys_def)
  with assms show ?thesis
    by (simp add: get_yupdate get_normalize_other inv_yupdate inv_retain_named get_retain_named)
qed

lemma get_sections_controller:
  "yget (shape_sections port secret m) ''external-controller'' =
     Some (YString (''127.0.0.1:'' @ show_nat (unat port)))"
  "yget (shape_sections port secret m) ''secret'' = Some (YString secret)"
  "yget (shape_sections port secret m) ''bind-address'' = Some (YString ''127.0.0.1'')"
  "yget (shape_sections port secret m) ''allow-lan'' = Some (YBool False)"
  unfolding shape_sections_def force_controller_force by (rule idx.get_force; simp)+

lemma keys_force: "fst ` set (force_controller port secret m) =
    YString ` set controller_keys \<union> fst ` set m"
  by (auto simp: force_controller_def keys_idx_insert controller_keys_def)

lemma keys_sections:
  assumes "dict_inv m"
  shows "fst ` set (shape_sections port secret m) \<inter> range YString
    \<subseteq> YString ` set (controller_keys @ ALLOWED_MIHOMO_KEYS)"
proof -
  have "fst ` set (retain_named ALLOWED_MIHOMO_KEYS m) \<inter> range YString
      \<subseteq> YString ` set ALLOWED_MIHOMO_KEYS"
    by (auto simp: retain_named_def set_dict_retain)
  moreover have "REALITY_MLKEM_KEY \<in> set ALLOWED_MIHOMO_KEYS"
    "REALITY_CLIENT_VERSION_KEY \<in> set ALLOWED_MIHOMO_KEYS" by (simp_all add: ALLOWED_MIHOMO_KEYS_def)
  moreover have "fst ` set (normalize_reality_policy
        (yupdate ''profile'' shape_profile (retain_named ALLOWED_MIHOMO_KEYS m))) \<subseteq>
      {YString REALITY_MLKEM_KEY, YString REALITY_CLIENT_VERSION_KEY}
        \<union> fst ` set (retain_named ALLOWED_MIHOMO_KEYS m)"
    using keys_normalize [OF inv_yupdate [OF inv_retain_named [OF assms]],
        of "''profile''" shape_profile ALLOWED_MIHOMO_KEYS]
    by (simp add: keys_yupdate)
  ultimately have "fst ` set (normalize_reality_policy
        (yupdate ''profile'' shape_profile (retain_named ALLOWED_MIHOMO_KEYS m))) \<inter> range YString
      \<subseteq> YString ` set ALLOWED_MIHOMO_KEYS"
    by blast
  then show ?thesis
    unfolding shape_sections_def keys_force keys_yupdate set_append image_Un by blast
qed

lemma shape_mixed_portE:
  assumes "shape_mixed_port m = Inr (m1, port)" "dict_inv m"
  shows "dict_inv m1 \<and> (\<forall>k. k \<noteq> ''mixed-port'' \<longrightarrow> yget m1 k = yget m k) \<and>
    yget m1 ''mixed-port'' = map_option (\<lambda>p. YNumber (PosInt (ucast p))) port \<and> port \<noteq> Some 0 \<and>
    port = (if proxy_mode m then staged_port m else None) \<and>
    fst ` set m1 \<subseteq> insert (YString ''mixed-port'') (fst ` set m)"
proof (cases "proxy_mode m")
  case True
  with assms(1) obtain p where p: "staged_port m = Some p" "port = Some p"
    and m1: "m1 = yinsert ''mixed-port'' (YNumber (PosInt (ucast p))) m"
    by (auto simp: shape_mixed_port_def result_simps)
  have "p \<noteq> 0" using p(1) by (simp add: staged_port_def split: option.splits if_splits)
  with True p assms(2) show ?thesis
    unfolding m1 keys_idx_insert by (simp add: inv_idx_insert get_idx_insert)
next
  case False
  with assms(1) have m1: "m1 = yremove ''mixed-port'' m" "port = None"
    by (simp_all add: shape_mixed_port_def)
  with False assms(2) show ?thesis
    unfolding m1 keys_swap_remove [OF assms(2)]
    by (simp add: inv_swap_remove get_swap_remove) blast
qed

lemma get_foldl_remove:
  "dict_inv m \<Longrightarrow> yget (foldl (\<lambda>t p. yremove p t) m ps) k = (if k \<in> set ps then None else yget m k)"
  by (induction ps arbitrary: m) (auto simp: dict_simps inv_swap_remove)

lemma shape_tun_map_gets:
  assumes "dict_inv t"
  shows "yget (shape_tun_map t) ''enable'' = Some (YBool False)"
    "yget (shape_tun_map t) ''device'' = Some (YString ''MultiCore'')"
    "k \<in> set pinned_tun_keys \<Longrightarrow> yget (shape_tun_map t) k = None"
  using assms
  by (simp_all add: shape_tun_map_def get_foldl_remove inv_idx_insert dict_simps)
    (simp_all add: pinned_tun_keys_def)

lemma get_shape_tun_other: "k \<noteq> ''tun'' \<Longrightarrow> yget (shape_tun m) k = yget m k"
  by (simp add: shape_tun_def Let_def get_idx_insert)

section \<open>The passes of an accepted document\<close>

lemma sanitize_mihomo_documentE:
  assumes "sanitize_mihomo_document sha256 b64 policy document = Inr (v, port)" "yaml_wf document"
  obtains m0 m1 m2 m3 m4 m5 where "document = YMapping m0" "v = YMapping m5" "plain_yaml v"
    and "shape_mixed_port (shape_sections (controller_port policy) (controller_secret policy) m0)
           = Inr (m1, port)"
    and "m2 = shape_tun (yupdate ''dns'' shape_dns m1)"
    and "rewrite_provider_paths sha256 ''rule-providers'' ''rule'' (service_directory policy) m2 = Inr m3"
    and "rewrite_provider_paths sha256 ''proxy-providers'' ''proxy'' (service_directory policy) m3 = Inr m4"
    and "confine_easytier_state_dirs sha256 (service_directory policy) m4 = Inr m5"
    and "reject_credential_files b64 m5 = Inr ()"
    and "dict_inv m0" "dict_inv m1" "dict_inv m2" "plain_yaml document"
proof -
  from assms(1) have plain: "plain_yaml document"
    by (auto simp: sanitize_mihomo_document_def Let_def result_simps reject_merge_keys_and_tags_Inr)
  with assms(1) obtain m0 where m0: "document = YMapping m0"
    by (auto simp: sanitize_mihomo_document_def Let_def result_simps dest: plain_mapping)
  with assms(2) have inv0: "dict_inv m0" by simp
  from assms(1) obtain m1 m3 m4 m5 where stages: "v = YMapping m5" "plain_yaml v"
    "shape_mixed_port (shape_sections (controller_port policy) (controller_secret policy) m0)
       = Inr (m1, port)"
    "rewrite_provider_paths sha256 ''rule-providers'' ''rule'' (service_directory policy)
       (shape_tun (yupdate ''dns'' shape_dns m1)) = Inr m3"
    "rewrite_provider_paths sha256 ''proxy-providers'' ''proxy'' (service_directory policy) m3 = Inr m4"
    "confine_easytier_state_dirs sha256 (service_directory policy) m4 = Inr m5"
    "reject_credential_files b64 m5 = Inr ()"
    unfolding sanitize_mihomo_document_def Let_def m0
    by (auto simp: result_simps reject_merge_keys_and_tags_Inr simp del: plain_yaml.simps
        reject_merge_keys_and_tags.simps)
  have inv1: "dict_inv m1" 
    using shape_mixed_portE [OF stages(3) inv_shape_sections [OF inv0]] by blast
  then have "dict_inv (shape_tun (yupdate ''dns'' shape_dns m1))"
    by (simp add: shape_tun_def Let_def inv_idx_insert inv_yupdate)
  with that [OF m0 stages(1-3) refl stages(4-7) inv0 inv1 _ plain] show thesis .
qed

lemma rewrite_keys: "rewrite_provider_paths sha256 s p dir m = Inr m' \<Longrightarrow> fst ` set m' = fst ` set m"
  unfolding rewrite_provider_paths_def by (rule keys_yupdate_result)

lemma get_rewrite_other:
  "rewrite_provider_paths sha256 s p dir m = Inr m' \<Longrightarrow> k \<noteq> s \<Longrightarrow> yget m' k = yget m k"
  unfolding rewrite_provider_paths_def by (rule get_yupdate_result)

lemma inv_rewrite: "rewrite_provider_paths sha256 s p dir m = Inr m' \<Longrightarrow> dict_inv m \<Longrightarrow> dict_inv m'"
  unfolding rewrite_provider_paths_def by (rule inv_yupdate_result)

lemma confine_dirs:
  assumes "confine_easytier_state_dirs sha256 dir m = Inr m'"
  shows "fst ` set m' = fst ` set m" "k \<notin> {''proxies'', ''proxy-providers''} \<Longrightarrow> yget m' k = yget m k"
    "dict_inv m \<Longrightarrow> dict_inv m'"
proof -
  from assms obtain m1 where
    u: "yupdate_result ''proxies'' (confine_items sha256 ''proxies'' dir) m = Inr m1"
      "yupdate_result ''proxy-providers'' (confine_providers sha256 dir) m1 = Inr m'"
    by (auto simp: confine_easytier_state_dirs_def result_simps)
  show "fst ` set m' = fst ` set m" using u [THEN keys_yupdate_result] by simp
  show "yget m' k = yget m k" if "k \<notin> {''proxies'', ''proxy-providers''}"
    using that u [THEN get_yupdate_result, of k] by simp
  show "dict_inv m'" if "dict_inv m" using that u [THEN inv_yupdate_result] by simp
qed

lemma confine_dirs_get:
  assumes "confine_easytier_state_dirs sha256 dir m = Inr m'"
  shows "yget m' ''proxies'' = Some v \<Longrightarrow>
      \<exists>u. yget m ''proxies'' = Some u \<and> confine_items sha256 ''proxies'' dir u = Inr v"
    and "yget m' ''proxy-providers'' = Some v \<Longrightarrow>
      \<exists>u. yget m ''proxy-providers'' = Some u \<and> confine_providers sha256 dir u = Inr v"
proof -
  from assms obtain m1 where
    u: "yupdate_result ''proxies'' (confine_items sha256 ''proxies'' dir) m = Inr m1"
      "yupdate_result ''proxy-providers'' (confine_providers sha256 dir) m1 = Inr m'"
    by (auto simp: confine_easytier_state_dirs_def result_simps)
  show "\<exists>u. yget m ''proxies'' = Some u \<and> confine_items sha256 ''proxies'' dir u = Inr v"
    if "yget m' ''proxies'' = Some v"
    using that get_yupdate_result [OF u(2), of "''proxies''"] get_yupdate_result_same [OF u(1)] by simp
  show "\<exists>u. yget m ''proxy-providers'' = Some u \<and> confine_providers sha256 dir u = Inr v"
    if "yget m' ''proxy-providers'' = Some v"
    using get_yupdate_result_same [OF u(2) that] get_yupdate_result [OF u(1), of "''proxy-providers''"]
    by simp
qed

section \<open>Settings the service owns\<close>

text \<open>What must hold of the root mapping whatever the client staged.\<close>

definition service_owned :: "mihomo_service_policy \<Rightarrow> u16 option \<Rightarrow> yaml_map \<Rightarrow> bool" where
  "service_owned policy port m \<longleftrightarrow>
     fst ` set m \<subseteq> YString ` set (controller_keys @ ALLOWED_MIHOMO_KEYS)
     \<and> yget m ''external-controller'' =
         Some (YString (''127.0.0.1:'' @ show_nat (unat (controller_port policy))))
     \<and> yget m ''secret'' = Some (YString (controller_secret policy))
     \<and> yget m ''bind-address'' = Some (YString ''127.0.0.1'')
     \<and> yget m ''allow-lan'' = Some (YBool False)
     \<and> (\<exists>t. yget m ''tun'' = Some (YMapping t) \<and> yget t ''enable'' = Some (YBool False)
          \<and> yget t ''device'' = Some (YString ''MultiCore'')
          \<and> (\<forall>k\<in>set pinned_tun_keys. yget t k = None))
     \<and> yget m ''mixed-port'' = map_option (\<lambda>p. YNumber (PosInt (ucast p))) port \<and> port \<noteq> Some 0
     \<and> (\<forall>d. yget m ''dns'' = Some (YMapping d) \<longrightarrow> yget d ''listen'' = None)
     \<and> (\<forall>n. yget m ''ntp'' = Some n \<longrightarrow>
          n = YMapping [] \<or> (\<exists>t. n = YMapping t \<and> yget t ''write-to-system'' = Some (YBool False)))"

lemma tun_shaped:
  assumes "m2 = shape_tun m1'" "\<And>t. yget m1' ''tun'' = Some (YMapping t) \<Longrightarrow> dict_inv t"
    "plain_yaml (YMapping m5)" "yget m5 ''tun'' = yget m2 ''tun''"
    "\<And>v. yget m1' ''tun'' = Some v \<Longrightarrow> plain_yaml v"
  shows "\<exists>t. yget m5 ''tun'' = Some (YMapping t) \<and> yget t ''enable'' = Some (YBool False)
          \<and> yget t ''device'' = Some (YString ''MultiCore'')
          \<and> (\<forall>k\<in>set pinned_tun_keys. yget t k = None)"
proof -
  define tun where "tun = (case yget m1' ''tun'' of
                   Some v \<Rightarrow> if yas_mapping v = None then YMapping [] else v
                 | None \<Rightarrow> YMapping [])"
  define t where "t = (case yas_mapping tun of Some t \<Rightarrow> t | None \<Rightarrow> [])"
  have "plain_yaml tun" using assms(5) by (auto simp: tun_def split: option.split)
  then have get: "yget m5 ''tun'' = Some (YMapping (shape_tun_map t))"
    by (simp add: assms(1,4) shape_tun_def Let_def get_idx_insert plain_retag_arg flip: tun_def t_def)
  have "dict_inv t"
  proof (cases "yas_mapping tun")
    case (Some t')
    with \<open>plain_yaml tun\<close> have "tun = YMapping t'" by (rule plain_mapping)
    then have "t' = [] \<or> yget m1' ''tun'' = Some (YMapping t')"
      by (simp add: tun_def split: option.splits if_splits)
    with Some assms(2) [of t'] show ?thesis by (auto simp: t_def dict_inv_def)
  qed (simp add: t_def dict_inv_def)
  with get show ?thesis by (simp add: shape_tun_map_gets)
qed

lemma get_sections_ntp:
  "dict_inv m \<Longrightarrow> yget (shape_sections port secret m) ''ntp'' = map_option shape_ntp (yget m ''ntp'')"
  unfolding shape_sections_def force_controller_force
  by (subst idx.get_force_other)
    (auto simp: get_yupdate get_normalize_other inv_yupdate inv_retain_named get_retain_named
      REALITY_MLKEM_KEY_def REALITY_CLIENT_VERSION_KEY_def ALLOWED_MIHOMO_KEYS_def)

lemma shape_ntp_ok:
  "plain_yaml v \<Longrightarrow> shape_ntp v = YMapping [] \<or>
     (\<exists>t. shape_ntp v = YMapping t \<and> yget t ''write-to-system'' = Some (YBool False))"
  by (auto simp: shape_ntp_def plain_retag_arg get_idx_insert split: option.split)

lemma shape_dns_ok:
  assumes "plain_yaml v" "yaml_wf v" "shape_dns v = YMapping d" shows "yget d ''listen'' = None"
proof (cases "yas_mapping v")
  case None
  with assms(3) have "v = YMapping d" by (simp add: shape_dns_def)
  with None show ?thesis by simp
next
  case (Some m)
  with assms show ?thesis
    using plain_mapping [OF assms(1) Some] by (auto simp: shape_dns_def get_swap_remove)
qed

text \<open>Lookups in the final root mapping of everything the provider passes leave alone.\<close>

lemma get_final:
  assumes "shape_mixed_port (shape_sections p s m0) = Inr (m1, port)" "dict_inv m0"
    and "m2 = shape_tun (yupdate ''dns'' shape_dns m1)"
    and "rewrite_provider_paths sha256 ''rule-providers'' ''rule'' dir m2 = Inr m3"
    and "rewrite_provider_paths sha256 ''proxy-providers'' ''proxy'' dir m3 = Inr m4"
    and "confine_easytier_state_dirs sha256 dir m4 = Inr m5"
    and "k \<notin> {''proxies'', ''proxy-providers'', ''rule-providers''}"
  shows "yget m5 k = yget m2 k"
    and "k \<notin> {''tun'', ''dns'', ''mixed-port''} \<Longrightarrow> yget m2 k = yget (shape_sections p s m0) k"
proof -
  show "yget m5 k = yget m2 k"
    using assms(7) confine_dirs(2) [OF assms(6), of k] get_rewrite_other [OF assms(5), of k]
      get_rewrite_other [OF assms(4), of k] by simp
  assume "k \<notin> {''tun'', ''dns'', ''mixed-port''}"
  then show "yget m2 k = yget (shape_sections p s m0) k"
    using shape_mixed_portE [OF assms(1) inv_shape_sections [OF assms(2)]]
    by (simp add: assms(3) get_shape_tun_other get_yupdate)
qed

text \<open>The entries of the final document, one by one, from the steps of the pass.\<close>

lemma final_keys:
  assumes inv0: "dict_inv m0" and plain: "plain_yaml (YMapping m5)"
    and m1: "shape_mixed_port (shape_sections cport csecret m0) = Inr (m1, port)"
    and m2: "m2 = shape_tun (yupdate ''dns'' shape_dns m1)"
    and m3: "rewrite_provider_paths sha256 ''rule-providers'' ''rule'' dir m2 = Inr m3"
    and m4: "rewrite_provider_paths sha256 ''proxy-providers'' ''proxy'' dir m3 = Inr m4"
    and m5: "confine_easytier_state_dirs sha256 dir m4 = Inr m5"
  shows "fst ` set m5 \<subseteq> YString ` set (controller_keys @ ALLOWED_MIHOMO_KEYS)"
proof -
  let ?s = "shape_sections cport csecret m0"
  have "fst ` set m5 = fst ` set m2"
    using confine_dirs(1) [OF m5] rewrite_keys [OF m4] rewrite_keys [OF m3] by simp
  also have "\<dots> = insert (YString ''tun'') (fst ` set m1)"
    by (simp add: m2 shape_tun_def Let_def keys_idx_insert keys_yupdate)
  finally have "fst ` set m5 \<subseteq> {YString ''tun'', YString ''mixed-port''} \<union> fst ` set ?s"
    using shape_mixed_portE [OF m1 inv_shape_sections [OF inv0]] by auto
  then have sub: "fst ` set m5 \<subseteq>
      ({YString ''tun'', YString ''mixed-port''} \<union> fst ` set ?s) \<inter> range YString"
    using plain by auto
  have "YString ''tun'' \<in> YString ` set (controller_keys @ ALLOWED_MIHOMO_KEYS)"
    "YString ''mixed-port'' \<in> YString ` set (controller_keys @ ALLOWED_MIHOMO_KEYS)"
    by (rule imageI, simp add: ALLOWED_MIHOMO_KEYS_def)+
  then show ?thesis using sub keys_sections [OF inv0, of cport csecret] by blast
qed

lemma final_tun_dns:
  assumes "k \<in> {''tun'', ''dns''}"
  shows "k \<in> set ALLOWED_MIHOMO_KEYS" "k \<noteq> ''mixed-port''"
    "k \<notin> {''ntp'', ''profile'', REALITY_MLKEM_KEY, REALITY_CLIENT_VERSION_KEY}"
  using assms by (auto simp: ALLOWED_MIHOMO_KEYS_def REALITY_MLKEM_KEY_def REALITY_CLIENT_VERSION_KEY_def)

text \<open>The staged document switches the tunnel off explicitly: the client asks for proxy mode.\<close>

definition asks_proxy_mode :: "yaml_map \<Rightarrow> bool" where
  "asks_proxy_mode staged \<longleftrightarrow>
     (\<exists>t. yget staged ''tun'' = Some (YMapping t) \<and> yget t ''enable'' = Some (YBool False))"

text \<open>The root settings that some pass may rewrite.\<close>

definition reshaped_keys :: "string list" where
  "reshaped_keys =
     [''profile'', REALITY_MLKEM_KEY, REALITY_CLIENT_VERSION_KEY, ''ntp'', ''mixed-port'', ''dns'',
      ''tun'', ''rule-providers'', ''proxy-providers'', ''proxies'']"

lemma yas_bool_Some: "plain_yaml v \<Longrightarrow> yas_bool v = Some b \<longleftrightarrow> v = YBool b"
  by (cases v) (auto simp: yas_bool_def)

lemma asks_proxy_mode:
  assumes "plain_yaml (YMapping m0)" "yget m ''tun'' = yget m0 ''tun''"
  shows "proxy_mode m \<longleftrightarrow> asks_proxy_mode m0"
proof (cases "yget m0 ''tun''")
  case None
  with assms(2) show ?thesis by (simp add: proxy_mode_def asks_proxy_mode_def)
next
  case (Some v)
  have plain: "plain_yaml v" by (rule plain_get [OF assms(1) Some])
  show ?thesis
  proof (cases "yas_mapping v")
    case None
    with assms(2) Some show ?thesis by (auto simp: proxy_mode_def asks_proxy_mode_def)
  next
    case (Some t)
    then have v: "v = YMapping t" by (rule plain_mapping [OF plain])
    have "Option.bind (yget t ''enable'') yas_bool = Some False \<longleftrightarrow> yget t ''enable'' = Some (YBool False)"
      using plain_get [OF plain [unfolded v], of "YString ''enable''"] yas_bool_Some
      by (cases "yget t ''enable''") auto
    with assms(2) \<open>yget m0 ''tun'' = Some v\<close> show ?thesis
      by (simp add: proxy_mode_def asks_proxy_mode_def v)
  qed
qed

lemma staged_port_Some:
  assumes "plain_yaml (YMapping m0)" "yget m ''mixed-port'' = yget m0 ''mixed-port''"
    and "staged_port m = Some p"
  shows "yget m0 ''mixed-port'' = Some (YNumber (PosInt (ucast p)))"
proof -
  from assms(2,3) obtain v n where v: "yget m0 ''mixed-port'' = Some v" "yas_u64 v = Some n"
    "u16_try_from n = Some p"
    by (auto simp: staged_port_def bind_eq_Some_conv split: option.splits if_splits)
  have "plain_yaml v" by (rule plain_get [OF assms(1) v(1)])
  with v(2) have "v = YNumber (PosInt n)"
    by (cases v) (auto simp: yas_u64_def elim!: num_as_u64.elims)
  moreover have "n = ucast p"
  proof -
    have "unat p < 2 ^ 16" using unsigned_less [of p, where ?'a = nat] by simp
    then have "unat (ucast p :: u64) = unat p" by (simp add: unsigned_ucast_eq take_bit_nat_eq_self)
    with u16_try_from_Some [OF v(3)] show ?thesis by (simp add: word_unat_eq_iff)
  qed
  ultimately show ?thesis using v(1) by simp
qed

lemma staged_port_exact:
  assumes m1: "shape_mixed_port (shape_sections port_number secret m0) = Inr (m1, port)"
    and inv0: "dict_inv m0" and plain: "plain_yaml (YMapping m0)"
  shows "if asks_proxy_mode m0
       then \<exists>p. port = Some p \<and> yget m0 ''mixed-port'' = Some (YNumber (PosInt (ucast p)))
       else port = None"
proof -
  note port = shape_mixed_portE [OF m1 inv_shape_sections [OF inv0]]
  let ?s = "shape_sections port_number secret m0"
  have other: "yget ?s k = yget m0 k" if "k \<in> {''tun'', ''mixed-port''}" for k
    using that by (intro get_sections_other [OF inv0])
      (auto simp: ALLOWED_MIHOMO_KEYS_def REALITY_MLKEM_KEY_def REALITY_CLIENT_VERSION_KEY_def)
  have p: "port = (if asks_proxy_mode m0 then staged_port ?s else None)"
    using port asks_proxy_mode [OF plain other [of "''tun''"]] by simp
  show ?thesis
  proof (cases "asks_proxy_mode m0")
    case True
    then have "proxy_mode ?s" using asks_proxy_mode [OF plain other [of "''tun''"]] by simp
    then obtain q where q: "staged_port ?s = Some q"
      using m1 by (auto simp: shape_mixed_port_def result_simps)
    have "yget m0 ''mixed-port'' = Some (YNumber (PosInt (ucast q)))"
      by (rule staged_port_Some [OF plain other q]) simp
    with p q True show ?thesis by simp
  next
    case False
    with p show ?thesis by simp
  qed
qed

text \<open>What the passes make of a plain document, from the sections on.\<close>

lemma final_service_owned:
  assumes doc: "plain_yaml (YMapping m5)" "plain_yaml (YMapping m0)" and wf: "yaml_wf (YMapping m0)" and inv0: "dict_inv m0"
    and m1: "shape_mixed_port (shape_sections (controller_port policy) (controller_secret policy) m0)
           = Inr (m1, port)"
    and m2: "m2 = shape_tun (yupdate ''dns'' shape_dns m1)"
    and m3: "rewrite_provider_paths sha256 ''rule-providers'' ''rule'' (service_directory policy) m2 = Inr m3"
    and m4: "rewrite_provider_paths sha256 ''proxy-providers'' ''proxy'' (service_directory policy) m3 = Inr m4"
    and m5: "confine_easytier_state_dirs sha256 (service_directory policy) m4 = Inr m5"
  shows "service_owned policy port m5"
proof -
  note get = get_final [OF m1 inv0 m2 m3 m4 m5] and port = shape_mixed_portE [OF m1 inv_shape_sections [OF inv0]]
  have plain0: "plain_yaml v" if "yget m0 k = Some v" for k v
    using plain_get that doc(2) by blast
  have wf0: "yaml_wf v" if "yget m0 k = Some v" for k v
    using wf map_of_SomeD [OF that] by auto
  have allowed: "yget m1 k = yget m0 k" if "k \<in> {''tun'', ''dns''}" for k
    using port get_sections_other [OF inv0] final_tun_dns [OF that] by simp
  have keys: "fst ` set m5 \<subseteq> YString ` set (controller_keys @ ALLOWED_MIHOMO_KEYS)"
    by (rule final_keys [OF inv0 _ m1 m2 m3 m4 m5]) (use doc(1) in simp)
  have tun: "\<exists>t. yget m5 ''tun'' = Some (YMapping t) \<and> yget t ''enable'' = Some (YBool False)
          \<and> yget t ''device'' = Some (YString ''MultiCore'')
          \<and> (\<forall>k\<in>set pinned_tun_keys. yget t k = None)"
    using doc(1) wf0 [of "''tun''"] plain0 [of "''tun''"] get(1) [of "''tun''"] allowed [of "''tun''"]
    by (intro tun_shaped [OF m2]) (auto simp: get_yupdate)
  have dns: "yget d ''listen'' = None" if "yget m5 ''dns'' = Some (YMapping d)" for d
  proof -
    from that get(1) [of "''dns''"] allowed [of "''dns''"]
    obtain z where z: "yget m0 ''dns'' = Some z" "shape_dns z = YMapping d"
      by (auto simp: m2 get_shape_tun_other get_yupdate)
    from plain0 [OF z(1)] wf0 [OF z(1)] z(2) show ?thesis by (rule shape_dns_ok)
  qed
  have ntp: "n = YMapping [] \<or> (\<exists>t. n = YMapping t \<and> yget t ''write-to-system'' = Some (YBool False))"
    if n: "yget m5 ''ntp'' = Some n" for n
  proof -
    have "map_option shape_ntp (yget m0 ''ntp'') = Some n"
      using get [of "''ntp''"] get_sections_ntp [OF inv0] n by simp
    then obtain z where z: "yget m0 ''ntp'' = Some z" "n = shape_ntp z" by (auto simp: map_option_eq_Some)
    from shape_ntp_ok [OF plain0 [OF z(1)]] show ?thesis unfolding z(2) .
  qed
  have mixed: "yget m5 ''mixed-port'' = map_option (\<lambda>p. YNumber (PosInt (ucast p))) port"
    using get(1) [of "''mixed-port''"] port by (simp add: m2 get_shape_tun_other get_yupdate)
  have "yget m5 ''external-controller'' =
         Some (YString (''127.0.0.1:'' @ show_nat (unat (controller_port policy))))"
    "yget m5 ''secret'' = Some (YString (controller_secret policy))"
    "yget m5 ''bind-address'' = Some (YString ''127.0.0.1'')" "yget m5 ''allow-lan'' = Some (YBool False)"
    by (simp_all add: get get_sections_controller)
  with keys tun dns ntp mixed port show ?thesis
    unfolding service_owned_def by blast
qed

text \<open>
  C4. Whatever the client staged, the document the service runs has only allowed root keys plus
  the controller settings, the controller address and secret of the service, no LAN listener,
  TUN off with the service's device name and none of the pinned routing fields, no DNS listener and
  no right to set the clock. Its mixed port is the one the sanitiser reports: the staged number, not
  zero, when the staged document switches the tunnel off explicitly, and otherwise there is none.
  Every other allowed setting that no pass rewrites is the staged one.
\<close>

theorem mihomo_service_owned:
  assumes "sanitize_mihomo_document sha256 b64 policy document = Inr (sanitized, port)"
    and "yaml_wf document"
  shows "\<exists>staged m. document = YMapping staged \<and> sanitized = YMapping m \<and> service_owned policy port m
    \<and> (if asks_proxy_mode staged
       then \<exists>p. port = Some p \<and> yget staged ''mixed-port'' = Some (YNumber (PosInt (ucast p)))
       else port = None)
    \<and> (\<forall>k\<in>set ALLOWED_MIHOMO_KEYS - set reshaped_keys. yget m k = yget staged k)"
proof -
  from assms obtain m0 m1 m2 m3 m4 m5 where doc: "document = YMapping m0" "sanitized = YMapping m5"
      "plain_yaml sanitized" "plain_yaml document" and inv0: "dict_inv m0"
    and m1: "shape_mixed_port (shape_sections (controller_port policy) (controller_secret policy) m0)
           = Inr (m1, port)"
    and m2: "m2 = shape_tun (yupdate ''dns'' shape_dns m1)"
    and m3: "rewrite_provider_paths sha256 ''rule-providers'' ''rule'' (service_directory policy) m2 = Inr m3"
    and m4: "rewrite_provider_paths sha256 ''proxy-providers'' ''proxy'' (service_directory policy) m3 = Inr m4"
    and m5: "confine_easytier_state_dirs sha256 (service_directory policy) m4 = Inr m5"
    by (elim sanitize_mihomo_documentE)
  note get = get_final [OF m1 inv0 m2 m3 m4 m5]
  have plain: "plain_yaml (YMapping m5)" "plain_yaml (YMapping m0)" using doc by simp_all
  have "service_owned policy port m5"
    by (rule final_service_owned [OF plain _ inv0 m1 m2 m3 m4 m5]) (use assms(2) doc(1) in simp)
  moreover have "yget m5 k = yget m0 k" if k: "k \<in> set ALLOWED_MIHOMO_KEYS - set reshaped_keys" for k
  proof -
    have "yget m5 k = yget (shape_sections (controller_port policy) (controller_secret policy) m0) k"
      using get [of k] k by (simp add: reshaped_keys_def)
    also have "\<dots> = yget m0 k" using k by (intro get_sections_other [OF inv0]) (auto simp: reshaped_keys_def)
    finally show ?thesis .
  qed
  ultimately show ?thesis using doc(1,2) staged_port_exact [OF m1 inv0 plain(2)] by blast
qed

section \<open>Provider files\<close>

text \<open>
  A provider after the rewrite: not a file provider; an inline one has no path; any other one
  caches in the service directory under a hashed name. The fields the sanitiser reads are spelled
  exactly, so no other spelling of them can override what it checked.
\<close>

definition provider_confined ::
    "(string \<Rightarrow> u8 list) \<Rightarrow> string \<Rightarrow> string \<Rightarrow> string \<Rightarrow> yaml_map \<Rightarrow> bool" where
  "provider_confined sha256 prefix dir name q \<longleftrightarrow>
     provider_kind q \<noteq> ''file''
     \<and> yget q ''path'' =
         (if provider_kind q = ''inline'' then None
          else Some (YString (path_join (path_join dir ''providers'')
                 (provider_file sha256 prefix name (provider_extension q)))))
     \<and> (\<forall>f\<in>fst ` set q. \<forall>n\<in>set PROVIDER_CHECKED_FIELDS. names_field n f \<longrightarrow> f = YString n)"

lemma check_provider_field_Inr:
  assumes "check_provider_field f = Inr u" "names_field n f" "n \<in> set PROVIDER_CHECKED_FIELDS"
  shows "yas_str f = Some n"
  using assms
  by (auto simp: check_provider_field_def names_field_def name_or_empty_def result_simps
      bind_eq_Some_conv split: if_splits option.splits)

lemma provider_kind_insert [simp]:
  "provider_kind (yinsert ''path'' v q) = provider_kind q"
  "provider_extension (yinsert ''path'' v q) = provider_extension q"
  by (simp_all add: provider_kind_def provider_extension_def get_idx_insert)

lemma provider_kind_remove [simp]:
  "dict_inv q \<Longrightarrow> provider_kind (yremove ''path'' q) = provider_kind q"
  by (simp add: provider_kind_def get_swap_remove)

lemma names_path [simp]: "names_field ''path'' (YString ''path'')"
  by (simp add: names_field_def mihomo_field_name_def str_eval)

lemma names_payload [simp]: "names_field n (YString ''path'') \<longleftrightarrow> n = ''path''"
  by (simp add: names_field_def mihomo_field_name_def str_eval eq_commute)

lemma rewrite_provider_confined:
  assumes "rewrite_provider sha256 section prefix dir p = Inr p'" "plain_yaml (snd p)"
    "yaml_wf (snd p)" "plain_yaml (YMapping [p])"
  shows "\<exists>name q. p' = (YString name, YMapping q) \<and> provider_confined sha256 prefix dir name q
      \<and> dict_inv q"
proof -
  from assms(1) obtain name q0 where name: "yas_str (fst p) = Some name"
    and q0: "yas_mapping (snd p) = Some q0"
    and fields: "\<forall>f\<in>set (map fst q0). check_provider_field f = Inr ()"
    and kind: "provider_kind q0 \<noteq> ''file''"
    and p': "p' = (fst p, retag (snd p) (YMapping (if provider_kind q0 = ''inline''
        then yremove ''path'' q0
        else yinsert ''path'' (YString (path_join (path_join dir ''providers'')
               (provider_file sha256 prefix name (provider_extension q0)))) q0)))"
    by (auto simp: rewrite_provider_def result_simps to_str_def split: if_splits)
  have snd_p: "snd p = YMapping q0" by (rule plain_mapping [OF assms(2) q0])
  with assms(3) have inv: "dict_inv q0" by simp
  from assms(4) name have key: "fst p = YString name" by auto
  let ?q = "if provider_kind q0 = ''inline'' then yremove ''path'' q0
        else yinsert ''path'' (YString (path_join (path_join dir ''providers'')
               (provider_file sha256 prefix name (provider_extension q0)))) q0"
  have keys: "f = YString ''path'' \<or> f \<in> fst ` set q0" if "f \<in> fst ` set ?q" for f
    using that by (auto simp only: keys_swap_remove [OF inv] keys_idx_insert split: if_splits)
  have "\<forall>f\<in>fst ` set q0. \<exists>n. f = YString n" using assms(2) by (auto simp: snd_p)
  then have exact: "f = YString n"
    if "f \<in> fst ` set q0" "n \<in> set PROVIDER_CHECKED_FIELDS" "names_field n f" for f n
    using that fields check_provider_field_Inr [of f "()" n] by fastforce
  have checked:
    "\<forall>f\<in>fst ` set ?q. \<forall>n\<in>set PROVIDER_CHECKED_FIELDS. names_field n f \<longrightarrow> f = YString n"
  proof (intro ballI impI)
    fix f n assume f: "f \<in> fst ` set ?q" "n \<in> set PROVIDER_CHECKED_FIELDS" "names_field n f"
    from keys [OF f(1)] show "f = YString n"
    proof
      assume "f = YString ''path''"
      with f(3) show ?thesis by simp
    qed (rule exact [OF _ f(2,3)])
  qed
  have "provider_kind ?q = provider_kind q0" "yget ?q ''path'' =
      (if provider_kind q0 = ''inline'' then None
       else Some (YString (path_join (path_join dir ''providers'')
              (provider_file sha256 prefix name (provider_extension q0)))))"
    "provider_kind q0 \<noteq> ''inline'' \<Longrightarrow> provider_extension ?q = provider_extension q0"
    using inv by (simp_all add: get_swap_remove get_idx_insert)
  then have "provider_confined sha256 prefix dir name ?q"
    unfolding provider_confined_def using kind by (intro conjI checked) simp_all
  moreover have "dict_inv ?q" using inv by (simp add: inv_swap_remove inv_idx_insert)
  ultimately show ?thesis by (simp add: p' key plain_retag_arg [OF assms(2)])
qed

lemma rewrite_paths_confined:
  assumes "rewrite_provider_paths sha256 section prefix dir m = Inr m'"
    and "yget m section = Some v" "plain_yaml v" "yaml_wf v"
  shows "\<exists>ps. yget m' section = Some (YMapping ps) \<and> dict_inv ps \<and> (\<forall>(k, p)\<in>set ps. \<exists>name q.
      k = YString name \<and> p = YMapping q \<and> provider_confined sha256 prefix dir name q \<and> dict_inv q)"
proof -
  from assms(1,2) obtain ps0 ps where ps0: "yas_mapping v = Some ps0"
    and ps: "map_result (rewrite_provider sha256 section prefix dir) ps0 = Inr ps"
    and m': "m' = yinsert section (retag v (YMapping ps)) m"
    by (auto simp: rewrite_provider_paths_def yupdate_result_def result_simps)
  have v: "v = YMapping ps0" by (rule plain_mapping [OF assms(3) ps0])
  have "\<exists>name q. p' = (YString name, YMapping q) \<and> provider_confined sha256 prefix dir name q \<and> dict_inv q"
    if p': "p' \<in> set ps" for p'
  proof -
    from map_result_elem [OF ps p'] obtain p where p: "p \<in> set ps0"
      "rewrite_provider sha256 section prefix dir p = Inr p'" by blast
    with assms(3,4) v show ?thesis by (intro rewrite_provider_confined [OF p(2)]) auto
  qed
  moreover have "map fst ps = map fst ps0"
    by (rule map_result_keys [OF ps]) (auto simp: rewrite_provider_def result_simps split: if_splits)
  moreover have "yget m' section = Some (YMapping ps)"
    by (simp add: m' get_idx_insert plain_retag_arg [OF assms(3)])
  ultimately show ?thesis using assms(4) v by (fastforce simp: dict_inv_def)
qed

text \<open>The EasyTier pass only rewrites the payload of a proxy provider.\<close>

lemma confine_provider_keeps:
  assumes "confine_provider sha256 dir (k, YMapping q) = Inr p'"
  shows "\<exists>q'. p' = (k, YMapping q') \<and> map fst q' = map fst q
      \<and> (\<forall>f. \<not> names_field ''payload'' (YString f) \<longrightarrow> yget q' f = yget q f)"
proof -
  let ?f = "\<lambda>x. if names_field ''payload'' (fst x)
      then rbind (confine_items sha256 (at_field ''proxy-providers'' (name_or_empty k)) dir (snd x))
             (\<lambda>v. Inr (fst x, v))
      else Inr x"
  from assms obtain q' where q': "map_result ?f q = Inr q'" "p' = (k, YMapping q')"
    by (auto simp: confine_provider_def Let_def result_simps)
  have "\<not> names_field ''payload'' (YString f) \<Longrightarrow> yget q' f = yget q f" for f
    using q'(1) by (induction q arbitrary: q') (auto simp: result_simps split: if_splits)
  moreover have "map fst q' = map fst q"
    by (rule map_result_keys [OF q'(1)]) (auto simp: result_simps split: if_splits)
  ultimately show ?thesis using q'(2) by blast
qed

lemma names_payload_other:
  "\<not> names_field ''payload'' (YString ''path'')" "\<not> names_field ''payload'' (YString ''type'')"
  "\<not> names_field ''payload'' (YString ''format'')"
  by (simp_all add: names_field_def mihomo_field_name_def str_eval)

lemma provider_confined_payload:
  assumes "provider_confined sha256 prefix dir name q" "map fst q' = map fst q"
    "\<forall>f. \<not> names_field ''payload'' (YString f) \<longrightarrow> yget q' f = yget q f"
  shows "provider_confined sha256 prefix dir name q'"
proof -
  have "yget q' ''path'' = yget q ''path''" "provider_kind q' = provider_kind q"
    "provider_extension q' = provider_extension q"
    using assms(3) names_payload_other by (simp_all add: provider_kind_def provider_extension_def)
  moreover have "fst ` set q' = fst ` set q" using assms(2) by (metis set_map)
  ultimately show ?thesis using assms(1) by (simp add: provider_confined_def)
qed

lemma providers_confined:
  assumes "sanitize_mihomo_document sha256 b64 policy document = Inr (YMapping m, port)"
    and "yaml_wf document"
    and "(section, prefix) \<in> {(''rule-providers'', ''rule''), (''proxy-providers'', ''proxy'')}"
    and "yget m section = Some v"
  shows "\<exists>ps. v = YMapping ps \<and> (\<forall>(k, p)\<in>set ps. \<exists>name q. k = YString name \<and> p = YMapping q
      \<and> provider_confined sha256 prefix (service_directory policy) name q \<and> dict_inv q)"
proof -
  from assms(1,2) obtain m0 m1 m2 m3 m4 m' where doc: "document = YMapping m0"
      "plain_yaml (YMapping m)" "plain_yaml document" and inv0: "dict_inv m0"
    and eq: "YMapping m = YMapping m'"
    and m1: "shape_mixed_port (shape_sections (controller_port policy) (controller_secret policy) m0)
           = Inr (m1, port)"
    and m2: "m2 = shape_tun (yupdate ''dns'' shape_dns m1)"
    and m3: "rewrite_provider_paths sha256 ''rule-providers'' ''rule'' (service_directory policy) m2 = Inr m3"
    and m4: "rewrite_provider_paths sha256 ''proxy-providers'' ''proxy'' (service_directory policy) m3 = Inr m4"
    and "confine_easytier_state_dirs sha256 (service_directory policy) m4 = Inr m'"
    by (elim sanitize_mihomo_documentE)
  then have m5: "confine_easytier_state_dirs sha256 (service_directory policy) m4 = Inr m" by simp
  have orig: "yget m2 k = yget m0 k" if "k \<in> {''rule-providers'', ''proxy-providers''}" for k
  proof -
    from that have "k \<in> set ALLOWED_MIHOMO_KEYS" "k \<notin> {''mixed-port'', ''tun'', ''dns''}"
      "k \<notin> {''ntp'', ''profile'', REALITY_MLKEM_KEY, REALITY_CLIENT_VERSION_KEY}"
      by (auto simp: ALLOWED_MIHOMO_KEYS_def REALITY_MLKEM_KEY_def REALITY_CLIENT_VERSION_KEY_def)
    with shape_mixed_portE [OF m1 inv_shape_sections [OF inv0]] get_sections_other [OF inv0]
    show ?thesis by (simp add: m2 get_shape_tun_other get_yupdate)
  qed
  have wf: "plain_yaml w \<and> yaml_wf w" if "yget m0 k = Some w" for k w
    using assms(2) map_of_SomeD [OF that] doc(1,3) by auto
  show ?thesis
  proof (cases "section = ''rule-providers''")
    case True
    with assms(3) have [simp]: "prefix = ''rule''" by simp
    from True assms(4) confine_dirs(2) [OF m5] get_rewrite_other [OF m4]
    have m3v: "yget m3 ''rule-providers'' = Some v" by simp
    then obtain w where w: "yget m2 ''rule-providers'' = Some w"
      using m3 by (auto simp: rewrite_provider_paths_def dest: get_yupdate_result_same)
    with orig wf have "plain_yaml w" "yaml_wf w" by simp_all
    from rewrite_paths_confined [OF m3 w this] m3v show ?thesis by fastforce
  next
    case False
    with assms(3) have sec [simp]: "section = ''proxy-providers''" "prefix = ''proxy''" by auto
    from m5 assms(4) obtain u where u: "yget m4 ''proxy-providers'' = Some u"
      "confine_providers sha256 (service_directory policy) u = Inr v"
      using confine_dirs_get(2) by fastforce
    from u(1) obtain w where w: "yget m3 ''proxy-providers'' = Some w"
      using m4 by (auto simp: rewrite_provider_paths_def dest: get_yupdate_result_same)
    with get_rewrite_other [OF m3] orig wf have "plain_yaml w" "yaml_wf w" by simp_all
    from rewrite_paths_confined [OF m4 w this] u(1) obtain ps where ps: "u = YMapping ps"
      "\<forall>(k, p)\<in>set ps. \<exists>name q. k = YString name \<and> p = YMapping q
         \<and> provider_confined sha256 ''proxy'' (service_directory policy) name q \<and> dict_inv q"
      by auto
    from u(2) obtain ps' where v: "v = YMapping ps'"
      and ps': "map_result (confine_provider sha256 (service_directory policy)) ps = Inr ps'"
      by (auto simp: ps(1) confine_providers_def result_simps)
    have "\<exists>name q. x = (YString name, YMapping q)
        \<and> provider_confined sha256 ''proxy'' (service_directory policy) name q \<and> dict_inv q" if x: "x \<in> set ps'" for x
    proof -
      from map_result_elem [OF ps' x] ps(2) obtain name q where
        q: "confine_provider sha256 (service_directory policy) (YString name, YMapping q) = Inr x"
           "provider_confined sha256 ''proxy'' (service_directory policy) name q" "dict_inv q" by fastforce
      from confine_provider_keeps [OF q(1)] provider_confined_payload [OF q(2)] q(3) show ?thesis
        by (metis dict_inv_def)
    qed
    then show ?thesis unfolding v by fastforce
  qed
qed

text \<open>
  C14. Every rule provider and proxy provider of the document the service runs is confined: none is
  of type \<open>file\<close>, an inline one has no path, and any other one caches in \<open>providers\<close> below the
  service directory under a name made of the prefix, sixteen hexadecimal digits and an extension;
  neither the path the client wrote nor another spelling of the field survives.
\<close>

theorem mihomo_providers_confined:
  assumes "sanitize_mihomo_document sha256 b64 policy document = Inr (YMapping m, port)"
    and "yaml_wf document"
    and "(section, prefix) \<in> {(''rule-providers'', ''rule''), (''proxy-providers'', ''proxy'')}"
    and "yget m section = Some v"
  shows "\<exists>ps. v = YMapping ps \<and> (\<forall>(k, p)\<in>set ps. \<exists>name q. k = YString name \<and> p = YMapping q
      \<and> provider_confined sha256 prefix (service_directory policy) name q)"
  using providers_confined [OF assms] by fast

section \<open>Inline proxies\<close>

text \<open>The proxies the document itself carries: \<open>proxies\<close> and every payload of a proxy provider.\<close>

definition sequence_items :: "yaml \<Rightarrow> yaml list" where
  "sequence_items v = (case yas_sequence v of Some vs \<Rightarrow> vs | None \<Rightarrow> [])"

definition payload_items :: "yaml_map \<Rightarrow> yaml list" where
  "payload_items q =
     concat (map (\<lambda>x. if names_field ''payload'' (fst x) then sequence_items (snd x) else []) q)"

definition provider_items :: "yaml \<Rightarrow> yaml list" where
  "provider_items p = (case yas_mapping p of Some q \<Rightarrow> payload_items q | None \<Rightarrow> [])"

definition inline_proxies :: "yaml_map \<Rightarrow> yaml list" where
  "inline_proxies m =
     (case yget m ''proxies'' of Some v \<Rightarrow> sequence_items v | None \<Rightarrow> [])
     @ (case Option.bind (yget m ''proxy-providers'') yas_mapping of
          Some ps \<Rightarrow> concat (map (\<lambda>p. provider_items (snd p)) ps)
        | None \<Rightarrow> [])"

text \<open>An EasyTier proxy keeps its state in one hashed directory of the service.\<close>

definition easytier_proxy :: "yaml_map \<Rightarrow> bool" where
  "easytier_proxy m =
     list_ex (\<lambda>p. names_field ''type'' (fst p)
       \<and> (case yas_str (snd p) of
            Some kind \<Rightarrow> eq_ignore_ascii_case (trim kind) ''easytier'' | None \<Rightarrow> False)) m"

definition is_hex :: "string \<Rightarrow> bool" where
  "is_hex h = list_all (\<lambda>c. c \<in> set ''0123456789abcdef'') h"

definition state_dir_pinned :: "string \<Rightarrow> yaml_map \<Rightarrow> bool" where
  "state_dir_pinned dir m \<longleftrightarrow>
     (\<exists>h. length h = 16 \<and> is_hex h
        \<and> yget m ''state-dir'' = Some (YString (path_join (path_join dir ''easytier'') h)))
     \<and> (\<forall>k\<in>fst ` set m. names_field ''state-dir'' k \<longrightarrow> k = YString ''state-dir'')"

definition easytier_pinned :: "string \<Rightarrow> yaml \<Rightarrow> bool" where
  "easytier_pinned dir v \<longleftrightarrow> (\<forall>m. v = YMapping m \<longrightarrow> easytier_proxy m \<longrightarrow> state_dir_pinned dir m)"

text \<open>A credential field holds its material, never the name of a file.\<close>

definition credential_ok :: "(string \<Rightarrow> string option) \<Rightarrow> yaml \<Rightarrow> yaml \<Rightarrow> bool" where
  "credential_ok b64 k v \<longleftrightarrow>
     (\<forall>t. yas_str v = Some t \<longrightarrow> trim t \<noteq> [] \<longrightarrow>
        (names_field ''certificate'' k \<or> names_field ''ca'' k \<longrightarrow> is_pem t)
        \<and> (names_field ''private-key'' k \<longrightarrow> is_pem t \<or> is_wireguard_key b64 t))"

fun credentials_inline :: "(string \<Rightarrow> string option) \<Rightarrow> yaml \<Rightarrow> bool" where
  "credentials_inline b64 (YMapping m) =
     (\<forall>p\<in>set m. credential_ok b64 (fst p) (snd p) \<and> credentials_inline b64 (snd p))"
| "credentials_inline b64 (YSequence vs) = (\<forall>v\<in>set vs. credentials_inline b64 v)"
| "credentials_inline b64 v = True"

lemma field_name_names:
  "mihomo_field_name (name_or_empty k) = Inr f \<Longrightarrow> n \<noteq> [] \<Longrightarrow> names_field n k \<longleftrightarrow> f = n"
  by (auto simp: names_field_def name_or_empty_def mihomo_field_name_def to_ascii_lowercase_def
      is_ascii_def split: option.splits if_splits)

lemma check_credential_Inr:
  assumes "mihomo_field_name (name_or_empty k) = Inr f"
  shows "check_credential b64 here f v = Inr u \<longleftrightarrow> credential_ok b64 k v"
  using field_name_names [OF assms]
  by (auto simp: check_credential_def credential_ok_def credential_inline_def split: option.split)

lemma reject_credential_paths_in_Inr:
  "reject_credential_paths_in b64 v at = Inr () \<Longrightarrow> credentials_inline b64 v"
proof (induction b64 v at rule: reject_credential_paths_in.induct)
  case (1 b64 m at)
  then show ?case by (auto simp: result_simps check_credential_Inr)
next
  case (2 b64 vs at)
  then show ?case by (force simp: each_result_from_Inr in_set_conv_nth)
qed auto

lemma hex_prefix_plain:
  assumes "length d = 32"
  shows "length (hex_prefix d) = 16" "is_hex (hex_prefix d)"
proof -
  have "length (concat (map (\<lambda>b. [f b, g b]) xs)) = 2 * length xs" for f g :: "u8 \<Rightarrow> char" and xs
    by (induction xs) auto
  with assms show "length (hex_prefix d) = 16" by (simp add: hex_prefix_def)
  have digit: "hex_digit n \<in> set ''0123456789abcdef''" if "n < 16" for n
  proof -
    have "list_all (\<lambda>n. hex_digit n \<in> set ''0123456789abcdef'') [0..<16]" by code_simp
    with that show ?thesis unfolding list_all_iff by (metis atLeastLessThan_iff le0 set_upt)
  qed
  have "unat b div 16 < 16" for b :: u8 using unat_bound [of b] by auto
  then have "hex_digit (unat b div 16) \<in> set ''0123456789abcdef''"
    "hex_digit (unat b mod 16) \<in> set ''0123456789abcdef''" for b :: u8
    by (intro digit, simp)+
  moreover define S where "S = set ''0123456789abcdef''"
  ultimately have "set (hex_prefix d) \<subseteq> S"
    unfolding hex_prefix_def S_def [symmetric] by (induction d rule: list.induct) (auto simp: subset_eq)
  then show "is_hex (hex_prefix d)" unfolding is_hex_def list_all_iff S_def by blast
qed

lemma scan_proxy_easytier: "scan_proxy m st = Inr st' \<Longrightarrow> fst st' \<longleftrightarrow> fst st \<or> easytier_proxy m"
proof (induction m st rule: scan_proxy.induct)
  case (2 p m st)
  then obtain st1 where st1: "scan_proxy_field p st = Inr st1" "scan_proxy m st1 = Inr st'"
    by (auto simp: result_simps)
  then obtain f where f: "mihomo_field_name (name_or_empty (fst p)) = Inr f"
    by (auto simp: scan_proxy_field_def result_simps)
  have "fst st1 \<longleftrightarrow> fst st \<or> names_field ''type'' (fst p)
       \<and> (case yas_str (snd p) of
            Some kind \<Rightarrow> eq_ignore_ascii_case (trim kind) ''easytier'' | None \<Rightarrow> False)"
    using st1(1) field_name_names [OF f, of "''type''"] f
    by (auto simp: scan_proxy_field_def split: if_splits)
  with 2 st1 show ?case by (auto simp: easytier_proxy_def)
qed (simp add: easytier_proxy_def)

lemma confine_state_dir_pinned:
  assumes "confine_easytier_state_dir sha256 scope dir v = Inr v'" "plain_yaml v'"
    and sha: "\<And>x. length (sha256 x) = 32"
  shows "easytier_pinned dir v'"
proof (cases "yas_mapping v")
  case None
  with assms(1) show ?thesis by (auto simp: confine_easytier_state_dir_def easytier_pinned_def)
next
  case (Some m)
  from assms(1) obtain e name where scan: "scan_proxy m (False, None) = Inr (e, name)"
    by (auto simp: confine_easytier_state_dir_def Some result_simps)
  show ?thesis
  proof (cases e)
    case False
    with assms(1) scan have "v' = v" by (auto simp: confine_easytier_state_dir_def Some)
    with plain_mapping [of v m] Some assms(2) have "v' = YMapping m" by simp
    with False scan_proxy_easytier [OF scan] show ?thesis by (auto simp: easytier_pinned_def)
  next
    case True
    define r where "r = dict_retain (\<lambda>f. \<not> names_field ''state-dir'' f) m"
    from assms(1) scan True have "v' = retag v (YMapping (yinsert ''state-dir''
        (YString (easytier_directory sha256 dir scope name)) r))"
      by (auto simp: confine_easytier_state_dir_def Some result_simps to_str_def r_def split: if_splits)
    with plain_retag assms(2) have v': "v' = YMapping (yinsert ''state-dir''
        (YString (easytier_directory sha256 dir scope name)) r)" by metis
    have "\<forall>k\<in>fst ` set (yinsert ''state-dir'' w r). names_field ''state-dir'' k \<longrightarrow> k = YString ''state-dir''"
      for w unfolding keys_idx_insert by (auto simp: r_def set_dict_retain)
    then have "state_dir_pinned dir (yinsert ''state-dir''
        (YString (easytier_directory sha256 dir scope name)) r)"
      unfolding state_dir_pinned_def easytier_directory_def get_idx_insert
      by (intro conjI exI [of _ "hex_prefix (sha256 (scope @ '' '' @ (case name of Some n \<Rightarrow> n | None \<Rightarrow> [])))"])
        (simp_all add: hex_prefix_plain [OF sha])
    then show ?thesis by (auto simp: v' easytier_pinned_def)
  qed
qed

lemma confine_items_pinned:
  assumes "confine_items sha256 scope dir u = Inr u'" "plain_yaml u'" "v \<in> set (sequence_items u')"
    and sha: "\<And>x. length (sha256 x) = 32"
  shows "easytier_pinned dir v"
proof (cases "yas_sequence u")
  case None
  with assms show ?thesis by (simp add: confine_items_def sequence_items_def)
next
  case (Some vs)
  with assms(1) obtain vs' where vs': "u' = retag u (YSequence vs')"
    and items: "map_result (confine_easytier_state_dir sha256 scope dir) vs = Inr vs'"
    by (auto simp: confine_items_def result_simps)
  from vs' assms(2) have u': "u' = YSequence vs'" using plain_retag by metis
  with assms(3) have v: "v \<in> set vs'" by (simp add: sequence_items_def)
  with u' assms(2) have "plain_yaml v" by simp
  with map_result_elem [OF items v] sha show ?thesis by (blast intro: confine_state_dir_pinned)
qed

lemma payload_items_in:
  "v \<in> set (payload_items q) \<longleftrightarrow>
     (\<exists>x\<in>set q. names_field ''payload'' (fst x) \<and> v \<in> set (sequence_items (snd x)))"
  by (auto simp: payload_items_def)

lemma provider_items_in:
  "v \<in> set (provider_items p) \<Longrightarrow> \<exists>q. yas_mapping p = Some q \<and> v \<in> set (payload_items q)"
  by (cases "yas_mapping p") (simp_all add: provider_items_def)

lemma inline_proxiesE:
  assumes "v \<in> set (inline_proxies m)"
  obtains (direct) u where "yget m ''proxies'' = Some u" "v \<in> set (sequence_items u)"
  | (payload) u ps k p q where "yget m ''proxy-providers'' = Some u" "yas_mapping u = Some ps"
      "(k, p) \<in> set ps" "yas_mapping p = Some q" "v \<in> set (payload_items q)"
proof (cases "v \<in> set (case yget m ''proxies'' of Some v \<Rightarrow> sequence_items v | None \<Rightarrow> [])")
  case True
  then show thesis by (cases "yget m ''proxies''") (simp, rule direct, simp_all)
next
  case False
  show thesis
  proof (cases "Option.bind (yget m ''proxy-providers'') yas_mapping")
    case None
    with False assms show thesis by (auto simp: inline_proxies_def)
  next
    case (Some ps)
    with False assms obtain p where "p \<in> set ps" "v \<in> set (provider_items (snd p))"
      by (auto simp: inline_proxies_def)
    moreover from Some obtain u where "yget m ''proxy-providers'' = Some u" "yas_mapping u = Some ps"
      by (auto simp: bind_eq_Some_conv)
    moreover from provider_items_in [OF calculation(2)] obtain q where
      "yas_mapping (snd p) = Some q" "v \<in> set (payload_items q)" by blast
    ultimately show thesis using payload by (metis prod.collapse)
  qed
qed

lemma confine_provider_pinned:
  assumes "confine_provider sha256 dir p = Inr (k, YMapping q)" "plain_yaml (YMapping q)"
    "v \<in> set (payload_items q)" and sha: "\<And>x. length (sha256 x) = 32"
  shows "easytier_pinned dir v"
proof -
  let ?scope = "at_field ''proxy-providers'' (name_or_empty (fst p))"
  let ?f = "\<lambda>x. if names_field ''payload'' (fst x)
      then rbind (confine_items sha256 ?scope dir (snd x)) (\<lambda>v. Inr (fst x, v)) else Inr x"
  show ?thesis
  proof (cases "yas_mapping (snd p)")
    case None
    with assms(1) show ?thesis by (auto simp: confine_provider_def Let_def)
  next
    case (Some q0)
    with assms(1) obtain q1 where "map_result ?f q0 = Inr q1" "YMapping q = retag (snd p) (YMapping q1)"
      by (auto simp: confine_provider_def Let_def result_simps)
    with assms(2) plain_retag have q: "map_result ?f q0 = Inr q" by (metis yaml.inject(5))
    from assms(3) obtain x where x: "x \<in> set q" "names_field ''payload'' (fst x)"
      "v \<in> set (sequence_items (snd x))" by (auto simp: payload_items_in)
    from map_result_elem [OF q x(1)] x(2) obtain y where
      "confine_items sha256 ?scope dir (snd y) = Inr (snd x)"
      by (auto simp: result_simps split: if_splits)
    moreover have "plain_yaml (snd x)" using assms(2) x(1) by auto
    ultimately show ?thesis using x(3) sha by (rule confine_items_pinned)
  qed
qed

lemma check_items_inline:
  "check_items b64 at (Some vs) = Inr () \<Longrightarrow> v \<in> set vs \<Longrightarrow> credentials_inline b64 v"
  by (auto simp: check_items_def each_result_from_Inr in_set_conv_nth
      dest: reject_credential_paths_in_Inr)

lemma provider_payload_unique:
  assumes "dict_inv q" "\<forall>f\<in>fst ` set q. names_field ''payload'' f \<longrightarrow> f = YString ''payload''"
    and "x \<in> set q" "names_field ''payload'' (fst x)"
  shows "find (\<lambda>p. names_field ''payload'' (fst p)) q = Some x"
proof -
  obtain y where y: "find (\<lambda>p. names_field ''payload'' (fst p)) q = Some y"
    using assms(3,4) find_None_iff [of "\<lambda>p. names_field ''payload'' (fst p)" q] by fastforce
  then have "y \<in> set q" "names_field ''payload'' (fst y)" by (auto simp: find_Some_iff)
  with assms(2-4) have "fst y = YString ''payload''" "fst x = YString ''payload''" by blast+
  then have "fst y = fst x" by simp
  with assms(1,3) \<open>y \<in> set q\<close> have "y = x"
    by (auto simp: dict_inv_def) (metis eq_key_imp_eq_value prod.collapse)
  with y show ?thesis by simp
qed

text \<open>
  Every proxy the sanitised document carries itself, in \<open>proxies\<close> or in the payload of a proxy
  provider, is safe to run with the service's rights: an EasyTier proxy has one \<open>state-dir\<close>, a
  hashed directory below \<open>easytier\<close> of the service directory, and at any depth a certificate or a
  private key is given inline. (SHA-256 digests have 32 bytes.)
\<close>

theorem mihomo_inline_proxies_confined:
  assumes "sanitize_mihomo_document sha256 b64 policy document = Inr (YMapping m, port)"
    and "yaml_wf document" and sha: "\<And>x. length (sha256 x) = 32"
    and v: "v \<in> set (inline_proxies m)"
  shows "easytier_pinned (service_directory policy) v \<and> credentials_inline b64 v"
proof -
  from assms(1,2) obtain m4 m' where plain: "plain_yaml (YMapping m)" and eq: "YMapping m = YMapping m'"
    and "confine_easytier_state_dirs sha256 (service_directory policy) m4 = Inr m'"
    and "reject_credential_files b64 m' = Inr ()"
    by (elim sanitize_mihomo_documentE)
  then have m5: "confine_easytier_state_dirs sha256 (service_directory policy) m4 = Inr m"
    and cred: "reject_credential_files b64 m = Inr ()" by simp_all
  from v show ?thesis
  proof (cases rule: inline_proxiesE)
    case (direct u)
    have "plain_yaml u" by (rule plain_get [OF plain direct(1)])
    then have "easytier_pinned (service_directory policy) v"
      using confine_dirs_get(1) [OF m5 direct(1)] direct(2) sha by (blast intro: confine_items_pinned)
    moreover have "credentials_inline b64 v"
    proof (cases "yas_sequence u")
      case (Some vs)
      with cred direct show ?thesis
        by (auto simp: reject_credential_files_def result_simps sequence_items_def
            intro: check_items_inline)
    qed (use direct(2) in \<open>simp add: sequence_items_def\<close>)
    ultimately show ?thesis ..
  next
    case (payload u ps k p q)
    have u: "u = YMapping ps" by (rule plain_mapping [OF plain_get [OF plain payload(1)] payload(2)])
    then have pp: "plain_yaml p" using plain_get [OF plain payload(1)] payload(3) by auto
    then have p: "p = YMapping q" by (rule plain_mapping [OF _ payload(4)])
    from confine_dirs_get(2) [OF m5 payload(1)] obtain w where
      w: "confine_providers sha256 (service_directory policy) w = Inr (YMapping ps)" unfolding u by blast
    have plain_ps: "plain_yaml (YMapping ps)" using plain_get [OF plain payload(1)] u by simp
    have "\<exists>ps0. map_result (confine_provider sha256 (service_directory policy)) ps0 = Inr ps"
    proof (cases "yas_mapping w")
      case None
      with w show ?thesis by (auto simp: confine_providers_def)
    next
      case (Some a)
      with w obtain x where x: "map_result (confine_provider sha256 (service_directory policy)) a = Inr x"
        "retag w (YMapping x) = YMapping ps" by (auto simp: confine_providers_def result_simps)
      with plain_retag [of w "YMapping x"] plain_ps have "YMapping x = YMapping ps"
        by (simp del: plain_yaml.simps)
      with x(1) show ?thesis by auto
    qed
    then obtain ps0 where "map_result (confine_provider sha256 (service_directory policy)) ps0 = Inr ps" ..
    from map_result_elem [OF this payload(3)] obtain p0 where
      "confine_provider sha256 (service_directory policy) p0 = Inr (k, YMapping q)" unfolding p by blast
    from confine_provider_pinned [OF this pp [unfolded p] payload(5) sha]
    have "easytier_pinned (service_directory policy) v" .
    moreover have "credentials_inline b64 v"
    proof -
      from providers_confined [OF assms(1,2) _ payload(1), of "''proxy''"] payload(3)
      obtain name where "provider_confined sha256 ''proxy'' (service_directory policy) name q" "dict_inv q"
        unfolding u p by auto
      then have exact: "\<forall>f\<in>fst ` set q. names_field ''payload'' f \<longrightarrow> f = YString ''payload''"
        by (simp add: provider_confined_def PROVIDER_CHECKED_FIELDS_def)
      from payload(5) obtain x where x: "x \<in> set q" "names_field ''payload'' (fst x)"
        "v \<in> set (sequence_items (snd x))" by (auto simp: payload_items_in)
      from x(3) obtain vs where vs: "yas_sequence (snd x) = Some vs" "v \<in> set vs"
        by (cases "yas_sequence (snd x)") (simp_all add: sequence_items_def)
      have "provider_payload p = Some vs"
        unfolding p using provider_payload_unique [OF \<open>dict_inv q\<close> exact x(1,2)] vs(1)
        by (simp add: provider_payload_def)
      with cred payload(1,3) u vs(2) show ?thesis
        by (fastforce simp: reject_credential_files_def result_simps intro: check_items_inline)
    qed
    ultimately show ?thesis ..
  qed
qed

section \<open>A sample generation\<close>

definition sample_policy :: mihomo_service_policy where
  "sample_policy = \<lparr>service_directory = ''/srv'', controller_port = 9, controller_secret = ''s''\<rparr>"

definition zero_sha256 :: "string \<Rightarrow> u8 list" where
  "zero_sha256 x = replicate 32 0"

definition no_base64 :: "string \<Rightarrow> string option" where
  "no_base64 x = None"

definition sample_mihomo :: yaml where
  "sample_mihomo = YMapping
     [(YString ''port'', YNumber (PosInt 7890)),
      (YString ''mixed-port'', YNumber (PosInt 1080)),
      (YString ''tun'', YMapping [(YString ''enable'', YBool False),
         (YString ''file-descriptor'', YNumber (PosInt 3))]),
      (YString ''proxies'', YSequence [YMapping
         [(YString ''Type'', YString ''easytier''), (YString ''state_dir'', YString ''/etc'')]]),
      (YString ''rule-providers'', YMapping [(YString ''r'', YMapping
         [(YString ''type'', YString ''http''), (YString ''path'', YString ''/etc/passwd'')])])]"

definition sample_mihomo_root :: yaml_map where
  "sample_mihomo_root =
     [(YString ''mixed-port'', YNumber (PosInt 1080)),
      (YString ''tun'', YMapping [(YString ''enable'', YBool False),
         (YString ''device'', YString ''MultiCore'')]),
      (YString ''proxies'', YSequence [YMapping
         [(YString ''Type'', YString ''easytier''),
          (YString ''state-dir'', YString ''/srv/easytier/0000000000000000'')]]),
      (YString ''rule-providers'', YMapping [(YString ''r'', YMapping
         [(YString ''type'', YString ''http''),
          (YString ''path'', YString ''/srv/providers/rule-0000000000000000.yaml'')])]),
      (YString ''external-controller'', YString ''127.0.0.1:9''),
      (YString ''secret'', YString ''s''), (YString ''bind-address'', YString ''127.0.0.1''),
      (YString ''allow-lan'', YBool False)]"

text \<open>The root mapping after the settings the service owns, before the providers.\<close>

definition sample_sections :: yaml_map where
  "sample_sections =
     [(YString ''mixed-port'', YNumber (PosInt 1080)),
      (YString ''tun'', YMapping [(YString ''enable'', YBool False),
         (YString ''file-descriptor'', YNumber (PosInt 3))]),
      (YString ''proxies'', YSequence [YMapping
         [(YString ''Type'', YString ''easytier''), (YString ''state_dir'', YString ''/etc'')]]),
      (YString ''rule-providers'', YMapping [(YString ''r'', YMapping
         [(YString ''type'', YString ''http''), (YString ''path'', YString ''/etc/passwd'')])]),
      (YString ''external-controller'', YString ''127.0.0.1:9''),
      (YString ''secret'', YString ''s''), (YString ''bind-address'', YString ''127.0.0.1''),
      (YString ''allow-lan'', YBool False)]"

lemma sample_eval:
  "hex_prefix (zero_sha256 x) = ''0000000000000000''" "trim ''easytier'' = ''easytier''"
  "show_nat 9 = ''9''" "show_nat 0 = ''0''"
  unfolding zero_sha256_def by code_simp+

lemma sample_sections_eval:
  "sample_mihomo = YMapping m \<Longrightarrow> shape_sections 9 ''s'' m = sample_sections"
  by (auto simp: sample_mihomo_def sample_sections_def shape_sections_def yupdate_def
      retain_named_def dict_retain_def ALLOWED_MIHOMO_KEYS_def REALITY_MLKEM_KEY_def
      REALITY_CLIENT_VERSION_KEY_def normalize_reality_policy_def reality_mlkem_def
      reality_version_def force_controller_def sample_eval)

lemmas provider_eval =
  rewrite_provider_def check_provider_field_def mihomo_field_name_def name_or_empty_def
  PROVIDER_CHECKED_FIELDS_def str_eval provider_kind_def provider_extension_def provider_file_def

lemma sample_rule_provider:
  "rewrite_provider zero_sha256 ''rule-providers'' ''rule'' ''/srv'' (YString ''r'', YMapping
     [(YString ''type'', YString ''http''), (YString ''path'', YString ''/etc/passwd'')]) =
   Inr (YString ''r'', YMapping [(YString ''type'', YString ''http''),
     (YString ''path'', YString ''/srv/providers/rule-0000000000000000.yaml'')])"
  by (simp add: provider_eval sample_eval)

lemma sample_easytier:
  "confine_easytier_state_dir zero_sha256 ''proxies'' ''/srv''
     (YMapping [(YString ''Type'', YString ''easytier''), (YString ''state_dir'', YString ''/etc'')]) =
   Inr (YMapping [(YString ''Type'', YString ''easytier''),
     (YString ''state-dir'', YString ''/srv/easytier/0000000000000000'')])"
  by (simp add: confine_easytier_state_dir_def provider_eval scan_proxy_field_def
      easytier_directory_def sample_eval dict_retain_def names_field_def del: trim_def)

lemma sample_credentials:
  "reject_credential_paths_in no_base64 (YMapping [(YString ''Type'', YString ''easytier''),
     (YString ''state-dir'', YString ''/srv/easytier/0000000000000000'')]) at = Inr ()"
  by (simp add: provider_eval check_credential_def credential_inline_def del: trim_def)

lemma sample_mihomo_sanitized:
  "sanitize_mihomo_document zero_sha256 no_base64 sample_policy sample_mihomo =
     Inr (YMapping sample_mihomo_root, Some 1080)"
  by (simp add: sanitize_mihomo_document_def sample_sections_eval Let_def sample_mihomo_def
      sample_policy_def)
    (simp add: sample_sections_def sample_mihomo_root_def shape_mixed_port_def proxy_mode_def
      staged_port_def u16_try_from_def yupdate_def shape_tun_def shape_tun_map_def pinned_tun_keys_def
      rewrite_provider_paths_def yupdate_result_def sample_rule_provider sample_easytier
      sample_credentials confine_easytier_state_dirs_def confine_items_def
      reject_credential_files_def check_items_def del: reject_credential_paths_in.simps)

lemma sample_mihomo_wf: "yaml_wf sample_mihomo"
  by (simp add: sample_mihomo_def dict_inv_def)

theorem mihomo_service_owned_witness: "service_owned sample_policy (Some 1080) sample_mihomo_root"
  using mihomo_service_owned [OF sample_mihomo_sanitized sample_mihomo_wf] by blast

theorem mihomo_providers_confined_witness:
  "provider_confined zero_sha256 ''rule'' ''/srv'' ''r'' [(YString ''type'', YString ''http''),
     (YString ''path'', YString ''/srv/providers/rule-0000000000000000.yaml'')]"
  using mihomo_providers_confined [OF sample_mihomo_sanitized sample_mihomo_wf,
      of "''rule-providers''" "''rule''"]
  by (simp add: sample_mihomo_root_def sample_policy_def)

theorem mihomo_inline_proxies_confined_witness:
  "state_dir_pinned ''/srv'' [(YString ''Type'', YString ''easytier''),
     (YString ''state-dir'', YString ''/srv/easytier/0000000000000000'')]"
  using mihomo_inline_proxies_confined [OF sample_mihomo_sanitized sample_mihomo_wf,
      of "YMapping [(YString ''Type'', YString ''easytier''),
        (YString ''state-dir'', YString ''/srv/easytier/0000000000000000'')]"]
  by (simp add: sample_mihomo_root_def sample_policy_def zero_sha256_def inline_proxies_def
      sequence_items_def easytier_pinned_def easytier_proxy_def names_field_def
      mihomo_field_name_def str_eval sample_eval del: trim_def)

end
