(* ===== verification/Dns_Guard.thy ===== *)
theory Dns_Guard
  imports Yaml_Doc Ip_Addr
begin

text \<open>
  \<open>mihomo_dns_guard.rs\<close>: the DNS safety net the runtime overlay applies to a Mihomo document. It
  fills a missing fake-ip filter, drops an IPv6 pool the TUN would not route, and keeps given
  domains out of fake-ip answers.
\<close>

definition DEFAULT_FAKE_IP_FILTER :: "string list" where
  "DEFAULT_FAKE_IP_FILTER =
     [''*.lan'', ''*.local'', ''*.localdomain'', ''*.arpa'', ''+.home.arpa'',
      ''localhost.ptlogin2.qq.com'', ''+.msftconnecttest.com'', ''+.msftncsi.com'', ''time.*.com'',
      ''time.*.gov'', ''time.*.apple.com'', ''time-ios.apple.com'', ''+.time.windows.com'',
      ''ntp.*.com'', ''+.pool.ntp.org'', ''+.stun.*.*'', ''+.stun.*.*.*'', ''+.stun.*.*.*.*'']"

definition MIHOMO_DEFAULT_INET6_ADDRESS :: string where
  "MIHOMO_DEFAULT_INET6_ADDRESS = ''fdfe:dcba:9876::1/126''"

definition is_fake_ip :: "yaml_map \<Rightarrow> bool" where
  "is_fake_ip dns \<longleftrightarrow>
     (case Option.bind (yget dns ''enhanced-mode'') yas_str of
        Some mode \<Rightarrow> eq_ignore_ascii_case (trim mode) ''fake-ip'' | None \<Rightarrow> False)"

definition filter_mode_blacklist :: "yaml_map \<Rightarrow> bool" where
  "filter_mode_blacklist dns \<longleftrightarrow>
     (case yget dns ''fake-ip-filter-mode'' of
        None \<Rightarrow> True
      | Some YNull \<Rightarrow> True
      | Some mode \<Rightarrow>
          (case yas_str mode of Some m \<Rightarrow> eq_ignore_ascii_case (trim m) ''blacklist'' | None \<Rightarrow> False))"

definition fill_fake_ip_filter :: "yaml_map \<Rightarrow> yaml_map" where
  "fill_fake_ip_filter dns =
     (if (case yget dns ''fake-ip-filter'' of Some v \<Rightarrow> \<not> yis_null v | None \<Rightarrow> False) then dns
      else if \<not> filter_mode_blacklist dns then dns
      else yinsert ''fake-ip-filter'' (YSequence (map YString DEFAULT_FAKE_IP_FILTER)) dns)"

definition somes :: "'a option list \<Rightarrow> 'a list" where
  "somes xs = map the (filter (\<lambda>x. x \<noteq> None) xs)"

definition prefixes_of :: "yaml \<Rightarrow> cidr list" where
  "prefixes_of v =
     (case v of
        YString text \<Rightarrow> (case cidr_parse text of Some p \<Rightarrow> [p] | None \<Rightarrow> [])
      | YSequence entries \<Rightarrow> somes (map cidr_parse (somes (map yas_str entries)))
      | _ \<Rightarrow> [])"

definition listed_prefixes :: "yaml_map \<Rightarrow> string list \<Rightarrow> cidr list" where
  "listed_prefixes tun names = concat (map prefixes_of (somes (map (yget tun) names)))"

definition on_link_prefixes :: "yaml_map \<Rightarrow> cidr list" where
  "on_link_prefixes tun =
     (case yget tun ''inet6-address'' of
        None \<Rightarrow> somes [cidr_parse MIHOMO_DEFAULT_INET6_ADDRESS]
      | Some YNull \<Rightarrow> somes [cidr_parse MIHOMO_DEFAULT_INET6_ADDRESS]
      | Some v \<Rightarrow> prefixes_of v)"

definition v6_pool :: "yaml_map \<Rightarrow> cidr option" where
  "v6_pool dns =
     (case Option.bind (Option.bind (yget dns ''fake-ip-range6'') yas_str) cidr_parse of
        Some pool \<Rightarrow> if cidr_is_v6 pool then Some pool else None
      | None \<Rightarrow> None)"

definition pool_unroutable :: "yaml_map \<Rightarrow> cidr \<Rightarrow> bool" where
  "pool_unroutable tun pool \<longleftrightarrow>
     (let excluded = list_ex (\<lambda>p. cidr_covers p pool)
            (listed_prefixes tun [''route-exclude-address'', ''inet6-route-exclude-address'']);
          routes = filter cidr_is_v6 (listed_prefixes tun [''route-address'', ''inet6-route-address'']);
          unrouted = routes \<noteq> [] \<and> \<not> list_ex (\<lambda>p. cidr_covers p pool) routes
      in excluded \<or> unrouted)"

definition drop_unroutable_v6_pool :: "yaml_map \<Rightarrow> yaml_map option \<Rightarrow> yaml_map" where
  "drop_unroutable_v6_pool dns tun =
     (case v6_pool dns of
        None \<Rightarrow> dns
      | Some pool \<Rightarrow>
          (let tun = (case tun of Some t \<Rightarrow> t | None \<Rightarrow> []) in
           if Option.bind (yget tun ''auto-route'') yas_bool = Some False then dns
           else if list_ex (\<lambda>p. cidr_covers p pool) (on_link_prefixes tun) then dns
           else if pool_unroutable tun pool then yremove ''fake-ip-range6'' dns
           else dns))"

definition guard_dns :: "bool \<Rightarrow> yaml_map option \<Rightarrow> yaml_map \<Rightarrow> yaml_map" where
  "guard_dns ipv6_off tun dns =
     (if \<not> is_fake_ip dns then dns
      else if ipv6_off then fill_fake_ip_filter dns
      else drop_unroutable_v6_pool (fill_fake_ip_filter dns) tun)"

text \<open>\<open>apply\<close> of the module.\<close>

definition apply_dns_guard :: "yaml_map \<Rightarrow> yaml_map" where
  "apply_dns_guard m =
     (let ipv6_off = Option.bind (yget m ''ipv6'') yas_bool = Some False;
          tun = Option.bind (yget m ''tun'') yas_mapping
      in yupdate ''dns'' (\<lambda>v.
           case yas_mapping v of
             Some dns \<Rightarrow> retag v (YMapping (guard_dns ipv6_off tun dns))
           | None \<Rightarrow> v) m)"

section \<open>Exempt domains\<close>

definition listed :: "yaml list \<Rightarrow> string \<Rightarrow> bool" where
  "listed entries wanted =
     list_ex (\<lambda>e. case yas_str e of Some s \<Rightarrow> eq_ignore_ascii_case (trim s) wanted | None \<Rightarrow> False)
       entries"

fun push_unlisted :: "string list \<Rightarrow> yaml list \<Rightarrow> yaml list" where
  "push_unlisted [] entries = entries"
| "push_unlisted (d # ds) entries =
     push_unlisted ds (if listed entries d then entries else entries @ [YString d])"

definition real_ip_rule :: "string \<Rightarrow> string" where
  "real_ip_rule domain = ''DOMAIN,'' @ domain @ '',real-ip''"

definition whitelisted_away :: "string list \<Rightarrow> yaml \<Rightarrow> bool" where
  "whitelisted_away domains e \<longleftrightarrow>
     (case yas_str e of
        Some s \<Rightarrow> list_ex (\<lambda>d. eq_ignore_ascii_case (trim s) d) domains | None \<Rightarrow> False)"

definition exempt_entries :: "string \<Rightarrow> string list \<Rightarrow> yaml list \<Rightarrow> yaml list" where
  "exempt_entries mode domains entries =
     (if mode = ''blacklist'' then push_unlisted domains entries
      else if mode = ''rule'' then
        map YString (filter (\<lambda>r. \<not> listed entries r) (map real_ip_rule domains)) @ entries
      else if mode = ''whitelist'' then filter (\<lambda>e. \<not> whitelisted_away domains e) entries
      else entries)"

definition filter_mode :: "yaml_map \<Rightarrow> string option" where
  "filter_mode dns =
     (case yget dns ''fake-ip-filter-mode'' of
        None \<Rightarrow> Some ''blacklist''
      | Some YNull \<Rightarrow> Some ''blacklist''
      | Some v \<Rightarrow> map_option (\<lambda>m. to_ascii_lowercase (trim m)) (yas_str v))"

text \<open>\<open>entry(..).or_insert(Value::Null)\<close>, then an empty list for a null one.\<close>

definition filter_entry :: "yaml_map \<Rightarrow> yaml" where
  "filter_entry dns =
     (case yget dns ''fake-ip-filter'' of
        Some v \<Rightarrow> if yis_null v then YSequence [] else v
      | None \<Rightarrow> YSequence [])"

definition exempt_from_fake_ip :: "string list \<Rightarrow> yaml_map \<Rightarrow> yaml_map" where
  "exempt_from_fake_ip domains dns =
     (if \<not> is_fake_ip dns \<or> domains = [] then dns
      else case filter_mode dns of
        None \<Rightarrow> dns
      | Some mode \<Rightarrow>
          (let entry = filter_entry dns in
           yinsert ''fake-ip-filter''
             (case yas_sequence entry of
                Some entries \<Rightarrow> retag entry (YSequence (exempt_entries mode domains entries))
              | None \<Rightarrow> entry) dns))"

section \<open>What the safety net changes\<close>

lemma set_somes: "x \<in> set (somes xs) \<longleftrightarrow> Some x \<in> set xs"
  by (force simp: somes_def)

lemma prefixes_of_wf: "p \<in> set (prefixes_of v) \<Longrightarrow> cidr_wf p"
  by (auto simp: prefixes_of_def set_somes dest: cidr_parse_wf cidr_parse_wf [OF sym]
      split: yaml.splits option.splits)

lemma listed_prefixes_wf: "p \<in> set (listed_prefixes tun names) \<Longrightarrow> cidr_wf p"
  by (auto simp: listed_prefixes_def dest: prefixes_of_wf)

lemma on_link_wf: "p \<in> set (on_link_prefixes tun) \<Longrightarrow> cidr_wf p"
  by (auto simp: on_link_prefixes_def set_somes dest: prefixes_of_wf cidr_parse_wf [OF sym]
      split: option.splits yaml.splits)

lemma v6_pool_wf: "v6_pool dns = Some pool \<Longrightarrow> cidr_wf pool \<and> cidr_is_v6 pool"
  by (auto simp: v6_pool_def bind_eq_Some_conv dest: cidr_parse_wf split: option.splits if_splits)

text \<open>The address-level meaning of \<open>covers\<close> on parsed prefixes.\<close>

definition addresses :: "cidr \<Rightarrow> ip_addr set" where
  "addresses p = {a. in_cidr a p}"

lemma covers_addresses:
  "cidr_wf p \<Longrightarrow> cidr_wf q \<Longrightarrow> cidr_covers p q \<longleftrightarrow> addresses q \<subseteq> addresses p"
  by (auto simp: addresses_def cidr_covers_subset)

text \<open>When the TUN carries the pool: on-link, or neither excluded nor left out of a route list.\<close>

definition tun_carries :: "yaml_map \<Rightarrow> cidr \<Rightarrow> bool" where
  "tun_carries tun pool \<longleftrightarrow>
     (\<exists>p\<in>set (on_link_prefixes tun). addresses pool \<subseteq> addresses p)
     \<or> (\<forall>p\<in>set (listed_prefixes tun [''route-exclude-address'', ''inet6-route-exclude-address'']).
          \<not> addresses pool \<subseteq> addresses p)
       \<and> (let routes = filter cidr_is_v6 (listed_prefixes tun [''route-address'', ''inet6-route-address''])
          in routes = [] \<or> (\<exists>p\<in>set routes. addresses pool \<subseteq> addresses p))"

lemma tun_carries_iff:
  assumes "cidr_wf pool"
  shows "tun_carries tun pool \<longleftrightarrow>
     list_ex (\<lambda>p. cidr_covers p pool) (on_link_prefixes tun) \<or> \<not> pool_unroutable tun pool"
  using assms on_link_wf [of _ tun] listed_prefixes_wf [of _ tun]
  by (auto simp: tun_carries_def pool_unroutable_def Let_def list_ex_iff covers_addresses)

lemma get_fill_other:
  "k \<noteq> ''fake-ip-filter'' \<Longrightarrow> yget (fill_fake_ip_filter dns) k = yget dns k"
  by (simp add: fill_fake_ip_filter_def get_idx_insert)

lemma inv_fill: "dict_inv dns \<Longrightarrow> dict_inv (fill_fake_ip_filter dns)"
  by (simp add: fill_fake_ip_filter_def inv_idx_insert)

lemma v6_pool_fill [simp]: "v6_pool (fill_fake_ip_filter dns) = v6_pool dns"
  by (simp add: v6_pool_def get_fill_other)

definition fills_filter :: "yaml_map \<Rightarrow> bool" where
  "fills_filter dns \<longleftrightarrow>
     (case yget dns ''fake-ip-filter'' of Some v \<Rightarrow> yis_null v | None \<Rightarrow> True) \<and> filter_mode_blacklist dns"

definition drops_pool :: "yaml_map option \<Rightarrow> yaml_map \<Rightarrow> bool" where
  "drops_pool tun dns \<longleftrightarrow>
     (let tun = (case tun of Some t \<Rightarrow> t | None \<Rightarrow> [])
      in \<exists>pool. v6_pool dns = Some pool
           \<and> Option.bind (yget tun ''auto-route'') yas_bool \<noteq> Some False \<and> \<not> tun_carries tun pool)"

lemma get_fill:
  "yget (fill_fake_ip_filter dns) k =
     (if k = ''fake-ip-filter'' \<and> fills_filter dns
      then Some (YSequence (map YString DEFAULT_FAKE_IP_FILTER)) else yget dns k)"
  by (auto simp: fill_fake_ip_filter_def fills_filter_def get_idx_insert split: option.split)

lemma get_drop:
  assumes "dict_inv dns"
  shows "yget (drop_unroutable_v6_pool dns tun) k =
     (if k = ''fake-ip-range6'' \<and> drops_pool tun dns then None else yget dns k)"
proof (cases "v6_pool dns")
  case None
  then show ?thesis by (simp add: drop_unroutable_v6_pool_def drops_pool_def)
next
  case (Some pool)
  with v6_pool_wf have "cidr_wf pool" by blast
  with Some assms show ?thesis
    by (simp add: drop_unroutable_v6_pool_def drops_pool_def Let_def tun_carries_iff get_swap_remove)
qed

lemma drops_pool_fill [simp]: "drops_pool tun (fill_fake_ip_filter dns) = drops_pool tun dns"
  by (simp add: drops_pool_def)

text \<open>
  C15. The safety net touches nothing but two fields of a fake-ip DNS section. In that section the
  filter is filled exactly when the provider left it out and the mode is a blacklist; the IPv6 pool
  is removed exactly when IPv6 is on, Mihomo manages the routes, and the TUN does not carry the
  pool, judged on the sets of addresses the prefixes stand for; every other entry of the section
  is as the provider wrote it.
\<close>

theorem dns_guard_exact:
  assumes "dict_inv dns"
  shows "yget (guard_dns ipv6_off tun dns) k =
     (if \<not> is_fake_ip dns then yget dns k
      else if k = ''fake-ip-filter'' \<and> fills_filter dns
      then Some (YSequence (map YString DEFAULT_FAKE_IP_FILTER))
      else if k = ''fake-ip-range6'' \<and> \<not> ipv6_off \<and> drops_pool tun dns then None
      else yget dns k)"
  by (simp add: guard_dns_def get_fill get_drop [OF inv_fill [OF assms]])

text \<open>A ULA pool under the common exclusion of all ULA addresses.\<close>

definition sample_dns :: yaml_map where
  "sample_dns = [(YString ''enhanced-mode'', YString ''fake-ip''),
     (YString ''fake-ip-range6'', YString ''fd00::/8'')]"

definition sample_tun :: yaml_map where
  "sample_tun = [(YString ''inet6-address'', YString ''::1/128''),
     (YString ''route-exclude-address'', YString ''fc00::/7'')]"

lemma sample_trims:
  "trim ''fake-ip'' = ''fake-ip''" "trim ''fd00::/8'' = ''fd00::/8''" "trim ''fd00::'' = ''fd00::''"
  "trim ''8'' = ''8''" "trim ''fc00::/7'' = ''fc00::/7''" "trim ''fc00::'' = ''fc00::''"
  "trim ''7'' = ''7''" "trim ''::1/128'' = ''::1/128''" "trim ''::1'' = ''::1''" "trim ''128'' = ''128''"
  by code_simp+

lemma sample_dns_eval:
  "cidr_parse ''fd00::/8'' = Some \<lparr>address = V6 0xfd000000000000000000000000000000, prefix_len = 8\<rparr>"
  "cidr_parse ''fc00::/7'' = Some \<lparr>address = V6 0xfc000000000000000000000000000000, prefix_len = 7\<rparr>"
  "cidr_parse ''::1/128'' = Some \<lparr>address = V6 1, prefix_len = 128\<rparr>"
  by (simp_all add: ip_eval sample_trims)

lemma sample_drops: "drops_pool (Some sample_tun) sample_dns"
proof -
  let ?pool = "\<lparr>address = V6 0xfd000000000000000000000000000000, prefix_len = 8\<rparr>"
  have pool: "v6_pool sample_dns = Some ?pool"
    by (simp add: v6_pool_def sample_dns_def sample_dns_eval cidr_is_v6_def)
  have "\<not> tun_carries sample_tun ?pool"
    using v6_pool_wf [OF pool]
    by (simp add: tun_carries_iff on_link_prefixes_def pool_unroutable_def listed_prefixes_def
        prefixes_of_def sample_tun_def somes_def sample_dns_eval cidr_covers_def all_ones_shl_def
        Let_def mask_eq_exp_minus_1)
  with pool show ?thesis by (simp add: drops_pool_def sample_tun_def)
qed

theorem dns_guard_exact_witness:
  "yget (guard_dns False (Some sample_tun) sample_dns) ''fake-ip-range6'' = None"
  using dns_guard_exact [of sample_dns False "Some sample_tun" "''fake-ip-range6''"] sample_drops
  by (simp add: sample_dns_def dict_inv_def is_fake_ip_def str_eval sample_trims del: trim_def)

text \<open>
  \<open>apply\<close> leaves every root key but \<open>dns\<close> alone, and a document whose DNS section is not in
  fake-ip mode is left as it is.
\<close>

theorem dns_guard_root:
  "yget (apply_dns_guard m) k =
     (if k = ''dns'' then
        map_option (\<lambda>v. case yas_mapping v of
            Some dns \<Rightarrow> if is_fake_ip dns
              then retag v (YMapping (guard_dns (Option.bind (yget m ''ipv6'') yas_bool = Some False)
                     (Option.bind (yget m ''tun'') yas_mapping) dns))
              else v
          | None \<Rightarrow> v) (yget m ''dns'')
      else yget m k)"
proof -
  have keep: "retag v (YMapping (guard_dns off tun d)) = v" if "yas_mapping v = Some d" "\<not> is_fake_ip d"
    for v d off tun
    using that by (induction v) (auto simp: guard_dns_def yas_mapping_def)
  show ?thesis
    by (cases "yget m ''dns''")
      (auto simp: apply_dns_guard_def Let_def get_yupdate keep split: option.split)
qed

section \<open>Exempt domains end up exempt\<close>

lemma listed_append: "listed (xs @ ys) d \<longleftrightarrow> listed xs d \<or> listed ys d"
  by (simp add: listed_def)

lemma push_unlisted_keeps: "listed entries x \<Longrightarrow> listed (push_unlisted ds entries) x"
  by (induction ds entries rule: push_unlisted.induct) (auto simp: listed_append)

lemma push_unlisted_prefix: "\<exists>new. push_unlisted ds entries = entries @ map YString new \<and> set new \<subseteq> set ds"
proof (induction ds entries rule: push_unlisted.induct)
  case (2 d ds entries)
  then obtain new where new: "push_unlisted ds (if listed entries d then entries else entries @ [YString d])
      = (if listed entries d then entries else entries @ [YString d]) @ map YString new" "set new \<subseteq> set ds"
    by blast
  show ?case
  proof (cases "listed entries d")
    case True
    with new show ?thesis by auto
  next
    case False
    with new have "push_unlisted (d # ds) entries = entries @ map YString (d # new)" by simp
    with new(2) show ?thesis by (intro exI [of _ "d # new"]) auto
  qed
qed simp

lemma push_unlisted_lists:
  "(\<And>d. d \<in> set ds \<Longrightarrow> trim d = d) \<Longrightarrow> d \<in> set ds \<Longrightarrow> listed (push_unlisted ds entries) d"
proof (induction ds entries rule: push_unlisted.induct)
  case (2 c ds entries)
  have "listed (if listed entries c then entries else entries @ [YString c]) c"
    using 2(2) [of c] by (auto simp: listed_def eq_ignore_ascii_case_def)
  with 2 push_unlisted_keeps show ?case by auto
qed simp

text \<open>
  In blacklist mode every exempt domain is in the filter afterwards, nothing of the
  provider's filter is lost or reordered, and doing it again changes nothing; in whitelist mode no
  entry names an exempt domain and every other entry stays.
\<close>

theorem exempt_domains_listed:
  assumes "\<And>d. d \<in> set domains \<Longrightarrow> trim d = d"
  shows "(\<forall>d\<in>set domains. listed (exempt_entries ''blacklist'' domains entries) d)
    \<and> (\<exists>new. exempt_entries ''blacklist'' domains entries = entries @ map YString new \<and> set new \<subseteq> set domains)
    \<and> exempt_entries ''blacklist'' domains (exempt_entries ''blacklist'' domains entries) =
        exempt_entries ''blacklist'' domains entries
    \<and> (\<forall>d\<in>set domains. \<not> listed (exempt_entries ''whitelist'' domains entries) d)
    \<and> (\<forall>e\<in>set entries. whitelisted_away domains e \<or> e \<in> set (exempt_entries ''whitelist'' domains entries))"
proof -
  have idem: "push_unlisted ds es = es" if "\<forall>d\<in>set ds. listed es d" for ds es
    using that by (induction ds es rule: push_unlisted.induct) auto
  have all: "\<forall>d\<in>set domains. listed (push_unlisted domains entries) d"
    using push_unlisted_lists assms by blast
  have white: "\<forall>d\<in>set domains. \<not> listed (filter (\<lambda>e. \<not> whitelisted_away domains e) entries) d"
    by (auto simp: listed_def whitelisted_away_def list_ex_iff split: option.splits)
  show ?thesis
    using all idem [OF all] push_unlisted_prefix [of domains entries] white
    by (auto simp: exempt_entries_def)
qed

theorem exempt_domains_listed_witness:
  "listed (exempt_entries ''blacklist'' [''a.b''] [YString ''*.lan'']) ''a.b''"
proof -
  have "trim ''a.b'' = ''a.b''" by code_simp
  then show ?thesis using exempt_domains_listed [of "[''a.b'']" "[YString ''*.lan'']"] by simp
qed

end
