(* ===== verification/Troubleshoot.thy ===== *)
theory Troubleshoot
  imports Yaml_Doc "HOL-Library.Multiset"
begin

unbundle bit_operations_syntax

text \<open>
  \<open>troubleshoot.rs\<close>: the fixed set of privileged fixes, the tokens that name them on a command
  line, the rules for a batch, the order it runs in, and the exit code by which the elevated
  helper reports one outcome per fix.
\<close>

section \<open>Fixes and their tokens\<close>

definition MAX_PRIVILEGED_FIXES :: nat where
  "MAX_PRIVILEGED_FIXES = 8"

datatype dpi_service = WinDivert | WinDivert14 | Zapret | GoodbyeDpi

definition dpi_all :: "dpi_service list" where
  "dpi_all = [WinDivert, WinDivert14, Zapret, GoodbyeDpi]"

fun dpi_service_name :: "dpi_service \<Rightarrow> string" where
  "dpi_service_name WinDivert = ''WinDivert''"
| "dpi_service_name WinDivert14 = ''WinDivert14''"
| "dpi_service_name Zapret = ''zapret''"
| "dpi_service_name GoodbyeDpi = ''GoodbyeDPI''"

fun dpi_token :: "dpi_service \<Rightarrow> string" where
  "dpi_token WinDivert = ''windivert''"
| "dpi_token WinDivert14 = ''windivert14''"
| "dpi_token Zapret = ''zapret''"
| "dpi_token GoodbyeDpi = ''goodbyedpi''"

definition dpi_from_token :: "string \<Rightarrow> dpi_service option" where
  "dpi_from_token t = find (\<lambda>s. dpi_token s = t) dpi_all"

datatype privileged_fix =
    WinsockReset
  | WinhttpResetProxy
  | ResyncTime
  | RemoveDpiService dpi_service
  | ReinstallWintun
  | ReinstallService

fun fix_token :: "privileged_fix \<Rightarrow> string" where
  "fix_token WinsockReset = ''winsock-reset''"
| "fix_token WinhttpResetProxy = ''winhttp-reset-proxy''"
| "fix_token ResyncTime = ''resync-time''"
| "fix_token (RemoveDpiService s) = ''remove-dpi-service:'' @ dpi_token s"
| "fix_token ReinstallWintun = ''reinstall-wintun''"
| "fix_token ReinstallService = ''reinstall-service''"

definition parse_token :: "string \<Rightarrow> privileged_fix option" where
  "parse_token t =
     (if t = ''winsock-reset'' then Some WinsockReset
      else if t = ''winhttp-reset-proxy'' then Some WinhttpResetProxy
      else if t = ''resync-time'' then Some ResyncTime
      else if t = ''reinstall-wintun'' then Some ReinstallWintun
      else if t = ''reinstall-service'' then Some ReinstallService
      else map_option RemoveDpiService
             (Option.bind (strip_prefix ''remove-dpi-service:'' t) dpi_from_token))"

fun fix_rank :: "privileged_fix \<Rightarrow> nat" where
  "fix_rank (RemoveDpiService s) = (if s = Zapret \<or> s = GoodbyeDpi then 0 else 1)"
| "fix_rank WinhttpResetProxy = 2"
| "fix_rank ResyncTime = 3"
| "fix_rank ReinstallWintun = 4"
| "fix_rank ReinstallService = 5"
| "fix_rank WinsockReset = 6"

definition service_may_run :: "privileged_fix \<Rightarrow> bool" where
  "service_may_run f \<longleftrightarrow> f \<noteq> ReinstallService"

section \<open>Batches\<close>

datatype fix_batch_error = EmptyBatch | TooMany | Duplicate | NotForService | ServiceReinstallNotAlone

definition validate_fix_batch :: "privileged_fix list \<Rightarrow> bool \<Rightarrow> fix_batch_error + unit" where
  "validate_fix_batch fixes for_service =
     (if fixes = [] then Inl EmptyBatch
      else if length fixes > MAX_PRIVILEGED_FIXES then Inl TooMany
      else if card (set fixes) \<noteq> length fixes then Inl Duplicate
      else if ReinstallService \<in> set fixes then
        (if for_service then Inl NotForService
         else if length fixes \<noteq> 1 then Inl ServiceReinstallNotAlone
         else Inr ())
      else Inr ())"

definition execution_order :: "privileged_fix list \<Rightarrow> nat list" where
  "execution_order fixes = sort_key (\<lambda>i. fix_rank (fixes ! i)) [0..<length fixes]"

section \<open>Outcomes and the helper's exit code\<close>

datatype fix_outcome = Done | NothingToDo | Failed

definition HELPER_EXIT_MARKER :: u32 where
  "HELPER_EXIT_MARKER = 0x4D430000"

fun outcome_bits :: "fix_outcome \<Rightarrow> u32" where
  "outcome_bits Done = 1"
| "outcome_bits NothingToDo = 2"
| "outcome_bits Failed = 3"

definition encode_helper_exit :: "fix_outcome list \<Rightarrow> u32" where
  "encode_helper_exit outcomes =
     fold (\<lambda>(index, outcome) code. code OR push_bit (index * 2) (outcome_bits outcome))
       (enumerate 0 (take MAX_PRIVILEGED_FIXES outcomes)) HELPER_EXIT_MARKER"

definition bits_outcome :: "u32 \<Rightarrow> fix_outcome option" where
  "bits_outcome b =
     (if b = 1 then Some Done else if b = 2 then Some NothingToDo
      else if b = 3 then Some Failed else None)"

fun collect_options :: "'a option list \<Rightarrow> 'a list option" where
  "collect_options [] = Some []"
| "collect_options (x # xs) =
     (case x of
        None \<Rightarrow> None
      | Some y \<Rightarrow> map_option (\<lambda>ys. y # ys) (collect_options xs))"

definition decode_helper_exit :: "u32 \<Rightarrow> nat \<Rightarrow> fix_outcome list option" where
  "decode_helper_exit code n =
     (if code AND 0xFFFF0000 \<noteq> HELPER_EXIT_MARKER \<or> n = 0 \<or> n > MAX_PRIVILEGED_FIXES then None
      else if n < MAX_PRIVILEGED_FIXES \<and> drop_bit (n * 2) (code AND 0xFFFF) \<noteq> 0 then None
      else collect_options
             (map (\<lambda>index. bits_outcome (drop_bit (index * 2) code AND 3)) [0..<n]))"

section \<open>The helper's command line\<close>

definition HELPER_FLAG :: string where
  "HELPER_FLAG = ''--troubleshoot''"

definition parse_helper_arguments :: "string list \<Rightarrow> privileged_fix list option" where
  "parse_helper_arguments arguments =
     (case arguments of
        [] \<Rightarrow> None
      | flag # tokens \<Rightarrow>
          if flag \<noteq> HELPER_FLAG then None
          else Option.bind (collect_options (map parse_token tokens)) (\<lambda>fixes.
                 if is_ok (validate_fix_batch fixes False) then Some fixes else None))"

definition helper_arguments :: "privileged_fix list \<Rightarrow> string list" where
  "helper_arguments fixes = HELPER_FLAG # map fix_token fixes"

datatype fix_id = DeleteDrover | Privileged privileged_fix

fun fix_id_text :: "fix_id \<Rightarrow> string" where
  "fix_id_text DeleteDrover = ''delete-drover''"
| "fix_id_text (Privileged f) = fix_token f"

definition fix_id_parse :: "string \<Rightarrow> fix_id option" where
  "fix_id_parse text =
     (if text = ''delete-drover'' then Some DeleteDrover
      else map_option Privileged (parse_token text))"

section \<open>Checks and ports\<close>

datatype check_step =
  Antivirus | Dpi | Ports | Proxy | Vpn | Discord | Hosts | Policies | Time | Network

definition check_all :: "check_step list" where
  "check_all = [Antivirus, Dpi, Ports, Proxy, Vpn, Discord, Hosts, Policies, Time, Network]"

definition for_platform :: "bool \<Rightarrow> check_step list" where
  "for_platform windows = filter (\<lambda>step. windows \<or> step \<in> {Proxy, Hosts, Time}) check_all"

text \<open>\<open>ListenPort\<close> with its derived lexicographic order; a \<open>BTreeSet\<close> as a sorted list.\<close>

type_synonym listen_port = "u16 \<times> bool \<times> bool"

definition port_le :: "listen_port \<Rightarrow> listen_port \<Rightarrow> bool" where
  "port_le a b \<longleftrightarrow>
     fst a < fst b \<or> fst a = fst b \<and> (fst (snd a) < fst (snd b)
       \<or> fst (snd a) = fst (snd b) \<and> snd (snd a) \<le> snd (snd b))"

fun port_insert :: "listen_port \<Rightarrow> listen_port list \<Rightarrow> listen_port list" where
  "port_insert p [] = [p]"
| "port_insert p (q # qs) =
     (if p = q then q # qs else if port_le p q then p # q # qs else q # port_insert p qs)"

definition port_of :: "yaml \<Rightarrow> u16 option" where
  "port_of v =
     (case Option.bind (yas_u64 v) u16_try_from of
        Some p \<Rightarrow> if p \<noteq> 0 then Some p else None | None \<Rightarrow> None)"

text \<open>\<open>Value::get\<close> with a string index: a mapping's entry, looking through tags.\<close>

definition value_get :: "yaml \<Rightarrow> string \<Rightarrow> yaml option" where
  "value_get v name = Option.bind (yas_mapping v) (\<lambda>m. yget m name)"

definition rsplit_after :: "char \<Rightarrow> string \<Rightarrow> string option" where
  "rsplit_after d s = (if d \<in> set s then Some (after_last d s) else None)"

definition dns_listen_port :: "yaml \<Rightarrow> u16 option" where
  "dns_listen_port document =
     (case Option.bind (Option.bind (Option.bind (Option.bind (Option.bind
             (value_get document ''dns'') (\<lambda>dns. value_get dns ''listen'')) yas_str)
             (rsplit_after CHR '':'')) parse_u16) Some of
        Some p \<Rightarrow> if p \<noteq> 0 then Some p else None | None \<Rightarrow> None)"

definition inbound_port_keys :: "string list" where
  "inbound_port_keys = [''port'', ''socks-port'', ''mixed-port'', ''redir-port'', ''tproxy-port'']"

definition listen_ports :: "yaml \<Rightarrow> u16 list \<Rightarrow> listen_port list" where
  "listen_ports document bridges =
     (let ports = fold (\<lambda>p. port_insert (p, False, False)) (filter (\<lambda>p. p \<noteq> 0) bridges) [];
          ports = fold (\<lambda>key ports.
                    case Option.bind (value_get document key) port_of of
                      Some p \<Rightarrow> port_insert (p, False, True) ports | None \<Rightarrow> ports)
                    inbound_port_keys ports
      in case dns_listen_port document of
           Some p \<Rightarrow> port_insert (p, True, True) ports | None \<Rightarrow> ports)"

section \<open>Tokens and batches\<close>

lemma dpi_from_token: "dpi_from_token (dpi_token s) = Some s"
  by (cases s) (simp_all add: dpi_from_token_def dpi_all_def)

lemma strip_prefix_append [simp]: "strip_prefix p (p @ s) = Some s"
  by (induction p) auto

lemma parse_token_fix: "parse_token (fix_token f) = Some f"
  by (cases f) (simp_all add: parse_token_def dpi_from_token)

lemma collect_options_map: "(\<And>x. x \<in> set xs \<Longrightarrow> f (g x) = Some x) \<Longrightarrow> collect_options (map (f \<circ> g) xs) = Some xs"
  by (induction xs) auto

lemma validate_fix_batch_Inr:
  "validate_fix_batch fixes for_service = Inr () \<longleftrightarrow>
     fixes \<noteq> [] \<and> length fixes \<le> 8 \<and> distinct fixes
     \<and> (ReinstallService \<in> set fixes \<longrightarrow> \<not> for_service \<and> fixes = [ReinstallService])"
  by (auto simp: validate_fix_batch_def MAX_PRIVILEGED_FIXES_def card_distinct distinct_card
      length_Suc_conv)

text \<open>
  The elevated helper runs exactly the batch it was started for: parsing the arguments built
  for a list of fixes gives the list back just when the batch is valid (not empty, at most eight
  distinct fixes, a service reinstall only on its own) and is refused otherwise; and every fix
  identifier survives being written and parsed.
\<close>

theorem helper_arguments_roundtrip:
  "parse_helper_arguments (helper_arguments fixes) =
     (if fixes \<noteq> [] \<and> length fixes \<le> 8 \<and> distinct fixes
         \<and> (if ReinstallService \<in> set fixes then fixes = [ReinstallService] else True)
      then Some fixes else None)
   \<and> fix_id_parse (fix_id_text f) = Some f"
proof -
  have "collect_options (map parse_token (map fix_token fixes)) = Some fixes"
    using collect_options_map [of "fixes" parse_token fix_token] by (simp add: parse_token_fix)
  moreover have "is_ok (validate_fix_batch fixes False) \<longleftrightarrow> validate_fix_batch fixes False = Inr ()"
    by (cases "validate_fix_batch fixes False") (auto simp: is_ok_def)
  moreover have "fix_token g \<noteq> ''delete-drover''" for g by (cases g) auto
  then have "fix_id_parse (fix_id_text f) = Some f"
    by (cases f) (auto simp: fix_id_parse_def parse_token_fix)
  ultimately show ?thesis
    by (simp add: parse_helper_arguments_def helper_arguments_def validate_fix_batch_Inr)
qed

text \<open>\<open>sort_by_key\<close> is stable: within a key, the given order stays.\<close>

lemma insort_key_stable:
  "sorted_wrt (\<lambda>x y. f x < f y \<or> f x = f y \<and> R x y) ys \<Longrightarrow> \<forall>y\<in>set ys. R x y \<Longrightarrow>
     sorted_wrt (\<lambda>x y. f x < f y \<or> f x = f y \<and> R x y) (insort_key f x ys)"
proof (induction ys)
  case (Cons y ys)
  show ?case
  proof (cases "f x \<le> f y")
    case True
    with Cons.prems show ?thesis by fastforce
  next
    case False
    with Cons show ?thesis by (auto simp: set_insort_key)
  qed
qed simp

lemma sort_key_stable_order:
  "sorted_wrt R xs \<Longrightarrow> sorted_wrt (\<lambda>x y. f x < f y \<or> f x = f y \<and> R x y) (sort_key f xs)"
  by (induction xs) (auto intro: insort_key_stable)

text \<open>
  The execution order visits every requested fix exactly once, by rank and, within a rank, in
  the order of the request: the DPI programs go before the drivers they hold, and a Winsock reset,
  which wants a reboot, comes last.
\<close>

theorem execution_order_ranked:
  "mset (execution_order fixes) = mset [0..<length fixes]
   \<and> sorted_wrt (\<lambda>i j. fix_rank (fixes ! i) < fix_rank (fixes ! j)
        \<or> fix_rank (fixes ! i) = fix_rank (fixes ! j) \<and> i < j) (execution_order fixes)"
proof -
  have "sorted_wrt (<) [0..<length fixes]" by simp
  from sort_key_stable_order [OF this, of "\<lambda>i. fix_rank (fixes ! i)"] show ?thesis
    by (simp add: execution_order_def)
qed

section \<open>The exit code is a faithful encoding\<close>

fun pack :: "fix_outcome list \<Rightarrow> u32" where
  "pack [] = 0"
| "pack (x # xs) = outcome_bits x OR push_bit 2 (pack xs)"

lemma outcome_bits_low: "bit (outcome_bits x) j \<Longrightarrow> j < 2"
  by (cases x) (auto simp: bit_numeral_rec bit_1_iff split: nat.splits)

lemma bit_pack:
  "bit (pack xs) j \<longleftrightarrow> j < 32 \<and> j div 2 < length xs \<and> bit (outcome_bits (xs ! (j div 2))) (j mod 2)"
proof (induction xs arbitrary: j)
  case (Cons x xs)
  show ?case
  proof (cases "j < 2")
    case True
    then show ?thesis by (auto simp: bit_or_iff bit_push_bit_iff)
  next
    case False
    then have "j div 2 = Suc ((j - 2) div 2)" "(j - 2) mod 2 = j mod 2"
      by presburger+
    with False outcome_bits_low [of x j] Cons.IH [of "j - 2"] show ?thesis
      by (auto simp: bit_or_iff bit_push_bit_iff)
  qed
qed simp

lemma fold_pack:
  "fold (\<lambda>(i, x) code. code OR push_bit (i * 2) (outcome_bits x)) (enumerate k xs) code =
     code OR push_bit (k * 2) (pack xs)"
proof (induction xs arbitrary: k code)
  case (Cons x xs)
  have "push_bit (k * 2) (outcome_bits x OR push_bit 2 (pack xs)) =
      push_bit (k * 2) (outcome_bits x) OR push_bit (Suc k * 2) (pack xs)"
    by (simp add: push_bit_or push_bit_push_bit add.commute)
  with Cons show ?case by (simp add: or.assoc)
qed simp

lemma encode_pack: "length xs \<le> 8 \<Longrightarrow> encode_helper_exit xs = HELPER_EXIT_MARKER OR pack xs"
  by (simp add: encode_helper_exit_def MAX_PRIVILEGED_FIXES_def fold_pack)

lemma marker_high: "HELPER_EXIT_MARKER = push_bit 16 0x4D43"
  by (simp add: HELPER_EXIT_MARKER_def)

lemma bit_marker_low: "bit HELPER_EXIT_MARKER j \<Longrightarrow> 16 \<le> j"
  unfolding marker_high bit_push_bit_iff by simp

lemma high_mask: "(0xFFFF0000 :: u32) = NOT (mask 16)" and low_mask: "(0xFFFF :: u32) = mask 16"
  and pair_mask: "(3 :: u32) = mask 2"
  by (simp_all add: mask_eq_exp_minus_1)

lemma bits_outcome_Some: "bits_outcome b = Some x \<longleftrightarrow> b = outcome_bits x"
  by (cases x) (auto simp: bits_outcome_def)

lemma collect_options_Some:
  "collect_options ys = Some xs \<longleftrightarrow> length xs = length ys \<and> (\<forall>i<length ys. ys ! i = Some (xs ! i))"
proof (induction ys arbitrary: xs)
  case (Cons y ys)
  then show ?case
    by (cases xs) (auto simp: less_Suc_eq_0_disj map_option_eq_Some split: option.split)
qed auto

lemma word_eq_bits: "(v :: 'a::len word) = w \<longleftrightarrow> (\<forall>j. bit v j = bit w j)"
  by (auto intro: bit_word_eqI)

lemma pair_bits:
  "drop_bit (i * 2) code AND 3 = (v :: u32) \<longleftrightarrow>
     (\<forall>j<2. bit code (2 * i + j) = bit v j) \<and> (\<forall>j\<ge>2. \<not> bit v j)"
proof -
  have "bit (drop_bit (i * 2) code AND 3) j \<longleftrightarrow> j < 2 \<and> bit code (2 * i + j)" for j
    unfolding pair_mask by (auto simp: bit_and_iff bit_drop_bit_eq bit_mask_iff mult.commute)
  then show ?thesis unfolding word_eq_bits by (meson linorder_not_less)
qed

text \<open>The decoder's conditions, bit by bit.\<close>

lemma decode_helper_exit_bits:
  "decode_helper_exit code n = Some xs \<longleftrightarrow>
     0 < n \<and> n \<le> 8 \<and> length xs = n
     \<and> (\<forall>j. 16 \<le> j \<longrightarrow> bit code j = bit HELPER_EXIT_MARKER j)
     \<and> (\<forall>j<16. n \<le> j div 2 \<longrightarrow> \<not> bit code j)
     \<and> (\<forall>i<n. drop_bit (i * 2) code AND 3 = outcome_bits (xs ! i))"
proof -
  have marker: "code AND 0xFFFF0000 = HELPER_EXIT_MARKER \<longleftrightarrow>
      (\<forall>j. 16 \<le> j \<longrightarrow> bit code j = bit HELPER_EXIT_MARKER j)"
  proof -
    have "bit (code AND 0xFFFF0000) j \<longleftrightarrow> 16 \<le> j \<and> bit code j" for j
      unfolding high_mask
      by (auto simp: bit_and_iff bit_not_iff bit_mask_iff dest: bit_imp_le_length)
    with bit_marker_low show ?thesis unfolding word_eq_bits by blast
  qed
  have rest: "drop_bit (n * 2) (code AND 0xFFFF) = 0 \<longleftrightarrow> (\<forall>j<16. n \<le> j div 2 \<longrightarrow> \<not> bit code j)"
  proof -
    have bits: "bit (drop_bit (n * 2) (code AND mask 16)) k \<longleftrightarrow> n * 2 + k < 16 \<and> bit code (n * 2 + k)"
      for k by (auto simp: bit_and_iff bit_drop_bit_eq bit_mask_iff)
    have "drop_bit (n * 2) (code AND 0xFFFF) = 0 \<longleftrightarrow> (\<forall>k. n * 2 + k < 16 \<longrightarrow> \<not> bit code (n * 2 + k))"
      unfolding low_mask word_eq_bits bits by simp
    also have "\<dots> \<longleftrightarrow> (\<forall>j<16. n \<le> j div 2 \<longrightarrow> \<not> bit code j)"
    proof
      assume all: "\<forall>k. n * 2 + k < 16 \<longrightarrow> \<not> bit code (n * 2 + k)"
      show "\<forall>j<16. n \<le> j div 2 \<longrightarrow> \<not> bit code j"
      proof (intro allI impI)
        fix j :: nat assume "j < 16" "n \<le> j div 2"
        then have "j = n * 2 + (j - n * 2)" by linarith
        with all \<open>j < 16\<close> show "\<not> bit code j" by metis
      qed
    qed auto
    finally show ?thesis .
  qed
  have full: "\<forall>j<16. n \<le> j div 2 \<longrightarrow> \<not> bit code j" if "n = 8" using that by auto
  show ?thesis
    unfolding decode_helper_exit_def MAX_PRIVILEGED_FIXES_def marker rest
    using full by (auto simp: collect_options_Some bits_outcome_Some)
qed

text \<open>
  The helper's exit code carries its outcomes exactly: decoding an encoded batch gives it
  back, and the only code that decodes to a batch is its encoding, so a foreign exit code or a
  wrong count is never read as a report.
\<close>

theorem helper_exit_exact:
  "decode_helper_exit code n = Some outcomes \<longleftrightarrow>
     n = length outcomes \<and> outcomes \<noteq> [] \<and> length outcomes \<le> 8 \<and> code = encode_helper_exit outcomes"
proof (cases "n = length outcomes \<and> 0 < n \<and> n \<le> 8")
  case False
  then show ?thesis by (auto simp: decode_helper_exit_bits)
next
  case True
  let ?m = "HELPER_EXIT_MARKER"
  have pack: "bit (pack outcomes) j \<longleftrightarrow> j div 2 < n \<and> bit (outcome_bits (outcomes ! (j div 2))) (j mod 2)" for j
    using True by (auto simp: bit_pack)
  have enc: "bit (encode_helper_exit outcomes) j \<longleftrightarrow> bit ?m j \<or> bit (pack outcomes) j" for j
    using True by (simp add: encode_pack bit_or_iff)
  have "decode_helper_exit code n = Some outcomes \<longleftrightarrow> (\<forall>j. bit code j = bit (encode_helper_exit outcomes) j)"
  proof
    assume d: "decode_helper_exit code n = Some outcomes"
    show "\<forall>j. bit code j = bit (encode_helper_exit outcomes) j"
    proof
      fix j
      consider "16 \<le> j" | "j < 16" "n \<le> j div 2" | "j < 16" "j div 2 < n" by linarith
      then show "bit code j = bit (encode_helper_exit outcomes) j"
      proof cases
        case 1
        with True have "\<not> j div 2 < n" by linarith
        with 1 d pack show ?thesis by (simp add: decode_helper_exit_bits enc)
      next
        case 2
        with d pack bit_marker_low [of j] show ?thesis by (auto simp: decode_helper_exit_bits enc)
      next
        case 3
        with d have "drop_bit ((j div 2) * 2) code AND 3 = outcome_bits (outcomes ! (j div 2))"
          by (simp add: decode_helper_exit_bits)
        then have "bit code (2 * (j div 2) + j mod 2) = bit (outcome_bits (outcomes ! (j div 2))) (j mod 2)"
          unfolding pair_bits by (meson mod_less_divisor zero_less_numeral)
        then have "bit code j = bit (outcome_bits (outcomes ! (j div 2))) (j mod 2)" by simp
        with 3 pack bit_marker_low [of j] show ?thesis by (auto simp: enc)
      qed
    qed
  next
    assume all: "\<forall>j. bit code j = bit (encode_helper_exit outcomes) j"
    have "drop_bit (i * 2) code AND 3 = outcome_bits (outcomes ! i)" if "i < n" for i
      unfolding pair_bits
    proof (intro conjI allI impI)
      fix j :: nat assume "j < 2"
      then have "(2 * i + j) div 2 = i" "(2 * i + j) mod 2 = j" "2 * i + j < 16" using True that by auto
      with all that bit_marker_low [of "2 * i + j"] show "bit code (2 * i + j) = bit (outcome_bits (outcomes ! i)) j"
        by (auto simp: enc pack)
    qed (use outcome_bits_low in fastforce)
    moreover have "bit code j = bit ?m j" if "16 \<le> j" for j
      using all that True by (auto simp: enc pack)
    moreover have "\<not> bit code j" if "j < 16" "n \<le> j div 2" for j
      using all that bit_marker_low [of j] by (auto simp: enc pack)
    ultimately show "decode_helper_exit code n = Some outcomes"
      using True unfolding decode_helper_exit_bits by blast
  qed
  then show ?thesis using True unfolding word_eq_bits [symmetric] by auto
qed

section \<open>Listening ports\<close>

lemma set_port_insert: "set (port_insert p qs) = insert p (set qs)"
  by (induction qs) auto

lemma port_le_total: "\<not> port_le p q \<Longrightarrow> port_le q p \<and> p \<noteq> q"
  by (auto simp: port_le_def prod_eq_iff not_less)

lemma port_le_trans: "port_le p q \<Longrightarrow> port_le q r \<Longrightarrow> port_le p r"
  by (auto simp: port_le_def)

abbreviation port_less :: "listen_port \<Rightarrow> listen_port \<Rightarrow> bool" where
  "port_less p q \<equiv> port_le p q \<and> p \<noteq> q"

lemma port_le_antisym: "port_le p q \<Longrightarrow> port_le q p \<Longrightarrow> p = q"
  by (auto simp: port_le_def prod_eq_iff)

lemma sorted_port_insert: "sorted_wrt port_less qs \<Longrightarrow> sorted_wrt port_less (port_insert p qs)"
proof (induction qs)
  case (Cons q qs)
  have "port_less p r" if "port_le p q" "p \<noteq> q" "r \<in> set qs" for r
    using that Cons.prems port_le_trans [of p q r] port_le_antisym [of p q] by (cases "p = r") auto
  with Cons port_le_total [of p q] show ?case by (auto simp: set_port_insert)
qed simp

lemma sorted_fold_insert:
  "sorted_wrt port_less ps \<Longrightarrow> (\<And>x ps. sorted_wrt port_less ps \<Longrightarrow> sorted_wrt port_less (f x ps)) \<Longrightarrow>
     sorted_wrt port_less (fold f xs ps)"
  by (induction xs arbitrary: ps) auto

text \<open>
  The ports to check are exactly the non-zero bridge ports, the inbound ports the document
  sets and the port of its DNS listener, in order and without repetition.
\<close>

theorem listen_ports_exact:
  "sorted_wrt port_less (listen_ports document bridges)
   \<and> set (listen_ports document bridges) =
       {(p, False, False) | p. p \<in> set bridges \<and> p \<noteq> 0}
       \<union> {(p, False, True) | p key. key \<in> set inbound_port_keys
            \<and> Option.bind (value_get document key) port_of = Some p}
       \<union> {(p, True, True) | p. dns_listen_port document = Some p}"
proof -
  let ?g = "\<lambda>key ports. case Option.bind (value_get document key) port_of of
      Some p \<Rightarrow> port_insert (p, False, True) ports | None \<Rightarrow> ports"
  have bridges: "set (fold (\<lambda>p. port_insert (p, False, False)) bs ps) =
      {(p, False, False) | p. p \<in> set bs} \<union> set ps" for bs ps
    by (induction bs arbitrary: ps) (auto simp: set_port_insert)
  have keys: "set (fold ?g ks ps) = {(p, False, True) | p key. key \<in> set ks
      \<and> Option.bind (value_get document key) port_of = Some p} \<union> set ps" for ks ps
  proof (induction ks arbitrary: ps)
    case (Cons k ks)
    then show ?case
      by (cases "Option.bind (value_get document k) port_of") (auto simp: set_port_insert)
  qed simp
  have "sorted_wrt port_less (fold ?g inbound_port_keys
      (fold (\<lambda>p. port_insert (p, False, False)) (filter (\<lambda>p. p \<noteq> 0) bridges) []))"
    by (intro sorted_fold_insert) (auto intro: sorted_port_insert split: option.split)
  then show ?thesis
    unfolding listen_ports_def Let_def
    by (cases "dns_listen_port document")
      (auto simp: bridges keys set_port_insert intro: sorted_port_insert)
qed

end
