(* ===== verification/Std_Io.thy ===== *)
theory Std_Io
  imports Rust_Str
begin

text \<open>
  What several components use of Rust's standard library beside \<open>str\<close>: lines of a text, integers in
  little-endian bytes, additions that report an overflow, the components of a path, and byte streams.
\<close>

section \<open>Lines\<close>

abbreviation newline :: char where
  "newline \<equiv> CHR 0x0A"

text \<open>\<open>str::lines\<close>: a carriage return is dropped only in front of a line break.\<close>

definition drop_cr :: "string \<Rightarrow> string" where
  "drop_cr l = (if l \<noteq> [] \<and> last l = CHR 0x0D then butlast l else l)"

definition str_lines :: "string \<Rightarrow> string list" where
  "str_lines s =
     (let parts = split_on newline s
      in map drop_cr (butlast parts) @ (if last parts = [] then [] else [last parts]))"

lemma drop_cr_id: "CHR 0x0D \<notin> set l \<Longrightarrow> drop_cr l = l"
  by (auto simp: drop_cr_def dest!: last_in_set)

section \<open>Little-endian integers and checked addition\<close>

fun le_bytes :: "nat \<Rightarrow> nat \<Rightarrow> string" where
  "le_bytes 0 n = []"
| "le_bytes (Suc k) n = char_of (n mod 256) # le_bytes k (n div 256)"

fun from_le_bytes :: "string \<Rightarrow> nat" where
  "from_le_bytes [] = 0"
| "from_le_bytes (c # cs) = of_char c + 256 * from_le_bytes cs"

lemma length_le_bytes [simp]: "length (le_bytes k n) = k"
  by (induction k arbitrary: n) auto

lemma from_le_bytes_le: "n < 256 ^ k \<Longrightarrow> from_le_bytes (le_bytes k n) = n"
proof (induction k arbitrary: n)
  case (Suc k)
  then have "n div 256 < 256 ^ k" by (simp add: less_mult_imp_div_less mult.commute)
  with Suc show ?case by simp
qed simp

definition checked_add_u64 :: "nat \<Rightarrow> nat \<Rightarrow> nat option" where
  "checked_add_u64 a b = (if a + b < 2 ^ 64 then Some (a + b) else None)"

section \<open>Components of a path\<close>

text \<open>
  \<open>Path::components\<close>: repeated separators and inner \<open>.\<close> disappear, a leading \<open>.\<close> of a relative path
  and every \<open>..\<close> stay.
\<close>

datatype component = RootDir | CurDir | ParentDir | Normal string

definition component_of :: "string \<Rightarrow> component" where
  "component_of s = (if s = ''..'' then ParentDir else Normal s)"

definition path_components :: "string \<Rightarrow> component list" where
  "path_components p =
     (let parts = filter (\<lambda>s. s \<noteq> []) (split_on CHR ''/'' p);
          rest = \<lambda>ps. map component_of (filter (\<lambda>s. s \<noteq> ''.'') ps)
      in if is_absolute p then RootDir # rest parts
         else case parts of
                [] \<Rightarrow> []
              | q # qs \<Rightarrow> (if q = ''.'' then [CurDir] else [component_of q]) @ rest qs)"

section \<open>Streams\<close>

text \<open>
  What the peer sends arrives in pieces; after the last one the stream is closed, or fails (an error
  or the time limit of the read).
\<close>

record stream =
  pieces :: "string list"
  fails :: bool

datatype 'a io_result = IoFail | IoDone 'a

text \<open>\<open>stream.read(&mut buffer)\<close> with room for \<open>n\<close> bytes; an empty answer means closed.\<close>

fun read_some :: "nat \<Rightarrow> stream \<Rightarrow> string io_result \<times> stream" where
  "read_some n s =
     (case pieces s of
        [] \<Rightarrow> ((if fails s then IoFail else IoDone []), s)
      | p # ps \<Rightarrow>
          (IoDone (take n p), s\<lparr>pieces := (if length p \<le> n then ps else drop n p # ps)\<rparr>))"

definition stream_size :: "stream \<Rightarrow> nat" where
  "stream_size s = length (concat (pieces s)) + length (pieces s)"

declare read_some.simps [simp del]

lemma read_some_shrinks:
  "read_some n s = (IoDone d, s') \<Longrightarrow> d \<noteq> [] \<Longrightarrow> stream_size s' < stream_size s"
  by (auto simp: read_some.simps stream_size_def split: list.splits if_splits)

lemma read_some_concat:
  "read_some n s = (IoDone d, s') \<Longrightarrow> concat (pieces s) = d @ concat (pieces s') \<and> fails s' = fails s"
  by (auto simp: read_some.simps split: list.splits if_splits)

lemma read_some_length: "read_some n s = (IoDone d, s') \<Longrightarrow> length d \<le> n"
  by (auto simp: read_some.simps split: list.splits if_splits)

end
