(* ===== verification/Elevation_Protocol.thy ===== *)
theory Elevation_Protocol
  imports Std_Io
begin

unbundle bit_operations_syntax

text \<open>
  \<open>elevation_protocol.rs\<close>: the bounded, length-prefixed frames used across the privilege boundary,
  the commands and responses of the on-demand host, and the session secret. JSON serialisation of
  an envelope is a parameter: \<open>to_json version body\<close> and \<open>from_json\<close>.
\<close>

section \<open>Messages\<close>

definition ELEVATION_PROTOCOL_VERSION :: u16 where
  "ELEVATION_PROTOCOL_VERSION = 1"

definition MAX_ELEVATION_FRAME_BYTES :: nat where
  "MAX_ELEVATION_FRAME_BYTES = 64 * 1024"

datatype elevated_engine = Xray | Mihomo

datatype elevation_command =
    StartXray u64
  | StartMihomo u64
  | Stop elevated_engine
  | Diagnostics
  | Shutdown

datatype protocol_error =
    InvalidLength
  | Truncated
  | TrailingBytes
  | InvalidUtf8
  | InvalidSchema
  | UnknownVersion
  | InvalidGeneration

definition validate_command :: "elevation_command \<Rightarrow> protocol_error + unit" where
  "validate_command c =
     (case c of
        StartXray g \<Rightarrow> if g = 0 then Inl InvalidGeneration else Inr ()
      | StartMihomo g \<Rightarrow> if g = 0 then Inl InvalidGeneration else Inr ()
      | _ \<Rightarrow> Inr ())"

datatype broker_error_code =
  NotReady | Unsupported | InvalidRequest | AuthenticationFailed | TimedOut | GenerationMismatch

datatype elevated_runtime_state = RStopped | RStarting | RReady | RFailed | RUnsupported

datatype elevated_diagnostic_stream = Stdout | Stderr

record elevated_log_record =
  log_id :: u64
  log_timestamp_ms :: u64
  log_engine :: elevated_engine
  log_stream :: elevated_diagnostic_stream
  log_message :: string

datatype elevation_response =
    Started elevated_engine
  | Stopped elevated_engine
  | DiagnosticsReply bool bool
  | ProcessDiagnostics elevated_runtime_state elevated_runtime_state elevated_runtime_state
      "elevated_log_record list"
  | ShuttingDown
  | ErrorReply broker_error_code

section \<open>The session secret\<close>

text \<open>\<open>SessionSecret::verifies\<close>: every byte is compared, whatever the first difference.\<close>

definition verifies :: "u8 list \<Rightarrow> u8 list \<Rightarrow> bool" where
  "verifies secret authentication \<longleftrightarrow>
     foldl (\<lambda>difference (left, right). difference OR (left XOR right)) 0 (zip secret authentication) = 0"

section \<open>Frames\<close>

definition encode_frame_versioned ::
    "(u16 \<Rightarrow> 'a \<Rightarrow> string option) \<Rightarrow> u16 \<Rightarrow> 'a \<Rightarrow> protocol_error + string" where
  "encode_frame_versioned to_json version v =
     rbind (ok_or InvalidSchema (to_json version v)) (\<lambda>payload.
       if payload = [] \<or> length payload > MAX_ELEVATION_FRAME_BYTES - 4 then Inl InvalidLength
       else if length payload \<ge> 2 ^ 32 then Inl InvalidLength
       else Inr (le_bytes 4 (length payload) @ payload))"

definition decode_frame_versioned ::
    "(string \<Rightarrow> (u16 \<times> 'a) option) \<Rightarrow> u16 \<Rightarrow> string \<Rightarrow> protocol_error + 'a" where
  "decode_frame_versioned from_json version frame =
     (if length frame < 4 then Inl Truncated
      else let n = from_le_bytes (take 4 frame)
           in if n = 0 \<or> n > MAX_ELEVATION_FRAME_BYTES - 4 then Inl InvalidLength
              else if length frame < 4 + n then Inl Truncated
              else if length frame > 4 + n then Inl TrailingBytes
              else let payload = take n (drop 4 frame)
                   in if \<not> valid_utf8 payload then Inl InvalidUtf8
                      else rbind (ok_or InvalidSchema (from_json payload)) (\<lambda>(v, body).
                             if v \<noteq> version then Inl UnknownVersion else Inr body))"

definition encode_frame :: "(u16 \<Rightarrow> 'a \<Rightarrow> string option) \<Rightarrow> 'a \<Rightarrow> protocol_error + string" where
  "encode_frame to_json = encode_frame_versioned to_json ELEVATION_PROTOCOL_VERSION"

definition decode_frame :: "(string \<Rightarrow> (u16 \<times> 'a) option) \<Rightarrow> string \<Rightarrow> protocol_error + 'a" where
  "decode_frame from_json = decode_frame_versioned from_json ELEVATION_PROTOCOL_VERSION"

definition decode_command ::
    "(string \<Rightarrow> (u16 \<times> elevation_command) option) \<Rightarrow> string \<Rightarrow> protocol_error + elevation_command" where
  "decode_command from_json frame =
     rbind (decode_frame from_json frame) (\<lambda>c. rbind (validate_command c) (\<lambda>_. Inr c))"

text \<open>A byte stream: \<open>read_exact\<close> takes its front or fails with \<open>UnexpectedEof\<close>.\<close>

datatype io_error = UnexpectedEof | InvalidData protocol_error

definition read_exact :: "nat \<Rightarrow> string \<Rightarrow> io_error + string \<times> string" where
  "read_exact n s = (if length s < n then Inl UnexpectedEof else Inr (take n s, drop n s))"

definition read_stream_frame :: "string \<Rightarrow> io_error + string \<times> string" where
  "read_stream_frame s =
     rbind (read_exact 4 s) (\<lambda>(header, s).
       let n = from_le_bytes header
       in if n = 0 \<or> n > MAX_ELEVATION_FRAME_BYTES - 4 then Inl (InvalidData InvalidLength)
          else rbind (read_exact n s) (\<lambda>(payload, s). Inr (header @ payload, s)))"

definition write_stream_frame ::
    "(u16 \<Rightarrow> 'a \<Rightarrow> string option) \<Rightarrow> 'a \<Rightarrow> string \<Rightarrow> io_error + string" where
  "write_stream_frame to_json v written =
     (case encode_frame to_json v of
        Inl e \<Rightarrow> Inl (InvalidData e)
      | Inr frame \<Rightarrow> Inr (written @ frame))"

section \<open>Matching responses\<close>

fun response_matches_command :: "elevation_command \<Rightarrow> elevation_response \<Rightarrow> bool" where
  "response_matches_command c (ErrorReply e) = True"
| "response_matches_command (StartXray g) (Started Xray) = True"
| "response_matches_command (StartMihomo g) (Started Mihomo) = True"
| "response_matches_command (Stop e) (Stopped a) = (e = a)"
| "response_matches_command Diagnostics (DiagnosticsReply x m) = True"
| "response_matches_command Diagnostics (ProcessDiagnostics x m t logs) = True"
| "response_matches_command Shutdown ShuttingDown = True"
| "response_matches_command _ _ = False"

section \<open>The secret comparison\<close>

lemma or_fold_zero:
  "foldl (\<lambda>d (l, r). d OR (l XOR r)) (a :: 'a::len word) ps = 0 \<longleftrightarrow> a = 0 \<and> (\<forall>(l, r)\<in>set ps. l = r)"
proof (induction ps arbitrary: a)
  case (Cons p ps)
  have zero: "a OR b = 0 \<longleftrightarrow> a = 0 \<and> b = 0" for b :: "'a word"
    by (auto simp: or_eq_0_iff)
  have eq: "(l XOR r = 0) = (l = r)" for l r :: "'a word"
    by (metis xor_self_eq xor.assoc xor.right_neutral)
  show ?case using Cons by (cases p) (simp add: zero eq)
qed simp

text \<open>
  The accumulated comparison accepts exactly the session's own secret: for secrets of one
  length it is equality, although it never stops at the first difference.
\<close>

theorem verifies_exact:
  "length secret = length authentication \<Longrightarrow> verifies secret authentication \<longleftrightarrow> secret = authentication"
proof -
  assume len: "length secret = length authentication"
  have "(\<forall>(l, r)\<in>set (zip secret authentication). l = r) \<longleftrightarrow> list_all2 (=) secret authentication"
    using len by (auto simp: list_all2_iff)
  then show ?thesis by (simp add: verifies_def or_fold_zero list.rel_eq)
qed

theorem verifies_exact_witness: "\<not> verifies [1, 2] [1, 3]"
  using verifies_exact [of "[1, 2]" "[1, 3]"] by simp

section \<open>Frames survive the wire\<close>

lemma encode_frame_Inr:
  "encode_frame_versioned to_json version v = Inr frame \<Longrightarrow>
     \<exists>payload. to_json version v = Some payload \<and> payload \<noteq> [] \<and> length payload \<le> 65532
       \<and> frame = le_bytes 4 (length payload) @ payload"
  by (auto simp: encode_frame_versioned_def result_simps MAX_ELEVATION_FRAME_BYTES_def
      split: if_splits)

lemma frame_header: "length p \<le> 65532 \<Longrightarrow> from_le_bytes (le_bytes 4 (length p)) = length p"
  by (rule from_le_bytes_le) simp

text \<open>The codec's contract: what it writes is UTF-8 and reads back as the same envelope.\<close>

definition codec :: "(u16 \<Rightarrow> 'a \<Rightarrow> string option) \<Rightarrow> (string \<Rightarrow> (u16 \<times> 'a) option) \<Rightarrow> bool" where
  "codec to_json from_json \<longleftrightarrow>
     (\<forall>v b p. to_json v b = Some p \<longrightarrow> valid_utf8 p \<and> from_json p = Some (v, b))"

lemma decode_encoded:
  assumes "codec to_json from_json" "encode_frame_versioned to_json version v = Inr frame"
  shows "decode_frame_versioned from_json version' frame =
     (if version' = version then Inr v else Inl UnknownVersion)"
proof -
  from encode_frame_Inr [OF assms(2)] obtain p where p: "to_json version v = Some p" "p \<noteq> []"
    "length p \<le> 65532" "frame = le_bytes 4 (length p) @ p" by blast
  with assms(1) have "valid_utf8 p" "from_json p = Some (version, v)" by (auto simp: codec_def)
  with p frame_header [OF p(3)] show ?thesis
    by (auto simp: decode_frame_versioned_def Let_def MAX_ELEVATION_FRAME_BYTES_def)
qed

lemma read_encoded:
  assumes "encode_frame_versioned to_json version v = Inr frame"
  shows "read_stream_frame (frame @ rest) = Inr (frame, rest)"
proof -
  from encode_frame_Inr [OF assms] obtain p where p: "p \<noteq> []" "length p \<le> 65532"
    "frame = le_bytes 4 (length p) @ p" by blast
  with frame_header [OF p(2)] show ?thesis
    by (simp add: read_stream_frame_def read_exact_def Let_def MAX_ELEVATION_FRAME_BYTES_def)
qed

text \<open>
  C16. A frame survives the wire: reading a stream that starts with an encoded message yields
  exactly its frame and leaves the rest, decoding the frame with the same version gives the message
  back, with any other version it is refused, and a frame never exceeds the 64 KiB bound.
\<close>

theorem frame_roundtrip:
  assumes "codec to_json from_json"
    and "encode_frame_versioned to_json version message = Inr frame"
  shows "read_stream_frame (frame @ rest) = Inr (frame, rest)
    \<and> decode_frame_versioned from_json version' frame =
        (if version' = version then Inr message else Inl UnknownVersion)
    \<and> length frame \<le> MAX_ELEVATION_FRAME_BYTES"
  using read_encoded [OF assms(2)] decode_encoded [OF assms] encode_frame_Inr [OF assms(2)]
  by (auto simp: MAX_ELEVATION_FRAME_BYTES_def)

text \<open>A codec for two versions of a boolean message that meets the contract.\<close>

definition tiny_to_json :: "u16 \<Rightarrow> bool \<Rightarrow> string option" where
  "tiny_to_json v b =
     (if v = 1 then Some (if b then ''t'' else ''f'')
      else if v = 2 then Some (if b then ''T'' else ''F'') else None)"

definition tiny_from_json :: "string \<Rightarrow> (u16 \<times> bool) option" where
  "tiny_from_json s =
     (if s = ''t'' then Some (1, True) else if s = ''f'' then Some (1, False)
      else if s = ''T'' then Some (2, True) else if s = ''F'' then Some (2, False) else None)"

lemma tiny_codec: "codec tiny_to_json tiny_from_json"
  by (auto simp: codec_def tiny_to_json_def tiny_from_json_def split: if_splits)

lemmas le_bytes_numeral = le_bytes.simps(2) [of "pred_numeral k" for k, folded numeral_eq_Suc]

theorem frame_roundtrip_witness:
  "read_stream_frame ([CHR 0x01, CHR 0x00, CHR 0x00, CHR 0x00, CHR ''t''] @ ''next'') =
     Inr ([CHR 0x01, CHR 0x00, CHR 0x00, CHR 0x00, CHR ''t''], ''next'')
   \<and> decode_frame_versioned tiny_from_json 2 [CHR 0x01, CHR 0x00, CHR 0x00, CHR 0x00, CHR ''t''] =
       Inl UnknownVersion"
proof -
  have "char_of (1 :: nat) = CHR 0x01" "char_of (0 :: nat) = CHR 0x00" by code_simp+
  then have "encode_frame_versioned tiny_to_json 1 True =
      Inr [CHR 0x01, CHR 0x00, CHR 0x00, CHR 0x00, CHR ''t'']"
    by (simp add: encode_frame_versioned_def tiny_to_json_def MAX_ELEVATION_FRAME_BYTES_def
        le_bytes_numeral)
  from frame_roundtrip [OF tiny_codec this, of "''next''" 2] show ?thesis by simp
qed

lemma encoded_frame_damaged:
  assumes "encode_frame_versioned to_json version message = Inr frame"
  shows "k < length frame \<Longrightarrow> decode_frame_versioned from_json version' (take k frame) = Inl Truncated"
    and "extra \<noteq> [] \<Longrightarrow> decode_frame_versioned from_json version' (frame @ extra) = Inl TrailingBytes"
proof -
  from encode_frame_Inr [OF assms] obtain p where p: "p \<noteq> []" "length p \<le> 65532"
    "frame = le_bytes 4 (length p) @ p" by blast
  note header = frame_header [OF p(2)]
  show "decode_frame_versioned from_json version' (take k frame) = Inl Truncated" if "k < length frame"
  proof (cases "k < 4")
    case True
    then have "length (take k frame) < 4" by simp
    then show ?thesis unfolding decode_frame_versioned_def by (rule if_P)
  next
    case False
    then have "take 4 (take k frame) = le_bytes 4 (length p)" by (simp add: p(3))
    with False that p header show ?thesis
      by (simp add: decode_frame_versioned_def Let_def MAX_ELEVATION_FRAME_BYTES_def)
  qed
  show "decode_frame_versioned from_json version' (frame @ extra) = Inl TrailingBytes" if "extra \<noteq> []"
    using that p header by (simp add: decode_frame_versioned_def Let_def MAX_ELEVATION_FRAME_BYTES_def)
qed

text \<open>
  A cut or padded frame is never taken for a message, whatever the JSON reader accepts: every
  proper prefix of an encoded frame is refused as truncated, and a frame with anything after it as
  having trailing bytes.
\<close>

theorem damaged_frame_refused:
  assumes "encode_frame_versioned to_json version message = Inr frame"
    and "k < length frame" and "extra \<noteq> []"
  shows "decode_frame_versioned from_json version' (take k frame) = Inl Truncated
    \<and> decode_frame_versioned from_json version' (frame @ extra) = Inl TrailingBytes"
  using encoded_frame_damaged [OF assms(1)] assms(2,3) by blast

theorem damaged_frame_refused_witness:
  "decode_frame_versioned tiny_from_json 1 [CHR 0x01, CHR 0x00, CHR 0x00, CHR 0x00] = Inl Truncated"
proof -
  have "char_of (1 :: nat) = CHR 0x01" "char_of (0 :: nat) = CHR 0x00" by code_simp+
  then have "encode_frame_versioned tiny_to_json 1 True =
      Inr [CHR 0x01, CHR 0x00, CHR 0x00, CHR 0x00, CHR ''t'']"
    by (simp add: encode_frame_versioned_def tiny_to_json_def MAX_ELEVATION_FRAME_BYTES_def
        le_bytes_numeral)
  from damaged_frame_refused [OF this, of 4 "''x''" tiny_from_json 1] show ?thesis by simp
qed

section \<open>Responses answer one request\<close>

text \<open>Two commands that ask for the same thing (a start is answered per engine).\<close>

fun same_request :: "elevation_command \<Rightarrow> elevation_command \<Rightarrow> bool" where
  "same_request (StartXray g) (StartXray h) = True"
| "same_request (StartMihomo g) (StartMihomo h) = True"
| "same_request (Stop e) (Stop f) = (e = f)"
| "same_request Diagnostics Diagnostics = True"
| "same_request Shutdown Shutdown = True"
| "same_request _ _ = False"

lemma response_determines_request:
  "response_matches_command c r \<Longrightarrow> response_matches_command c' r \<Longrightarrow>
     (case r of ErrorReply e \<Rightarrow> False | _ \<Rightarrow> True) \<Longrightarrow> same_request c c'"
  by (induction c r rule: response_matches_command.induct; cases c'; simp)

text \<open>
  A response other than an error answers one request only: it cannot be taken for the answer
  to a different command or to the same command for another engine, while an error answers any
  command.
\<close>

theorem responses_unambiguous:
  assumes "response_matches_command c r" "response_matches_command c' r"
  shows "(\<exists>e. r = ErrorReply e) \<or> same_request c c'"
  using response_determines_request [OF assms] by (cases r) auto

theorem responses_unambiguous_witness: "same_request (StartXray 1) (StartXray 2)"
  using responses_unambiguous [of "StartXray 1" "Started Xray" "StartXray 2"] by simp

end
