(* ===== verification/Event_Redaction.thy ===== *)
theory Event_Redaction
  imports Json_Doc
begin

text \<open>
  \<open>event.rs\<close>: the events the daemon records, and the redaction every field goes through before it
  is stored. The four regular expressions are parameters: each component of \<open>event_patterns\<close> is the
  \<open>replace_all\<close> call the source makes with that pattern and its replacement.
\<close>

record event_patterns =
  http_url :: "string \<Rightarrow> string"
  authorization :: "string \<Rightarrow> string"
  cookie :: "string \<Rightarrow> string"
  uuid :: "string \<Rightarrow> string"

definition redact_text :: "event_patterns \<Rightarrow> string \<Rightarrow> string" where
  "redact_text r text = uuid r (cookie r (authorization r (http_url r text)))"

definition SENSITIVE_KEYS :: "string list" where
  "SENSITIVE_KEYS =
     [''authorization'', ''cookie'', ''password'', ''passwd'', ''secret'', ''token'']"

definition sensitive_key :: "string \<Rightarrow> bool" where
  "sensitive_key key =
     (let key = to_ascii_lowercase key
      in if key = ''url'' \<or> ends_with ''_url'' key then True
         else list_ex (\<lambda>sensitive. contains_str sensitive key) SENSITIVE_KEYS)"

definition REDACTED :: string where
  "REDACTED = ''[redacted]''"

fun redact_value :: "event_patterns \<Rightarrow> json \<Rightarrow> string option \<Rightarrow> json" where
  "redact_value r v key =
     (if (case key of None \<Rightarrow> False | Some k \<Rightarrow> sensitive_key k) then JString REDACTED
      else case v of
        JString text \<Rightarrow> JString (redact_text r text)
      | JArray values \<Rightarrow> JArray (map (\<lambda>v. redact_value r v key) values)
      | JObject m \<Rightarrow> JObject (map (\<lambda>(k, v). (k, redact_value r v (Some k))) m)
      | _ \<Rightarrow> v)"

declare redact_value.simps [simp del]

lemmas redact_value_at =
  redact_value.simps [of _ JNull] redact_value.simps [of _ "JBool b" for b]
  redact_value.simps [of _ "JNumber n" for n] redact_value.simps [of _ "JString s" for s]
  redact_value.simps [of _ "JArray vs" for vs] redact_value.simps [of _ "JObject m" for m]

datatype severity = Debug | Info | Warning | ErrorSeverity

datatype component = CoreComponent | SubscriptionComponent | MihomoComponent | XrayComponent

record message_key =
  code :: string
  args :: "string list"

record event =
  timestamp_ms :: u64
  severity_of :: severity
  component_of :: component
  phase :: string
  event_profile_id :: "string option"
  event_node_id :: "string option"
  correlation_id :: string
  safe_message :: string
  structured_details :: json
  message_key_of :: "message_key option"

definition event_new ::
    "event_patterns \<Rightarrow> u64 \<Rightarrow> severity \<Rightarrow> component \<Rightarrow> string \<Rightarrow> string \<Rightarrow> string \<Rightarrow> json \<Rightarrow> event" where
  "event_new r ts sev cmp ph correlation message details =
     \<lparr>timestamp_ms = ts, severity_of = sev, component_of = cmp, phase = redact_text r ph,
      event_profile_id = None, event_node_id = None, correlation_id = redact_text r correlation,
      safe_message = redact_text r message, structured_details = redact_value r details None,
      message_key_of = None\<rparr>"

definition with_message_key :: "event_patterns \<Rightarrow> message_key \<Rightarrow> event \<Rightarrow> event" where
  "with_message_key r key e =
     e\<lparr>message_key_of := Some (key\<lparr>args := map (redact_text r) (args key)\<rparr>)\<rparr>"

definition with_profile_id :: "event_patterns \<Rightarrow> string \<Rightarrow> event \<Rightarrow> event" where
  "with_profile_id r p e = e\<lparr>event_profile_id := Some (redact_text r p)\<rparr>"

definition with_node_id :: "event_patterns \<Rightarrow> string \<Rightarrow> event \<Rightarrow> event" where
  "with_node_id r n e = e\<lparr>event_node_id := Some (redact_text r n)\<rparr>"

section \<open>What redaction leaves\<close>

text \<open>
  A text is clean when it passed the redactor or is the placeholder. A document is redacted when
  all its strings are clean and the value under every sensitive key is the placeholder.
\<close>

definition clean :: "event_patterns \<Rightarrow> string \<Rightarrow> bool" where
  "clean r s \<longleftrightarrow> s = REDACTED \<or> s \<in> range (redact_text r)"

definition redacted :: "event_patterns \<Rightarrow> json \<Rightarrow> bool" where
  "redacted r v \<longleftrightarrow>
     (\<forall>s. JString s \<in> set (jvalues v) \<longrightarrow> clean r s) \<and>
     (\<forall>(k, w)\<in>set (jmembers v). sensitive_key k \<longrightarrow> w = JString REDACTED)"

lemma redacted_simps:
  "redacted r (JArray vs) \<longleftrightarrow> (\<forall>v\<in>set vs. redacted r v)"
  "redacted r (JObject m) \<longleftrightarrow>
     (\<forall>(k, v)\<in>set m. redacted r v \<and> (sensitive_key k \<longrightarrow> v = JString REDACTED))"
  "redacted r (JString s) \<longleftrightarrow> clean r s"
  "redacted r JNull" "redacted r (JBool b)" "redacted r (JNumber n)"
  by (fastforce simp: redacted_def)+

lemma redact_value_sensitive: "sensitive_key k \<Longrightarrow> redact_value r v (Some k) = JString REDACTED"
  by (simp add: redact_value.simps)

lemma clean_intros: "clean r REDACTED" "clean r (redact_text r s)"
  by (simp_all add: clean_def)

lemma redact_value_redacted: "redacted r (redact_value r v key)"
proof (induction r v key rule: redact_value.induct)
  case (1 r v key)
  show ?case
  proof (cases "case key of None \<Rightarrow> False | Some k \<Rightarrow> sensitive_key k")
    case True
    then show ?thesis by (simp add: redact_value.simps redacted_simps clean_intros)
  next
    case False
    with 1 show ?thesis
      by (cases v)
        (auto simp: redact_value_at redacted_simps clean_intros redact_value_sensitive)
  qed
qed

text \<open>
  What redaction may do to a document, read off the document alone: an array keeps its length and an
  object its keys and their order; only the value under a sensitive key is replaced, by the
  placeholder; every other string is the redactor's answer for it, and every other scalar stays.
\<close>

fun redaction_of :: "event_patterns \<Rightarrow> json \<Rightarrow> json \<Rightarrow> bool" where
  "redaction_of r (JArray vs) w \<longleftrightarrow> (\<exists>ws. w = JArray ws \<and> list_all2 (redaction_of r) vs ws)"
| "redaction_of r (JObject m) w \<longleftrightarrow>
     (\<exists>n. w = JObject n \<and> list_all2 (\<lambda>p q. fst q = fst p \<and>
        (if sensitive_key (fst p) then snd q = JString REDACTED else redaction_of r (snd p) (snd q))) m n)"
| "redaction_of r (JString s) w \<longleftrightarrow> w = JString (redact_text r s)"
| "redaction_of r v w \<longleftrightarrow> w = v"

lemma redact_value_redaction:
  "\<not> (case key of None \<Rightarrow> False | Some k \<Rightarrow> sensitive_key k) \<Longrightarrow> redaction_of r v (redact_value r v key)"
proof (induction r v key rule: redact_value.induct)
  case (1 r v key)
  have member: "redaction_of r (snd p) (redact_value r (snd p) (Some (fst p)))"
    if "v = JObject m" "p \<in> set m" "\<not> sensitive_key (fst p)" for m p
    using 1(2) [OF 1(3) that(1,2), of "fst p" "snd p"] that(3) by simp
  show ?case
    using 1(1) [OF 1(3)] 1(3) member
    by (cases v)
      (auto simp: redact_value_at redact_value_sensitive list.rel_map case_prod_beta
        intro!: list.rel_refl_strong)
qed

text \<open>
  C17. Whatever an event was built from, everything it stores is redacted: the value under every
  sensitive key of its details, at any depth, is the placeholder and every other string passed the
  redactor. Nothing else of the details changes: arrays keep their lengths, objects their keys and
  order, and other scalars and the values under other keys are what was given, redacted in place.
  Every text field, and every argument of the message key, is the redactor's answer for that field.
\<close>

theorem event_redacted:
  "let e = with_node_id r n (with_profile_id r p (with_message_key r key
             (event_new r ts sev cmp ph cor msg details)))
   in redacted r (structured_details e) \<and> redaction_of r details (structured_details e)
     \<and> phase e = redact_text r ph \<and> correlation_id e = redact_text r cor
     \<and> safe_message e = redact_text r msg
     \<and> event_profile_id e = Some (redact_text r p) \<and> event_node_id e = Some (redact_text r n)
     \<and> (\<exists>k. message_key_of e = Some k \<and> code k = code key \<and> args k = map (redact_text r) (args key))
     \<and> timestamp_ms e = ts \<and> severity_of e = sev \<and> component_of e = cmp"
  by (simp add: event_new_def with_node_id_def with_profile_id_def with_message_key_def Let_def
      redact_value_redacted redact_value_redaction)

end
