(* ===== verification/Canonical_Decimal.thy ===== *)
theory Canonical_Decimal
  imports Rust_Str
begin

text \<open>
  Decimal numerals in canonical form: digit strings without a superfluous leading zero are exactly
  what \<open>show_nat\<close> writes, and their length bounds their value. Version numbers, segment names and
  identifiers are compared as text or as numbers through these facts.
\<close>

definition canonical_digits :: "string \<Rightarrow> bool" where
  "canonical_digits p \<longleftrightarrow>
     p \<noteq> [] \<and> list_all is_ascii_digit p \<and> \<not> (length p > 1 \<and> starts_with ''0'' p)"

lemma digit_char_of_digit: "is_ascii_digit c \<Longrightarrow> digit_char (byte c - 48) = c"
  by (simp add: is_ascii_digit_def digit_char_def)

lemma digit_char_inj: "m < 10 \<Longrightarrow> n < 10 \<Longrightarrow> digit_char m = digit_char n \<Longrightarrow> m = n"
  by (metis byte_digit_char add_left_imp_eq)

lemma show_nat_snoc: "0 < m \<Longrightarrow> d < 10 \<Longrightarrow> show_nat (10 * m + d) = show_nat m @ [digit_char d]"
  by (subst show_nat.simps) simp

lemma show_nat_0: "show_nat 0 = ''0''"
  by code_simp

lemma canonical_prefix:
  assumes "canonical_digits (q @ [c])" "q \<noteq> []"
  shows "canonical_digits q" "q \<noteq> ''0''"
  using assms by (auto simp: canonical_digits_def starts_with_iff)

lemma canonical_show: "canonical_digits p \<Longrightarrow> \<exists>n. digits_val 0 p = Some n \<and> show_nat n = p"
proof (induction p rule: rev_induct)
  case (snoc c q)
  then have c: "is_ascii_digit c" by (simp add: canonical_digits_def)
  then have d: "byte c - 48 < 10" by (auto simp: is_ascii_digit_def)
  show ?case
  proof (cases "q = []")
    case True
    then show ?thesis using c d by (subst show_nat.simps) (simp add: digit_char_of_digit)
  next
    case False
    note q = canonical_prefix [OF snoc.prems False]
    from snoc.IH [OF q(1)] obtain m where m: "digits_val 0 q = Some m" "show_nat m = q" by blast
    with q(2) have "0 < m" using show_nat_0 by (cases "m = 0") auto
    with show_nat_snoc [OF this d] m c show ?thesis
      by (simp add: digits_val_append digit_char_of_digit)
  qed
qed (simp add: canonical_digits_def)

lemma hd_show_nat: "0 < n \<Longrightarrow> hd (show_nat n) \<noteq> CHR ''0''"
proof (induction n rule: show_nat.induct)
  case (1 n)
  have zero: "digit_char 0 = CHR ''0''" using show_nat_0 by (simp add: show_nat.simps)
  show ?case
  proof (cases "n < 10")
    case True
    with 1(2) zero digit_char_inj [of n 0] show ?thesis by (auto simp: show_nat.simps [of n])
  next
    case False
    with 1(1) show ?thesis by (simp add: show_nat.simps [of n])
  qed
qed

lemma show_canonical: "canonical_digits (show_nat n)"
proof (cases "n = 0")
  case True
  then show ?thesis by (simp add: show_nat_0 canonical_digits_def is_ascii_digit_def)
next
  case False
  then have "hd (show_nat n) \<noteq> CHR ''0''" by (intro hd_show_nat) simp
  then show ?thesis
    using show_nat_digits by (auto simp: canonical_digits_def starts_with_iff)
qed

lemma canonical_digits_iff: "canonical_digits p \<longleftrightarrow> (\<exists>n. p = show_nat n)"
  using canonical_show show_canonical by metis

lemma length_show_nat: "0 < k \<Longrightarrow> length (show_nat n) \<le> k \<longleftrightarrow> n < 10 ^ k"
proof (induction n arbitrary: k rule: show_nat.induct)
  case (1 n)
  obtain j where j: "k = Suc j" using 1(2) by (cases k) auto
  show ?case
  proof (cases "n < 10")
    case True
    have "(10::nat) \<le> 10 ^ k" using j by simp
    with True have "n < 10 ^ k" by linarith
    with True j show ?thesis by (simp add: show_nat.simps [of n])
  next
    case False
    then have step: "show_nat n = show_nat (n div 10) @ [digit_char (n mod 10)]"
      by (simp add: show_nat.simps [of n])
    show ?thesis
    proof (cases "j = 0")
      case True
      with False step j show ?thesis by simp
    next
      case j0: False
      have "n div 10 < 10 ^ j \<longleftrightarrow> n < 10 ^ k"
        by (simp add: j div_less_iff_less_mult mult.commute)
      with 1(1) [OF False, of j] j0 j step show ?thesis by simp
    qed
  qed
qed

end
