(* ===== verification/Service_Protocol.thy ===== *)
theory Service_Protocol
  imports Elevation_Protocol Troubleshoot Canonical_Decimal Event_Redaction
begin

text \<open>
  \<open>service_protocol.rs\<close>: version 2 of the wire protocol, spoken between the user's daemon and the
  always-ready service: commands with their validation, responses and which command each answers,
  and the redaction of the service's own log. The frames are those of \<open>Elevation_Protocol\<close> with
  another version tag; regular expressions are parameters, as in \<open>Event_Redaction\<close>.
\<close>

section \<open>Commands\<close>

definition SERVICE_PROTOCOL_VERSION :: u16 where
  "SERVICE_PROTOCOL_VERSION = 2"

definition MAX_UPDATE_VERSION_CHARS :: nat where
  "MAX_UPDATE_VERSION_CHARS = 32"

datatype service_update_stage = Idle | Downloading | Verifying

record core_journal_cursor =
  segment :: u64
  offset :: u64

datatype service_log_file = CurrentLog | PreviousLog

fun log_file_name :: "service_log_file \<Rightarrow> string" where
  "log_file_name CurrentLog = ''service.log''"
| "log_file_name PreviousLog = ''service.log.1''"

datatype service_command =
    Prepare u64
  | SetTun bool
  | AskStatus
  | StopCore elevated_engine
  | AskDiagnostics
  | ShutdownService
  | StageUpdate string
  | Update string
  | AskTroubleshoot "privileged_fix list"
  | AskServiceLog service_log_file "u64 option"
  | AskCoreJournal u64 "core_journal_cursor option"
  | AskUpdateProgress

definition is_release_version :: "string \<Rightarrow> bool" where
  "is_release_version value =
     (if value = [] \<or> length value > MAX_UPDATE_VERSION_CHARS then False
      else let parts = split_on CHR ''.'' value
           in length parts = 3 \<and>
              list_all (\<lambda>part. part \<noteq> [] \<and> length part \<le> 9 \<and> list_all is_ascii_digit part
                          \<and> \<not> (length part > 1 \<and> starts_with ''0'' part)) parts)"

definition validate_service_command :: "service_command \<Rightarrow> protocol_error + unit" where
  "validate_service_command c =
     (case c of
        Prepare g \<Rightarrow> if g = 0 then Inl InvalidGeneration else Inr ()
      | Update v \<Rightarrow> if \<not> is_release_version v then Inl InvalidSchema else Inr ()
      | StageUpdate v \<Rightarrow> if \<not> is_release_version v then Inl InvalidSchema else Inr ()
      | AskTroubleshoot fixes \<Rightarrow>
          if \<not> is_ok (validate_fix_batch fixes True) then Inl InvalidSchema else Inr ()
      | _ \<Rightarrow> Inr ())"

section \<open>Responses\<close>

record controller_endpoint =
  port :: u16
  secret :: string
  mixed_port_of :: u16

datatype service_response =
    Prepared u64 controller_endpoint
  | TunState bool
  | StatusReply "u64 option" elevated_runtime_state elevated_runtime_state bool
      "broker_error_code option"
  | CoreStopped elevated_engine
  | CoreDiagnostics elevated_runtime_state elevated_runtime_state elevated_runtime_state
      "elevated_log_record list"
  | ServiceShuttingDown
  | UpdateStaged string
  | UpdateStarted
  | UpdateProgress service_update_stage u64 u64
  | Troubleshot "fix_outcome list"
  | ServiceLog service_log_file u64 u64 string
  | CoreJournal string "core_journal_cursor option"
  | Busy
  | ServiceError broker_error_code

definition encode_service_frame ::
    "(u16 \<Rightarrow> 'a \<Rightarrow> string option) \<Rightarrow> 'a \<Rightarrow> protocol_error + string" where
  "encode_service_frame to_json = encode_frame_versioned to_json SERVICE_PROTOCOL_VERSION"

definition decode_service_frame ::
    "(string \<Rightarrow> (u16 \<times> 'a) option) \<Rightarrow> string \<Rightarrow> protocol_error + 'a" where
  "decode_service_frame from_json = decode_frame_versioned from_json SERVICE_PROTOCOL_VERSION"

definition decode_service_command ::
    "(string \<Rightarrow> (u16 \<times> service_command) option) \<Rightarrow> string \<Rightarrow> protocol_error + service_command" where
  "decode_service_command from_json frame =
     rbind (decode_service_frame from_json frame) (\<lambda>command.
       rbind (validate_service_command command) (\<lambda>_. Inr command))"

definition write_service_frame ::
    "(u16 \<Rightarrow> 'a \<Rightarrow> string option) \<Rightarrow> 'a \<Rightarrow> string \<Rightarrow> io_error + string" where
  "write_service_frame to_json v written =
     (case encode_service_frame to_json v of
        Inl e \<Rightarrow> Inl (InvalidData e)
      | Inr frame \<Rightarrow> Inr (written @ frame))"

definition answers :: "service_command \<Rightarrow> service_response \<Rightarrow> bool" where
  "answers c r =
     (case c of
        Prepare g \<Rightarrow> (case r of Prepared a _ \<Rightarrow> g = a | _ \<Rightarrow> False)
      | SetTun on \<Rightarrow> (case r of TunState a \<Rightarrow> on = a | _ \<Rightarrow> False)
      | StopCore e \<Rightarrow> (case r of CoreStopped a \<Rightarrow> e = a | _ \<Rightarrow> False)
      | StageUpdate v \<Rightarrow> (case r of UpdateStaged a \<Rightarrow> v = a | _ \<Rightarrow> False)
      | AskTroubleshoot fixes \<Rightarrow> (case r of Troubleshot outcomes \<Rightarrow> length fixes = length outcomes | _ \<Rightarrow> False)
      | AskServiceLog f before \<Rightarrow> (case r of ServiceLog a start finish _ \<Rightarrow> 
            f = a \<and> start \<le> finish \<and> (case before of None \<Rightarrow> True | Some b \<Rightarrow> finish \<le> b) | _ \<Rightarrow> False)
      | AskCoreJournal _ cursor \<Rightarrow> (case r of CoreJournal _ following \<Rightarrow> following = None \<or> following \<noteq> cursor | _ \<Rightarrow> False)
      | AskUpdateProgress \<Rightarrow> (case r of UpdateProgress _ received whole \<Rightarrow> whole = 0 \<or> received \<le> whole | _ \<Rightarrow> False)
      | AskStatus \<Rightarrow> (case r of StatusReply _ _ _ _ _ \<Rightarrow> True | _ \<Rightarrow> False)
      | AskDiagnostics \<Rightarrow> (case r of CoreDiagnostics _ _ _ _ \<Rightarrow> True | _ \<Rightarrow> False)
      | ShutdownService \<Rightarrow> (case r of ServiceShuttingDown \<Rightarrow> True | _ \<Rightarrow> False)
      | Update _ \<Rightarrow> (case r of UpdateStarted \<Rightarrow> True | _ \<Rightarrow> False))"

definition refusal :: "service_response \<Rightarrow> bool" where
  "refusal r \<longleftrightarrow> r = Busy \<or> (\<exists>e. r = ServiceError e)"

lemma refusal_code [code]:
  "refusal r \<longleftrightarrow> (case r of Busy \<Rightarrow> True | ServiceError e \<Rightarrow> True | _ \<Rightarrow> False)"
  by (cases r) (auto simp: refusal_def)

definition service_response_matches :: "service_command \<Rightarrow> service_response \<Rightarrow> bool" where
  "service_response_matches c r = (if refusal r then True else answers c r)"

section \<open>The service's log as a client sees it\<close>

record service_patterns =
  any_url :: "string \<Rightarrow> string"
  header :: "string \<Rightarrow> string"
  sensitive_value :: "string \<Rightarrow> string"
  event_text :: event_patterns
  windows_profile :: "string \<Rightarrow> string"
  unix_home :: "string \<Rightarrow> string"
  sid :: "string \<Rightarrow> string"

text \<open>
  \<open>char::is_control\<close> on UTF-8 bytes: the C0 controls and DEL are one byte, the C1 controls
  \<open>U+0080\<close> to \<open>U+009F\<close> are \<open>C2 80\<close> to \<open>C2 9F\<close>.
\<close>

fun blank_controls :: "string \<Rightarrow> string" where
  "blank_controls [] = []"
| "blank_controls (a # s) =
     (if (byte a < 32 \<or> byte a = 127) \<and> byte a \<noteq> 9 then CHR '' '' # blank_controls s
      else if byte a = 194 then
        (case s of
           b # t \<Rightarrow> if 128 \<le> byte b \<and> byte b \<le> 159 then CHR '' '' # blank_controls t
                    else a # blank_controls s
         | [] \<Rightarrow> [a])
      else a # blank_controls s)"

definition DIAGNOSTIC_MARKER :: string where
  "DIAGNOSTIC_MARKER = ''[redacted privileged diagnostic]''"

definition carries_configuration :: "string \<Rightarrow> bool" where
  "carries_configuration line =
     (let lower = to_ascii_lowercase line
      in contains_str (CHR 0x22 # ''outbounds'' @ [CHR 0x22]) lower \<or> contains_str ''proxies:'' lower)"

definition redact_service_log_line :: "service_patterns \<Rightarrow> string \<Rightarrow> string" where
  "redact_service_log_line p line =
     (let line = blank_controls line
      in if carries_configuration line then
           (case split_once CHR '' '' line of
              Some (seconds, _) \<Rightarrow>
                if seconds \<noteq> [] \<and> list_all is_ascii_digit seconds
                then seconds @ '' '' @ DIAGNOSTIC_MARKER else DIAGNOSTIC_MARKER
            | None \<Rightarrow> DIAGNOSTIC_MARKER)
         else sid p (unix_home p (windows_profile p (redact_text (event_text p)
                (sensitive_value p (header p (any_url p line)))))))"

definition redact_service_log :: "service_patterns \<Rightarrow> string \<Rightarrow> string" where
  "redact_service_log p text =
     join_with (CHR 0x0A) (map (redact_service_log_line p) (split_on (CHR 0x0A) text))"

section \<open>Versions\<close>

lemma three_parts: "length ps = 3 \<longleftrightarrow> (\<exists>a b c. ps = [a, b, c])"
  by (auto simp: length_Suc_conv numeral_3_eq_3)

text \<open>
  The service accepts exactly the canonical release versions \<open>major.minor.patch\<close>, each part a
  decimal number below a thousand million written without leading zeros. The length bound on the
  text never refuses one of these.
\<close>

theorem is_release_version_exact:
  "is_release_version v \<longleftrightarrow>
     (\<exists>major minor patch. major < 10 ^ 9 \<and> minor < 10 ^ 9 \<and> patch < 10 ^ 9 \<and>
        v = show_nat major @ ''.'' @ show_nat minor @ ''.'' @ show_nat patch)"
proof -
  have part: "(part \<noteq> [] \<and> length part \<le> 9 \<and> list_all is_ascii_digit part
      \<and> \<not> (length part > 1 \<and> starts_with ''0'' part)) \<longleftrightarrow> (\<exists>n < 10 ^ 9. part = show_nat n)" for part
  proof -
    have "(part \<noteq> [] \<and> length part \<le> 9 \<and> list_all is_ascii_digit part
        \<and> \<not> (length part > 1 \<and> starts_with ''0'' part)) \<longleftrightarrow> canonical_digits part \<and> length part \<le> 9"
      unfolding canonical_digits_def by blast
    also have "\<dots> \<longleftrightarrow> (\<exists>n < 10 ^ 9. part = show_nat n)"
      unfolding canonical_digits_iff using length_show_nat [of 9] by auto
    finally show ?thesis .
  qed
  have dot: "CHR ''.'' \<notin> set (show_nat n)" for n
    using show_nat_digits by (rule digit_free) (simp add: is_ascii_digit_def)
  have joined: "show_nat a @ ''.'' @ show_nat b @ ''.'' @ show_nat c =
      join_with CHR ''.'' [show_nat a, show_nat b, show_nat c]" for a b c
    by simp
  have split: "split_on CHR ''.'' (show_nat a @ ''.'' @ show_nat b @ ''.'' @ show_nat c) =
      [show_nat a, show_nat b, show_nat c]" for a b c
    unfolding joined by (rule split_join) (simp_all add: dot)
  show ?thesis
  proof
    assume "is_release_version v"
    then have "length (split_on CHR ''.'' v) = 3"
      and "\<forall>part\<in>set (split_on CHR ''.'' v). \<exists>n < 10 ^ 9. part = show_nat n"
      unfolding is_release_version_def Let_def part by (simp_all add: list_all_iff split: if_splits)
    then obtain a b c where "a < 10 ^ 9" "b < 10 ^ 9" "c < 10 ^ 9"
      "split_on CHR ''.'' v = [show_nat a, show_nat b, show_nat c]"
      unfolding three_parts by auto
    moreover from this have "v = show_nat a @ ''.'' @ show_nat b @ ''.'' @ show_nat c"
      using join_split [of "CHR ''.''" v] by (simp add: joined)
    ultimately show "\<exists>major minor patch. major < 10 ^ 9 \<and> minor < 10 ^ 9 \<and> patch < 10 ^ 9 \<and>
        v = show_nat major @ ''.'' @ show_nat minor @ ''.'' @ show_nat patch" by blast
  next
    assume "\<exists>major minor patch. major < 10 ^ 9 \<and> minor < 10 ^ 9 \<and> patch < 10 ^ 9 \<and>
        v = show_nat major @ ''.'' @ show_nat minor @ ''.'' @ show_nat patch"
    then obtain a b c where n: "a < 10 ^ 9" "b < 10 ^ 9" "c < 10 ^ 9"
      and v: "v = show_nat a @ ''.'' @ show_nat b @ ''.'' @ show_nat c" by blast
    have "length (show_nat a) \<le> 9" "length (show_nat b) \<le> 9" "length (show_nat c) \<le> 9"
      using n length_show_nat [of 9] by simp_all
    then have "length v \<le> MAX_UPDATE_VERSION_CHARS"
      by (simp add: v MAX_UPDATE_VERSION_CHARS_def)
    moreover have "list_all (\<lambda>part. \<exists>n < 10 ^ 9. part = show_nat n) (split_on CHR ''.'' v)"
      unfolding v split using n by auto
    moreover have "length (split_on CHR ''.'' v) = 3" unfolding v split by simp
    moreover have "v \<noteq> []" by (simp add: v)
    ultimately show "is_release_version v"
      unfolding is_release_version_def Let_def part by simp
  qed
qed

section \<open>Commands across the wire\<close>

definition command_wf :: "service_command \<Rightarrow> bool" where
  "command_wf c =
     (case c of
        Prepare g \<Rightarrow> g \<noteq> 0
      | Update v \<Rightarrow> is_release_version v
      | StageUpdate v \<Rightarrow> is_release_version v
      | AskTroubleshoot fixes \<Rightarrow>
          fixes \<noteq> [] \<and> length fixes \<le> 8 \<and> distinct fixes \<and> ReinstallService \<notin> set fixes
      | _ \<Rightarrow> True)"

lemma service_batch:
  "is_ok (validate_fix_batch fixes True) \<longleftrightarrow>
     fixes \<noteq> [] \<and> length fixes \<le> 8 \<and> distinct fixes \<and> ReinstallService \<notin> set fixes"
  by (auto simp: is_ok_def validate_fix_batch_def MAX_PRIVILEGED_FIXES_def distinct_card card_distinct)

lemma validate_service_command_Inr: "validate_service_command c = Inr u \<longleftrightarrow> command_wf c"
  by (cases c) (auto simp: validate_service_command_def command_wf_def service_batch)

definition refused_as :: "service_command \<Rightarrow> protocol_error" where
  "refused_as c = (case c of Prepare g \<Rightarrow> InvalidGeneration | _ \<Rightarrow> InvalidSchema)"

lemma validate_service_command_eq:
  "validate_service_command c = (if command_wf c then Inr () else Inl (refused_as c))"
  by (cases c) (auto simp: validate_service_command_def command_wf_def service_batch refused_as_def)

text \<open>
  A command the daemon wrote reaches the service unchanged if it is well formed (a generation
  other than zero, a canonical release version, one to eight distinct fixes without the service's
  own reinstallation) and is refused by name otherwise; a frame of one protocol version is never
  read as a frame of the other.
\<close>

theorem service_command_accepted:
  assumes "codec to_json from_json" and "encode_service_frame to_json c = Inr frame"
    and "encode_frame to_json c = Inr old"
  shows "decode_service_command from_json frame =
      (if command_wf c then Inr c else Inl (refused_as c))
    \<and> decode_frame from_json frame = Inl UnknownVersion
    \<and> decode_service_frame from_json old = Inl UnknownVersion"
proof -
  note enc = assms(2) [unfolded encode_service_frame_def]
  note enc1 = assms(3) [unfolded encode_frame_def]
  have "decode_service_frame from_json frame = Inr c"
    using decode_encoded [OF assms(1) enc] by (simp add: decode_service_frame_def)
  moreover have "decode_frame from_json frame = Inl UnknownVersion"
    using decode_encoded [OF assms(1) enc]
    by (simp add: decode_frame_def ELEVATION_PROTOCOL_VERSION_def SERVICE_PROTOCOL_VERSION_def)
  moreover have "decode_service_frame from_json old = Inl UnknownVersion"
    using decode_encoded [OF assms(1) enc1]
    by (simp add: decode_service_frame_def ELEVATION_PROTOCOL_VERSION_def SERVICE_PROTOCOL_VERSION_def)
  ultimately show ?thesis by (simp add: decode_service_command_def validate_service_command_eq)
qed

definition tun_to_json :: "u16 \<Rightarrow> service_command \<Rightarrow> string option" where
  "tun_to_json v c = (case c of SetTun b \<Rightarrow> tiny_to_json v b | _ \<Rightarrow> None)"

definition tun_from_json :: "string \<Rightarrow> (u16 \<times> service_command) option" where
  "tun_from_json s = map_option (\<lambda>(v, b). (v, SetTun b)) (tiny_from_json s)"

lemma tun_codec: "codec tun_to_json tun_from_json"
  using tiny_codec by (auto simp: codec_def tun_to_json_def tun_from_json_def split: service_command.splits)

theorem service_command_accepted_witness:
  "\<exists>frame. decode_service_command tun_from_json frame = Inr (SetTun True)"
proof -
  have "encode_service_frame tun_to_json (SetTun True) = Inr (le_bytes 4 1 @ ''T'')"
    "encode_frame tun_to_json (SetTun True) = Inr (le_bytes 4 1 @ ''t'')"
    by (simp_all add: encode_service_frame_def encode_frame_def encode_frame_versioned_def
        tun_to_json_def tiny_to_json_def MAX_ELEVATION_FRAME_BYTES_def SERVICE_PROTOCOL_VERSION_def
        ELEVATION_PROTOCOL_VERSION_def)
  from service_command_accepted [OF tun_codec this] show ?thesis by (auto simp: command_wf_def)
qed

section \<open>Responses\<close>

text \<open>Two commands that ask for the same thing: what a response echoes of them is equal.\<close>

definition same_service_request :: "service_command \<Rightarrow> service_command \<Rightarrow> bool" where
  "same_service_request c c' =
     (case c of
        AskTroubleshoot fixes \<Rightarrow>
          (case c' of AskTroubleshoot fixes' \<Rightarrow> length fixes = length fixes' | _ \<Rightarrow> False)
      | AskServiceLog f _ \<Rightarrow> (case c' of AskServiceLog f' _ \<Rightarrow> f = f' | _ \<Rightarrow> False)
      | AskCoreJournal _ _ \<Rightarrow> (case c' of AskCoreJournal _ _ \<Rightarrow> True | _ \<Rightarrow> False)
      | Update _ \<Rightarrow> (case c' of Update _ \<Rightarrow> True | _ \<Rightarrow> False)
      | _ \<Rightarrow> c' = c)"

lemma answers_same: "answers c r \<Longrightarrow> answers c' r \<Longrightarrow> same_service_request c c'"
  by (cases r; cases c; simp add: answers_def; cases c'; simp add: same_service_request_def)

lemma refusal_iff_answered_by_none: "refusal r \<Longrightarrow> \<not> answers c r"
  by (auto simp: refusal_def answers_def split: service_command.splits)

text \<open>
  Every response of the service that is not a refusal answers one request only, a log chunk
  taken as an answer lies before the position that was asked for, and the next cursor of the core
  journal always differs from the one that was sent.
\<close>

theorem service_responses_unambiguous:
  assumes "service_response_matches c r" "service_response_matches c' r" "\<not> refusal r"
  shows "same_service_request c c'
    \<and> (case (c, r) of
         (AskServiceLog f before, ServiceLog f' start finish text) \<Rightarrow>
           f' = f \<and> start \<le> finish \<and> (\<forall>b\<in>set_option before. finish \<le> b)
       | (AskCoreJournal since cursor, CoreJournal text following) \<Rightarrow> following \<noteq> None \<longrightarrow> following \<noteq> cursor
       | (AskServiceLog f before, _) \<Rightarrow> False
       | (AskCoreJournal since cursor, _) \<Rightarrow> False
       | _ \<Rightarrow> True)"
proof -
  from assms have a: "answers c r" "answers c' r" by (simp_all add: service_response_matches_def)
  from a(1) have "case (c, r) of
         (AskServiceLog f before, ServiceLog f' start finish text) \<Rightarrow>
           f' = f \<and> start \<le> finish \<and> (\<forall>b\<in>set_option before. finish \<le> b)
       | (AskCoreJournal since cursor, CoreJournal text following) \<Rightarrow> following \<noteq> None \<longrightarrow> following \<noteq> cursor
       | (AskServiceLog f before, _) \<Rightarrow> False
       | (AskCoreJournal since cursor, _) \<Rightarrow> False
       | _ \<Rightarrow> True"
    by (cases c; cases r; simp add: answers_def split: option.splits; blast?)
  with answers_same [OF a] show ?thesis by blast
qed

theorem service_responses_unambiguous_witness:
  "same_service_request (Update ''1.2.3'') (Update ''1.2.4'')"
  using service_responses_unambiguous [of "Update ''1.2.3''" UpdateStarted "Update ''1.2.4''"]
  by (simp add: service_response_matches_def answers_def refusal_def)

section \<open>Redaction of the log\<close>

text \<open>What the regular expressions promise: none of the replacements introduces a line break.\<close>

definition keeps_line :: "(string \<Rightarrow> string) \<Rightarrow> bool" where
  "keeps_line f \<longleftrightarrow> (\<forall>s. newline \<notin> set s \<longrightarrow> newline \<notin> set (f s))"

definition line_local :: "service_patterns \<Rightarrow> bool" where
  "line_local p \<longleftrightarrow>
     keeps_line (any_url p) \<and> keeps_line (header p) \<and> keeps_line (sensitive_value p) \<and>
     keeps_line (redact_text (event_text p)) \<and> keeps_line (windows_profile p) \<and>
     keeps_line (unix_home p) \<and> keeps_line (sid p)"

lemma keeps_lineD: "keeps_line f \<Longrightarrow> newline \<notin> set s \<Longrightarrow> newline \<notin> set (f s)"
  by (simp add: keeps_line_def)

lemma blank_controls_newline: "newline \<notin> set (blank_controls s)"
  by (induction s rule: blank_controls.induct) (auto split: list.splits)

lemma marker_newline: "newline \<notin> set DIAGNOSTIC_MARKER"
  by (simp add: DIAGNOSTIC_MARKER_def)

lemma redact_line_plain:
  assumes "line_local p" "newline \<notin> set line"
  shows "newline \<notin> set (sid p (unix_home p (windows_profile p (redact_text (event_text p)
      (sensitive_value p (header p (any_url p line)))))))"
  using assms unfolding line_local_def by (simp add: keeps_lineD)

lemma redact_line_newline:
  assumes "line_local p"
  shows "newline \<notin> set (redact_service_log_line p line)"
proof (cases "carries_configuration (blank_controls line)")
  case True
  have "newline \<notin> set seconds" if "list_all is_ascii_digit seconds" for seconds
    using that by (rule digit_free) (simp add: is_ascii_digit_def)
  with True show ?thesis
    by (simp add: redact_service_log_line_def Let_def marker_newline split: option.splits)
next
  case False
  with redact_line_plain [OF assms blank_controls_newline] show ?thesis
    by (simp add: redact_service_log_line_def Let_def)
qed

definition configuration_masked :: "string \<Rightarrow> bool" where
  "configuration_masked out \<longleftrightarrow>
     out = DIAGNOSTIC_MARKER \<or>
     (\<exists>seconds. seconds \<noteq> [] \<and> list_all is_ascii_digit seconds \<and> out = seconds @ '' '' @ DIAGNOSTIC_MARKER)"

text \<open>
  The redacted log has the lines of the log, one for one and in order, each redacted on its
  own; a line that carries configuration content comes out as the fixed marker, with nothing of
  the line but the leading time stamp in digits.
\<close>

theorem service_log_redacted_by_line:
  assumes "line_local p"
  shows "split_on newline (redact_service_log p text) =
      map (redact_service_log_line p) (split_on newline text)
    \<and> (\<forall>line\<in>set (split_on newline text). carries_configuration (blank_controls line) \<longrightarrow>
         configuration_masked (redact_service_log_line p line))"
proof (intro conjI ballI impI)
  show "split_on newline (redact_service_log p text) =
      map (redact_service_log_line p) (split_on newline text)"
    unfolding redact_service_log_def
    by (rule split_join) (auto simp: redact_line_newline [OF assms])
  show "configuration_masked (redact_service_log_line p line)"
    if "carries_configuration (blank_controls line)" for line
    using that by (auto simp: redact_service_log_line_def Let_def configuration_masked_def split: option.splits)
qed

definition no_patterns :: service_patterns where
  "no_patterns = \<lparr>any_url = id, header = id, sensitive_value = id,
     event_text = \<lparr>http_url = id, authorization = id, cookie = id, uuid = id\<rparr>,
     windows_profile = id, unix_home = id, sid = id\<rparr>"

lemma no_patterns_local: "line_local no_patterns"
  by (simp add: line_local_def keeps_line_def no_patterns_def redact_text_def)

theorem service_log_redacted_by_line_witness:
  "configuration_masked (redact_service_log_line no_patterns ''17 proxies: a'')"
proof -
  have "''17 proxies: a'' \<in> set (split_on newline ''17 proxies: a'')" by code_simp
  moreover have "carries_configuration (blank_controls ''17 proxies: a'')" by code_simp
  ultimately show ?thesis
    using service_log_redacted_by_line [OF no_patterns_local, of "''17 proxies: a''"] by blast
qed

end
