(* ===== verification/Core_Journal.thy ===== *)
theory Core_Journal
  imports Service_Protocol
begin

text \<open>
  \<open>core_sessions.rs\<close>, first half: the core journal. Lines, segment names, the writer
  (\<open>CoreJournal\<close>), pruning and the paged reader behind the \<open>CoreJournal\<close> command. A journal
  directory is the list of its entries in the order \<open>read_dir\<close> gives them; a path in it is the
  entry's name.
\<close>

section \<open>Saturating arithmetic and lossy UTF-8\<close>

definition saturating_add :: "u64 \<Rightarrow> u64 \<Rightarrow> u64" where
  "saturating_add a b = (if unat a + unat b < 2 ^ 64 then a + b else - 1)"

definition saturating_sub :: "u64 \<Rightarrow> u64 \<Rightarrow> u64" where
  "saturating_sub a b = (if b \<le> a then a - b else 0)"

definition replacement :: string where
  "replacement = [CHR 0xEF, CHR 0xBF, CHR 0xBD]"

text \<open>\<open>String::from_utf8_lossy\<close>: each maximal ill-formed subsequence becomes \<open>U+FFFD\<close>.\<close>

definition byte_at :: "string \<Rightarrow> nat \<Rightarrow> (char \<Rightarrow> bool) \<Rightarrow> bool" where
  "byte_at s i good \<longleftrightarrow> i < length s \<and> good (s ! i)"

definition utf8_chunk :: "string \<Rightarrow> nat \<times> bool" where
  "utf8_chunk s =
     (let a = hd s
      in if byte a < 128 then (1, True)
         else if 194 \<le> byte a \<and> byte a \<le> 223 then
           (if byte_at s 1 utf8_cont then (2, True) else (1, False))
         else if 224 \<le> byte a \<and> byte a \<le> 239 then
           (if \<not> byte_at s 1 (utf8_second3 a) then (1, False)
            else if byte_at s 2 utf8_cont then (3, True) else (2, False))
         else if 240 \<le> byte a \<and> byte a \<le> 244 then
           (if \<not> byte_at s 1 (utf8_second4 a) then (1, False)
            else if \<not> byte_at s 2 utf8_cont then (2, False)
            else if byte_at s 3 utf8_cont then (4, True) else (3, False))
         else (1, False))"

lemma utf8_chunk_pos: "(n, good) = utf8_chunk s \<Longrightarrow> 0 < n"
  by (auto simp: utf8_chunk_def Let_def split: if_splits)

function from_utf8_lossy :: "string \<Rightarrow> string" where
  "from_utf8_lossy s =
     (if s = [] then []
      else case utf8_chunk s of
             (n, good) \<Rightarrow> (if good then take n s else replacement) @ from_utf8_lossy (drop n s))"
  by pat_completeness auto
termination
  by (relation "measure length") (auto dest: utf8_chunk_pos)

declare from_utf8_lossy.simps [simp del]

section \<open>Lines and names\<close>

definition JOURNAL_SEGMENT_BYTES :: u64 where
  "JOURNAL_SEGMENT_BYTES = 8 * 1024 * 1024"

definition JOURNAL_TOTAL_BYTES :: u64 where
  "JOURNAL_TOTAL_BYTES = 64 * 1024 * 1024"

definition JOURNAL_MAX_AGE_MS :: u64 where
  "JOURNAL_MAX_AGE_MS = 30 * 24 * 60 * 60 * 1000"

abbreviation tab :: char where
  "tab \<equiv> CHR 0x09"

definition flatten_char :: "char \<Rightarrow> char" where
  "flatten_char c = (if c = CHR 0x0D \<or> c = newline \<or> c = tab then CHR '' '' else c)"

definition format_core_line :: "u64 \<Rightarrow> string \<Rightarrow> string \<Rightarrow> string \<Rightarrow> string" where
  "format_core_line ts engine stream message =
     show_nat (unat ts) @ tab # engine @ tab # stream @ tab # map flatten_char message @ [newline]"

definition core_line_timestamp :: "string \<Rightarrow> u64 option" where
  "core_line_timestamp line =
     (case split_once tab line of
        None \<Rightarrow> None
      | Some (stamp, _) \<Rightarrow>
          if stamp = [] \<or> \<not> list_all is_ascii_digit stamp then None else parse_u64 stamp)"

definition SEGMENT_PREFIX :: string where
  "SEGMENT_PREFIX = ''core-''"

definition SEGMENT_SUFFIX :: string where
  "SEGMENT_SUFFIX = ''.log''"

definition segment_name :: "u64 \<Rightarrow> string" where
  "segment_name start = SEGMENT_PREFIX @ show_nat (unat start) @ SEGMENT_SUFFIX"

definition segment_start :: "string \<Rightarrow> u64 option" where
  "segment_start name =
     (case Option.bind (strip_prefix SEGMENT_PREFIX name) (strip_suffix SEGMENT_SUFFIX) of
        None \<Rightarrow> None
      | Some digits \<Rightarrow>
          if digits = [] \<or> length digits > 20 \<or> \<not> list_all is_ascii_digit digits then None
          else parse_u64 digits)"

section \<open>The directory\<close>

text \<open>
  An entry: its name, whether \<open>symlink_metadata\<close> finds a regular file, its bytes, its modification
  time when the system gives one, and whether opening it for reading and removing it succeed.
\<close>

record dir_entry =
  entry_name :: string
  regular :: bool
  content :: string
  mtime :: "u64 option"
  readable :: bool
  removable :: bool

record journal_segment =
  start_ms :: u64
  seg_path :: string
  len :: u64
  modified_ms :: u64

definition segment_of :: "dir_entry \<Rightarrow> journal_segment option" where
  "segment_of e =
     Option.bind (to_str (entry_name e)) (\<lambda>name.
       Option.bind (segment_start name) (\<lambda>start.
         if \<not> regular e then None
         else Some \<lparr>start_ms = start, seg_path = entry_name e, len = of_nat (length (content e)),
                    modified_ms = (case mtime e of None \<Rightarrow> start | Some t \<Rightarrow> t)\<rparr>))"

definition journal_segments :: "dir_entry list option \<Rightarrow> journal_segment list" where
  "journal_segments d =
     (case d of
        None \<Rightarrow> []
      | Some entries \<Rightarrow> sort_key start_ms (List.map_filter segment_of entries))"

definition find_entry :: "string \<Rightarrow> dir_entry list \<Rightarrow> dir_entry option" where
  "find_entry name d = find (\<lambda>e. entry_name e = name) d"

definition remove_entry :: "string \<Rightarrow> dir_entry list \<Rightarrow> dir_entry list" where
  "remove_entry name d = filter (\<lambda>e. entry_name e \<noteq> name) d"

definition remove_ok :: "string \<Rightarrow> dir_entry list \<Rightarrow> bool" where
  "remove_ok name d = (case find_entry name d of None \<Rightarrow> False | Some e \<Rightarrow> removable e)"

section \<open>Pruning\<close>

fun prune_loop ::
    "string option \<Rightarrow> u64 \<Rightarrow> u64 \<Rightarrow> u64 \<Rightarrow> journal_segment list \<Rightarrow> dir_entry list \<Rightarrow> dir_entry list" where
  "prune_loop keep oldest limit whole [] d = d"
| "prune_loop keep oldest limit whole (s # ss) d =
     (if keep = Some (seg_path s) then prune_loop keep oldest limit whole ss d
      else if (modified_ms s < oldest \<or> limit < whole) \<and> remove_ok (seg_path s) d
      then prune_loop keep oldest limit (saturating_sub whole (len s)) ss (remove_entry (seg_path s) d)
      else prune_loop keep oldest limit whole ss d)"

definition prune_journal_within ::
    "u64 \<Rightarrow> string option \<Rightarrow> u64 \<Rightarrow> u64 \<Rightarrow> dir_entry list option \<Rightarrow> dir_entry list option" where
  "prune_journal_within now keep limit max_age d =
     map_option
       (prune_loop keep (saturating_sub now max_age) limit
          (sum_list (map len (journal_segments d))) (journal_segments d)) d"

definition prune_journal ::
    "u64 \<Rightarrow> string option \<Rightarrow> dir_entry list option \<Rightarrow> dir_entry list option" where
  "prune_journal now keep d = prune_journal_within now keep JOURNAL_TOTAL_BYTES JOURNAL_MAX_AGE_MS d"

section \<open>The writer\<close>

text \<open>
  The state of one process's writer; the open segment is its file's name and the bytes written to
  it. What the system answers during one call is an argument: the clock, whether the directory can
  be created, for which names creation fails otherwise than by an existing file, how far a
  failing write got, and the modification time a write leaves.
\<close>

record open_segment =
  seg_file :: string
  written :: u64

record core_journal =
  prune :: bool
  segment_limit :: u64
  open_seg :: "open_segment option"
  disabled :: bool

record journal_env =
  env_now :: u64
  mkdir_ok :: bool
  create_fails :: "string \<Rightarrow> bool"
  write_stops :: "nat option"

definition core_journal_new :: "bool \<Rightarrow> core_journal" where
  "core_journal_new p =
     \<lparr>prune = p, segment_limit = JOURNAL_SEGMENT_BYTES, open_seg = None, disabled = False\<rparr>"

definition new_file :: "u64 \<Rightarrow> string \<Rightarrow> dir_entry" where
  "new_file now name =
     \<lparr>entry_name = name, regular = True, content = [], mtime = Some now, readable = True,
      removable = True\<rparr>"

text \<open>The loop over candidate names: the next free one, an error, or none free.\<close>

fun create_segment ::
    "journal_env \<Rightarrow> nat \<Rightarrow> u64 \<Rightarrow> u64 \<Rightarrow> dir_entry list \<Rightarrow> string option" where
  "create_segment env 0 start bound d = None"
| "create_segment env (Suc fuel) start bound d =
     (if start \<ge> bound then None
      else let name = segment_name start
           in if find_entry name d \<noteq> None then create_segment env fuel (start + 1) bound d
              else if create_fails env name then None
              else Some name)"

definition open_segment_step ::
    "journal_env \<Rightarrow> core_journal \<Rightarrow> dir_entry list option
       \<Rightarrow> (core_journal \<times> dir_entry list option) option" where
  "open_segment_step env j d =
     (if \<not> mkdir_ok env then None
      else let entries = (case d of None \<Rightarrow> [] | Some es \<Rightarrow> es);
               now = env_now env
           in case create_segment env 64 now (saturating_add now 64) entries of
                None \<Rightarrow> None
              | Some name \<Rightarrow>
                  let d' = Some (entries @ [new_file now name])
                  in Some (j\<lparr>open_seg := Some \<lparr>seg_file = name, written = 0\<rparr>\<rparr>,
                           if prune j then prune_journal now (Some name) d' else d'))"

definition write_entry :: "u64 \<Rightarrow> string \<Rightarrow> string \<Rightarrow> dir_entry list \<Rightarrow> dir_entry list" where
  "write_entry now name bytes d =
     map (\<lambda>e. if entry_name e = name then e\<lparr>content := content e @ bytes, mtime := Some now\<rparr> else e) d"

definition segment_full :: "core_journal \<Rightarrow> string \<Rightarrow> bool" where
  "segment_full j line =
     (case open_seg j of
        None \<Rightarrow> True
      | Some s \<Rightarrow> written s > 0 \<and> saturating_add (written s) (of_nat (length line)) > segment_limit j)"

definition journal_failed :: "core_journal \<Rightarrow> core_journal" where
  "journal_failed j = j\<lparr>open_seg := None, disabled := True\<rparr>"

definition journal_append ::
    "journal_env \<Rightarrow> string \<Rightarrow> core_journal \<times> dir_entry list option
       \<Rightarrow> core_journal \<times> dir_entry list option" where
  "journal_append env line jd =
     (case jd of (j, d) \<Rightarrow>
        if disabled j then (j, d)
        else case (if segment_full j line then open_segment_step env j d else Some (j, d)) of
               None \<Rightarrow> (journal_failed j, d)
             | Some (j, d) \<Rightarrow>
                 (case open_seg j of
                    None \<Rightarrow> (journal_failed j, d)
                  | Some s \<Rightarrow>
                      (case write_stops env of
                         Some n \<Rightarrow> (journal_failed j, map_option (write_entry (env_now env) (seg_file s) (take n line)) d)
                       | None \<Rightarrow>
                           (j\<lparr>open_seg := Some (s\<lparr>written := saturating_add (written s) (of_nat (length line))\<rparr>)\<rparr>,
                            map_option (write_entry (env_now env) (seg_file s) line) d))))"

section \<open>The paged reader\<close>

definition read_file :: "string \<Rightarrow> u64 \<Rightarrow> nat \<Rightarrow> dir_entry list option \<Rightarrow> string option" where
  "read_file name from amount d =
     (case Option.bind d (find_entry name) of
        None \<Rightarrow> None
      | Some e \<Rightarrow> if readable e then Some (take amount (drop (unat from) (content e))) else None)"

fun position_of :: "('a \<Rightarrow> bool) \<Rightarrow> 'a list \<Rightarrow> nat option" where
  "position_of P [] = None"
| "position_of P (x # xs) = (if P x then Some 0 else map_option Suc (position_of P xs))"

definition journal_position ::
    "journal_segment list \<Rightarrow> core_journal_cursor option \<Rightarrow> (nat \<times> u64) option" where
  "journal_position segments cursor =
     (case cursor of
        None \<Rightarrow> if segments = [] then None else Some (0, 0)
      | Some c \<Rightarrow>
          map_option (\<lambda>index. if start_ms (segments ! index) = segment c then (index, offset c) else (index, 0))
            (position_of (\<lambda>s. start_ms s \<ge> segment c) segments))"

definition journal_following :: "journal_segment list \<Rightarrow> nat \<Rightarrow> core_journal_cursor option" where
  "journal_following segments index =
     (if Suc index < length segments
      then Some \<lparr>segment = start_ms (segments ! Suc index), offset = 0\<rparr> else None)"

text \<open>The bytes of a read that form whole lines, or a whole chunk of one longer line.\<close>

definition journal_cut :: "nat \<Rightarrow> string \<Rightarrow> nat" where
  "journal_cut amount bytes =
     (case position_of (\<lambda>b. b = newline) (rev bytes) of
        Some i \<Rightarrow> length bytes - i
      | None \<Rightarrow> if length bytes \<ge> amount then length bytes else 0)"

definition read_journal_chunk ::
    "dir_entry list option \<Rightarrow> u64 \<Rightarrow> core_journal_cursor option \<Rightarrow> nat
       \<Rightarrow> string \<times> core_journal_cursor option" where
  "read_journal_chunk d since cursor max_bytes =
     (let segments = filter (\<lambda>s. modified_ms s \<ge> since) (journal_segments d)
      in case journal_position segments cursor of
           None \<Rightarrow> ([], None)
         | Some (index, off) \<Rightarrow>
             let s = segments ! index; amount = max max_bytes 1
             in case read_file (seg_path s) off amount d of
                  None \<Rightarrow> ([], journal_following segments index)
                | Some [] \<Rightarrow> ([], journal_following segments index)
                | Some bytes \<Rightarrow>
                    let cut = journal_cut amount bytes;
                        consumed = saturating_add off (of_nat cut)
                    in (from_utf8_lossy (take cut bytes),
                        if cut > 0 \<and> consumed < len s
                        then Some \<lparr>segment = start_ms s, offset = consumed\<rparr>
                        else journal_following segments index))"

section \<open>Names and lines round trip\<close>

lemma tab_free: "tab \<notin> set (show_nat n)"
  using show_nat_digits by (rule digit_free) (simp add: is_ascii_digit_def)

lemma filter_newline_flat: "filter (\<lambda>c. c = newline) (map flatten_char s) = []"
  by (induction s) (simp_all add: flatten_char_def)

lemma filter_newline_digits: "filter (\<lambda>c. c = newline) (show_nat n) = []"
proof -
  have "newline \<notin> set (show_nat n)"
    using show_nat_digits by (rule digit_free) (simp add: is_ascii_digit_def)
  then show ?thesis by (auto simp: filter_empty_conv)
qed

lemma length_show_u64: "length (show_nat (unat (n :: u64))) \<le> 20"
  using length_show_nat [of 20 "unat n"] unat_bound [of n] by simp

lemma segment_start_name: "segment_start (segment_name n) = Some n"
proof -
  have "strip_prefix SEGMENT_PREFIX (segment_name n) = Some (show_nat (unat n) @ SEGMENT_SUFFIX)"
    by (simp add: segment_name_def strip_prefix_Some)
  moreover have "strip_suffix SEGMENT_SUFFIX (show_nat (unat n) @ SEGMENT_SUFFIX) = Some (show_nat (unat n))"
    by (simp add: strip_suffix_Some)
  ultimately show ?thesis
    using length_show_u64 [of n] by (simp add: segment_start_def show_nat_digits parse_u64_show)
qed

text \<open>
  A segment's name gives back its start, and a journal line its time stamp, for every 64-bit
  value; the line ends in its only line break, whatever the message holds, when engine and stream
  have none.
\<close>

theorem journal_names_roundtrip:
  "segment_start (segment_name start) = Some start
   \<and> core_line_timestamp (format_core_line ts engine stream message) = Some ts
   \<and> filter (\<lambda>c. c = newline) (format_core_line ts engine stream message) =
       filter (\<lambda>c. c = newline) (engine @ stream) @ [newline]
   \<and> last (format_core_line ts engine stream message) = newline"
proof (intro conjI)
  show "segment_start (segment_name start) = Some start" by (rule segment_start_name)
  have "split_once tab (format_core_line ts engine stream message) =
      Some (show_nat (unat ts), engine @ tab # stream @ tab # map flatten_char message @ [newline])"
    unfolding format_core_line_def by (rule split_once_append) (rule tab_free)
  then show "core_line_timestamp (format_core_line ts engine stream message) = Some ts"
    by (simp add: core_line_timestamp_def show_nat_digits parse_u64_show)
  show "filter (\<lambda>c. c = newline) (format_core_line ts engine stream message) =
      filter (\<lambda>c. c = newline) (engine @ stream) @ [newline]"
    by (simp add: format_core_line_def filter_newline_flat filter_newline_digits)
  show "last (format_core_line ts engine stream message) = newline"
    by (simp add: format_core_line_def)
qed

section \<open>What pruning keeps\<close>

fun survivors :: "string option \<Rightarrow> u64 \<Rightarrow> u64 \<Rightarrow> u64 \<Rightarrow> journal_segment list \<Rightarrow> journal_segment list" where
  "survivors keep oldest limit whole [] = []"
| "survivors keep oldest limit whole (s # ss) =
     (if keep \<noteq> Some (seg_path s) \<and> (modified_ms s < oldest \<or> limit < whole)
      then survivors keep oldest limit (saturating_sub whole (len s)) ss
      else s # survivors keep oldest limit whole ss)"

lemma survivors_subset: "set (survivors k ol l w ss) \<subseteq> set ss"
  by (induction ss arbitrary: w) auto

lemma survivors_filter: "distinct ss \<Longrightarrow> filter (\<lambda>s. s \<in> set (survivors k ol l w ss)) ss = survivors k ol l w ss"
proof (induction ss arbitrary: w)
  case (Cons s ss)
  have other: "filter (\<lambda>t. t = s \<or> t \<in> set (survivors k ol l v ss)) ss =
      filter (\<lambda>t. t \<in> set (survivors k ol l v ss)) ss" for v
    using Cons.prems by (intro filter_cong) auto
  show ?case
    using Cons survivors_subset [of k ol l _ ss] by (auto simp: other)
qed simp

lemma find_entry_remove: "n \<noteq> m \<Longrightarrow> find_entry n (remove_entry m d) = find_entry n d"
  by (induction d) (auto simp: find_entry_def remove_entry_def)

lemma remove_ok_remove: "n \<noteq> m \<Longrightarrow> remove_ok n (remove_entry m d) = remove_ok n d"
  by (simp add: remove_ok_def find_entry_remove)

lemma prune_loop_filter:
  "distinct (map seg_path ss) \<Longrightarrow> (\<And>s. s \<in> set ss \<Longrightarrow> remove_ok (seg_path s) d) \<Longrightarrow>
     prune_loop k ol l w ss d =
       filter (\<lambda>e. entry_name e \<notin> seg_path ` (set ss - set (survivors k ol l w ss))) d"
proof (induction ss arbitrary: w d)
  case (Cons s ss)
  have fresh: "s \<notin> set ss" "\<And>t. t \<in> set ss \<Longrightarrow> seg_path t \<noteq> seg_path s"
    using Cons.prems(1) by (auto simp: image_iff)
  have keep: "insert s (set ss) - insert s S = set ss - S" for S using fresh by auto
  have lose: "insert s (set ss) - set (survivors k ol l v ss) =
      insert s (set ss - set (survivors k ol l v ss))" for v
    using fresh survivors_subset by fastforce
  show ?case
  proof (cases "k \<noteq> Some (seg_path s) \<and> (modified_ms s < ol \<or> l < w)")
    case True
    let ?v = "saturating_sub w (len s)"
    have "prune_loop k ol l ?v ss (remove_entry (seg_path s) d) =
        filter (\<lambda>e. entry_name e \<notin> seg_path ` (set ss - set (survivors k ol l ?v ss)))
          (remove_entry (seg_path s) d)"
      using Cons.prems fresh by (intro Cons.IH) (auto simp: remove_ok_remove)
    with True Cons.prems(2) show ?thesis
      by (auto simp: lose remove_entry_def intro!: filter_cong)
  next
    case False
    with Cons.IH [of d w] Cons.prems show ?thesis by (auto simp: keep)
  qed
qed simp

definition segs_size :: "journal_segment list \<Rightarrow> nat" where
  "segs_size ss = sum_list (map (\<lambda>s. unat (len s)) ss)"

lemma segs_size_simps [simp]: "segs_size [] = 0" "segs_size (s # ss) = unat (len s) + segs_size ss"
  by (simp_all add: segs_size_def)

lemma unat_saturating_sub: "unat (saturating_sub a b) = unat a - unat b"
  by (simp add: saturating_sub_def unat_sub_if' word_le_nat_alt)

lemma saturating_sub_le: "saturating_sub a b \<le> a"
  by (simp add: word_le_nat_alt unat_saturating_sub)

lemma survivors_fit:
  "unat w = r + segs_size ss \<Longrightarrow>
     r + segs_size (survivors k ol l w ss) \<le> unat l \<or>
     (l < w \<and> (\<forall>s\<in>set (survivors k ol l w ss). k = Some (seg_path s)))"
proof (induction ss arbitrary: w r)
  case Nil
  then show ?case by (auto simp: word_less_nat_alt)
next
  case (Cons s ss)
  show ?case
  proof (cases "k \<noteq> Some (seg_path s) \<and> (modified_ms s < ol \<or> l < w)")
    case True
    have "unat (saturating_sub w (len s)) = r + segs_size ss"
      using Cons.prems by (simp add: unat_saturating_sub)
    from Cons.IH [OF this] True saturating_sub_le [of w "len s"] show ?thesis by auto
  next
    case False
    have "unat w = (r + unat (len s)) + segs_size ss" using Cons.prems by simp
    from Cons.IH [OF this] False show ?thesis by (auto simp: add.assoc)
  qed
qed

definition recent :: "string option \<Rightarrow> u64 \<Rightarrow> journal_segment \<Rightarrow> bool" where
  "recent keep oldest s \<longleftrightarrow> keep \<noteq> Some (seg_path s) \<and> oldest \<le> modified_ms s"

lemma survivors_all_recent:
  "w \<le> l \<Longrightarrow> filter (\<lambda>s. k \<noteq> Some (seg_path s)) (survivors k ol l w ss) = filter (recent k ol) ss"
proof (induction ss arbitrary: w)
  case (Cons s ss)
  have "saturating_sub w (len s) \<le> l" using saturating_sub_le Cons.prems by (rule order_trans)
  with Cons show ?case by (auto simp: recent_def not_less)
qed simp

lemma survivors_suffix:
  "\<exists>n. filter (\<lambda>s. k \<noteq> Some (seg_path s)) (survivors k ol l w ss) = drop n (filter (recent k ol) ss)"
proof (induction ss arbitrary: w)
  case (Cons s ss)
  show ?case
  proof (cases "w \<le> l")
    case True
    then show ?thesis using survivors_all_recent [OF True, of k ol "s # ss"] by (metis drop0)
  next
    case False
    obtain n where n: "filter (\<lambda>s. k \<noteq> Some (seg_path s)) (survivors k ol l (saturating_sub w (len s)) ss) =
        drop n (filter (recent k ol) ss)" using Cons.IH by blast
    obtain m where m: "filter (\<lambda>s. k \<noteq> Some (seg_path s)) (survivors k ol l w ss) =
        drop m (filter (recent k ol) ss)" using Cons.IH by blast
    show ?thesis
    proof (cases "k = Some (seg_path s)")
      case True
      then have "\<not> recent k ol s" by (simp add: recent_def)
      with m True show ?thesis by (intro exI [of _ m]) simp
    next
      case other: False
      with False n show ?thesis
        by (intro exI [of _ "if recent k ol s then Suc n else n"]) (simp add: not_le)
    qed
  qed
qed simp

lemma survivors_keep:
  "filter (\<lambda>s. k = Some (seg_path s)) (survivors k ol l w ss) = filter (\<lambda>s. k = Some (seg_path s)) ss"
  by (induction ss arbitrary: w) auto

text \<open>The segments of a directory, before sorting.\<close>

abbreviation raw_segments :: "dir_entry list \<Rightarrow> journal_segment list" where
  "raw_segments d \<equiv> List.map_filter segment_of d"

lemma segment_of_path: "segment_of e = Some s \<Longrightarrow> seg_path s = entry_name e"
  by (auto simp: segment_of_def bind_eq_Some_conv split: if_splits)

lemma map_filter_Cons:
  "List.map_filter f (x # xs) =
     (case f x of None \<Rightarrow> List.map_filter f xs | Some y \<Rightarrow> y # List.map_filter f xs)"
  by (simp add: List.map_filter_simps split: option.split)

lemma raw_segments_filter:
  "raw_segments (filter (\<lambda>e. entry_name e \<notin> N) d) = filter (\<lambda>s. seg_path s \<notin> N) (raw_segments d)"
proof (induction d)
  case (Cons e d)
  then show ?case
    by (cases "segment_of e") (auto simp: map_filter_Cons dest: segment_of_path)
qed (simp add: List.map_filter_simps)

lemma raw_segments_paths: "seg_path ` set (raw_segments d) \<subseteq> entry_name ` set d"
proof (induction d)
  case (Cons e d)
  then show ?case by (cases "segment_of e") (auto simp: map_filter_Cons dest: segment_of_path)
qed (simp add: List.map_filter_simps)

lemma raw_segments_distinct: "distinct (map entry_name d) \<Longrightarrow> distinct (map seg_path (raw_segments d))"
proof (induction d)
  case (Cons e d)
  then have "entry_name e \<notin> seg_path ` set (raw_segments d)" using raw_segments_paths [of d] by auto
  with Cons show ?case
    by (cases "segment_of e") (simp_all add: map_filter_Cons segment_of_path [of e])
qed (simp add: List.map_filter_simps)

lemma journal_segments_Some: "journal_segments (Some d) = sort_key start_ms (raw_segments d)"
  by (simp add: journal_segments_def)

lemma distinct_map_sort_key: "distinct (map f (sort_key g xs)) = distinct (map f xs)"
  using mset_map [of f] by (metis mset_eq_imp_distinct_iff mset_sort)

lemma remove_ok_all:
  assumes "distinct (map entry_name d)" "\<forall>e\<in>set d. removable e" "n \<in> entry_name ` set d"
  shows "remove_ok n d"
proof -
  from assms(3) obtain e where e: "find_entry n d = Some e"
    unfolding find_entry_def by (fastforce simp: find_None_iff simp flip: not_None_eq)
  then have "e \<in> set d" by (auto simp: find_entry_def find_Some_iff)
  with e assms(2) show ?thesis by (simp add: remove_ok_def)
qed

lemma prune_within_segments:
  assumes "distinct (map entry_name d)" "\<forall>e\<in>set d. removable e"
    and "prune_journal_within now keep limit age (Some d) = Some d'"
  shows "journal_segments (Some d') =
      survivors keep (saturating_sub now age) limit (sum_list (map len (journal_segments (Some d))))
        (journal_segments (Some d))"
    and "filter (\<lambda>e. segment_of e = None) d' = filter (\<lambda>e. segment_of e = None) d"
proof -
  let ?ss = "journal_segments (Some d)"
  let ?sv = "survivors keep (saturating_sub now age) limit (sum_list (map len ?ss)) ?ss"
  let ?N = "seg_path ` (set ?ss - set ?sv)"
  have dist: "distinct (map seg_path ?ss)"
    by (simp add: journal_segments_Some distinct_map_sort_key raw_segments_distinct assms(1))
  have "remove_ok (seg_path s) d" if "s \<in> set ?ss" for s
    using that raw_segments_paths [of d]
    by (intro remove_ok_all assms) (auto simp: journal_segments_Some)
  from prune_loop_filter [OF dist this] assms(3)
  have d': "d' = filter (\<lambda>e. entry_name e \<notin> ?N) d"
    by (simp add: prune_journal_within_def)
  have "s \<notin> set ?sv \<longleftrightarrow> seg_path s \<in> ?N" if "s \<in> set ?ss" for s
    using that dist by (auto simp: distinct_map inj_on_def)
  then have "filter (\<lambda>s. seg_path s \<notin> ?N) ?ss = filter (\<lambda>s. s \<in> set ?sv) ?ss"
    by (intro filter_cong) auto
  also have "\<dots> = ?sv" using dist by (intro survivors_filter) (simp add: distinct_map)
  finally show "journal_segments (Some d') = ?sv"
    by (simp add: d' journal_segments_Some raw_segments_filter filter_sort)
  have "entry_name e \<notin> ?N" if e: "e \<in> set d" "segment_of e = None" for e
  proof
    assume "entry_name e \<in> ?N"
    then obtain s where "s \<in> set (raw_segments d)" "seg_path s = entry_name e"
      by (auto simp: journal_segments_Some)
    then obtain e' where "e' \<in> set d" "segment_of e' = Some s"
      by (auto simp: List.map_filter_def)
    with \<open>seg_path s = entry_name e\<close> e assms(1) segment_of_path have "e' = e"
      by (metis distinct_map inj_onD)
    with \<open>segment_of e' = Some s\<close> e(2) show False by simp
  qed
  then show "filter (\<lambda>e. segment_of e = None) d' = filter (\<lambda>e. segment_of e = None) d"
    by (auto simp: d' intro!: filter_cong)
qed

lemma unat_sum_len: "segs_size ss < 2 ^ 64 \<Longrightarrow> unat (sum_list (map len ss)) = segs_size ss"
proof (induction ss)
  case (Cons s ss)
  then show ?case by (simp add: unat_word_ariths)
qed simp

text \<open>
  Pruning bounds the journal and loses nothing else: the segment being written and every file
  that is no segment stay; of the other segments exactly a run of the newest of those young enough
  stays, all of them when the journal was within its limit; and afterwards the journal fits the
  limit, or nothing but the segment being written is left.
\<close>

theorem prune_journal_bounded:
  assumes "distinct (map entry_name d)" "\<forall>e\<in>set d. removable e"
    and "segs_size (journal_segments (Some d)) < 2 ^ 64"
    and "prune_journal_within now keep limit age (Some d) = Some d'"
  shows "filter (\<lambda>e. segment_of e = None) d' = filter (\<lambda>e. segment_of e = None) d
    \<and> filter (\<lambda>s. keep = Some (seg_path s)) (journal_segments (Some d')) =
        filter (\<lambda>s. keep = Some (seg_path s)) (journal_segments (Some d))
    \<and> (\<exists>n. filter (\<lambda>s. keep \<noteq> Some (seg_path s)) (journal_segments (Some d')) =
          drop n (filter (recent keep (saturating_sub now age)) (journal_segments (Some d)))
        \<and> (segs_size (journal_segments (Some d)) \<le> unat limit \<longrightarrow> n = 0))
    \<and> (segs_size (journal_segments (Some d')) \<le> unat limit
       \<or> filter (\<lambda>s. keep \<noteq> Some (seg_path s)) (journal_segments (Some d')) = [])"
proof -
  let ?ss = "journal_segments (Some d)" and ?w = "sum_list (map len (journal_segments (Some d)))"
  let ?sv = "survivors keep (saturating_sub now age) limit ?w ?ss"
  note segs = prune_within_segments [OF assms(1,2,4)]
  have w: "unat ?w = 0 + segs_size ?ss" using unat_sum_len [OF assms(3)] by simp
  have "segs_size ?ss \<le> unat limit \<longleftrightarrow> ?w \<le> limit" using w by (simp add: word_le_nat_alt)
  then have "\<exists>n. filter (\<lambda>s. keep \<noteq> Some (seg_path s)) ?sv =
      drop n (filter (recent keep (saturating_sub now age)) ?ss)
      \<and> (segs_size ?ss \<le> unat limit \<longrightarrow> n = 0)"
    using survivors_all_recent [of ?w limit keep] survivors_suffix [of keep _ limit ?w ?ss]
    by (cases "?w \<le> limit") (metis drop0, blast)
  moreover have "segs_size ?sv \<le> unat limit \<or> filter (\<lambda>s. keep \<noteq> Some (seg_path s)) ?sv = []"
    using survivors_fit [OF w, of keep "saturating_sub now age" limit] by (auto simp: filter_empty_conv)
  ultimately show ?thesis unfolding segs(1) using segs(2) survivors_keep by blast
qed

lemma segment_name_utf8: "to_str (segment_name n) = Some (segment_name n)"
proof -
  have "is_ascii (show_nat (unat n))"
    using show_nat_digits [of "unat n"] by (auto simp: is_ascii_def list_all_iff is_ascii_digit_def)
  then have "is_ascii (segment_name n)"
    by (simp add: segment_name_def SEGMENT_PREFIX_def SEGMENT_SUFFIX_def is_ascii_def)
  then show ?thesis by (simp add: to_str_def is_ascii_valid_utf8)
qed

lemma segment_name_inj: "segment_name m = segment_name n \<longleftrightarrow> m = n"
  by (metis segment_start_name option.inject)

text \<open>A regular, readable file named like the segment of a start time.\<close>

definition segment_file :: "u64 \<Rightarrow> u64 \<Rightarrow> string \<Rightarrow> dir_entry" where
  "segment_file start modified bytes =
     \<lparr>entry_name = segment_name start, regular = True, content = bytes, mtime = Some modified,
      readable = True, removable = True\<rparr>"

lemma segment_of_file:
  "segment_of (segment_file start modified bytes) =
     Some \<lparr>start_ms = start, seg_path = segment_name start, len = of_nat (length bytes),
           modified_ms = modified\<rparr>"
  by (simp add: segment_of_def segment_file_def segment_name_utf8 segment_start_name)

lemmas journal_eval =
  journal_segments_Some map_filter_Cons segment_of_file segment_name_inj saturating_sub_def
  List.map_filter_simps

theorem prune_journal_bounded_witness:
  "segs_size (journal_segments (Some [segment_file 2 9 ''cd''])) \<le> unat (3 :: u64) \<or>
   filter (\<lambda>s. True) (journal_segments (Some [segment_file 2 9 ''cd''])) = []"
proof -
  let ?d = "[segment_file 1 8 ''ab'', segment_file 2 9 ''cd'']"
  have pruned: "prune_journal_within 10 None 3 5 (Some ?d) = Some [segment_file 2 9 ''cd'']"
    by (simp add: prune_journal_within_def journal_eval remove_ok_def find_entry_def remove_entry_def)
      (simp add: segment_file_def segment_name_inj)
  have "distinct (map entry_name ?d)" "\<forall>e\<in>set ?d. removable e"
    by (simp_all add: segment_file_def segment_name_inj)
  moreover have "segs_size (journal_segments (Some ?d)) < 2 ^ 64" by (simp add: journal_eval)
  ultimately show ?thesis using prune_journal_bounded [OF _ _ _ pruned] by simp
qed

end
