(* ===== verification/Journal_Writer.thy ===== *)
theory Journal_Writer
  imports Core_Journal "HOL-Library.Sublist"
begin

text \<open>
  The journal writer as a state machine: any sequence of \<open>journal_append\<close> calls, whatever the
  system answers to each, keeps the invariant that every file it made holds a run of the appended
  lines, cut only where a write failed, within the segment limit unless it is a single line.
\<close>

section \<open>Runs\<close>

definition entries :: "dir_entry list option \<Rightarrow> dir_entry list" where
  "entries d = (case d of None \<Rightarrow> [] | Some es \<Rightarrow> es)"

text \<open>
  The states reached from a new writer over the directory \<open>d0\<close>, with the lines appended so far. A
  Rust string never reaches 2 to the 63 bytes.
\<close>

inductive journal_run ::
    "dir_entry list option \<Rightarrow> bool \<Rightarrow> string list \<Rightarrow> core_journal \<times> dir_entry list option \<Rightarrow> bool"
  for d0 p where
    created: "journal_run d0 p [] (core_journal_new p, d0)"
  | appended: "journal_run d0 p hist jd \<Longrightarrow> length line < 2 ^ 63 \<Longrightarrow>
      journal_run d0 p (hist @ [line]) (journal_append env line jd)"

definition fits_limit :: "string list \<Rightarrow> string \<Rightarrow> bool" where
  "fits_limit ls part \<longleftrightarrow>
     length (concat ls @ part) \<le> unat JOURNAL_SEGMENT_BYTES \<or>
     length (filter (\<lambda>l. l \<noteq> []) (ls @ [part])) \<le> 1"

definition holds_lines :: "string list \<Rightarrow> dir_entry \<Rightarrow> bool" where
  "holds_lines hist e \<longleftrightarrow>
     (\<exists>before ls after part. hist = before @ ls @ after \<and> content e = concat ls @ part
        \<and> (part = [] \<or> (\<exists>line rest. after = line # rest \<and> prefix part line)) \<and> fits_limit ls part)"

definition open_file_ok :: "string list \<Rightarrow> dir_entry list \<Rightarrow> open_segment \<Rightarrow> bool" where
  "open_file_ok hist es s \<longleftrightarrow>
     seg_file s \<in> entry_name ` set es \<and>
     (\<exists>before ls. hist = before @ ls \<and> unat (written s) = length (concat ls) \<and>
        length (concat ls) < 2 ^ 63 \<and> fits_limit ls [] \<and>
        (\<forall>e\<in>set es. entry_name e = seg_file s \<longrightarrow> content e = concat ls))"

lemma open_file_okI:
  assumes "seg_file s \<in> entry_name ` set es" "hist = before @ ls"
    and "unat (written s) = length (concat ls)" "length (concat ls) < 2 ^ 63" "fits_limit ls []"
    and "\<And>e. e \<in> set es \<Longrightarrow> entry_name e = seg_file s \<Longrightarrow> content e = concat ls"
  shows "open_file_ok hist es s"
  unfolding open_file_ok_def using assms by blast

lemma open_file_okE:
  assumes "open_file_ok hist es s"
  obtains before ls where "seg_file s \<in> entry_name ` set es" "hist = before @ ls"
    "unat (written s) = length (concat ls)" "length (concat ls) < 2 ^ 63" "fits_limit ls []"
    "\<And>e. e \<in> set es \<Longrightarrow> entry_name e = seg_file s \<Longrightarrow> content e = concat ls"
  using assms unfolding open_file_ok_def by blast

definition foreign :: "dir_entry list option \<Rightarrow> dir_entry \<Rightarrow> bool" where
  "foreign d0 e \<longleftrightarrow> e \<in> set (entries d0) \<and> segment_of e = None"

definition journal_inv ::
    "dir_entry list option \<Rightarrow> string list \<Rightarrow> core_journal \<times> dir_entry list option \<Rightarrow> bool" where
  "journal_inv d0 hist jd \<longleftrightarrow>
     segment_limit (fst jd) = JOURNAL_SEGMENT_BYTES \<and>
     distinct (map entry_name (entries (snd jd))) \<and>
     (\<forall>e\<in>set (entries (snd jd)). e \<in> set (entries d0) \<or> holds_lines hist e) \<and>
     (\<forall>e. foreign d0 e \<longrightarrow> e \<in> set (entries (snd jd)) \<and>
        (\<forall>s. open_seg (fst jd) = Some s \<longrightarrow> seg_file s \<noteq> entry_name e)) \<and>
     (\<forall>s. open_seg (fst jd) = Some s \<longrightarrow>
        \<not> disabled (fst jd) \<and> open_file_ok hist (entries (snd jd)) s)"

section \<open>Pruning only filters\<close>

lemma prune_loop_filters: "\<exists>P. prune_loop k ol l w ss d = filter P d"
proof (induction ss arbitrary: w d)
  case Nil
  then show ?case by (intro exI [of _ "\<lambda>_. True"]) simp
next
  case (Cons s ss)
  obtain P where "prune_loop k ol l (saturating_sub w (len s)) ss (remove_entry (seg_path s) d) =
      filter P (remove_entry (seg_path s) d)" using Cons.IH by blast
  then have "prune_loop k ol l (saturating_sub w (len s)) ss (remove_entry (seg_path s) d) =
      filter (\<lambda>e. entry_name e \<noteq> seg_path s \<and> P e) d" by (simp add: remove_entry_def conj_commute)
  then show ?case using Cons.IH [of w d] by auto
qed

lemma prune_loop_keeps:
  "e \<in> set d \<Longrightarrow> (\<forall>s\<in>set ss. seg_path s = entry_name e \<longrightarrow> k = Some (seg_path s)) \<Longrightarrow>
     e \<in> set (prune_loop k ol l w ss d)"
proof (induction ss arbitrary: w d)
  case (Cons s ss)
  have "e \<in> set (remove_entry (seg_path s) d)" if "k \<noteq> Some (seg_path s)"
    using that Cons.prems by (auto simp: remove_entry_def)
  with Cons show ?case by (cases "k = Some (seg_path s)") auto
qed simp

lemma prune_journal_filters: "\<exists>P. entries (prune_journal now keep d) = filter P (entries d)"
  using prune_loop_filters
  by (cases d) (auto simp: prune_journal_def prune_journal_within_def entries_def)

lemma prune_journal_keeps:
  assumes "e \<in> set (entries d)" "distinct (map entry_name (entries d))"
    and "segment_of e = None \<or> keep = Some (entry_name e)"
  shows "e \<in> set (entries (prune_journal now keep d))"
proof -
  obtain es where d: "d = Some es" using assms(1) by (cases d) (auto simp: entries_def)
  have "keep = Some (seg_path s)" if "s \<in> set (journal_segments d)" "seg_path s = entry_name e" for s
  proof -
    from that(1) obtain e' where e': "e' \<in> set es" "segment_of e' = Some s"
      by (auto simp: d journal_segments_Some List.map_filter_def)
    with that(2) have "entry_name e' = entry_name e" by (simp add: segment_of_path)
    with e' assms d have "e' = e" by (auto simp: entries_def distinct_map inj_on_def)
    with e' assms(3) that(2) show ?thesis by auto
  qed
  with assms(1) d show ?thesis
    by (auto simp: prune_journal_def prune_journal_within_def entries_def intro!: prune_loop_keeps)
qed

section \<open>Opening a segment\<close>

lemma create_segment_fresh: "create_segment env n start bound d = Some name \<Longrightarrow> find_entry name d = None"
  by (induction env n start bound d rule: create_segment.induct)
    (auto simp: Let_def split: if_splits)

lemma find_entry_None: "find_entry name d = None \<longleftrightarrow> name \<notin> entry_name ` set d"
  by (auto simp: find_entry_def find_None_iff)

lemma segment_full_limit:
  assumes "open_seg j = Some s" "\<not> segment_full j line" "segment_limit j = JOURNAL_SEGMENT_BYTES"
    and "unat (written s) < 2 ^ 63" "length line < 2 ^ 63"
  shows "unat (written s) = 0 \<or> unat (written s) + length line \<le> unat JOURNAL_SEGMENT_BYTES"
    and "unat (saturating_add (written s) (of_nat (length line))) = unat (written s) + length line"
proof -
  have line: "unat (of_nat (length line) :: u64) = length line"
    using assms(5) by (simp add: unsigned_of_nat take_bit_nat_eq_self)
  have small: "unat (written s) + length line < 2 ^ 64" using assms(4,5) by simp
  show add: "unat (saturating_add (written s) (of_nat (length line))) = unat (written s) + length line"
    using small by (simp add: saturating_add_def line unat_word_ariths)
  show "unat (written s) = 0 \<or> unat (written s) + length line \<le> unat JOURNAL_SEGMENT_BYTES"
    using assms(1-3) add by (auto simp: segment_full_def word_le_nat_alt not_less unat_gt_0)
qed

lemma new_file_holds: "holds_lines hist (new_file now name)"
proof -
  have "hist = [] @ [] @ hist \<and> content (new_file now name) = concat [] @ [] \<and> fits_limit [] []"
    by (simp add: new_file_def fits_limit_def)
  then show ?thesis unfolding holds_lines_def by blast
qed

lemma open_segment_inv:
  assumes inv: "journal_inv d0 hist (j, d)" and enabled: "\<not> disabled j"
    and step: "open_segment_step env j d = Some (j', d')"
  shows "journal_inv d0 hist (j', d') \<and> \<not> disabled j' \<and> (\<exists>s. open_seg j' = Some s \<and> written s = 0)"
proof -
  obtain name where name: "create_segment env 64 (env_now env) (saturating_add (env_now env) 64) (entries d) = Some name"
    and j': "j' = j\<lparr>open_seg := Some \<lparr>seg_file = name, written = 0\<rparr>\<rparr>"
    and d': "d' = (let d1 = Some (entries d @ [new_file (env_now env) name])
             in if prune j then prune_journal (env_now env) (Some name) d1 else d1)"
    using step by (auto simp: open_segment_step_def Let_def entries_def split: if_splits option.splits)
  define es where "es = entries d @ [new_file (env_now env) name]"
  have fresh: "name \<notin> entry_name ` set (entries d)"
    using create_segment_fresh [OF name] by (simp add: find_entry_None)
  have new: "entry_name (new_file (env_now env) name) = name" "content (new_file (env_now env) name) = []"
    by (simp_all add: new_file_def)
  have dist: "distinct (map entry_name es)"
    using inv fresh by (simp add: journal_inv_def es_def new)
  obtain P where P: "entries d' = filter P es"
    and kept: "\<And>e. e \<in> set es \<Longrightarrow> segment_of e = None \<or> entry_name e = name \<Longrightarrow> e \<in> set (entries d')"
  proof (cases "prune j")
    case True
    then have d'eq: "d' = prune_journal (env_now env) (Some name) (Some es)" by (simp add: d' es_def)
    obtain P where "entries d' = filter P es"
      using prune_journal_filters [of "env_now env" "Some name" "Some es"]
      by (auto simp: d'eq entries_def)
    moreover have "e \<in> set (entries d')" if "e \<in> set es" "segment_of e = None \<or> entry_name e = name" for e
      unfolding d'eq using that dist by (intro prune_journal_keeps) (auto simp: entries_def)
    ultimately show thesis using that by blast
  next
    case False
    then have "entries d' = es" by (simp add: d' es_def entries_def)
    then show thesis using that [of "\<lambda>_. True"] by simp
  qed
  have sub: "set (entries d') \<subseteq> set es" using P by auto
  have in_new: "new_file (env_now env) name \<in> set (entries d')" by (rule kept) (simp_all add: es_def new)
  have ok: "open_file_ok hist (entries d') \<lparr>seg_file = name, written = 0\<rparr>"
  proof (rule open_file_okI)
    show "hist = hist @ []" by simp
    show "seg_file \<lparr>seg_file = name, written = 0\<rparr> \<in> entry_name ` set (entries d')"
      using in_new new(1) by (auto intro: rev_image_eqI)
    show "content e = concat []" if "e \<in> set (entries d')"
      "entry_name e = seg_file \<lparr>seg_file = name, written = 0\<rparr>" for e
      using that sub fresh new by (auto simp: es_def)
  qed (simp_all add: fits_limit_def)
  have "journal_inv d0 hist (j', d')"
    unfolding journal_inv_def fst_conv snd_conv
  proof (intro conjI allI impI ballI)
    show "segment_limit j' = JOURNAL_SEGMENT_BYTES" using inv by (simp add: journal_inv_def j')
    show "distinct (map entry_name (entries d'))" using dist P by (simp add: distinct_map_filter)
    show "e \<in> set (entries d0) \<or> holds_lines hist e" if "e \<in> set (entries d')" for e
      using that sub inv new_file_holds by (auto simp: es_def journal_inv_def)
    show "e \<in> set (entries d')" if "foreign d0 e" for e
      using that inv by (intro kept) (auto simp: journal_inv_def es_def foreign_def)
    show "seg_file s \<noteq> entry_name e" if "foreign d0 e" "open_seg j' = Some s" for e s
      using that inv fresh by (auto simp: journal_inv_def j')
    show "\<not> disabled j'" using enabled by (simp add: j')
    show "open_file_ok hist (entries d') s" if "open_seg j' = Some s" for s
      using that ok by (simp add: j')
  qed
  then show ?thesis using enabled by (simp add: j')
qed

section \<open>Writing a line\<close>

lemma entries_map: "entries (map_option (write_entry t n b) d) = write_entry t n b (entries d)"
  by (cases d) (simp_all add: entries_def write_entry_def)

lemma write_entry_names: "map entry_name (write_entry t n b d) = map entry_name d"
  by (simp add: write_entry_def)

lemma in_write_entry:
  "e \<in> set (write_entry t n b d) \<longleftrightarrow>
     (\<exists>f\<in>set d. if entry_name f = n then e = f\<lparr>content := content f @ b, mtime := Some t\<rparr> else e = f)"
  unfolding write_entry_def set_map image_iff by (intro bex_cong refl) (simp split: if_split)

lemma holds_lines_more: "holds_lines hist e \<Longrightarrow> holds_lines (hist @ [line]) e"
proof -
  assume "holds_lines hist e"
  then obtain before ls after part where parts: "hist = before @ ls @ after" "content e = concat ls @ part"
    "part = [] \<or> (\<exists>line rest. after = line # rest \<and> prefix part line)" "fits_limit ls part"
    unfolding holds_lines_def by blast
  then have "hist @ [line] = before @ ls @ (after @ [line])"
    "part = [] \<or> (\<exists>l rest. after @ [line] = l # rest \<and> prefix part l)" by auto
  with parts(2,4) show ?thesis unfolding holds_lines_def by blast
qed

lemma journal_inv_more:
  assumes "journal_inv d0 hist (j, d)"
  shows "journal_inv d0 (hist @ [line]) (j\<lparr>open_seg := None, disabled := b\<rparr>, d)"
  using assms by (auto simp: journal_inv_def intro: holds_lines_more)

text \<open>
  One write to the open file: of the whole line, which keeps it open, or of a part of it, which
  closes it.
\<close>

lemma write_inv:
  assumes inv: "journal_inv d0 hist (j, d)" and "open": "open_seg j = Some s"
    and fits: "unat (written s) = 0 \<or> unat (written s) + length line \<le> unat JOURNAL_SEGMENT_BYTES"
    and line: "length line < 2 ^ 63"
    and size: "unat w = unat (written s) + length line"
    and part: "prefix part line"
  shows "part = line \<Longrightarrow> journal_inv d0 (hist @ [line])
      (j\<lparr>open_seg := Some (s\<lparr>written := w\<rparr>)\<rparr>, map_option (write_entry t (seg_file s) line) d)"
    and "journal_inv d0 (hist @ [line])
      (journal_failed j, map_option (write_entry t (seg_file s) part) d)"
proof -
  from inv "open" have ok: "open_file_ok hist (entries d) s" by (simp add: journal_inv_def)
  obtain before ls where named: "seg_file s \<in> entry_name ` set (entries d)"
    and hist: "hist = before @ ls" and written: "unat (written s) = length (concat ls)"
    and small: "length (concat ls) < 2 ^ 63" and "fits_limit ls []"
    and bytes: "\<And>e. e \<in> set (entries d) \<Longrightarrow> entry_name e = seg_file s \<Longrightarrow> content e = concat ls"
    by (rule open_file_okE [OF ok]) blast
  have empty: "filter (\<lambda>l. l \<noteq> []) ls = []" if "length (concat ls) = 0"
    using that by (auto simp: filter_empty_conv)
  have fit: "fits_limit ls p" "fits_limit (ls @ [p]) []" if "length p \<le> length line" for p
    using fits that written empty by (auto simp: fits_limit_def)
  have unchanged: "e \<in> set (write_entry t (seg_file s) b (entries d))"
    if "e \<in> set (entries d)" "entry_name e \<noteq> seg_file s" for e b
    using that by (auto simp: in_write_entry)
  have limit: "segment_limit j = JOURNAL_SEGMENT_BYTES" and enabled: "\<not> disabled j"
    and distinct: "distinct (map entry_name (entries d))"
    using inv "open" by (simp_all add: journal_inv_def)
  have foreign: "e \<in> set (write_entry t (seg_file s) b (entries d)) \<and> seg_file s \<noteq> entry_name e"
    if "foreign d0 e" for e b
    using that inv "open" unchanged [of e b] by (auto simp: journal_inv_def)
  have held: "e \<in> set (entries d0) \<or> holds_lines (hist @ [line]) e"
    if e: "e \<in> set (write_entry t (seg_file s) b (entries d))" and b: "prefix b line" for e b
  proof -
    obtain f where f: "f \<in> set (entries d)"
      "if entry_name f = seg_file s then e = f\<lparr>content := content f @ b, mtime := Some t\<rparr> else e = f"
      using e by (auto simp: in_write_entry)
    show ?thesis
    proof (cases "entry_name f = seg_file s")
      case True
      then have "content e = concat ls @ b" using f bytes by simp
      moreover have "hist @ [line] = before @ ls @ [line]" by (simp add: hist)
      moreover have "fits_limit ls b" using b fit(1) by (simp add: prefix_length_le)
      ultimately show ?thesis using b unfolding holds_lines_def by blast
    next
      case False
      with f inv show ?thesis by (auto simp: journal_inv_def intro: holds_lines_more)
    qed
  qed
  show "journal_inv d0 (hist @ [line])
      (journal_failed j, map_option (write_entry t (seg_file s) part) d)"
    using held [OF _ part] foreign limit distinct
    by (auto simp: journal_inv_def journal_failed_def entries_map write_entry_names)
  have "open_file_ok (hist @ [line]) (write_entry t (seg_file s) line (entries d)) (s\<lparr>written := w\<rparr>)"
  proof (rule open_file_okI)
    show "hist @ [line] = before @ (ls @ [line])" by (simp add: hist)
    show "unat (written (s\<lparr>written := w\<rparr>)) = length (concat (ls @ [line]))" using size written by simp
    show "length (concat (ls @ [line])) < 2 ^ 63"
    proof (cases "length (concat ls) = 0")
      case True
      then have "length (concat (ls @ [line])) = length line"
        unfolding concat_append length_append by simp
      with line show ?thesis by (simp only:)
    next
      case False
      with fits written have "length (concat ls) + length line \<le> 8388608"
        by (auto simp: JOURNAL_SEGMENT_BYTES_def)
      then show ?thesis by simp
    qed
    show "fits_limit (ls @ [line]) []" by (rule fit(2)) simp
    show "content e = concat (ls @ [line])"
      if e: "e \<in> set (write_entry t (seg_file s) line (entries d))"
        "entry_name e = seg_file (s\<lparr>written := w\<rparr>)" for e
    proof -
      obtain f where f: "f \<in> set (entries d)"
        "if entry_name f = seg_file s then e = f\<lparr>content := content f @ line, mtime := Some t\<rparr> else e = f"
        using e(1) by (auto simp: in_write_entry)
      with e(2) have "entry_name f = seg_file s" by (auto split: if_splits)
      with f bytes show ?thesis by simp
    qed
    show "seg_file (s\<lparr>written := w\<rparr>) \<in> entry_name ` set (write_entry t (seg_file s) line (entries d))"
      using named arg_cong [OF write_entry_names [of t "seg_file s" line "entries d"], of set] by simp
  qed
  then show "journal_inv d0 (hist @ [line])
      (j\<lparr>open_seg := Some (s\<lparr>written := w\<rparr>)\<rparr>, map_option (write_entry t (seg_file s) line) d)"
    if "part = line"
    using held [OF _ prefix_order.refl] foreign limit distinct enabled
    by (auto simp: journal_inv_def entries_map write_entry_names)
qed

section \<open>Every call keeps the invariant\<close>

lemma take_length_prefix: "prefix (take n line) line"
  by (rule take_is_prefix)

lemma write_step_inv:
  assumes inv: "journal_inv d0 hist (j, d)" and "open": "open_seg j = Some s"
    and notfull: "written s = 0 \<or> \<not> segment_full j line" and line: "length line < 2 ^ 63"
  shows "journal_inv d0 (hist @ [line])
      (case write_stops env of
         Some n \<Rightarrow> (journal_failed j, map_option (write_entry (env_now env) (seg_file s) (take n line)) d)
       | None \<Rightarrow>
           (j\<lparr>open_seg := Some (s\<lparr>written := saturating_add (written s) (of_nat (length line))\<rparr>)\<rparr>,
            map_option (write_entry (env_now env) (seg_file s) line) d))"
proof -
  have limit: "segment_limit j = JOURNAL_SEGMENT_BYTES" and ok: "open_file_ok hist (entries d) s"
    using inv "open" by (auto simp: journal_inv_def)
  have "\<not> segment_full j line"
    using notfull "open" by (auto simp: segment_full_def)
  moreover have "unat (written s) < 2 ^ 63" using ok by (rule open_file_okE) simp
  ultimately have fits: "unat (written s) = 0 \<or> unat (written s) + length line \<le> unat JOURNAL_SEGMENT_BYTES"
    and size: "unat (saturating_add (written s) (of_nat (length line))) = unat (written s) + length line"
    using segment_full_limit [OF "open" _ limit _ line] by blast+
  show ?thesis
  proof (cases "write_stops env")
    case None
    then show ?thesis
      using write_inv(1) [OF inv "open" fits line size prefix_order.refl refl] by simp
  next
    case (Some n)
    then show ?thesis
      using write_inv(2) [OF inv "open" fits line size take_length_prefix] by simp
  qed
qed

lemma journal_append_inv:
  assumes inv: "journal_inv d0 hist jd" and line: "length line < 2 ^ 63"
  shows "journal_inv d0 (hist @ [line]) (journal_append env line jd)"
proof -
  obtain j d where jd: "jd = (j, d)" by fastforce
  note inv = inv [unfolded jd]
  have failed: "journal_inv d0 (hist @ [line]) (journal_failed j, d)"
    unfolding journal_failed_def by (rule journal_inv_more [OF inv])
  show ?thesis
  proof (cases "disabled j")
    case True
    then have "open_seg j = None" using inv by (cases "open_seg j") (auto simp: journal_inv_def)
    with True have "journal_append env line jd = (j\<lparr>open_seg := None, disabled := True\<rparr>, d)"
      by (simp add: journal_append_def jd)
    then show ?thesis using journal_inv_more [OF inv] by simp
  next
    case enabled: False
    show ?thesis
    proof (cases "segment_full j line")
      case True
      show ?thesis
      proof (cases "open_segment_step env j d")
        case None
        with enabled True failed show ?thesis by (simp add: journal_append_def jd)
      next
        case (Some opened)
        obtain j' d' where o: "opened = (j', d')" by fastforce
        from open_segment_inv [OF inv enabled Some [unfolded o]] obtain s where
          s: "journal_inv d0 hist (j', d')" "open_seg j' = Some s" "written s = 0" by blast
        with enabled True Some o show ?thesis
          using write_step_inv [OF s(1,2) _ line, of env] by (simp add: journal_append_def jd)
      qed
    next
      case False
      then obtain s where s: "open_seg j = Some s" by (cases "open_seg j") (auto simp: segment_full_def)
      with enabled False show ?thesis
        using write_step_inv [OF inv s _ line, of env] by (simp add: journal_append_def jd)
    qed
  qed
qed

lemma journal_run_inv:
  "journal_run d0 p hist jd \<Longrightarrow> distinct (map entry_name (entries d0)) \<Longrightarrow> journal_inv d0 hist jd"
proof (induction rule: journal_run.induct)
  case created
  then show ?case by (auto simp: journal_inv_def core_journal_new_def foreign_def)
next
  case (appended hist jd line env)
  then show ?case by (intro journal_append_inv) simp_all
qed

text \<open>
  C18. However many lines a process appends and whatever the system answers, every file of the
  directory is either one that was there, untouched, or holds a run of consecutive appended lines,
  whole except for a last one whose write failed, and within the segment limit unless it is one
  line; files that are no segments all stay, names stay distinct, and the file being written is
  still there.
\<close>

theorem journal_writer_invariant:
  assumes "journal_run d0 p hist (j, d)" and "distinct (map entry_name (entries d0))"
  shows "(\<forall>e\<in>set (entries d). e \<in> set (entries d0) \<or> holds_lines hist e)
    \<and> (\<forall>e\<in>set (entries d0). segment_of e = None \<longrightarrow> e \<in> set (entries d))
    \<and> distinct (map entry_name (entries d))
    \<and> (\<forall>s\<in>set_option (open_seg j). seg_file s \<in> entry_name ` set (entries d))"
proof -
  note inv = journal_run_inv [OF assms]
  moreover have "seg_file s \<in> entry_name ` set (entries d)" if "open_seg j = Some s" for s
    using inv that by (auto simp: journal_inv_def open_file_ok_def)
  ultimately show ?thesis by (auto simp: journal_inv_def foreign_def)
qed

lemmas create_segment_numeral =
  create_segment.simps(2) [of _ "pred_numeral k" for k, folded numeral_eq_Suc]

definition idle_env :: journal_env where
  "idle_env = \<lparr>env_now = 7, mkdir_ok = True, create_fails = (\<lambda>_. False), write_stops = None\<rparr>"

theorem journal_writer_invariant_witness:
  "\<exists>j d. journal_run None True [''a''] (j, d) \<and> open_seg j \<noteq> None \<and>
     (\<forall>e\<in>set (entries d). holds_lines [''a''] e)"
proof -
  let ?jd = "journal_append idle_env ''a'' (core_journal_new True, None)"
  have run: "journal_run None True [''a''] ?jd"
    using journal_run.appended [OF journal_run.created, of "''a''"] by simp
  have "create_segment idle_env 64 7 71 [] = Some (segment_name 7)"
    by (simp add: create_segment_numeral idle_env_def find_entry_def)
  then have "open_seg (fst ?jd) \<noteq> None"
    by (simp add: journal_append_def core_journal_new_def segment_full_def open_segment_step_def
        idle_env_def saturating_add_def Let_def)
  with run show ?thesis
    using journal_writer_invariant [of None True "[''a'']" "fst ?jd" "snd ?jd"]
    by (intro exI [of _ "fst ?jd"] exI [of _ "snd ?jd"]) (simp add: entries_def)
qed

end
