(* ===== verification/Journal_Paging.thy ===== *)
theory Journal_Paging
  imports Core_Journal
begin

text \<open>
  Reading a journal page by page: a client that sends the cursor of each answer with its next
  request gets every whole line of every matching segment once, in order, and the paging ends,
  provided no two segments share a start. Two files whose names spell one number break that.
\<close>

section \<open>The client's loop\<close>

fun page :: "nat \<Rightarrow> dir_entry list option \<Rightarrow> u64 \<Rightarrow> nat \<Rightarrow> core_journal_cursor option \<Rightarrow> string list option" where
  "page 0 d since max_bytes cursor = None"
| "page (Suc calls) d since max_bytes cursor =
     (case read_journal_chunk d since cursor max_bytes of
        (text, None) \<Rightarrow> Some [text]
      | (text, Some following) \<Rightarrow>
          map_option ((#) text) (page calls d since max_bytes (Some following)))"

text \<open>The whole lines of a file: everything up to its last line break.\<close>

definition whole_lines :: "string \<Rightarrow> string" where
  "whole_lines s = rev (dropWhile (\<lambda>c. c \<noteq> newline) (rev s))"

section \<open>Positions and cuts\<close>

lemma position_of_Some:
  "position_of P xs = Some i \<longleftrightarrow> i < length xs \<and> P (xs ! i) \<and> (\<forall>j<i. \<not> P (xs ! j))"
proof (induction xs arbitrary: i)
  case (Cons x xs)
  show ?case
  proof (cases i)
    case 0
    then show ?thesis by auto
  next
    case (Suc k)
    with Cons show ?thesis by (auto simp: less_Suc_eq_0_disj)
  qed
qed simp

lemma position_of_append:
  "\<forall>x\<in>set xs. \<not> P x \<Longrightarrow> P y \<Longrightarrow> position_of P (xs @ y # ys) = Some (length xs)"
  by (induction xs) auto

lemma position_of_None: "position_of P xs = None \<longleftrightarrow> (\<forall>x\<in>set xs. \<not> P x)"
  by (induction xs) auto

lemma position_of_start:
  assumes "sorted_wrt (<) (map start_ms segs)" "i < length segs"
  shows "position_of (\<lambda>s. start_ms (segs ! i) \<le> start_ms s) segs = Some i"
  using assms by (auto simp: position_of_Some sorted_wrt_iff_nth_less not_le)

lemma whole_lines_append:
  "whole_lines (a @ newline # b) = a @ newline # whole_lines b"
  by (simp add: whole_lines_def dropWhile_append)

lemma whole_lines_none: "newline \<notin> set s \<Longrightarrow> whole_lines s = []"
  by (auto simp: whole_lines_def dropWhile_eq_Nil_conv)

lemma journal_cut_newline:
  assumes "newline \<in> set bytes"
  obtains a b where "bytes = a @ newline # b" "newline \<notin> set b" "journal_cut amount bytes = Suc (length a)"
proof -
  obtain a b where ab: "bytes = a @ newline # b" "newline \<notin> set b"
    using split_list_last [OF assms] by blast
  have "position_of (\<lambda>c. c = newline) (rev bytes) = Some (length b)"
    using ab position_of_append [of "rev b" "\<lambda>c. c = newline" newline "rev a"] by auto
  then have "journal_cut amount bytes = Suc (length a)" using ab by (simp add: journal_cut_def)
  with ab that show thesis by blast
qed

lemma journal_cut_none:
  "newline \<notin> set bytes \<Longrightarrow> length bytes < amount \<Longrightarrow> journal_cut amount bytes = 0"
proof -
  assume "newline \<notin> set bytes" "length bytes < amount"
  moreover from this have "position_of (\<lambda>c. c = newline) (rev bytes) = None"
    by (auto simp: position_of_None)
  ultimately show ?thesis by (simp add: journal_cut_def)
qed

lemma utf8_chunk_append:
  assumes "byte c < 128" "a \<noteq> []"
  shows "utf8_chunk (a @ c # b) = utf8_chunk a" "fst (utf8_chunk a) \<le> length a"
proof -
  have stop: "\<not> utf8_cont c" "\<not> utf8_second3 (hd a) c" "\<not> utf8_second4 (hd a) c"
    using assms(1) by (auto simp: utf8_cont_def utf8_second3_def utf8_second4_def)
  have at: "byte_at (a @ c # b) i good = byte_at a i good" if "\<not> good c" "i \<le> length a" for i good
    using that by (cases "i = length a") (auto simp: byte_at_def nth_append)
  have beyond: "\<not> byte_at a i good" if "length a \<le> i" for i good
    using that by (simp add: byte_at_def)
  have hd: "hd (a @ c # b) = hd a" using assms(2) by simp
  have "length a = 1 \<or> length a = 2 \<or> 3 \<le> length a"
    using assms(2) by (cases a; cases "tl a"; cases "tl (tl a)") auto
  then have "utf8_chunk (a @ c # b) = utf8_chunk a \<and> fst (utf8_chunk a) \<le> length a"
  proof (elim disjE)
    assume len: "length a = 1"
    then show "utf8_chunk (a @ c # b) = utf8_chunk a \<and> fst (utf8_chunk a) \<le> length a"
      using stop at [of utf8_cont 1] at [of "utf8_second3 (hd a)" 1] at [of "utf8_second4 (hd a)" 1]
      by (simp add: utf8_chunk_def Let_def hd beyond)
  next
    assume len: "length a = 2"
    then show "utf8_chunk (a @ c # b) = utf8_chunk a \<and> fst (utf8_chunk a) \<le> length a"
      using stop at [of utf8_cont 1] at [of "utf8_second3 (hd a)" 1] at [of "utf8_second4 (hd a)" 1] at [of utf8_cont 2]
      by (simp add: utf8_chunk_def Let_def hd beyond)
  next
    assume len: "3 \<le> length a"
    then have "byte_at a 3 utf8_cont \<longrightarrow> 4 \<le> length a" by (simp add: byte_at_def)
    then show "utf8_chunk (a @ c # b) = utf8_chunk a \<and> fst (utf8_chunk a) \<le> length a"
      using len stop at [of utf8_cont 1] at [of "utf8_second3 (hd a)" 1] at [of "utf8_second4 (hd a)" 1]
        at [of utf8_cont 2] at [of utf8_cont 3]
      by (simp add: utf8_chunk_def Let_def hd)
  qed
  then show "utf8_chunk (a @ c # b) = utf8_chunk a" "fst (utf8_chunk a) \<le> length a" by blast+
qed

lemma lossy_append:
  "byte c < 128 \<Longrightarrow> from_utf8_lossy (a @ c # b) = from_utf8_lossy a @ c # from_utf8_lossy b"
proof (induction a rule: from_utf8_lossy.induct)
  case (1 a)
  have ascii: "from_utf8_lossy (c # b) = c # from_utf8_lossy b"
    using 1(2) by (subst from_utf8_lossy.simps) (simp add: utf8_chunk_def)
  show ?case
  proof (cases "a = []")
    case True
    then show ?thesis by (simp add: ascii from_utf8_lossy.simps [of "[]"])
  next
    case False
    obtain n good where n: "utf8_chunk a = (n, good)" by fastforce
    with utf8_chunk_append [OF 1(2) False] have "utf8_chunk (a @ c # b) = (n, good)" "n \<le> length a"
      by simp_all
    with 1(1) [OF False n [symmetric] 1(2)] n False show ?thesis
      by (simp add: from_utf8_lossy.simps [of a] from_utf8_lossy.simps [of "a @ c # b"])
  qed
qed

section \<open>One call\<close>

lemma lossy_nil [simp]: "from_utf8_lossy [] = []"
  by (simp add: from_utf8_lossy.simps [of "[]"])

definition matching :: "dir_entry list \<Rightarrow> u64 \<Rightarrow> journal_segment list" where
  "matching d since = filter (\<lambda>s. modified_ms s \<ge> since) (journal_segments (Some d))"

definition content_at :: "dir_entry list \<Rightarrow> journal_segment \<Rightarrow> string" where
  "content_at d s = (case find_entry (seg_path s) d of None \<Rightarrow> [] | Some e \<Rightarrow> content e)"

definition short_lines :: "nat \<Rightarrow> string \<Rightarrow> bool" where
  "short_lines amount s \<longleftrightarrow> (\<forall>line\<in>set (split_on newline s). length line < amount)"

text \<open>
  A journal the pager reads completely: readable files with distinct names and starts, no line as
  long as a chunk.
\<close>

definition pageable :: "dir_entry list \<Rightarrow> u64 \<Rightarrow> nat \<Rightarrow> bool" where
  "pageable d since max_bytes \<longleftrightarrow>
     distinct (map entry_name d) \<and> distinct (map start_ms (matching d since)) \<and>
     (\<forall>e\<in>set d. readable e \<and> length (content e) < 2 ^ 64 \<and> short_lines (max max_bytes 1) (content e))"

lemma hd_split_prefix:
  "d \<notin> set p \<Longrightarrow> hd (split_on d (p @ q)) = p @ hd (split_on d q)"
  by (induction p) (auto split: list.splits)

lemma short_lines_take:
  assumes "short_lines amount r" "newline \<notin> set (take amount r)"
  shows "length r < amount"
proof (rule ccontr)
  assume "\<not> length r < amount"
  then have "length (take amount r) = amount" by simp
  moreover have "hd (split_on newline (take amount r @ drop amount r)) =
      take amount r @ hd (split_on newline (drop amount r))"
    using assms(2) by (rule hd_split_prefix)
  moreover have "hd (split_on newline r) \<in> set (split_on newline r)" by simp
  ultimately show False using assms(1) by (fastforce simp: short_lines_def)
qed

lemma short_lines_tail: "short_lines amount (a @ newline # b) \<Longrightarrow> short_lines amount b"
  by (simp add: short_lines_def split_on_append)

lemma segment_entry:
  assumes "distinct (map entry_name d)" "s \<in> set (journal_segments (Some d))"
  obtains e where "e \<in> set d" "find_entry (seg_path s) d = Some e" "segment_of e = Some s"
proof -
  from assms(2) obtain e where e: "e \<in> set d" "segment_of e = Some s"
    by (auto simp: journal_segments_Some List.map_filter_def)
  from e have "seg_path s = entry_name e" by (simp add: segment_of_path)
  moreover have "find (\<lambda>x. entry_name x = entry_name e) d = Some e"
    using assms(1) e(1) by (induction d) auto
  ultimately show thesis using e that by (simp add: find_entry_def)
qed

lemma matching_entry:
  assumes "pageable d since max_bytes" "s \<in> set (matching d since)"
  shows "\<exists>e\<in>set d. find_entry (seg_path s) d = Some e \<and> content_at d s = content e \<and> readable e
    \<and> length (content e) < 2 ^ 64 \<and> short_lines (max max_bytes 1) (content e)
    \<and> len s = of_nat (length (content e))"
proof -
  obtain e where "e \<in> set d" "find_entry (seg_path s) d = Some e" "segment_of e = Some s"
    using assms segment_entry [of d s] by (auto simp: pageable_def matching_def)
  moreover from this have "len s = of_nat (length (content e))"
    by (auto simp: segment_of_def bind_eq_Some_conv split: if_splits)
  ultimately show ?thesis using assms(1) by (auto simp: pageable_def content_at_def)
qed

lemma matching_sorted:
  assumes "pageable d since max_bytes"
  shows "sorted_wrt (<) (map start_ms (matching d since))"
proof -
  have "sorted (map start_ms (matching d since))"
    unfolding matching_def journal_segments_Some by (intro sorted_filter) simp
  with assms show ?thesis by (simp add: pageable_def strict_sorted_iff)
qed

lemma cursor_position:
  assumes "pageable d since max_bytes" "i < length (matching d since)"
  shows "journal_position (matching d since)
      (Some \<lparr>segment = start_ms (matching d since ! i), offset = o'\<rparr>) = Some (i, o')"
  using position_of_start [OF matching_sorted [OF assms(1)] assms(2)] by (simp add: journal_position_def)

lemma unat_of_nat_small: "n < 2 ^ 64 \<Longrightarrow> unat (of_nat n :: u64) = n"
  by (simp add: unsigned_of_nat take_bit_nat_eq_self)

text \<open>A call at offset \<open>k\<close> of segment \<open>i\<close>, by whether the chunk holds a line break.\<close>

lemma chunk_at:
  assumes ok: "pageable d since max_bytes" and i: "i < length (matching d since)"
    and pos: "journal_position (matching d since) cursor = Some (i, of_nat k)"
    and k: "k \<le> length (content_at d (matching d since ! i))"
    and r: "r = drop k (content_at d (matching d since ! i))"
    and short: "short_lines (max max_bytes 1) r"
  shows "newline \<notin> set r \<and>
      read_journal_chunk (Some d) since cursor max_bytes = ([], journal_following (matching d since) i)
    \<or> (\<exists>a b. r = a @ newline # b \<and>
         read_journal_chunk (Some d) since cursor max_bytes =
           (from_utf8_lossy (a @ [newline]),
            if b = [] then journal_following (matching d since) i
            else Some \<lparr>segment = start_ms (matching d since ! i), offset = of_nat (k + Suc (length a))\<rparr>))"
proof -
  let ?s = "matching d since ! i" and ?amount = "max max_bytes 1"
  obtain e where e: "find_entry (seg_path ?s) d = Some e" "content_at d ?s = content e" "readable e"
    "length (content e) < 2 ^ 64" "len ?s = of_nat (length (content e))"
    using matching_entry [OF ok nth_mem [OF i]] by blast
  have reads: "read_file (seg_path ?s) (of_nat k) ?amount (Some d) = Some (take ?amount r)"
    using e k r by (simp add: read_file_def unat_of_nat_small)
  have chunk: "read_journal_chunk (Some d) since cursor max_bytes =
      (from_utf8_lossy (take (journal_cut ?amount bytes) bytes),
       if journal_cut ?amount bytes > 0 \<and>
          saturating_add (of_nat k) (of_nat (journal_cut ?amount bytes)) < len ?s
       then Some \<lparr>segment = start_ms ?s,
                  offset = saturating_add (of_nat k) (of_nat (journal_cut ?amount bytes))\<rparr>
       else journal_following (matching d since) i)"
    if "take ?amount r = bytes" "bytes \<noteq> []" for bytes
    using pos reads that
    unfolding read_journal_chunk_def Let_def matching_def [symmetric] by (cases bytes) simp_all
  have exhausted: "read_journal_chunk (Some d) since cursor max_bytes =
      ([], journal_following (matching d since) i)" if "take ?amount r = []"
    using pos reads that
    unfolding read_journal_chunk_def Let_def matching_def [symmetric] by simp
  show ?thesis
  proof (cases "newline \<in> set (take ?amount r)")
    case True
    then obtain a b where ab: "take ?amount r = a @ newline # b"
      and cut: "journal_cut ?amount (take ?amount r) = Suc (length a)"
      using journal_cut_newline by metis
    define b' where "b' = b @ drop ?amount r"
    have rab: "r = a @ newline # b'"
      using ab append_take_drop_id [of ?amount r] by (simp add: b'_def)
    have size: "k + Suc (length a) + length b' = length (content e)"
      using arg_cong [OF rab, of length] e(2) r k by simp
    with e(4) have "saturating_add (of_nat k) (of_nat (Suc (length a))) = of_nat (k + Suc (length a))"
      by (simp add: saturating_add_def unat_of_nat_small del: of_nat_Suc) simp
    moreover have "of_nat (k + Suc (length a)) < len ?s \<longleftrightarrow> b' \<noteq> []"
      using size e(4,5) by (cases b') (simp_all add: word_less_nat_alt unat_of_nat_small del: of_nat_add of_nat_Suc)
    ultimately have "read_journal_chunk (Some d) since cursor max_bytes =
        (from_utf8_lossy (a @ [newline]),
         if b' = [] then journal_following (matching d since) i
         else Some \<lparr>segment = start_ms ?s, offset = of_nat (k + Suc (length a))\<rparr>)"
      using chunk [OF ab] cut ab by (simp del: of_nat_Suc of_nat_add One_nat_def)
    with rab show ?thesis by blast
  next
    case False
    with short_lines_take [OF short] have len: "length r < ?amount" by simp
    then have take: "take ?amount r = r" by simp
    with False len have "journal_cut ?amount r = 0" by (intro journal_cut_none) auto
    have "read_journal_chunk (Some d) since cursor max_bytes =
        ([], journal_following (matching d since) i)"
    proof (cases "r = []")
      case True
      then have "take ?amount r = []" by simp
      show ?thesis using exhausted [OF \<open>take ?amount r = []\<close>] .
    next
      case nonempty: False
      with chunk [OF take] \<open>journal_cut ?amount r = 0\<close> show ?thesis by simp
    qed
    with False take show ?thesis by simp
  qed
qed

section \<open>The whole journal\<close>

definition delivered :: "dir_entry list \<Rightarrow> journal_segment list \<Rightarrow> string" where
  "delivered d segs = concat (map (\<lambda>s. from_utf8_lossy (whole_lines (content_at d s))) segs)"

definition calls_for :: "dir_entry list \<Rightarrow> journal_segment list \<Rightarrow> nat" where
  "calls_for d segs = sum_list (map (\<lambda>s. Suc (length (content_at d s))) segs)"

lemma lossy_whole_lines:
  "from_utf8_lossy (whole_lines (a @ newline # b)) =
     from_utf8_lossy (a @ [newline]) @ from_utf8_lossy (whole_lines b)"
  by (simp add: whole_lines_append lossy_append)

lemma page_from:
  assumes "pageable d since max_bytes"
  shows "i < length (matching d since) \<Longrightarrow>
    k \<le> length (content_at d (matching d since ! i)) \<Longrightarrow>
    journal_position (matching d since) cursor = Some (i, of_nat k) \<Longrightarrow>
    short_lines (max max_bytes 1) (drop k (content_at d (matching d since ! i))) \<Longrightarrow>
    calls \<ge> Suc (length (content_at d (matching d since ! i)) - k) + calls_for d (drop (Suc i) (matching d since)) \<Longrightarrow>
    \<exists>texts. page calls (Some d) since max_bytes cursor = Some texts \<and>
      concat texts = from_utf8_lossy (whole_lines (drop k (content_at d (matching d since ! i)))) @
        delivered d (drop (Suc i) (matching d since))"
proof (induction calls arbitrary: i k cursor)
  case (Suc calls)
  let ?segs = "matching d since"
  let ?c = "content_at d (?segs ! i)"
  let ?r = "drop k ?c"
  have follow: "\<exists>texts. (case (out, journal_following ?segs i) of
        (out, None) \<Rightarrow> Some [out]
      | (out, Some following) \<Rightarrow> map_option ((#) out) (page calls (Some d) since max_bytes (Some following)))
        = Some texts \<and> concat texts = out @ delivered d (drop (Suc i) ?segs)" for out
  proof (cases "Suc i < length ?segs")
    case True
    then have step: "drop (Suc i) ?segs = ?segs ! Suc i # drop (Suc (Suc i)) ?segs"
      by (simp add: Cons_nth_drop_Suc)
    have short: "short_lines (max max_bytes 1) (drop 0 (content_at d (?segs ! Suc i)))"
      using matching_entry [OF assms nth_mem [OF True]] by auto
    have enough: "Suc (length (content_at d (?segs ! Suc i)) - 0) + calls_for d (drop (Suc (Suc i)) ?segs) \<le> calls"
      using Suc.prems(5) by (simp add: step calls_for_def)
    have "journal_position ?segs (Some \<lparr>segment = start_ms (?segs ! Suc i), offset = 0\<rparr>) = Some (Suc i, of_nat 0)"
      using cursor_position [OF assms True] by simp
    from Suc.IH [OF True _ this short enough] True show ?thesis
      by (fastforce simp: journal_following_def step delivered_def)
  next
    case False
    then show ?thesis by (simp add: journal_following_def delivered_def)
  qed
  from chunk_at [OF assms Suc.prems(1,3,2) refl Suc.prems(4)]
  consider "newline \<notin> set ?r"
      "read_journal_chunk (Some d) since cursor max_bytes = ([], journal_following ?segs i)"
    | a b where "?r = a @ newline # b"
      "read_journal_chunk (Some d) since cursor max_bytes =
         (from_utf8_lossy (a @ [newline]),
          if b = [] then journal_following ?segs i
          else Some \<lparr>segment = start_ms (?segs ! i), offset = of_nat (k + Suc (length a))\<rparr>)"
    by blast
  then show ?case
  proof cases
    case 1
    then show ?thesis using follow [of "[]"] by (simp add: whole_lines_none)
  next
    case (2 a b)
    show ?thesis
    proof (cases "b = []")
      case True
      then show ?thesis
        using 2 follow [of "from_utf8_lossy (a @ [newline])"] lossy_whole_lines [of a b]
        by (simp add: whole_lines_none)
    next
      case False
      let ?k = "k + Suc (length a)"
      have size: "length ?c - k = Suc (length a) + length b"
        using arg_cong [OF 2(1), of length] by simp
      then have k: "?k \<le> length ?c" using Suc.prems(2) by linarith
      have b: "drop ?k ?c = b"
        using 2(1) by (metis add.commute append_eq_conv_conj drop_drop drop_Suc_Cons length_Cons
            add_Suc_right append_Cons append_Nil append.assoc length_append_singleton)
      have short: "short_lines (max max_bytes 1) (drop ?k ?c)"
        unfolding b using Suc.prems(4) short_lines_tail unfolding 2(1) by blast
      have pos: "journal_position ?segs (Some \<lparr>segment = start_ms (?segs ! i), offset = of_nat ?k\<rparr>) =
          Some (i, of_nat ?k)"
        using cursor_position [OF assms Suc.prems(1)] .
      have enough: "Suc (length ?c - ?k) + calls_for d (drop (Suc i) ?segs) \<le> calls"
        using Suc.prems(5) size by linarith
      from Suc.IH [OF Suc.prems(1) k pos short enough] 2 False lossy_whole_lines [of a b] b
      show ?thesis by auto
    qed
  qed
qed simp

text \<open>
  C19. Paging through a journal whose segments are readable, start at distinct times and have no line as
  long as a chunk ends and is complete: with one call for every byte and file, and no more, a client
  gets every whole line of every matching segment exactly once and in order (an unfinished last line of
  a file is left for later). Without distinct starts it may never end, see
  \<open>journal_paging_repeats\<close>.
\<close>

theorem journal_paging_complete:
  assumes "pageable d since max_bytes" and "calls_for d (matching d since) < calls"
  shows "\<exists>texts. page calls (Some d) since max_bytes None = Some texts
    \<and> concat texts = delivered d (matching d since)"
proof (cases "matching d since = []")
  case True
  obtain k where "calls = Suc k" using assms(2) by (cases calls) auto
  moreover have "read_journal_chunk (Some d) since None max_bytes = ([], None)"
    using True by (simp add: read_journal_chunk_def Let_def journal_position_def flip: matching_def)
  ultimately show ?thesis using True by (simp add: delivered_def)
next
  case False
  then have pos: "journal_position (matching d since) None = Some (0, of_nat 0)"
    by (simp add: journal_position_def)
  from False obtain s ss where segs: "matching d since = s # ss" by (cases "matching d since") auto
  have "short_lines (max max_bytes 1) (drop 0 (content_at d (matching d since ! 0)))"
    using matching_entry [OF assms(1) nth_mem [of 0]] False by auto
  from page_from [OF assms(1) _ _ pos this, of calls] assms(2) segs
  show ?thesis by (simp add: calls_for_def delivered_def)
qed

lemma two_segments:
  "matching [segment_file 1 8 [CHR ''a'', newline, CHR ''b''], segment_file 2 9 [newline]] 0 =
     [\<lparr>start_ms = 1, seg_path = segment_name 1, len = 3, modified_ms = 8\<rparr>,
      \<lparr>start_ms = 2, seg_path = segment_name 2, len = 1, modified_ms = 9\<rparr>]"
  by (simp add: matching_def journal_eval)

lemma content_at_file:
  "seg_path s = segment_name n \<Longrightarrow> content_at (segment_file n m c # d) s = c"
  "seg_path s = segment_name k \<Longrightarrow> k \<noteq> n \<Longrightarrow> content_at (segment_file n m c # d) s = content_at d s"
  by (simp_all add: content_at_def find_entry_def segment_file_def segment_name_inj)

theorem journal_paging_complete_witness:
  "\<exists>texts. page 7 (Some [segment_file 1 8 [CHR ''a'', newline, CHR ''b''], segment_file 2 9 [newline]])
     0 4 None = Some texts \<and> concat texts = [CHR ''a'', newline, newline]"
proof -
  let ?d = "[segment_file 1 8 [CHR ''a'', newline, CHR ''b''], segment_file 2 9 [newline]]"
  have ok: "pageable ?d 0 4"
    by (simp add: pageable_def two_segments short_lines_def)
      (simp add: segment_file_def segment_name_inj)
  have ascii: "from_utf8_lossy [CHR ''a'', newline] = [CHR ''a'', newline]"
    "from_utf8_lossy [newline] = [newline]"
    using lossy_append [of newline "''a''" "[]"] lossy_append [of newline "[]" "[]"]
      lossy_append [of "CHR ''a''" "[]" "[]"] by simp_all
  have "delivered ?d (matching ?d 0) = [CHR ''a'', newline, newline]"
    by (simp add: two_segments delivered_def content_at_file whole_lines_def ascii)
  moreover have "calls_for ?d (matching ?d 0) < 7"
    by (simp add: two_segments calls_for_def content_at_file)
  ultimately show ?thesis using journal_paging_complete [OF ok, of 7] by simp
qed

section \<open>Two names of one number\<close>

text \<open>
  The reader's promise that every call moves forward does not hold when two files spell the
  same start: with \<open>core-1.log\<close> beside \<open>core-01.log\<close> the cursor that ends the first file leads to
  the first file again, so the same cursor comes back for good and the second file is never read.
\<close>

theorem journal_paging_repeats:
  "read_journal_chunk
     (Some [segment_file 1 8 [newline], (segment_file 1 8 [newline])\<lparr>entry_name := ''core-01.log''\<rparr>]) 0
     (Some \<lparr>segment = 1, offset = 0\<rparr>) 4 = ([newline], Some \<lparr>segment = 1, offset = 0\<rparr>)"
proof -
  let ?f = "segment_file 1 8 [newline]"
  let ?d = "[?f, ?f\<lparr>entry_name := ''core-01.log''\<rparr>]"
  have start: "segment_start ''core-01.log'' = Some 1"
    by (simp add: segment_start_def SEGMENT_PREFIX_def SEGMENT_SUFFIX_def str_eval)
  have other: "segment_of (?f\<lparr>entry_name := ''core-01.log''\<rparr>) =
      Some \<lparr>start_ms = 1, seg_path = ''core-01.log'', len = 1, modified_ms = 8\<rparr>"
    by (simp add: segment_of_def segment_file_def start str_eval)
  have segs: "journal_segments (Some ?d) =
      [\<lparr>start_ms = 1, seg_path = segment_name 1, len = 1, modified_ms = 8\<rparr>,
       \<lparr>start_ms = 1, seg_path = ''core-01.log'', len = 1, modified_ms = 8\<rparr>]"
    by (simp add: journal_eval other)
  have reads: "read_file (segment_name 1) 0 4 (Some ?d) = Some [newline]"
    by (simp add: read_file_def find_entry_def segment_file_def)
  have "from_utf8_lossy [newline] = [newline]" using lossy_append [of newline "[]" "[]"] by simp
  moreover have "journal_cut 4 [newline] = 1" by (simp add: journal_cut_def)
  ultimately show ?thesis
    using reads by (simp add: read_journal_chunk_def segs Let_def journal_position_def
        journal_following_def saturating_add_def)
qed

end
