(* ===== verification/Core_Sessions.thy ===== *)
theory Core_Sessions
  imports Core_Journal
begin

text \<open>
  \<open>core_sessions.rs\<close>, second half: the session index beside the journal (one JSON record per line,
  a parameter here), the daemon's writer of it, and the time window of the journal each session
  owns.
\<close>

section \<open>Sessions and records\<close>

record session_start =
  mode :: string
  service :: bool
  engines :: "string list"
  profile :: "string option"

record core_session =
  connect_ms :: u64
  disconnect_ms :: "u64 option"
  reason :: "string option"
  started :: session_start

definition is_open :: "core_session \<Rightarrow> bool" where
  "is_open s \<longleftrightarrow> reason s = None"

datatype index_record =
    IndexStart u64 session_start
  | IndexEnd u64 "u64 option" string

definition MAX_INDEX_BYTES :: nat where
  "MAX_INDEX_BYTES = 4 * 1024 * 1024"

definition MAX_INDEXED_SESSIONS :: nat where
  "MAX_INDEXED_SESSIONS = 2000"

definition new_session :: "u64 \<Rightarrow> session_start \<Rightarrow> core_session" where
  "new_session c st = \<lparr>connect_ms = c, disconnect_ms = None, reason = None, started = st\<rparr>"

fun update_first :: "('a \<Rightarrow> bool) \<Rightarrow> ('a \<Rightarrow> 'a) \<Rightarrow> 'a list \<Rightarrow> 'a list" where
  "update_first P f [] = []"
| "update_first P f (x # xs) = (if P x then f x # xs else x # update_first P f xs)"

definition update_last :: "('a \<Rightarrow> bool) \<Rightarrow> ('a \<Rightarrow> 'a) \<Rightarrow> 'a list \<Rightarrow> 'a list" where
  "update_last P f xs = rev (update_first P f (rev xs))"

definition close_session :: "u64 option \<Rightarrow> string \<Rightarrow> core_session \<Rightarrow> core_session" where
  "close_session d r s = s\<lparr>disconnect_ms := d, reason := Some r\<rparr>"

fun apply_record :: "index_record \<Rightarrow> core_session list \<Rightarrow> core_session list" where
  "apply_record (IndexStart c st) sessions =
     filter (\<lambda>s. connect_ms s \<noteq> c) sessions @ [new_session c st]"
| "apply_record (IndexEnd c d r) sessions =
     update_last (\<lambda>s. connect_ms s = c \<and> is_open s) (close_session d r) sessions"

definition parse_line ::
    "(string \<Rightarrow> index_record option) \<Rightarrow> string \<Rightarrow> core_session list \<Rightarrow> core_session list" where
  "parse_line from_line line sessions =
     (case from_line line of None \<Rightarrow> sessions | Some r \<Rightarrow> apply_record r sessions)"

definition parse_sessions :: "(string \<Rightarrow> index_record option) \<Rightarrow> string \<Rightarrow> core_session list" where
  "parse_sessions from_line text =
     sort_key connect_ms (fold (parse_line from_line) (str_lines text) [])"

definition render_record :: "(index_record \<Rightarrow> string option) \<Rightarrow> index_record \<Rightarrow> string" where
  "render_record to_line r = (case to_line r of None \<Rightarrow> [] | Some line \<Rightarrow> line @ [newline])"

definition session_records :: "core_session \<Rightarrow> index_record list" where
  "session_records s =
     IndexStart (connect_ms s) (started s) #
     (case reason s of None \<Rightarrow> [] | Some r \<Rightarrow> [IndexEnd (connect_ms s) (disconnect_ms s) r])"

definition render_sessions :: "(index_record \<Rightarrow> string option) \<Rightarrow> core_session list \<Rightarrow> string" where
  "render_sessions to_line sessions =
     concat (map (\<lambda>s. concat (map (render_record to_line) (session_records s))) sessions)"

definition read_index :: "dir_entry option \<Rightarrow> string" where
  "read_index f =
     (case f of
        None \<Rightarrow> []
      | Some e \<Rightarrow>
          if \<not> regular e \<or> \<not> readable e then []
          else from_utf8_lossy
                 (take MAX_INDEX_BYTES (drop (length (content e) - MAX_INDEX_BYTES) (content e))))"

definition read_sessions :: "(string \<Rightarrow> index_record option) \<Rightarrow> dir_entry option \<Rightarrow> core_session list" where
  "read_sessions from_line f = parse_sessions from_line (read_index f)"

section \<open>The writer\<close>

text \<open>
  \<open>SessionIndex\<close>: the index file, the journal directory and the newest connect time handed out.
  What the file system answers is an argument of each operation: whether replacing or appending
  to the file succeeds.
\<close>

record session_index =
  index_file :: "dir_entry option"
  journal_dir :: "dir_entry list option"
  last_connect :: u64

definition index_entry :: "string \<Rightarrow> dir_entry" where
  "index_entry bytes =
     \<lparr>entry_name = ''sessions.jsonl'', regular = True, content = bytes, mtime = None, readable = True,
      removable = True\<rparr>"

definition end_interrupted :: "core_session \<Rightarrow> core_session" where
  "end_interrupted s = (if is_open s then s\<lparr>reason := Some ''interrupted''\<rparr> else s)"

definition kept_sessions :: "u64 \<Rightarrow> core_session list \<Rightarrow> core_session list" where
  "kept_sessions now sessions =
     (let oldest = saturating_sub now JOURNAL_MAX_AGE_MS;
          young = filter
            (\<lambda>s. (case disconnect_ms s of None \<Rightarrow> connect_ms s | Some d \<Rightarrow> d) \<ge> oldest)
            (map end_interrupted sessions)
      in drop (length young - MAX_INDEXED_SESSIONS) young)"

definition open_index ::
    "(index_record \<Rightarrow> string option) \<Rightarrow> (string \<Rightarrow> index_record option) \<Rightarrow> bool \<Rightarrow>
     dir_entry option \<Rightarrow> dir_entry list option \<Rightarrow> u64 \<Rightarrow> session_index" where
  "open_index to_line from_line replace_ok f d now =
     (let before = read_sessions from_line f;
          sessions = kept_sessions now before;
          large = (case f of None \<Rightarrow> False | Some e \<Rightarrow> length (content e) > MAX_INDEX_BYTES div 2)
      in \<lparr>index_file = (if (sessions \<noteq> before \<or> large) \<and> replace_ok
                         then Some (index_entry (render_sessions to_line sessions)) else f),
          journal_dir = prune_journal now None d,
          last_connect = (if sessions = [] then 0 else Max (connect_ms ` set sessions))\<rparr>)"

definition append_record ::
    "(index_record \<Rightarrow> string option) \<Rightarrow> bool \<Rightarrow> index_record \<Rightarrow> session_index \<Rightarrow> session_index" where
  "append_record to_line append_ok r ix =
     (case to_line r of
        None \<Rightarrow> ix
      | Some line \<Rightarrow>
          if append_ok then
            ix\<lparr>index_file := Some
              (case index_file ix of
                 None \<Rightarrow> index_entry (line @ [newline])
               | Some e \<Rightarrow> e\<lparr>content := content e @ line @ [newline]\<rparr>)\<rparr>
          else ix)"

definition start_session ::
    "(index_record \<Rightarrow> string option) \<Rightarrow> bool \<Rightarrow> u64 \<Rightarrow> session_start \<Rightarrow> session_index
       \<Rightarrow> session_index \<times> u64" where
  "start_session to_line append_ok now st ix =
     (let c = max now (last_connect ix + 1);
          ix = append_record to_line append_ok (IndexStart c st) (ix\<lparr>last_connect := c\<rparr>)
      in (ix\<lparr>journal_dir := prune_journal c None (journal_dir ix)\<rparr>, c))"

definition end_session ::
    "(index_record \<Rightarrow> string option) \<Rightarrow> bool \<Rightarrow> u64 \<Rightarrow> u64 \<Rightarrow> string \<Rightarrow> session_index \<Rightarrow> session_index" where
  "end_session to_line append_ok c d r ix =
     append_record to_line append_ok (IndexEnd c (Some (max d c)) r) ix"

section \<open>Windows\<close>

definition SESSION_LEAD_MS :: u64 where
  "SESSION_LEAD_MS = 60000"

definition SESSION_TAIL_MS :: u64 where
  "SESSION_TAIL_MS = 10000"

fun windows_from :: "u64 \<Rightarrow> core_session list \<Rightarrow> (u64 \<times> u64) list" where
  "windows_from previous_end [] = []"
| "windows_from previous_end (s # ss) =
     (let from = max (saturating_sub (connect_ms s) SESSION_LEAD_MS) previous_end;
          natural_end =
            (case disconnect_ms s of None \<Rightarrow> - 1 | Some e \<Rightarrow> saturating_add e SESSION_TAIL_MS);
          to = (case ss of [] \<Rightarrow> natural_end | t # _ \<Rightarrow> min natural_end (connect_ms t));
          to = max to from
      in (from, to) # windows_from to ss)"

definition session_windows :: "core_session list \<Rightarrow> (u64 \<times> u64) list" where
  "session_windows sessions = windows_from 0 sessions"

section \<open>Windows are disjoint and cover their sessions\<close>

lemma saturating_add_ge: "a \<le> saturating_add a b"
proof (cases "unat a + unat b < 2 ^ 64")
  case True
  then have "unat (a + b) = unat a + unat b" by (simp add: unat_word_ariths)
  with True show ?thesis by (simp add: saturating_add_def word_le_nat_alt)
qed (simp add: saturating_add_def)

lemma saturating_add_gt:
  assumes "x \<le> d" "x < - 1" "0 < c"
  shows "x < saturating_add d c"
proof (cases "unat d + unat c < 2 ^ 64")
  case True
  then have "unat (d + c) = unat d + unat c" by (simp add: unat_word_ariths)
  moreover have "0 < unat c" using assms(3) by (simp add: unat_gt_0)
  ultimately show ?thesis using assms(1) True by (simp add: saturating_add_def word_less_nat_alt word_le_nat_alt)
next
  case False
  with assms(2) show ?thesis by (simp add: saturating_add_def)
qed

lemma length_windows_from [simp]: "length (windows_from p ss) = length ss"
  by (induction p ss rule: windows_from.induct) (simp_all add: Let_def)

text \<open>The times a session certainly owns: from its connect to its end and before the next one.\<close>

definition owns :: "core_session list \<Rightarrow> nat \<Rightarrow> u64 \<Rightarrow> bool" where
  "owns ss i x \<longleftrightarrow>
     connect_ms (ss ! i) \<le> x \<and> x < - 1 \<and>
     (\<forall>d. disconnect_ms (ss ! i) = Some d \<longrightarrow> x \<le> d) \<and>
     (Suc i < length ss \<longrightarrow> x < connect_ms (ss ! Suc i))"

definition window_start :: "u64 \<Rightarrow> core_session \<Rightarrow> u64" where
  "window_start p s = max (saturating_sub (connect_ms s) SESSION_LEAD_MS) p"

definition window_end :: "u64 \<Rightarrow> core_session \<Rightarrow> core_session list \<Rightarrow> u64" where
  "window_end p s ss =
     (let natural = (case disconnect_ms s of None \<Rightarrow> - 1 | Some e \<Rightarrow> saturating_add e SESSION_TAIL_MS)
      in max (case ss of [] \<Rightarrow> natural | t # _ \<Rightarrow> min natural (connect_ms t)) (window_start p s))"

lemma windows_from_Cons:
  "windows_from p (s # ss) = (window_start p s, window_end p s ss) # windows_from (window_end p s ss) ss"
  by (simp add: Let_def window_start_def window_end_def)

declare windows_from.simps(2) [simp del]

lemma windows_from_ordered:
  "list_all (\<lambda>w. p \<le> fst w \<and> fst w \<le> snd w) (windows_from p ss) \<and>
   sorted_wrt (\<lambda>v w. snd v \<le> fst w) (windows_from p ss)"
proof (induction ss arbitrary: p)
  case (Cons s ss)
  have "p \<le> window_start p s" "window_start p s \<le> window_end p s ss"
    by (simp_all add: window_start_def window_end_def Let_def)
  with Cons.IH [of "window_end p s ss"] show ?case
    by (auto simp: windows_from_Cons list_all_iff intro: order_trans)
qed simp

lemma window_start_le: "p \<le> connect_ms s \<Longrightarrow> window_start p s \<le> connect_ms s"
  by (simp add: window_start_def saturating_sub_le)

lemma window_end_next:
  "p \<le> connect_ms s \<Longrightarrow> connect_ms s \<le> connect_ms t \<Longrightarrow> window_end p s (t # ts) \<le> connect_ms t"
  using window_start_le [of p s] by (auto simp: window_end_def Let_def intro: order_trans)

lemma window_covers:
  assumes "p \<le> connect_ms s" "owns (s # ss) 0 x"
  shows "window_start p s \<le> x \<and> x < window_end p s ss"
proof -
  have "window_start p s \<le> x"
    using window_start_le [OF assms(1)] assms(2) by (auto simp: owns_def intro: order_trans)
  moreover have "x < (case disconnect_ms s of None \<Rightarrow> - 1 | Some e \<Rightarrow> saturating_add e SESSION_TAIL_MS)"
    using assms(2) by (auto simp: owns_def SESSION_TAIL_MS_def intro!: saturating_add_gt split: option.split)
  ultimately show ?thesis
    using assms(2) by (cases ss) (auto simp: window_end_def Let_def owns_def less_max_iff_disj)
qed

lemma windows_cover:
  "sorted (map connect_ms ss) \<Longrightarrow> (\<forall>s\<in>set ss. p \<le> connect_ms s) \<Longrightarrow> i < length ss \<Longrightarrow> owns ss i x \<Longrightarrow>
     fst (windows_from p ss ! i) \<le> x \<and> x < snd (windows_from p ss ! i)"
proof (induction ss arbitrary: p i)
  case (Cons s ss)
  show ?case
  proof (cases i)
    case 0
    with Cons.prems window_covers show ?thesis by (simp add: windows_from_Cons)
  next
    case (Suc k)
    with Cons.prems(3) obtain t ts where ss: "ss = t # ts" by (cases ss) auto
    have end_le: "window_end p s ss \<le> connect_ms t"
      unfolding ss using Cons.prems(1,2) by (intro window_end_next) (simp_all add: ss)
    have below: "\<forall>r\<in>set ss. window_end p s ss \<le> connect_ms r"
      using end_le Cons.prems(1) ss by (auto intro: order_trans)
    have "owns ss k x" using Cons.prems(4) Suc by (simp add: owns_def)
    with Cons.IH [OF _ below, of k] Cons.prems Suc show ?thesis by (simp add: windows_from_Cons)
  qed
qed simp

text \<open>
  Cutting the journal by session is sound for any list of sessions in order of their start:
  there is one window per session, the windows follow each other without overlap, so a line belongs
  to at most one session, and every session's window holds the whole time it was certainly running.
\<close>

theorem session_windows_partition:
  assumes "sorted (map connect_ms ss)"
  shows "length (session_windows ss) = length ss
    \<and> sorted_wrt (\<lambda>v w. snd v \<le> fst w) (session_windows ss)
    \<and> (\<forall>i<length ss. fst (session_windows ss ! i) \<le> snd (session_windows ss ! i)
        \<and> (\<forall>x. owns ss i x \<longrightarrow>
              fst (session_windows ss ! i) \<le> x \<and> x < snd (session_windows ss ! i)))"
  using windows_from_ordered [of 0 ss] windows_cover [OF assms, of 0]
  by (simp add: session_windows_def list_all_length)

theorem session_windows_partition_witness:
  "sorted_wrt (\<lambda>v w. snd v \<le> fst w)
     (session_windows [new_session 100000 \<lparr>mode = ''tun'', service = True, engines = [], profile = None\<rparr>,
                       new_session 100500 \<lparr>mode = ''tun'', service = True, engines = [], profile = None\<rparr>])"
  using session_windows_partition
    [of "[new_session 100000 \<lparr>mode = ''tun'', service = True, engines = [], profile = None\<rparr>,
          new_session 100500 \<lparr>mode = ''tun'', service = True, engines = [], profile = None\<rparr>]"]
  by (simp add: new_session_def)

end
