(* ===== verification/Session_Index.thy ===== *)
theory Session_Index
  imports Core_Sessions Journal_Paging
begin

text \<open>
  What the session index promises: rewriting it loses nothing, and the writer's start and end
  implement the obvious operations on the list of sessions. A last line that a crash tore is the
  exception: the next record is lost in it.
\<close>

section \<open>Lines\<close>

text \<open>
  The contract of the JSON line codec: what it writes is one line that reads back as the record.
\<close>

definition record_codec ::
    "(index_record \<Rightarrow> string option) \<Rightarrow> (string \<Rightarrow> index_record option) \<Rightarrow> bool" where
  "record_codec to_line from_line \<longleftrightarrow>
     (\<forall>r line. to_line r = Some line \<longrightarrow>
        from_line line = Some r \<and> newline \<notin> set line \<and> CHR 0x0D \<notin> set line)"

definition closed_text :: "string \<Rightarrow> bool" where
  "closed_text t \<longleftrightarrow> t = [] \<or> last t = newline"

lemma closed_text_append [simp]: "closed_text (t @ l @ [newline])"
  by (simp add: closed_text_def)

lemma str_lines_snoc:
  assumes "closed_text t" "newline \<notin> set l" "CHR 0x0D \<notin> set l"
  shows "str_lines (t @ l @ [newline]) = str_lines t @ [l]"
proof (cases "t = []")
  case True
  then show ?thesis
    using split_on_append [of newline l "[]"] assms
    by (simp add: str_lines_def split_on_free drop_cr_id)
next
  case False
  then obtain u where t: "t = u @ [newline]" using assms(1) by (metis closed_text_def append_butlast_last_id)
  have "split_on newline t = split_on newline u @ [[]]"
    using split_on_append [of newline u "[]"] by (simp add: t)
  moreover have "split_on newline (t @ l @ [newline]) = split_on newline u @ [l, []]"
    using split_on_append [of newline u "l @ [newline]"] split_on_append [of newline l "[]"] assms(2)
    by (simp add: t split_on_free)
  ultimately show ?thesis using assms(3) by (simp add: str_lines_def Let_def butlast_append drop_cr_id)
qed

definition raw_sessions :: "(string \<Rightarrow> index_record option) \<Rightarrow> string \<Rightarrow> core_session list" where
  "raw_sessions from_line text = fold (parse_line from_line) (str_lines text) []"

lemma parse_sessions_raw: "parse_sessions from_line text = sort_key connect_ms (raw_sessions from_line text)"
  by (simp add: parse_sessions_def raw_sessions_def)

lemma raw_sessions_append:
  assumes "record_codec to_line from_line" "closed_text t" "to_line r = Some line"
  shows "raw_sessions from_line (t @ line @ [newline]) = apply_record r (raw_sessions from_line t)"
  using assms str_lines_snoc [OF assms(2), of line]
  by (simp add: record_codec_def raw_sessions_def parse_line_def)

section \<open>The list of sessions stays well formed\<close>

definition session_ok :: "core_session \<Rightarrow> bool" where
  "session_ok s \<longleftrightarrow> (is_open s \<longrightarrow> disconnect_ms s = None)"

definition raw_ok :: "core_session list \<Rightarrow> bool" where
  "raw_ok ss \<longleftrightarrow> distinct (map connect_ms ss) \<and> list_all session_ok ss"

definition sessions_wf :: "core_session list \<Rightarrow> bool" where
  "sessions_wf ss \<longleftrightarrow> sorted_wrt (<) (map connect_ms ss) \<and> list_all session_ok ss"

lemma update_first_id: "\<forall>x\<in>set xs. \<not> P x \<Longrightarrow> update_first P f xs = xs"
  by (induction xs) auto

text \<open>With distinct keys at most one session matches, and the update is a map.\<close>

definition close_at :: "u64 \<Rightarrow> u64 option \<Rightarrow> string \<Rightarrow> core_session \<Rightarrow> core_session" where
  "close_at c d r s = (if connect_ms s = c \<and> is_open s then close_session d r s else s)"

lemma update_first_map:
  "distinct (map connect_ms ss) \<Longrightarrow>
     update_first (\<lambda>s. connect_ms s = c \<and> is_open s) (close_session d r) ss = map (close_at c d r) ss"
proof (induction ss)
  case (Cons s ss)
  have "map (close_at c d r) ss = ss" if "connect_ms s = c"
    using that Cons.prems by (intro map_idI) (auto simp: close_at_def image_iff)
  with Cons show ?case by (simp add: close_at_def [of c d r s])
qed simp

lemma update_last_map:
  "distinct (map connect_ms ss) \<Longrightarrow>
     update_last (\<lambda>s. connect_ms s = c \<and> is_open s) (close_session d r) ss = map (close_at c d r) ss"
proof -
  assume "distinct (map connect_ms ss)"
  then have "distinct (map connect_ms (rev ss))" by (simp flip: rev_map)
  from update_first_map [OF this] show ?thesis by (simp add: update_last_def rev_map)
qed

lemma close_at_connect [simp]: "connect_ms (close_at c d r s) = connect_ms s"
  by (simp add: close_at_def close_session_def)

lemma close_at_ok: "session_ok s \<Longrightarrow> session_ok (close_at c d r s)"
  by (simp add: close_at_def close_session_def session_ok_def is_open_def)

lemma apply_record_ok: "raw_ok ss \<Longrightarrow> raw_ok (apply_record r ss)"
proof (cases r)
  case (IndexStart c st)
  assume "raw_ok ss"
  then show ?thesis
    by (auto simp: IndexStart raw_ok_def new_session_def session_ok_def list_all_iff distinct_map_filter)
next
  case (IndexEnd c d q)
  assume "raw_ok ss"
  moreover have "map connect_ms (map (close_at c d q) ss) = map connect_ms ss" by simp
  ultimately show ?thesis
    unfolding raw_ok_def IndexEnd apply_record.simps
    by (simp add: update_last_map list_all_iff close_at_ok o_def)
qed

lemma raw_sessions_ok: "raw_ok (raw_sessions from_line text)"
proof -
  have "raw_ok ss \<Longrightarrow> raw_ok (fold (parse_line from_line) ls ss)" for ls ss
    by (induction ls arbitrary: ss) (auto simp: parse_line_def apply_record_ok split: option.split)
  then show ?thesis by (simp add: raw_sessions_def raw_ok_def)
qed

lemma sort_key_wf: "raw_ok ss \<Longrightarrow> sessions_wf (sort_key connect_ms ss)"
  by (simp add: raw_ok_def sessions_wf_def strict_sorted_iff distinct_map_sort_key list_all_iff)

lemma parse_sessions_wf: "sessions_wf (parse_sessions from_line text)"
  by (simp add: parse_sessions_raw sort_key_wf raw_sessions_ok)

section \<open>Rewriting the index\<close>

definition writable :: "(index_record \<Rightarrow> string option) \<Rightarrow> core_session \<Rightarrow> bool" where
  "writable to_line s \<longleftrightarrow> (\<forall>r\<in>set (session_records s). to_line r \<noteq> None)"

lemma raw_render_snoc:
  assumes codec: "record_codec to_line from_line" and w: "writable to_line s" and t: "closed_text t"
    and raw: "raw_sessions from_line t = ss" and new: "connect_ms s \<notin> connect_ms ` set ss"
    and ok: "session_ok s"
  shows "closed_text (t @ concat (map (render_record to_line) (session_records s)))
    \<and> raw_sessions from_line (t @ concat (map (render_record to_line) (session_records s))) = ss @ [s]"
proof -
  obtain l1 where l1: "to_line (IndexStart (connect_ms s) (started s)) = Some l1"
    using w by (auto simp: writable_def session_records_def)
  have fresh: "filter (\<lambda>x. connect_ms x \<noteq> connect_ms s) ss = ss"
    using new by (intro filter_True) (auto simp: image_iff)
  have raw1: "raw_sessions from_line (t @ l1 @ [newline]) = ss @ [new_session (connect_ms s) (started s)]"
    using raw_sessions_append [OF codec t l1] raw by (simp add: fresh)
  show ?thesis
  proof (cases "reason s")
    case None
    then have "new_session (connect_ms s) (started s) = s"
      using ok by (simp add: new_session_def session_ok_def is_open_def)
    with None raw1 l1 show ?thesis by (simp add: session_records_def render_record_def)
  next
    case (Some q)
    obtain l2 where l2: "to_line (IndexEnd (connect_ms s) (disconnect_ms s) q) = Some l2"
      using w Some by (auto simp: writable_def session_records_def)
    have "raw_sessions from_line ((t @ l1 @ [newline]) @ l2 @ [newline]) =
        update_last (\<lambda>x. connect_ms x = connect_ms s \<and> is_open x) (close_session (disconnect_ms s) q)
          (ss @ [new_session (connect_ms s) (started s)])"
      using raw_sessions_append [OF codec _ l2, of "t @ l1 @ [newline]"] raw1 by simp
    also have "\<dots> = ss @ [s]"
      using Some by (simp add: update_last_def new_session_def is_open_def close_session_def)
    finally show ?thesis using Some l1 l2
      by (simp add: session_records_def render_record_def closed_text_def)
  qed
qed

lemma raw_render:
  assumes "record_codec to_line from_line"
  shows "distinct (map connect_ms ss) \<Longrightarrow> list_all session_ok ss \<Longrightarrow> list_all (writable to_line) ss \<Longrightarrow>
    closed_text (render_sessions to_line ss) \<and> raw_sessions from_line (render_sessions to_line ss) = ss"
proof (induction ss rule: rev_induct)
  case Nil
  then show ?case by (simp add: render_sessions_def closed_text_def raw_sessions_def str_lines_def)
next
  case (snoc s ss)
  then have "closed_text (render_sessions to_line ss)"
    "raw_sessions from_line (render_sessions to_line ss) = ss" by auto
  from raw_render_snoc [OF assms _ this, of s] snoc.prems show ?case
    by (simp add: render_sessions_def)
qed

lemma sessions_wf_raw: "sessions_wf ss \<Longrightarrow> distinct (map connect_ms ss) \<and> sort_key connect_ms ss = ss"
  by (simp add: sessions_wf_def strict_sorted_iff sort_key_id_if_sorted)

text \<open>
  Reading the index yields sessions in strict order of their connect time, an open one without
  an end time; and whatever list was read, writing it out and reading it again gives the same list,
  so replacing the file loses no session.
\<close>

theorem index_rewrite_roundtrip:
  assumes "record_codec to_line from_line" and "ss = parse_sessions from_line text"
    and "list_all (writable to_line) ss"
  shows "sessions_wf ss \<and> parse_sessions from_line (render_sessions to_line ss) = ss"
proof -
  have wf: "sessions_wf ss" by (simp add: assms(2) parse_sessions_wf)
  with sessions_wf_raw [OF wf] raw_render [OF assms(1) _ _ assms(3)] show ?thesis
    by (simp add: parse_sessions_raw sessions_wf_def)
qed

text \<open>A codec of two records that meets the contract.\<close>

definition sample_start :: session_start where
  "sample_start = \<lparr>mode = ''tun'', service = True, engines = [''mihomo''], profile = None\<rparr>"

definition sample_to_line :: "index_record \<Rightarrow> string option" where
  "sample_to_line r =
     (if r = IndexStart 5 sample_start then Some ''S5''
      else if r = IndexEnd 5 (Some 9) ''user'' then Some ''E5'' else None)"

definition sample_from_line :: "string \<Rightarrow> index_record option" where
  "sample_from_line l =
     (if l = ''S5'' then Some (IndexStart 5 sample_start)
      else if l = ''E5'' then Some (IndexEnd 5 (Some 9) ''user'') else None)"

lemma sample_codec: "record_codec sample_to_line sample_from_line"
  by (simp add: record_codec_def sample_to_line_def sample_from_line_def)

lemma sample_parse:
  "parse_sessions sample_from_line [CHR ''S'', CHR ''5'', newline, CHR ''E'', CHR ''5'', newline] =
     [close_session (Some 9) ''user'' (new_session 5 sample_start)]"
  by (simp add: parse_sessions_def str_lines_def drop_cr_def parse_line_def sample_from_line_def
      update_last_def new_session_def is_open_def)

theorem index_rewrite_roundtrip_witness:
  "parse_sessions sample_from_line
     (render_sessions sample_to_line [close_session (Some 9) ''user'' (new_session 5 sample_start)]) =
   [close_session (Some 9) ''user'' (new_session 5 sample_start)]"
  using index_rewrite_roundtrip [OF sample_codec sample_parse [symmetric]]
  by (simp add: writable_def session_records_def close_session_def new_session_def sample_to_line_def)

section \<open>The writer implements a list of sessions\<close>

datatype index_op =
    OpStart u64 session_start
  | OpEnd u64 u64 string

definition index_step ::
    "(index_record \<Rightarrow> string option) \<Rightarrow> index_op \<Rightarrow> session_index \<Rightarrow> session_index" where
  "index_step to_line op ix =
     (case op of
        OpStart now st \<Rightarrow> fst (start_session to_line True now st ix)
      | OpEnd c d r \<Rightarrow> end_session to_line True c d r ix)"

text \<open>The abstract index: the sessions in order and the newest identifier handed out.\<close>

definition next_connect :: "u64 \<Rightarrow> u64 \<Rightarrow> u64" where
  "next_connect now newest = max now (newest + 1)"

fun abstract_step :: "index_op \<Rightarrow> core_session list \<times> u64 \<Rightarrow> core_session list \<times> u64" where
  "abstract_step (OpStart now st) (ss, newest) =
     (ss @ [new_session (next_connect now newest) st], next_connect now newest)"
| "abstract_step (OpEnd c d r) (ss, newest) = (map (close_at c (Some (max d c)) r) ss, newest)"

definition index_text :: "session_index \<Rightarrow> string" where
  "index_text ix = (case index_file ix of None \<Rightarrow> [] | Some e \<Rightarrow> content e)"

definition index_abs ::
    "(string \<Rightarrow> index_record option) \<Rightarrow> session_index \<Rightarrow> core_session list \<times> u64" where
  "index_abs from_line ix = (parse_sessions from_line (index_text ix), last_connect ix)"

definition index_inv :: "(string \<Rightarrow> index_record option) \<Rightarrow> session_index \<Rightarrow> bool" where
  "index_inv from_line ix \<longleftrightarrow>
     closed_text (index_text ix) \<and>
     (\<forall>s\<in>set (parse_sessions from_line (index_text ix)). connect_ms s \<le> last_connect ix)"

fun op_record :: "index_op \<Rightarrow> u64 \<Rightarrow> index_record" where
  "op_record (OpStart now st) newest = IndexStart (next_connect now newest) st"
| "op_record (OpEnd c d r) newest = IndexEnd c (Some (max d c)) r"

lemma index_text_append:
  "to_line r = Some line \<Longrightarrow> index_text (append_record to_line True r ix) = index_text ix @ line @ [newline]"
  by (simp add: append_record_def index_text_def index_entry_def split: option.split)

lemma append_record_frame [simp]:
  "last_connect (append_record to_line k r ix) = last_connect ix"
  "journal_dir (append_record to_line k r ix) = journal_dir ix"
  by (simp_all add: append_record_def split: option.split)

lemma index_text_frame [simp]:
  "index_text (ix\<lparr>last_connect := c\<rparr>) = index_text ix"
  "index_text (ix\<lparr>journal_dir := d\<rparr>) = index_text ix"
  by (simp_all add: index_text_def)

lemma index_step_text:
  assumes "to_line (op_record op (last_connect ix)) = Some line"
  shows "index_text (index_step to_line op ix) = index_text ix @ line @ [newline]"
  using assms
  by (cases op) (simp_all add: index_step_def start_session_def end_session_def Let_def
      next_connect_def index_text_append)

lemma index_step_last:
  "last_connect (index_step to_line op ix) = snd (abstract_step op (ss, last_connect ix))"
  by (cases op) (simp_all add: index_step_def start_session_def end_session_def Let_def next_connect_def)

lemma sort_key_snoc: "\<forall>x\<in>set xs. f x \<le> f y \<Longrightarrow> sort_key f (xs @ [y]) = sort_key f xs @ [y]"
proof (rule properties_for_sort_key)
  assume "\<forall>x\<in>set xs. f x \<le> f y"
  then show "sorted (map f (sort_key f xs @ [y]))" by (simp add: sorted_append)
  show "filter (\<lambda>x. f k = f x) (sort_key f xs @ [y]) = filter (\<lambda>x. f k = f x) (xs @ [y])"
    if "k \<in> set (sort_key f xs @ [y])" for k
  proof -
    have "(\<lambda>x. f k = f x) = (\<lambda>x. f x = f k)" by auto
    then show ?thesis by (simp add: sort_key_stable)
  qed
qed simp

lemma sort_key_map: "(\<And>x. f (g x) = f x) \<Longrightarrow> sort_key f (map g xs) = map g (sort_key f xs)"
proof -
  assume same: "\<And>x. f (g x) = f x"
  have "insort_key f (g x) (map g ys) = map g (insort_key f x ys)" for x ys
    by (induction ys) (simp_all add: same)
  then show ?thesis by (induction xs) simp_all
qed

lemma newest_less: "newest < - 1 \<Longrightarrow> newest < next_connect now newest"
proof -
  assume "newest < (- 1 :: u64)"
  then have "1 + newest \<noteq> 0" by (auto simp: add_eq_0_iff)
  from unatSuc [OF this] have "newest < newest + 1" by (simp add: word_less_nat_alt add.commute)
  then show ?thesis by (simp add: next_connect_def less_max_iff_disj)
qed

text \<open>
  C20. The index refines a list of sessions: starting appends an open session under an identifier
  above all earlier ones, ending closes exactly the session that was named, never before it began,
  and each step of the file's text is that step on the list; the invariant it rests on is kept.
\<close>

theorem session_index_refines:
  assumes "record_codec to_line from_line" and "to_line (op_record op (last_connect ix)) \<noteq> None"
    and "index_inv from_line ix" and "last_connect ix < - 1"
  shows "index_abs from_line (index_step to_line op ix) = abstract_step op (index_abs from_line ix)
    \<and> index_inv from_line (index_step to_line op ix)
    \<and> (\<forall>now st. op = OpStart now st \<longrightarrow> last_connect ix < last_connect (index_step to_line op ix))"
proof -
  obtain line where line: "to_line (op_record op (last_connect ix)) = Some line" using assms(2) by auto
  let ?raw = "raw_sessions from_line (index_text ix)"
  have closed: "closed_text (index_text ix)"
    and below: "\<forall>s\<in>set ?raw. connect_ms s \<le> last_connect ix"
    using assms(3) by (simp_all add: index_inv_def parse_sessions_raw)
  have raw: "raw_sessions from_line (index_text (index_step to_line op ix)) =
      apply_record (op_record op (last_connect ix)) ?raw"
    unfolding index_step_text [of to_line op ix line, OF line] by (rule raw_sessions_append [OF assms(1) closed line])
  have less: "last_connect ix < next_connect now (last_connect ix)" for now
    by (rule newest_less [OF assms(4)])
  have abs: "parse_sessions from_line (index_text (index_step to_line op ix)) =
      fst (abstract_step op (parse_sessions from_line (index_text ix), last_connect ix))"
  proof (cases op)
    case (OpStart now st)
    let ?c = "next_connect now (last_connect ix)"
    have "filter (\<lambda>s. connect_ms s \<noteq> ?c) ?raw = ?raw"
      using below less [of now] by (intro filter_True) (auto dest: leD)
    moreover have "\<forall>s\<in>set ?raw. connect_ms s \<le> connect_ms (new_session ?c st)"
      using below less [of now] by (auto simp: new_session_def intro: order_trans less_imp_le)
    ultimately show ?thesis
      using raw by (simp add: OpStart parse_sessions_raw sort_key_snoc)
  next
    case (OpEnd c d r)
    have "distinct (map connect_ms ?raw)" using raw_sessions_ok by (simp add: raw_ok_def)
    with raw show ?thesis by (simp add: OpEnd parse_sessions_raw update_last_map sort_key_map)
  qed
  have "closed_text (index_text (index_step to_line op ix))" by (simp add: index_step_text [of to_line op ix line, OF line])
  moreover have "\<forall>s\<in>set (fst (abstract_step op (parse_sessions from_line (index_text ix), last_connect ix))).
      connect_ms s \<le> snd (abstract_step op (parse_sessions from_line (index_text ix), last_connect ix))"
    using below less [THEN less_imp_le]
    by (cases op) (auto simp: parse_sessions_raw new_session_def dest: order_trans)
  ultimately show ?thesis
    using abs index_step_last [of to_line op ix] less
    by (auto simp: index_abs_def index_inv_def prod_eq_iff)
qed

theorem session_index_refines_witness:
  "index_abs sample_from_line (index_step sample_to_line (OpStart 5 sample_start)
     \<lparr>index_file = None, journal_dir = None, last_connect = 3\<rparr>) = ([new_session 5 sample_start], 5)"
proof -
  let ?ix = "\<lparr>index_file = None, journal_dir = None, last_connect = 3\<rparr>"
  have nil: "parse_sessions sample_from_line [] = []" by (simp add: parse_sessions_def str_lines_def)
  have "next_connect 5 3 = 5" by (simp add: next_connect_def)
  then show ?thesis
    using session_index_refines [OF sample_codec, of "OpStart 5 sample_start" ?ix]
    by (simp add: sample_to_line_def index_inv_def index_abs_def index_text_def closed_text_def nil)
qed

section \<open>A torn last line\<close>

lemma lossy_no_newline: "newline \<notin> set s \<Longrightarrow> newline \<notin> set (from_utf8_lossy s)"
proof (induction s rule: from_utf8_lossy.induct)
  case (1 s)
  show ?case
  proof (cases "s = []")
    case False
    obtain n good where n: "utf8_chunk s = (n, good)" by fastforce
    have "newline \<notin> set (from_utf8_lossy (drop n s))"
      using 1(1) [OF False n [symmetric]] 1(2) by (meson in_set_dropD)
    moreover have "newline \<notin> set (take n s)" using 1(2) by (meson in_set_takeD)
    moreover have "newline \<notin> set replacement" by (simp add: replacement_def)
    ultimately show ?thesis using False n by (subst from_utf8_lossy.simps) simp
  qed (simp add: from_utf8_lossy.simps [of "[]"])
qed

lemma lossy_empty: "from_utf8_lossy s = [] \<longleftrightarrow> s = []"
proof (cases "s = []")
  case False
  obtain n good where n: "utf8_chunk s = (n, good)" by fastforce
  then have "0 < n" using utf8_chunk_pos [of n good s] by simp
  with False n show ?thesis
    by (subst from_utf8_lossy.simps) (simp add: replacement_def)
qed (simp add: from_utf8_lossy.simps [of "[]"])

lemma lossy_newline: "from_utf8_lossy (a @ newline # b) = from_utf8_lossy a @ newline # from_utf8_lossy b"
  by (rule lossy_append) simp

lemma closed_lossy:
  assumes "closed_text t"
  shows "from_utf8_lossy (t @ l) = from_utf8_lossy t @ from_utf8_lossy l" "closed_text (from_utf8_lossy t)"
proof -
  have "t = [] \<or> (\<exists>u. t = u @ [newline])"
    using assms by (metis closed_text_def append_butlast_last_id)
  then show "from_utf8_lossy (t @ l) = from_utf8_lossy t @ from_utf8_lossy l"
    "closed_text (from_utf8_lossy t)"
    using lossy_newline by (auto simp: closed_text_def from_utf8_lossy.simps [of "[]"])
qed

text \<open>The lines of a closed text followed by one more line, whole or torn.\<close>

lemma str_lines_more:
  assumes "closed_text t" "newline \<notin> set l" "l \<noteq> []"
  shows "str_lines (t @ l) = str_lines t @ [l]" "str_lines (t @ l @ [newline]) = str_lines t @ [drop_cr l]"
proof -
  have last_line: "split_on newline l = [l]" "split_on newline (l @ [newline]) = [l, []]"
    using assms(2) split_on_append [of newline l "[]"] by (simp_all add: split_on_free)
  consider "t = []" | u where "t = u @ [newline]"
    using assms(1) by (metis closed_text_def append_butlast_last_id)
  then have "str_lines (t @ l) = str_lines t @ [l] \<and>
      str_lines (t @ l @ [newline]) = str_lines t @ [drop_cr l]"
  proof cases
    case 1
    with last_line assms(3) show ?thesis by (simp add: str_lines_def)
  next
    case (2 u)
    have "split_on newline t = split_on newline u @ [[]]"
      "split_on newline (t @ l) = split_on newline u @ [l]"
      "split_on newline (t @ l @ [newline]) = split_on newline u @ [l, []]"
      using split_on_append [of newline u "[]"] split_on_append [of newline u l]
        split_on_append [of newline u "l @ [newline]"] last_line
      by (simp_all add: 2)
    with assms(3) show ?thesis by (simp add: str_lines_def Let_def butlast_append)
  qed
  then show "str_lines (t @ l) = str_lines t @ [l]" "str_lines (t @ l @ [newline]) = str_lines t @ [drop_cr l]"
    by simp_all
qed

text \<open>What is read back from a small index file is its sessions line by line.\<close>

lemma read_small:
  assumes "regular e" "readable e" "length (content e) \<le> MAX_INDEX_BYTES"
  shows "read_sessions from_line (Some e) = parse_sessions from_line (from_utf8_lossy (content e))"
  using assms by (simp add: read_sessions_def read_index_def)

text \<open>
  C21. The index is not always repaired on opening. Take any index file of ordinary size whose last
  line a crash tore in the middle, so that neither that piece nor the piece with a record behind it
  is a record, and in which no session is open or outdated. Opening the index keeps the file as it
  is, the next start is appended to the torn line, and the session it opened is not in the index:
  the same sessions are read back as before.
\<close>

theorem torn_line_loses_session:
  assumes "record_codec to_line from_line"
    and e: "regular e" "readable e" "content e = t @ torn" "closed_text t" "newline \<notin> set torn" "torn \<noteq> []"
    and small: "length (content e) \<le> MAX_INDEX_BYTES div 2"
      "length (content e) + length line < MAX_INDEX_BYTES"
    and kept: "kept_sessions now (read_sessions from_line (Some e)) = read_sessions from_line (Some e)"
    and ix: "ix = open_index to_line from_line replace_ok (Some e) d now" "last_connect ix < - 1"
    and start: "(ix', c) = start_session to_line True now' st ix" "to_line (IndexStart c st) = Some line"
    and torn: "from_line (from_utf8_lossy torn) = None"
      "from_line (drop_cr (from_utf8_lossy (torn @ line))) = None"
  shows "index_file ix = Some e
    \<and> read_sessions from_line (index_file ix') = read_sessions from_line (Some e)
    \<and> c \<notin> connect_ms ` set (read_sessions from_line (index_file ix'))"
proof -
  have "newline \<notin> set line" using assms(1) start(2) by (auto simp: record_codec_def)
  then have free: "newline \<notin> set (from_utf8_lossy torn)" "newline \<notin> set (from_utf8_lossy (torn @ line))"
    "from_utf8_lossy torn \<noteq> []" "from_utf8_lossy (torn @ line) \<noteq> []"
    using e(5,6) by (simp_all add: lossy_no_newline lossy_empty)
  have opened: "index_file ix = Some e" using small kept by (simp add: ix(1) open_index_def Let_def)
  have line: "to_line (IndexStart (max now' (last_connect ix + 1)) st) = Some line"
    using start by (simp add: start_session_def Let_def)
  then have written: "index_file ix' = Some (e\<lparr>content := t @ torn @ line @ [newline]\<rparr>)"
    using start(1) opened e(3) by (simp add: start_session_def Let_def append_record_def)
  have lossy: "from_utf8_lossy (t @ torn @ line @ [newline]) =
      from_utf8_lossy t @ from_utf8_lossy (torn @ line) @ [newline]"
    using closed_lossy(1) [OF e(4)] lossy_newline [of "torn @ line" "[]"]
    by (simp add: from_utf8_lossy.simps [of "[]"])
  have parse: "parse_line from_line l ss = ss" if "from_line l = None" for l ss
    using that by (simp add: parse_line_def)
  have before: "read_sessions from_line (Some e) = parse_sessions from_line (from_utf8_lossy t)"
    using read_small [OF e(1,2)] small(1) e(3) closed_lossy [OF e(4)] torn(1)
      str_lines_more(1) [OF closed_lossy(2) [OF e(4)] free(1,3)]
    by (simp add: parse_sessions_def parse)
  have after: "read_sessions from_line (index_file ix') = parse_sessions from_line (from_utf8_lossy t)"
    using read_small [of "e\<lparr>content := t @ torn @ line @ [newline]\<rparr>" from_line] e small(2) torn(2)
      str_lines_more(2) [OF closed_lossy(2) [OF e(4)] free(2,4)]
    by (simp add: written lossy parse_sessions_def parse)
  let ?ss = "read_sessions from_line (Some e)"
  have c: "c = max now' (last_connect ix + 1)" using start(1) by (simp add: start_session_def Let_def)
  have last_ix: "last_connect ix = (if ?ss = [] then 0 else Max (connect_ms ` set ?ss))"
    using kept by (simp add: ix(1) open_index_def Let_def)
  have "k \<noteq> c" if "k \<in> connect_ms ` set ?ss" for k
  proof -
    have "k \<le> last_connect ix" using that last_ix by (auto split: if_splits)
    also have "\<dots> < c" using newest_less [OF ix(2), of now'] by (simp add: c next_connect_def)
    finally show ?thesis by simp
  qed
  with opened before after show ?thesis by auto
qed

theorem torn_line_loses_session_witness:
  "read_sessions sample_from_line
     (index_file (fst (start_session sample_to_line True 5 sample_start
        (open_index sample_to_line sample_from_line True (Some (index_entry ''S'')) None 4)))) = []"
proof -
  let ?e = "index_entry ''S''"
  let ?ix = "open_index sample_to_line sample_from_line True (Some ?e) None 4"
  have lossy: "from_utf8_lossy ''S'' = ''S''" "from_utf8_lossy ''SS5'' = ''SS5''"
    using lossy_append [of "CHR ''S''" "[]" "[]"] lossy_append [of "CHR ''S''" "[]" "''S5''"]
      lossy_append [of "CHR ''S''" "[]" "''5''"] lossy_append [of "CHR ''5''" "[]" "[]"] by simp_all
  have unread: "read_sessions sample_from_line (Some ?e) = []"
    by (simp add: read_sessions_def read_index_def index_entry_def MAX_INDEX_BYTES_def lossy
        parse_sessions_def str_lines_def parse_line_def sample_from_line_def)
  have kept: "kept_sessions 4 [] = []" by (simp add: kept_sessions_def Let_def)
  have ix: "last_connect ?ix = 0" by (simp add: open_index_def Let_def unread kept)
  obtain ix' c where start: "start_session sample_to_line True 5 sample_start ?ix = (ix', c)" by fastforce
  then have c: "c = 5" by (auto simp: start_session_def Let_def ix)
  have top: "(0::u64) < - 1" by (simp add: word_greater_zero_iff)
  have "index_file ?ix = Some ?e
    \<and> read_sessions sample_from_line (index_file ix') = read_sessions sample_from_line (Some ?e)
    \<and> c \<notin> connect_ms ` set (read_sessions sample_from_line (index_file ix'))"
    by (rule torn_line_loses_session [OF sample_codec, of ?e "[]" "''S''" "''S5''" 4 ?ix True None _ _ 5 sample_start])
      (simp_all add: unread kept ix start c lossy top, simp_all add: index_entry_def closed_text_def MAX_INDEX_BYTES_def
        sample_to_line_def sample_from_line_def drop_cr_def)
  with unread start show ?thesis by simp
qed

end
