(* ===== verification/Connection_State.thy ===== *)
theory Connection_State
  imports Prelude
begin

text \<open>
  \<open>supervisor.rs\<close>, \<open>state.rs\<close> and \<open>connection_mode.rs\<close>: the contract of a process controller, the
  supervisor that brings the two cores up and down over it, the controllers built from others (by
  mode, by backing, with the system proxy following Mihomo), and the connection's state machine.
  An asynchronous call is one step on the controller's state.
\<close>

section \<open>Engines and controllers\<close>

datatype engine = XrayCore | MihomoCore

datatype start_failure_cause =
    UnknownCause
  | ElevationCancelled
  | ElevationFailed
  | BrokerFailed
  | CoreFailed
  | CoreMissing
  | CoreExited
  | ReadinessTimedOutCause
  | TunFailed
  | TunTimedOut
  | SystemProxyFailed
  | ServiceBusy

record ('s, 'e) controller =
  c_start :: "engine \<Rightarrow> 's \<Rightarrow> ('e + unit) \<times> 's"
  c_stop :: "engine \<Rightarrow> 's \<Rightarrow> ('e + unit) \<times> 's"
  c_cause :: "'e \<Rightarrow> start_failure_cause"

fun map_error :: "('e \<Rightarrow> 'f) \<Rightarrow> ('e + unit) \<times> 's \<Rightarrow> ('f + unit) \<times> 's" where
  "map_error f (Inl e, s) = (Inl (f e), s)"
| "map_error f (Inr u, s) = (Inr u, s)"

section \<open>The supervisor\<close>

datatype supervisor_error =
    StartFailed engine bool start_failure_cause
  | StopFailed

definition supervisor_connect ::
    "('s, 'e) controller \<Rightarrow> 's \<Rightarrow> (supervisor_error + unit) \<times> 's" where
  "supervisor_connect c s =
     (case c_start c XrayCore s of
        (Inl e, s) \<Rightarrow> (Inl (StartFailed XrayCore False (c_cause c e)), s)
      | (Inr _, s) \<Rightarrow>
          (case c_start c MihomoCore s of
             (Inl e, s) \<Rightarrow>
               (case c_stop c XrayCore s of
                  (rollback, s) \<Rightarrow>
                    (Inl (StartFailed MihomoCore (\<not> is_ok rollback) (c_cause c e)), s))
           | (Inr _, s) \<Rightarrow> (Inr (), s)))"

definition supervisor_disconnect ::
    "('s, 'e) controller \<Rightarrow> 's \<Rightarrow> (supervisor_error + unit) \<times> 's" where
  "supervisor_disconnect c s =
     (case c_stop c MihomoCore s of
        (mihomo, s) \<Rightarrow>
          (case c_stop c XrayCore s of
             (xray, s) \<Rightarrow>
               if \<not> is_ok mihomo \<or> \<not> is_ok xray then (Inl StopFailed, s) else (Inr (), s)))"

section \<open>Controllers built from controllers\<close>

datatype ('a, 'b) mode_controller = TunMode 'a | ProxyMode 'b

datatype ('a, 'b) mode_error = TunError 'a | ProxyError 'b

definition mode_control ::
    "(('s, 'e) controller, ('s, 'f) controller) mode_controller \<Rightarrow> ('s, ('e, 'f) mode_error) controller" where
  "mode_control m =
     (case m of
        TunMode c \<Rightarrow>
          \<lparr>c_start = (\<lambda>e s. map_error TunError (c_start c e s)),
           c_stop = (\<lambda>e s. map_error TunError (c_stop c e s)),
           c_cause = (\<lambda>x. case x of TunError e \<Rightarrow> c_cause c e | ProxyError _ \<Rightarrow> UnknownCause)\<rparr>
      | ProxyMode c \<Rightarrow>
          \<lparr>c_start = (\<lambda>e s. map_error ProxyError (c_start c e s)),
           c_stop = (\<lambda>e s. map_error ProxyError (c_stop c e s)),
           c_cause = (\<lambda>x. case x of ProxyError e \<Rightarrow> c_cause c e | TunError _ \<Rightarrow> UnknownCause)\<rparr>)"

datatype ('a, 'b) backed = ByService 'a | OnDemand 'b

datatype ('a, 'b) backed_error = ServiceFailure 'a | OnDemandFailure 'b

definition backed_control ::
    "(('s, 'e) controller, ('s, 'f) controller) backed \<Rightarrow> ('s, ('e, 'f) backed_error) controller" where
  "backed_control b =
     (case b of
        ByService c \<Rightarrow>
          \<lparr>c_start = (\<lambda>e s. map_error ServiceFailure (c_start c e s)),
           c_stop = (\<lambda>e s. map_error ServiceFailure (c_stop c e s)),
           c_cause = (\<lambda>x. case x of ServiceFailure e \<Rightarrow> c_cause c e | OnDemandFailure _ \<Rightarrow> UnknownCause)\<rparr>
      | OnDemand c \<Rightarrow>
          \<lparr>c_start = (\<lambda>e s. map_error OnDemandFailure (c_start c e s)),
           c_stop = (\<lambda>e s. map_error OnDemandFailure (c_stop c e s)),
           c_cause = (\<lambda>x. case x of OnDemandFailure e \<Rightarrow> c_cause c e | ServiceFailure _ \<Rightarrow> UnknownCause)\<rparr>)"

text \<open>The switch of the system proxy, over a state of its own; see \<open>System_Proxy\<close>.\<close>

record ('w, 'p) proxy_switch =
  switch_on :: "'w \<Rightarrow> ('p + unit) \<times> 'w"
  switch_off :: "'w \<Rightarrow> ('p + unit) \<times> 'w"

datatype 'e proxy_mode_error = CoreError 'e | SystemProxyError

definition proxy_mode_start ::
    "('s, 'e) controller \<Rightarrow> ('w, 'p) proxy_switch \<Rightarrow> engine \<Rightarrow> 's \<times> 'w
       \<Rightarrow> ('e proxy_mode_error + unit) \<times> ('s \<times> 'w)" where
  "proxy_mode_start inner proxy e st =
     (case st of (s, w) \<Rightarrow>
        (case c_start inner e s of
           (Inl err, s) \<Rightarrow> (Inl (CoreError err), (s, w))
         | (Inr _, s) \<Rightarrow>
             if e = MihomoCore then
               (case switch_on proxy w of
                  (Inl _, w) \<Rightarrow> (case c_stop inner e s of (_, s) \<Rightarrow> (Inl SystemProxyError, (s, w)))
                | (Inr _, w) \<Rightarrow> (Inr (), (s, w)))
             else (Inr (), (s, w))))"

definition proxy_mode_stop ::
    "('s, 'e) controller \<Rightarrow> ('w, 'p) proxy_switch \<Rightarrow> engine \<Rightarrow> 's \<times> 'w
       \<Rightarrow> ('e proxy_mode_error + unit) \<times> ('s \<times> 'w)" where
  "proxy_mode_stop inner proxy e st =
     (case st of (s, w) \<Rightarrow>
        let w = (if e = MihomoCore then snd (switch_off proxy w) else w)
        in (case c_stop inner e s of
              (Inl err, s) \<Rightarrow> (Inl (CoreError err), (s, w))
            | (Inr _, s) \<Rightarrow> (Inr (), (s, w))))"

definition proxy_mode_control ::
    "('s, 'e) controller \<Rightarrow> ('w, 'p) proxy_switch \<Rightarrow> ('s \<times> 'w, 'e proxy_mode_error) controller" where
  "proxy_mode_control inner proxy =
     \<lparr>c_start = proxy_mode_start inner proxy, c_stop = proxy_mode_stop inner proxy,
      c_cause = (\<lambda>x. case x of CoreError e \<Rightarrow> c_cause inner e | SystemProxyError \<Rightarrow> SystemProxyFailed)\<rparr>"

section \<open>The connection's states\<close>

datatype connection_state = EmptyState | ReadyState | Connecting | Connected | ErrorState

datatype state_error = InvalidTransition connection_state connection_state

definition valid_transition :: "connection_state \<Rightarrow> connection_state \<Rightarrow> bool" where
  "valid_transition from to =
     (case from of
        EmptyState \<Rightarrow> to \<in> {ReadyState, ErrorState}
      | ReadyState \<Rightarrow> to \<in> {Connecting, EmptyState}
      | Connecting \<Rightarrow> to \<in> {Connected, ErrorState, ReadyState}
      | Connected \<Rightarrow> to \<in> {ReadyState, ErrorState}
      | ErrorState \<Rightarrow> to \<in> {Connecting, ReadyState, EmptyState})"

definition transition :: "connection_state \<Rightarrow> connection_state \<Rightarrow> (state_error + unit) \<times> connection_state" where
  "transition state next_state =
     (if \<not> valid_transition state next_state
      then (Inl (InvalidTransition state next_state), state)
      else (Inr (), next_state))"

section \<open>The contract of a controller\<close>

text \<open>
  What the supervisor relies on, over the set of running engines: a start that succeeds adds its
  engine, one that fails adds nothing; a stop that succeeds removes its engine, one that fails adds
  nothing and touches no other engine.
\<close>

locale process_controller =
  fixes start :: "engine \<Rightarrow> 's \<Rightarrow> ('e + unit) \<times> 's"
    and stop :: "engine \<Rightarrow> 's \<Rightarrow> ('e + unit) \<times> 's"
    and running :: "'s \<Rightarrow> engine set"
    and valid :: "'s \<Rightarrow> bool"
  assumes start_ok: "valid s \<Longrightarrow> start e s = (Inr u, s') \<Longrightarrow> running s' = insert e (running s)"
    and start_failed: "valid s \<Longrightarrow> start e s = (Inl x, s') \<Longrightarrow> running s' \<subseteq> running s"
    and stop_ok: "valid s \<Longrightarrow> stop e s = (Inr u, s') \<Longrightarrow> running s' = running s - {e}"
    and stop_failed: "valid s \<Longrightarrow> stop e s = (Inl x, s') \<Longrightarrow> running s' \<subseteq> running s \<and> running s - {e} \<subseteq> running s'"
    and start_inv: "valid s \<Longrightarrow> valid (snd (start e s))"
    and stop_inv: "valid s \<Longrightarrow> valid (snd (stop e s))"
begin

lemma connect_ok:
  assumes "valid s" "c_start c = start" "c_stop c = stop" "supervisor_connect c s = (Inr u, s')"
  shows "running s' = {XrayCore, MihomoCore} \<union> running s" "valid s'"
proof -
  obtain r1 s1 where 1: "start XrayCore s = (r1, s1)" by fastforce
  obtain r2 s2 where 2: "start MihomoCore s1 = (r2, s2)" by fastforce
  have ok: "r1 = Inr ()" "r2 = Inr ()" "s' = s2"
    using assms(2-4) 1 2 by (auto simp: supervisor_connect_def split: sum.splits prod.splits)
  have i1: "valid s1" using start_inv [OF assms(1), of XrayCore] 1 by simp
  show "valid s'" using start_inv [OF i1, of MihomoCore] 2 ok by simp
  show "running s' = {XrayCore, MihomoCore} \<union> running s"
    using start_ok [OF assms(1) 1 [unfolded ok]] start_ok [OF i1 2 [unfolded ok(2)]] ok(3) by auto
qed

lemma connect_failed:
  assumes "valid s" "c_start c = start" "c_stop c = stop"
    and "supervisor_connect c s = (Inl (StartFailed e rollback_failed cause), s')"
  shows "running s' \<subseteq> running s \<union> (if rollback_failed then {XrayCore} else {})" "valid s'"
    and "e = MihomoCore \<Longrightarrow> \<not> rollback_failed \<Longrightarrow> XrayCore \<notin> running s'"
proof -
  obtain r1 s1 where 1: "start XrayCore s = (r1, s1)" by fastforce
  obtain r2 s2 where 2: "start MihomoCore s1 = (r2, s2)" by fastforce
  obtain r3 s3 where 3: "stop XrayCore s2 = (r3, s3)" by fastforce
  have i1: "valid s1" using start_inv [OF assms(1), of XrayCore] 1 by simp
  have i2: "valid s2" using start_inv [OF i1, of MihomoCore] 2 by simp
  have i3: "valid s3" using stop_inv [OF i2, of XrayCore] 3 by simp
  consider x where "r1 = Inl x" "s' = s1" "e = XrayCore" "\<not> rollback_failed"
    | y where "r1 = Inr ()" "r2 = Inl y" "s' = s3" "e = MihomoCore" "rollback_failed = (\<not> is_ok r3)"
    using assms(2-4) 1 2 3
    by (cases r1; cases r2) (auto simp: supervisor_connect_def)
  then have "running s' \<subseteq> running s \<union> (if rollback_failed then {XrayCore} else {}) \<and> valid s' \<and>
      (e = MihomoCore \<longrightarrow> \<not> rollback_failed \<longrightarrow> XrayCore \<notin> running s')"
  proof cases
    case (1 x)
    then show ?thesis using start_failed [OF assms(1)] \<open>start XrayCore s = (r1, s1)\<close> i1 by auto
  next
    case (2 y)
    have up: "running s2 \<subseteq> insert XrayCore (running s)"
      using start_ok [OF assms(1)] start_failed [OF i1] \<open>start XrayCore s = (r1, s1)\<close>
        \<open>start MihomoCore s1 = (r2, s2)\<close> 2 by blast
    show ?thesis
    proof (cases r3)
      case (Inl z)
      with up stop_failed [OF i2 3 [unfolded Inl]] 2 i3 show ?thesis by (auto simp: is_ok_def)
    next
      case (Inr v)
      with up stop_ok [OF i2 3 [unfolded Inr]] 2 i3 show ?thesis by (auto simp: is_ok_def)
    qed
  qed
  then show "running s' \<subseteq> running s \<union> (if rollback_failed then {XrayCore} else {})" "valid s'"
    "e = MihomoCore \<Longrightarrow> \<not> rollback_failed \<Longrightarrow> XrayCore \<notin> running s'" by blast+
qed

lemma disconnect_ok:
  assumes "valid s" "c_start c = start" "c_stop c = stop" "supervisor_disconnect c s = (Inr u, s')"
  shows "running s' = {}" "valid s'"
proof -
  obtain r1 s1 where 1: "stop MihomoCore s = (r1, s1)" by fastforce
  obtain r2 s2 where 2: "stop XrayCore s1 = (r2, s2)" by fastforce
  have ok: "r1 = Inr ()" "r2 = Inr ()" "s' = s2"
    using assms(2-4) 1 2 by (auto simp: supervisor_disconnect_def is_ok_def split: if_splits sum.splits)
  have i1: "valid s1" using stop_inv [OF assms(1), of MihomoCore] 1 by simp
  show "valid s'" using stop_inv [OF i1, of XrayCore] 2 ok by simp
  have "running s' \<subseteq> - {MihomoCore, XrayCore}"
    using stop_ok [OF assms(1) 1 [unfolded ok(1)]] stop_ok [OF i1 2 [unfolded ok(2)]] ok(3) by auto
  moreover have "UNIV = {XrayCore, MihomoCore}" using engine.exhaust by auto
  ultimately show "running s' = {}" by auto
qed

end

end
