(* ===== verification/Sidecar_Control.thy ===== *)
theory Sidecar_Control
  imports Connection_State
begin

text \<open>
  \<open>sidecar.rs\<close>, the process controller: the table of the cores' child processes, starting one and
  waiting for it to become ready, stopping it, and what diagnostics and the health check report.
  The operating system is the set of live process identifiers; what it answers during the n-th
  operation is the n-th entry of a script, and the readiness probe is a function of the time in
  milliseconds.
\<close>

section \<open>Waiting for readiness\<close>

datatype process_error =
    LaunchFailed engine
  | InspectFailed engine
  | StopFailedError engine
  | ReadinessFailed engine
  | ReadinessTimedOut engine

definition CORE_READINESS_TIMEOUT :: nat where
  "CORE_READINESS_TIMEOUT = 12000"

definition READINESS_POLL_INTERVAL :: nat where
  "READINESS_POLL_INTERVAL = 30"

text \<open>One look at a starting core: has it exited (if that can be told), is it ready, how long it took.\<close>

record probe =
  probe_exited :: "bool option"
  probe_ready :: bool
  probe_took :: nat

function wait_for_runtime_readiness ::
    "engine \<Rightarrow> (nat \<Rightarrow> probe) \<Rightarrow> nat \<Rightarrow> nat \<Rightarrow> process_error + unit" where
  "wait_for_runtime_readiness e seen deadline now =
     (case probe_exited (seen now) of
        None \<Rightarrow> Inl (InspectFailed e)
      | Some True \<Rightarrow> Inl (ReadinessFailed e)
      | Some False \<Rightarrow>
          if probe_ready (seen now) then Inr ()
          else let now = now + probe_took (seen now)
               in if now \<ge> deadline then Inl (ReadinessTimedOut e)
                  else wait_for_runtime_readiness e seen deadline (now + READINESS_POLL_INTERVAL))"
  by pat_completeness auto
termination
  by (relation "measure (\<lambda>(e, seen, deadline, now). deadline - now)")
    (auto simp: READINESS_POLL_INTERVAL_def)

declare wait_for_runtime_readiness.simps [simp del]

text \<open>
  Without a runtime configuration there is nothing to probe, so the wait is one look at whether the
  core has exited; with one, it is the loop above up to the configured timeout.
\<close>

definition wait_for_readiness :: "engine \<Rightarrow> nat option \<Rightarrow> (nat \<Rightarrow> probe) \<Rightarrow> process_error + unit" where
  "wait_for_readiness e runtime seen =
     (case runtime of
        None \<Rightarrow>
          (case probe_exited (seen 0) of
             None \<Rightarrow> Inl (InspectFailed e)
           | Some True \<Rightarrow> Inl (ReadinessFailed e)
           | Some False \<Rightarrow> Inr ())
      | Some timeout \<Rightarrow> wait_for_runtime_readiness e seen timeout 0)"

section \<open>The process table\<close>

record process_env =
  spawn_fails :: bool
  old_inspect_fails :: bool
  new_inspect_fails :: bool
  dies_at_once :: bool
  runtime_timeout :: "nat option"
  readiness :: "nat \<Rightarrow> probe"
  stop_inspect_fails :: bool
  kill_fails :: bool
  core_ready :: "engine \<Rightarrow> bool"
  tun_ready :: bool
  clock :: nat

record sidecar =
  live :: "nat set"
  children :: "engine \<Rightarrow> nat option"
  started_at :: "engine \<Rightarrow> nat option"
  next_pid :: nat
  operation :: nat
  script :: "nat \<Rightarrow> process_env"

definition env_of :: "sidecar \<Rightarrow> process_env" where
  "env_of s = script s (operation s)"

definition tick :: "sidecar \<Rightarrow> sidecar" where
  "tick s = s\<lparr>operation := Suc (operation s)\<rparr>"

text \<open>\<open>TokioManagedChild::stop\<close>, and what dropping a child does (it is spawned to be killed then).\<close>

definition child_stop :: "process_env \<Rightarrow> engine \<Rightarrow> nat \<Rightarrow> sidecar \<Rightarrow> (process_error + unit) \<times> sidecar" where
  "child_stop env e pid s =
     (if stop_inspect_fails env then (Inl (InspectFailed e), s)
      else if pid \<notin> live s then (Inr (), s)
      else if kill_fails env then (Inl (StopFailedError e), s)
      else (Inr (), s\<lparr>live := live s - {pid}\<rparr>))"

definition drop_child :: "process_env \<Rightarrow> nat \<Rightarrow> sidecar \<Rightarrow> sidecar" where
  "drop_child env pid s = (if kill_fails env then s else s\<lparr>live := live s - {pid}\<rparr>)"

definition exits :: "process_error + unit \<Rightarrow> bool" where
  "exits r = (case r of Inl (ReadinessFailed _) \<Rightarrow> True | _ \<Rightarrow> False)"

definition launch_core :: "process_env \<Rightarrow> engine \<Rightarrow> sidecar \<Rightarrow> (process_error + unit) \<times> sidecar" where
  "launch_core env e s =
     (if spawn_fails env then (Inl (LaunchFailed e), s)
      else let pid = next_pid s;
               s = s\<lparr>next_pid := Suc pid, live := insert pid (live s)\<rparr>
           in if new_inspect_fails env then (Inl (InspectFailed e), drop_child env pid s)
              else if dies_at_once env then (Inl (ReadinessFailed e), s\<lparr>live := live s - {pid}\<rparr>)
              else let r = wait_for_readiness e (runtime_timeout env) (readiness env);
                       s = (if exits r then s\<lparr>live := live s - {pid}\<rparr> else s)
                   in (case r of
                         Inl err \<Rightarrow> (Inl err, drop_child env pid (snd (child_stop env e pid s)))
                       | Inr _ \<Rightarrow>
                           (Inr (), s\<lparr>children := (children s)(e := Some pid),
                                      started_at := (started_at s)(e := Some (clock env))\<rparr>)))"

definition sidecar_start :: "engine \<Rightarrow> sidecar \<Rightarrow> (process_error + unit) \<times> sidecar" where
  "sidecar_start e s =
     (let env = env_of s; s = tick s
      in case children s e of
           None \<Rightarrow> launch_core env e s
         | Some pid \<Rightarrow>
             if old_inspect_fails env then (Inl (InspectFailed e), s)
             else if pid \<in> live s then (Inr (), s)
             else launch_core env e (s\<lparr>children := (children s)(e := None)\<rparr>))"

definition sidecar_stop :: "engine \<Rightarrow> sidecar \<Rightarrow> (process_error + unit) \<times> sidecar" where
  "sidecar_stop e s =
     (let env = env_of s; s = tick s
      in case children s e of
           None \<Rightarrow> (Inr (), s)
         | Some pid \<Rightarrow>
             (case child_stop env e pid s of
                (Inl err, s) \<Rightarrow> (Inl err, s)
              | (Inr _, s) \<Rightarrow>
                  (Inr (), s\<lparr>children := (children s)(e := None),
                             started_at := (started_at s)(e := None)\<rparr>)))"

fun sidecar_cause :: "process_error \<Rightarrow> start_failure_cause" where
  "sidecar_cause (ReadinessTimedOut _) = ReadinessTimedOutCause"
| "sidecar_cause (LaunchFailed _) = CoreMissing"
| "sidecar_cause (ReadinessFailed _) = CoreExited"
| "sidecar_cause (InspectFailed _) = CoreFailed"
| "sidecar_cause (StopFailedError _) = CoreFailed"

definition sidecar_control :: "(sidecar, process_error) controller" where
  "sidecar_control =
     \<lparr>c_start = sidecar_start, c_stop = sidecar_stop, c_cause = sidecar_cause\<rparr>"

section \<open>Reports\<close>

datatype runtime_check_state = CheckStopped | CheckStarting | CheckReady | CheckFailed
  | CheckUnsupported | CheckDisabled

record process_diagnostics =
  xray_check :: runtime_check_state
  mihomo_check :: runtime_check_state
  tun_check :: runtime_check_state

definition child_running :: "sidecar \<Rightarrow> engine \<Rightarrow> bool" where
  "child_running s e =
     (case children s e of
        None \<Rightarrow> False
      | Some pid \<Rightarrow> \<not> old_inspect_fails (env_of s) \<and> pid \<in> live s)"

definition core_check :: "sidecar \<Rightarrow> engine \<Rightarrow> runtime_check_state" where
  "core_check s e =
     (if child_running s e then (if core_ready (env_of s) e then CheckReady else CheckFailed)
      else CheckStopped)"

definition sidecar_diagnostics :: "sidecar \<Rightarrow> process_diagnostics \<times> sidecar" where
  "sidecar_diagnostics s =
     (\<lparr>xray_check = core_check s XrayCore, mihomo_check = core_check s MihomoCore,
       tun_check =
         (if child_running s MihomoCore then (if tun_ready (env_of s) then CheckReady else CheckFailed)
          else CheckStopped)\<rparr>, tick s)"

record core_exit =
  exit_engine :: engine
  exit_pid :: "nat option"
  exit_uptime :: "nat option"

datatype core_liveness = NotStarted | Running | Exited core_exit

definition liveness :: "engine \<Rightarrow> sidecar \<Rightarrow> core_liveness" where
  "liveness e s =
     (case children s e of
        None \<Rightarrow> NotStarted
      | Some pid \<Rightarrow>
          if \<not> old_inspect_fails (env_of s) \<and> pid \<in> live s then Running
          else Exited \<lparr>exit_engine = e, exit_pid = Some pid,
                       exit_uptime = map_option (\<lambda>t. clock (env_of s) - t) (started_at s e)\<rparr>)"

section \<open>The wait ends in time\<close>

text \<open>What the wait sees first: the earliest look that decides it.\<close>

fun look_time :: "(nat \<Rightarrow> probe) \<Rightarrow> nat \<Rightarrow> nat" where
  "look_time seen 0 = 0"
| "look_time seen (Suc n) =
     look_time seen n + probe_took (seen (look_time seen n)) + READINESS_POLL_INTERVAL"

definition undecided :: "probe \<Rightarrow> bool" where
  "undecided p \<longleftrightarrow> probe_exited p = Some False \<and> \<not> probe_ready p"

text \<open>The outcome of the n-th look, when all looks before it were undecided and in time.\<close>

definition decides :: "engine \<Rightarrow> (nat \<Rightarrow> probe) \<Rightarrow> nat \<Rightarrow> nat \<Rightarrow> process_error + unit \<Rightarrow> bool" where
  "decides e seen deadline n r \<longleftrightarrow>
     (let p = seen (look_time seen n)
      in (probe_exited p = None \<and> r = Inl (InspectFailed e)) \<or>
         (probe_exited p = Some True \<and> r = Inl (ReadinessFailed e)) \<or>
         (probe_exited p = Some False \<and> probe_ready p \<and> r = Inr ()) \<or>
         (undecided p \<and> look_time seen n + probe_took p \<ge> deadline \<and> r = Inl (ReadinessTimedOut e)))"

definition continues :: "(nat \<Rightarrow> probe) \<Rightarrow> nat \<Rightarrow> nat \<Rightarrow> bool" where
  "continues seen deadline n \<longleftrightarrow>
     undecided (seen (look_time seen n)) \<and>
     look_time seen n + probe_took (seen (look_time seen n)) < deadline"

lemma wait_from:
  "wait_for_runtime_readiness e seen deadline (look_time seen n) = r \<Longrightarrow>
     \<exists>m\<ge>n. decides e seen deadline m r \<and> (\<forall>k. n \<le> k \<longrightarrow> k < m \<longrightarrow> continues seen deadline k)"
proof (induction "deadline - look_time seen n" arbitrary: n rule: less_induct)
  case less
  let ?t = "look_time seen n"
  show ?case
  proof (cases "continues seen deadline n")
    case False
    then have "decides e seen deadline n r"
      using less.prems
      by (auto simp: wait_for_runtime_readiness.simps [of e seen deadline ?t] decides_def continues_def
          undecided_def Let_def not_less split: option.splits bool.splits if_splits)
    then show ?thesis by (intro exI [of _ n]) auto
  next
    case True
    then have "wait_for_runtime_readiness e seen deadline (look_time seen (Suc n)) = r"
      using less.prems
      by (simp add: wait_for_runtime_readiness.simps [of e seen deadline ?t] continues_def
          undecided_def Let_def)
    moreover have "deadline - look_time seen (Suc n) < deadline - ?t"
    proof -
      have "look_time seen n + probe_took (seen (look_time seen n)) < deadline"
        using True by (simp add: continues_def)
      then show ?thesis unfolding look_time.simps READINESS_POLL_INTERVAL_def by linarith
    qed
    ultimately obtain m where m: "m \<ge> Suc n" "decides e seen deadline m r"
      "\<forall>k. Suc n \<le> k \<longrightarrow> k < m \<longrightarrow> continues seen deadline k"
      using less.hyps by blast
    have "continues seen deadline k" if "n \<le> k" "k < m" for k
      using that True m(3) by (cases "k = n") auto
    with m show ?thesis by (intro exI [of _ m]) auto
  qed
qed

lemma look_time_ge: "look_time seen n \<ge> READINESS_POLL_INTERVAL * n"
  by (induction n) simp_all

text \<open>
  C23. Waiting for a core always ends, after at most one look for every poll interval of the
  timeout and one more; the answer is that of the first look that decides: the core exited, could
  not be inspected, or is ready, and a time-out only once the deadline has passed with the core
  alive and not ready at every look.
\<close>

theorem readiness_wait_decides:
  "\<exists>n. decides e seen deadline n (wait_for_runtime_readiness e seen deadline 0)
     \<and> (\<forall>k<n. continues seen deadline k)
     \<and> READINESS_POLL_INTERVAL * n \<le> deadline + READINESS_POLL_INTERVAL"
proof -
  obtain n where n: "decides e seen deadline n (wait_for_runtime_readiness e seen deadline 0)"
    "\<forall>k<n. continues seen deadline k"
    using wait_from [of e seen deadline 0] by auto
  have "READINESS_POLL_INTERVAL * n \<le> deadline + READINESS_POLL_INTERVAL"
  proof (cases n)
    case (Suc k)
    then have "look_time seen k < deadline" using n(2) by (auto simp: continues_def)
    with look_time_ge [of k seen] Suc show ?thesis by simp
  qed simp
  with n show ?thesis by blast
qed

theorem readiness_wait_decides_witness:
  "\<exists>n. decides XrayCore (\<lambda>_. \<lparr>probe_exited = Some False, probe_ready = False, probe_took = 5\<rparr>) 100 n
     (wait_for_runtime_readiness XrayCore
        (\<lambda>_. \<lparr>probe_exited = Some False, probe_ready = False, probe_took = 5\<rparr>) 100 0) \<and>
     READINESS_POLL_INTERVAL * n \<le> 130"
  using readiness_wait_decides
    [of XrayCore "\<lambda>_. \<lparr>probe_exited = Some False, probe_ready = False, probe_took = 5\<rparr>" 100]
  by (auto simp: READINESS_POLL_INTERVAL_def)

section \<open>The controller keeps its contract\<close>

definition running :: "sidecar \<Rightarrow> engine set" where
  "running s = {e. \<exists>pid. children s e = Some pid \<and> pid \<in> live s}"

definition sidecar_inv :: "sidecar \<Rightarrow> bool" where
  "sidecar_inv s \<longleftrightarrow>
     (\<forall>pid\<in>live s. pid < next_pid s) \<and>
     (\<forall>e pid. children s e = Some pid \<longrightarrow> pid < next_pid s) \<and>
     (\<forall>e f pid. children s e = Some pid \<longrightarrow> children s f = Some pid \<longrightarrow> e = f)"

lemma running_frame [simp]:
  "running (tick s) = running s" "sidecar_inv (tick s) = sidecar_inv s"
  "children (tick s) = children s" "live (tick s) = live s" "next_pid (tick s) = next_pid s"
  by (simp_all add: running_def sidecar_inv_def tick_def)

text \<open>Forgetting a dead child, or any change of the live processes outside the table, is harmless.\<close>

definition same_cores :: "sidecar \<Rightarrow> sidecar \<Rightarrow> bool" where
  "same_cores s t \<longleftrightarrow>
     children t = children s \<and> next_pid s \<le> next_pid t \<and>
     (\<forall>pid < next_pid s. pid \<in> live t \<longleftrightarrow> pid \<in> live s) \<and> (\<forall>pid\<in>live t. pid < next_pid t)"

lemma same_cores_running:
  assumes "sidecar_inv s" "same_cores s t"
  shows "running t = running s" "sidecar_inv t"
proof -
  have "(children s e = Some pid \<and> pid \<in> live t) = (children s e = Some pid \<and> pid \<in> live s)" for e pid
    using assms by (auto simp: sidecar_inv_def same_cores_def)
  then show "running t = running s" using assms(2) by (simp add: running_def same_cores_def)
  have "\<forall>e pid. children s e = Some pid \<longrightarrow> pid < next_pid t"
    using assms order_less_le_trans unfolding sidecar_inv_def same_cores_def by blast
  then show "sidecar_inv t"
    using assms by (simp add: sidecar_inv_def same_cores_def)
qed

lemma launch_failed_same:
  assumes "sidecar_inv s" "launch_core env e s = (Inl x, s')"
  shows "same_cores s s'"
proof -
  have below: "\<And>pid. pid \<in> live s \<Longrightarrow> pid < next_pid s" using assms(1) by (auto simp: sidecar_inv_def)
  then have fresh: "next_pid s \<notin> live s" by blast
  show ?thesis
  proof (cases "spawn_fails env")
    case True
    with assms(2) below show ?thesis by (auto simp: launch_core_def same_cores_def)
  next
    case False
    with assms(2) fresh show ?thesis
    by (auto simp: launch_core_def Let_def same_cores_def drop_child_def child_stop_def less_Suc_eq
        split: if_splits sum.splits dest: below)
  qed
qed

lemma launch_ok:
  assumes "sidecar_inv s" "children s e = None" "launch_core env e s = (Inr u, s')"
  shows "running s' = insert e (running s)" "sidecar_inv s'"
proof -
  have s': "children s' = (children s)(e := Some (next_pid s))" "live s' = insert (next_pid s) (live s)"
    "next_pid s' = Suc (next_pid s)"
    using assms(3)
    by (auto simp: launch_core_def Let_def exits_def split: if_splits sum.splits)
  have fresh: "next_pid s \<notin> live s" "\<And>f. children s f \<noteq> Some (next_pid s)"
    using assms(1) by (auto simp: sidecar_inv_def)
  show "running s' = insert e (running s)"
    using s' fresh assms(2) by (auto simp: running_def)
  show "sidecar_inv s'"
    using assms(1) s' fresh by (auto simp: sidecar_inv_def less_Suc_eq)
qed

lemma forget_dead:
  assumes "sidecar_inv s" "children s e = Some pid" "pid \<notin> live s"
  shows "running (s\<lparr>children := (children s)(e := None)\<rparr>) = running s"
    "sidecar_inv (s\<lparr>children := (children s)(e := None)\<rparr>)"
  using assms by (auto simp: running_def sidecar_inv_def)

lemma sidecar_start_cases:
  assumes "sidecar_inv s" "sidecar_start e s = (r, s')"
  shows "sidecar_inv s' \<and> (r = Inr () \<longrightarrow> running s' = insert e (running s)) \<and>
    (r \<noteq> Inr () \<longrightarrow> running s' = running s)"
proof -
  have launched: "sidecar_inv s' \<and> (r = Inr () \<longrightarrow> running s' = insert e (running t)) \<and>
      (r \<noteq> Inr () \<longrightarrow> running s' = running t)"
    if t: "sidecar_inv t" "children t e = None" "launch_core env e t = (r, s')" for t env
  proof (cases r)
    case (Inl x)
    with launch_failed_same [OF t(1)] t same_cores_running [OF t(1)] show ?thesis by auto
  next
    case (Inr u)
    with launch_ok [OF t(1,2)] t show ?thesis by auto
  qed
  show ?thesis
  proof (cases "children s e")
    case None
    then have "launch_core (env_of s) e (tick s) = (r, s')" using assms(2) by (simp add: sidecar_start_def Let_def)
    from launched [OF _ _ this] None assms(1) show ?thesis by simp
  next
    case (Some pid)
    show ?thesis
    proof (cases "old_inspect_fails (env_of s) \<or> pid \<in> live s")
      case True
      moreover from this have "s' = tick s" using assms(2) Some by (auto simp: sidecar_start_def Let_def split: if_splits)
      moreover have "e \<in> running s" if "pid \<in> live s" using that Some by (auto simp: running_def)
      ultimately show ?thesis using assms Some by (auto simp: sidecar_start_def Let_def split: if_splits)
    next
      case False
      let ?t = "(tick s)\<lparr>children := (children s)(e := None)\<rparr>"
      have "launch_core (env_of s) e ?t = (r, s')"
        using assms(2) Some False by (simp add: sidecar_start_def Let_def)
      moreover have "sidecar_inv ?t" "running ?t = running s"
        using forget_dead [of "tick s" e pid] assms(1) Some False by simp_all
      ultimately show ?thesis using launched [of ?t "env_of s"] by (simp del: running_frame)
    qed
  qed
qed

lemma sidecar_stop_cases:
  assumes "sidecar_inv s" "sidecar_stop e s = (r, s')"
  shows "sidecar_inv s' \<and> (r = Inr () \<longrightarrow> running s' = running s - {e}) \<and>
    (r \<noteq> Inr () \<longrightarrow> running s' = running s)"
proof (cases "children s e")
  case None
  then show ?thesis using assms by (auto simp: sidecar_stop_def Let_def running_def)
next
  case (Some pid)
  have other: "children s f \<noteq> Some pid" if "f \<noteq> e" for f
    using that assms(1) Some by (auto simp: sidecar_inv_def)
  let ?env = "env_of s"
  show ?thesis
  proof (cases "stop_inspect_fails ?env \<or> pid \<in> live s \<and> kill_fails ?env")
    case True
    then have "r \<noteq> Inr () \<and> s' = tick s"
      using assms(2) Some by (auto simp: sidecar_stop_def Let_def child_stop_def split: if_splits)
    with assms(1) show ?thesis by auto
  next
    case False
    then have "r = Inr ()" "children s' = (children s)(e := None)" "live s' = live s - {pid}"
      "next_pid s' = next_pid s"
      using assms(2) Some by (auto simp: sidecar_stop_def Let_def child_stop_def split: if_splits)
    moreover from this have "running s' = running s - {e}"
      using other by (auto simp: running_def)
    moreover have "sidecar_inv s'" using calculation(2-4) assms(1) by (auto simp: sidecar_inv_def)
    ultimately show ?thesis by simp
  qed
qed

interpretation sidecar: process_controller sidecar_start sidecar_stop running sidecar_inv
proof
  fix s s' e u x
  show "sidecar_inv s \<Longrightarrow> sidecar_start e s = (Inr u, s') \<Longrightarrow> running s' = insert e (running s)"
    "sidecar_inv s \<Longrightarrow> sidecar_start e s = (Inl x, s') \<Longrightarrow> running s' \<subseteq> running s"
    using sidecar_start_cases by fastforce+
  show "sidecar_inv s \<Longrightarrow> sidecar_stop e s = (Inr u, s') \<Longrightarrow> running s' = running s - {e}"
    "sidecar_inv s \<Longrightarrow> sidecar_stop e s = (Inl x, s') \<Longrightarrow>
       running s' \<subseteq> running s \<and> running s - {e} \<subseteq> running s'"
    using sidecar_stop_cases by fastforce+
  show "sidecar_inv s \<Longrightarrow> sidecar_inv (snd (sidecar_start e s))"
    using sidecar_start_cases [of s e] by (cases "sidecar_start e s") simp
  show "sidecar_inv s \<Longrightarrow> sidecar_inv (snd (sidecar_stop e s))"
    using sidecar_stop_cases [of s e] by (cases "sidecar_stop e s") simp
qed

end
