(* ===== verification/System_Proxy.thy ===== *)
theory System_Proxy
  imports Rust_Str
begin

text \<open>
  \<open>system_proxy.rs\<close>: the user's Windows proxy settings while a proxy-mode connection is up. The
  previous values are saved in a marker file before anything changes, and come back on disconnect,
  after a failed connect and at the next start of the daemon. The registry is a record of the four
  values; JSON of the marker is a parameter; which system calls fail is an argument.
\<close>

section \<open>Settings and marker\<close>

definition PROXY_OVERRIDE :: string where
  "PROXY_OVERRIDE = ''<local>;localhost;127.*;10.*;172.16.*;192.168.*''"

record proxy_settings =
  proxy_enable :: "u32 option"
  proxy_server :: "string option"
  proxy_override :: "string option"
  auto_config_url :: "string option"

definition applied_server :: "u16 \<Rightarrow> string" where
  "applied_server port = ''127.0.0.1:'' @ show_nat (unat port)"

definition applied_settings :: "u16 \<Rightarrow> proxy_settings" where
  "applied_settings port =
     \<lparr>proxy_enable = Some 1, proxy_server = Some (applied_server port),
      proxy_override = Some PROXY_OVERRIDE, auto_config_url = None\<rparr>"

record proxy_marker =
  previous :: proxy_settings
  marker_server :: string

definition restore_plan :: "proxy_settings \<Rightarrow> proxy_marker \<Rightarrow> proxy_settings option" where
  "restore_plan current marker =
     (if proxy_enable current = Some 1 \<and> proxy_server current = Some (marker_server marker)
      then Some (previous marker) else None)"

section \<open>The world\<close>

text \<open>
  The registry values, the marker file's bytes, how often running programs were told of a change,
  and the port the daemon's own downloads go through.
\<close>

record proxy_world =
  settings :: proxy_settings
  marker_file :: "string option"
  notified :: nat
  tunnel :: "u16 option"

text \<open>
  What the system refuses during an operation. A registry write sets the four values one after the
  other and may stop after some of them: \<open>apply_stops_at\<close> and \<open>restore_stops_at\<close> say after how many
  the write of the applied settings and that of the saved ones stop.
\<close>

record proxy_env =
  settings_read_fails :: bool
  apply_stops_at :: "nat option"
  restore_stops_at :: "nat option"
  marker_read_fails :: bool
  marker_write_fails :: bool
  marker_remove_fails :: bool

record marker_json =
  marker_to :: "proxy_marker \<Rightarrow> string option"
  marker_from :: "string \<Rightarrow> proxy_marker option"

datatype proxy_error = ProxyIo

text \<open>\<open>WinInetSettings::write\<close>: enable, server, override, configuration address, in that order.\<close>

definition write_values :: "nat \<Rightarrow> proxy_settings \<Rightarrow> proxy_settings \<Rightarrow> proxy_settings" where
  "write_values n new old =
     \<lparr>proxy_enable = (if n > 0 then proxy_enable new else proxy_enable old),
      proxy_server = (if n > 1 then proxy_server new else proxy_server old),
      proxy_override = (if n > 2 then proxy_override new else proxy_override old),
      auto_config_url = (if n > 3 then auto_config_url new else auto_config_url old)\<rparr>"

definition settings_write ::
    "nat option \<Rightarrow> proxy_settings \<Rightarrow> proxy_world \<Rightarrow> (proxy_error + unit) \<times> proxy_world" where
  "settings_write stops_at new w =
     (case stops_at of
        None \<Rightarrow> (Inr (), w\<lparr>settings := write_values 4 new (settings w)\<rparr>)
      | Some n \<Rightarrow> (Inl ProxyIo, w\<lparr>settings := write_values n new (settings w)\<rparr>))"

definition notify_changed :: "proxy_world \<Rightarrow> proxy_world" where
  "notify_changed w = w\<lparr>notified := Suc (notified w)\<rparr>"

definition remove_marker :: "proxy_env \<Rightarrow> proxy_world \<Rightarrow> (proxy_error + unit) \<times> proxy_world" where
  "remove_marker env w =
     (if marker_file w = None then (Inr (), w)
      else if marker_remove_fails env then (Inl ProxyIo, w)
      else (Inr (), w\<lparr>marker_file := None\<rparr>))"

definition recover ::
    "marker_json \<Rightarrow> proxy_env \<Rightarrow> proxy_world \<Rightarrow> (proxy_error + unit) \<times> proxy_world" where
  "recover js env w =
     (case marker_file w of
        None \<Rightarrow> (Inr (), w)
      | Some bytes \<Rightarrow>
          if marker_read_fails env then (Inl ProxyIo, w)
          else (case marker_from js bytes of
             None \<Rightarrow> remove_marker env w
           | Some marker \<Rightarrow>
               if settings_read_fails env then (Inl ProxyIo, w)
               else (case restore_plan (settings w) marker of
                  None \<Rightarrow> remove_marker env w
                | Some prev \<Rightarrow>
                    (case settings_write (restore_stops_at env) prev w of
                       (Inl e, w) \<Rightarrow> (Inl e, w)
                     | (Inr _, w) \<Rightarrow> remove_marker env (notify_changed w)))))"

definition write_marker ::
    "marker_json \<Rightarrow> proxy_env \<Rightarrow> proxy_marker \<Rightarrow> proxy_world \<Rightarrow> (proxy_error + unit) \<times> proxy_world" where
  "write_marker js env marker w =
     (if marker_write_fails env then (Inl ProxyIo, w)
      else case marker_to js marker of
             None \<Rightarrow> (Inl ProxyIo, w)
           | Some bytes \<Rightarrow> (Inr (), w\<lparr>marker_file := Some bytes\<rparr>))"

definition publish :: "u16 \<Rightarrow> bool \<Rightarrow> proxy_world \<Rightarrow> proxy_world" where
  "publish port applied w = w\<lparr>tunnel := (if applied then Some port else None)\<rparr>"

definition proxy_apply ::
    "marker_json \<Rightarrow> proxy_env \<Rightarrow> u16 \<Rightarrow> proxy_world \<Rightarrow> (proxy_error + unit) \<times> proxy_world" where
  "proxy_apply js env port w =
     (case recover js env w of
        (Inl e, w) \<Rightarrow> (Inl e, w)
      | (Inr _, w) \<Rightarrow>
          if settings_read_fails env then (Inl ProxyIo, w)
          else (case write_marker js env
                       \<lparr>previous = settings w, marker_server = applied_server port\<rparr> w of
             (Inl e, w) \<Rightarrow> (Inl e, w)
           | (Inr _, w) \<Rightarrow>
               (case settings_write (apply_stops_at env) (applied_settings port) w of
                  (Inl e, w) \<Rightarrow> (Inl e, snd (recover js env w))
                | (Inr _, w) \<Rightarrow> (Inr (), publish port True (notify_changed w)))))"

definition proxy_restore ::
    "marker_json \<Rightarrow> proxy_env \<Rightarrow> u16 \<Rightarrow> proxy_world \<Rightarrow> (proxy_error + unit) \<times> proxy_world" where
  "proxy_restore js env port w = recover js env (publish port False w)"

section \<open>The settings the user owns\<close>

text \<open>
  What the user gets back: the saved values while the settings still are what was applied,
  otherwise the settings as they are.
\<close>

definition owned_from :: "proxy_marker option \<Rightarrow> proxy_settings \<Rightarrow> proxy_settings" where
  "owned_from m current =
     (case m of
        None \<Rightarrow> current
      | Some marker \<Rightarrow> (case restore_plan current marker of None \<Rightarrow> current | Some prev \<Rightarrow> prev))"

definition owned_settings :: "marker_json \<Rightarrow> proxy_world \<Rightarrow> proxy_settings" where
  "owned_settings js w = owned_from (Option.bind (marker_file w) (marker_from js)) (settings w)"

definition marker_codec :: "marker_json \<Rightarrow> bool" where
  "marker_codec js \<longleftrightarrow> (\<forall>m bytes. marker_to js m = Some bytes \<longrightarrow> marker_from js bytes = Some m)"

text \<open>
  The interrupted writes that lose nothing: the applied settings may stop anywhere but after exactly
  their first value, the saved ones before their first value or after their last.
\<close>

definition lossless_writes :: "proxy_env \<Rightarrow> bool" where
  "lossless_writes env \<longleftrightarrow>
     apply_stops_at env \<noteq> Some 1 \<and> restore_stops_at env \<notin> {Some 1, Some 2, Some 3}"

lemma write_values_ends [simp]: "write_values 0 new old = old" "n \<ge> 4 \<Longrightarrow> write_values n new old = new"
  by (simp_all add: write_values_def)

text \<open>A lossless write of the saved settings happens as a whole or not at all.\<close>

lemma restore_write:
  assumes "lossless_writes env" "settings_write (restore_stops_at env) new w = (r, w')"
  shows "w' = w\<lparr>settings := new\<rparr> \<or> w' = w \<and> r \<noteq> Inr ()"
proof (cases "restore_stops_at env")
  case (Some n)
  with assms(1) have "n = 0 \<or> n \<ge> 4" by (auto simp: lossless_writes_def)
  moreover have "w\<lparr>settings := settings w\<rparr> = w" by simp
  ultimately show ?thesis using assms(2) Some by (auto simp: settings_write_def)
qed (use assms(2) in \<open>auto simp: settings_write_def\<close>)

lemma owned_notify [simp]: "owned_settings js (notify_changed w) = owned_settings js w"
  by (simp add: owned_settings_def notify_changed_def)

lemma owned_publish [simp]: "owned_settings js (publish p b w) = owned_settings js w"
  by (simp add: owned_settings_def publish_def)

lemma owned_tidy: "marker_file w = None \<Longrightarrow> owned_settings js w = settings w"
  by (simp add: owned_settings_def owned_from_def)

lemma remove_marker_owned:
  assumes "settings w = owned_settings js w" and "remove_marker env w = (r, w')"
  shows "settings w' = settings w \<and> owned_settings js w' = owned_settings js w \<and>
    tunnel w' = tunnel w \<and> (r = Inr () \<longrightarrow> marker_file w' = None)"
  using assms by (auto simp: remove_marker_def owned_tidy split: if_splits)

lemma restore_plan_idem:
  "restore_plan (settings w) m = Some p \<Longrightarrow> owned_from (Some m) p = p"
  by (auto simp: owned_from_def restore_plan_def split: if_splits)

lemma owned_with: "Option.bind (marker_file w) (marker_from js) = Some m \<Longrightarrow>
    owned_settings js w = owned_from (Some m) (settings w)"
  by (simp add: owned_settings_def)

lemma recover_owned:
  assumes lossless: "lossless_writes env" and rec: "recover js env w = (r, w')"
  shows "owned_settings js w' = owned_settings js w \<and> tunnel w' = tunnel w \<and>
    (r = Inr () \<longrightarrow> marker_file w' = None \<and> settings w' = owned_settings js w)"
proof (cases "marker_file w")
  case None
  with rec show ?thesis by (simp add: recover_def owned_tidy)
next
  case (Some bytes)
  show ?thesis
  proof (cases "marker_read_fails env \<or> settings_read_fails env \<and> marker_from js bytes \<noteq> None")
    case True
    with rec Some show ?thesis by (auto simp: recover_def split: if_splits option.splits)
  next
    case ok: False
    show ?thesis
    proof (cases "Option.bind (marker_from js bytes) (restore_plan (settings w))")
      case None
      then have own: "settings w = owned_settings js w"
        using Some by (auto simp: owned_settings_def owned_from_def bind_eq_None_conv split: option.splits)
      have "remove_marker env w = (r, w')"
        using rec Some ok None by (auto simp: recover_def bind_eq_None_conv split: option.splits if_splits)
      from remove_marker_owned [OF own this] own show ?thesis by simp
    next
      case plan: (Some prev)
      then obtain m where m: "marker_from js bytes = Some m" "restore_plan (settings w) m = Some prev"
        by (auto simp: bind_eq_Some_conv)
      have own: "owned_settings js w = prev" using Some m by (simp add: owned_settings_def owned_from_def)
      let ?w = "w\<lparr>settings := prev\<rparr>"
      have own': "owned_settings js ?w = prev"
        using Some m restore_plan_idem [OF m(2)] by (simp add: owned_settings_def)
      obtain q v where written: "settings_write (restore_stops_at env) prev w = (q, v)" by fastforce
      have run: "(case q of Inl e \<Rightarrow> (Inl e, v) | Inr _ \<Rightarrow> remove_marker env (notify_changed v)) = (r, w')"
        using rec Some ok m written by (simp add: recover_def)
      show ?thesis
      proof (cases q)
        case (Inl e)
        with run restore_write [OF lossless written] own own' show ?thesis by auto
      next
        case (Inr u)
        with run restore_write [OF lossless written] have "remove_marker env (notify_changed ?w) = (r, w')" by simp
        moreover have "settings (notify_changed ?w) = owned_settings js (notify_changed ?w)"
          by (simp add: own') (simp add: notify_changed_def)
        ultimately have "settings w' = settings (notify_changed ?w) \<and> owned_settings js w' = prev \<and>
            tunnel w' = tunnel (notify_changed ?w) \<and> (r = Inr () \<longrightarrow> marker_file w' = None)"
          using remove_marker_owned [of "notify_changed ?w" js env r w'] own' by simp
        then show ?thesis by (auto simp: own notify_changed_def)
      qed
    qed
  qed
qed

lemma apply_marked:
  assumes "marker_codec js"
    and "write_marker js env \<lparr>previous = settings w, marker_server = applied_server port\<rparr> w = (Inr u, w')"
  shows "settings w' = settings w" "tunnel w' = tunnel w"
    "n \<noteq> 1 \<Longrightarrow> owned_settings js (w'\<lparr>settings := write_values n (applied_settings port) (settings w)\<rparr>)
       = settings w"
proof -
  let ?m = "\<lparr>previous = settings w, marker_server = applied_server port\<rparr>"
  obtain bytes where bytes: "marker_to js ?m = Some bytes" "w' = w\<lparr>marker_file := Some bytes\<rparr>"
    using assms(2) by (auto simp: write_marker_def split: if_splits option.splits)
  with assms(1) have m: "marker_from js bytes = Some ?m" by (simp add: marker_codec_def)
  show "settings w' = settings w" "tunnel w' = tunnel w" by (simp_all add: bytes(2))
  assume "n \<noteq> 1"
  then consider "n = 0" | "n > 1" by linarith
  then show "owned_settings js (w'\<lparr>settings := write_values n (applied_settings port) (settings w)\<rparr>)
       = settings w"
    by cases (simp_all add: bytes(2) m owned_settings_def owned_from_def restore_plan_def
      applied_settings_def write_values_def)
qed

text \<open>Whatever fails, a successful connect points the system at the port.\<close>

lemma proxy_apply_points:
  "proxy_apply js env port w = (Inr u, w') \<Longrightarrow>
     settings w' = applied_settings port \<and> tunnel w' = Some port"
  by (auto simp: proxy_apply_def settings_write_def publish_def notify_changed_def
      split: prod.splits sum.splits if_splits option.splits)

lemma proxy_apply_owned:
  assumes codec: "marker_codec js" and lossless: "lossless_writes env"
    and run: "proxy_apply js env port w = (r, w')"
  shows "owned_settings js w' = owned_settings js w \<and> (r \<noteq> Inr () \<longrightarrow> tunnel w' = tunnel w)"
proof -
  obtain r1 w1 where r1: "recover js env w = (r1, w1)" by fastforce
  note own1 = recover_owned [OF lossless r1]
  show ?thesis
  proof (cases "r1 = Inr () \<and> \<not> settings_read_fails env")
    case False
    with run r1 own1 show ?thesis by (cases r1) (auto simp: proxy_apply_def)
  next
    case True
    let ?m = "\<lparr>previous = settings w1, marker_server = applied_server port\<rparr>"
    have own: "settings w1 = owned_settings js w" "owned_settings js w1 = owned_settings js w"
      using own1 True by auto
    obtain r2 w2 where r2: "write_marker js env ?m w1 = (r2, w2)" by fastforce
    show ?thesis
    proof (cases r2)
      case (Inl e)
      then have "w2 = w1" using r2 by (auto simp: write_marker_def split: if_splits option.splits)
      with run r1 True r2 Inl have "r = Inl e" "w' = w1" by (simp_all add: proxy_apply_def)
      with own own1 show ?thesis by simp
    next
      case (Inr u)
      note marked = apply_marked [OF codec r2 [unfolded Inr]]
      let ?written = "\<lambda>n. w2\<lparr>settings := write_values n (applied_settings port) (settings w2)\<rparr>"
      have kept: "owned_settings js (?written n) = owned_settings js w" if "n \<noteq> 1" for n
        using marked(3) [OF that] by (simp add: marked(1) own(1))
      show ?thesis
      proof (cases "apply_stops_at env")
        case None
        then have "r = Inr ()" "w' = publish port True (notify_changed (?written 4))"
          using run r1 True r2 Inr by (simp_all add: proxy_apply_def settings_write_def)
        with kept [of 4] show ?thesis by simp
      next
        case (Some n)
        obtain r3 w3 where r3: "recover js env (?written n) = (r3, w3)" by fastforce
        have "r = Inl ProxyIo" "w' = w3"
          using run r1 True r2 Inr Some r3 by (simp_all add: proxy_apply_def settings_write_def)
        moreover have "n \<noteq> 1" using lossless Some by (auto simp: lossless_writes_def)
        ultimately show ?thesis
          using recover_owned [OF lossless r3] kept [of n] marked own1 by simp
      qed
    qed
  qed
qed

section \<open>Runs\<close>

datatype proxy_op = OpApply u16 | OpRestore u16 | OpRecover

definition proxy_step :: "marker_json \<Rightarrow> proxy_env \<times> proxy_op \<Rightarrow> proxy_world \<Rightarrow> proxy_world" where
  "proxy_step js e w =
     (case e of
        (env, OpApply port) \<Rightarrow> snd (proxy_apply js env port w)
      | (env, OpRestore port) \<Rightarrow> snd (proxy_restore js env port w)
      | (env, OpRecover) \<Rightarrow> snd (recover js env w))"

lemma proxy_step_owned:
  assumes "marker_codec js" "lossless_writes (fst e)"
  shows "owned_settings js (proxy_step js e w) = owned_settings js w"
proof -
  obtain env op where e: "e = (env, op)" by fastforce
  show ?thesis
  proof (cases op)
    case (OpApply port)
    then show ?thesis
      using assms proxy_apply_owned [OF assms(1), of env port w] by (simp add: e proxy_step_def prod_eq_iff)
  next
    case (OpRestore port)
    then show ?thesis
      using assms recover_owned [of env js "publish port False w"]
      by (simp add: e proxy_step_def proxy_restore_def prod_eq_iff)
  next
    case OpRecover
    then show ?thesis
      using assms recover_owned [of env js w] by (simp add: e proxy_step_def prod_eq_iff)
  qed
qed

lemma proxy_run_owned:
  "marker_codec js \<Longrightarrow> (\<forall>e\<in>set es. lossless_writes (fst e)) \<Longrightarrow>
     owned_settings js (fold (proxy_step js) es w) = owned_settings js w"
  by (induction es arbitrary: w) (simp_all add: proxy_step_owned)

text \<open>
  C22. Through any sequence of connects, disconnects and restarts, on any ports and with any step
  refused by the system, the proxy settings the user owns are never lost, unless the write of the
  applied settings stops after exactly its first value or a restoring write stops between its first
  and its last: they stay what they were, and a disconnect or a start of the daemon that reports
  success has put them back and left no marker. A successful connect points the system at the port,
  whatever was refused before.
\<close>

theorem user_proxy_never_lost:
  assumes "marker_codec js" and "\<forall>e\<in>set es. lossless_writes (fst e)" and "lossless_writes env"
  shows "owned_settings js (fold (proxy_step js) es w) = owned_settings js w
    \<and> (fst (proxy_restore js env port (fold (proxy_step js) es w)) = Inr () \<longrightarrow>
         settings (snd (proxy_restore js env port (fold (proxy_step js) es w))) = owned_settings js w \<and>
         marker_file (snd (proxy_restore js env port (fold (proxy_step js) es w))) = None)
    \<and> (fst (recover js env (fold (proxy_step js) es w)) = Inr () \<longrightarrow>
         settings (snd (recover js env (fold (proxy_step js) es w))) = owned_settings js w \<and>
         marker_file (snd (recover js env (fold (proxy_step js) es w))) = None)
    \<and> (fst (proxy_apply js any_env port (fold (proxy_step js) es w)) = Inr () \<longrightarrow>
         settings (snd (proxy_apply js any_env port (fold (proxy_step js) es w))) = applied_settings port)"
proof -
  let ?w = "fold (proxy_step js) es w"
  have own: "owned_settings js ?w = owned_settings js w" using assms(1,2) by (rule proxy_run_owned)
  obtain r w' where restore: "recover js env (publish port False ?w) = (r, w')" by fastforce
  obtain p u where recover: "recover js env ?w = (p, u)" by fastforce
  obtain q v where "apply": "proxy_apply js any_env port ?w = (q, v)" by fastforce
  from recover_owned [OF assms(3) restore] recover_owned [OF assms(3) recover]
    proxy_apply_points [of js any_env port ?w "()" v] "apply" own
  show ?thesis by (simp add: proxy_restore_def restore recover "apply")
qed

definition no_faults :: proxy_env where
  "no_faults = \<lparr>settings_read_fails = False, apply_stops_at = None, restore_stops_at = None,
     marker_read_fails = False, marker_write_fails = False, marker_remove_fails = False\<rparr>"

definition corporate :: proxy_settings where
  "corporate = \<lparr>proxy_enable = Some 0, proxy_server = Some ''corp:3128'', proxy_override = None,
     auto_config_url = Some ''http://wpad/proxy.pac''\<rparr>"

text \<open>A codec of the one marker the examples write.\<close>

definition corporate_marker :: proxy_marker where
  "corporate_marker = \<lparr>previous = corporate, marker_server = applied_server 28765\<rparr>"

definition corporate_json :: marker_json where
  "corporate_json =
     \<lparr>marker_to = (\<lambda>m. if m = corporate_marker then Some ''m'' else None),
      marker_from = (\<lambda>s. if s = ''m'' then Some corporate_marker else None)\<rparr>"

definition corporate_world :: proxy_world where
  "corporate_world = \<lparr>settings = corporate, marker_file = None, notified = 0, tunnel = None\<rparr>"

lemmas corporate_defs = corporate_world_def corporate_json_def corporate_marker_def corporate_def

theorem user_proxy_never_lost_witness:
  "settings (snd (proxy_restore corporate_json no_faults 28765
     (snd (proxy_apply corporate_json no_faults 28765 corporate_world)))) = corporate"
proof -
  let ?es = "[(no_faults, OpApply 28765)]"
  have codec: "marker_codec corporate_json"
    by (simp add: marker_codec_def corporate_json_def)
  have lossless: "lossless_writes no_faults" by (simp add: lossless_writes_def no_faults_def)
  then have all: "\<forall>e\<in>set ?es. lossless_writes (fst e)" by simp
  have "fst (proxy_restore corporate_json no_faults 28765
      (fold (proxy_step corporate_json) ?es corporate_world)) = Inr ()"
    by (simp add: proxy_step_def proxy_restore_def proxy_apply_def recover_def corporate_defs
        no_faults_def write_marker_def settings_write_def remove_marker_def restore_plan_def
        applied_settings_def notify_changed_def publish_def)
  then show ?thesis
    using user_proxy_never_lost [OF codec all lossless, of corporate_world 28765]
    by (simp add: proxy_step_def owned_settings_def owned_from_def corporate_world_def)
qed

section \<open>A write that stops half way\<close>

text \<open>
  C24. Take any system without a marker whose own proxy server is not the applied one. A connect
  whose settings write stops after its first value fails, and the rollback does not put that value
  back: the marker is dropped because the server is not the applied one yet, and the user's proxy
  stays switched on. The saved settings are gone: whatever runs later, losing nothing itself, and
  then restores with success, gives back the settings with that proxy switched on.
\<close>

theorem torn_apply_enables_proxy:
  assumes "marker_codec js" and "marker_file w = None"
    and "proxy_server (settings w) \<noteq> Some (applied_server port)"
    and "marker_to js \<lparr>previous = settings w, marker_server = applied_server port\<rparr> = Some bytes"
    and "\<not> settings_read_fails env" "\<not> marker_write_fails env" "\<not> marker_read_fails env"
    and "\<not> marker_remove_fails env" "apply_stops_at env = Some 1"
    and "proxy_apply js env port w = (result, w')"
    and "\<forall>e\<in>set es. lossless_writes (fst e)" and "lossless_writes env'"
  shows "result = Inl ProxyIo \<and> marker_file w' = None
    \<and> settings w' = (settings w)\<lparr>proxy_enable := Some 1\<rparr>
    \<and> (fst (proxy_restore js env' port' (fold (proxy_step js) es w')) = Inr () \<longrightarrow>
         settings (snd (proxy_restore js env' port' (fold (proxy_step js) es w')))
           = (settings w)\<lparr>proxy_enable := Some 1\<rparr>)"
proof -
  let ?m = "\<lparr>previous = settings w, marker_server = applied_server port\<rparr>"
  let ?torn = "(settings w)\<lparr>proxy_enable := Some 1\<rparr>"
  have from_bytes: "marker_from js bytes = Some ?m" using assms(1,4) by (simp add: marker_codec_def)
  have torn: "write_values 1 (applied_settings port) (settings w) = ?torn"
    by (simp add: write_values_def applied_settings_def)
  have "restore_plan ?torn ?m = None" using assms(3) by (simp add: restore_plan_def)
  then have "proxy_apply js env port w = (Inl ProxyIo, w\<lparr>settings := ?torn\<rparr>)"
    using assms(2,4-9) from_bytes torn
    by (simp add: proxy_apply_def recover_def write_marker_def settings_write_def remove_marker_def)
  then have w': "result = Inl ProxyIo" "w' = w\<lparr>settings := ?torn\<rparr>" using assms(10) by simp_all
  then have "owned_settings js w' = ?torn" using assms(2) by (simp add: owned_tidy)
  then have own: "owned_settings js (fold (proxy_step js) es w') = ?torn"
    using proxy_run_owned [OF assms(1,11)] by simp
  obtain r v where restore: "recover js env' (publish port' False (fold (proxy_step js) es w')) = (r, v)"
    by fastforce
  with recover_owned [OF assms(12) restore] own
  have "fst (proxy_restore js env' port' (fold (proxy_step js) es w')) = Inr () \<longrightarrow>
      settings (snd (proxy_restore js env' port' (fold (proxy_step js) es w'))) = ?torn"
    by (simp add: proxy_restore_def)
  with w' assms(2) show ?thesis by simp
qed

definition torn_faults :: proxy_env where
  "torn_faults = no_faults\<lparr>apply_stops_at := Some 1\<rparr>"

theorem torn_apply_enables_proxy_witness:
  "settings (snd (proxy_apply corporate_json torn_faults 28765 corporate_world))
     = corporate\<lparr>proxy_enable := Some 1\<rparr> \<and> proxy_enable corporate = Some 0"
proof -
  have codec: "marker_codec corporate_json" by (simp add: marker_codec_def corporate_json_def)
  have lossless: "lossless_writes no_faults" by (simp add: lossless_writes_def no_faults_def)
  obtain r w' where run: "proxy_apply corporate_json torn_faults 28765 corporate_world = (r, w')" by fastforce
  have "settings w' = (settings corporate_world)\<lparr>proxy_enable := Some 1\<rparr>"
    using torn_apply_enables_proxy [OF codec _ _ _ _ _ _ _ _ run, of "''m''" "[]" no_faults] lossless
    by (simp add: torn_faults_def no_faults_def corporate_defs applied_server_def)
  with run show ?thesis by (simp add: corporate_world_def corporate_def)
qed

text \<open>
  A restoring write that stops after its first value loses the settings just as well: the proxy is
  off, so the next restore takes the rest for the user's own change and drops the marker, and the
  server stays the applied one.
\<close>

theorem torn_restore_keeps_server:
  assumes "marker_file w = Some bytes" "marker_from js bytes = Some m"
    and "restore_plan (settings w) m = Some saved" "proxy_enable saved \<noteq> Some 1"
    and "\<not> settings_read_fails env" "\<not> marker_read_fails env" "restore_stops_at env = Some 1"
  shows "\<exists>w'. proxy_restore js env port w = (Inl ProxyIo, w')
    \<and> proxy_server (settings (snd (proxy_restore js no_faults port w'))) = Some (marker_server m)
    \<and> marker_file (snd (proxy_restore js no_faults port w')) = None"
proof -
  let ?torn = "write_values 1 saved (settings w)"
  have server: "proxy_server (settings w) = Some (marker_server m)"
    using assms(3) by (auto simp: restore_plan_def split: if_splits)
  have "proxy_restore js env port w = (Inl ProxyIo, (publish port False w)\<lparr>settings := ?torn\<rparr>)"
    using assms by (simp add: proxy_restore_def recover_def publish_def settings_write_def)
  moreover have "restore_plan ?torn m = None"
    using assms(4) by (simp add: restore_plan_def write_values_def)
  ultimately show ?thesis
    using assms(1,2) server
    by (simp add: proxy_restore_def recover_def publish_def no_faults_def remove_marker_def write_values_def)
qed

end
