(* ===== verification/Connection_Properties.thy ===== *)
theory Connection_Properties
  imports Sidecar_Control System_Proxy
begin

text \<open>
  The connection as the daemon composes it: the supervisor over a controller of a mode, over the
  sidecar processes, with the system proxy following Mihomo. Every controller of the program meets
  the contract the supervisor was proved against; the one with the system proxy does as long as a
  core can be stopped, and does not otherwise. Which condition each guarantee needs is written out.
\<close>

section \<open>Errors mapped, contract kept\<close>

lemma map_error_Inr: "map_error f r = (Inr u, s) \<longleftrightarrow> r = (Inr u, s)"
  by (cases r; cases "fst r") auto

lemma map_error_Inl: "map_error f r = (Inl y, s) \<longleftrightarrow> (\<exists>x. r = (Inl x, s) \<and> y = f x)"
  by (cases r; cases "fst r") auto

lemma snd_map_error [simp]: "snd (map_error f r) = snd r"
  by (cases r; cases "fst r") auto

context process_controller
begin

lemma mapped: "process_controller (\<lambda>e s. map_error f (start e s)) (\<lambda>e s. map_error g (stop e s)) running valid"
proof
  fix s s' e u x
  show "valid s \<Longrightarrow> map_error f (start e s) = (Inr u, s') \<Longrightarrow> running s' = insert e (running s)"
    using start_ok by (auto simp: map_error_Inr)
  show "valid s \<Longrightarrow> map_error f (start e s) = (Inl x, s') \<Longrightarrow> running s' \<subseteq> running s"
    using start_failed [of s e _ s'] by (auto simp: map_error_Inl)
  show "valid s \<Longrightarrow> map_error g (stop e s) = (Inr u, s') \<Longrightarrow> running s' = running s - {e}"
    using stop_ok by (auto simp: map_error_Inr)
  show "valid s \<Longrightarrow> map_error g (stop e s) = (Inl x, s') \<Longrightarrow>
      running s' \<subseteq> running s \<and> running s - {e} \<subseteq> running s'"
    using stop_failed [of s e _ s'] by (auto simp: map_error_Inl)
qed (simp_all add: start_inv stop_inv)

end

lemma control_simps:
  "c_start (mode_control (TunMode c)) = (\<lambda>e s. map_error TunError (c_start c e s))"
  "c_stop (mode_control (TunMode c)) = (\<lambda>e s. map_error TunError (c_stop c e s))"
  "c_start (mode_control (ProxyMode d)) = (\<lambda>e s. map_error ProxyError (c_start d e s))"
  "c_stop (mode_control (ProxyMode d)) = (\<lambda>e s. map_error ProxyError (c_stop d e s))"
  "c_start (backed_control (ByService c)) = (\<lambda>e s. map_error ServiceFailure (c_start c e s))"
  "c_stop (backed_control (ByService c)) = (\<lambda>e s. map_error ServiceFailure (c_stop c e s))"
  "c_start (backed_control (OnDemand d)) = (\<lambda>e s. map_error OnDemandFailure (c_start d e s))"
  "c_stop (backed_control (OnDemand d)) = (\<lambda>e s. map_error OnDemandFailure (c_stop d e s))"
  by (simp_all add: mode_control_def backed_control_def)

lemma sidecar_control_simps:
  "c_start sidecar_control = sidecar_start" "c_stop sidecar_control = sidecar_stop"
  by (simp_all add: sidecar_control_def)

interpretation on_demand: process_controller
  "c_start (mode_control (TunMode (backed_control (OnDemand sidecar_control))))"
  "c_stop (mode_control (TunMode (backed_control (OnDemand sidecar_control))))" running sidecar_inv
  unfolding control_simps sidecar_control_simps
  by (intro process_controller.mapped sidecar.process_controller_axioms)

section \<open>The system proxy follows Mihomo\<close>

definition system_switch ::
    "marker_json \<Rightarrow> proxy_env \<Rightarrow> u16 \<Rightarrow> (proxy_world, proxy_error) proxy_switch" where
  "system_switch js env port =
     \<lparr>switch_on = proxy_apply js env port, switch_off = proxy_restore js env port\<rparr>"

definition proxied_cores ::
    "marker_json \<Rightarrow> proxy_env \<Rightarrow> u16 \<Rightarrow> (sidecar \<times> proxy_world, process_error proxy_mode_error) controller" where
  "proxied_cores js env port = proxy_mode_control sidecar_control (system_switch js env port)"

text \<open>The system never refuses to inspect or kill a core that is to be stopped.\<close>

definition stoppable :: "sidecar \<Rightarrow> bool" where
  "stoppable s \<longleftrightarrow> (\<forall>n. \<not> stop_inspect_fails (script s n) \<and> \<not> kill_fails (script s n))"

lemma script_frame:
  "script (snd (child_stop env e pid s)) = script s" "script (drop_child env pid s) = script s"
  by (simp_all add: child_stop_def drop_child_def)

lemma script_launch: "script (snd (launch_core env e s)) = script s"
  by (simp add: launch_core_def Let_def script_frame split: sum.split)

lemma script_tick: "script (tick s) = script s"
  by (simp add: tick_def)

lemma script_start: "script (snd (sidecar_start e s)) = script s"
  by (simp add: sidecar_start_def Let_def script_launch script_tick split: option.split)

lemma script_stop: "script (snd (sidecar_stop e s)) = script s"
  by (auto simp: sidecar_stop_def Let_def child_stop_def script_tick split: option.split sum.split)

lemma stoppable_start: "stoppable s \<Longrightarrow> stoppable (snd (sidecar_start e s))"
  by (simp add: stoppable_def script_start)

lemma stoppable_stop: "stoppable s \<Longrightarrow> stoppable (snd (sidecar_stop e s))"
  by (simp add: stoppable_def script_stop)

lemma stop_succeeds: "stoppable s \<Longrightarrow> fst (sidecar_stop e s) = Inr ()"
  by (auto simp: sidecar_stop_def Let_def child_stop_def stoppable_def env_of_def split: option.split)

definition proxied_inv :: "sidecar \<times> proxy_world \<Rightarrow> bool" where
  "proxied_inv st \<longleftrightarrow> sidecar_inv (fst st) \<and> stoppable (fst st)"

text \<open>
  One start and one stop, without a condition on the processes: only a core that cannot be stopped
  makes a failed start add its engine.
\<close>

lemma proxied_start_any:
  assumes inv: "sidecar_inv s" and run: "c_start (proxied_cores js env port) e (s, w) = (r, (s', w'))"
  shows "sidecar_inv s' \<and> (stoppable s \<longrightarrow> stoppable s')
    \<and> (r = Inr () \<longrightarrow> running s' = insert e (running s) \<and>
         w' = (if e = MihomoCore then snd (proxy_apply js env port w) else w) \<and>
         (e = MihomoCore \<longrightarrow> fst (proxy_apply js env port w) = Inr ()))
    \<and> (r \<noteq> Inr () \<longrightarrow> (stoppable s \<longrightarrow> running s' \<subseteq> running s) \<and>
         (w' = w \<or> e = MihomoCore \<and> w' = snd (proxy_apply js env port w)))"
proof -
  obtain r1 s1 where 1: "sidecar_start e s = (r1, s1)" by fastforce
  obtain q v where 2: "proxy_apply js env port w = (q, v)" by fastforce
  obtain r3 s3 where 3: "sidecar_stop e s1 = (r3, s3)" by fastforce
  note start = sidecar_start_cases [OF inv 1]
  have stoppable: "stoppable s \<Longrightarrow> stoppable s1" "stoppable s1 \<Longrightarrow> stoppable s3" "stoppable s1 \<Longrightarrow> r3 = Inr ()"
    using stoppable_start [of s e] stoppable_stop [of s1 e] stop_succeeds [of s1 e] 1 3 by auto
  note stop = sidecar_stop_cases [OF _ 3]
  have run: "proxy_mode_start sidecar_control (system_switch js env port) e (s, w) = (r, (s', w'))"
    using run by (simp add: proxied_cores_def proxy_mode_control_def)
  note run = run [unfolded proxy_mode_start_def sidecar_control_def system_switch_def, simplified, unfolded 1]
  show ?thesis
  proof (cases r1)
    case (Inl err)
    with run have "r = Inl (CoreError err)" "s' = s1" "w' = w" by auto
    with start stoppable Inl show ?thesis by simp
  next
    case (Inr u)
    show ?thesis
    proof (cases "e = MihomoCore")
      case False
      with run Inr have "r = Inr ()" "s' = s1" "w' = w" by auto
      with start stoppable Inr False show ?thesis by simp
    next
      case True
      show ?thesis
      proof (cases q)
        case (Inl x)
        with run Inr True 2 3 have "r = Inl SystemProxyError" "s' = s3" "w' = v" by auto
        with stop start stoppable True 2 \<open>r1 = Inr u\<close> show ?thesis by auto
      next
        case (Inr y)
        with run \<open>r1 = Inr u\<close> True 2 have "r = Inr ()" "s' = s1" "w' = v" by auto
        with start stoppable Inr True 2 \<open>r1 = Inr u\<close> show ?thesis by simp
      qed
    qed
  qed
qed

lemma proxied_stop_any:
  assumes inv: "sidecar_inv s" and run: "c_stop (proxied_cores js env port) e (s, w) = (r, (s', w'))"
  shows "sidecar_inv s' \<and> (stoppable s \<longrightarrow> stoppable s' \<and> r = Inr ())
    \<and> (r = Inr () \<longrightarrow> running s' = running s - {e}) \<and> running s' \<subseteq> running s
    \<and> w' = (if e = MihomoCore then snd (proxy_restore js env port w) else w)"
proof -
  obtain r1 s1 where 1: "sidecar_stop e s = (r1, s1)" by fastforce
  have stoppable: "stoppable s \<Longrightarrow> r1 = Inr ()" "stoppable s \<Longrightarrow> stoppable s1"
    using stop_succeeds [of s e] stoppable_stop [of s e] 1 by auto
  have run: "proxy_mode_stop sidecar_control (system_switch js env port) e (s, w) = (r, (s', w'))"
    using run by (simp add: proxied_cores_def proxy_mode_control_def)
  have "s' = s1" "w' = (if e = MihomoCore then snd (proxy_restore js env port w) else w)"
    "r = Inr () \<longleftrightarrow> r1 = Inr ()"
    using run [unfolded proxy_mode_stop_def sidecar_control_def system_switch_def, simplified,
        unfolded 1 Let_def]
    by (auto split: sum.splits)
  with sidecar_stop_cases [OF inv 1] stoppable show ?thesis by auto
qed

lemma proxied_start_cases:
  assumes "proxied_inv (s, w)" "c_start (proxied_cores js env port) e (s, w) = (r, (s', w'))"
  shows "proxied_inv (s', w') \<and> (r = Inr () \<longrightarrow> running s' = insert e (running s))
    \<and> (r \<noteq> Inr () \<longrightarrow> running s' \<subseteq> running s)"
  using assms(1) proxied_start_any [OF _ assms(2)] by (auto simp: proxied_inv_def)

lemma proxied_stop_cases:
  assumes "proxied_inv (s, w)" "c_stop (proxied_cores js env port) e (s, w) = (r, (s', w'))"
  shows "proxied_inv (s', w') \<and> r = Inr () \<and> running s' = running s - {e}"
  using assms(1) proxied_stop_any [OF _ assms(2)] by (auto simp: proxied_inv_def)

interpretation proxied: process_controller
  "c_start (proxied_cores js env port)" "c_stop (proxied_cores js env port)" "running \<circ> fst" proxied_inv
  for js env port
proof
  fix st st' :: "sidecar \<times> proxy_world" and e u x
  obtain s w s' w' where st: "st = (s, w)" "st' = (s', w')" by fastforce
  show "proxied_inv st \<Longrightarrow> c_start (proxied_cores js env port) e st = (Inr u, st') \<Longrightarrow>
      (running \<circ> fst) st' = insert e ((running \<circ> fst) st)"
    "proxied_inv st \<Longrightarrow> c_start (proxied_cores js env port) e st = (Inl x, st') \<Longrightarrow>
      (running \<circ> fst) st' \<subseteq> (running \<circ> fst) st"
    unfolding st using proxied_start_cases by fastforce+
  show "proxied_inv st \<Longrightarrow> c_stop (proxied_cores js env port) e st = (Inr u, st') \<Longrightarrow>
      (running \<circ> fst) st' = (running \<circ> fst) st - {e}"
    "proxied_inv st \<Longrightarrow> c_stop (proxied_cores js env port) e st = (Inl x, st') \<Longrightarrow>
      (running \<circ> fst) st' \<subseteq> (running \<circ> fst) st \<and> (running \<circ> fst) st - {e} \<subseteq> (running \<circ> fst) st'"
    unfolding st using proxied_stop_cases by fastforce+
  show "proxied_inv st \<Longrightarrow> proxied_inv (snd (c_start (proxied_cores js env port) e st))"
    unfolding st using proxied_start_cases [of s w js env port e]
    by (cases "c_start (proxied_cores js env port) e (s, w)") auto
  show "proxied_inv st \<Longrightarrow> proxied_inv (snd (c_stop (proxied_cores js env port) e st))"
    unfolding st using proxied_stop_cases [of s w js env port e]
    by (cases "c_stop (proxied_cores js env port) e (s, w)") auto
qed

section \<open>A proxy-mode connection\<close>

lemma apply_owned:
  assumes "marker_codec js" "lossless_writes env"
  shows "owned_settings js (snd (proxy_apply js env port w)) = owned_settings js w"
proof -
  obtain r w' where run: "proxy_apply js env port w = (r, w')" by fastforce
  from proxy_apply_owned [OF assms run] run show ?thesis by simp
qed

lemma apply_points:
  assumes "fst (proxy_apply js env port w) = Inr ()"
  shows "settings (snd (proxy_apply js env port w)) = applied_settings port"
    "tunnel (snd (proxy_apply js env port w)) = Some port"
proof -
  obtain w' where run: "proxy_apply js env port w = (Inr (), w')"
    using assms by (metis prod.collapse)
  from proxy_apply_points [OF run] run
  show "settings (snd (proxy_apply js env port w)) = applied_settings port"
    "tunnel (snd (proxy_apply js env port w)) = Some port" by simp_all
qed

lemma remove_marker_tunnel: "tunnel (snd (remove_marker env w)) = tunnel w"
  by (simp add: remove_marker_def)

lemma settings_write_tunnel: "tunnel (snd (settings_write n new w)) = tunnel w"
  by (simp add: settings_write_def split: option.split)

lemma recover_tunnel: "tunnel (snd (recover js env w)) = tunnel w"
proof -
  have "tunnel (snd (case settings_write n new w of
      (Inl e, w) \<Rightarrow> (Inl e, w) | (Inr _, w) \<Rightarrow> remove_marker env (notify_changed w))) = tunnel w" for n new
  proof -
    obtain r v where v: "settings_write n new w = (r, v)" by fastforce
    have "tunnel v = tunnel w" using settings_write_tunnel [of n new w] v by simp
    then show ?thesis by (cases r) (simp_all add: v remove_marker_tunnel, simp add: notify_changed_def)
  qed
  then show ?thesis by (simp add: recover_def remove_marker_tunnel split: option.split)
qed

lemma restore_fst_snd:
  shows "tunnel (snd (proxy_restore js env port w)) = None"
    and "lossless_writes env \<Longrightarrow>
      owned_settings js (snd (proxy_restore js env port w)) = owned_settings js w \<and>
      (fst (proxy_restore js env port w) = Inr () \<longrightarrow>
        settings (snd (proxy_restore js env port w)) = owned_settings js w)"
proof -
  show "tunnel (snd (proxy_restore js env port w)) = None"
    by (simp add: proxy_restore_def recover_tunnel publish_def)
  assume lossless: "lossless_writes env"
  obtain r w' where run: "recover js env (publish port False w) = (r, w')" by fastforce
  from recover_owned [OF lossless run] run
  show "owned_settings js (snd (proxy_restore js env port w)) = owned_settings js w \<and>
      (fst (proxy_restore js env port w) = Inr () \<longrightarrow>
        settings (snd (proxy_restore js env port w)) = owned_settings js w)"
    by (simp add: proxy_restore_def)
qed

lemma connect_proxied:
  assumes inv: "sidecar_inv s"
    and run: "supervisor_connect (proxied_cores js env port) (s, w) = (r, (s', w'))"
  shows "sidecar_inv s' \<and> (stoppable s \<longrightarrow> stoppable s')
    \<and> (r = Inr () \<longrightarrow> running s' = {XrayCore, MihomoCore} \<union> running s \<and>
         settings w' = applied_settings port \<and> tunnel w' = Some port)
    \<and> (r \<noteq> Inr () \<and> stoppable s \<longrightarrow> running s' \<subseteq> running s)
    \<and> (w' = w \<or> w' = snd (proxy_apply js env port w))"
proof -
  let ?c = "proxied_cores js env port"
  obtain r1 s1 w1 where 1: "c_start ?c XrayCore (s, w) = (r1, (s1, w1))" by (metis surj_pair)
  obtain r2 s2 w2 where 2: "c_start ?c MihomoCore (s1, w1) = (r2, (s2, w2))" by (metis surj_pair)
  obtain r3 s3 w3 where 3: "c_stop ?c XrayCore (s2, w2) = (r3, (s3, w3))" by (metis surj_pair)
  note x = proxied_start_any [OF inv 1]
  then have inv1: "sidecar_inv s1" by blast
  note m = proxied_start_any [OF inv1 2]
  then have inv2: "sidecar_inv s2" by blast
  note b = proxied_stop_any [OF inv2 3]
  have w1: "w1 = w" using x by (cases "r1 = Inr ()") auto
  have w2: "w2 = w \<or> w2 = snd (proxy_apply js env port w)" using m w1 by (cases "r2 = Inr ()") auto
  show ?thesis
  proof (cases r1)
    case (Inl e)
    then have "s' = s1" "w' = w1" "r \<noteq> Inr ()" using run 1 by (auto simp: supervisor_connect_def)
    with x w1 Inl show ?thesis by simp
  next
    case (Inr u)
    then have up: "running s1 = insert XrayCore (running s)" using x by simp
    show ?thesis
    proof (cases r2)
      case (Inl e)
      then have "s' = s3" "w' = w3" "r \<noteq> Inr ()"
        using run 1 2 3 \<open>r1 = Inr u\<close> by (auto simp: supervisor_connect_def)
      moreover have "w3 = w2" using b by simp
      moreover have "running s3 \<subseteq> running s" if "stoppable s"
        using that x m b up Inl by auto
      ultimately show ?thesis using x m b w2 by auto
    next
      case (Inr v)
      then have "s' = s2" "w' = w2" "r = Inr ()"
        using run 1 2 \<open>r1 = Inr u\<close> by (auto simp: supervisor_connect_def)
      moreover have "running s2 = insert MihomoCore (running s1)" "w2 = snd (proxy_apply js env port w1)"
        "fst (proxy_apply js env port w1) = Inr ()" using m Inr by simp_all
      ultimately show ?thesis
        using x m up w1 apply_points [of js env port w] by auto
    qed
  qed
qed

lemma disconnect_proxied:
  assumes inv: "sidecar_inv s"
    and run: "supervisor_disconnect (proxied_cores js env port) (s, w) = (r, (s', w'))"
  shows "(stoppable s \<longrightarrow> r = Inr ()) \<and> (r = Inr () \<longrightarrow> running s' = {})
    \<and> w' = snd (proxy_restore js env port w)"
proof -
  let ?c = "proxied_cores js env port"
  obtain r1 s1 w1 where 1: "c_stop ?c MihomoCore (s, w) = (r1, (s1, w1))" by (metis surj_pair)
  obtain r2 s2 w2 where 2: "c_stop ?c XrayCore (s1, w1) = (r2, (s2, w2))" by (metis surj_pair)
  note m = proxied_stop_any [OF inv 1]
  then have inv1: "sidecar_inv s1" by blast
  note x = proxied_stop_any [OF inv1 2]
  have "s' = s2" "w' = w2" "r = Inr () \<longleftrightarrow> r1 = Inr () \<and> r2 = Inr ()"
    using run 1 2 by (auto simp: supervisor_disconnect_def is_ok_def split: sum.splits if_splits)
  moreover have "running s2 = {}" if "r1 = Inr ()" "r2 = Inr ()"
  proof -
    have "running s2 = running s - {MihomoCore, XrayCore}" using m x that by auto
    moreover have "UNIV = {XrayCore, MihomoCore}" using engine.exhaust by auto
    ultimately show ?thesis by auto
  qed
  ultimately show ?thesis using m x by auto
qed

text \<open>
  C7. Connecting in system-proxy mode. A connect that succeeds has both cores running and the system
  pointed at the mixed port. One that fails, whichever core, probe or system call failed, leaves
  nothing running as long as cores can be stopped. The settings the user owns survive both, as long
  as no write of settings stops at a point from which they cannot be recovered. A disconnect that
  reports success has stopped both cores, and it does report success when cores can be stopped; it
  gives those settings back unless the restore itself was refused.
\<close>

theorem proxy_connection_all_or_nothing:
  assumes "marker_codec js" "sidecar_inv s" "running s = {}"
    and "supervisor_connect (proxied_cores js env port) (s, w) = (r, (s', w'))"
    and "supervisor_disconnect (proxied_cores js env' port) (s', w') = (q, (s'', w''))"
  shows "(r = Inr () \<longrightarrow> running s' = {XrayCore, MihomoCore} \<and>
            settings w' = applied_settings port \<and> tunnel w' = Some port)
    \<and> (r \<noteq> Inr () \<and> stoppable s \<longrightarrow> running s' = {})
    \<and> (lossless_writes env \<longrightarrow> owned_settings js w' = owned_settings js w)
    \<and> (q = Inr () \<longrightarrow> running s'' = {}) \<and> (stoppable s \<longrightarrow> q = Inr ()) \<and> tunnel w'' = None
    \<and> (lossless_writes env \<and> lossless_writes env' \<longrightarrow> owned_settings js w'' = owned_settings js w \<and>
         (fst (proxy_restore js env' port w') = Inr () \<longrightarrow> settings w'' = owned_settings js w))"
proof -
  note up = connect_proxied [OF assms(2,4)]
  then have inv': "sidecar_inv s'" by blast
  note down = disconnect_proxied [OF inv' assms(5)]
  have "owned_settings js w' = owned_settings js w" if "lossless_writes env"
    using up apply_owned [OF assms(1) that, of port w] by auto
  moreover have "owned_settings js w'' = owned_settings js w \<and>
      (fst (proxy_restore js env' port w') = Inr () \<longrightarrow> settings w'' = owned_settings js w)"
    if "lossless_writes env" "lossless_writes env'"
    using calculation [OF that(1)] down restore_fst_snd(2) [OF that(2), of js port w'] by simp
  moreover have "tunnel w'' = None" using down restore_fst_snd(1) by simp
  ultimately show ?thesis using up down assms(3) by auto
qed

text \<open>A system in which nothing fails and every core is ready at the first look.\<close>

definition good_env :: process_env where
  "good_env = \<lparr>spawn_fails = False, old_inspect_fails = False, new_inspect_fails = False,
     dies_at_once = False, runtime_timeout = Some CORE_READINESS_TIMEOUT, readiness = (\<lambda>_. \<lparr>probe_exited = Some False, probe_ready = True, probe_took = 1\<rparr>),
     stop_inspect_fails = False, kill_fails = False, core_ready = (\<lambda>_. True), tun_ready = True, clock = 5\<rparr>"

definition idle_sidecar :: "(nat \<Rightarrow> process_env) \<Rightarrow> sidecar" where
  "idle_sidecar envs = \<lparr>live = {}, children = (\<lambda>_. None), started_at = (\<lambda>_. None), next_pid = 0,
     operation = 0, script = envs\<rparr>"


lemma good_sidecar:
  "sidecar_inv (idle_sidecar envs)" "running (idle_sidecar envs) = {}" "stoppable (idle_sidecar (\<lambda>_. good_env))"
  by (simp_all add: idle_sidecar_def sidecar_inv_def running_def stoppable_def good_env_def)

theorem proxy_connection_all_or_nothing_witness:
  "\<exists>r s' w'. supervisor_connect (proxied_cores corporate_json no_faults 28765)
      (idle_sidecar (\<lambda>_. good_env), corporate_world) = (r, (s', w')) \<and>
    (if r = Inr () then running s' = {XrayCore, MihomoCore} \<and> settings w' = applied_settings 28765
     else running s' = {})"
proof -
  obtain r s' w' where up: "supervisor_connect (proxied_cores corporate_json no_faults 28765)
      (idle_sidecar (\<lambda>_. good_env), corporate_world) = (r, (s', w'))" by (metis surj_pair)
  obtain q s'' w'' where down: "supervisor_disconnect (proxied_cores corporate_json no_faults 28765)
      (s', w') = (q, (s'', w''))" by (metis surj_pair)
  have codec: "marker_codec corporate_json" by (simp add: marker_codec_def corporate_json_def)
  from proxy_connection_all_or_nothing [OF codec good_sidecar(1,2) up down] up good_sidecar(3)
  show ?thesis by auto
qed

section \<open>A core that cannot be stopped\<close>






section \<open>The state machine\<close>

inductive conn_step :: "connection_state \<Rightarrow> connection_state \<Rightarrow> bool" where
  loaded: "conn_step EmptyState ReadyState"
| load_failed: "conn_step EmptyState ErrorState"
| connect: "conn_step ReadyState Connecting"
| emptied: "conn_step ReadyState EmptyState"
| established: "conn_step Connecting Connected"
| connect_error: "conn_step Connecting ErrorState"
| cancelled: "conn_step Connecting ReadyState"
| disconnected: "conn_step Connected ReadyState"
| lost: "conn_step Connected ErrorState"
| retry: "conn_step ErrorState Connecting"
| recovered: "conn_step ErrorState ReadyState"
| reset: "conn_step ErrorState EmptyState"

inductive_cases into_connected: "conn_step s Connected"
inductive_cases out_of_connected: "conn_step Connected s"

lemma valid_transition_step: "valid_transition s t \<longleftrightarrow> conn_step s t"
  by (cases s; cases t) (auto simp: valid_transition_def intro: conn_step.intros elim: conn_step.cases)

definition run_machine :: "connection_state list \<Rightarrow> connection_state \<Rightarrow> connection_state" where
  "run_machine requests s = fold (\<lambda>n s. snd (transition s n)) requests s"

lemma machine_reaches: "conn_step\<^sup>*\<^sup>* s (run_machine requests s)"
proof (induction requests arbitrary: s)
  case (Cons n requests)
  have "conn_step\<^sup>*\<^sup>* s (snd (transition s n))"
    by (auto simp: transition_def valid_transition_step)
  with Cons.IH [of "snd (transition s n)"] show ?case by (simp add: run_machine_def)
qed (simp add: run_machine_def)

lemma reaches_connected:
  "conn_step\<^sup>*\<^sup>* s t \<Longrightarrow> t = Connected \<Longrightarrow> s \<noteq> Connected \<Longrightarrow> conn_step\<^sup>*\<^sup>* s Connecting"
  by (induction rule: rtranclp_induct) (auto elim: into_connected)

text \<open>
  The connection's state changes exactly along the twelve listed transitions: a request along
  one of them is granted, any other is refused by name and changes nothing; so, whatever is
  requested, a machine that starts unconnected is connected only after it was connecting, and never
  goes from connected straight to connecting.
\<close>

theorem state_machine_exact:
  "transition s t = (if conn_step s t then (Inr (), t) else (Inl (InvalidTransition s t), s))
   \<and> (run_machine requests EmptyState = Connected \<longrightarrow> conn_step\<^sup>*\<^sup>* EmptyState Connecting)
   \<and> (conn_step u Connected \<longrightarrow> u = Connecting) \<and> \<not> conn_step Connected Connecting"
  using reaches_connected [OF machine_reaches [of EmptyState requests]]
  by (auto simp: transition_def valid_transition_step elim: into_connected out_of_connected)

theorem state_machine_exact_witness: "conn_step\<^sup>*\<^sup>* EmptyState Connecting"
proof -
  have "run_machine [ReadyState, Connecting, Connected] EmptyState = Connected"
    by (simp add: run_machine_def transition_def valid_transition_def)
  with state_machine_exact [of EmptyState ReadyState "[ReadyState, Connecting, Connected]"]
  show ?thesis by blast
qed

end
