(* ===== verification/Service_Loop.thy ===== *)
theory Service_Loop
  imports Service_Protocol
begin

text \<open>
  \<open>service/core_loop.rs\<close>: the lifecycle of the always-ready service. The traits \<open>Cores\<close>,
  \<open>ServiceUpdater\<close> and \<open>Troubleshooter\<close> are records of functions on the world they act on; the
  loop's own state is a record whose fields are those of \<open>ServiceLoop\<close>, with the world in the place
  of \<open>cores\<close>. Reading and writing the service's log files is part of the world as well. The
  theory \<open>Service_Lifecycle\<close> proves what any interleaving of these operations keeps.
\<close>

section \<open>Clients and the world\<close>

record client_identity =
  user_key :: string
  data_root :: string
  uid :: u32
  administrator :: bool

type_synonym connection_id = u64

record core_health =
  xray_runs :: bool
  mihomo_runs :: bool

definition health_all :: "core_health \<Rightarrow> bool" where
  "health_all h \<longleftrightarrow> xray_runs h \<and> mihomo_runs h"

record 'w platform =
  cores_prepare :: "client_identity \<Rightarrow> u64 \<Rightarrow> 'w \<Rightarrow> (broker_error_code + controller_endpoint) \<times> 'w"
  cores_restart :: "'w \<Rightarrow> (broker_error_code + unit) \<times> 'w"
  cores_set_tun :: "bool \<Rightarrow> 'w \<Rightarrow> (broker_error_code + unit) \<times> 'w"
  cores_tun_is_on :: "'w \<Rightarrow> bool option \<times> 'w"
  cores_health :: "'w \<Rightarrow> core_health \<times> 'w"
  cores_exits :: "'w \<Rightarrow> string list \<times> 'w"
  cores_stop_all :: "'w \<Rightarrow> 'w"
  cores_diagnostics :: "'w \<Rightarrow> service_response \<times> 'w"
  log_append :: "string \<Rightarrow> string \<Rightarrow> 'w \<Rightarrow> 'w"
  log_chunk :: "string \<Rightarrow> service_log_file \<Rightarrow> u64 option \<Rightarrow> 'w \<Rightarrow> service_response"
  journal_page :: "string \<Rightarrow> client_identity \<Rightarrow> u64 \<Rightarrow> core_journal_cursor option \<Rightarrow> 'w \<Rightarrow> service_response"
  elapsed_ms :: "'w \<Rightarrow> nat"

record 'w service_updater =
  updater_prepare :: "client_identity \<Rightarrow> string \<Rightarrow> 'w \<Rightarrow> (broker_error_code + unit) \<times> 'w"
  updater_begin :: "client_identity \<Rightarrow> string \<Rightarrow> 'w \<Rightarrow> (broker_error_code + unit) \<times> 'w"
  updater_progress :: "('w \<Rightarrow> service_response) option"

record 'w fix_runner =
  run_fixes :: "privileged_fix list \<Rightarrow> 'w \<Rightarrow> fix_outcome list \<times> 'w"

section \<open>The loop's state\<close>

record loop_owner =
  owner_key :: string
  owner_connection :: connection_id

definition MAX_CRASH_RESTARTS :: u8 where
  "MAX_CRASH_RESTARTS = 1"

record 'w service_loop =
  world :: 'w
  owner :: "loop_owner option"
  prepared :: "(u64 \<times> controller_endpoint) option"
  tun_on :: bool
  crash_restarts :: u8
  failure :: "broker_error_code option"
  updater :: "'w service_updater option"
  updating :: bool
  update_progress :: "('w \<Rightarrow> service_response) option"
  fixer :: "'w fix_runner option"
  troubleshooting :: bool
  log_directory :: "string option"

definition service_loop_new :: "'w \<Rightarrow> 'w service_loop" where
  "service_loop_new w =
     \<lparr>world = w, owner = None, prepared = None, tun_on = False, crash_restarts = 0, failure = None,
      updater = None, updating = False, update_progress = None, fixer = None,
      troubleshooting = False, log_directory = None\<rparr>"

definition with_log_directory :: "string \<Rightarrow> 'w service_loop \<Rightarrow> 'w service_loop" where
  "with_log_directory d s = s\<lparr>log_directory := Some d\<rparr>"

definition with_troubleshooter :: "'w fix_runner \<Rightarrow> 'w service_loop \<Rightarrow> 'w service_loop" where
  "with_troubleshooter t s = s\<lparr>fixer := Some t\<rparr>"

definition with_updater :: "'w service_updater \<Rightarrow> 'w service_loop \<Rightarrow> 'w service_loop" where
  "with_updater u s = s\<lparr>update_progress := updater_progress u, updater := Some u\<rparr>"

text \<open>Calling the world from the loop.\<close>

definition on_world :: "('w \<Rightarrow> 'a \<times> 'w) \<Rightarrow> 'w service_loop \<Rightarrow> 'a \<times> 'w service_loop" where
  "on_world f s = (case f (world s) of (r, w) \<Rightarrow> (r, s\<lparr>world := w\<rparr>))"

definition service_log_line :: "'w platform \<Rightarrow> string \<Rightarrow> 'w service_loop \<Rightarrow> 'w service_loop" where
  "service_log_line p line s =
     (case log_directory s of None \<Rightarrow> s | Some d \<Rightarrow> s\<lparr>world := log_append p d line (world s)\<rparr>)"

text \<open>The check every command starts with: the cores belong to another user.\<close>

definition owned_by_other :: "client_identity \<Rightarrow> 'w service_loop \<Rightarrow> bool" where
  "owned_by_other client s =
     (case owner s of None \<Rightarrow> False | Some o' \<Rightarrow> owner_key o' \<noteq> user_key client)"

definition claim :: "connection_id \<Rightarrow> client_identity \<Rightarrow> 'w service_loop \<Rightarrow> 'w service_loop" where
  "claim connection client s =
     s\<lparr>owner := Some \<lparr>owner_key = user_key client, owner_connection = connection\<rparr>\<rparr>"

section \<open>Starting and stopping\<close>

definition switch_tun :: "'w platform \<Rightarrow> bool \<Rightarrow> 'w service_loop \<Rightarrow> (broker_error_code + unit) \<times> 'w service_loop" where
  "switch_tun p on = on_world (cores_set_tun p on)"

definition stop_cores :: "'w platform \<Rightarrow> 'w service_loop \<Rightarrow> 'w service_loop" where
  "stop_cores p s =
     (let s = (if tun_on s then snd (switch_tun p False s) else s);
          s = s\<lparr>world := cores_stop_all p (world s)\<rparr>
      in s\<lparr>prepared := None, tun_on := False, crash_restarts := 0, failure := None\<rparr>)"

definition stop_everything :: "'w platform \<Rightarrow> 'w service_loop \<Rightarrow> 'w service_loop" where
  "stop_everything p s = (stop_cores p s)\<lparr>owner := None\<rparr>"

text \<open>\<open>prepare\<close> after the shortcut: the generation is started, and the tunnel comes back if it was on.\<close>

definition prepare_generation ::
    "'w platform \<Rightarrow> client_identity \<Rightarrow> u64 \<Rightarrow> 'w service_loop \<Rightarrow> service_response \<times> 'w service_loop" where
  "prepare_generation p client generation s =
     (let tunnel = tun_on s; s = s\<lparr>tun_on := False, crash_restarts := 0\<rparr>
      in case on_world (cores_prepare p client generation) s of
           (Inl err, s) \<Rightarrow> (ServiceError err, s\<lparr>prepared := None, failure := Some err\<rparr>)
         | (Inr endpoint, s) \<Rightarrow>
             let s = s\<lparr>prepared := Some (generation, endpoint), failure := None\<rparr>;
                 s = (if tunnel
                      then (case switch_tun p True s of
                              (Inr _, s) \<Rightarrow> s\<lparr>tun_on := True\<rparr>
                            | (Inl err, s) \<Rightarrow> (snd (switch_tun p False s))\<lparr>failure := Some err\<rparr>)
                      else s)
             in (Prepared generation endpoint, s))"

definition prepare ::
    "'w platform \<Rightarrow> client_identity \<Rightarrow> u64 \<Rightarrow> 'w service_loop \<Rightarrow> service_response \<times> 'w service_loop" where
  "prepare p client generation s =
     (case prepared s of
        Some (current, endpoint) \<Rightarrow>
          if current = generation \<and> failure s = None
          then (case on_world (cores_health p) s of
                  (h, s) \<Rightarrow> if health_all h then (Prepared generation endpoint, s)
                            else prepare_generation p client generation s)
          else prepare_generation p client generation s
      | None \<Rightarrow> prepare_generation p client generation s)"

definition set_tun :: "'w platform \<Rightarrow> bool \<Rightarrow> 'w service_loop \<Rightarrow> service_response \<times> 'w service_loop" where
  "set_tun p on s =
     (if prepared s = None \<or> failure s \<noteq> None then (ServiceError NotReady, s)
      else if tun_on s = on then (TunState on, s)
      else case switch_tun p on s of
             (Inr _, s) \<Rightarrow> (TunState on, s\<lparr>tun_on := on\<rparr>)
           | (Inl err, s) \<Rightarrow>
               if on then (ServiceError err, (snd (switch_tun p False s))\<lparr>tun_on := False\<rparr>)
               else (case on_world (cores_tun_is_on p) s of
                       (answer, s) \<Rightarrow>
                         (ServiceError err, s\<lparr>tun_on := (case answer of None \<Rightarrow> True | Some b \<Rightarrow> b)\<rparr>)))"

definition runtime_state :: "bool \<Rightarrow> elevated_runtime_state" where
  "runtime_state running = (if running then RReady else RStopped)"

definition status :: "'w platform \<Rightarrow> 'w service_loop \<Rightarrow> service_response \<times> 'w service_loop" where
  "status p s =
     (case (if prepared s = None then (\<lparr>xray_runs = False, mihomo_runs = False\<rparr>, s)
            else on_world (cores_health p) s) of
        (h, s) \<Rightarrow>
          (StatusReply (map_option fst (prepared s)) (runtime_state (xray_runs h))
             (runtime_state (mihomo_runs h)) (tun_on s) (failure s), s))"

section \<open>Crashes\<close>

fun debug_code :: "broker_error_code \<Rightarrow> string" where
  "debug_code NotReady = ''NotReady''"
| "debug_code Unsupported = ''Unsupported''"
| "debug_code InvalidRequest = ''InvalidRequest''"
| "debug_code AuthenticationFailed = ''AuthenticationFailed''"
| "debug_code TimedOut = ''TimedOut''"
| "debug_code GenerationMismatch = ''GenerationMismatch''"

definition show_bool :: "bool \<Rightarrow> string" where
  "show_bool b = (if b then ''true'' else ''false'')"

fun join_str :: "string \<Rightarrow> string list \<Rightarrow> string" where
  "join_str d [] = []"
| "join_str d [x] = x"
| "join_str d (x # y # xs) = x @ d @ join_str d (y # xs)"

definition what_failed :: "core_health \<Rightarrow> string list \<Rightarrow> string" where
  "what_failed h exits =
     (if exits = []
      then ''xray running: '' @ show_bool (xray_runs h) @ '', mihomo running: '' @ show_bool (mihomo_runs h)
      else join_str ''; '' exits)"

text \<open>The lines of \<open>logs/service.log\<close>.\<close>

definition second_failure_note :: "u64 \<Rightarrow> string \<Rightarrow> string" where
  "second_failure_note generation what =
     ''core failure in generation '' @ show_nat (unat generation) @ '': '' @ what
       @ ''; second failure of this generation: cores stopped, tunnel off, Status reports NotReady until the next Prepare''"

definition restarting_note :: "u64 \<Rightarrow> string \<Rightarrow> bool \<Rightarrow> string" where
  "restarting_note generation what tunnel =
     ''core failure in generation '' @ show_nat (unat generation) @ '': '' @ what
       @ ''; restarting both cores'' @ (if tunnel then '' (tunnel was on)'' else [])"

definition restarted_note :: "u64 \<Rightarrow> nat \<Rightarrow> string" where
  "restarted_note generation ms =
     ''crash restart of generation '' @ show_nat (unat generation) @ '' ok in '' @ show_nat ms @ '' ms''"

definition tunnel_lost_note :: "u64 \<Rightarrow> broker_error_code \<Rightarrow> string" where
  "tunnel_lost_note generation err =
     ''crash restart of generation '' @ show_nat (unat generation)
       @ '': the tunnel did not come back ('' @ debug_code err @ ''); Status reports the failure''"

definition restart_failed_note :: "u64 \<Rightarrow> broker_error_code \<Rightarrow> string" where
  "restart_failed_note generation err =
     ''crash restart of generation '' @ show_nat (unat generation) @ '' failed (''
       @ debug_code err @ ''): cores stopped''"

definition owner_closed_note :: "connection_id \<Rightarrow> u64 \<Rightarrow> bool \<Rightarrow> string" where
  "owner_closed_note connection generation tunnel =
     ''owner connection '' @ show_nat (unat connection) @ '' closed: stopping the cores of generation ''
       @ show_nat (unat generation) @ (if tunnel then '' and the tunnel'' else [])"

definition unanswered_note :: "connection_id \<Rightarrow> string \<Rightarrow> string" where
  "unanswered_note connection command =
     ''connection '' @ show_nat (unat connection) @ '': the answer to '' @ command
       @ '' could not be sent (the client had left)''"

definition log_restarted :: "'w platform \<Rightarrow> u64 \<Rightarrow> 'w service_loop \<Rightarrow> 'w service_loop" where
  "log_restarted p generation s =
     service_log_line p
       (restarted_note generation (elapsed_ms p (world s))) s"

text \<open>The second failure of a generation.\<close>

definition give_up :: "'w platform \<Rightarrow> u64 \<Rightarrow> string \<Rightarrow> bool \<Rightarrow> 'w service_loop \<Rightarrow> 'w service_loop" where
  "give_up p generation what tunnel s =
     (let s = service_log_line p (second_failure_note generation what) s;
          s = (if tunnel then snd (switch_tun p False s) else s);
          s = s\<lparr>world := cores_stop_all p (world s)\<rparr>
      in s\<lparr>failure := Some NotReady\<rparr>)"

text \<open>The first one: both cores are restarted, and the tunnel with them.\<close>

definition restart_cores :: "'w platform \<Rightarrow> u64 \<Rightarrow> string \<Rightarrow> bool \<Rightarrow> 'w service_loop \<Rightarrow> 'w service_loop" where
  "restart_cores p generation what tunnel s =
     (let s = service_log_line p (restarting_note generation what tunnel) s;
          s = s\<lparr>crash_restarts := crash_restarts s + 1\<rparr>
      in case on_world (cores_restart p) s of
           (Inr _, s) \<Rightarrow>
             if tunnel
             then (case switch_tun p True s of
                     (Inr _, s) \<Rightarrow> log_restarted p generation (s\<lparr>tun_on := True\<rparr>)
                   | (Inl err, s) \<Rightarrow>
                       service_log_line p (tunnel_lost_note generation err)
                         ((snd (switch_tun p False s))\<lparr>failure := Some err\<rparr>))
             else log_restarted p generation s
         | (Inl err, s) \<Rightarrow>
             service_log_line p (restart_failed_note generation err)
               (s\<lparr>world := cores_stop_all p (world s), failure := Some err\<rparr>))"

definition service_tick :: "'w platform \<Rightarrow> 'w service_loop \<Rightarrow> 'w service_loop" where
  "service_tick p s =
     (case prepared s of
        None \<Rightarrow> s
      | Some (generation, _) \<Rightarrow>
          if failure s \<noteq> None then s
          else (case on_world (cores_health p) s of
             (h, s) \<Rightarrow>
               if health_all h then s
               else (case on_world (cores_exits p) s of
                  (exits, s) \<Rightarrow>
                    let what = what_failed h exits; tunnel = tun_on s; s = s\<lparr>tun_on := False\<rparr>
                    in if crash_restarts s \<ge> MAX_CRASH_RESTARTS
                       then give_up p generation what tunnel s
                       else restart_cores p generation what tunnel s)))"

text \<open>A connection closed; only the current owner's stops the cores.\<close>

definition client_gone :: "'w platform \<Rightarrow> connection_id \<Rightarrow> 'w service_loop \<Rightarrow> 'w service_loop" where
  "client_gone p connection s =
     (case owner s of
        None \<Rightarrow> s
      | Some o' \<Rightarrow>
          if owner_connection o' \<noteq> connection then s
          else let s = (case prepared s of
                          None \<Rightarrow> s
                        | Some (generation, _) \<Rightarrow>
                            service_log_line p (owner_closed_note connection generation (tun_on s)) s)
               in stop_everything p s)"

section \<open>Updates and fixes in phases\<close>

text \<open>
  Both run their long part without the lock: the first phase takes the updater out of the loop (or
  marks the batch), the last phase puts it back.
\<close>

definition start_update :: "client_identity \<Rightarrow> 'w service_loop \<Rightarrow>
    (service_response + 'w service_updater) \<times> 'w service_loop" where
  "start_update client s =
     (if owned_by_other client s \<or> updating s then (Inl Busy, s)
      else case updater s of
             None \<Rightarrow> (Inl (ServiceError Unsupported), s)
           | Some u \<Rightarrow> (Inr u, s\<lparr>updater := None, updating := True\<rparr>))"

definition finish_update ::
    "'w platform \<Rightarrow> client_identity \<Rightarrow> string \<Rightarrow> 'w service_updater \<Rightarrow> broker_error_code + unit
       \<Rightarrow> 'w service_loop \<Rightarrow> service_response \<times> 'w service_loop" where
  "finish_update p client version u downloaded s =
     (let s = s\<lparr>updating := False\<rparr>;
          (response, s) =
            (case downloaded of
               Inl err \<Rightarrow> (ServiceError err, s)
             | Inr _ \<Rightarrow>
                 if owned_by_other client s then (Busy, s)
                 else let s = stop_everything p s
                      in case on_world (updater_begin u client version) s of
                           (Inr _, s) \<Rightarrow> (UpdateStarted, s)
                         | (Inl err, s) \<Rightarrow> (ServiceError err, s))
      in (response, s\<lparr>updater := Some u\<rparr>))"

definition finish_stage ::
    "string \<Rightarrow> 'w service_updater \<Rightarrow> broker_error_code + unit \<Rightarrow> 'w service_loop
       \<Rightarrow> service_response \<times> 'w service_loop" where
  "finish_stage version u downloaded s =
     ((case downloaded of Inr _ \<Rightarrow> UpdateStaged version | Inl err \<Rightarrow> ServiceError err),
      s\<lparr>updating := False, updater := Some u\<rparr>)"

definition progress_reply :: "'w service_loop \<Rightarrow> service_response" where
  "progress_reply s =
     (if \<not> updating s then UpdateProgress Idle 0 0
      else case update_progress s of
             Some progress \<Rightarrow> progress (world s)
           | None \<Rightarrow> UpdateProgress Downloading 0 0)"

definition run_update ::
    "'w platform \<Rightarrow> client_identity \<Rightarrow> string \<Rightarrow> bool \<Rightarrow> 'w service_loop
       \<Rightarrow> service_response \<times> 'w service_loop" where
  "run_update p client version stage_only s =
     (case start_update client s of
        (Inl response, s) \<Rightarrow> (response, s)
      | (Inr u, s) \<Rightarrow>
          (case on_world (updater_prepare u client version) s of
             (downloaded, s) \<Rightarrow>
               if stage_only then finish_stage version u downloaded s
               else finish_update p client version u downloaded s))"

definition start_troubleshoot ::
    "client_identity \<Rightarrow> privileged_fix list \<Rightarrow> 'w service_loop
       \<Rightarrow> (service_response + 'w fix_runner) \<times> 'w service_loop" where
  "start_troubleshoot client fixes s =
     (if owned_by_other client s \<or> updating s \<or> troubleshooting s then (Inl Busy, s)
      else if \<not> administrator client then (Inl (ServiceError AuthenticationFailed), s)
      else if tun_on s \<and> ReinstallWintun \<in> set fixes then (Inl (ServiceError NotReady), s)
      else case fixer s of
             None \<Rightarrow> (Inl (ServiceError Unsupported), s)
           | Some t \<Rightarrow> (Inr t, s\<lparr>troubleshooting := True\<rparr>))"

definition finish_troubleshoot ::
    "privileged_fix list \<Rightarrow> fix_outcome list \<Rightarrow> 'w service_loop \<Rightarrow> service_response \<times> 'w service_loop" where
  "finish_troubleshoot fixes outcomes s =
     ((if length outcomes = length fixes then Troubleshot outcomes else ServiceError InvalidRequest),
      s\<lparr>troubleshooting := False\<rparr>)"

definition run_troubleshoot ::
    "client_identity \<Rightarrow> privileged_fix list \<Rightarrow> 'w service_loop \<Rightarrow> service_response \<times> 'w service_loop" where
  "run_troubleshoot client fixes s =
     (case start_troubleshoot client fixes s of
        (Inl response, s) \<Rightarrow> (response, s)
      | (Inr t, s) \<Rightarrow>
          (case on_world (run_fixes t fixes) s of
             (outcomes, s) \<Rightarrow> finish_troubleshoot fixes outcomes s))"

section \<open>Commands\<close>

definition execute ::
    "'w platform \<Rightarrow> connection_id \<Rightarrow> client_identity \<Rightarrow> service_command \<Rightarrow> 'w service_loop
       \<Rightarrow> service_response \<times> 'w service_loop" where
  "execute p connection client command s =
     (if owned_by_other client s then (Busy, s)
      else case command of
        Prepare generation_id \<Rightarrow> prepare p client generation_id (claim connection client s)
      | SetTun on \<Rightarrow> set_tun p on (claim connection client s)
      | AskStatus \<Rightarrow> status p s
      | StopCore engine \<Rightarrow> (CoreStopped engine, stop_cores p (claim connection client s))
      | AskDiagnostics \<Rightarrow> on_world (cores_diagnostics p) s
      | AskServiceLog f before \<Rightarrow>
          ((case log_directory s of
              Some d \<Rightarrow> log_chunk p d f before (world s) | None \<Rightarrow> ServiceError NotReady), s)
      | AskCoreJournal since cursor \<Rightarrow>
          ((case log_directory s of
              Some d \<Rightarrow> journal_page p d client since cursor (world s) | None \<Rightarrow> ServiceError NotReady), s)
      | ShutdownService \<Rightarrow> (ServiceShuttingDown, stop_everything p s)
      | AskUpdateProgress \<Rightarrow> (progress_reply s, s)
      | Update version \<Rightarrow> run_update p client version False s
      | StageUpdate version \<Rightarrow> run_update p client version True s
      | AskTroubleshoot fixes \<Rightarrow> run_troubleshoot client fixes s)"

fun command_name :: "service_command \<Rightarrow> string" where
  "command_name (Prepare _) = ''Prepare''"
| "command_name (SetTun on) = (if on then ''SetTun(on)'' else ''SetTun(off)'')"
| "command_name AskStatus = ''Status''"
| "command_name (StopCore _) = ''Stop''"
| "command_name AskDiagnostics = ''Diagnostics''"
| "command_name (AskServiceLog _ _) = ''ServiceLog''"
| "command_name (AskCoreJournal _ _) = ''CoreJournal''"
| "command_name ShutdownService = ''Shutdown''"
| "command_name (Update _) = ''Update''"
| "command_name (StageUpdate _) = ''StageUpdate''"
| "command_name AskUpdateProgress = ''UpdateProgress''"
| "command_name (AskTroubleshoot _) = ''Troubleshoot''"

text \<open>Durations are in milliseconds.\<close>

definition SLOW_LOCK_WAIT :: nat where
  "SLOW_LOCK_WAIT = 2000"

definition SLOW_LOCK_HOLD :: nat where
  "SLOW_LOCK_HOLD = 5000"

definition slow_lock_note :: "string \<Rightarrow> nat \<Rightarrow> nat \<Rightarrow> string option" where
  "slow_lock_note what waited held =
     (if waited \<ge> SLOW_LOCK_WAIT \<or> held \<ge> SLOW_LOCK_HOLD
      then Some (what @ '' waited '' @ show_nat waited @ '' ms for the service lock, then ran ''
                   @ show_nat held @ '' ms'')
      else None)"

definition with_service_lock ::
    "'w platform \<Rightarrow> string \<Rightarrow> nat \<times> nat \<Rightarrow> ('w service_loop \<Rightarrow> 'a \<times> 'w service_loop)
       \<Rightarrow> 'w service_loop \<Rightarrow> 'a \<times> 'w service_loop" where
  "with_service_lock p what timing work s =
     (case work s of
        (result, s) \<Rightarrow>
          (result, case slow_lock_note what (fst timing) (snd timing) of
                     Some note \<Rightarrow> service_log_line p note s | None \<Rightarrow> s))"

definition connection_closed ::
    "'w platform \<Rightarrow> nat \<times> nat \<Rightarrow> connection_id \<Rightarrow> string option \<Rightarrow> 'w service_loop \<Rightarrow> 'w service_loop" where
  "connection_closed p timing connection unanswered s =
     snd (with_service_lock p ''connection closed'' timing
       (\<lambda>s. ((), client_gone p connection
               (case unanswered of
                  None \<Rightarrow> s
                | Some command \<Rightarrow>
                    service_log_line p (unanswered_note connection command) s))) s)"

text \<open>The commands whose long part runs without the lock.\<close>

fun in_phases :: "service_command \<Rightarrow> bool" where
  "in_phases (Update _) = True"
| "in_phases (StageUpdate _) = True"
| "in_phases (AskTroubleshoot _) = True"
| "in_phases _ = False"

text \<open>\<open>execute_shared\<close> when nothing runs in between; the phases on their own are the steps of
  \<open>Service_Lifecycle\<close>.\<close>

definition execute_shared ::
    "'w platform \<Rightarrow> nat \<times> nat \<Rightarrow> connection_id \<Rightarrow> client_identity \<Rightarrow> service_command \<Rightarrow> 'w service_loop
       \<Rightarrow> service_response \<times> 'w service_loop" where
  "execute_shared p timing connection client command s =
     (case command of
        Update version \<Rightarrow> run_update p client version False s
      | StageUpdate version \<Rightarrow> run_update p client version True s
      | AskTroubleshoot fixes \<Rightarrow> run_troubleshoot client fixes s
      | _ \<Rightarrow> with_service_lock p (command_name command) timing (execute p connection client command) s)"

lemma execute_shared_is_execute:
  assumes "slow_lock_note (command_name command) (fst timing) (snd timing) = None"
  shows "execute_shared p timing connection client command s = execute p connection client command s"
  using assms
  by (cases command)
    (simp_all add: execute_shared_def execute_def with_service_lock_def run_update_def
      start_update_def run_troubleshoot_def start_troubleshoot_def split: prod.split)

end
