(* ===== verification/Service_Lifecycle.thy ===== *)
theory Service_Lifecycle
  imports Service_Loop
begin

text \<open>
  What the always-ready service guarantees whatever its clients, its health check and the cores do
  and in whatever order. The cores are arbitrary; the calls the loop makes of them and their answers
  are recorded, and the guarantees speak about that record. Updates and fixes run in the phases of
  \<open>execute_shared\<close>, between which any other step may come.
\<close>

section \<open>Recording the calls\<close>

datatype service_event =
    EvPrepare string bool
  | EvRestart bool
  | EvSetTun bool bool
  | EvTunIsOn "bool option"
  | EvStopAll
  | EvDownload string bool
  | EvBegin string bool
  | EvFixes "privileged_fix list"

type_synonym 'c traced = "'c \<times> service_event list"

definition recorded ::
    "('a \<Rightarrow> service_event) \<Rightarrow> ('c \<Rightarrow> 'a \<times> 'c) \<Rightarrow> 'c traced \<Rightarrow> 'a \<times> 'c traced" where
  "recorded e f w = (case f (fst w) of (r, c) \<Rightarrow> (r, c, e r # snd w))"

definition unrecorded :: "('c \<Rightarrow> 'a \<times> 'c) \<Rightarrow> 'c traced \<Rightarrow> 'a \<times> 'c traced" where
  "unrecorded f w = (case f (fst w) of (r, c) \<Rightarrow> (r, c, snd w))"

definition traced :: "'c platform \<Rightarrow> 'c traced platform" where
  "traced p =
     \<lparr>cores_prepare =
        (\<lambda>client g. recorded (\<lambda>r. EvPrepare (user_key client) (is_ok r)) (cores_prepare p client g)),
      cores_restart = recorded (\<lambda>r. EvRestart (is_ok r)) (cores_restart p),
      cores_set_tun = (\<lambda>on. recorded (\<lambda>r. EvSetTun on (is_ok r)) (cores_set_tun p on)),
      cores_tun_is_on = recorded EvTunIsOn (cores_tun_is_on p),
      cores_health = unrecorded (cores_health p),
      cores_exits = unrecorded (cores_exits p),
      cores_stop_all = (\<lambda>(c, t). (cores_stop_all p c, EvStopAll # t)),
      cores_diagnostics = unrecorded (cores_diagnostics p),
      log_append = (\<lambda>d l (c, t). (log_append p d l c, t)),
      log_chunk = (\<lambda>d f b w. log_chunk p d f b (fst w)),
      journal_page = (\<lambda>d cl s cu w. journal_page p d cl s cu (fst w)),
      elapsed_ms = (\<lambda>w. elapsed_ms p (fst w))\<rparr>"

definition traced_updater :: "'c service_updater \<Rightarrow> 'c traced service_updater" where
  "traced_updater u =
     \<lparr>updater_prepare = (\<lambda>cl v. recorded (\<lambda>r. EvDownload v (is_ok r)) (updater_prepare u cl v)),
      updater_begin = (\<lambda>cl v. recorded (\<lambda>r. EvBegin v (is_ok r)) (updater_begin u cl v)),
      updater_progress = map_option (\<lambda>f w. f (fst w)) (updater_progress u)\<rparr>"

definition traced_fixer :: "'c fix_runner \<Rightarrow> 'c traced fix_runner" where
  "traced_fixer t = \<lparr>run_fixes = (\<lambda>fixes. recorded (\<lambda>_. EvFixes fixes) (run_fixes t fixes))\<rparr>"

abbreviation calls :: "'c traced service_loop \<Rightarrow> service_event list" where
  "calls s \<equiv> snd (world s)"

section \<open>What the record says\<close>

text \<open>
  The newest call comes first. \<open>Cores::prepare\<close> and \<open>Cores::restart\<close> are documented to start the
  cores with the tunnel off and \<open>stop_all\<close> ends it; a switch that failed may have happened or not.
\<close>

datatype tunnel_state = TunnelOn | TunnelOff | TunnelUnknown

fun tunnel :: "service_event list \<Rightarrow> tunnel_state" where
  "tunnel [] = TunnelOff"
| "tunnel (EvPrepare _ _ # t) = TunnelOff"
| "tunnel (EvRestart _ # t) = TunnelOff"
| "tunnel (EvStopAll # t) = TunnelOff"
| "tunnel (EvSetTun on answered # t) =
     (if \<not> answered then TunnelUnknown else if on then TunnelOn else TunnelOff)"
| "tunnel (EvTunIsOn (Some b) # t) = (if b then TunnelOn else TunnelOff)"
| "tunnel (_ # t) = tunnel t"

text \<open>The last switch was off, failed, and came after a switch on that failed.\<close>

fun rollback_failed :: "service_event list \<Rightarrow> bool" where
  "rollback_failed [] = False"
| "rollback_failed (EvSetTun on answered # t) =
     (\<not> on \<and> \<not> answered \<and> (case t of EvSetTun b a # _ \<Rightarrow> b \<and> \<not> a | _ \<Rightarrow> False))"
| "rollback_failed (EvDownload _ _ # t) = rollback_failed t"
| "rollback_failed (EvBegin _ _ # t) = rollback_failed t"
| "rollback_failed (EvFixes _ # t) = rollback_failed t"
| "rollback_failed (_ # t) = False"

text \<open>Whether cores may run, and how often they were restarted since they were last prepared.\<close>

fun cores_up :: "service_event list \<Rightarrow> bool" where
  "cores_up [] = False"
| "cores_up (EvPrepare _ _ # t) = True"
| "cores_up (EvRestart _ # t) = True"
| "cores_up (EvStopAll # t) = False"
| "cores_up (_ # t) = cores_up t"

fun restarts :: "service_event list \<Rightarrow> nat" where
  "restarts [] = 0"
| "restarts (EvPrepare _ _ # t) = 0"
| "restarts (EvRestart _ # t) = Suc (restarts t)"
| "restarts (_ # t) = restarts t"

text \<open>Every updater was started with no core running and the tunnel off.\<close>

fun begins_quiesced :: "service_event list \<Rightarrow> bool" where
  "begins_quiesced [] = True"
| "begins_quiesced (EvBegin _ _ # t) = (\<not> cores_up t \<and> tunnel t = TunnelOff \<and> begins_quiesced t)"
| "begins_quiesced (_ # t) = begins_quiesced t"

fun core_event :: "service_event \<Rightarrow> bool" where
  "core_event (EvDownload _ _) = False"
| "core_event (EvFixes _) = False"
| "core_event _ = True"

definition loop_inv :: "'c traced service_loop \<Rightarrow> bool" where
  "loop_inv s \<longleftrightarrow>
     (tun_on s \<longrightarrow> tunnel (calls s) \<noteq> TunnelOff \<and> prepared s \<noteq> None \<and> failure s = None) \<and>
     (tunnel (calls s) \<noteq> TunnelOff \<longrightarrow> tun_on s \<or> rollback_failed (calls s)) \<and>
     (cores_up (calls s) \<longrightarrow> owner s \<noteq> None) \<and>
     (prepared s \<noteq> None \<longrightarrow> owner s \<noteq> None \<and> restarts (calls s) = unat (crash_restarts s)) \<and>
     restarts (calls s) \<le> 1 \<and> unat (crash_restarts s) \<le> 1 \<and> begins_quiesced (calls s)"

section \<open>The calls, recorded\<close>

lemma traced_calls [simp]:
  "on_world (cores_prepare (traced p) client g) s =
     (case cores_prepare p client g (fst (world s)) of
        (r, c) \<Rightarrow> (r, s\<lparr>world := (c, EvPrepare (user_key client) (is_ok r) # calls s)\<rparr>))"
  "on_world (cores_restart (traced p)) s =
     (case cores_restart p (fst (world s)) of (r, c) \<Rightarrow> (r, s\<lparr>world := (c, EvRestart (is_ok r) # calls s)\<rparr>))"
  "switch_tun (traced p) on s =
     (case cores_set_tun p on (fst (world s)) of
        (r, c) \<Rightarrow> (r, s\<lparr>world := (c, EvSetTun on (is_ok r) # calls s)\<rparr>))"
  "on_world (cores_tun_is_on (traced p)) s =
     (case cores_tun_is_on p (fst (world s)) of (r, c) \<Rightarrow> (r, s\<lparr>world := (c, EvTunIsOn r # calls s)\<rparr>))"
  "on_world (cores_health (traced p)) s =
     (case cores_health p (fst (world s)) of (r, c) \<Rightarrow> (r, s\<lparr>world := (c, calls s)\<rparr>))"
  "on_world (cores_exits (traced p)) s =
     (case cores_exits p (fst (world s)) of (r, c) \<Rightarrow> (r, s\<lparr>world := (c, calls s)\<rparr>))"
  "on_world (cores_diagnostics (traced p)) s =
     (case cores_diagnostics p (fst (world s)) of (r, c) \<Rightarrow> (r, s\<lparr>world := (c, calls s)\<rparr>))"
  "cores_stop_all (traced p) w = (cores_stop_all p (fst w), EvStopAll # snd w)"
  "on_world (updater_prepare (traced_updater u) client v) s =
     (case updater_prepare u client v (fst (world s)) of
        (r, c) \<Rightarrow> (r, s\<lparr>world := (c, EvDownload v (is_ok r) # calls s)\<rparr>))"
  "on_world (updater_begin (traced_updater u) client v) s =
     (case updater_begin u client v (fst (world s)) of
        (r, c) \<Rightarrow> (r, s\<lparr>world := (c, EvBegin v (is_ok r) # calls s)\<rparr>))"
  "on_world (run_fixes (traced_fixer t) fixes) s =
     (case run_fixes t fixes (fst (world s)) of (r, c) \<Rightarrow> (r, s\<lparr>world := (c, EvFixes fixes # calls s)\<rparr>))"
  by (simp_all add: on_world_def traced_def traced_updater_def traced_fixer_def recorded_def
      unrecorded_def switch_tun_def split: prod.split)

lemma is_ok_simps [simp]: "is_ok (Inr x)" "\<not> is_ok (Inl e)"
  by (simp_all add: is_ok_def)

lemma log_line_keeps [simp]:
  "calls (service_log_line (traced p) l s) = calls s"
  "owner (service_log_line (traced p) l s) = owner s"
  "prepared (service_log_line (traced p) l s) = prepared s"
  "tun_on (service_log_line (traced p) l s) = tun_on s"
  "crash_restarts (service_log_line (traced p) l s) = crash_restarts s"
  "failure (service_log_line (traced p) l s) = failure s"
  "updater (service_log_line (traced p) l s) = updater s"
  "updating (service_log_line (traced p) l s) = updating s"
  "fixer (service_log_line (traced p) l s) = fixer s"
  "troubleshooting (service_log_line (traced p) l s) = troubleshooting s"
  by (simp_all add: service_log_line_def traced_def case_prod_beta split: option.split)

text \<open>Two states that agree on what the invariant reads.\<close>

definition same_session :: "'c traced service_loop \<Rightarrow> 'c traced service_loop \<Rightarrow> bool" where
  "same_session s s' \<longleftrightarrow>
     owner s' = owner s \<and> prepared s' = prepared s \<and> tun_on s' = tun_on s \<and>
     crash_restarts s' = crash_restarts s \<and> failure s' = failure s \<and>
     filter core_event (calls s') = filter core_event (calls s)"

lemma record_core:
  "tunnel (filter core_event t) = tunnel t" "cores_up (filter core_event t) = cores_up t"
  "restarts (filter core_event t) = restarts t"
  subgoal by (induction t rule: tunnel.induct) auto
  subgoal by (induction t rule: cores_up.induct) auto
  subgoal by (induction t rule: restarts.induct) auto
  done

section \<open>Every operation keeps the invariant\<close>

lemmas inv_cases = loop_inv_def split_beta Let_def

lemma log_line_inv [simp]: "loop_inv (service_log_line (traced p) l s) = loop_inv s"
  by (simp add: loop_inv_def)

lemma claim_inv: "loop_inv s \<Longrightarrow> loop_inv (claim connection client s)"
  by (simp add: loop_inv_def claim_def)

lemma claim_owner: "owner (claim connection client s) \<noteq> None"
  by (simp add: claim_def)

lemma stop_cores_inv: "loop_inv s \<Longrightarrow> loop_inv (stop_cores (traced p) s)"
  by (auto simp: stop_cores_def inv_cases)

lemma stop_everything_inv: "loop_inv s \<Longrightarrow> loop_inv (stop_everything (traced p) s)"
  by (auto simp: stop_everything_def stop_cores_def inv_cases)

lemma stopped_calls:
  "\<exists>t. calls (stop_everything (traced p) s) = EvStopAll # t"
  "owner (stop_everything (traced p) s) = None" "tun_on (stop_everything (traced p) s) = False"
  "prepared (stop_everything (traced p) s) = None" "failure (stop_everything (traced p) s) = None"
  by (simp_all add: stop_everything_def stop_cores_def Let_def split_beta)

lemma set_tun_inv: "loop_inv s \<Longrightarrow> loop_inv (snd (set_tun (traced p) on s))"
  by (auto simp: set_tun_def inv_cases is_ok_def split: sum.splits option.splits)

lemma prepare_generation_inv:
  "loop_inv s \<Longrightarrow> owner s \<noteq> None \<Longrightarrow> loop_inv (snd (prepare_generation (traced p) client g s))"
  by (auto simp: prepare_generation_def inv_cases is_ok_def split: sum.splits)

lemma prepare_inv:
  assumes "loop_inv s" "owner s \<noteq> None" shows "loop_inv (snd (prepare (traced p) client g s))"
proof -
  have "loop_inv (s\<lparr>world := (c, calls s)\<rparr>)" for c
    using assms by (simp add: loop_inv_def)
  with assms show ?thesis
    by (auto simp: prepare_def prepare_generation_inv split: option.splits prod.splits)
qed

lemma status_inv: "loop_inv s \<Longrightarrow> loop_inv (snd (status (traced p) s))"
  by (auto simp: status_def loop_inv_def split_beta)

lemma no_restart_yet: "\<not> MAX_CRASH_RESTARTS \<le> k \<longleftrightarrow> k = 0"
  by (simp add: MAX_CRASH_RESTARTS_def word_le_nat_alt unat_eq_0 not_le less_Suc_eq_le)

text \<open>The health check goes on with the tunnel forgotten; whether it was on is its argument.\<close>

definition tick_inv :: "bool \<Rightarrow> 'c traced service_loop \<Rightarrow> bool" where
  "tick_inv was_on s \<longleftrightarrow>
     loop_inv (s\<lparr>tun_on := was_on\<rparr>) \<and> \<not> tun_on s \<and> prepared s \<noteq> None \<and> failure s = None"

lemma give_up_inv: "tick_inv was_on s \<Longrightarrow> loop_inv (give_up (traced p) g what was_on s)"
  by (auto simp: tick_inv_def give_up_def inv_cases)

lemma restart_cores_inv:
  assumes "tick_inv was_on s" "crash_restarts s = 0"
  shows "loop_inv (restart_cores (traced p) g what was_on s)"
proof -
  have "owner s \<noteq> None" "prepared s \<noteq> None" "failure s = None" "\<not> tun_on s"
    "restarts (calls s) = 0" "begins_quiesced (calls s)"
    using assms by (auto simp: tick_inv_def loop_inv_def)
  then show ?thesis
    by (simp add: restart_cores_def log_restarted_def inv_cases assms(2) split: sum.split)
qed

lemma service_tick_inv:
  assumes "loop_inv s" shows "loop_inv (service_tick (traced p) s)"
proof -
  let ?s = "\<lambda>c. s\<lparr>world := (c, calls s), tun_on := False\<rparr>"
  have "tick_inv (tun_on s) (?s c)" if "prepared s \<noteq> None" "failure s = None" for c
    using assms that by (simp add: tick_inv_def loop_inv_def)
  moreover have "loop_inv (s\<lparr>world := (c, calls s)\<rparr>)" for c
    using assms by (simp add: loop_inv_def)
  ultimately show ?thesis
    using assms
    by (auto simp: service_tick_def Let_def no_restart_yet give_up_inv restart_cores_inv
        split: option.splits prod.splits)
qed

lemma client_gone_inv: "loop_inv s \<Longrightarrow> loop_inv (client_gone (traced p) c s)"
  by (simp add: client_gone_def Let_def stop_everything_inv split: option.split prod.split)

lemma start_update_inv: "loop_inv s \<Longrightarrow> loop_inv (snd (start_update client s))"
  by (auto simp: start_update_def loop_inv_def split: option.splits)

lemma download_inv:
  "loop_inv s \<Longrightarrow> loop_inv (snd (on_world (updater_prepare (traced_updater u) client v) s))"
  by (simp add: loop_inv_def split: prod.split)

lemma finish_update_inv:
  assumes "loop_inv s"
  shows "loop_inv (snd (finish_update (traced p) client v (traced_updater u) r s))"
proof -
  let ?s = "s\<lparr>updating := False\<rparr>" let ?t = "stop_everything (traced p) ?s"
  have "loop_inv ?t" by (rule stop_everything_inv) (use assms in \<open>simp add: loop_inv_def\<close>)
  moreover obtain t where "calls ?t = EvStopAll # t" using stopped_calls(1) by blast
  ultimately have "loop_inv (?t\<lparr>world := (c, EvBegin v b # calls ?t), updater := x\<rparr>)" for c b x
    by (auto simp: loop_inv_def)
  moreover have "loop_inv (?s\<lparr>updater := x\<rparr>)" for x using assms by (simp add: loop_inv_def)
  ultimately show ?thesis
    by (auto simp: finish_update_def Let_def split: sum.splits prod.splits)
qed

lemma finish_stage_inv: "loop_inv s \<Longrightarrow> loop_inv (snd (finish_stage v u r s))"
  by (simp add: finish_stage_def loop_inv_def)

lemma fixes_inv:
  "loop_inv s \<Longrightarrow> loop_inv (snd (start_troubleshoot client fixes s))"
  "loop_inv s \<Longrightarrow> loop_inv (snd (on_world (run_fixes (traced_fixer t) fixes) s))"
  "loop_inv s \<Longrightarrow> loop_inv (snd (finish_troubleshoot fixes outcomes s))"
  by (auto simp: start_troubleshoot_def finish_troubleshoot_def loop_inv_def split_beta
      split: option.splits)

end
