(* ===== verification/Service_Runs.thy ===== *)
theory Service_Runs
  imports Service_Lifecycle
begin

text \<open>
  The service under any interleaving: every step a connection thread, the health check or the
  platform can take of the shared loop, the runs they make up, and what holds in all of them.
\<close>

section \<open>Steps\<close>

text \<open>What a thread in the middle of \<open>execute_shared\<close> holds while it does not hold the lock.\<close>

record 'w pending_update =
  pu_client :: client_identity
  pu_version :: string
  pu_stage_only :: bool
  pu_updater :: "'w service_updater"
  pu_downloaded :: "(broker_error_code + unit) option"

record 'w pending_fixes =
  pf_client :: client_identity
  pf_fixes :: "privileged_fix list"
  pf_runner :: "'w fix_runner"
  pf_outcomes :: "fix_outcome list option"

record 'c server =
  loop :: "'c traced service_loop"
  downloads :: "'c traced pending_update list"
  batches :: "'c traced pending_fixes list"

datatype service_label =
    ByClient connection_id client_identity
  | HealthTick
  | ConnectionClosed connection_id
  | ServiceStops

definition finish_pending ::
    "'c platform \<Rightarrow> 'c traced pending_update \<Rightarrow> broker_error_code + unit \<Rightarrow> 'c traced service_loop
       \<Rightarrow> service_response \<times> 'c traced service_loop" where
  "finish_pending p d r s =
     (if pu_stage_only d then finish_stage (pu_version d) (pu_updater d) r s
      else finish_update (traced p) (pu_client d) (pu_version d) (pu_updater d) r s)"

inductive service_step :: "'c platform \<Rightarrow> service_label \<Rightarrow> 'c server \<Rightarrow> 'c server \<Rightarrow> bool" for p where
  Command: "\<not> in_phases cmd \<Longrightarrow>
    with_service_lock (traced p) (command_name cmd) timing (execute (traced p) conn client cmd) (loop v)
      = (r, s) \<Longrightarrow>
    service_step p (ByClient conn client) v (v\<lparr>loop := s\<rparr>)"
| UpdateRefused: "start_update client (loop v) = (Inl r, s) \<Longrightarrow>
    service_step p (ByClient conn client) v (v\<lparr>loop := s\<rparr>)"
| UpdateStarts: "start_update client (loop v) = (Inr u, s) \<Longrightarrow>
    service_step p (ByClient conn client) v
      (v\<lparr>loop := s,
         downloads := \<lparr>pu_client = client, pu_version = version, pu_stage_only = stage_only,
                       pu_updater = u, pu_downloaded = None\<rparr> # downloads v\<rparr>)"
| UpdateDownloads: "downloads v = xs @ d # ys \<Longrightarrow> pu_downloaded d = None \<Longrightarrow>
    on_world (updater_prepare (pu_updater d) (pu_client d) (pu_version d)) (loop v) = (r, s) \<Longrightarrow>
    service_step p (ByClient conn (pu_client d)) v
      (v\<lparr>loop := s, downloads := xs @ d\<lparr>pu_downloaded := Some r\<rparr> # ys\<rparr>)"
| UpdateEnds: "downloads v = xs @ d # ys \<Longrightarrow> pu_downloaded d = Some r \<Longrightarrow>
    finish_pending p d r (loop v) = (response, s) \<Longrightarrow>
    service_step p (ByClient conn (pu_client d)) v (v\<lparr>loop := s, downloads := xs @ ys\<rparr>)"
| FixesRefused: "start_troubleshoot client fixes (loop v) = (Inl r, s) \<Longrightarrow>
    service_step p (ByClient conn client) v (v\<lparr>loop := s\<rparr>)"
| FixesStart: "start_troubleshoot client fixes (loop v) = (Inr t, s) \<Longrightarrow>
    service_step p (ByClient conn client) v
      (v\<lparr>loop := s,
         batches := \<lparr>pf_client = client, pf_fixes = fixes, pf_runner = t, pf_outcomes = None\<rparr> # batches v\<rparr>)"
| FixesRun: "batches v = xs @ b # ys \<Longrightarrow> pf_outcomes b = None \<Longrightarrow>
    on_world (run_fixes (pf_runner b) (pf_fixes b)) (loop v) = (outcomes, s) \<Longrightarrow>
    service_step p (ByClient conn (pf_client b)) v
      (v\<lparr>loop := s, batches := xs @ b\<lparr>pf_outcomes := Some outcomes\<rparr> # ys\<rparr>)"
| FixesEnd: "batches v = xs @ b # ys \<Longrightarrow> pf_outcomes b = Some outcomes \<Longrightarrow>
    finish_troubleshoot (pf_fixes b) outcomes (loop v) = (response, s) \<Longrightarrow>
    service_step p (ByClient conn (pf_client b)) v (v\<lparr>loop := s, batches := xs @ ys\<rparr>)"
| Ticks: "with_service_lock (traced p) ''health tick'' timing (\<lambda>s. ((), service_tick (traced p) s)) (loop v)
      = (r, s) \<Longrightarrow>
    service_step p HealthTick v (v\<lparr>loop := s\<rparr>)"
| Closes: "connection_closed (traced p) timing conn unanswered (loop v) = s \<Longrightarrow>
    service_step p (ConnectionClosed conn) v (v\<lparr>loop := s\<rparr>)"
| Stops: "stop_everything (traced p) (loop v) = s \<Longrightarrow> service_step p ServiceStops v (v\<lparr>loop := s\<rparr>)"

definition start_server ::
    "'c \<Rightarrow> 'c service_updater option \<Rightarrow> 'c fix_runner option \<Rightarrow> string option \<Rightarrow> 'c server" where
  "start_server c u t d =
     \<lparr>loop = (case d of None \<Rightarrow> id | Some d \<Rightarrow> with_log_directory d)
        ((case t of None \<Rightarrow> id | Some t \<Rightarrow> with_troubleshooter (traced_fixer t))
           ((case u of None \<Rightarrow> id | Some u \<Rightarrow> with_updater (traced_updater u)) (service_loop_new (c, [])))),
      downloads = [], batches = []\<rparr>"

inductive service_run :: "'c platform \<Rightarrow> 'c server \<Rightarrow> bool" for p where
  Start: "service_run p (start_server c u t d)"
| Step: "service_run p v \<Longrightarrow> service_step p l v v' \<Longrightarrow> service_run p v'"

section \<open>The invariant of a run\<close>

definition updater_inv :: "'c server \<Rightarrow> bool" where
  "updater_inv v \<longleftrightarrow>
     (if updating (loop v)
      then (\<exists>d u. downloads v = [d] \<and> pu_updater d = traced_updater u) \<and> updater (loop v) = None
      else downloads v = [] \<and> (updater (loop v) = None \<or> (\<exists>u. updater (loop v) = Some (traced_updater u))))"

definition fixer_inv :: "'c server \<Rightarrow> bool" where
  "fixer_inv v \<longleftrightarrow>
     (if troubleshooting (loop v) then \<exists>b t. batches v = [b] \<and> pf_runner b = traced_fixer t
      else batches v = []) \<and>
     (fixer (loop v) = None \<or> (\<exists>t. fixer (loop v) = Some (traced_fixer t)))"

definition server_inv :: "'c server \<Rightarrow> bool" where
  "server_inv v \<longleftrightarrow> loop_inv (loop v) \<and> updater_inv v \<and> fixer_inv v"

section \<open>The fields that only the phases change\<close>

definition phases_of ::
    "'c traced service_loop \<Rightarrow> 'c traced service_updater option \<times> bool \<times> 'c traced fix_runner option \<times> bool"
  where "phases_of s = (updater s, updating s, fixer s, troubleshooting s)"

lemma phases_of_update [simp]:
  "phases_of (s\<lparr>world := w\<rparr>) = phases_of s" "phases_of (s\<lparr>owner := o'\<rparr>) = phases_of s"
  "phases_of (s\<lparr>prepared := g\<rparr>) = phases_of s" "phases_of (s\<lparr>tun_on := b\<rparr>) = phases_of s"
  "phases_of (s\<lparr>crash_restarts := k\<rparr>) = phases_of s" "phases_of (s\<lparr>failure := f\<rparr>) = phases_of s"
  "phases_of (service_log_line (traced p) l s) = phases_of s"
  by (simp_all add: phases_of_def)

lemma phases_of_stop [simp]:
  "phases_of (stop_cores (traced p) s) = phases_of s"
  "phases_of (stop_everything (traced p) s) = phases_of s"
  "phases_of (claim conn client s) = phases_of s"
  by (simp_all add: stop_everything_def stop_cores_def claim_def Let_def split_beta)

lemma phases_of_set_tun [simp]: "phases_of (snd (set_tun (traced p) on s)) = phases_of s"
  by (simp add: set_tun_def split_beta split: sum.split)

lemma phases_of_prepare [simp]:
  "phases_of (snd (prepare_generation (traced p) client g s)) = phases_of s"
  "phases_of (snd (prepare (traced p) client g s)) = phases_of s"
proof -
  show *: "phases_of (snd (prepare_generation (traced p) client g s)) = phases_of s" for s
    by (simp add: prepare_generation_def Let_def split_beta split: sum.split)
  show "phases_of (snd (prepare (traced p) client g s)) = phases_of s"
    by (simp add: prepare_def split_beta * split: option.split)
qed

lemma phases_of_status [simp]: "phases_of (snd (status (traced p) s)) = phases_of s"
  by (simp add: status_def split_beta)

lemma phases_of_tick [simp]: "phases_of (service_tick (traced p) s) = phases_of s"
proof -
  have "phases_of (give_up (traced p) g w b s) = phases_of s" for g w b s
    by (simp add: give_up_def Let_def split_beta)
  moreover have "phases_of (restart_cores (traced p) g w b s) = phases_of s" for g w b s
    by (simp add: restart_cores_def log_restarted_def Let_def split_beta split: sum.split)
  ultimately show ?thesis
    by (simp add: service_tick_def Let_def split_beta split: option.split)
qed

lemma phases_of_client_gone [simp]: "phases_of (client_gone (traced p) c s) = phases_of s"
  by (simp add: client_gone_def Let_def split: option.split prod.split)

lemma phases_of_execute:
  "\<not> in_phases cmd \<Longrightarrow> phases_of (snd (execute (traced p) conn client cmd s)) = phases_of s"
  by (cases cmd) (simp_all add: execute_def split_beta)

section \<open>The lock\<close>

lemma with_service_lock_snd:
  "snd (with_service_lock (traced p) what timing work s)
     = (case slow_lock_note what (fst timing) (snd timing) of
          Some note \<Rightarrow> service_log_line (traced p) note (snd (work s)) | None \<Rightarrow> snd (work s))"
  by (simp add: with_service_lock_def split_beta)

lemma with_service_lock_keeps [simp]:
  "loop_inv (snd (with_service_lock (traced p) what timing work s)) = loop_inv (snd (work s))"
  "phases_of (snd (with_service_lock (traced p) what timing work s)) = phases_of (snd (work s))"
  "same_session t (snd (with_service_lock (traced p) what timing work s)) = same_session t (snd (work s))"
  by (simp_all add: with_service_lock_snd same_session_def split: option.split)

lemma connection_closed_keeps [simp]:
  "loop_inv s \<Longrightarrow> loop_inv (connection_closed (traced p) timing conn unanswered s)"
  "phases_of (connection_closed (traced p) timing conn unanswered s) = phases_of s"
  by (auto simp: connection_closed_def client_gone_inv split: option.split)

lemma execute_inv:
  assumes "loop_inv s" "\<not> in_phases cmd"
  shows "loop_inv (snd (execute (traced p) conn client cmd s))"
proof -
  have "loop_inv (snd (on_world (cores_diagnostics (traced p)) s))"
    using assms(1) by (simp add: loop_inv_def split: prod.split)
  then show ?thesis
    using assms
    by (cases cmd)
      (simp_all add: execute_def claim_inv claim_owner prepare_inv set_tun_inv status_inv
        stop_cores_inv stop_everything_inv del: traced_calls)
qed

section \<open>Runs keep the invariant\<close>

lemma phases_frame:
  assumes "phases_of s = phases_of (loop v)"
  shows "updater_inv (v\<lparr>loop := s\<rparr>) = updater_inv v" "fixer_inv (v\<lparr>loop := s\<rparr>) = fixer_inv v"
  using assms by (simp_all add: phases_of_def updater_inv_def fixer_inv_def)

lemma server_inv_frame:
  "server_inv v \<Longrightarrow> loop_inv s \<Longrightarrow> phases_of s = phases_of (loop v) \<Longrightarrow> server_inv (v\<lparr>loop := s\<rparr>)"
  by (simp add: server_inv_def phases_frame)

lemma start_update_cases:
  assumes "start_update client s = (r, s')"
  obtains (refused) e where "r = Inl e" "s' = s"
  | (taken) u where "r = Inr u" "s' = s\<lparr>updater := None, updating := True\<rparr>"
      "\<not> updating s" "updater s = Some u" "\<not> owned_by_other client s"
  using assms by (auto simp: start_update_def split: if_splits option.splits)

lemma start_troubleshoot_cases:
  assumes "start_troubleshoot client fixes s = (r, s')"
  obtains (refused) e where "r = Inl e" "s' = s"
  | (marked) t where "r = Inr t" "s' = s\<lparr>troubleshooting := True\<rparr>" "\<not> troubleshooting s"
      "fixer s = Some t" "\<not> owned_by_other client s" "administrator client"
  using assms by (auto simp: start_troubleshoot_def split: if_splits option.splits)

lemma finish_pending_frame:
  assumes "finish_pending p d r s = (response, s')" "pu_updater d = traced_updater u"
  shows "updating s' = False" "updater s' = Some (traced_updater u)"
    "fixer s' = fixer s" "troubleshooting s' = troubleshooting s"
proof -
  have "phases_of (stop_everything (traced p) (s\<lparr>updating := False\<rparr>)) = phases_of (s\<lparr>updating := False\<rparr>)"
    by simp
  then show "updating s' = False" "updater s' = Some (traced_updater u)"
    "fixer s' = fixer s" "troubleshooting s' = troubleshooting s"
    using assms
    by (auto simp: finish_pending_def finish_stage_def finish_update_def Let_def phases_of_def
        split: if_splits sum.splits prod.splits)
qed

lemma finish_pending_inv:
  "loop_inv s \<Longrightarrow> pu_updater d = traced_updater u \<Longrightarrow> loop_inv (snd (finish_pending p d r s))"
  by (simp add: finish_pending_def finish_stage_inv finish_update_inv)

lemma single_split: "xs @ d # ys = [e] \<longleftrightarrow> xs = [] \<and> ys = [] \<and> d = e"
  by (auto simp: append_eq_Cons_conv)

lemma server_step_inv:
  assumes "service_step p l v v'" "server_inv v" shows "server_inv v'"
  using assms
proof (cases rule: service_step.cases)
  case (Command cmd timing conn client r s)
  then show ?thesis
    using assms(2) execute_inv[of "loop v" cmd p conn client] phases_of_execute[of cmd p conn client "loop v"]
      with_service_lock_keeps(1,2)[of p "command_name cmd" timing "execute (traced p) conn client cmd" "loop v"]
    by (auto simp: server_inv_def phases_frame)
next
  case (UpdateRefused client r s conn)
  then show ?thesis using assms(2) by (auto elim!: start_update_cases)
next
  case (UpdateStarts client u s conn version stage_only)
  have s: "s = (loop v)\<lparr>updater := None, updating := True\<rparr>" "\<not> updating (loop v)"
    "updater (loop v) = Some u"
    by (rule start_update_cases[OF UpdateStarts(3)]; simp)+
  then have "loop_inv s"
    using assms(2) start_update_inv[of "loop v" client] UpdateStarts(3) by (simp add: server_inv_def)
  then show ?thesis
    using assms(2) s(2,3) UpdateStarts(2)
    by (auto simp: server_inv_def updater_inv_def fixer_inv_def s(1))
next
  case (UpdateDownloads xs d ys r s conn)
  have u: "updating (loop v)" using UpdateDownloads assms(2)
    by (auto simp: server_inv_def updater_inv_def split: if_splits)
  then obtain u where "pu_updater d = traced_updater u" "xs = []" "ys = []"
    using UpdateDownloads assms(2) by (auto simp: server_inv_def updater_inv_def single_split)
  moreover from this have "loop_inv s" "phases_of s = phases_of (loop v)"
    using UpdateDownloads assms(2) download_inv[of "loop v" u "pu_client d" "pu_version d"]
    by (auto simp: server_inv_def split: prod.splits)
  ultimately show ?thesis
    using UpdateDownloads assms(2) u
    by (auto simp: server_inv_def updater_inv_def fixer_inv_def phases_of_def)
next
  case (UpdateEnds xs d ys r response s conn)
  then obtain u where u: "pu_updater d = traced_updater u" "xs = []" "ys = []"
    using assms(2) by (auto simp: server_inv_def updater_inv_def single_split split: if_splits)
  have "loop_inv s"
    using UpdateEnds(5) finish_pending_inv[of "loop v" d u p r] u assms(2) by (simp add: server_inv_def)
  then show ?thesis
    using UpdateEnds assms(2) u finish_pending_frame[OF UpdateEnds(5) u(1)]
    by (auto simp: server_inv_def updater_inv_def fixer_inv_def split: if_splits)
next
  case (FixesRefused client fs r s conn)
  then show ?thesis using assms(2) by (auto elim!: start_troubleshoot_cases)
next
  case (FixesStart client fs t s conn)
  have s: "s = (loop v)\<lparr>troubleshooting := True\<rparr>" "\<not> troubleshooting (loop v)" "fixer (loop v) = Some t"
    by (rule start_troubleshoot_cases[OF FixesStart(3)]; simp)+
  then have "loop_inv s"
    using assms(2) fixes_inv(1)[of "loop v" client fs] FixesStart(3) by (simp add: server_inv_def)
  then show ?thesis
    using assms(2) s(2,3) FixesStart(2)
    by (auto simp: server_inv_def updater_inv_def fixer_inv_def s(1))
next
  case (FixesRun xs b ys outcomes s conn)
  have m: "troubleshooting (loop v)" using FixesRun assms(2)
    by (auto simp: server_inv_def fixer_inv_def split: if_splits)
  then obtain t where "pf_runner b = traced_fixer t" "xs = []" "ys = []"
    using FixesRun assms(2) by (auto simp: server_inv_def fixer_inv_def single_split)
  moreover from this have "loop_inv s" "phases_of s = phases_of (loop v)"
    using FixesRun assms(2) fixes_inv(2)[of "loop v" t "pf_fixes b"]
    by (auto simp: server_inv_def split: prod.splits)
  ultimately show ?thesis
    using FixesRun assms(2) m
    by (auto simp: server_inv_def updater_inv_def fixer_inv_def phases_of_def)
next
  case (FixesEnd xs b ys outcomes response s conn)
  then have "loop_inv s" "s = (loop v)\<lparr>troubleshooting := False\<rparr>"
    using assms(2) fixes_inv(3)[of "loop v" "pf_fixes b" outcomes]
    by (auto simp: server_inv_def finish_troubleshoot_def)
  then show ?thesis
    using FixesEnd(2,3) assms(2)
    by (auto simp: server_inv_def updater_inv_def fixer_inv_def single_split split: if_splits)
next
  case (Ticks timing r s)
  then show ?thesis
    using assms(2) service_tick_inv[of "loop v" p]
      with_service_lock_keeps(1,2)[of p "''health tick''" timing "\<lambda>s. ((), service_tick (traced p) s)" "loop v"]
    by (auto simp: server_inv_def phases_frame)
next
  case (Closes timing conn unanswered s)
  then show ?thesis using assms(2) by (auto simp: server_inv_def phases_frame)
next
  case (Stops s)
  then show ?thesis
    using assms(2) stop_everything_inv[of "loop v" p]
    by (auto simp: server_inv_def phases_frame)
qed

lemma start_server_inv: "server_inv (start_server c u t d)"
  by (auto simp: start_server_def service_loop_new_def with_updater_def with_troubleshooter_def
      with_log_directory_def server_inv_def loop_inv_def updater_inv_def fixer_inv_def
      split: option.split)

lemma service_run_inv: "service_run p v \<Longrightarrow> server_inv v"
  by (induction rule: service_run.induct) (auto intro: start_server_inv server_step_inv)

lemma single_download:
  assumes "server_inv v" "downloads v = xs @ d # ys"
  obtains u where "pu_updater d = traced_updater u" "updating (loop v)"
  using assms by (auto simp: server_inv_def updater_inv_def single_split split: if_splits)

lemma single_batch:
  assumes "server_inv v" "batches v = xs @ b # ys"
  obtains t where "pf_runner b = traced_fixer t" "troubleshooting (loop v)"
  using assms by (auto simp: server_inv_def fixer_inv_def single_split split: if_splits)

section \<open>What holds in every run\<close>

lemma begins_quiesced_split:
  "begins_quiesced (xs @ EvBegin version answered # ys) \<Longrightarrow> \<not> cores_up ys \<and> tunnel ys = TunnelOff"
  by (induction xs rule: begins_quiesced.induct) auto

text \<open>
  C3. In every run of the service, whatever its clients and cores do: the service reports the tunnel
  as on only for prepared, unfailed cores whose tunnel it was not told to be off; the tunnel is on
  or in doubt behind its back only after a switch on and its rollback both failed; without an owner
  no core runs and the tunnel is off; a prepared generation was restarted at most once; and an
  updater was only ever started with no core running and the tunnel off.
\<close>

theorem service_run_safe:
  assumes "service_run p v"
  shows "(tun_on (loop v) \<longrightarrow>
            tunnel (calls (loop v)) \<noteq> TunnelOff \<and> prepared (loop v) \<noteq> None \<and> failure (loop v) = None) \<and>
         (tunnel (calls (loop v)) \<noteq> TunnelOff \<longrightarrow> tun_on (loop v) \<or> rollback_failed (calls (loop v))) \<and>
         (owner (loop v) = None \<longrightarrow> \<not> cores_up (calls (loop v)) \<and> prepared (loop v) = None) \<and>
         restarts (calls (loop v)) \<le> 1 \<and>
         (\<forall>xs version answered ys. calls (loop v) = xs @ EvBegin version answered # ys \<longrightarrow>
            \<not> cores_up ys \<and> tunnel ys = TunnelOff)"
proof -
  have "loop_inv (loop v)" using service_run_inv[OF assms] by (simp add: server_inv_def)
  then show ?thesis
    unfolding loop_inv_def by (metis begins_quiesced_split)
qed

text \<open>Who has no say: another user than the owner, and a connection that is not the owner's.\<close>

definition outsider :: "service_label \<Rightarrow> 'w service_loop \<Rightarrow> bool" where
  "outsider l s =
     (case l of
        ByClient conn client \<Rightarrow> owned_by_other client s
      | ConnectionClosed conn \<Rightarrow> (case owner s of None \<Rightarrow> True | Some o' \<Rightarrow> owner_connection o' \<noteq> conn)
      | _ \<Rightarrow> False)"

lemma same_session_intros:
  "same_session s s" "same_session s (s\<lparr>world := (c, calls s)\<rparr>)"
  "same_session s (s\<lparr>world := (c, EvDownload version b # calls s)\<rparr>)"
  "same_session s (s\<lparr>world := (c, EvFixes fs # calls s)\<rparr>)"
  "same_session s (s\<lparr>updating := b\<rparr>)" "same_session s (s\<lparr>updating := b, updater := u\<rparr>)"
  "same_session s (s\<lparr>troubleshooting := b\<rparr>)" "same_session s (service_log_line (traced p) l s)"
  by (simp_all add: same_session_def)

lemma owned_by_other_update [simp]:
  "owned_by_other client (s\<lparr>updating := b\<rparr>) = owned_by_other client s"
  by (simp add: owned_by_other_def)

lemma finish_pending_busy:
  "owned_by_other (pu_client d) s \<Longrightarrow> same_session s (snd (finish_pending p d r s))"
  by (simp add: finish_pending_def finish_stage_def finish_update_def Let_def same_session_intros
      split: sum.split)

lemma closed_outsider:
  assumes "outsider (ConnectionClosed conn) s"
  shows "same_session s (connection_closed (traced p) timing conn unanswered s)"
proof -
  have "client_gone (traced p) conn s' = s'" if "owner s' = owner s" for s' :: "'a traced service_loop"
    using assms that by (simp add: outsider_def client_gone_def split: option.splits)
  then show ?thesis
    by (auto simp: connection_closed_def same_session_intros split: option.split)
qed

text \<open>
  C6. While a user owns the cores, no step of another user, and no closing of a connection that is
  not the owner's, changes the session: owner, prepared generation, tunnel, crash count and failure
  stay, and no call that concerns the cores is made.
\<close>

theorem service_isolated:
  assumes "service_run p v" "service_step p l v v'" "outsider l (loop v)"
  shows "same_session (loop v) (loop v')"
  using assms(2)
proof (cases rule: service_step.cases)
  case (Command cmd timing conn client r s)
  then have "same_session (loop v) (snd (execute (traced p) conn client cmd (loop v)))"
    using assms(3) by (simp add: outsider_def execute_def same_session_intros)
  then show ?thesis
    using Command with_service_lock_keeps(3)[of "loop v" p "command_name cmd" timing
        "execute (traced p) conn client cmd" "loop v"] by simp
next
  case (UpdateStarts client u s conn version stage_only)
  from UpdateStarts(1,3) assms(3) show ?thesis by (simp add: outsider_def start_update_def)
next
  case (UpdateDownloads xs d ys r s conn)
  obtain u where "pu_updater d = traced_updater u"
    using single_download[OF service_run_inv[OF assms(1)] UpdateDownloads(3)] by blast
  then have "same_session (loop v) s"
    using UpdateDownloads(5) by (auto simp: same_session_intros split: prod.splits)
  then show ?thesis by (simp add: UpdateDownloads(2))
next
  case (UpdateEnds xs d ys r response s conn)
  then show ?thesis
    using finish_pending_busy[of d "loop v" p r] assms(3) by (simp add: outsider_def)
next
  case (FixesStart client fs t s conn)
  from FixesStart(1,3) assms(3) show ?thesis by (simp add: outsider_def start_troubleshoot_def)
next
  case (FixesRun xs b ys outcomes s conn)
  obtain t where "pf_runner b = traced_fixer t"
    using single_batch[OF service_run_inv[OF assms(1)] FixesRun(3)] by blast
  then have "same_session (loop v) s"
    using FixesRun(5) by (auto simp: same_session_intros split: prod.splits)
  then show ?thesis by (simp add: FixesRun(2))
next
  case (Closes timing conn unanswered s)
  then show ?thesis using assms(3) closed_outsider[of conn "loop v" p timing unanswered] by simp
qed (use assms(3) in \<open>auto simp: outsider_def same_session_intros finish_troubleshoot_def
      start_update_def start_troubleshoot_def\<close>)

section \<open>Crashes\<close>

lemma restarted_already: "MAX_CRASH_RESTARTS \<le> k \<longleftrightarrow> k \<noteq> 0"
  using no_restart_yet by blast

lemma restart_cores_result:
  fixes s :: "'c traced service_loop" and p :: "'c platform" and g what was_on
  assumes "failure s = None" "\<not> tun_on s"
  defines "s' \<equiv> restart_cores (traced p) g what was_on s"
  shows "if was_on
         then calls s' = EvSetTun True True # EvRestart True # calls s \<and> tun_on s' \<and> failure s' = None \<or>
              (\<exists>rolled_back. calls s' = EvSetTun False rolled_back # EvSetTun True False # EvRestart True # calls s) \<and>
                \<not> tun_on s' \<and> failure s' \<noteq> None \<or>
              calls s' = EvStopAll # EvRestart False # calls s \<and> \<not> tun_on s' \<and> failure s' \<noteq> None
         else calls s' = EvRestart True # calls s \<and> \<not> tun_on s' \<and> failure s' = None \<or>
              calls s' = EvStopAll # EvRestart False # calls s \<and> \<not> tun_on s' \<and> failure s' \<noteq> None"
  unfolding s'_def using assms(1,2)
  by (simp add: restart_cores_def log_restarted_def Let_def split_beta split: sum.split)

lemma give_up_result:
  fixes s :: "'c traced service_loop" and p :: "'c platform" and g what was_on
  assumes "\<not> tun_on s"
  defines "s' \<equiv> give_up (traced p) g what was_on s"
  shows "\<not> tun_on s' \<and> failure s' = Some NotReady \<and>
         (if was_on then \<exists>answered. calls s' = EvStopAll # EvSetTun False answered # calls s
          else calls s' = EvStopAll # calls s)"
  unfolding s'_def using assms(1) by (simp add: give_up_def Let_def split_beta)

text \<open>
  C26. A crashed core is restarted once per prepared generation, together with the tunnel; when the
  restart or the tunnel fails the failure is kept, and at the second crash both cores are stopped,
  the tunnel is off and the service is not ready. Kept failures make every later check do nothing.
\<close>

theorem crash_handling:
  fixes s :: "'c traced service_loop" and p :: "'c platform"
  assumes "prepared s = Some (g, e)" "failure s = None"
    "\<not> health_all (fst (cores_health p (fst (world s))))"
  defines "s' \<equiv> service_tick (traced p) s"
  shows "(case (crash_restarts s = 0, tun_on s) of
            (True, True) \<Rightarrow>
              calls s' = EvSetTun True True # EvRestart True # calls s \<and> tun_on s' \<and> failure s' = None \<or>
              (\<exists>rolled_back. calls s' = EvSetTun False rolled_back # EvSetTun True False # EvRestart True # calls s) \<and>
                \<not> tun_on s' \<and> failure s' \<noteq> None \<or>
              calls s' = EvStopAll # EvRestart False # calls s \<and> \<not> tun_on s' \<and> failure s' \<noteq> None
          | (True, False) \<Rightarrow>
              calls s' = EvRestart True # calls s \<and> \<not> tun_on s' \<and> failure s' = None \<or>
              calls s' = EvStopAll # EvRestart False # calls s \<and> \<not> tun_on s' \<and> failure s' \<noteq> None
          | (False, True) \<Rightarrow>
              (\<exists>answered. calls s' = EvStopAll # EvSetTun False answered # calls s) \<and>
                \<not> tun_on s' \<and> failure s' = Some NotReady
          | (False, False) \<Rightarrow>
              calls s' = EvStopAll # calls s \<and> \<not> tun_on s' \<and> failure s' = Some NotReady) \<and>
         (failure s' \<noteq> None \<longrightarrow> service_tick (traced p) s' = s' \<and>
            (\<forall>on. set_tun (traced p) on s' = (ServiceError NotReady, s')))"
proof -
  obtain h c where h: "cores_health p (fst (world s)) = (h, c)" "\<not> health_all h"
    using assms(3) by (metis fst_conv surj_pair)
  obtain exits c' where ex: "cores_exits p c = (exits, c')" by (metis surj_pair)
  define s1 where "s1 = s\<lparr>world := (c', calls s), tun_on := False\<rparr>"
  have s': "s' = (if crash_restarts s = 0 then restart_cores (traced p) g (what_failed h exits) (tun_on s) s1
                  else give_up (traced p) g (what_failed h exits) (tun_on s) s1)"
    by (simp add: s'_def service_tick_def assms(1,2) h ex Let_def restarted_already s1_def)
  have s1: "calls s1 = calls s" "tun_on s1 = False" "failure s1 = None" "crash_restarts s1 = crash_restarts s"
    by (simp_all add: s1_def assms(2))
  have still: "failure s' \<noteq> None \<longrightarrow> service_tick (traced p) s' = s' \<and>
            (\<forall>on. set_tun (traced p) on s' = (ServiceError NotReady, s'))"
    by (simp add: service_tick_def set_tun_def split: option.split)
  show ?thesis
  proof (cases "crash_restarts s = 0")
    case True
    then have "s' = restart_cores (traced p) g (what_failed h exits) (tun_on s) s1" using s' by simp
    with restart_cores_result[where s = s1 and p = p and g = g and what = "what_failed h exits" and was_on = "tun_on s"] s1 True show ?thesis
      by (intro conjI still) (cases "tun_on s"; simp)
  next
    case False
    then have "s' = give_up (traced p) g (what_failed h exits) (tun_on s) s1" using s' by simp
    with give_up_result[where s = s1 and p = p and g = g and what = "what_failed h exits" and was_on = "tun_on s"] s1 False show ?thesis
      by (intro conjI still) (cases "tun_on s"; simp)
  qed
qed

section \<open>A sample service\<close>

lemma run_command:
  assumes "service_run p v" "\<not> in_phases cmd"
  shows "service_run p (v\<lparr>loop := snd (execute (traced p) conn client cmd (loop v))\<rparr>)"
proof -
  have "with_service_lock (traced p) (command_name cmd) (0, 0) (execute (traced p) conn client cmd) (loop v)
      = (fst (execute (traced p) conn client cmd (loop v)), snd (execute (traced p) conn client cmd (loop v)))"
    by (simp add: with_service_lock_def slow_lock_note_def SLOW_LOCK_WAIT_def SLOW_LOCK_HOLD_def split_beta)
  from service_run.Step[OF assms(1) service_step.Command[OF assms(2) this]] show ?thesis .
qed

definition sample_client :: "string \<Rightarrow> client_identity" where
  "sample_client name = \<lparr>user_key = name, data_root = ''/home'', uid = 1000, administrator = False\<rparr>"

definition sample_platform :: "(bool \<Rightarrow> broker_error_code + unit) \<Rightarrow> core_health \<Rightarrow> unit platform" where
  "sample_platform switch health =
     \<lparr>cores_prepare = (\<lambda>_ _ c. (Inr \<lparr>port = 9090, secret = ''t'', mixed_port_of = 0\<rparr>, c)),
      cores_restart = (\<lambda>c. (Inr (), c)), cores_set_tun = (\<lambda>on c. (switch on, c)),
      cores_tun_is_on = (\<lambda>c. (None, c)), cores_health = (\<lambda>c. (health, c)),
      cores_exits = (\<lambda>c. ([''xray exited''], c)), cores_stop_all = id,
      cores_diagnostics = (\<lambda>c. (Busy, c)), log_append = (\<lambda>_ _ c. c),
      log_chunk = (\<lambda>_ _ _ _. Busy), journal_page = (\<lambda>_ _ _ _ _. Busy), elapsed_ms = (\<lambda>_. 7)\<rparr>"

definition sample_prepared :: "unit platform \<Rightarrow> unit server" where
  "sample_prepared p =
     (let v = start_server () None None None
      in v\<lparr>loop := snd (execute (traced p) 1 (sample_client ''alice'') (Prepare 7) (loop v))\<rparr>)"

definition sample_connected :: "unit platform \<Rightarrow> unit server" where
  "sample_connected p =
     (let v = sample_prepared p
      in v\<lparr>loop := snd (execute (traced p) 1 (sample_client ''alice'') (SetTun True) (loop v))\<rparr>)"

lemma sample_runs: "service_run p (sample_prepared p)" "service_run p (sample_connected p)"
proof -
  show prepared_run: "service_run p (sample_prepared p)"
    unfolding sample_prepared_def Let_def by (rule run_command[OF service_run.Start]) simp
  show "service_run p (sample_connected p)"
    unfolding sample_connected_def Let_def by (rule run_command[OF prepared_run]) simp
qed

lemmas service_eval =
  sample_prepared_def sample_connected_def sample_platform_def sample_client_def start_server_def
  service_loop_new_def execute_def prepare_def prepare_generation_def set_tun_def claim_def
  owned_by_other_def Let_def

abbreviation healthy :: core_health where
  "healthy \<equiv> \<lparr>xray_runs = True, mihomo_runs = True\<rparr>"

theorem service_run_safe_witness:
  "tun_on (loop (sample_connected (sample_platform (\<lambda>_. Inr ()) healthy))) \<and>
   tunnel (calls (loop (sample_connected (sample_platform (\<lambda>_. Inr ()) healthy)))) = TunnelOn"
proof -
  let ?v = "sample_connected (sample_platform (\<lambda>_. Inr ()) healthy)"
  have "tun_on (loop ?v)" by (simp add: service_eval)
  moreover have "tunnel (calls (loop ?v)) \<noteq> TunnelUnknown" by (simp add: service_eval)
  ultimately show ?thesis
    using service_run_safe[OF sample_runs(2)[of "sample_platform (\<lambda>_. Inr ()) healthy"]]
    by (metis tunnel_state.exhaust)
qed

theorem service_isolated_witness:
  "\<exists>s. service_step (sample_platform (\<lambda>_. Inr ()) healthy) (ByClient 2 (sample_client ''bob''))
         (sample_connected (sample_platform (\<lambda>_. Inr ()) healthy)) s \<and> tun_on (loop s)"
proof -
  let ?p = "sample_platform (\<lambda>_. Inr ()) healthy" let ?v = "sample_connected ?p"
  have refused: "start_update (sample_client ''bob'') (loop ?v) = (Inl Busy, loop ?v)"
    and on: "tun_on (loop ?v)"
    by (simp_all add: service_eval start_update_def)
  have step: "service_step ?p (ByClient 2 (sample_client ''bob'')) ?v (?v\<lparr>loop := loop ?v\<rparr>)"
    by (rule service_step.UpdateRefused[OF refused])
  have "outsider (ByClient 2 (sample_client ''bob'')) (loop ?v)"
    by (simp add: outsider_def service_eval)
  from service_isolated[OF sample_runs(2) step this] step on show ?thesis
    unfolding same_session_def by metis
qed

theorem crash_handling_witness:
  "let p = sample_platform (\<lambda>_. Inr ()) \<lparr>xray_runs = False, mihomo_runs = True\<rparr>;
       s = loop (sample_connected p); t = service_tick (traced p) s
   in calls t = EvSetTun True True # EvRestart True # calls s \<and> failure (service_tick (traced p) t) \<noteq> None"
proof -
  let ?p = "sample_platform (\<lambda>_. Inr ()) \<lparr>xray_runs = False, mihomo_runs = True\<rparr>"
  let ?s = "loop (sample_connected ?p)" let ?t = "service_tick (traced ?p) ?s"
  have s: "\<exists>g e. prepared ?s = Some (g, e)" "failure ?s = None" "crash_restarts ?s = 0" "tun_on ?s"
    by (simp_all add: service_eval)
  have sick: "\<not> health_all (fst (cores_health ?p c))" for c
    by (simp add: sample_platform_def health_all_def)
  obtain g e where g: "prepared ?s = Some (g, e)" using s(1) by blast
  have c: "calls ?t = EvSetTun True True # EvRestart True # calls ?s"
    using crash_handling[OF g s(2) sick] s(3,4)
    by (auto simp: service_tick_def service_eval restart_cores_def log_restarted_def MAX_CRASH_RESTARTS_def
        health_all_def service_log_line_def)
  have "\<exists>g e. prepared ?t = Some (g, e)" "failure ?t = None" "crash_restarts ?t = 1"
    by (simp_all add: service_tick_def service_eval restart_cores_def log_restarted_def
        MAX_CRASH_RESTARTS_def health_all_def service_log_line_def)
  then have "failure (service_tick (traced ?p) ?t) \<noteq> None"
    using crash_handling[of ?t _ _ ?p] sick by (auto split: bool.splits)
  with c show ?thesis by (simp add: Let_def)
qed

text \<open>A switch off of a tunnel believed to be off only renews the claim.\<close>

lemma execute_switch_off:
  assumes "prepared s \<noteq> None" "failure s = None" "\<not> tun_on s" "\<not> owned_by_other client s"
  shows "execute (traced p) conn client (SetTun False) s = (TunState False, claim conn client s)"
  using assms by (simp add: execute_def set_tun_def claim_def)

definition switch_offs ::
    "'c platform \<Rightarrow> client_identity \<Rightarrow> connection_id list \<Rightarrow> 'c traced service_loop \<Rightarrow> 'c traced service_loop"
  where
  "switch_offs p client conns s =
     fold (\<lambda>conn s. snd (execute (traced p) conn client (SetTun False) s)) conns s"

lemma switch_offs_keep:
  fixes p :: "'c platform" and conns :: "connection_id list"
  assumes "prepared s \<noteq> None" "failure s = None" "\<not> tun_on s" "\<not> owned_by_other client s"
  defines "t \<equiv> switch_offs p client conns s"
  shows "world t = world s \<and> prepared t = prepared s \<and> failure t = None \<and> \<not> tun_on t
    \<and> \<not> owned_by_other client t"
  using assms(1-4) unfolding t_def
proof (induction conns arbitrary: s)
  case (Cons conn conns)
  have "prepared (claim conn client s) \<noteq> None" "failure (claim conn client s) = None"
    "\<not> tun_on (claim conn client s)" "\<not> owned_by_other client (claim conn client s)"
    using Cons.prems by (simp_all add: claim_def owned_by_other_def)
  from Cons.IH [OF this] Cons.prems show ?case
    by (simp add: switch_offs_def execute_switch_off) (simp add: claim_def)
qed (simp add: switch_offs_def)

text \<open>
  C27. Whenever, with prepared and unfailed cores and the tunnel off, the owner's switch on and its
  rollback both fail, the tunnel may be up but the service reports it as off, with no failure kept.
  It never retries on the owner's demand: however often the owner then switches off, each time the
  answer is that the tunnel is off, and no call to the cores is made.
\<close>

theorem failed_rollback_hides_tunnel:
  assumes "service_run p v" "prepared (loop v) \<noteq> None" "failure (loop v) = None" "\<not> tun_on (loop v)"
    and "\<not> owned_by_other client (loop v)"
    and "cores_set_tun p True (fst (world (loop v))) = (Inl e, c1)"
    and "cores_set_tun p False c1 = (Inl e', c2)"
    and "execute (traced p) conn client (SetTun True) (loop v) = (r, s)"
    and "t = switch_offs p client conns s"
  shows "r = ServiceError e \<and> service_run p (v\<lparr>loop := s\<rparr>) \<and> tunnel (calls s) = TunnelUnknown
    \<and> \<not> tun_on s \<and> failure s = None
    \<and> world t = world s \<and> tunnel (calls t) = TunnelUnknown \<and> failure t = None
    \<and> fst (execute (traced p) conn' client (SetTun False) t) = TunState False"
proof -
  have run: "r = ServiceError e" "world s = (c2, EvSetTun False False # EvSetTun True False # calls (loop v))"
    "prepared s = prepared (loop v)" "failure s = None" "\<not> tun_on s" "\<not> owned_by_other client s"
    using assms(2-8)
    by (auto simp: execute_def set_tun_def claim_def owned_by_other_def)
  then have off: "world t = world s" "prepared t \<noteq> None" "failure t = None" "\<not> tun_on t"
    "\<not> owned_by_other client t"
    using switch_offs_keep [of s client p conns] assms(2,9) by auto
  have "service_run p (v\<lparr>loop := s\<rparr>)"
    using run_command [OF assms(1), of "SetTun True" conn client] assms(8) by simp
  with run off execute_switch_off [OF off(2-5), of p conn'] show ?thesis by simp
qed

theorem failed_rollback_hides_tunnel_witness:
  "\<exists>s. service_run (sample_platform (\<lambda>_. Inl TimedOut) healthy) s \<and> tunnel (calls (loop s)) = TunnelUnknown
     \<and> \<not> tun_on (loop s)"
proof -
  let ?p = "sample_platform (\<lambda>_. Inl TimedOut) healthy"
  let ?v = "sample_prepared ?p"
  obtain r s where s: "execute (traced ?p) 1 (sample_client ''alice'') (SetTun True) (loop ?v) = (r, s)"
    by fastforce
  have "prepared (loop ?v) \<noteq> None" "failure (loop ?v) = None" "\<not> tun_on (loop ?v)"
    "\<not> owned_by_other (sample_client ''alice'') (loop ?v)"
    "cores_set_tun ?p True (fst (world (loop ?v))) = (Inl TimedOut, fst (world (loop ?v)))"
    "cores_set_tun ?p False (fst (world (loop ?v))) = (Inl TimedOut, fst (world (loop ?v)))"
    by (simp_all add: service_eval)
  from failed_rollback_hides_tunnel [OF sample_runs(1) this s refl, of "[2, 3]" 4]
  show ?thesis by (intro exI [of _ "?v\<lparr>loop := s\<rparr>"]) simp
qed

end
