(* ===== verification/Http_Request.thy ===== *)
theory Http_Request
  imports Ip_Addr Elevation_Protocol
begin

text \<open>
  The HTTP half of \<open>service/controller_proxy.rs\<close>: reading a request head and a body from a stream
  that arrives in pieces, parsing the head, decoding the path, and presenting a secret.
\<close>

section \<open>Reading a head and a body\<close>

definition MAX_HEAD_BYTES :: nat where
  "MAX_HEAD_BYTES = 16 * 1024"

definition MAX_BODY_BYTES :: nat where
  "MAX_BODY_BYTES = 64 * 1024"

definition CR :: char where "CR = CHR 0x0D"
definition LF :: char where "LF = CHR 0x0A"
definition CRLF :: string where "CRLF = [CR, LF]"

text \<open>The first blank line: what comes before it and what comes after.\<close>

fun split_blank :: "string \<Rightarrow> (string \<times> string) option" where
  "split_blank [] = None"
| "split_blank (c # s) =
     (case strip_prefix (CRLF @ CRLF) (c # s) of
        Some r \<Rightarrow> Some ([], r)
      | None \<Rightarrow> map_option (\<lambda>(h, r). (c # h, r)) (split_blank s))"

function read_head :: "string \<Rightarrow> stream \<Rightarrow> (string \<times> string) option io_result \<times> stream" where
  "read_head data s =
     (case split_blank data of
        Some (head, rest) \<Rightarrow> (IoDone (Some (head, rest)), s)
      | None \<Rightarrow>
          if length data > MAX_HEAD_BYTES then (IoDone None, s)
          else (case read_some 4096 s of
                  (IoFail, s') \<Rightarrow> (IoFail, s')
                | (IoDone d, s') \<Rightarrow> if d = [] then (IoDone None, s') else read_head (data @ d) s'))"
  by pat_completeness auto
termination
  by (relation "measure (\<lambda>(data, s). stream_size s)") (auto intro: read_some_shrinks[OF sym])

function read_body_loop :: "nat \<Rightarrow> string \<Rightarrow> stream \<Rightarrow> string io_result \<times> stream" where
  "read_body_loop n body s =
     (if length body \<ge> n then (IoDone body, s)
      else case read_some (min (n - length body) 4096) s of
             (IoFail, s') \<Rightarrow> (IoFail, s')
           | (IoDone d, s') \<Rightarrow> if d = [] then (IoFail, s') else read_body_loop n (body @ d) s')"
  by pat_completeness auto
termination
  by (relation "measure (\<lambda>(n, body, s). stream_size s)") (auto intro: read_some_shrinks[OF sym])

declare read_head.simps [simp del] read_body_loop.simps [simp del]

text \<open>The body and what is left of the bytes read past the head.\<close>

definition read_body :: "nat \<Rightarrow> string \<Rightarrow> stream \<Rightarrow> (string \<times> string) io_result \<times> stream" where
  "read_body n rest s =
     (case read_body_loop n (take n rest) s of
        (IoFail, s') \<Rightarrow> (IoFail, s')
      | (IoDone body, s') \<Rightarrow> (IoDone (body, drop n rest), s'))"

section \<open>Parsing the head\<close>

record request =
  req_method :: string
  path :: string
  query :: "string option"
  headers :: "(string \<times> string) list"

fun split_crlf :: "string \<Rightarrow> string list" where
  "split_crlf [] = [[]]"
| "split_crlf (c # s) =
     (case s of
        [] \<Rightarrow> [[c]]
      | d # t \<Rightarrow>
          if c = CR \<and> d = LF then [] # split_crlf t
          else case split_crlf s of [] \<Rightarrow> [[c]] | p # ps \<Rightarrow> (c # p) # ps)"

definition is_upper :: "char \<Rightarrow> bool" where
  "is_upper c \<longleftrightarrow> 65 \<le> byte c \<and> byte c \<le> 90"

definition name_char :: "char \<Rightarrow> bool" where
  "name_char c \<longleftrightarrow> is_ascii_alphanumeric c \<or> c \<in> set ''!#$%&'' \<or> byte c = 39 \<or> c \<in> set ''*+-.^_`|~''"

definition trim_blanks :: "string \<Rightarrow> string" where
  "trim_blanks s =
     (let blank = (\<lambda>c. byte c = 32 \<or> byte c = 9) in rev (dropWhile blank (rev (dropWhile blank s))))"

definition parse_header :: "string \<Rightarrow> (string \<times> string) option" where
  "parse_header line =
     (case split_once CHR '':'' line of
        None \<Rightarrow> None
      | Some (name, v) \<Rightarrow>
          if name = [] \<or> \<not> list_all name_char name then None
          else let v = trim_blanks v
               in if list_ex (\<lambda>c. is_ascii_control c \<and> byte c \<noteq> 9) v then None else Some (name, v))"

fun parse_headers :: "string list \<Rightarrow> (string \<times> string) list option" where
  "parse_headers [] = Some []"
| "parse_headers (l # ls) =
     (case parse_header l of
        None \<Rightarrow> None
      | Some h \<Rightarrow> map_option ((#) h) (parse_headers ls))"

definition parse_head :: "string \<Rightarrow> request option" where
  "parse_head head =
     (case split_crlf head of
        [] \<Rightarrow> None
      | first # rest \<Rightarrow>
          (case split_on CHR '' '' first of
             [m, target, version] \<Rightarrow>
               if m = [] \<or> \<not> list_all is_upper m \<or> version \<notin> {''HTTP/1.1'', ''HTTP/1.0''} then None
               else (case (case split_once CHR ''?'' target of
                             Some (p, q) \<Rightarrow> (p, Some q) | None \<Rightarrow> (target, None)) of
                       (p, q) \<Rightarrow>
                         map_option (\<lambda>hs. \<lparr>req_method = m, path = p, query = q, headers = hs\<rparr>)
                           (parse_headers rest))
           | _ \<Rightarrow> None))"

definition request_header :: "request \<Rightarrow> string \<Rightarrow> string option" where
  "request_header r name = map_option snd (find (\<lambda>h. eq_ignore_ascii_case (fst h) name) (headers r))"

definition header_count :: "request \<Rightarrow> string \<Rightarrow> nat" where
  "header_count r name = length (filter (\<lambda>h. eq_ignore_ascii_case (fst h) name) (headers r))"

section \<open>Presenting the secret\<close>

definition as_bytes :: "string \<Rightarrow> u8 list" where
  "as_bytes s = map (\<lambda>c. of_nat (byte c)) s"

definition same_secret :: "string \<Rightarrow> string \<Rightarrow> bool" where
  "same_secret presented expected \<longleftrightarrow>
     length presented = length expected \<and>
     foldl (\<lambda>acc (left, right). acc OR (left XOR right)) (0::u8)
       (zip (as_bytes presented) (as_bytes expected)) = 0"

definition authorised :: "request \<Rightarrow> string \<Rightarrow> bool" where
  "authorised r token \<longleftrightarrow>
     (case Option.bind (request_header r ''authorization'') (split_once CHR '' '') of
        None \<Rightarrow> False
      | Some (scheme, presented) \<Rightarrow>
          eq_ignore_ascii_case scheme ''bearer'' \<and> same_secret (trim presented) token) \<or>
     (case query r of
        None \<Rightarrow> False
      | Some q \<Rightarrow>
          list_ex (\<lambda>pair. case strip_prefix ''token='' pair of
                            None \<Rightarrow> False | Some presented \<Rightarrow> same_secret presented token)
            (split_on CHR ''&'' q))"

section \<open>Query and path\<close>

definition printable :: "char \<Rightarrow> bool" where
  "printable c \<longleftrightarrow> 0x21 \<le> byte c \<and> byte c \<le> 0x7e"

definition forwarded_query :: "string option \<Rightarrow> string option" where
  "forwarded_query q =
     (case q of
        None \<Rightarrow> Some []
      | Some q \<Rightarrow>
          if \<not> list_all (\<lambda>c. printable c \<and> c \<noteq> CHR ''#'') q then None
          else let kept = filter (\<lambda>pair. pair \<noteq> [] \<and> pair \<noteq> ''token'' \<and> \<not> starts_with ''token='' pair)
                            (split_on CHR ''&'' q)
               in Some (if kept = [] then [] else CHR ''?'' # join_with CHR ''&'' kept))"

text \<open>\<open>u8::from_str_radix(_, 16)\<close> on two bytes: a plus sign may take the place of the first digit.\<close>

definition hex_pair :: "char \<Rightarrow> char \<Rightarrow> nat option" where
  "hex_pair a b =
     (if a = CHR ''+'' then digit_in 16 b
      else case (digit_in 16 a, digit_in 16 b) of
             (Some x, Some y) \<Rightarrow> Some (16 * x + y) | _ \<Rightarrow> None)"

fun decode_bytes :: "string \<Rightarrow> string option" where
  "decode_bytes [] = Some []"
| "decode_bytes (c # s) =
     (if c = CHR ''%''
      then (case s of
              a # b # t \<Rightarrow>
                (case hex_pair a b of
                   None \<Rightarrow> None | Some n \<Rightarrow> map_option ((#) (char_of n)) (decode_bytes t))
            | _ \<Rightarrow> None)
      else if \<not> printable c \<or> c \<in> {CHR ''/'', CHR 0x5C, CHR ''?'', CHR ''#''} then None
      else map_option ((#) c) (decode_bytes s))"

definition decode_segment :: "string \<Rightarrow> string option" where
  "decode_segment raw =
     (if raw = [] then None
      else case decode_bytes raw of
             None \<Rightarrow> None
           | Some t \<Rightarrow>
               if \<not> valid_utf8 t \<or> t = ''.'' \<or> t = ''..'' \<or> CHR ''/'' \<in> set t \<or> CHR 0x5C \<in> set t
                  \<or> has_control t then None
               else Some t)"

fun decode_segments :: "string list \<Rightarrow> string list option" where
  "decode_segments [] = Some []"
| "decode_segments (r # rs) =
     (case decode_segment r of None \<Rightarrow> None | Some t \<Rightarrow> map_option ((#) t) (decode_segments rs))"

definition path_segments :: "string \<Rightarrow> string list option" where
  "path_segments p =
     (case strip_prefix ''/'' p of
        None \<Rightarrow> None
      | Some [] \<Rightarrow> Some []
      | Some rest \<Rightarrow> decode_segments (split_on CHR ''/'' rest))"

section \<open>Reading does not depend on the pieces\<close>

lemma split_blank_Some: "split_blank s = Some (h, r) \<Longrightarrow> s = h @ CRLF @ CRLF @ r"
  by (induction s arbitrary: h) (auto simp: strip_prefix_Some split: option.splits)

lemma strip_prefix_longer: "strip_prefix p s = Some r \<Longrightarrow> strip_prefix p (s @ t) = Some (r @ t)"
  by (simp add: strip_prefix_Some)

lemma long_prefix: "s @ t = p @ r \<Longrightarrow> length p \<le> length s \<Longrightarrow> \<exists>u. s = p @ u"
  by (metis append_eq_append_conv_if append_take_drop_id)

lemma split_blank_append: "split_blank s = Some (h, r) \<Longrightarrow> split_blank (s @ t) = Some (h, r @ t)"
proof (induction s arbitrary: h)
  case (Cons c s)
  show ?case
  proof (cases "strip_prefix (CRLF @ CRLF) (c # s)")
    case None
    then obtain h' where h': "split_blank s = Some (h', r)" "h = c # h'"
      using Cons.prems by auto
    have "strip_prefix (CRLF @ CRLF) (c # s @ t) = None"
    proof (rule ccontr)
      assume "strip_prefix (CRLF @ CRLF) (c # s @ t) \<noteq> None"
      moreover have "length (CRLF @ CRLF) \<le> length (c # s)"
        using split_blank_Some[OF h'(1)] by simp
      ultimately have "\<exists>r. c # s = (CRLF @ CRLF) @ r"
        by (metis append_Cons long_prefix not_None_eq strip_prefix_Some)
      with None show False by (metis strip_prefix_Some option.distinct(1))
    qed
    with Cons.IH[OF h'(1)] h'(2) show ?thesis by simp
  next
    case (Some u)
    then show ?thesis using Cons.prems strip_prefix_longer[OF Some, of t] by simp
  qed
qed simp

lemma split_blank_found: "split_blank (h @ CRLF @ CRLF @ u) \<noteq> None"
  by (induction h) (auto simp: CRLF_def split: option.split)

lemma split_blank_late:
  assumes "split_blank (s @ t) = Some (h, r)" "split_blank s = None"
  shows "length s < length h + 4"
proof (rule ccontr)
  assume "\<not> length s < length h + 4"
  moreover have "s @ t = (h @ CRLF @ CRLF) @ r" using split_blank_Some[OF assms(1)] by simp
  moreover have "length (h @ CRLF @ CRLF) = length h + 4" by (simp add: CRLF_def)
  ultimately obtain u where "s = (h @ CRLF @ CRLF) @ u"
    using long_prefix[of s t "h @ CRLF @ CRLF" r] by auto
  with split_blank_found[of h u] assms(2) show False by simp
qed

definition flowing :: "stream \<Rightarrow> bool" where
  "flowing s \<longleftrightarrow> [] \<notin> set (pieces s)"

lemma read_some_flowing:
  assumes "flowing s" "0 < n" "concat (pieces s) \<noteq> []"
  obtains d s' where "read_some n s = (IoDone d, s')" "d \<noteq> []" "flowing s'"
  using assms by (cases "pieces s") (auto simp: read_some.simps flowing_def)

text \<open>
  A request head is found however its bytes arrive: if the first blank line comes within the
  size limit, reading piece by piece returns exactly the bytes before it, and hands over the bytes
  after it in order.
\<close>

theorem read_head_whole:
  assumes "flowing s" "split_blank (data @ concat (pieces s)) = Some (h, r)"
    "length h + 4 \<le> MAX_HEAD_BYTES"
  shows "\<exists>r' s'. read_head data s = (IoDone (Some (h, r')), s') \<and> r' @ concat (pieces s') = r \<and>
                 fails s' = fails s"
  using assms(1,2)
proof (induction data s rule: read_head.induct)
  case (1 data s)
  show ?case
  proof (cases "split_blank data")
    case (Some hr)
    then show ?thesis
      using 1(3) split_blank_append[of data "fst hr" "snd hr" "concat (pieces s)"]
      by (subst read_head.simps) (auto split: prod.splits)
  next
    case None
    have "length data < length h + 4" using split_blank_late[OF 1(3) None] .
    then have small: "\<not> MAX_HEAD_BYTES < length data" using assms(3) by simp
    have "concat (pieces s) \<noteq> []" using 1(3) None by (metis append_Nil2 option.distinct(1))
    then obtain d s' where d: "read_some 4096 s = (IoDone d, s')" "d \<noteq> []" "flowing s'"
      using read_some_flowing[OF 1(2)] by (metis zero_less_numeral)
    have "split_blank ((data @ d) @ concat (pieces s')) = Some (h, r)"
      using 1(3) read_some_concat[OF d(1)] by simp
    from 1(1)[OF None small d(1)[symmetric] refl d(2,3) this]
    show ?thesis
      using None small d read_some_concat[OF d(1)] by (subst read_head.simps) auto
  qed
qed

lemma read_head_sound:
  "read_head data s = (IoDone (Some (h, r)), s') \<Longrightarrow>
     split_blank (data @ concat (pieces s)) = Some (h, r @ concat (pieces s'))"
proof (induction data s rule: read_head.induct)
  case (1 data s)
  show ?case
  proof (cases "split_blank data")
    case (Some hr)
    then show ?thesis
      using 1(2) split_blank_append[of data "fst hr" "snd hr"] by (subst (asm) read_head.simps) (auto split: prod.splits)
  next
    case None
    then obtain d t where "read_some 4096 s = (IoDone d, t)" "d \<noteq> []" "\<not> MAX_HEAD_BYTES < length data"
      "read_head (data @ d) t = (IoDone (Some (h, r)), s')"
      using 1(2) by (subst (asm) read_head.simps) (auto split: prod.splits io_result.splits if_splits)
    then show ?thesis using 1(1)[OF None] read_some_concat[of 4096 s d t] by simp
  qed
qed

lemma read_body_loop_sound:
  "read_body_loop n body s = (IoDone b, s') \<Longrightarrow> length body \<le> n \<Longrightarrow>
     length b = n \<and> body @ concat (pieces s) = b @ concat (pieces s')"
proof (induction n body s rule: read_body_loop.induct)
  case (1 n body s)
  show ?case
  proof (cases "n \<le> length body")
    case True
    then show ?thesis using 1(2,3) by (subst (asm) read_body_loop.simps) auto
  next
    case False
    then obtain d t where d: "read_some (min (n - length body) 4096) s = (IoDone d, t)" "d \<noteq> []"
      "read_body_loop n (body @ d) t = (IoDone b, s')"
      using 1(2) by (subst (asm) read_body_loop.simps) (auto split: prod.splits io_result.splits if_splits)
    moreover have "length d \<le> n - length body" using read_some_length[OF d(1)] by simp
    then have "length (body @ d) \<le> n" using False by simp
    ultimately show ?thesis using 1(1)[OF False d(1)[symmetric]] read_some_concat[OF d(1)] by simp
  qed
qed

lemma read_body_sound:
  assumes "read_body n rest s = (IoDone (body, rest'), s')"
  shows "length body = n \<and> rest @ concat (pieces s) = body @ rest' @ concat (pieces s')"
proof -
  have b: "read_body_loop n (take n rest) s = (IoDone body, s')" "rest' = drop n rest"
    using assms by (auto simp: read_body_def split: prod.splits io_result.splits)
  show ?thesis
  proof (cases "n \<le> length rest")
    case True
    then have "body = take n rest" "s' = s" using b(1) by (auto simp: read_body_loop.simps)
    then show ?thesis using b(2) True by simp
  next
    case False
    then show ?thesis using read_body_loop_sound[OF b(1)] b(2) by simp
  qed
qed

section \<open>Rebuilding a head\<close>

fun join_crlf :: "string list \<Rightarrow> string" where
  "join_crlf [] = []"
| "join_crlf [l] = l"
| "join_crlf (l # k # ls) = l @ CRLF @ join_crlf (k # ls)"

lemma join_crlf_Cons: "ls \<noteq> [] \<Longrightarrow> join_crlf (l # ls) = l @ CRLF @ join_crlf ls"
  by (cases ls) auto

lemma CR_LF [simp]: "CR \<noteq> LF" "LF \<noteq> CR"
  by (simp_all add: CR_def LF_def)

lemma split_crlf_line:
  "CR \<notin> set l \<Longrightarrow> split_crlf l = [l]"
  "CR \<notin> set l \<Longrightarrow> split_crlf (l @ CRLF @ t) = l # split_crlf t"
proof -
  show "CR \<notin> set l \<Longrightarrow> split_crlf l = [l]"
  proof (induction l)
    case (Cons c l)
    then show ?case by (cases l) auto
  qed simp
  show "CR \<notin> set l \<Longrightarrow> split_crlf (l @ CRLF @ t) = l # split_crlf t"
  proof (induction l)
    case (Cons c l)
    then show ?case by (cases l) (auto simp: CRLF_def)
  qed (simp add: CRLF_def)
qed

lemma split_crlf_join:
  "ls \<noteq> [] \<Longrightarrow> \<forall>l\<in>set ls. CR \<notin> set l \<Longrightarrow> split_crlf (join_crlf ls) = ls"
  by (induction ls rule: join_crlf.induct) (auto simp: split_crlf_line)

lemma split_blank_line:
  "CR \<notin> set l \<Longrightarrow> split_blank (l @ CRLF @ t) =
     (case strip_prefix CRLF t of
        Some r \<Rightarrow> Some (l, r)
      | None \<Rightarrow> map_option (\<lambda>(h, r). (l @ CRLF @ h, r)) (split_blank t))"
  by (induction l)
    (auto simp: CRLF_def option.map_comp comp_def case_prod_unfold split: option.split)

lemma split_blank_join:
  assumes "ls \<noteq> []" "\<forall>l\<in>set ls. CR \<notin> set l \<and> l \<noteq> []"
  shows "split_blank (join_crlf ls @ CRLF @ CRLF @ r) = Some (join_crlf ls, r)"
  using assms
proof (induction ls rule: join_crlf.induct)
  case (2 l)
  then show ?case using split_blank_line[of l "CRLF @ r"] by (simp add: CRLF_def)
next
  case (3 l k ls)
  have "strip_prefix CRLF (join_crlf (k # ls) @ CRLF @ CRLF @ r) = None"
    using 3(3) by (cases ls; cases k) (auto simp: CRLF_def)
  then show ?case
    using 3 split_blank_line[of l "join_crlf (k # ls) @ CRLF @ CRLF @ r"] by simp
qed simp

text \<open>A header as \<open>parse_head\<close> accepts it.\<close>

definition header_ok :: "string \<times> string \<Rightarrow> bool" where
  "header_ok h \<longleftrightarrow>
     fst h \<noteq> [] \<and> list_all name_char (fst h) \<and> trim_blanks (snd h) = snd h \<and>
     list_all (\<lambda>c. \<not> is_ascii_control c \<or> byte c = 9) (snd h)"

definition header_text :: "string \<times> string \<Rightarrow> string" where
  "header_text h = fst h @ '': '' @ snd h"

lemma trim_blanks_simps [simp]:
  "trim_blanks [] = []" "trim_blanks (CHR '' '' # s) = trim_blanks s"
  by (simp_all add: trim_blanks_def)

lemma trim_edges_idem:
  "rev (dropWhile P (rev (dropWhile P (rev (dropWhile P (rev (dropWhile P s))))))) =
     rev (dropWhile P (rev (dropWhile P s)))"
proof (cases "dropWhile P s")
  case (Cons a t)
  then have a: "\<not> P a" using hd_dropWhile[of P s] by simp
  have edge: "rev (dropWhile P (rev (a # u))) = a # rev (dropWhile P (rev u))" for u
    using a by (simp add: dropWhile_append)
  have start: "dropWhile P (a # u) = a # u" for u using a by simp
  have idem: "dropWhile P (dropWhile P u) = dropWhile P u" for u by (induction u) auto
  show ?thesis unfolding Cons edge start by (simp only: edge rev_rev_ident idem)
next
  case Nil
  show ?thesis unfolding Nil by simp
qed

lemma trim_blanks_idem [simp]: "trim_blanks (trim_blanks s) = trim_blanks s"
  unfolding trim_blanks_def Let_def by (rule trim_edges_idem)

lemma name_char_plain: "name_char c \<Longrightarrow> c \<noteq> CHR '':'' \<and> c \<noteq> CR"
  by (auto simp: name_char_def is_ascii_alphanumeric_def is_ascii_alphabetic_def is_ascii_digit_def CR_def)

lemma parse_header_text: "header_ok h \<Longrightarrow> parse_header (header_text h) = Some h"
proof -
  assume h: "header_ok h"
  then have "split_once CHR '':'' (header_text h) = Some (fst h, CHR '' '' # snd h)"
    using name_char_plain split_once_append[of "CHR '':''" "fst h" "CHR '' '' # snd h"]
    by (auto simp: header_ok_def header_text_def list_all_iff)
  then show ?thesis
    using h by (cases h) (auto simp: parse_header_def header_ok_def Let_def list_ex_iff list_all_iff)
qed

lemma parse_header_ok: "parse_header l = Some h \<Longrightarrow> header_ok h"
  by (auto simp: parse_header_def header_ok_def Let_def list_ex_iff list_all_iff
      split: option.splits if_splits)

lemma parse_headers_ok: "parse_headers ls = Some hs \<Longrightarrow> list_all header_ok hs"
  by (induction ls arbitrary: hs) (auto simp: parse_header_ok split: option.splits)

lemma parse_headers_text: "list_all header_ok hs \<Longrightarrow> parse_headers (map header_text hs) = Some hs"
  by (induction hs) (auto simp: parse_header_text)

lemma header_text_plain: "header_ok h \<Longrightarrow> CR \<notin> set (header_text h) \<and> header_text h \<noteq> []"
proof -
  assume h: "header_ok h"
  then have "CR \<notin> set (fst h)" using name_char_plain by (auto simp: header_ok_def list_all_iff)
  moreover have "is_ascii_control CR \<and> byte CR \<noteq> 9" by (simp add: is_ascii_control_def CR_def)
  then have "CR \<notin> set (snd h)" using h by (auto simp: header_ok_def list_all_iff)
  ultimately show ?thesis by (simp add: header_text_def CR_def)
qed

definition request_line :: "string \<Rightarrow> string \<Rightarrow> string" where
  "request_line m target = m @ '' '' @ target @ '' HTTP/1.1''"

definition token_text :: "string \<Rightarrow> bool" where
  "token_text s \<longleftrightarrow> list_all printable s"

lemma printable_plain: "printable c \<Longrightarrow> c \<noteq> CHR '' '' \<and> c \<noteq> CR \<and> c \<noteq> LF"
  by (auto simp: printable_def CR_def LF_def)

lemma is_upper_printable: "is_upper c \<Longrightarrow> printable c"
  by (simp add: is_upper_def printable_def)

text \<open>What a rebuilt head says to whoever parses it, with any bytes behind it.\<close>

lemma rebuilt_head:
  assumes "m \<noteq> []" "list_all is_upper m" "token_text target" "list_all header_ok hs"
  defines "head \<equiv> join_crlf (request_line m target # map header_text hs)"
  shows "split_blank (head @ CRLF @ CRLF @ body) = Some (head, body)"
    "parse_head head =
       Some \<lparr>req_method = m,
             path = (case split_once CHR ''?'' target of Some (p, q) \<Rightarrow> p | None \<Rightarrow> target),
             query = map_option snd (split_once CHR ''?'' target), headers = hs\<rparr>"
proof -
  have line: "CR \<notin> set (request_line m target)" "request_line m target \<noteq> []"
    using assms(2,3) printable_plain is_upper_printable
    by (auto simp: request_line_def token_text_def list_all_iff CR_def)
  have hs: "\<forall>l\<in>set (map header_text hs). CR \<notin> set l \<and> l \<noteq> []"
    using assms(4) header_text_plain by (auto simp: list_all_iff)
  show "split_blank (head @ CRLF @ CRLF @ body) = Some (head, body)"
    unfolding head_def by (rule split_blank_join) (use line hs in auto)
  have "split_crlf head = request_line m target # map header_text hs"
    unfolding head_def by (rule split_crlf_join) (use line hs in auto)
  moreover have "CHR '' '' \<notin> set m" "CHR '' '' \<notin> set target"
    using assms(2,3) printable_plain is_upper_printable by (auto simp: token_text_def list_all_iff)
  then have "split_on CHR '' '' (request_line m target) = [m, target, ''HTTP/1.1'']"
    using split_on_append_delim[of "CHR '' ''" m "target @ '' HTTP/1.1''"]
      split_on_append_delim[of "CHR '' ''" target "''HTTP/1.1''"]
    by (simp add: request_line_def)
  ultimately show "parse_head head =
       Some \<lparr>req_method = m,
             path = (case split_once CHR ''?'' target of Some (p, q) \<Rightarrow> p | None \<Rightarrow> target),
             query = map_option snd (split_once CHR ''?'' target), headers = hs\<rparr>"
    using assms(1,2,4) by (simp add: parse_head_def parse_headers_text split: option.split)
qed

end
