(* ===== verification/Controller_Proxy.thy ===== *)
theory Controller_Proxy
  imports Http_Request "HOL-Library.Sublist"
begin

text \<open>
  \<open>service/controller_proxy.rs\<close>: the filter in front of the service's own Mihomo controller. A
  connection carries one request; it is authenticated and matched against an allow-list before
  anything reaches Mihomo, and the head Mihomo gets is rebuilt with the real secret.
\<close>

section \<open>The allow-list\<close>

definition FORWARDED_HEADERS :: "string list" where
  "FORWARDED_HEADERS =
     [''accept'', ''accept-encoding'', ''accept-language'', ''cache-control'', ''content-type'', ''origin'',
      ''pragma'', ''user-agent'', ''sec-websocket-extensions'', ''sec-websocket-key'',
      ''sec-websocket-protocol'', ''sec-websocket-version'']"

definition streaming :: "string list \<Rightarrow> bool" where
  "streaming segments \<longleftrightarrow>
     segments \<in> {[''connections''], [''traffic''], [''memory''], [''logs'']}"

definition allowed_get :: "string list \<Rightarrow> bool" where
  "allowed_get segments =
     (case segments of
        [a] \<Rightarrow> a \<in> {''version'', ''proxies'', ''group'', ''rules'', ''configs''} \<or> streaming segments
      | [a, b] \<Rightarrow> (a = ''providers'' \<and> b \<in> {''proxies'', ''rules''}) \<or> a \<in> {''proxies'', ''group''}
      | [a, b, c] \<Rightarrow> (a \<in> {''proxies'', ''group''} \<and> c = ''delay'') \<or> (a = ''providers'' \<and> b = ''proxies'')
      | [a, b, c, d] \<Rightarrow> a = ''providers'' \<and> b = ''proxies''
      | [a, b, c, d, e] \<Rightarrow> a = ''providers'' \<and> b = ''proxies'' \<and> e = ''healthcheck''
      | _ \<Rightarrow> False)"

definition is_allowed :: "string \<Rightarrow> string list \<Rightarrow> bool \<Rightarrow> bool" where
  "is_allowed m segments websocket =
     (if websocket then m = ''GET'' \<and> streaming segments
      else if m = ''GET'' then allowed_get segments
      else if m = ''PUT'' then (case segments of [a, b] \<Rightarrow> a = ''proxies'' | _ \<Rightarrow> False)
      else if m = ''DELETE'' then segments = [''connections'']
      else False)"

section \<open>The head for Mihomo\<close>

record controller_settings =
  upstream_port :: u16
  upstream_secret :: string
  token :: string

definition header_line :: "string \<Rightarrow> string \<Rightarrow> string" where
  "header_line name v = name @ '': '' @ v @ CRLF"

definition is_forwarded :: "string \<Rightarrow> bool" where
  "is_forwarded name \<longleftrightarrow> list_ex (eq_ignore_ascii_case name) FORWARDED_HEADERS"

definition upstream_head :: "request \<Rightarrow> string \<Rightarrow> controller_settings \<Rightarrow> bool \<Rightarrow> nat \<Rightarrow> string" where
  "upstream_head r q settings websocket n =
     req_method r @ '' '' @ path r @ q @ '' HTTP/1.1'' @ CRLF
       @ header_line ''Host'' (''127.0.0.1:'' @ show_nat (unat (upstream_port settings)))
       @ header_line ''Authorization'' (''Bearer '' @ upstream_secret settings)
       @ concat (map (\<lambda>(name, v). header_line name v) (filter (\<lambda>h. is_forwarded (fst h)) (headers r)))
       @ (if websocket then header_line ''Connection'' ''Upgrade'' @ header_line ''Upgrade'' ''websocket''
          else header_line ''Connection'' ''close'')
       @ (if n > 0 \<or> req_method r \<in> {''PUT'', ''POST'', ''PATCH''}
          then header_line ''Content-Length'' (show_nat n) else [])
       @ CRLF"

section \<open>One connection\<close>

datatype rejection = BadRequest | Unauthorized | Forbidden | TooLarge | BadGateway

fun rejection_status :: "rejection \<Rightarrow> nat \<times> string" where
  "rejection_status BadRequest = (400, ''Bad Request'')"
| "rejection_status Unauthorized = (401, ''Unauthorized'')"
| "rejection_status Forbidden = (403, ''Forbidden'')"
| "rejection_status TooLarge = (413, ''Payload Too Large'')"
| "rejection_status BadGateway = (502, ''Bad Gateway'')"

definition rejection_response :: "rejection \<Rightarrow> string" where
  "rejection_response rejection =
     (case rejection_status rejection of
        (status, reason) \<Rightarrow>
          ''HTTP/1.1 '' @ show_nat status @ '' '' @ reason @ CRLF @ header_line ''Content-Type'' ''text/plain''
            @ header_line ''Content-Length'' (show_nat (length reason))
            @ header_line ''Connection'' ''close'' @ CRLF @ reason)"

text \<open>\<open>Inl None\<close> closes the connection silently, \<open>Inl (Some _)\<close> answers first.\<close>

record admitted =
  adm_request :: request
  adm_websocket :: bool
  adm_query :: string
  adm_body :: string
  adm_rest :: string
  adm_stream :: stream

definition max_usize :: nat where
  "max_usize = 2 ^ 64 - 1"

definition body_length :: "request \<Rightarrow> rejection option + nat" where
  "body_length r =
     (if request_header r ''transfer-encoding'' \<noteq> None \<or> header_count r ''content-length'' > 1
      then Inl (Some BadRequest)
      else rbind (case request_header r ''content-length'' of
                    None \<Rightarrow> Inr 0
                  | Some v \<Rightarrow> ok_or (Some BadRequest) (parse_uint max_usize v))
             (\<lambda>n. if n > MAX_BODY_BYTES then Inl (Some TooLarge) else Inr n))"

text \<open>\<open>relay\<close> up to the connection to Mihomo.\<close>

definition admit :: "controller_settings \<Rightarrow> stream \<Rightarrow> rejection option + admitted" where
  "admit settings s =
     (case read_head [] s of
        (IoFail, _) \<Rightarrow> Inl None
      | (IoDone None, _) \<Rightarrow> Inl (Some BadRequest)
      | (IoDone (Some (head, rest)), s) \<Rightarrow>
          if \<not> valid_utf8 head then Inl (Some BadRequest)
          else rbind (ok_or (Some BadRequest) (parse_head head)) (\<lambda>r.
            if \<not> authorised r (token settings) then Inl (Some Unauthorized)
            else let websocket = (case request_header r ''upgrade'' of
                                    None \<Rightarrow> False | Some v \<Rightarrow> eq_ignore_ascii_case v ''websocket'')
                 in rbind (ok_or (Some Forbidden) (path_segments (path r))) (\<lambda>segments.
                    if \<not> is_allowed (req_method r) segments websocket then Inl (Some Forbidden)
                    else rbind (ok_or (Some Forbidden) (forwarded_query (query r))) (\<lambda>q.
                         rbind (body_length r) (\<lambda>n.
                           case read_body n rest s of
                             (IoFail, _) \<Rightarrow> Inl None
                           | (IoDone (body, rest), s) \<Rightarrow>
                               Inr \<lparr>adm_request = r, adm_websocket = websocket, adm_query = q,
                                    adm_body = body, adm_rest = rest, adm_stream = s\<rparr>)))))"

text \<open>
  Mihomo's side of one connection, and what went over the wire; a write that fails stops after some
  of its bytes.
\<close>

record upstream =
  up_connects :: bool
  up_write_stops :: "nat option"
  up_answer :: stream
  up_rest_stops :: "nat option"
  client_write_stops :: "nat option"

record exchange =
  to_upstream :: string
  to_client :: string

definition all_bytes :: "stream \<Rightarrow> string" where
  "all_bytes s = concat (pieces s)"

definition relay_websocket ::
    "upstream \<Rightarrow> string \<Rightarrow> admitted \<Rightarrow> (rejection option + unit) \<times> exchange" where
  "relay_websocket u sent a =
     (case read_head [] (up_answer u) of
        (IoDone (Some (head, rest)), s) \<Rightarrow>
          let answer = head @ CRLF @ CRLF @ rest
          in (case client_write_stops u of
                Some k \<Rightarrow> (Inl None, \<lparr>to_upstream = sent, to_client = take k answer\<rparr>)
              | None \<Rightarrow>
                  if \<not> starts_with ''HTTP/1.1 101 '' head
                  then (Inr (), \<lparr>to_upstream = sent, to_client = answer @ all_bytes s\<rparr>)
                  else (case up_rest_stops u of
                          Some k \<Rightarrow> (Inl None, \<lparr>to_upstream = sent @ take k (adm_rest a), to_client = answer\<rparr>)
                        | None \<Rightarrow>
                            (Inr (), \<lparr>to_upstream = sent @ adm_rest a @ all_bytes (adm_stream a),
                                      to_client = answer @ all_bytes s\<rparr>)))
      | _ \<Rightarrow> (Inl (Some BadGateway), \<lparr>to_upstream = sent, to_client = []\<rparr>))"

definition relay ::
    "controller_settings \<Rightarrow> stream \<Rightarrow> upstream \<Rightarrow> (rejection option + unit) \<times> exchange" where
  "relay settings s u =
     (case admit settings s of
        Inl e \<Rightarrow> (Inl e, \<lparr>to_upstream = [], to_client = []\<rparr>)
      | Inr a \<Rightarrow>
          let head = upstream_head (adm_request a) (adm_query a) settings (adm_websocket a)
                       (length (adm_body a));
              sent = head @ adm_body a
          in if \<not> up_connects u then (Inl (Some BadGateway), \<lparr>to_upstream = [], to_client = []\<rparr>)
             else (case up_write_stops u of
                     Some k \<Rightarrow> (Inl (Some BadGateway), \<lparr>to_upstream = take k sent, to_client = []\<rparr>)
                   | None \<Rightarrow>
                       if adm_websocket a then relay_websocket u sent a
                       else (Inr (), \<lparr>to_upstream = sent, to_client = all_bytes (up_answer u)\<rparr>)))"

text \<open>\<open>serve\<close>: a rejection is answered.\<close>

definition serve :: "controller_settings \<Rightarrow> stream \<Rightarrow> upstream \<Rightarrow> exchange" where
  "serve settings s u =
     (case relay settings s u of
        (Inl (Some rejection), e) \<Rightarrow> e\<lparr>to_client := to_client e @ rejection_response rejection\<rparr>
      | (_, e) \<Rightarrow> e)"

section \<open>What gets through\<close>

lemma byte_of_nat_eq: "(of_nat (byte c) :: u8) = of_nat (byte d) \<longleftrightarrow> c = d"
proof -
  have "byte c < 2 ^ LENGTH(8)" "byte d < 2 ^ LENGTH(8)" by (simp_all add: of_char_of[symmetric])
  then show ?thesis by (metis of_nat_inverse of_char_eq_iff)
qed

lemma same_secret_eq: "same_secret presented expected \<longleftrightarrow> presented = expected"
proof -
  have "(\<forall>(l, r)\<in>set (zip (as_bytes a) (as_bytes b)). l = r) \<longleftrightarrow> a = b" if "length a = length b" for a b
    using that by (induction a b rule: list_induct2) (auto simp: as_bytes_def byte_of_nat_eq)
  then show ?thesis
    unfolding same_secret_def or_fold_zero by (cases "length presented = length expected") auto
qed

lemma admit_Inr:
  assumes "admit settings s = Inr a"
  obtains h rest s1 segments n where
    "read_head [] s = (IoDone (Some (h, rest)), s1)" "valid_utf8 h" "parse_head h = Some (adm_request a)"
    "authorised (adm_request a) (token settings)" "path_segments (path (adm_request a)) = Some segments"
    "is_allowed (req_method (adm_request a)) segments (adm_websocket a)"
    "forwarded_query (query (adm_request a)) = Some (adm_query a)" "body_length (adm_request a) = Inr n"
    "read_body n rest s1 = (IoDone (adm_body a, adm_rest a), adm_stream a)"
proof -
  obtain h rest s1 where h: "read_head [] s = (IoDone (Some (h, rest)), s1)"
    using assms by (auto simp: admit_def split: prod.splits io_result.splits option.splits)
  obtain r where r: "parse_head h = Some r" "valid_utf8 h"
    using assms h by (cases "parse_head h") (auto simp: admit_def result_simps split: if_splits)
  then have auth: "authorised r (token settings)"
    using assms h by (auto simp: admit_def split: if_splits)
  obtain segments where segs: "path_segments (path r) = Some segments"
    using assms h r auth by (cases "path_segments (path r)") (auto simp: admit_def Let_def split: if_splits)
  define ws where
    "ws = (case request_header r ''upgrade'' of None \<Rightarrow> False | Some v \<Rightarrow> eq_ignore_ascii_case v ''websocket'')"
  have al: "is_allowed (req_method r) segments ws"
    using assms h r auth segs by (auto simp: admit_def Let_def ws_def split: if_splits)
  obtain q where q: "forwarded_query (query r) = Some q"
    using assms h r auth segs al
    by (cases "forwarded_query (query r)") (auto simp: admit_def Let_def ws_def)
  obtain n where n: "body_length r = Inr n"
    using assms h r auth segs al q by (cases "body_length r") (auto simp: admit_def Let_def ws_def)
  obtain res s2 where b: "read_body n rest s1 = (res, s2)" by (metis surj_pair)
  obtain body rest' where res: "res = IoDone (body, rest')"
    using assms h r auth segs al q n b by (cases res) (auto simp: admit_def Let_def ws_def)
  have "a = \<lparr>adm_request = r, adm_websocket = ws, adm_query = q, adm_body = body, adm_rest = rest',
             adm_stream = s2\<rparr>"
    using assms h r auth segs al q n b res by (simp add: admit_def Let_def ws_def)
  with h r auth segs al q n b res show ?thesis by (intro that[of h rest s1 segments n]) auto
qed

lemma body_length_bound: "body_length r = Inr n \<Longrightarrow> n \<le> MAX_BODY_BYTES"
  by (auto simp: body_length_def result_simps split: if_splits option.splits)

text \<open>What was sent upstream: a part of the rebuilt request, and more only after a switch of protocols.\<close>

definition rebuilt :: "controller_settings \<Rightarrow> admitted \<Rightarrow> string" where
  "rebuilt settings a =
     upstream_head (adm_request a) (adm_query a) settings (adm_websocket a) (length (adm_body a))"

lemma relay_upstream:
  assumes "to_upstream (snd (relay settings s u)) \<noteq> []"
  obtains a where "admit settings s = Inr a"
    "prefix (to_upstream (snd (relay settings s u)))
       (rebuilt settings a @ adm_body a
          @ (if adm_websocket a then adm_rest a @ all_bytes (adm_stream a) else []))"
proof (cases "admit settings s")
  case (Inr a)
  have "prefix (to_upstream (snd (relay_websocket u sent a))) (sent @ adm_rest a @ all_bytes (adm_stream a))"
    for sent
    by (auto simp: relay_websocket_def Let_def take_is_prefix split: option.split prod.split io_result.split)
  moreover have "prefix (take k xs) (xs @ ys)" for k and xs ys :: string
    by (simp add: prefix_order.trans[OF take_is_prefix])
  ultimately have "prefix (to_upstream (snd (relay settings s u)))
       (rebuilt settings a @ adm_body a
          @ (if adm_websocket a then adm_rest a @ all_bytes (adm_stream a) else []))"
    using Inr
    by (simp add: relay_def rebuilt_def Let_def take_is_prefix del: take_append append_assoc flip: append_assoc
        split: option.split)
  with Inr show ?thesis by (rule that)
qed (use assms in \<open>simp add: relay_def\<close>)

section \<open>What the pieces of an admitted request look like\<close>

lemma parse_head_parts:
  assumes "parse_head h = Some r"
  shows "req_method r \<noteq> []" "list_all is_upper (req_method r)" "list_all header_ok (headers r)"
  using assms
  by (auto simp: parse_head_def parse_headers_ok split: list.splits option.splits if_splits)

lemma digit_in_printable: "digit_in 16 c = Some n \<Longrightarrow> printable c \<and> c \<noteq> CHR ''?''"
  by (auto simp: digit_in_def printable_def Let_def split: if_splits)

lemma hex_pair_printable:
  "hex_pair a b = Some n \<Longrightarrow> printable a \<and> printable b \<and> a \<noteq> CHR ''?'' \<and> b \<noteq> CHR ''?''"
  by (auto simp: hex_pair_def printable_def dest: digit_in_printable split: if_splits option.splits)

definition path_text :: "string \<Rightarrow> bool" where
  "path_text s \<longleftrightarrow> list_all (\<lambda>c. printable c \<and> c \<noteq> CHR ''?'') s"

lemma decode_bytes_text: "decode_bytes s = Some t \<Longrightarrow> path_text s"
proof (induction s arbitrary: t rule: decode_bytes.induct)
  case (2 c s)
  show ?case
  proof (cases "c = CHR ''%''")
    case True
    then obtain a b u n t' where "s = a # b # u" "hex_pair a b = Some n" "decode_bytes u = Some t'"
      using 2(3) by (auto split: list.splits option.splits)
    then show ?thesis
      using 2(1)[OF True] True hex_pair_printable[of a b n] by (auto simp: path_text_def printable_def)
  next
    case False
    then show ?thesis using 2(2)[OF False] 2(3) by (auto simp: path_text_def split: if_splits)
  qed
qed (simp add: path_text_def)

lemma path_text_append [simp]: "path_text (a @ b) \<longleftrightarrow> path_text a \<and> path_text b"
  by (simp add: path_text_def)

lemma decode_segments_text: "decode_segments rs = Some ts \<Longrightarrow> \<forall>r\<in>set rs. path_text r"
  by (induction rs arbitrary: ts)
    (auto simp: decode_segment_def decode_bytes_text split: option.splits if_splits)

lemma join_with_text: "P d \<Longrightarrow> \<forall>x\<in>set xs. list_all P x \<Longrightarrow> list_all P (join_with d xs)"
  by (induction d xs rule: join_with.induct) auto

lemma path_text_join: "\<forall>r\<in>set rs. path_text r \<Longrightarrow> path_text (join_with CHR ''/'' rs)"
  unfolding path_text_def by (rule join_with_text) (auto simp: printable_def)

lemma path_segments_text: "path_segments p = Some segments \<Longrightarrow> path_text p"
proof -
  assume p: "path_segments p = Some segments"
  then obtain t where t: "p = CHR ''/'' # t" "t \<noteq> [] \<Longrightarrow> decode_segments (split_on CHR ''/'' t) = Some segments"
    by (auto simp: path_segments_def strip_prefix_Some split: option.splits list.splits)
  have "path_text t"
  proof (cases "t = []")
    case False
    then show ?thesis
      using path_text_join[OF decode_segments_text[OF t(2)[OF False]]] by (simp add: join_split)
  qed (simp add: path_text_def)
  then show ?thesis by (simp add: t(1) path_text_def printable_def)
qed

definition plain_segment :: "string \<Rightarrow> bool" where
  "plain_segment t \<longleftrightarrow>
     t \<notin> {''.'', ''..''} \<and> CHR ''/'' \<notin> set t \<and> CHR 0x5C \<notin> set t \<and> \<not> has_control t \<and> valid_utf8 t"

lemma path_segments_plain: "path_segments p = Some segments \<Longrightarrow> list_all plain_segment segments"
proof -
  have "decode_segments rs = Some ts \<Longrightarrow> list_all plain_segment ts" for rs ts
    by (induction rs arbitrary: ts)
      (auto simp: decode_segment_def plain_segment_def split: option.splits if_splits)
  then show "path_segments p = Some segments \<Longrightarrow> list_all plain_segment segments"
    by (auto simp: path_segments_def split: option.splits list.splits)
qed

lemma split_on_text: "list_all P q \<Longrightarrow> x \<in> set (split_on d q) \<Longrightarrow> list_all P x"
  using split_on_subset[of x d q] by (auto simp: list_all_iff)

text \<open>The parameters of a query, and those a client may pass on: all but empty ones and the token.\<close>

definition query_parameters :: "string option \<Rightarrow> string list" where
  "query_parameters q = (case q of None \<Rightarrow> [] | Some q \<Rightarrow> split_on CHR ''&'' q)"

definition token_parameter :: "string \<Rightarrow> bool" where
  "token_parameter p \<longleftrightarrow> p = ''token'' \<or> (\<exists>v. p = ''token='' @ v)"

lemma forwarded_parameters:
  assumes "forwarded_query q = Some q'"
  shows "query_parameters (if q' = [] then None else Some (tl q')) =
    filter (\<lambda>p. p \<noteq> [] \<and> \<not> token_parameter p) (query_parameters q)"
proof (cases q)
  case None
  then show ?thesis using assms by (simp add: forwarded_query_def query_parameters_def)
next
  case (Some x)
  let ?kept = "filter (\<lambda>pair. pair \<noteq> [] \<and> pair \<noteq> ''token'' \<and> \<not> starts_with ''token='' pair)
                 (split_on CHR ''&'' x)"
  have "?kept = filter (\<lambda>p. p \<noteq> [] \<and> \<not> token_parameter p) (split_on CHR ''&'' x)"
    by (rule filter_cong) (auto simp: token_parameter_def starts_with_iff)
  moreover have "split_on CHR ''&'' (join_with CHR ''&'' ?kept) = ?kept" if "?kept \<noteq> []"
    using that by (rule split_join) (auto dest: split_on_parts)
  moreover have "q' = (if ?kept = [] then [] else CHR ''?'' # join_with CHR ''&'' ?kept)"
    using assms Some by (auto simp: forwarded_query_def Let_def split: if_splits)
  ultimately show ?thesis by (auto simp: query_parameters_def Some)
qed

lemma forwarded_query_text:
  assumes "forwarded_query q = Some q'"
  shows "token_text q'" "q' = [] \<or> (\<exists>t. q' = CHR ''?'' # t)"
proof -
  show "q' = [] \<or> (\<exists>t. q' = CHR ''?'' # t)"
    using assms by (auto simp: forwarded_query_def Let_def split: option.splits if_splits)
  show "token_text q'"
  proof (cases q)
    case (Some x)
    let ?kept = "filter (\<lambda>pair. pair \<noteq> [] \<and> pair \<noteq> ''token'' \<and> \<not> starts_with ''token='' pair)
                   (split_on CHR ''&'' x)"
    have "list_all printable x"
      using assms Some by (auto simp: forwarded_query_def list_all_iff split: if_splits)
    then have "\<forall>y\<in>set ?kept. list_all printable y" by (auto dest: split_on_text)
    then have "list_all printable (join_with CHR ''&'' ?kept)"
      by (intro join_with_text) (auto simp: printable_def)
    then show ?thesis
      using assms Some by (auto simp: forwarded_query_def Let_def token_text_def printable_def split: if_splits)
  qed (use assms in \<open>simp add: forwarded_query_def token_text_def\<close>)
qed

section \<open>The rebuilt head\<close>

definition upstream_headers :: "request \<Rightarrow> controller_settings \<Rightarrow> bool \<Rightarrow> nat \<Rightarrow> (string \<times> string) list" where
  "upstream_headers r settings websocket n =
     [(''Host'', ''127.0.0.1:'' @ show_nat (unat (upstream_port settings))),
      (''Authorization'', ''Bearer '' @ upstream_secret settings)]
     @ filter (\<lambda>h. is_forwarded (fst h)) (headers r)
     @ (if websocket then [(''Connection'', ''Upgrade''), (''Upgrade'', ''websocket'')]
        else [(''Connection'', ''close'')])
     @ (if n > 0 \<or> req_method r \<in> {''PUT'', ''POST'', ''PATCH''} then [(''Content-Length'', show_nat n)] else [])"

lemma join_crlf_concat: "join_crlf (l # ls) @ CRLF = l @ CRLF @ concat (map (\<lambda>k. k @ CRLF) ls)"
  by (induction ls arbitrary: l) (auto simp: join_crlf_Cons)

lemma upstream_head_join:
  "upstream_head r q settings websocket n =
     join_crlf (request_line (req_method r) (path r @ q)
                  # map header_text (upstream_headers r settings websocket n)) @ CRLF @ CRLF"
proof -
  have lines: "concat (map (\<lambda>k. k @ CRLF) (map header_text hs)) = concat (map (\<lambda>(name, v). header_line name v) hs)"
    for hs
    by (induction hs) (auto simp: header_text_def header_line_def)
  have "upstream_head r q settings websocket n =
     request_line (req_method r) (path r @ q) @ CRLF
       @ concat (map (\<lambda>(name, v). header_line name v) (upstream_headers r settings websocket n)) @ CRLF"
    by (simp add: upstream_head_def upstream_headers_def request_line_def)
  also have "\<dots> = (join_crlf (request_line (req_method r) (path r @ q)
                  # map header_text (upstream_headers r settings websocket n)) @ CRLF) @ CRLF"
    unfolding join_crlf_concat lines by (simp only: append_assoc)
  finally show ?thesis by (simp only: append_assoc)
qed

lemma trim_blanks_ends:
  assumes "v = c # t" "byte c \<noteq> 32" "byte c \<noteq> 9" "v = t' @ [d]" "byte d \<noteq> 32" "byte d \<noteq> 9"
  shows "trim_blanks v = v"
proof -
  have "dropWhile (\<lambda>c. byte c = 32 \<or> byte c = 9) v = v" using assms(1-3) by simp
  moreover have "dropWhile (\<lambda>c. byte c = 32 \<or> byte c = 9) (rev v) = rev v" using assms(4-6) by simp
  ultimately show ?thesis by (simp add: trim_blanks_def Let_def)
qed

lemma header_ok_printable:
  assumes "list_all name_char (c # n)" "w \<noteq> []" "list_all printable w" "token_text u"
  shows "header_ok (c # n, w)" "u \<noteq> [] \<Longrightarrow> header_ok (c # n, w @ CHR '' '' # u)"
proof -
  have ctl: "printable x \<Longrightarrow> \<not> is_ascii_control x" for x
    by (auto simp: printable_def is_ascii_control_def)
  have edge: "printable x \<Longrightarrow> byte x \<noteq> 32 \<and> byte x \<noteq> 9" for x by (auto simp: printable_def)
  obtain x y where w: "w = x # y" using assms(2) by (cases w) auto
  have tw: "trim_blanks w = w"
    using assms(2,3) w edge
    by (intro trim_blanks_ends[of w x y "butlast w" "last w"]) (auto simp: list_all_iff)
  show "header_ok (c # n, w)"
    using assms tw ctl by (auto simp: header_ok_def list_all_iff)
  assume "u \<noteq> []"
  then have "trim_blanks (w @ CHR '' '' # u) = w @ CHR '' '' # u"
    using assms(3,4) w edge
    by (intro trim_blanks_ends[of _ x "y @ CHR '' '' # u" "w @ CHR '' '' # butlast u" "last u"])
      (auto simp: list_all_iff token_text_def)
  then show "header_ok (c # n, w @ CHR '' '' # u)"
    using assms ctl by (auto simp: header_ok_def list_all_iff token_text_def is_ascii_control_def)
qed

lemma digits_printable: "list_all printable (show_nat n)"
  using show_nat_digits[of n] by (auto simp: list_all_iff is_ascii_digit_def printable_def)

lemma upstream_headers_ok:
  assumes "list_all header_ok (headers r)" "token_text (upstream_secret settings)" "upstream_secret settings \<noteq> []"
  shows "list_all header_ok (upstream_headers r settings websocket n)"
proof -
  note chars = name_char_def is_ascii_alphanumeric_def is_ascii_alphabetic_def is_ascii_digit_def printable_def
  have "header_ok (''Host'', ''127.0.0.1:'' @ show_nat (unat (upstream_port settings)))"
    by (rule header_ok_printable(1)[of _ _ _ "[]"]) (use digits_printable in \<open>auto simp: chars token_text_def\<close>)
  moreover have "header_ok (''Authorization'', ''Bearer'' @ CHR '' '' # upstream_secret settings)"
    by (rule header_ok_printable(2)) (use assms in \<open>auto simp: chars\<close>)
  moreover have "header_ok (''Content-Length'', show_nat n)"
    by (rule header_ok_printable(1)[of _ _ _ "[]"]) (use digits_printable in \<open>auto simp: chars token_text_def\<close>)
  moreover have "header_ok (''Connection'', ''Upgrade'')" "header_ok (''Upgrade'', ''websocket'')"
    "header_ok (''Connection'', ''close'')"
    by (rule header_ok_printable(1)[of _ _ _ "[]"]; simp add: chars token_text_def)+
  ultimately show ?thesis
    using assms(1) by (auto simp: upstream_headers_def list_all_iff)
qed

lemma lower_headers: "map to_ascii_lowercase FORWARDED_HEADERS = FORWARDED_HEADERS"
  by (simp add: FORWARDED_HEADERS_def to_ascii_lowercase_def ascii_lower_Char)

lemma is_forwarded_lower: "is_forwarded name \<longleftrightarrow> to_ascii_lowercase name \<in> set FORWARDED_HEADERS"
proof -
  have "is_forwarded name \<longleftrightarrow> to_ascii_lowercase name \<in> set (map to_ascii_lowercase FORWARDED_HEADERS)"
    by (auto simp: is_forwarded_def list_ex_iff eq_ignore_ascii_case_def)
  then show ?thesis unfolding lower_headers .
qed

lemma not_forwarded:
  "is_forwarded name \<Longrightarrow> \<not> eq_ignore_ascii_case name ''authorization''"
  "is_forwarded name \<Longrightarrow> \<not> eq_ignore_ascii_case name ''transfer-encoding''"
  "is_forwarded name \<Longrightarrow> \<not> eq_ignore_ascii_case name ''content-length''"
proof -
  have own: "to_ascii_lowercase ''authorization'' = ''authorization''"
    "to_ascii_lowercase ''transfer-encoding'' = ''transfer-encoding''"
    "to_ascii_lowercase ''content-length'' = ''content-length''"
    by (simp_all add: to_ascii_lowercase_def ascii_lower_Char)
  have "''authorization'' \<notin> set FORWARDED_HEADERS" "''transfer-encoding'' \<notin> set FORWARDED_HEADERS"
    "''content-length'' \<notin> set FORWARDED_HEADERS"
    by (simp_all add: FORWARDED_HEADERS_def)
  then show "is_forwarded name \<Longrightarrow> \<not> eq_ignore_ascii_case name ''authorization''"
    "is_forwarded name \<Longrightarrow> \<not> eq_ignore_ascii_case name ''transfer-encoding''"
    "is_forwarded name \<Longrightarrow> \<not> eq_ignore_ascii_case name ''content-length''"
    unfolding is_forwarded_lower eq_ignore_ascii_case_def own by metis+
qed

lemma eq_ignore_length: "eq_ignore_ascii_case a b \<Longrightarrow> length a = length b"
  unfolding eq_ignore_ascii_case_def by (metis length_to_ascii_lowercase)

lemma filter_not_forwarded:
  assumes "\<And>n. is_forwarded n \<Longrightarrow> \<not> eq_ignore_ascii_case n name"
  shows "filter (\<lambda>h. eq_ignore_ascii_case (fst h) name) (filter (\<lambda>h. is_forwarded (fst h)) hs) = []"
  using assms by (auto simp: filter_empty_conv)

lemma split_once_free: "d \<notin> set s \<Longrightarrow> split_once d s = None"
  by (induction s) auto

lemma own_names:
  "\<not> eq_ignore_ascii_case ''Host'' ''authorization''" "\<not> eq_ignore_ascii_case ''Host'' ''transfer-encoding''"
  "\<not> eq_ignore_ascii_case ''Host'' ''content-length''"
  "\<not> eq_ignore_ascii_case ''Authorization'' ''transfer-encoding''"
  "\<not> eq_ignore_ascii_case ''Authorization'' ''content-length''"
  "\<not> eq_ignore_ascii_case ''Connection'' ''authorization''"
  "\<not> eq_ignore_ascii_case ''Connection'' ''transfer-encoding''"
  "\<not> eq_ignore_ascii_case ''Connection'' ''content-length''"
  "\<not> eq_ignore_ascii_case ''Upgrade'' ''authorization''"
  "\<not> eq_ignore_ascii_case ''Upgrade'' ''transfer-encoding''"
  "\<not> eq_ignore_ascii_case ''Upgrade'' ''content-length''"
  "\<not> eq_ignore_ascii_case ''Content-Length'' ''authorization''"
  "\<not> eq_ignore_ascii_case ''Content-Length'' ''transfer-encoding''"
  by (auto dest: eq_ignore_length)

lemma own_names_eq:
  "eq_ignore_ascii_case ''Authorization'' ''authorization''"
  "eq_ignore_ascii_case ''Content-Length'' ''content-length''"
  by (simp_all add: eq_ignore_ascii_case_def to_ascii_lowercase_def ascii_lower_Char)

lemma upstream_header_counts:
  assumes "headers r' = upstream_headers r settings websocket n"
  shows "request_header r' ''authorization'' = Some (''Bearer '' @ upstream_secret settings)"
    "header_count r' ''authorization'' = 1" "header_count r' ''transfer-encoding'' = 0"
    "header_count r' ''content-length'' = (if n > 0 \<or> req_method r \<in> {''PUT'', ''POST'', ''PATCH''} then 1 else 0)"
  using assms
  by (simp_all only: request_header_def header_count_def upstream_headers_def filter_append
      filter_not_forwarded[OF not_forwarded(1)] filter_not_forwarded[OF not_forwarded(2)]
      filter_not_forwarded[OF not_forwarded(3)])
    (auto simp: own_names own_names_eq)

text \<open>
  C28. Mihomo sees exactly the admitted request: parsed as HTTP, what the proxy sends it is one head
  with the client's method and path, and of the client's query every parameter in order but empty
  ones and those that carry a token, followed by the admitted body and nothing of the client's
  framing. Its only credential is the real secret in one authorization header, whatever headers and
  query the client sent, and at most one length and no transfer encoding frame the body.
\<close>

theorem upstream_sees_one_request:
  assumes "admit settings s = Inr a" "token_text (upstream_secret settings)" "upstream_secret settings \<noteq> []"
  shows "\<exists>head r'. split_blank (rebuilt settings a @ adm_body a) = Some (head, adm_body a) \<and>
           parse_head head = Some r' \<and> req_method r' = req_method (adm_request a) \<and> path r' = path (adm_request a) \<and>
           query r' = (if adm_query a = [] then None else Some (tl (adm_query a))) \<and>
           query_parameters (query r') =
             filter (\<lambda>p. p \<noteq> [] \<and> \<not> token_parameter p) (query_parameters (query (adm_request a))) \<and>
           headers r' = upstream_headers (adm_request a) settings (adm_websocket a) (length (adm_body a)) \<and>
           request_header r' ''authorization'' = Some (''Bearer '' @ upstream_secret settings) \<and>
           header_count r' ''authorization'' = 1 \<and> header_count r' ''transfer-encoding'' = 0 \<and>
           header_count r' ''content-length'' \<le> 1"
  using assms(1)
proof (rule admit_Inr)
  fix h rest s1 segments n
  assume h: "parse_head h = Some (adm_request a)" "path_segments (path (adm_request a)) = Some segments"
    "forwarded_query (query (adm_request a)) = Some (adm_query a)"
  let ?r = "adm_request a" let ?q = "adm_query a"
  let ?hs = "upstream_headers ?r settings (adm_websocket a) (length (adm_body a))"
  let ?head = "join_crlf (request_line (req_method ?r) (path ?r @ ?q) # map header_text ?hs)"
  note parts = parse_head_parts[OF h(1)]
  have p: "list_all printable (path ?r)" "CHR ''?'' \<notin> set (path ?r)"
    using path_segments_text[OF h(2)] by (auto simp: path_text_def list_all_iff)
  have target: "token_text (path ?r @ ?q)"
    using p(1) forwarded_query_text(1)[OF h(3)] by (simp add: token_text_def)
  have once: "split_once CHR ''?'' (path ?r @ ?q) = (if ?q = [] then None else Some (path ?r, tl ?q))"
  proof (cases "?q = []")
    case True
    then show ?thesis using split_once_free[OF p(2)] by simp
  next
    case False
    then obtain t where "?q = CHR ''?'' # t" using forwarded_query_text(2)[OF h(3)] by blast
    then show ?thesis using split_once_append[OF p(2), of t] by simp
  qed
  have ok: "list_all header_ok ?hs" by (rule upstream_headers_ok[OF parts(3) assms(2,3)])
  note sees = rebuilt_head[OF parts(1,2) target ok]
  have "split_blank (rebuilt settings a @ adm_body a) = Some (?head, adm_body a)"
    using sees(1)[of "adm_body a"]
    by (simp add: rebuilt_def upstream_head_join)
  moreover define r' where
    "r' = \<lparr>req_method = req_method ?r, path = path ?r, query = (if ?q = [] then None else Some (tl ?q)), headers = ?hs\<rparr>"
  then have "parse_head ?head = Some r'" "req_method r' = req_method ?r" "path r' = path ?r"
    "query r' = (if ?q = [] then None else Some (tl ?q))" and hs: "headers r' = ?hs"
    using sees(2) once by simp_all
  moreover have "header_count r' ''content-length'' \<le> 1"
    using upstream_header_counts(4)[OF hs] by simp
  moreover have "query_parameters (query r') =
      filter (\<lambda>p. p \<noteq> [] \<and> \<not> token_parameter p) (query_parameters (query (adm_request a)))"
    using forwarded_parameters[OF h(3)] \<open>query r' = (if ?q = [] then None else Some (tl ?q))\<close> by simp
  ultimately show ?thesis
    using upstream_header_counts(1-3)[OF hs] by blast
qed

text \<open>How a request shows the token, spelled out.\<close>

definition presents_token :: "request \<Rightarrow> string \<Rightarrow> bool" where
  "presents_token r secret \<longleftrightarrow>
     (\<exists>scheme v. request_header r ''authorization'' = Some (scheme @ '' '' @ v) \<and>
        CHR '' '' \<notin> set scheme \<and> eq_ignore_ascii_case scheme ''bearer'' \<and> trim v = secret) \<or>
     (\<exists>q. query r = Some q \<and> ''token='' @ secret \<in> set (split_on CHR ''&'' q))"

lemma authorised_exact: "authorised r secret \<longleftrightarrow> presents_token r secret"
proof -
  have "(case Option.bind (request_header r ''authorization'') (split_once CHR '' '') of
           None \<Rightarrow> False
         | Some (scheme, presented) \<Rightarrow>
             eq_ignore_ascii_case scheme ''bearer'' \<and> same_secret (trim presented) secret) \<longleftrightarrow>
        (\<exists>scheme v. request_header r ''authorization'' = Some (scheme @ '' '' @ v) \<and>
           CHR '' '' \<notin> set scheme \<and> eq_ignore_ascii_case scheme ''bearer'' \<and> trim v = secret)"
  proof (cases "request_header r ''authorization''")
    case (Some h)
    have "h = scheme @ '' '' @ v \<and> CHR '' '' \<notin> set scheme \<longleftrightarrow> split_once CHR '' '' h = Some (scheme, v)"
      for scheme v
      by (simp add: split_once_Some)
    then show ?thesis
      using Some by (cases "split_once CHR '' '' h") (auto simp: same_secret_eq)
  qed simp
  moreover have "list_ex (\<lambda>pair. case strip_prefix ''token='' pair of
                            None \<Rightarrow> False | Some presented \<Rightarrow> same_secret presented secret) ps \<longleftrightarrow>
                 ''token='' @ secret \<in> set ps" for ps
    by (induction ps) (auto simp: same_secret_eq strip_prefix_Some split: option.splits)
  ultimately show ?thesis
    by (simp add: authorised_def presents_token_def split: option.split)
qed

section \<open>The filter\<close>

definition READ_ROUTES :: "string list" where
  "READ_ROUTES =
     [''version'', ''proxies'', ''group'', ''rules'', ''configs'', ''providers'', ''connections'', ''traffic'',
      ''memory'', ''logs'']"

lemma in_routes:
  "''version'' \<in> set READ_ROUTES" "''proxies'' \<in> set READ_ROUTES" "''group'' \<in> set READ_ROUTES"
  "''rules'' \<in> set READ_ROUTES" "''configs'' \<in> set READ_ROUTES" "''providers'' \<in> set READ_ROUTES"
  "''connections'' \<in> set READ_ROUTES" "''traffic'' \<in> set READ_ROUTES" "''memory'' \<in> set READ_ROUTES"
  "''logs'' \<in> set READ_ROUTES"
  by (simp_all only: READ_ROUTES_def list.set insert_iff simp_thms)

lemma streaming_routes: "streaming segments \<Longrightarrow> \<exists>a t. segments = a # t \<and> a \<in> set READ_ROUTES"
  unfolding streaming_def using in_routes(7-10) by (elim insertE emptyE) blast+

lemma allowed_get_routes:
  assumes "allowed_get segments" shows "\<exists>a t. segments = a # t \<and> a \<in> set READ_ROUTES"
proof -
  obtain a t where s: "segments = a # t" using assms by (cases segments) (auto simp: allowed_get_def)
  have "a \<in> set READ_ROUTES"
  proof (cases t)
    case Nil
    then have "a \<in> {''version'', ''proxies'', ''group'', ''rules'', ''configs''} \<or> streaming segments"
      using assms s unfolding allowed_get_def by simp
    then show ?thesis
    proof
      assume "a \<in> {''version'', ''proxies'', ''group'', ''rules'', ''configs''}"
      then show ?thesis using in_routes by (elim insertE emptyE) blast+
    next
      assume "streaming segments"
      then show ?thesis using streaming_routes s by blast
    qed
  next
    case (Cons b u)
    have "a = ''providers'' \<or> a \<in> {''proxies'', ''group''}"
    proof -
      consider "u = []" | c where "u = [c]" | c d where "u = [c, d]" | c d e where "u = [c, d, e]"
        | c d e f v where "u = c # d # e # f # v"
        by (metis list.exhaust)
      then show ?thesis using assms s Cons unfolding allowed_get_def by cases (simp_all only: list.case, blast+)
    qed
    then show ?thesis using in_routes(2,3,6) by blast
  qed
  with s show ?thesis by blast
qed

lemma allowed_routes:
  assumes "is_allowed m segments websocket"
  shows "(websocket \<longrightarrow> m = ''GET'' \<and> streaming segments) \<and>
         (m = ''GET'' \<and> (\<exists>a t. segments = a # t \<and> a \<in> set READ_ROUTES) \<or>
          m = ''PUT'' \<and> (\<exists>name. segments = [''proxies'', name]) \<or>
          m = ''DELETE'' \<and> segments = [''connections''])"
proof (cases websocket)
  case True
  then show ?thesis using assms streaming_routes[of segments] by (simp add: is_allowed_def)
next
  case False
  note allowed = assms[unfolded is_allowed_def if_not_P[OF False]]
  show ?thesis
  proof (cases "m = ''GET''")
    case True
    then have "allowed_get segments" using allowed[unfolded if_P[OF True]] by simp
    then show ?thesis using True False allowed_get_routes by blast
  next
    case get: False
    note allowed = allowed[unfolded if_not_P[OF get]]
    show ?thesis
    proof (cases "m = ''PUT''")
      case True
      then have "\<exists>name. segments = [''proxies'', name]"
        using allowed[unfolded if_P[OF True]] by (simp split: list.splits)
      then show ?thesis using True False by blast
    next
      case put: False
      note allowed = allowed[unfolded if_not_P[OF put]]
      then have "m = ''DELETE'' \<and> segments = [''connections'']" by (simp only: split: if_splits)
      then show ?thesis using False by blast
    qed
  qed
qed

text \<open>
  C2. The controller filter. Whatever a connection sends, anything that reaches Mihomo is a part of
  one rebuilt request whose sender presented the session token, whose path is a sequence of plain
  segments, and which reads a listed resource, selects a proxy (\<open>PUT /proxies/<name>\<close>) or closes
  connections; its body is at most 64 KiB. Bytes after it go through only on a WebSocket of a
  streaming resource.
\<close>

theorem proxy_forwards_only_allowed:
  assumes "to_upstream (snd (relay settings s u)) \<noteq> []"
  shows "\<exists>a segments. admit settings s = Inr a \<and> presents_token (adm_request a) (token settings) \<and>
           path_segments (path (adm_request a)) = Some segments \<and> list_all plain_segment segments \<and>
           (req_method (adm_request a) = ''GET'' \<and> (\<exists>r t. segments = r # t \<and> r \<in> set READ_ROUTES) \<or>
            req_method (adm_request a) = ''PUT'' \<and> (\<exists>name. segments = [''proxies'', name]) \<or>
            req_method (adm_request a) = ''DELETE'' \<and> segments = [''connections'']) \<and>
           length (adm_body a) \<le> MAX_BODY_BYTES \<and>
           prefix (to_upstream (snd (relay settings s u)))
             (rebuilt settings a @ adm_body a
                @ (if adm_websocket a then adm_rest a @ all_bytes (adm_stream a) else [])) \<and>
           (adm_websocket a \<longrightarrow> req_method (adm_request a) = ''GET'' \<and> streaming segments)"
  using assms
proof (rule relay_upstream)
  fix a
  assume a: "admit settings s = Inr a"
    "prefix (to_upstream (snd (relay settings s u)))
       (rebuilt settings a @ adm_body a
          @ (if adm_websocket a then adm_rest a @ all_bytes (adm_stream a) else []))"
  from a(1) show ?thesis
  proof (rule admit_Inr)
    fix h rest s1 segments n
    assume h: "authorised (adm_request a) (token settings)"
      "path_segments (path (adm_request a)) = Some segments"
      "is_allowed (req_method (adm_request a)) segments (adm_websocket a)" "body_length (adm_request a) = Inr n"
      "read_body n rest s1 = (IoDone (adm_body a, adm_rest a), adm_stream a)"
    have "presents_token (adm_request a) (token settings)" using h(1) authorised_exact by blast
    moreover have "length (adm_body a) \<le> MAX_BODY_BYTES"
      using read_body_sound[OF h(5)] body_length_bound[OF h(4)] by simp
    ultimately show ?thesis
      using a h(2) allowed_routes[OF h(3)] path_segments_plain[OF h(2)] by blast
  qed
qed

section \<open>A sample connection\<close>

definition sample_settings :: controller_settings where
  "sample_settings = \<lparr>upstream_port = 9090, upstream_secret = ''s'', token = ''t''\<rparr>"

definition sample_request :: string where
  "sample_request = ''PUT /proxies/A%42?token=t HTTP/1.1'' @ CRLF @ ''Origin: o'' @ CRLF @ ''Content-Length: 2''"

definition sample_stream :: stream where
  "sample_stream = \<lparr>pieces = [sample_request @ CRLF, CRLF @ ''{}x''], fails = False\<rparr>"

definition sample_upstream :: upstream where
  "sample_upstream =
     \<lparr>up_connects = True, up_write_stops = None, up_answer = \<lparr>pieces = [''ok''], fails = False\<rparr>,
      up_rest_stops = None, client_write_stops = None\<rparr>"

definition sample_whole :: stream where
  "sample_whole = \<lparr>pieces = [sample_request @ CRLF @ CRLF @ ''{}x''], fails = False\<rparr>"

definition sample_headers :: "(string \<times> string) list" where
  "sample_headers = [(''Origin'', ''o''), (''Content-Length'', ''2'')]"

definition sample_parsed :: request where
  "sample_parsed =
     \<lparr>req_method = ''PUT'', path = ''/proxies/A%42'', query = Some ''token=t'', headers = sample_headers\<rparr>"

definition sample_admitted :: admitted where
  "sample_admitted =
     \<lparr>adm_request = sample_parsed, adm_websocket = False, adm_query = [], adm_body = ''{}'', adm_rest = ''x'',
      adm_stream = \<lparr>pieces = [], fails = False\<rparr>\<rparr>"

lemmas char_eval =
  name_char_def is_ascii_alphanumeric_def is_ascii_alphabetic_def is_ascii_digit_def is_ascii_control_def
  printable_def is_upper_def

lemma sample_lines:
  "sample_request = join_crlf (request_line ''PUT'' ''/proxies/A%42?token=t'' # map header_text sample_headers)"
  by (simp add: sample_request_def request_line_def header_text_def sample_headers_def)

lemma sample_head:
  "split_blank (sample_request @ CRLF @ CRLF @ r) = Some (sample_request, r)"
  "parse_head sample_request = Some sample_parsed"
proof -
  have ok: "list_all header_ok sample_headers"
    by (simp add: sample_headers_def header_ok_def char_eval trim_blanks_def)
  note sees = rebuilt_head[of "''PUT''" "''/proxies/A%42?token=t''", OF _ _ _ ok, folded sample_lines]
  show "split_blank (sample_request @ CRLF @ CRLF @ r) = Some (sample_request, r)"
    by (rule sees(1)) (simp_all add: token_text_def char_eval)
  show "parse_head sample_request = Some sample_parsed"
    using sees(2) by (simp add: token_text_def char_eval sample_parsed_def)
qed

lemma sample_length: "length sample_request = 64"
  by (simp add: sample_request_def CRLF_def)

lemma sample_read: "read_head [] sample_whole = (IoDone (Some (sample_request, ''{}x'')), \<lparr>pieces = [], fails = False\<rparr>)"
proof -
  let ?all = "sample_request @ CRLF @ CRLF @ ''{}x''"
  have "length ?all = 71" by (simp add: sample_length CRLF_def)
  then have "read_some 4096 sample_whole = (IoDone ?all, \<lparr>pieces = [], fails = False\<rparr>)"
    by (simp add: read_some.simps sample_whole_def del: length_append take_append)
  moreover have "?all \<noteq> []" by (simp add: CRLF_def)
  ultimately show ?thesis
    by (simp add: read_head.simps[of "[]"] read_head.simps[of ?all] sample_head(1) MAX_HEAD_BYTES_def)
qed

lemma sample_checks:
  "authorised sample_parsed ''t''" "path_segments ''/proxies/A%42'' = Some [''proxies'', ''AB'']"
  "is_allowed ''PUT'' [''proxies'', ''AB''] False" "forwarded_query (Some ''token=t'') = Some []"
  "request_header sample_parsed ''upgrade'' = None" "body_length sample_parsed = Inr 2"
proof -
  show "authorised sample_parsed ''t''"
    by (auto simp: authorised_exact presents_token_def sample_parsed_def)
  have letter: "char_of (66::nat) = CHR ''B''" by (simp add: char_of_def bit_0)
  show "path_segments ''/proxies/A%42'' = Some [''proxies'', ''AB'']"
    by (simp add: path_segments_def decode_segment_def hex_pair_def digit_in_def char_eval letter)
  show "is_allowed ''PUT'' [''proxies'', ''AB''] False" by (simp add: is_allowed_def)
  show "forwarded_query (Some ''token=t'') = Some []"
    by (simp add: forwarded_query_def char_eval starts_with_def)
  have up: "request_header sample_parsed ''upgrade'' = None"
    "request_header sample_parsed ''transfer-encoding'' = None"
    "header_count sample_parsed ''content-length'' = 1"
    "request_header sample_parsed ''content-length'' = Some ''2''"
    by (simp_all add: request_header_def header_count_def sample_parsed_def sample_headers_def
        eq_ignore_ascii_case_def to_ascii_lowercase_def ascii_lower_Char)
  then show "request_header sample_parsed ''upgrade'' = None" by simp
  show "body_length sample_parsed = Inr 2"
    using up by (simp add: body_length_def parse_uint_def max_usize_def MAX_BODY_BYTES_def char_eval)
qed

lemma sample_admit: "admit sample_settings sample_whole = Inr sample_admitted"
proof -
  have "valid_utf8 sample_request"
    by (rule is_ascii_valid_utf8) (simp add: is_ascii_def sample_request_def CRLF_def CR_def LF_def)
  moreover have "read_body 2 ''{}x'' t = (IoDone (''{}'', ''x''), t)" for t
    by (simp add: read_body_def read_body_loop.simps)
  moreover have "path sample_parsed = ''/proxies/A%42''" "req_method sample_parsed = ''PUT''"
    "query sample_parsed = Some ''token=t''" "token sample_settings = ''t''"
    by (simp_all add: sample_parsed_def sample_settings_def)
  ultimately show ?thesis
    unfolding admit_def sample_read
    by (simp add: sample_head(2) sample_checks sample_admitted_def del: One_nat_def)
qed

theorem upstream_sees_one_request_witness:
  "\<exists>head. split_blank (rebuilt sample_settings sample_admitted @ ''{}'') = Some (head, ''{}'') \<and>
          map_option req_method (parse_head head) = Some ''PUT''"
  using upstream_sees_one_request[OF sample_admit]
  by (auto simp: sample_settings_def token_text_def char_eval sample_admitted_def sample_parsed_def)

theorem proxy_forwards_only_allowed_witness:
  "presents_token (adm_request sample_admitted) (token sample_settings) \<and>
   to_upstream (snd (relay sample_settings sample_whole sample_upstream)) \<noteq> []"
proof -
  have "to_upstream (snd (relay sample_settings sample_whole sample_upstream)) \<noteq> []"
    by (simp add: relay_def sample_admit sample_admitted_def sample_upstream_def Let_def)
  from proxy_forwards_only_allowed[OF this] this show ?thesis
    by (auto simp: sample_admit)
qed

theorem read_head_whole_witness:
  "\<exists>r' s'. read_head [] sample_stream = (IoDone (Some (sample_request, r')), s') \<and>
           r' @ concat (pieces s') = ''{}x''"
proof -
  have "flowing sample_stream"
    by (simp add: flowing_def sample_stream_def CRLF_def)
  moreover have "split_blank ([] @ concat (pieces sample_stream)) = Some (sample_request, ''{}x'')"
    using sample_head(1)[of "''{}x''"] by (simp add: sample_stream_def)
  ultimately show ?thesis
    using read_head_whole[of sample_stream "[]" sample_request "''{}x''"] sample_length
    by (simp add: MAX_HEAD_BYTES_def) blast
qed

end
