(* ===== verification/Update_Release.thy ===== *)
theory Update_Release
  imports Canonical_Decimal
begin

text \<open>
  \<open>crates/multicore-update/src/lib.rs\<close>, the metadata of a release: the pinned repository, versions
  and their order, the assets of each Windows flavour, and the parsing of GitHub's answer. The JSON
  decoder is a parameter; a decoded release is the record \<open>raw_release\<close>.
\<close>

section \<open>Flavours\<close>

datatype windows_arch = X64 | X86 | Arm64

fun bundle_asset_name :: "windows_arch \<Rightarrow> string" where
  "bundle_asset_name X64 = ''multicore-windows-x64.zip''"
| "bundle_asset_name X86 = ''multicore-windows-x86.zip''"
| "bundle_asset_name Arm64 = ''multicore-windows-arm64.zip''"

fun installer_asset_name :: "windows_arch \<Rightarrow> string" where
  "installer_asset_name X64 = ''MultiCore-Setup-x64.exe''"
| "installer_asset_name X86 = ''MultiCore-Setup-x86.exe''"
| "installer_asset_name Arm64 = ''MultiCore-Setup-arm64.exe''"

fun pe_machine :: "windows_arch \<Rightarrow> nat" where
  "pe_machine X64 = 0x8664"
| "pe_machine X86 = 0x014c"
| "pe_machine Arm64 = 0xaa64"

fun pe_optional_magic :: "windows_arch \<Rightarrow> nat" where
  "pe_optional_magic X86 = 0x010b"
| "pe_optional_magic _ = 0x020b"

fun pe_optional_header_fixed_size :: "windows_arch \<Rightarrow> nat" where
  "pe_optional_header_fixed_size X86 = 96"
| "pe_optional_header_fixed_size _ = 112"

definition MAX_ARCHIVE_BYTES :: nat where
  "MAX_ARCHIVE_BYTES = 512 * 1024 * 1024"

definition MAX_EXPANDED_BYTES :: nat where
  "MAX_EXPANDED_BYTES = 1024 * 1024 * 1024"

definition MAX_ARCHIVE_ENTRIES :: nat where
  "MAX_ARCHIVE_ENTRIES = 256"

section \<open>Errors\<close>

text \<open>The messages of an invalid release and of an invalid bundle are one constructor each.\<close>

datatype release_fault =
  UnexpectedPage | AssetMissing | AssetDuplicated | AssetSize | UnexpectedAssetUrl | DigestMissing
| DigestInvalid | UrlsNotPinned

datatype bundle_fault =
  SizeMismatch nat nat | ArchiveChecksum | DestinationExists | EntryCount | DuplicatePath | LinkEntry
| SizeOverflow | ExpandedTooLarge | ChecksumsMissing | ChecksumsTooLarge | InventoryMismatch
| RequiredMissing string | FileSizeOverflow | EntryExceeded | EntrySizeMismatch | ChecksumMismatch string
| UnsafePath | ChecksumsNotUtf8 | ChecksumLine | ChecksumEntry | ChecksumDuplicate | ChecksumsEmpty
| NotExecutable string | PathsNotAbsolute | UnsafeInstallDirectory | NotIsolatedSiblings
| InvalidPortable string

datatype update_error =
  InvalidRepository | InvalidVersion | InvalidRelease release_fault | InvalidReleaseJson | UpdateIo
| ZipFault | InvalidBundle bundle_fault

section \<open>The repository\<close>

record repository =
  owner :: string
  repo_name :: string

definition repo_char :: "char \<Rightarrow> bool" where
  "repo_char c \<longleftrightarrow> is_ascii_alphanumeric c \<or> c = CHR ''.'' \<or> c = CHR ''_'' \<or> c = CHR ''-''"

definition valid_repository_segment :: "string \<Rightarrow> bool" where
  "valid_repository_segment v \<longleftrightarrow>
     length v \<le> 100 \<and> v \<noteq> [] \<and> v \<noteq> ''.'' \<and> v \<noteq> ''..'' \<and>
     is_ascii_alphanumeric (hd v) \<and> is_ascii_alphanumeric (last v) \<and> list_all repo_char v"

definition parse_repository :: "string \<Rightarrow> update_error + repository" where
  "parse_repository v =
     (case split_on CHR ''/'' v of
        [o1, n] \<Rightarrow>
          if \<not> valid_repository_segment o1 \<or> \<not> valid_repository_segment n then Inl InvalidRepository
          else Inr \<lparr>owner = o1, repo_name = n\<rparr>
      | _ \<Rightarrow> Inl InvalidRepository)"

definition release_hint_url :: "repository \<Rightarrow> string" where
  "release_hint_url r =
     ''https://raw.githubusercontent.com/'' @ owner r @ ''/'' @ repo_name r @ ''/main/release.txt''"

definition latest_release_api_url :: "repository \<Rightarrow> string" where
  "latest_release_api_url r =
     ''https://api.github.com/repos/'' @ owner r @ ''/'' @ repo_name r @ ''/releases/latest''"

section \<open>Versions\<close>

datatype version = Version (major: u64) (minor: u64) (patch: u64)

definition parse_version_part :: "string option \<Rightarrow> update_error + u64" where
  "parse_version_part v =
     rbind (ok_or InvalidVersion v) (\<lambda>p.
       if p = [] \<or> (length p > 1 \<and> starts_with ''0'' p) \<or> \<not> list_all is_ascii_digit p
       then Inl InvalidVersion else ok_or InvalidVersion (parse_u64 p))"

text \<open>\<open>parts.next()\<close> on the parts that are left.\<close>

fun next_part :: "string list \<Rightarrow> string option \<times> string list" where
  "next_part [] = (None, [])"
| "next_part (p # ps) = (Some p, ps)"

definition parse_version :: "string \<Rightarrow> update_error + version" where
  "parse_version s =
     (let v = (case strip_prefix ''v'' s of Some t \<Rightarrow> t | None \<Rightarrow> s);
          (a, p1) = next_part (split_on CHR ''.'' v);
          (b, p2) = next_part p1;
          (c, p3) = next_part p2
      in rbind (parse_version_part a) (\<lambda>x. rbind (parse_version_part b) (\<lambda>y.
         rbind (parse_version_part c) (\<lambda>z.
           if p3 \<noteq> [] then Inl InvalidVersion else Inr (Version x y z)))))"

definition show_version :: "version \<Rightarrow> string" where
  "show_version v =
     show_nat (unat (major v)) @ ''.'' @ show_nat (unat (minor v)) @ ''.'' @ show_nat (unat (patch v))"

definition appimage_asset_name :: "version \<Rightarrow> string" where
  "appimage_asset_name v = ''MultiCore-'' @ show_version v @ ''-x86_64.AppImage''"

text \<open>The derived order: major, then minor, then patch.\<close>

instantiation version :: linorder
begin

definition less_eq_version :: "version \<Rightarrow> version \<Rightarrow> bool" where
  "less_eq_version v w \<longleftrightarrow>
     major v < major w \<or> major v = major w \<and> (minor v < minor w \<or> minor v = minor w \<and> patch v \<le> patch w)"

definition less_version :: "version \<Rightarrow> version \<Rightarrow> bool" where
  "less_version v w \<longleftrightarrow>
     major v < major w \<or> major v = major w \<and> (minor v < minor w \<or> minor v = minor w \<and> patch v < patch w)"

instance
  by standard (auto simp: less_eq_version_def less_version_def intro: version.expand)

end

section \<open>Releases\<close>

record raw_asset =
  asset_name :: string
  browser_download_url :: string
  asset_size :: u64
  asset_digest :: string

record raw_release =
  tag_name :: string
  html_url :: string
  assets :: "raw_asset list"

record release_asset =
  download_url :: string
  release_size :: u64
  sha256_hex :: string

record github_release =
  release_version :: version
  page_url :: string
  release_file :: release_asset

datatype release_decision = Current | UpdateAvailable

definition is_ascii_uppercase :: "char \<Rightarrow> bool" where
  "is_ascii_uppercase c \<longleftrightarrow> 65 \<le> byte c \<and> byte c \<le> 90"

definition is_ascii_hexdigit :: "char \<Rightarrow> bool" where
  "is_ascii_hexdigit c \<longleftrightarrow>
     is_ascii_digit c \<or> 65 \<le> byte c \<and> byte c \<le> 70 \<or> 97 \<le> byte c \<and> byte c \<le> 102"

definition valid_sha256 :: "string \<Rightarrow> bool" where
  "valid_sha256 v \<longleftrightarrow>
     length v = 64 \<and> list_all (\<lambda>c. is_ascii_hexdigit c \<and> \<not> is_ascii_uppercase c) v"

definition GITHUB :: string where
  "GITHUB = ''https://github.com/''"

definition release_digest :: "string \<Rightarrow> update_error + string" where
  "release_digest d =
     rbind (ok_or (InvalidRelease DigestMissing) (strip_prefix ''sha256:'' d)) (\<lambda>h.
       if \<not> valid_sha256 h then Inl (InvalidRelease DigestInvalid) else Inr h)"

definition parse_named ::
  "(string \<Rightarrow> raw_release option) \<Rightarrow> string \<Rightarrow> (version \<Rightarrow> string) \<Rightarrow> update_error + github_release" where
  "parse_named decode body name_of =
     rbind (ok_or InvalidReleaseJson (decode body)) (\<lambda>raw.
     rbind (parse_version (tag_name raw)) (\<lambda>v.
     let name = name_of v in
     rbind (ensure (InvalidRelease UnexpectedPage) (starts_with GITHUB (html_url raw))) (\<lambda>_.
     case filter (\<lambda>a. asset_name a = name) (assets raw) of
       [] \<Rightarrow> Inl (InvalidRelease AssetMissing)
     | _ # _ # _ \<Rightarrow> Inl (InvalidRelease AssetDuplicated)
     | [a] \<Rightarrow>
       rbind (ensure (InvalidRelease AssetSize)
                (asset_size a \<noteq> 0 \<and> unat (asset_size a) \<le> MAX_ARCHIVE_BYTES)) (\<lambda>_.
       rbind (ensure (InvalidRelease UnexpectedAssetUrl)
                (starts_with GITHUB (browser_download_url a)
                 \<and> ends_with (CHR ''/'' # name) (browser_download_url a))) (\<lambda>_.
       rbind (release_digest (asset_digest a)) (\<lambda>h.
       Inr \<lparr>release_version = v, page_url = html_url raw,
            release_file = \<lparr>download_url = browser_download_url a, release_size = asset_size a,
                            sha256_hex = h\<rparr>\<rparr>))))))"

definition parse_for_arch where
  "parse_for_arch decode body arch = parse_named decode body (\<lambda>_. bundle_asset_name arch)"

definition parse_installer_for_arch where
  "parse_installer_for_arch decode body arch = parse_named decode body (\<lambda>_. installer_asset_name arch)"

definition parse_appimage where
  "parse_appimage decode body = parse_named decode body appimage_asset_name"

definition release_base :: "repository \<Rightarrow> string" where
  "release_base r =
     to_ascii_lowercase (GITHUB @ owner r @ ''/'' @ repo_name r @ ''/releases/'')"

definition pinned_to :: "repository \<Rightarrow> github_release \<Rightarrow> update_error + github_release" where
  "pinned_to r g =
     (if \<not> starts_with (release_base r) (to_ascii_lowercase (page_url g))
         \<or> \<not> starts_with (release_base r) (to_ascii_lowercase (download_url (release_file g)))
      then Inl (InvalidRelease UrlsNotPinned) else Inr g)"

definition parse_for_repository where
  "parse_for_repository decode current r body = rbind (parse_for_arch decode body current) (pinned_to r)"

definition parse_appimage_for_repository where
  "parse_appimage_for_repository decode r body = rbind (parse_appimage decode body) (pinned_to r)"

definition parse_installer_for_repository where
  "parse_installer_for_repository decode current r body =
     rbind (parse_installer_for_arch decode body current) (pinned_to r)"

definition decision :: "github_release \<Rightarrow> version \<Rightarrow> release_decision" where
  "decision g current = (if release_version g > current then UpdateAvailable else Current)"


section \<open>Versions are written one way\<close>

lemma parse_version_part_exact:
  "parse_version_part p = Inr n \<longleftrightarrow> p = Some (show_nat (unat n))"
proof
  assume "parse_version_part p = Inr n"
  then obtain s where s: "p = Some s" "canonical_digits s" "parse_u64 s = Some n"
    by (auto simp: parse_version_part_def rbind_Inr ok_or_Inr canonical_digits_def split: if_splits)
  from s(2) obtain m where m: "s = show_nat m" unfolding canonical_digits_iff by blast
  have "hd s \<noteq> CHR ''+''" using s(2) by (cases s) (auto simp: canonical_digits_def is_ascii_digit_def)
  with s(2,3) have "digits_val 0 s = Some (unat n) \<or> (\<exists>k. digits_val 0 s = Some k \<and> n = of_nat k \<and> k \<le> 18446744073709551615)"
    by (auto simp: parse_u64_def parse_uint_def Let_def split: list.splits if_splits option.splits)
  then have "m = unat n" by (auto simp: m digits_val_show_nat unat_of_nat)
  with s(1) m show "p = Some (show_nat (unat n))" by simp
next
  assume p: "p = Some (show_nat (unat n))"
  have "canonical_digits (show_nat (unat n))" by (rule show_canonical)
  then show "parse_version_part p = Inr n"
    by (auto simp: p parse_version_part_def canonical_digits_def parse_u64_show)
qed

lemma digits_dotless: "CHR ''.'' \<notin> set (show_nat n)"
  using show_nat_digits[of n] by (auto simp: list_all_iff is_ascii_digit_def)

lemma split_version: "split_on CHR ''.'' (show_version v) =
  [show_nat (unat (major v)), show_nat (unat (minor v)), show_nat (unat (patch v))]"
  unfolding show_version_def by (simp add: split_on_append_delim split_on_free digits_dotless)

text \<open>
  A release tag parses as a version exactly when it is that version written canonically, with or
  without a leading \<open>v\<close>: three decimal numbers of 64 bits without superfluous zeros or signs. So two
  different tags of the same version differ in the \<open>v\<close> only, and what a client prints parses back.
\<close>

theorem version_text_exact:
  "parse_version s = Inr v \<longleftrightarrow> s = show_version v \<or> s = CHR ''v'' # show_version v"
proof
  assume a: "parse_version s = Inr v"
  define t where "t = (case strip_prefix ''v'' s of Some t \<Rightarrow> t | None \<Rightarrow> s)"
  from a have "split_on CHR ''.'' t =
      [show_nat (unat (major v)), show_nat (unat (minor v)), show_nat (unat (patch v))]"
    unfolding parse_version_def t_def[symmetric] Let_def
    by (cases "split_on CHR ''.'' t" rule: next_part.cases; cases v)
       (auto simp: rbind_Inr parse_version_part_exact split: prod.splits if_splits
             elim!: next_part.elims)
  then have "t = show_version v" using join_split[of "CHR ''.''" t] by (simp add: show_version_def)
  then show "s = show_version v \<or> s = CHR ''v'' # show_version v"
    by (auto simp: t_def strip_prefix_Some split: option.splits)
next
  have "hd (show_version v) \<noteq> CHR ''v''" "show_version v \<noteq> []"
    using show_nat_digits[of "unat (major v)"] show_nat_nonempty[of "unat (major v)"]
    by (cases "show_nat (unat (major v))"; auto simp: show_version_def is_ascii_digit_def)+
  then have "strip_prefix ''v'' (show_version v) = None"
    by (cases "show_version v") auto
  moreover assume "s = show_version v \<or> s = CHR ''v'' # show_version v"
  ultimately show "parse_version s = Inr v"
    by (cases v) (auto simp: parse_version_def Let_def split_version parse_version_part_exact[THEN iffD2])
qed

section \<open>What an accepted release guarantees\<close>

text \<open>
  \<open>released r file raw g\<close>: the release \<open>g\<close> was read off \<open>raw\<close> and belongs to the repository \<open>r\<close>;
  exactly one of its assets has the name \<open>file\<close> asks for.
\<close>

definition released :: "repository \<Rightarrow> (version \<Rightarrow> string) \<Rightarrow> raw_release \<Rightarrow> github_release \<Rightarrow> bool" where
  "released r file raw g \<longleftrightarrow>
     (tag_name raw = show_version (release_version g) \<or> tag_name raw = CHR ''v'' # show_version (release_version g)) \<and>
     page_url g = html_url raw \<and>
     (\<exists>a digest. filter (\<lambda>a. asset_name a = file (release_version g)) (assets raw) = [a] \<and>
        release_file g = \<lparr>download_url = browser_download_url a, release_size = asset_size a,
                          sha256_hex = digest\<rparr> \<and>
        asset_digest a = ''sha256:'' @ digest) \<and>
     0 < release_size (release_file g) \<and> unat (release_size (release_file g)) \<le> MAX_ARCHIVE_BYTES \<and>
     valid_sha256 (sha256_hex (release_file g)) \<and>
     ends_with (CHR ''/'' # file (release_version g)) (download_url (release_file g)) \<and>
     (\<forall>url. url = page_url g \<or> url = download_url (release_file g) \<longrightarrow>
        starts_with GITHUB url \<and> starts_with (release_base r) (to_ascii_lowercase url))"

lemma release_digest_Inr:
  "release_digest d = Inr h \<longleftrightarrow> d = ''sha256:'' @ h \<and> valid_sha256 h"
  by (auto simp: release_digest_def rbind_Inr ok_or_Inr strip_prefix_Some split: if_splits)

lemma single_asset:
  "(case filter P xs of [] \<Rightarrow> Inl e | [a] \<Rightarrow> f a | _ # _ # _ \<Rightarrow> Inl e') = Inr g \<longleftrightarrow>
   (\<exists>a. filter P xs = [a] \<and> f a = Inr g)"
  by (auto split: list.splits)

lemma parse_pinned_Inr:
  "rbind (parse_named decode body file) (pinned_to r) = Inr g \<longleftrightarrow>
     (\<exists>raw. decode body = Some raw \<and> released r file raw g)"
  (is "?parsed \<longleftrightarrow> ?released")
proof
  assume ?parsed
  then obtain raw v a h where raw: "decode body = Some raw" "parse_version (tag_name raw) = Inr v"
    "starts_with GITHUB (html_url raw)" "filter (\<lambda>a. asset_name a = file v) (assets raw) = [a]"
    "asset_size a \<noteq> 0" "unat (asset_size a) \<le> MAX_ARCHIVE_BYTES"
    "starts_with GITHUB (browser_download_url a)"
    "ends_with (CHR ''/'' # file v) (browser_download_url a)" "release_digest (asset_digest a) = Inr h"
    "g = \<lparr>release_version = v, page_url = html_url raw,
          release_file = \<lparr>download_url = browser_download_url a, release_size = asset_size a,
                          sha256_hex = h\<rparr>\<rparr>"
    "pinned_to r g = Inr g"
    unfolding parse_named_def Let_def single_asset rbind_Inr ok_or_Inr ensure_Inr
    by (auto simp: single_asset rbind_Inr ensure_Inr pinned_to_def split: if_splits)
  then show ?released
    by (auto simp: released_def version_text_exact release_digest_Inr pinned_to_def word_gt_0
             split: if_splits)
next
  assume ?released
  then obtain raw where raw: "decode body = Some raw" "released r file raw g" by blast
  then obtain a digest where "filter (\<lambda>a. asset_name a = file (release_version g)) (assets raw) = [a]"
    "release_file g = \<lparr>download_url = browser_download_url a, release_size = asset_size a,
                       sha256_hex = digest\<rparr>" "asset_digest a = ''sha256:'' @ digest"
    unfolding released_def by blast
  note a = this
  have "starts_with (release_base r) (to_ascii_lowercase (page_url g))"
    "starts_with (release_base r) (to_ascii_lowercase (download_url (release_file g)))"
    using raw(2) unfolding released_def by blast+
  then have "pinned_to r g = Inr g" by (simp add: pinned_to_def)
  moreover have "parse_named decode body file = Inr g"
    unfolding parse_named_def Let_def single_asset rbind_Inr ok_or_Inr ensure_Inr
  proof (intro exI conjI)
    show "decode body = Some raw" by (rule raw)
    show "parse_version (tag_name raw) = Inr (release_version g)"
      using raw(2) by (simp add: released_def version_text_exact)
    show "starts_with GITHUB (html_url raw)" using raw(2) by (auto simp: released_def)
    show "filter (\<lambda>a. asset_name a = file (release_version g)) (assets raw) = [a]" by (rule a)
    show "asset_size a \<noteq> 0" "unat (asset_size a) \<le> MAX_ARCHIVE_BYTES"
      using raw(2) a(2) by (auto simp: released_def word_gt_0)
    have url: "download_url (release_file g) = browser_download_url a" using a(2) by simp
    have "starts_with GITHUB (download_url (release_file g))"
      "ends_with (CHR ''/'' # file (release_version g)) (download_url (release_file g))"
      using raw(2) unfolding released_def by blast+
    then show "starts_with GITHUB (browser_download_url a)"
      "ends_with (CHR ''/'' # file (release_version g)) (browser_download_url a)"
      by (simp_all add: url)
    show "release_digest (asset_digest a) = Inr (sha256_hex (release_file g))"
      using raw(2) a by (simp add: released_def release_digest_Inr)
    have "page_url g = html_url raw" using raw(2) by (simp add: released_def)
    then show "Inr \<lparr>release_version = release_version g, page_url = html_url raw,
        release_file = \<lparr>download_url = browser_download_url a, release_size = asset_size a,
                        sha256_hex = sha256_hex (release_file g)\<rparr>\<rparr> = Inr g"
      using a(2) by (cases g) simp
  qed
  ultimately show ?parsed by (simp add: rbind_Inr)
qed

text \<open>
  An update is offered exactly when GitHub's answer names one asset for this build: the bundle of
  the flavour, its installer, or the AppImage of the released version. Its page and download address
  lie below the pinned repository, the address ends in the asset's name, the size is between one byte
  and 512 MiB, and the digest is a SHA-256 in lower case. Every other answer is refused.
\<close>

theorem pinned_release_exact:
  "(parse_for_repository decode current r body = Inr g \<longleftrightarrow>
      (\<exists>raw. decode body = Some raw \<and> released r (\<lambda>_. bundle_asset_name current) raw g)) \<and>
   (parse_installer_for_repository decode current r body = Inr g \<longleftrightarrow>
      (\<exists>raw. decode body = Some raw \<and> released r (\<lambda>_. installer_asset_name current) raw g)) \<and>
   (parse_appimage_for_repository decode r body = Inr g \<longleftrightarrow>
      (\<exists>raw. decode body = Some raw \<and> released r appimage_asset_name raw g))"
  by (simp add: parse_for_repository_def parse_installer_for_repository_def
        parse_appimage_for_repository_def parse_for_arch_def parse_installer_for_arch_def
        parse_appimage_def parse_pinned_Inr)

end
