(* ===== verification/Image_Check.thy ===== *)
theory Image_Check
  imports Std_Io Update_Release
begin

unbundle bit_operations_syntax

text \<open>
  The two checks of executable images: \<open>validate_pe\<close> of \<open>crates/multicore-update/src/lib.rs\<close> for
  Windows bundles and \<open>validate_elf64_x86_64\<close> of \<open>crates/multicore-platform/src/elf.rs\<close>. An image is
  its bytes. Both read fixed headers at offsets the image itself names, so what they promise is that
  everything they rely on lies inside the image.
\<close>

definition le_at :: "nat \<Rightarrow> nat \<Rightarrow> string \<Rightarrow> nat" where
  "le_at k offset img = from_le_bytes (take k (drop offset img))"

definition byte_at :: "nat \<Rightarrow> string \<Rightarrow> nat" where
  "byte_at i img = byte (img ! i)"

text \<open>\<open>read_exact\<close> after a seek: the bytes, or nothing when the image ends too early.\<close>

definition read_at :: "nat \<Rightarrow> nat \<Rightarrow> string \<Rightarrow> string option" where
  "read_at offset n img = (if offset + n \<le> length img then Some (take n (drop offset img)) else None)"

section \<open>ELF\<close>

definition HEADER_BYTES :: nat where "HEADER_BYTES = 64"
definition PROGRAM_HEADER_BYTES :: nat where "PROGRAM_HEADER_BYTES = 56"
definition MAX_PROGRAM_HEADERS :: nat where "MAX_PROGRAM_HEADERS = 512"
definition ET_EXEC :: nat where "ET_EXEC = 2"
definition ET_DYN :: nat where "ET_DYN = 3"
definition EM_X86_64 :: nat where "EM_X86_64 = 62"
definition PT_INTERP :: nat where "PT_INTERP = 3"

lemmas elf_constants = HEADER_BYTES_def PROGRAM_HEADER_BYTES_def MAX_PROGRAM_HEADERS_def ET_EXEC_def
  ET_DYN_def EM_X86_64_def PT_INTERP_def

definition elf_header_ok :: "string \<Rightarrow> bool" where
  "elf_header_ok h \<longleftrightarrow>
     take 4 h = CHR 0x7F # ''ELF'' \<and> byte_at 4 h = 2 \<and> byte_at 5 h = 1 \<and> byte_at 6 h = 1 \<and>
     le_at 2 16 h \<in> {ET_EXEC, ET_DYN} \<and> le_at 2 18 h = EM_X86_64 \<and> le_at 4 20 h = 1 \<and>
     le_at 2 52 h = HEADER_BYTES \<and> le_at 2 54 h = PROGRAM_HEADER_BYTES \<and>
     le_at 2 56 h \<noteq> 0 \<and> le_at 2 56 h \<le> MAX_PROGRAM_HEADERS"

text \<open>\<open>chunks_exact\<close>: whole chunks, the rest is dropped.\<close>

function chunks_exact :: "nat \<Rightarrow> string \<Rightarrow> string list" where
  "chunks_exact n s = (if n = 0 \<or> length s < n then [] else take n s # chunks_exact n (drop n s))"
  by pat_completeness auto
termination
  by (relation "measure (\<lambda>(n, s). length s)") auto

declare chunks_exact.simps [simp del]

definition validate_elf64_x86_64 :: "string \<Rightarrow> bool" where
  "validate_elf64_x86_64 img =
     (case read_at 0 HEADER_BYTES img of
        None \<Rightarrow> False
      | Some h \<Rightarrow>
          elf_header_ok h \<and>
          (let offset = le_at 8 32 h; table_bytes = le_at 2 56 h * PROGRAM_HEADER_BYTES
           in case checked_add_u64 offset table_bytes of
                None \<Rightarrow> False
              | Some table_end \<Rightarrow>
                  \<not> (offset < HEADER_BYTES \<or> table_end > length img) \<and>
                  (case read_at offset table_bytes img of
                     None \<Rightarrow> False
                   | Some table \<Rightarrow>
                       let interpreter = list_ex (\<lambda>entry. le_at 4 0 entry = PT_INTERP)
                                           (chunks_exact PROGRAM_HEADER_BYTES table)
                       in \<not> (le_at 2 16 h = ET_DYN \<and> \<not> interpreter))))"

section \<open>PE\<close>

definition PE_SIGNATURE_AND_COFF_SIZE :: nat where "PE_SIGNATURE_AND_COFF_SIZE = 24"
definition SECTION_HEADER_SIZE :: nat where "SECTION_HEADER_SIZE = 40"

definition coff_ok :: "windows_arch \<Rightarrow> string \<Rightarrow> bool" where
  "coff_ok arch coff \<longleftrightarrow>
     take 4 coff = ''PE'' @ [CHR 0x00, CHR 0x00] \<and> le_at 2 4 coff = pe_machine arch \<and>
     le_at 2 6 coff \<noteq> 0 \<and> pe_optional_header_fixed_size arch \<le> le_at 2 20 coff \<and>
     (le_at 2 22 coff div 2) mod 2 = 1 \<and> (le_at 2 22 coff div 0x2000) mod 2 = 0"

definition validate_pe :: "windows_arch \<Rightarrow> string \<Rightarrow> bool" where
  "validate_pe arch img =
     (case read_at 0 64 img of
        None \<Rightarrow> False
      | Some h \<Rightarrow>
          take 2 h = ''MZ'' \<and>
          (let pe_offset = le_at 4 0x3c h
           in case checked_add_u64 pe_offset PE_SIGNATURE_AND_COFF_SIZE of
                None \<Rightarrow> False
              | Some coff_end \<Rightarrow>
                  \<not> (pe_offset < 64 \<or> pe_offset > 16 * 1024 * 1024 \<or> coff_end > length img) \<and>
                  (case read_at pe_offset PE_SIGNATURE_AND_COFF_SIZE img of
                     None \<Rightarrow> False
                   | Some coff \<Rightarrow>
                       coff_ok arch coff \<and>
                       (case checked_add_u64 coff_end (le_at 2 20 coff) of
                          None \<Rightarrow> False
                        | Some optional_end \<Rightarrow>
                            (case checked_add_u64 optional_end (le_at 2 6 coff * SECTION_HEADER_SIZE) of
                               None \<Rightarrow> False
                             | Some section_table_end \<Rightarrow>
                                 \<not> section_table_end > length img \<and>
                                 (case read_at coff_end 2 img of
                                    None \<Rightarrow> False
                                  | Some magic \<Rightarrow> from_le_bytes magic = pe_optional_magic arch))))))"

section \<open>What an accepted img satisfies\<close>

lemma le_at_slice: "offset + k \<le> n \<Longrightarrow> le_at k offset (take n (drop start img)) = le_at k (start + offset) img"
  by (simp add: le_at_def drop_take min_absorb1 add.commute)

lemma from_le_bytes_bound: "from_le_bytes s < 256 ^ length s"
proof (induction s)
  case (Cons c s)
  have "of_char c < (256 :: nat)" by simp
  moreover have "(256 :: nat) ^ length (c # s) = 256 * 256 ^ length s" by simp
  ultimately show ?case using Cons unfolding from_le_bytes.simps by linarith
qed simp

lemma le_at_bound: "le_at k offset img < 256 ^ k"
proof -
  have "le_at k offset img < 256 ^ length (take k (drop offset img))"
    unfolding le_at_def by (rule from_le_bytes_bound)
  also have "\<dots> \<le> 256 ^ k" by (rule power_increasing) auto
  finally show ?thesis .
qed

lemma chunks_exact_nth:
  "length s = m * n \<Longrightarrow> 0 < n \<Longrightarrow>
     chunks_exact n s = map (\<lambda>i. take n (drop (i * n) s)) [0..<m]"
proof (induction m arbitrary: s)
  case 0
  then show ?case by (simp add: chunks_exact.simps)
next
  case (Suc m)
  then have "chunks_exact n s = take n s # chunks_exact n (drop n s)"
    by (simp add: chunks_exact.simps[of n s])
  also have "chunks_exact n (drop n s) = map (\<lambda>i. take n (drop (i * n) (drop n s))) [0..<m]"
    using Suc by (intro Suc.IH) auto
  also have "\<dots> = map (\<lambda>i. take n (drop (i * n) s)) [Suc 0..<Suc m]"
    by (simp add: map_Suc_upt[symmetric] add.commute del: upt_Suc)
  finally show ?case by (simp add: upt_conv_Cons del: upt_Suc)
qed

text \<open>
  An image passes as an ELF64 executable for x86-64 exactly when its header says so and names a
  table of 1 to 512 program headers that begins behind the header and ends inside the image, with an
  interpreter among them if the image is position independent. No addition overflows and no byte
  beyond the image is read, whatever the header claims.
\<close>

theorem elf_check_exact:
  "validate_elf64_x86_64 img \<longleftrightarrow>
     HEADER_BYTES \<le> length img \<and> elf_header_ok (take HEADER_BYTES img) \<and>
     HEADER_BYTES \<le> le_at 8 32 img \<and>
     le_at 8 32 img + le_at 2 56 img * PROGRAM_HEADER_BYTES \<le> length img \<and>
     le_at 8 32 img + le_at 2 56 img * PROGRAM_HEADER_BYTES < 2 ^ 64 \<and>
     (le_at 2 16 img = ET_EXEC \<or>
      (\<exists>i. i < le_at 2 56 img \<and>
         le_at 4 (le_at 8 32 img + i * PROGRAM_HEADER_BYTES) img = PT_INTERP))"
proof (cases "HEADER_BYTES \<le> length img")
  case True
  define h where "h = take HEADER_BYTES img"
  have fields: "le_at 2 16 h = le_at 2 16 img" "le_at 8 32 h = le_at 8 32 img" "le_at 2 56 h = le_at 2 56 img"
    using le_at_slice[of _ _ HEADER_BYTES 0 img] by (simp_all add: h_def HEADER_BYTES_def)
  define n where "n = le_at 2 56 img"
  define offset where "offset = le_at 8 32 img"
  show ?thesis
  proof (cases "offset + n * PROGRAM_HEADER_BYTES \<le> length img")
    case inside: True
    define table where "table = take (n * PROGRAM_HEADER_BYTES) (drop offset img)"
    have "length table = n * PROGRAM_HEADER_BYTES" using inside by (simp add: table_def)
    then have "chunks_exact PROGRAM_HEADER_BYTES table =
        map (\<lambda>i. take PROGRAM_HEADER_BYTES (drop (i * PROGRAM_HEADER_BYTES) table)) [0..<n]"
      by (rule chunks_exact_nth) (simp add: PROGRAM_HEADER_BYTES_def)
    moreover have "le_at 4 0 (take PROGRAM_HEADER_BYTES (drop (i * PROGRAM_HEADER_BYTES) table)) =
        le_at 4 (offset + i * PROGRAM_HEADER_BYTES) img" if "i < n" for i
    proof -
      have "i * PROGRAM_HEADER_BYTES + 4 \<le> n * PROGRAM_HEADER_BYTES"
        using that by (simp add: PROGRAM_HEADER_BYTES_def)
      then show ?thesis
        by (simp add: le_at_slice PROGRAM_HEADER_BYTES_def table_def)
    qed
    ultimately have "list_ex (\<lambda>entry. le_at 4 0 entry = PT_INTERP) (chunks_exact PROGRAM_HEADER_BYTES table)
        \<longleftrightarrow> (\<exists>i. i < n \<and> le_at 4 (offset + i * PROGRAM_HEADER_BYTES) img = PT_INTERP)"
      by (auto simp: list_ex_iff)
    moreover have "elf_header_ok h \<Longrightarrow> le_at 2 16 img = ET_EXEC \<or> le_at 2 16 img = ET_DYN"
      by (simp add: elf_header_ok_def fields)
    moreover have "ET_EXEC \<noteq> ET_DYN" by (simp add: elf_constants)
    moreover have "validate_elf64_x86_64 img \<longleftrightarrow> elf_header_ok h \<and> offset + n * PROGRAM_HEADER_BYTES < 2 ^ 64 \<and>
        HEADER_BYTES \<le> offset \<and>
        \<not> (le_at 2 16 img = ET_DYN \<and> \<not> list_ex (\<lambda>entry. le_at 4 0 entry = PT_INTERP)
             (chunks_exact PROGRAM_HEADER_BYTES table))"
      using True inside
      by (simp add: validate_elf64_x86_64_def read_at_def checked_add_u64_def Let_def h_def[symmetric]
          fields n_def[symmetric] offset_def[symmetric] table_def[symmetric] not_less)
    ultimately show ?thesis
      using True inside unfolding h_def[symmetric] n_def[symmetric] offset_def[symmetric] by auto
  next
    case False
    then show ?thesis
      by (auto simp: validate_elf64_x86_64_def read_at_def checked_add_u64_def Let_def h_def[symmetric]
          fields n_def[symmetric] offset_def[symmetric])
  qed
next
  case False
  then show ?thesis by (simp add: validate_elf64_x86_64_def read_at_def)
qed

text \<open>
  An executable of a bundle passes exactly when it is an image of the wanted architecture: a DOS
  header, a PE signature and a COFF header for that machine at the offset it names (at most 16 MiB),
  at least one section, an optional header of sufficient size with the matching magic, the flags of a
  program that is not a library, and room in the image for the whole section table.
\<close>

theorem pe_check_exact:
  "validate_pe arch img \<longleftrightarrow>
     64 \<le> length img \<and> take 2 img = ''MZ'' \<and>
     (let pe = le_at 4 0x3c img; coff = take PE_SIGNATURE_AND_COFF_SIZE (drop pe img);
          opt = pe + PE_SIGNATURE_AND_COFF_SIZE
      in 64 \<le> pe \<and> pe \<le> 16 * 1024 * 1024 \<and> coff_ok arch coff \<and>
         opt + le_at 2 20 coff + le_at 2 6 coff * SECTION_HEADER_SIZE \<le> length img \<and>
         le_at 2 opt img = pe_optional_magic arch)"
proof (cases "64 \<le> length img")
  case True
  define h where "h = take 64 img"
  define pe where "pe = le_at 4 0x3c img"
  define opt where "opt = pe + PE_SIGNATURE_AND_COFF_SIZE"
  define coff where "coff = take PE_SIGNATURE_AND_COFF_SIZE (drop pe img)"
  have h: "le_at 4 0x3c h = pe" "take 2 h = take 2 img"
    using le_at_slice[of "0x3c" 4 64 0 img] by (simp_all add: h_def pe_def)
  have small: "pe < 2 ^ 32" "le_at 2 20 coff < 2 ^ 16" "le_at 2 6 coff < 2 ^ 16"
    using le_at_bound[of 4 "0x3c" img] le_at_bound[of 2 20 coff] le_at_bound[of 2 6 coff]
    by (simp_all add: pe_def)
  then have sums: "checked_add_u64 pe PE_SIGNATURE_AND_COFF_SIZE = Some opt"
    "checked_add_u64 opt (le_at 2 20 coff) = Some (opt + le_at 2 20 coff)"
    "checked_add_u64 (opt + le_at 2 20 coff) (le_at 2 6 coff * SECTION_HEADER_SIZE) =
      Some (opt + le_at 2 20 coff + le_at 2 6 coff * SECTION_HEADER_SIZE)"
    by (simp_all add: checked_add_u64_def opt_def PE_SIGNATURE_AND_COFF_SIZE_def SECTION_HEADER_SIZE_def)
  show ?thesis
  proof (cases "opt + le_at 2 20 coff + le_at 2 6 coff * SECTION_HEADER_SIZE \<le> length img")
    case inside: True
    then have coff: "read_at pe PE_SIGNATURE_AND_COFF_SIZE img = Some coff"
      by (simp add: read_at_def opt_def coff_def)
    have "2 \<le> le_at 2 20 coff" if "coff_ok arch coff"
      using that by (cases arch) (simp_all add: coff_ok_def)
    then have "coff_ok arch coff \<Longrightarrow> read_at opt 2 img = Some (take 2 (drop opt img))"
      using inside by (simp add: read_at_def)
    then show ?thesis
      using True inside
      unfolding validate_pe_def read_at_def[of 0] h_def[symmetric]
      by (auto simp: Let_def h_def[symmetric] h sums coff pe_def[symmetric] opt_def[symmetric]
          coff_def[symmetric] not_less le_at_def[of 2 opt])
  next
    case False
    then show ?thesis
      unfolding validate_pe_def read_at_def[of 0]
      by (auto simp: Let_def h_def[symmetric] h sums pe_def[symmetric] opt_def[symmetric]
          coff_def[symmetric] read_at_def split: option.splits if_splits)
  qed
next
  case False
  then show ?thesis by (simp add: validate_pe_def read_at_def)
qed

end
