(* ===== verification/Update_Bundle.thy ===== *)
theory Update_Bundle
  imports Image_Check
begin

unbundle bit_operations_syntax

text \<open>
  \<open>crates/multicore-update/src/lib.rs\<close>, the unpacking of a release bundle. The archive is a parameter:
  what the zip library answers for each entry. The destination is a tree of the entries below it;
  creating, writing and opening files may fail at any time, as the parameter \<open>allows\<close> says, and SHA-256
  is a parameter.
\<close>

section \<open>Names in an archive\<close>

definition trim_slashes :: "string \<Rightarrow> string" where
  "trim_slashes s = rev (dropWhile (\<lambda>c. c = CHR ''/'') (rev s))"

fun plain_names :: "component list \<Rightarrow> string list option" where
  "plain_names [] = Some []"
| "plain_names (Normal s # cs) = map_option ((#) s) (plain_names cs)"
| "plain_names (_ # cs) = None"

definition safe_archive_name :: "string \<Rightarrow> update_error + string" where
  "safe_archive_name raw =
     (if raw = [] \<or> starts_with ''/'' raw \<or> starts_with [CHR 0x5C] raw \<or> CHR 0x5C \<in> set raw
         \<or> CHR '':'' \<in> set raw \<or> list_ex (\<lambda>c. byte c = 0 \<or> byte c < 0x20) raw
      then Inl (InvalidBundle UnsafePath)
      else let is_dir = ends_with ''/'' raw; trimmed = trim_slashes raw
           in if trimmed = [] \<or> is_absolute trimmed then Inl (InvalidBundle UnsafePath)
              else case plain_names (path_components trimmed) of
                     None \<Rightarrow> Inl (InvalidBundle UnsafePath)
                   | Some names \<Rightarrow>
                       Inr (join_with CHR ''/'' names @ (if is_dir then ''/'' else [])))"

section \<open>The inventory of checksums\<close>

definition SUMS :: string where
  "SUMS = ''SHA256SUMS.txt''"

text \<open>\<open>split_once\<close> with a text as delimiter.\<close>

fun split_once_str :: "string \<Rightarrow> string \<Rightarrow> (string \<times> string) option" where
  "split_once_str d [] = (if d = [] then Some ([], []) else None)"
| "split_once_str d (c # s) =
     (case strip_prefix d (c # s) of
        Some r \<Rightarrow> Some ([], r)
      | None \<Rightarrow> map_option (\<lambda>(a, b). (c # a, b)) (split_once_str d s))"

fun checksum_lines ::
  "(string, string) dict \<Rightarrow> string list \<Rightarrow> update_error + (string, string) dict" where
  "checksum_lines sums [] = Inr sums"
| "checksum_lines sums (line # rest) =
     rbind (ok_or (InvalidBundle ChecksumLine) (split_once_str '' *'' line)) (\<lambda>(digest, raw).
     rbind (safe_archive_name raw) (\<lambda>name.
       if ends_with ''/'' name \<or> name = SUMS \<or> \<not> valid_sha256 digest
       then Inl (InvalidBundle ChecksumEntry)
       else if dict_get sums name \<noteq> None then Inl (InvalidBundle ChecksumDuplicate)
       else checksum_lines (ord_insert name digest sums) rest))"

definition parse_checksums :: "string \<Rightarrow> update_error + (string, string) dict" where
  "parse_checksums bytes =
     (if \<not> valid_utf8 bytes then Inl (InvalidBundle ChecksumsNotUtf8)
      else rbind (checksum_lines [] (str_lines bytes)) (\<lambda>sums.
             if sums = [] then Inl (InvalidBundle ChecksumsEmpty) else Inr sums))"

section \<open>The archive\<close>

record archive_entry =
  entry_name :: string
  unix_mode :: "u32 option"
  is_dir :: bool
  declared_size :: nat
  entry_stream :: stream

type_synonym archive = "archive_entry option list"

text \<open>\<open>by_index\<close> answers with an entry or an error of the zip library; \<open>by_name\<close> looks the name up.\<close>

definition by_name :: "string \<Rightarrow> archive \<Rightarrow> archive_entry option" where
  "by_name name a = find (\<lambda>e. entry_name e = name) (List.map_filter (\<lambda>e. e) a)"

text \<open>\<open>read_to_end\<close>: an empty piece is the end.\<close>

definition read_to_end :: "stream \<Rightarrow> string option" where
  "read_to_end s =
     (if fails s \<and> [] \<notin> set (pieces s) then None
      else Some (concat (takeWhile (\<lambda>p. p \<noteq> []) (pieces s))))"

definition is_link :: "archive_entry \<Rightarrow> bool" where
  "is_link e = (case unix_mode e of None \<Rightarrow> False | Some m \<Rightarrow> m AND 0xF000 = 0xA000)"

record scan =
  seen :: "string list"
  regular :: "string list"
  expanded :: nat

definition scan_entry :: "nat \<Rightarrow> scan \<Rightarrow> archive_entry option \<Rightarrow> update_error + scan" where
  "scan_entry limit sc answer =
     rbind (ok_or ZipFault answer) (\<lambda>e.
     rbind (safe_archive_name (entry_name e)) (\<lambda>name.
       let key = to_ascii_lowercase name
       in if key \<in> set (seen sc) then Inl (InvalidBundle DuplicatePath)
          else let sc = sc\<lparr>seen := key # seen sc\<rparr>
          in if is_link e then Inl (InvalidBundle LinkEntry)
             else if is_dir e then Inr sc
             else case checked_add_u64 (expanded sc) (declared_size e) of
                    None \<Rightarrow> Inl (InvalidBundle SizeOverflow)
                  | Some bytes \<Rightarrow>
                      if bytes > limit then Inl (InvalidBundle ExpandedTooLarge)
                      else Inr (sc\<lparr>expanded := bytes, regular := List.insert name (regular sc)\<rparr>)))"

fun scan_archive :: "nat \<Rightarrow> scan \<Rightarrow> archive \<Rightarrow> update_error + scan" where
  "scan_archive limit sc [] = Inr sc"
| "scan_archive limit sc (e # es) = rbind (scan_entry limit sc e) (\<lambda>sc. scan_archive limit sc es)"

section \<open>The destination\<close>

datatype node = Directory | Regular string

type_synonym tree = "string list \<Rightarrow> node option"

datatype os_call =
    CreateRoot | CreateDirs "string list" | CreateFile "string list" | WriteFile "string list" string
  | FlushFile "string list" | OpenFile "string list"

text \<open>\<open>create_dir_all\<close>: every missing directory on the way, unless a file is in the way.\<close>

definition create_dir_all :: "(os_call \<Rightarrow> bool) \<Rightarrow> string list \<Rightarrow> tree \<Rightarrow> bool \<times> tree" where
  "create_dir_all allows p t =
     (if \<not> allows (CreateDirs p)
         \<or> list_ex (\<lambda>k. case t (take k p) of Some (Regular _) \<Rightarrow> True | _ \<Rightarrow> False) [1..<length p + 1]
      then (False, t)
      else (True, fold (\<lambda>k t. t(take k p \<mapsto> Directory)) [1..<length p + 1] t))"

text \<open>\<open>File::create\<close>: a new or emptied file below an existing directory.\<close>

definition create_file :: "(os_call \<Rightarrow> bool) \<Rightarrow> string list \<Rightarrow> tree \<Rightarrow> bool \<times> tree" where
  "create_file allows p t =
     (if \<not> allows (CreateFile p) \<or> p = [] \<or> t p = Some Directory
         \<or> (butlast p \<noteq> [] \<and> t (butlast p) \<noteq> Some Directory)
      then (False, t) else (True, t(p \<mapsto> Regular [])))"

definition name_path :: "string \<Rightarrow> string list" where
  "name_path name = filter (\<lambda>s. s \<noteq> []) (split_on CHR ''/'' name)"

section \<open>Unpacking\<close>

text \<open>
  The loop that copies one entry; \<open>data\<close> is what has been written to the file. The result is the
  number of bytes written.
\<close>

function copy_entry ::
  "(os_call \<Rightarrow> bool) \<Rightarrow> nat \<Rightarrow> nat \<Rightarrow> string list \<Rightarrow> nat \<Rightarrow> string \<Rightarrow> stream \<Rightarrow> (update_error + nat) \<times> string" where
  "copy_entry allows declared limit p written data s =
     (case read_some (64 * 1024) s of
        (IoFail, _) \<Rightarrow> (Inl UpdateIo, data)
      | (IoDone d, s') \<Rightarrow>
          if d = [] then (Inr written, data)
          else case checked_add_u64 written (length d) of
                 None \<Rightarrow> (Inl (InvalidBundle FileSizeOverflow), data)
               | Some written \<Rightarrow>
                   if written > declared \<or> written > limit then (Inl (InvalidBundle EntryExceeded), data)
                   else if \<not> allows (WriteFile p d) then (Inl UpdateIo, data)
                   else copy_entry allows declared limit p written (data @ d) s')"
  by pat_completeness auto
termination
  by (relation "measure (\<lambda>(allows, declared, limit, p, written, data, s). stream_size s)")
     (auto intro: read_some_shrinks[OF sym])

declare copy_entry.simps [simp del]

definition extract_file ::
  "(string \<Rightarrow> string) \<Rightarrow> (os_call \<Rightarrow> bool) \<Rightarrow> nat \<Rightarrow> (string, string) dict \<Rightarrow> archive_entry \<Rightarrow> string \<Rightarrow> tree
   \<Rightarrow> (update_error + unit) \<times> tree" where
  "extract_file sha256 allows limit sums e name t =
     (let p = name_path name; (made, t) = create_dir_all allows (butlast p) t
      in if \<not> made then (Inl UpdateIo, t)
         else let (created, t) = create_file allows p t
         in if \<not> created then (Inl UpdateIo, t)
            else case copy_entry allows (declared_size e) limit p 0 [] (entry_stream e) of
                   (Inl err, data) \<Rightarrow> (Inl err, t(p \<mapsto> Regular data))
                 | (Inr written, data) \<Rightarrow>
                     let t = t(p \<mapsto> Regular data)
                     in if \<not> allows (FlushFile p) then (Inl UpdateIo, t)
                        else if written \<noteq> declared_size e then (Inl (InvalidBundle EntrySizeMismatch), t)
                        else if name \<noteq> SUMS \<and> dict_get sums name \<noteq> Some (sha256 data)
                        then (Inl (InvalidBundle (ChecksumMismatch name)), t)
                        else (Inr (), t))"

fun extract_entries ::
  "(string \<Rightarrow> string) \<Rightarrow> (os_call \<Rightarrow> bool) \<Rightarrow> nat \<Rightarrow> (string, string) dict \<Rightarrow> archive \<Rightarrow> tree
   \<Rightarrow> (update_error + unit) \<times> tree" where
  "extract_entries sha256 allows limit sums [] t = (Inr (), t)"
| "extract_entries sha256 allows limit sums (answer # rest) t =
     (case rbind (ok_or ZipFault answer) (\<lambda>e. rbind (safe_archive_name (entry_name e)) (\<lambda>name. Inr (e, name))) of
        Inl err \<Rightarrow> (Inl err, t)
      | Inr (e, name) \<Rightarrow>
          (if is_dir e
           then let (made, t) = create_dir_all allows (name_path name) t
                in if made then extract_entries sha256 allows limit sums rest t else (Inl UpdateIo, t)
           else case extract_file sha256 allows limit sums e name t of
                  (Inl err, t) \<Rightarrow> (Inl err, t)
                | (Inr _, t) \<Rightarrow> extract_entries sha256 allows limit sums rest t))"

definition REQUIRED_PE_FILES :: "string list" where
  "REQUIRED_PE_FILES =
     [''MultiCore.exe'', ''cores/mihomo.exe'', ''cores/xray.exe'', ''runtime/multicore-core-host.exe'',
      ''runtime/multicore-daemon.exe'', ''runtime/multicore-updater.exe'']"

definition REQUIRED_BUNDLE_FILES :: "string list" where
  "REQUIRED_BUNDLE_FILES =
     [''MultiCore.exe'', ''README.md'', ''THIRD_PARTY_NOTICES.md'', ''cores/mihomo.exe'', ''cores/xray.exe'',
      ''licenses/Xray-core-MPL-2.0.txt'', ''licenses/mihomo-GPL-3.0.txt'', ''runtime/multicore-core-host.exe'',
      ''runtime/multicore-daemon.exe'', ''runtime/multicore-updater.exe'', ''versions.json'']"

definition check_executable ::
  "(os_call \<Rightarrow> bool) \<Rightarrow> windows_arch \<Rightarrow> tree \<Rightarrow> string \<Rightarrow> update_error + unit" where
  "check_executable allows arch t name =
     (if \<not> allows (OpenFile (name_path name)) then Inl UpdateIo
      else case t (name_path name) of
             Some (Regular img) \<Rightarrow>
               if validate_pe arch img then Inr () else Inl (InvalidBundle (NotExecutable name))
           | _ \<Rightarrow> Inl UpdateIo)"

record bundle_inventory =
  inventory_files :: nat
  expanded_bytes :: nat

definition read_sums :: "archive \<Rightarrow> update_error + (string, string) dict" where
  "read_sums a =
     rbind (ok_or ZipFault (by_name SUMS a)) (\<lambda>e.
       if declared_size e > 64 * 1024 then Inl (InvalidBundle ChecksumsTooLarge)
       else rbind (ok_or UpdateIo (read_to_end (entry_stream e))) parse_checksums)"

text \<open>Everything that is checked before the first file is created.\<close>

definition inspect :: "nat \<Rightarrow> archive \<Rightarrow> update_error + scan \<times> (string, string) dict" where
  "inspect limit a =
     (if a = [] \<or> length a > MAX_ARCHIVE_ENTRIES then Inl (InvalidBundle EntryCount)
      else rbind (scan_archive limit \<lparr>seen = [], regular = [], expanded = 0\<rparr> a) (\<lambda>sc.
        if SUMS \<notin> set (regular sc) then Inl (InvalidBundle ChecksumsMissing)
        else rbind (read_sums a) (\<lambda>sums.
          let payload = filter (\<lambda>n. n \<noteq> SUMS) (regular sc)
          in if set payload \<noteq> set (map fst sums) then Inl (InvalidBundle InventoryMismatch)
             else case find (\<lambda>r. r \<notin> set payload) REQUIRED_BUNDLE_FILES of
                    Some r \<Rightarrow> Inl (InvalidBundle (RequiredMissing r))
                  | None \<Rightarrow> Inr (sc, sums))))"

definition extract_inner ::
  "(string \<Rightarrow> string) \<Rightarrow> (os_call \<Rightarrow> bool) \<Rightarrow> update_error + archive \<Rightarrow> nat \<Rightarrow> windows_arch \<Rightarrow> tree
   \<Rightarrow> (update_error + bundle_inventory) \<times> tree" where
  "extract_inner sha256 allows opened limit arch t =
     (case rbind opened (\<lambda>a. rbind (inspect limit a) (\<lambda>x. Inr (a, x))) of
        Inl err \<Rightarrow> (Inl err, t)
      | Inr (a, sc, sums) \<Rightarrow>
          (case extract_entries sha256 allows limit sums a t of
             (Inl err, t) \<Rightarrow> (Inl err, t)
           | (Inr _, t) \<Rightarrow>
               (rbind (each_result (check_executable allows arch t) REQUIRED_PE_FILES) (\<lambda>_.
                  Inr \<lparr>inventory_files = length (regular sc), expanded_bytes = expanded sc\<rparr>), t)))"

definition effective_expanded_limit :: "nat \<Rightarrow> nat" where
  "effective_expanded_limit requested = min requested MAX_EXPANDED_BYTES"

text \<open>
  The destination as a whole: \<open>None\<close> while it does not exist. \<open>remove_all t\<close> is what removing the
  directory leaves of it, \<open>None\<close> if that succeeds.
\<close>

definition extract_verified_bundle_checked ::
  "(string \<Rightarrow> string) \<Rightarrow> (os_call \<Rightarrow> bool) \<Rightarrow> (tree \<Rightarrow> tree option) \<Rightarrow> update_error + archive \<Rightarrow> nat
   \<Rightarrow> windows_arch \<Rightarrow> tree option \<Rightarrow> (update_error + bundle_inventory) \<times> tree option" where
  "extract_verified_bundle_checked sha256 allows remove_all opened requested arch destination =
     (if destination \<noteq> None then (Inl (InvalidBundle DestinationExists), destination)
      else if \<not> allows CreateRoot then (Inl UpdateIo, destination)
      else case extract_inner sha256 allows opened (effective_expanded_limit requested) arch (\<lambda>_. None) of
             (Inl err, t) \<Rightarrow> (Inl err, remove_all t)
           | (Inr inventory, t) \<Rightarrow> (Inr inventory, Some t))"

text \<open>The entry points: this build's flavour with the limit of a release, a given flavour, a given limit.\<close>

definition extract_verified_bundle where
  "extract_verified_bundle sha256 allows remove_all opened current destination =
     extract_verified_bundle_checked sha256 allows remove_all opened MAX_EXPANDED_BYTES current destination"

definition extract_verified_bundle_for_arch where
  "extract_verified_bundle_for_arch sha256 allows remove_all opened arch destination =
     extract_verified_bundle_checked sha256 allows remove_all opened MAX_EXPANDED_BYTES arch destination"

definition extract_verified_bundle_with_limit where
  "extract_verified_bundle_with_limit sha256 allows remove_all opened requested current destination =
     extract_verified_bundle_checked sha256 allows remove_all opened requested current destination"

definition verify_archive_file ::
  "(string \<Rightarrow> string) \<Rightarrow> string option \<Rightarrow> nat \<Rightarrow> string \<Rightarrow> update_error + unit" where
  "verify_archive_file sha256 file want digest =
     rbind (ok_or UpdateIo file) (\<lambda>bytes.
       if length bytes \<noteq> want then Inl (InvalidBundle (SizeMismatch want (length bytes)))
       else if \<not> valid_sha256 digest \<or> sha256 bytes \<noteq> digest then Inl (InvalidBundle ArchiveChecksum)
       else Inr ())"

end
