(* ===== verification/Bundle_Properties.thy ===== *)
theory Bundle_Properties
  imports Update_Bundle
begin

text \<open>
  What an unpacked bundle satisfies: its names are confined to the destination, its files are exactly
  those its own checksum inventory lists, and a failure leaves nothing behind.
\<close>

section \<open>Names are confined\<close>

definition plain_component :: "string \<Rightarrow> bool" where
  "plain_component s \<longleftrightarrow>
     s \<noteq> [] \<and> s \<noteq> ''.'' \<and> s \<noteq> ''..'' \<and>
     list_all (\<lambda>c. c \<noteq> CHR ''/'' \<and> c \<noteq> CHR 0x5C \<and> c \<noteq> CHR '':'' \<and> 0x20 \<le> byte c) s"

lemma plain_names_Some: "plain_names cs = Some ns \<longleftrightarrow> cs = map Normal ns"
  by (induction cs arbitrary: ns rule: plain_names.induct) auto

lemma filter_join: "\<forall>p\<in>set ps. p \<noteq> [] \<and> d \<notin> set p \<Longrightarrow> filter (\<lambda>s. s \<noteq> []) (split_on d (join_with d ps)) = ps"
  by (cases "ps = []") (auto simp: split_join intro!: filter_True)

lemma filter_split_end: "filter (\<lambda>s. s \<noteq> []) (split_on d (a @ [d])) = filter (\<lambda>s. s \<noteq> []) (split_on d a)"
  using split_on_append[of d a "[]"] by simp

lemma name_path_join:
  assumes "\<forall>s\<in>set ns. plain_component s" "tail = [] \<or> tail = ''/''"
  shows "name_path (join_with CHR ''/'' ns @ tail) = ns"
proof -
  have "\<forall>p\<in>set ns. p \<noteq> [] \<and> CHR ''/'' \<notin> set p"
    using assms(1) by (auto simp: plain_component_def list_all_iff)
  then show ?thesis using assms(2) by (auto simp: name_path_def filter_split_end filter_join)
qed

lemma set_trim_slashes: "set (trim_slashes s) \<subseteq> set s"
  by (auto simp: trim_slashes_def dest: set_dropWhileD)

lemma component_of_Normal: "component_of s = Normal n \<longleftrightarrow> s = n \<and> s \<noteq> ''..''"
  by (auto simp: component_of_def)

lemma map_component_Normal: "map component_of xs = map Normal ns \<Longrightarrow> ns = xs \<and> ''..'' \<notin> set xs"
  by (induction xs arbitrary: ns) (auto simp: Cons_eq_map_conv component_of_Normal)

lemma path_components_Normal:
  assumes "path_components p = map Normal ns" "\<not> is_absolute p"
  shows "ns = filter (\<lambda>s. s \<noteq> ''.'') (filter (\<lambda>s. s \<noteq> []) (split_on CHR ''/'' p))" "''..'' \<notin> set ns"
proof -
  let ?parts = "filter (\<lambda>s. s \<noteq> []) (split_on CHR ''/'' p)"
  have "map component_of (filter (\<lambda>s. s \<noteq> ''.'') ?parts) = map Normal ns"
    using assms by (cases ?parts) (auto simp: path_components_def Cons_eq_map_conv split: if_splits)
  from map_component_Normal[OF this]
  show "ns = filter (\<lambda>s. s \<noteq> ''.'') ?parts" "''..'' \<notin> set ns" by auto
qed

lemma safe_archive_name_Inr:
  assumes "safe_archive_name raw = Inr name"
  obtains ns tail where "name = join_with CHR ''/'' ns @ tail" "tail = (if ends_with ''/'' raw then ''/'' else [])"
    "\<forall>s\<in>set ns. plain_component s" "name_path name = ns"
proof -
  let ?t = "trim_slashes raw"
  from assms obtain ns where ns: "path_components ?t = map Normal ns" "\<not> is_absolute ?t"
    "name = join_with CHR ''/'' ns @ (if ends_with ''/'' raw then ''/'' else [])"
    and raw: "CHR 0x5C \<notin> set raw" "CHR '':'' \<notin> set raw" "\<forall>c\<in>set raw. 0x20 \<le> byte c"
    by (auto simp: safe_archive_name_def Let_def plain_names_Some list_ex_iff not_less split: if_splits option.splits)
  have "plain_component s" if s: "s \<in> set ns" for s
  proof -
    from s have "s \<noteq> []" "s \<noteq> ''.''" "s \<in> set (split_on CHR ''/'' ?t)" "s \<noteq> ''..''"
      using path_components_Normal[OF ns(1,2)] by auto
    moreover from this have "CHR ''/'' \<notin> set s" "set s \<subseteq> set raw"
      using split_on_parts[of s "CHR ''/''" ?t] split_on_subset[of s "CHR ''/''" ?t] set_trim_slashes[of raw] by auto
    ultimately show ?thesis using raw by (auto simp: plain_component_def list_all_iff)
  qed
  then have plain: "\<forall>s\<in>set ns. plain_component s" ..
  have "name_path name = ns" unfolding ns(3) by (rule name_path_join[OF plain]) simp
  with plain ns(3) that show thesis by blast
qed

section \<open>The first pass\<close>

text \<open>The entries of an archive with the names they were given.\<close>

definition named :: "archive \<Rightarrow> (archive_entry \<times> string) list \<Rightarrow> bool" where
  "named a es \<longleftrightarrow> a = map (\<lambda>(e, _). Some e) es \<and>
     (\<forall>(e, n)\<in>set es. safe_archive_name (entry_name e) = Inr n)"

definition files_of :: "(archive_entry \<times> string) list \<Rightarrow> (archive_entry \<times> string) list" where
  "files_of es = filter (\<lambda>(e, _). \<not> is_dir e) es"

abbreviation folded :: "(archive_entry \<times> string) list \<Rightarrow> string list" where
  "folded es \<equiv> map (\<lambda>(_, n). to_ascii_lowercase n) es"

abbreviation declared :: "(archive_entry \<times> string) list \<Rightarrow> nat" where
  "declared es \<equiv> sum_list (map (\<lambda>(e, _). declared_size e) es)"

lemma scan_entry_Inr:
  assumes "scan_entry limit sc answer = Inr sc'"
  obtains e n where "answer = Some e" "safe_archive_name (entry_name e) = Inr n" "\<not> is_link e"
    "to_ascii_lowercase n \<notin> set (seen sc)" "seen sc' = to_ascii_lowercase n # seen sc"
    "regular sc' = (if is_dir e then regular sc else List.insert n (regular sc))"
    "expanded sc' = expanded sc + (if is_dir e then 0 else declared_size e)"
    "\<not> is_dir e \<longrightarrow> expanded sc' \<le> limit"
  using assms
  by (auto simp: scan_entry_def result_simps Let_def checked_add_u64_def split: if_splits option.splits)

lemma scan_archive_Inr:
  assumes "scan_archive limit sc a = Inr sc'" "\<forall>n\<in>set (regular sc). to_ascii_lowercase n \<in> set (seen sc)"
  shows "\<exists>es. named a es \<and> distinct (folded es) \<and> set (folded es) \<inter> set (seen sc) = {} \<and>
     regular sc' = rev (map snd (files_of es)) @ regular sc \<and>
     expanded sc' = expanded sc + declared (files_of es) \<and> (expanded sc \<le> limit \<longrightarrow> expanded sc' \<le> limit)"
  using assms
proof (induction limit sc a rule: scan_archive.induct)
  case (1 limit sc)
  then show ?case by (intro exI[of _ "[]"]) (simp add: named_def files_of_def)
next
  case (2 limit sc answer rest)
  then obtain sc1 where first: "scan_entry limit sc answer = Inr sc1" "scan_archive limit sc1 rest = Inr sc'"
    by (auto simp: result_simps)
  from first(1) show ?case
  proof (rule scan_entry_Inr)
    fix e n
    assume e: "answer = Some e" "safe_archive_name (entry_name e) = Inr n" "\<not> is_link e"
      "to_ascii_lowercase n \<notin> set (seen sc)" "seen sc1 = to_ascii_lowercase n # seen sc"
      "regular sc1 = (if is_dir e then regular sc else List.insert n (regular sc))"
      "expanded sc1 = expanded sc + (if is_dir e then 0 else declared_size e)"
      "\<not> is_dir e \<longrightarrow> expanded sc1 \<le> limit"
    have new: "n \<notin> set (regular sc)" using e(4) "2.prems"(2) by auto
    have "\<forall>n\<in>set (regular sc1). to_ascii_lowercase n \<in> set (seen sc1)" using "2.prems"(2) by (auto simp: e(5,6))
    from "2.IH"[OF first(1,2) this] obtain es where es: "named rest es" "distinct (folded es)"
      "set (folded es) \<inter> set (seen sc1) = {}" "regular sc' = rev (map snd (files_of es)) @ regular sc1"
      "expanded sc' = expanded sc1 + declared (files_of es)" "expanded sc1 \<le> limit \<longrightarrow> expanded sc' \<le> limit"
      by blast
    have "named (answer # rest) ((e, n) # es)" using es(1) e(1,2) by (simp add: named_def)
    moreover have "distinct (folded ((e, n) # es))" "set (folded ((e, n) # es)) \<inter> set (seen sc) = {}"
      using es(2,3) e(4) by (auto simp: e(5))
    moreover have "regular sc' = rev (map snd (files_of ((e, n) # es))) @ regular sc"
      using new by (simp add: es(4) e(6) files_of_def)
    moreover have "expanded sc' = expanded sc + declared (files_of ((e, n) # es))"
      by (simp add: es(5) e(7) files_of_def)
    moreover have "expanded sc \<le> limit \<longrightarrow> expanded sc' \<le> limit" using es(6) e(7,8) by auto
    ultimately show ?thesis by blast
  qed
qed

section \<open>The second pass\<close>

text \<open>The files of a tree, with their contents.\<close>

definition file_in :: "tree \<Rightarrow> string list \<Rightarrow> string \<Rightarrow> bool" where
  "file_in t p b \<longleftrightarrow> t p = Some (Regular b)"

lemma fold_directories:
  "\<forall>k\<in>set ks. \<forall>b. \<not> file_in t (take k p) b \<Longrightarrow>
     file_in (fold (\<lambda>k t. t(take k p \<mapsto> Directory)) ks t) q b \<longleftrightarrow> file_in t q b"
proof (induction ks arbitrary: t)
  case (Cons k ks)
  let ?t = "t(take k p \<mapsto> Directory)"
  have same: "file_in ?t r b' \<longleftrightarrow> file_in t r b'" for r b'
    using Cons.prems by (auto simp: file_in_def)
  then show ?case using Cons.IH[of ?t] Cons.prems by (simp del: fun_upd_apply)
qed simp

lemma create_dir_all_files:
  assumes "create_dir_all allows p t = (made, t')"
  shows "file_in t' q b \<longleftrightarrow> file_in t q b"
proof (cases "made")
  case True
  define ks where "ks = [1..<length p + 1]"
  have "t' = fold (\<lambda>k t. t(take k p \<mapsto> Directory)) ks t"
    "\<not> list_ex (\<lambda>k. case t (take k p) of Some (Regular _) \<Rightarrow> True | _ \<Rightarrow> False) ks"
    using assms True unfolding create_dir_all_def ks_def[symmetric] by (auto split: if_splits)
  moreover from this(2) have "\<forall>k\<in>set ks. \<forall>b. \<not> file_in t (take k p) b"
    by (auto simp: list_ex_iff file_in_def)
  ultimately show ?thesis by (simp add: fold_directories)
next
  case False
  then show ?thesis using assms by (auto simp: create_dir_all_def split: if_splits)
qed

lemma create_file_files:
  "create_file allows p t = (True, t') \<Longrightarrow> t' = t(p \<mapsto> Regular []) \<and> p \<noteq> []"
  by (auto simp: create_file_def split: if_splits)

lemma read_to_end_step:
  assumes "read_some n s = (IoDone d, s')" "0 < n"
  shows "read_to_end s = (if d = [] then Some [] else map_option ((@) d) (read_to_end s'))"
  using assms by (cases "pieces s") (auto simp: read_some.simps read_to_end_def split: if_splits
      simp flip: append_assoc)

lemma copy_entry_Inr:
  "copy_entry allows size' limit p written data s = (Inr w, data') \<Longrightarrow> written = length data \<Longrightarrow>
     w = length data' \<and> (\<exists>c. read_to_end s = Some c \<and> data' = data @ c)"
proof (induction allows size' limit p written data s rule: copy_entry.induct)
  case (1 allows size' limit p written data s)
  obtain r s' where r: "read_some (64 * 1024) s = (r, s')" by fastforce
  then obtain d where d: "r = IoDone d" using "1.prems"(1) by (cases r) (auto simp: copy_entry.simps[of allows])
  note read = r[unfolded d]
  note whole = read_to_end_step[OF read]
  show ?case
  proof (cases "d = []")
    case True
    then show ?thesis using "1.prems" read whole by (auto simp: copy_entry.simps[of allows])
  next
    case False
    then have sum: "checked_add_u64 written (length d) = Some (written + length d)"
      "\<not> (written + length d > size' \<or> written + length d > limit)" "\<not> \<not> allows (WriteFile p d)"
      "copy_entry allows size' limit p (written + length d) (data @ d) s' = (Inr w, data')"
      using "1.prems"(1) read
      by (auto simp: copy_entry.simps[of allows size' limit p written data s] checked_add_u64_def split: if_splits option.splits)
    from "1.IH"[OF read[symmetric] refl False sum(1,2,3,4)] "1.prems"(2) whole False show ?thesis by auto
  qed
qed

text \<open>What a copied file holds: the whole entry, of the declared size, with the listed checksum.\<close>

definition copied :: "(string \<Rightarrow> string) \<Rightarrow> (string, string) dict \<Rightarrow> archive_entry \<Rightarrow> string \<Rightarrow> string \<Rightarrow> bool" where
  "copied sha256 sums e n data \<longleftrightarrow>
     read_to_end (entry_stream e) = Some data \<and> length data = declared_size e \<and>
     (n = SUMS \<or> dict_get sums n = Some (sha256 data))"

lemma extract_file_Inr:
  assumes "extract_file sha256 allows limit sums e n t = (Inr u, t')"
  obtains data where "copied sha256 sums e n data"
    "\<And>q b. file_in t' q b \<longleftrightarrow> (if q = name_path n then b = data else file_in t q b)"
proof -
  let ?p = "name_path n"
  obtain t1 where t1: "create_dir_all allows (butlast ?p) t = (True, t1)"
    using assms unfolding extract_file_def Let_def
    by (cases "create_dir_all allows (butlast ?p) t"; cases "fst (create_dir_all allows (butlast ?p) t)") auto
  obtain t2 where t2: "create_file allows ?p t1 = (True, t2)"
    using assms t1 unfolding extract_file_def Let_def
    by (cases "create_file allows ?p t1"; cases "fst (create_file allows ?p t1)") auto
  obtain w data where w: "copy_entry allows (declared_size e) limit ?p 0 [] (entry_stream e) = (Inr w, data)"
    using assms t1 t2 unfolding extract_file_def Let_def
    by (cases "copy_entry allows (declared_size e) limit ?p 0 [] (entry_stream e)"; cases "fst (copy_entry allows (declared_size e) limit ?p 0 [] (entry_stream e))") auto
  have "w = declared_size e" "n = SUMS \<or> dict_get sums n = Some (sha256 data)" "t' = t2(?p \<mapsto> Regular data)"
    using assms t1 t2 w unfolding extract_file_def Let_def by (auto split: if_splits)
  moreover have "w = length data" "read_to_end (entry_stream e) = Some data"
    using copy_entry_Inr[OF w] by auto
  moreover have "file_in (t2(?p \<mapsto> Regular data)) q b \<longleftrightarrow> (if q = ?p then b = data else file_in t q b)" for q b
    using create_dir_all_files[OF t1, of q b] create_file_files[OF t2] by (auto simp: file_in_def)
  ultimately show thesis by (intro that[of data]) (simp_all add: copied_def)
qed

lemma extract_entries_Inr:
  assumes "extract_entries sha256 allows limit sums a t = (Inr u, t')" "named a es"
    "distinct (map (\<lambda>(_, n). name_path n) (files_of es))"
  shows "(\<forall>(e, n)\<in>set (files_of es). \<exists>data. copied sha256 sums e n data \<and> file_in t' (name_path n) data) \<and>
     (\<forall>q b. q \<notin> (\<lambda>(_, n). name_path n) ` set (files_of es) \<longrightarrow> (file_in t' q b \<longleftrightarrow> file_in t q b))"
  using assms
proof (induction sha256 allows limit sums a t arbitrary: es rule: extract_entries.induct)
  case (1 sha256 allows limit sums t)
  then show ?case by (auto simp: named_def files_of_def)
next
  case (2 sha256 allows limit sums answer rest t)
  obtain e n es' where es: "es = (e, n) # es'" "answer = Some e" "safe_archive_name (entry_name e) = Inr n"
    "named rest es'"
    using "2.prems"(2) by (cases es) (auto simp: named_def)
  have dist: "distinct (map (\<lambda>(_, n). name_path n) (files_of es'))"
    using "2.prems"(3) by (auto simp: es(1) files_of_def split: if_splits)
  have known: "rbind (ok_or ZipFault answer) (\<lambda>e. rbind (safe_archive_name (entry_name e)) (\<lambda>name. Inr (e, name))) = Inr (e, n)"
    by (simp add: es)
  show ?case
  proof (cases "is_dir e")
    case True
    obtain t1 where t1: "create_dir_all allows (name_path n) t = (True, t1)"
      "extract_entries sha256 allows limit sums rest t1 = (Inr u, t')"
      using "2.prems"(1) True by (auto simp: known split: prod.splits if_splits)
    have "files_of es = files_of es'" using True by (simp add: es(1) files_of_def)
    then show ?thesis
      using "2.IH"(1)[OF known refl True t1(1)[symmetric] refl TrueI t1(2) es(4) dist]
        create_dir_all_files[OF t1(1)] by simp
  next
    case False
    obtain v t1 where t1: "extract_file sha256 allows limit sums e n t = (Inr v, t1)"
      "extract_entries sha256 allows limit sums rest t1 = (Inr u, t')"
      using "2.prems"(1) False by (auto simp: known split: prod.splits sum.splits)
    have files: "files_of es = (e, n) # files_of es'" using False by (simp add: es(1) files_of_def)
    note rest = "2.IH"(2)[OF known refl False t1(1)[symmetric] refl t1(2) es(4) dist]
    from t1(1) show ?thesis
    proof (rule extract_file_Inr)
      fix data
      assume data: "copied sha256 sums e n data"
        "\<And>q b. file_in t1 q b \<longleftrightarrow> (if q = name_path n then b = data else file_in t q b)"
      have "name_path n \<notin> (\<lambda>(_, n). name_path n) ` set (files_of es')"
        using "2.prems"(3) by (simp add: files)
      then have "file_in t' (name_path n) data" using rest data(2) by auto
      then show ?thesis using rest data by (auto simp: files)
    qed
  qed
qed

section \<open>The checks between the passes\<close>

lemma checksum_lines_keys:
  "checksum_lines sums lines = Inr sums' \<Longrightarrow> \<forall>n\<in>set (map fst sums). \<not> ends_with ''/'' n \<and> n \<noteq> SUMS \<Longrightarrow>
     \<forall>n\<in>set (map fst sums'). \<not> ends_with ''/'' n \<and> n \<noteq> SUMS"
proof (induction sums lines rule: checksum_lines.induct)
  case (2 sums line rest)
  from "2.prems"(1) obtain digest raw name where l: "split_once_str '' *'' line = Some (digest, raw)"
    "safe_archive_name raw = Inr name" "\<not> (ends_with ''/'' name \<or> name = SUMS \<or> \<not> valid_sha256 digest)"
    "\<not> dict_get sums name \<noteq> None" "checksum_lines (ord_insert name digest sums) rest = Inr sums'"
    by (auto simp: result_simps split: if_splits)
  have "\<forall>n\<in>set (map fst (ord_insert name digest sums)). \<not> ends_with ''/'' n \<and> n \<noteq> SUMS"
    using "2.prems"(2) l(3) by (simp add: keys_ord_insert)
  moreover have "ok_or (InvalidBundle ChecksumLine) (split_once_str '' *'' line) = Inr (digest, raw)"
    by (simp add: l(1))
  ultimately show ?case using "2.IH"[OF _ refl l(2,3,4,5)] by blast
qed simp

lemma parse_checksums_keys:
  "parse_checksums bytes = Inr sums \<Longrightarrow> n \<in> set (map fst sums) \<Longrightarrow> \<not> ends_with ''/'' n \<and> n \<noteq> SUMS"
  using checksum_lines_keys[of "[]" "str_lines bytes" sums]
  by (auto simp: parse_checksums_def result_simps split: if_splits)

lemma SUMS_plain: "safe_archive_name SUMS = Inr SUMS" "\<not> ends_with ''/'' SUMS" "name_path SUMS = [SUMS]"
  by code_simp+

lemma find_None: "find P xs = None \<longleftrightarrow> (\<forall>x\<in>set xs. \<not> P x)"
  by (induction xs) auto

lemma inspect_Inr:
  assumes "inspect limit a = Inr (sc, sums)"
  obtains es where "named a es" "distinct (folded es)" "regular sc = rev (map snd (files_of es))"
    "expanded sc = declared (files_of es)" "expanded sc \<le> limit" "SUMS \<in> snd ` set (files_of es)"
    "read_sums a = Inr sums" "snd ` set (files_of es) = insert SUMS (set (map fst sums))"
    "set REQUIRED_BUNDLE_FILES \<subseteq> set (map fst sums)"
proof -
  from assms have scan: "scan_archive limit \<lparr>seen = [], regular = [], expanded = 0\<rparr> a = Inr sc"
    and sums: "SUMS \<in> set (regular sc)" "read_sums a = Inr sums"
      "set (filter (\<lambda>n. n \<noteq> SUMS) (regular sc)) = set (map fst sums)"
      "find (\<lambda>r. r \<notin> set (filter (\<lambda>n. n \<noteq> SUMS) (regular sc))) REQUIRED_BUNDLE_FILES = None"
    unfolding inspect_def Let_def by (auto simp: result_simps simp del: set_filter split: if_splits option.splits)
  from scan_archive_Inr[OF scan] obtain es where es: "named a es" "distinct (folded es)"
    "regular sc = rev (map snd (files_of es))" "expanded sc = declared (files_of es)" "expanded sc \<le> limit"
    by auto
  have "set (regular sc) = snd ` set (files_of es)" by (simp add: es(3))
  then show thesis using es sums by (intro that[of es]) (auto simp: find_None)
qed

lemma file_name_path:
  assumes "named a es" "(e, n) \<in> set es" "\<not> ends_with ''/'' n"
  shows "join_with CHR ''/'' (name_path n) = n" "\<forall>s\<in>set (name_path n). plain_component s"
proof -
  have "safe_archive_name (entry_name e) = Inr n" using assms(1,2) by (auto simp: named_def)
  then show "join_with CHR ''/'' (name_path n) = n" "\<forall>s\<in>set (name_path n). plain_component s"
    using assms(3)
    by (auto elim!: safe_archive_name_Inr simp: ends_with_def strip_suffix_Some split: if_splits)
qed

lemma distinct_map_inverse: "distinct (map f xs) \<Longrightarrow> (\<And>x. x \<in> set xs \<Longrightarrow> f x = h (g x)) \<Longrightarrow> distinct (map g xs)"
  by (induction xs) (auto simp: image_iff)

section \<open>An unpacked bundle is what its inventory says\<close>

text \<open>
  \<open>verified_tree sha256 arch t\<close>: the inventory in the tree parses; every other file has the checksum
  listed for it and every listed file is there; all paths are plain; nothing required is missing, and
  the programs are images of the architecture.
\<close>

definition verified_tree :: "(string \<Rightarrow> string) \<Rightarrow> windows_arch \<Rightarrow> tree \<Rightarrow> bool" where
  "verified_tree sha256 arch t \<longleftrightarrow>
     (\<exists>listing sums. file_in t [SUMS] listing \<and> parse_checksums listing = Inr sums \<and>
        (\<forall>p b. file_in t p b \<and> p \<noteq> [SUMS] \<longrightarrow> dict_get sums (join_with CHR ''/'' p) = Some (sha256 b)) \<and>
        (\<forall>n\<in>set (map fst sums). \<exists>b. file_in t (name_path n) b \<and> dict_get sums n = Some (sha256 b))) \<and>
     (\<forall>p b. file_in t p b \<longrightarrow> (\<forall>s\<in>set p. plain_component s)) \<and>
     (\<forall>n\<in>set REQUIRED_BUNDLE_FILES. \<exists>b. file_in t (name_path n) b) \<and>
     (\<forall>n\<in>set REQUIRED_PE_FILES. \<exists>img. file_in t (name_path n) img \<and> validate_pe arch img)"

lemma by_name_named:
  assumes "by_name SUMS a = Some e" "named a es"
  shows "(e, SUMS) \<in> set es"
proof -
  have "e \<in> set (List.map_filter (\<lambda>e. e) a)" "entry_name e = SUMS"
    using assms(1) by (auto simp: by_name_def find_Some_iff)
  moreover have "List.map_filter (\<lambda>e. e) a = map fst es"
  proof -
    have "List.map_filter (\<lambda>e. e) (map (\<lambda>(e, _). Some e) es) = map fst es"
      by (induction es) (auto simp: List.map_filter_def)
    then show ?thesis using assms(2) by (simp add: named_def)
  qed
  ultimately obtain n where "(e, n) \<in> set es" "safe_archive_name SUMS = Inr n"
    using assms(2) by (force simp: named_def)
  with SUMS_plain(1) show ?thesis by simp
qed

lemma check_executable_Inr:
  "check_executable allows arch t n = Inr u \<Longrightarrow> \<exists>img. file_in t (name_path n) img \<and> validate_pe arch img"
  by (auto simp: check_executable_def file_in_def split: if_splits option.splits node.splits)

lemma each_executable:
  "each_result (check_executable allows arch t) names = Inr u \<Longrightarrow>
     \<forall>n\<in>set names. \<exists>img. file_in t (name_path n) img \<and> validate_pe arch img"
  using check_executable_Inr by (fastforce simp: each_result_Inr)

lemma extract_inner_Inr:
  assumes "extract_inner sha256 allows opened limit arch (\<lambda>_. None) = (Inr res, t)"
  shows "verified_tree sha256 arch t \<and> expanded_bytes res \<le> limit \<and>
     (\<exists>files. distinct (map fst files) \<and> (\<forall>p b. file_in t p b \<longleftrightarrow> (p, b) \<in> set files) \<and>
        inventory_files res = length files \<and> expanded_bytes res = sum_list (map (\<lambda>(p, b). length b) files))"
proof -
  obtain a sc sums v where run: "inspect limit a = Inr (sc, sums)"
    "extract_entries sha256 allows limit sums a (\<lambda>_. None) = (Inr v, t)"
    "each_result (check_executable allows arch t) REQUIRED_PE_FILES = Inr ()"
    "res = \<lparr>inventory_files = length (regular sc), expanded_bytes = expanded sc\<rparr>"
    using assms unfolding extract_inner_def
    by (auto simp: result_simps split: sum.splits prod.splits)
  from run(1) show ?thesis
  proof (rule inspect_Inr)
    fix es
    assume es: "named a es" "distinct (folded es)" "regular sc = rev (map snd (files_of es))"
      "expanded sc = declared (files_of es)" "expanded sc \<le> limit" "SUMS \<in> snd ` set (files_of es)"
      "read_sums a = Inr sums" "snd ` set (files_of es) = insert SUMS (set (map fst sums))"
      "set REQUIRED_BUNDLE_FILES \<subseteq> set (map fst sums)"
    obtain e0 listing where e0: "by_name SUMS a = Some e0" "read_to_end (entry_stream e0) = Some listing"
      "parse_checksums listing = Inr sums"
      using es(7) by (auto simp: read_sums_def result_simps split: if_splits)
    have sub: "set (files_of es) \<subseteq> set es" by (auto simp: files_of_def)
    have plain: "\<not> ends_with ''/'' n" if "(e, n) \<in> set (files_of es)" for e n
    proof -
      have "n \<in> snd ` set (files_of es)" using that by (rule image_eqI[rotated]) simp
      then have "n = SUMS \<or> n \<in> set (map fst sums)" unfolding es(8) by blast
      then show ?thesis using parse_checksums_keys[OF e0(3)] SUMS_plain(2) by blast
    qed
    have path: "join_with CHR ''/'' (name_path n) = n" "\<forall>s\<in>set (name_path n). plain_component s"
      if "(e, n) \<in> set (files_of es)" for e n
      using file_name_path[OF es(1)] sub that plain[OF that] by blast+
    have "distinct (folded (files_of es))" using es(2) by (auto simp: files_of_def distinct_map intro: inj_on_subset)
    then have paths: "distinct (map (\<lambda>(_, n). name_path n) (files_of es))"
      by (rule distinct_map_inverse[where h = "\<lambda>p. to_ascii_lowercase (join_with CHR ''/'' p)"]) (auto simp: path)
    from extract_entries_Inr[OF run(2) es(1) paths]
    have all: "\<forall>(e, n)\<in>set (files_of es). \<exists>data. copied sha256 sums e n data \<and> file_in t (name_path n) data"
      and only: "\<forall>q b. file_in t q b \<longrightarrow> q \<in> (\<lambda>(_, n). name_path n) ` set (files_of es)"
      by (auto simp: file_in_def)
    define files where "files = map (\<lambda>(e, n). (name_path n, the (read_to_end (entry_stream e)))) (files_of es)"
    have installed: "copied sha256 sums e n (the (read_to_end (entry_stream e))) \<and>
        file_in t (name_path n) (the (read_to_end (entry_stream e)))" if "(e, n) \<in> set (files_of es)" for e n
      using all that by (auto simp: copied_def)
    have content: "file_in t p b \<longleftrightarrow> (p, b) \<in> set files" for p b
    proof
      assume b: "file_in t p b"
      with only obtain e n where "(e, n) \<in> set (files_of es)" "p = name_path n" by auto
      with installed[of e n] b show "(p, b) \<in> set files" by (force simp: files_def file_in_def)
    next
      assume "(p, b) \<in> set files"
      then show "file_in t p b" using installed by (auto simp: files_def)
    qed
    obtain e1 where e1: "(e1, SUMS) \<in> set (files_of es)" using es(6) by auto
    have "(e1, SUMS) \<in> set es" "(e0, SUMS) \<in> set es"
      using e1 sub by_name_named[OF e0(1) es(1)] by blast+
    moreover have "inj_on (\<lambda>(_, n). to_ascii_lowercase n) (set es)" using es(2) by (simp add: distinct_map)
    ultimately have "e1 = e0"
      using inj_onD[of "\<lambda>(_, n). to_ascii_lowercase n" "set es" "(e1, SUMS)" "(e0, SUMS)"] by simp
    with installed[OF e1] e0(2) have sums_file: "file_in t [SUMS] listing" by (simp add: SUMS_plain(3))
    have listed: "dict_get sums (join_with CHR ''/'' p) = Some (sha256 b)" if "file_in t p b" "p \<noteq> [SUMS]" for p b
    proof -
      from that(1) content obtain e n where n: "(e, n) \<in> set (files_of es)" "p = name_path n"
        "b = the (read_to_end (entry_stream e))" by (auto simp: files_def)
      then have "n \<noteq> SUMS" using that(2) SUMS_plain(3) by auto
      with installed[OF n(1)] n path(1)[OF n(1)] show ?thesis by (simp add: copied_def)
    qed
    have present: "\<exists>b. file_in t (name_path n) b \<and> dict_get sums n = Some (sha256 b)" if "n \<in> set (map fst sums)" for n
    proof -
      have "n \<in> snd ` set (files_of es)" using that es(8) by blast
      then obtain e where e: "(e, n) \<in> set (files_of es)" by auto
      have "n \<noteq> SUMS" using parse_checksums_keys[OF e0(3)] that by blast
      with installed[OF e] show ?thesis by (auto simp: copied_def)
    qed
    have "verified_tree sha256 arch t"
      unfolding verified_tree_def
    proof (intro conjI)
      show "\<exists>listing sums. file_in t [SUMS] listing \<and> parse_checksums listing = Inr sums \<and>
          (\<forall>p b. file_in t p b \<and> p \<noteq> [SUMS] \<longrightarrow> dict_get sums (join_with CHR ''/'' p) = Some (sha256 b)) \<and>
          (\<forall>n\<in>set (map fst sums). \<exists>b. file_in t (name_path n) b \<and> dict_get sums n = Some (sha256 b))"
        using sums_file e0(3) listed present by blast
      show "\<forall>p b. file_in t p b \<longrightarrow> (\<forall>s\<in>set p. plain_component s)"
        using only path(2) by fastforce
      show "\<forall>n\<in>set REQUIRED_BUNDLE_FILES. \<exists>b. file_in t (name_path n) b"
        using present es(9) by blast
      show "\<forall>n\<in>set REQUIRED_PE_FILES. \<exists>img. file_in t (name_path n) img \<and> validate_pe arch img"
        using run(3) by (rule each_executable)
    qed
    moreover have "distinct (map fst files)" using paths by (simp add: files_def split_def comp_def)
    moreover have "map (\<lambda>(p, b). length b) files = map (\<lambda>(e, _). declared_size e) (files_of es)"
      using installed by (auto simp: files_def copied_def)
    moreover have "length (regular sc) = length files" by (simp add: es(3) files_def)
    ultimately show ?thesis
      using content es(4,5) by (auto simp: run(4) intro!: exI[of _ files])
  qed
qed

lemma bundle_success:
  assumes "extract_verified_bundle_checked sha256 allows remove_all opened requested arch old = (Inr i, new)"
  shows "old = None \<and> (\<exists>t. new = Some t \<and> verified_tree sha256 arch t)"
  using assms extract_inner_Inr
  by (auto simp: extract_verified_bundle_checked_def split: if_splits prod.splits sum.splits)

text \<open>
  C5. Unpacking a bundle is all or nothing. If it succeeds, the directory was new and now holds exactly
  the files its own \<open>SHA256SUMS.txt\<close> lists, each with the listed checksum, at plain paths below the
  directory, with every required file and valid programs for the architecture; the count and the
  total size reported are those of the files, and the size is at most 1 GiB or the smaller limit asked
  for. If it fails and the directory can be removed, everything is as it was.
\<close>

theorem bundle_all_or_nothing:
  assumes "extract_verified_bundle_checked sha256 allows remove_all opened requested arch old = (res, new)"
  shows "(\<forall>i. res = Inr i \<longrightarrow> old = None \<and>
            (\<exists>t files. new = Some t \<and> verified_tree sha256 arch t \<and>
               distinct (map fst files) \<and> (\<forall>p b. file_in t p b \<longleftrightarrow> (p, b) \<in> set files) \<and>
               inventory_files i = length files \<and>
               expanded_bytes i = sum_list (map (\<lambda>(p, b). length b) files) \<and>
               expanded_bytes i \<le> requested \<and> expanded_bytes i \<le> MAX_EXPANDED_BYTES)) \<and>
         ((\<exists>e. res = Inl e) \<and> (\<forall>t. remove_all t = None) \<longrightarrow> new = old)"
proof (cases "old = None \<and> allows CreateRoot")
  case True
  let ?limit = "effective_expanded_limit requested"
  obtain r t where r: "extract_inner sha256 allows opened ?limit arch (\<lambda>_. None) = (r, t)" by fastforce
  show ?thesis
  proof (cases r)
    case (Inl e)
    then show ?thesis using assms True r by (auto simp: extract_verified_bundle_checked_def)
  next
    case (Inr i)
    then have "res = Inr i" "new = Some t"
      using assms True r by (auto simp: extract_verified_bundle_checked_def)
    moreover have "expanded_bytes i \<le> ?limit \<longrightarrow> expanded_bytes i \<le> requested \<and> expanded_bytes i \<le> MAX_EXPANDED_BYTES"
      by (simp add: effective_expanded_limit_def)
    ultimately show ?thesis
      using True extract_inner_Inr[OF r[unfolded Inr]] by auto
  qed
next
  case False
  then show ?thesis using assms by (auto simp: extract_verified_bundle_checked_def split: if_splits)
qed

end
