(* ===== verification/Core_Hashes.thy ===== *)
theory Core_Hashes
  imports Bundle_Properties
begin

text \<open>
  \<open>service/core_hashes.rs\<close> of the core host: before a core is launched its file is compared with the
  package's \<open>SHA256SUMS.txt\<close>. The service reads the inventory with its own parser; on the inventories
  a release carries it agrees with the updater's.
\<close>

datatype core_hash_error = HashManifest | Unlisted string | Unreadable string | Mismatch string

definition manifest_entry :: "string \<Rightarrow> (string \<times> string) option" where
  "manifest_entry line =
     map_option (\<lambda>(hash, name).
       (dropWhile (\<lambda>c. c = CHR ''*'' \<or> c = CHR '' '') name, to_ascii_lowercase hash))
       (split_once CHR '' '' line)"

definition core_hash_manifest :: "string \<Rightarrow> (string, string) dict" where
  "core_hash_manifest manifest =
     fold (\<lambda>(name, hash). ord_insert name hash) (List.map_filter manifest_entry (str_lines manifest)) []"

text \<open>\<open>read name\<close>: what reading the file below the package gives, if it can be opened and read.\<close>

definition verify_core_hashes ::
  "(string \<Rightarrow> string) \<Rightarrow> (string \<Rightarrow> string option) \<Rightarrow> string list \<Rightarrow> core_hash_error + unit" where
  "verify_core_hashes sha256 read relative =
     rbind (ok_or HashManifest (case read SUMS of
              Some m \<Rightarrow> if valid_utf8 m then Some m else None | None \<Rightarrow> None)) (\<lambda>manifest.
       let sums = core_hash_manifest manifest
       in each_result (\<lambda>name.
            rbind (ok_or (Unlisted name) (dict_get sums name)) (\<lambda>hash.
            rbind (ok_or (Unreadable name) (read name)) (\<lambda>bytes.
              if sha256 bytes \<noteq> hash then Inl (Mismatch name) else Inr ()))) relative)"

section \<open>The two parsers agree\<close>

text \<open>A line as a release's tool writes it: digest, \<open> *\<close> and a name that is already normal.\<close>

definition written_line :: "string \<Rightarrow> string \<times> string \<Rightarrow> bool" where
  "written_line line p \<longleftrightarrow>
     (case p of (n, d) \<Rightarrow> line = d @ '' *'' @ n \<and> valid_sha256 d \<and> safe_archive_name n = Inr n \<and>
        hd n \<noteq> CHR ''*'' \<and> hd n \<noteq> CHR '' '')"

definition written_inventory :: "string \<Rightarrow> bool" where
  "written_inventory m \<longleftrightarrow> (\<forall>line\<in>set (str_lines m). \<exists>p. written_line line p)"

lemma split_once_str_space: "CHR '' '' \<notin> set d \<Longrightarrow> split_once_str '' *'' (d @ '' *'' @ n) = Some (d, n)"
  by (induction d) auto

lemma hex_digits:
  assumes "valid_sha256 d"
  shows "CHR '' '' \<notin> set d" "to_ascii_lowercase d = d"
proof -
  have c: "\<forall>c\<in>set d. is_ascii_hexdigit c \<and> \<not> is_ascii_uppercase c"
    using assms by (simp add: valid_sha256_def list_all_iff)
  show "CHR '' '' \<notin> set d" using c by (auto simp: is_ascii_hexdigit_def is_ascii_digit_def)
  show "to_ascii_lowercase d = d"
    using c by (auto simp: to_ascii_lowercase_def ascii_lower_def is_ascii_uppercase_def intro!: map_idI)
qed

lemma written_line_read:
  assumes "written_line line (n, d)"
  shows "split_once_str '' *'' line = Some (d, n)" "manifest_entry line = Some (n, d)"
proof -
  have l: "line = d @ '' *'' @ n" "valid_sha256 d" "safe_archive_name n = Inr n" "hd n \<noteq> CHR ''*''" "hd n \<noteq> CHR '' ''"
    using assms by (auto simp: written_line_def)
  show "split_once_str '' *'' line = Some (d, n)"
    using split_once_str_space[OF hex_digits(1)[OF l(2)]] l(1) by simp
  have "n \<noteq> []" using l(3) by (auto simp: safe_archive_name_def)
  then have "dropWhile (\<lambda>c. c = CHR ''*'' \<or> c = CHR '' '') (''*'' @ n) = n" using l(4,5) by (cases n) auto
  moreover have "split_once CHR '' '' line = Some (d, ''*'' @ n)"
    using split_once_append[OF hex_digits(1)[OF l(2)], of "''*'' @ n"] l(1) by simp
  ultimately show "manifest_entry line = Some (n, d)"
    by (simp add: manifest_entry_def hex_digits(2)[OF l(2)])
qed

lemma parsers_agree:
  "checksum_lines sums lines = Inr sums' \<Longrightarrow> \<forall>line\<in>set lines. \<exists>p. written_line line p \<Longrightarrow>
     fold (\<lambda>(name, hash). ord_insert name hash) (List.map_filter manifest_entry lines) sums = sums'"
proof (induction sums lines rule: checksum_lines.induct)
  case (2 sums line rest)
  then obtain n d where w: "written_line line (n, d)" by auto
  note r = written_line_read[OF w]
  have n: "safe_archive_name n = Inr n" using w by (simp add: written_line_def)
  have c: "\<not> (ends_with ''/'' n \<or> n = SUMS \<or> \<not> valid_sha256 d)" "\<not> dict_get sums n \<noteq> None"
    "checksum_lines (ord_insert n d sums) rest = Inr sums'"
    using "2.prems"(1) r(1) n by (auto simp: result_simps split: if_splits)
  have "ok_or (InvalidBundle ChecksumLine) (split_once_str '' *'' line) = Inr (d, n)" by (simp add: r)
  with "2.IH"[OF _ refl n c] "2.prems"(2) r(2) show ?case by (simp add: List.map_filter_simps)
qed (simp add: List.map_filter_simps)

lemma manifest_agrees:
  assumes "parse_checksums m = Inr sums" "written_inventory m"
  shows "core_hash_manifest m = sums" "valid_utf8 m"
  using assms parsers_agree[of "[]" "str_lines m" sums]
  by (auto simp: parse_checksums_def core_hash_manifest_def written_inventory_def result_simps split: if_splits)

definition read_tree :: "tree \<Rightarrow> string \<Rightarrow> string option" where
  "read_tree t n = (case t (name_path n) of Some (Regular b) \<Rightarrow> Some b | _ \<Rightarrow> None)"

lemma read_tree_Some: "read_tree t n = Some b \<longleftrightarrow> file_in t (name_path n) b"
  by (auto simp: read_tree_def file_in_def split: option.splits node.splits)

text \<open>
  C29. What the updater verified is what the service compares a core with at launch. After a bundle was
  unpacked, and as long as its inventory file is unchanged, the launch check of any of its files
  passes exactly if each of them still has the checksum of the bytes that were installed; so a core
  that replaced itself is refused, and an untouched one never.
\<close>

theorem launch_check_matches_update:
  assumes "verified_tree sha256 arch t" "file_in t [SUMS] m" "written_inventory m"
    "file_in now [SUMS] m" "\<forall>n\<in>set names. n \<noteq> SUMS \<and> (\<exists>b. file_in t (name_path n) b) \<and> join_with CHR ''/'' (name_path n) = n"
  shows "verify_core_hashes sha256 (read_tree now) names = Inr () \<longleftrightarrow>
     (\<forall>n\<in>set names. \<exists>b installed. file_in now (name_path n) b \<and> file_in t (name_path n) installed \<and>
        sha256 b = sha256 installed)"
proof -
  obtain sums where sums: "parse_checksums m = Inr sums"
    "\<And>p b. file_in t p b \<Longrightarrow> p \<noteq> [SUMS] \<Longrightarrow> dict_get sums (join_with CHR ''/'' p) = Some (sha256 b)"
    using assms(1,2) by (auto simp: verified_tree_def file_in_def)
  note agree = manifest_agrees[OF sums(1) assms(3)]
  have read: "read_tree now SUMS = Some m" using assms(4) by (simp add: read_tree_Some SUMS_plain(3))
  have listed: "dict_get sums n = Some (sha256 installed)" if "n \<in> set names" "file_in t (name_path n) installed" for n installed
  proof -
    have "join_with CHR ''/'' (name_path n) = n" "n \<noteq> SUMS" using assms(5) that(1) by auto
    then show ?thesis using sums(2)[OF that(2)] by (metis join_with.simps(2))
  qed
  have "verify_core_hashes sha256 (read_tree now) names = Inr () \<longleftrightarrow>
      (\<forall>n\<in>set names. \<exists>h b. dict_get sums n = Some h \<and> file_in now (name_path n) b \<and> sha256 b = h)"
  proof -
    have one: "rbind (ok_or (Unlisted n) (dict_get sums n)) (\<lambda>hash.
        rbind (ok_or (Unreadable n) (read_tree now n)) (\<lambda>bytes.
          if sha256 bytes \<noteq> hash then Inl (Mismatch n) else Inr ())) = Inr () \<longleftrightarrow>
        (\<exists>h b. dict_get sums n = Some h \<and> file_in now (name_path n) b \<and> sha256 b = h)" for n
      by (auto simp: result_simps read_tree_Some split: if_splits)
    show ?thesis
      by (simp add: verify_core_hashes_def read agree each_result_Inr Let_def one)
  qed
  also have "\<dots> \<longleftrightarrow> (\<forall>n\<in>set names. \<exists>b installed. file_in now (name_path n) b \<and>
      file_in t (name_path n) installed \<and> sha256 b = sha256 installed)"
    using listed assms(5) by (metis option.inject)
  finally show ?thesis .
qed

end
