(* ===== verification/Update_Swap.thy ===== *)
theory Update_Swap
  imports Update_Bundle
begin

text \<open>
  \<open>crates/multicore-update/src/lib.rs\<close>, putting an unpacked bundle in place: the checks of the three
  directories, the rename that is repeated while another process holds a directory, and the swap that
  keeps the previous version until the new one is published. What renaming a directory does is the
  contract \<open>directory_rename\<close>; repeating a rename keeps the contract, and the swap is proved from it.
\<close>

section \<open>Repeated renames\<close>

datatype os_error = OsError (permission_denied: bool) (raw_os_error: "int option")

definition is_transient_lock :: "os_error \<Rightarrow> bool" where
  "is_transient_lock e \<longleftrightarrow> permission_denied e \<or> raw_os_error e \<in> {Some 5, Some 32, Some 33}"

definition RENAME_RETRY_DELAY_MS :: nat where "RENAME_RETRY_DELAY_MS = 250"
definition RENAME_RETRY_ATTEMPTS :: nat where "RENAME_RETRY_ATTEMPTS = 40"

text \<open>The result, the state of the world and how often the loop slept.\<close>

fun retry_loop :: "('w \<Rightarrow> (os_error + unit) \<times> 'w) \<Rightarrow> nat \<Rightarrow> 'w \<Rightarrow> (os_error + unit) \<times> 'w \<times> nat" where
  "retry_loop operation remaining w =
     (case operation w of
        (Inr _, w') \<Rightarrow> (Inr (), w', 0)
      | (Inl e, w') \<Rightarrow>
          if remaining > 1 \<and> is_transient_lock e
          then let (r, w'', sleeps) = retry_loop operation (remaining - 1) w' in (r, w'', Suc sleeps)
          else (Inl e, w', 0))"

declare retry_loop.simps [simp del]

definition retry_transient ::
  "('w \<Rightarrow> (os_error + unit) \<times> 'w) \<Rightarrow> nat \<Rightarrow> 'w \<Rightarrow> (os_error + unit) \<times> 'w \<times> nat" where
  "retry_transient operation attempts w = retry_loop operation (max attempts 1) w"

type_synonym 'w rename = "string \<Rightarrow> string \<Rightarrow> 'w \<Rightarrow> (os_error + unit) \<times> 'w"

definition rename_with_retry :: "'w rename \<Rightarrow> 'w rename" where
  "rename_with_retry rename a b w =
     (let (r, w', _) = retry_transient (rename a b) RENAME_RETRY_ATTEMPTS w in (r, w'))"

section \<open>The swap\<close>

definition parent_of :: "component list \<Rightarrow> component list option" where
  "parent_of cs = (if cs = [] \<or> last cs = RootDir then None else Some (butlast cs))"

definition path_parent :: "string \<Rightarrow> component list option" where
  "path_parent p = parent_of (path_components p)"

definition same_path :: "string \<Rightarrow> string \<Rightarrow> bool" where
  "same_path a b \<longleftrightarrow> path_components a = path_components b"

definition portable_directory :: "(string \<Rightarrow> bool) \<Rightarrow> (string \<Rightarrow> bool) \<Rightarrow> string \<Rightarrow> update_error + unit" where
  "portable_directory dir_at file_at d =
     ensure (InvalidBundle (InvalidPortable d))
       (dir_at d \<and> file_at (path_join d ''MultiCore.exe'') \<and> file_at (path_join d SUMS))"

definition validate_swap_paths ::
  "(string \<Rightarrow> bool) \<Rightarrow> (string \<Rightarrow> bool) \<Rightarrow> (string \<Rightarrow> bool) \<Rightarrow> string \<Rightarrow> string \<Rightarrow> string \<Rightarrow> update_error + unit" where
  "validate_swap_paths exists dir_at file_at target staged backup =
     (if \<not> is_absolute target \<or> \<not> is_absolute staged \<or> \<not> is_absolute backup
      then Inl (InvalidBundle PathsNotAbsolute)
      else rbind (ok_or (InvalidBundle UnsafeInstallDirectory)
             (case path_parent target of
                Some parent \<Rightarrow> if parent_of parent \<noteq> None then Some parent else None | None \<Rightarrow> None)) (\<lambda>parent.
        if path_parent staged \<noteq> Some parent \<or> path_parent backup \<noteq> Some parent
           \<or> same_path target staged \<or> same_path target backup \<or> same_path staged backup
           \<or> exists backup
        then Inl (InvalidBundle NotIsolatedSiblings)
        else each_result (portable_directory dir_at file_at) [target, staged]))"

datatype swap_error =
  Refused update_error | RenameFailed os_error | RollbackFailed os_error os_error string

definition transactional_swap_with ::
  "'w rename \<Rightarrow> string \<Rightarrow> string \<Rightarrow> string \<Rightarrow> 'w \<Rightarrow> (swap_error + unit) \<times> 'w" where
  "transactional_swap_with rename target staged backup w =
     (case rename target backup w of
        (Inl e, w) \<Rightarrow> (Inl (RenameFailed e), w)
      | (Inr _, w) \<Rightarrow>
          (case rename staged target w of
             (Inl publish, w) \<Rightarrow>
               (case rename backup target w of
                  (Inl rollback, w) \<Rightarrow> (Inl (RollbackFailed publish rollback backup), w)
                | (Inr _, w) \<Rightarrow> (Inl (RenameFailed publish), w))
           | (Inr _, w) \<Rightarrow> (Inr (), w)))"

definition transactional_swap ::
  "'w rename \<Rightarrow> (string \<Rightarrow> bool) \<Rightarrow> (string \<Rightarrow> bool) \<Rightarrow> (string \<Rightarrow> bool) \<Rightarrow> string \<Rightarrow> string \<Rightarrow> string
   \<Rightarrow> 'w \<Rightarrow> (swap_error + unit) \<times> 'w" where
  "transactional_swap rename exists dir_at file_at target staged backup w =
     (case validate_swap_paths exists dir_at file_at target staged backup of
        Inl e \<Rightarrow> (Inl (Refused e), w)
      | Inr _ \<Rightarrow> transactional_swap_with (rename_with_retry rename) target staged backup w)"

section \<open>The contract of a rename\<close>

text \<open>
  \<open>at w p\<close> is the directory at a path, its content being whatever it is. A rename that fails changes
  nothing; one that succeeds moves the directory.
\<close>

locale directory_rename =
  fixes rename :: "'w rename" and at :: "'w \<Rightarrow> string \<Rightarrow> 'd option"
  assumes failed: "rename a b w = (Inl e, w') \<Longrightarrow> at w' = at w"
    and moved: "rename a b w = (Inr u, w') \<Longrightarrow> at w' = (at w)(b := at w a, a := None)"
begin

lemma loop_failed: "retry_loop (rename a b) n w = (Inl e, w', k) \<Longrightarrow> at w' = at w"
proof (induction n arbitrary: w k)
  case 0
  then show ?case
    by (subst (asm) retry_loop.simps) (auto split: prod.splits sum.splits if_splits dest: failed)
next
  case (Suc n)
  then show ?case
    by (subst (asm) retry_loop.simps) (auto split: prod.splits sum.splits if_splits dest: failed)
qed

lemma loop_moved: "retry_loop (rename a b) n w = (Inr u, w', k) \<Longrightarrow> at w' = (at w)(b := at w a, a := None)"
proof (induction n arbitrary: w k)
  case 0
  obtain r w1 where r: "rename a b w = (r, w1)" by fastforce
  with 0 have "r = Inr () \<and> w1 = w'" by (subst (asm) retry_loop.simps) (auto split: sum.splits)
  with r show ?case using moved[of a b w "()" w'] by (simp only: fst_conv)
next
  case (Suc n)
  obtain r w1 where r: "rename a b w = (r, w1)" by fastforce
  show ?case
  proof (cases r)
    case (Inl e)
    then obtain k' where "retry_loop (rename a b) n w1 = (Inr u, w', k')"
      using Suc.prems r
      by (auto simp: retry_loop.simps[of "rename a b" "Suc n" w] split: prod.splits if_splits)
    from Suc.IH[OF this] show ?thesis using failed[OF r[unfolded Inl]] by simp
  next
    case (Inr v)
    then have "w1 = w'" using Suc.prems r by (simp add: retry_loop.simps[of "rename a b" "Suc n" w])
    then show ?thesis using moved[OF r[unfolded Inr]] by (simp only:)
  qed
qed

lemma retried: "directory_rename (rename_with_retry rename) at"
proof
  fix a b w e w'
  assume "rename_with_retry rename a b w = (Inl e, w')"
  then show "at w' = at w"
    by (auto simp: rename_with_retry_def retry_transient_def split: prod.splits dest: loop_failed)
next
  fix a b w u w'
  assume "rename_with_retry rename a b w = (Inr u, w')"
  then obtain k where "retry_loop (rename a b) (max RENAME_RETRY_ATTEMPTS 1) w = (Inr u, w', k)"
    by (auto simp: rename_with_retry_def retry_transient_def split: prod.splits)
  then show "at w' = (at w)(b := at w a, a := None)" by (rule loop_moved)
qed

text \<open>Where the three directories are after a swap: each of its outcomes keeps both versions.\<close>

lemma swap_outcomes:
  assumes "transactional_swap_with rename target staged backup w = (res, w')"
    "at w backup = None" "distinct [target, staged, backup]"
  shows "(res = Inr () \<and> at w' = (at w)(target := at w staged, backup := at w target, staged := None)) \<or>
     (\<exists>e. res = Inl (RenameFailed e) \<and> at w' = at w) \<or>
     (\<exists>e e'. res = Inl (RollbackFailed e e' backup) \<and> at w' = (at w)(target := None, backup := at w target))"
proof -
  obtain r1 w1 where r1: "rename target backup w = (r1, w1)" by fastforce
  obtain r2 w2 where r2: "rename staged target w1 = (r2, w2)" by fastforce
  obtain r3 w3 where r3: "rename backup target w2 = (r3, w3)" by fastforce
  note run = assms(1)[unfolded transactional_swap_with_def r1 prod.case r2 r3]
  show ?thesis
  proof (cases r1)
    case (Inl e)
    then show ?thesis using run failed[OF r1[unfolded Inl]] by auto
  next
    case first: (Inr u)
    note m1 = moved[OF r1[unfolded first]]
    show ?thesis
    proof (cases r2)
      case (Inr v)
      then have "at w' = (at w1)(target := at w1 staged, staged := None)" "res = Inr ()"
        using run first moved[OF r2[unfolded Inr]] by auto
      then show ?thesis using assms(3) by (auto simp: m1 fun_eq_iff)
    next
      case second: (Inl publish)
      have m2: "at w2 = at w1" using failed[OF r2[unfolded second]] .
      show ?thesis
      proof (cases r3)
        case (Inl rollback)
        then have "at w' = at w1" "res = Inl (RollbackFailed publish rollback backup)"
          using run first second failed[OF r3[unfolded Inl]] m2 by auto
        then show ?thesis using assms(3) by (auto simp: m1 fun_eq_iff)
      next
        case (Inr v)
        then have "at w' = (at w1)(target := at w1 backup, backup := None)" "res = Inl (RenameFailed publish)"
          using run first second moved[OF r3[unfolded Inr]] m2 by auto
        then show ?thesis using assms(2,3) by (auto simp: m1 fun_eq_iff)
      qed
    qed
  qed
qed

end

section \<open>A file system to swap on\<close>

text \<open>
  Directories by path, and what the operating system answers to the renames to come: an error, or
  that it is done. Renaming to a path that is taken, or from one that is not, fails.
\<close>

record 'd disk =
  places :: "string \<Rightarrow> 'd option"
  answers :: "os_error option list"

definition NO_SUCH_PLACE :: os_error where
  "NO_SUCH_PLACE = OsError False (Some 2)"

definition rename_once :: "'d disk rename" where
  "rename_once a b w =
     (let w' = w\<lparr>answers := tl (answers w)\<rparr>
      in case answers w of
           Some e # _ \<Rightarrow> (Inl e, w')
         | _ \<Rightarrow> if places w a = None \<or> places w b \<noteq> None then (Inl NO_SUCH_PLACE, w')
                else (Inr (), w'\<lparr>places := (places w)(b := places w a, a := None)\<rparr>))"

interpretation disk: directory_rename rename_once places
proof
  fix a b :: string and w w' :: "'d disk" and e
  assume "rename_once a b w = (Inl e, w')"
  then show "places w' = places w" by (auto simp: rename_once_def Let_def split: list.splits option.splits if_splits)
next
  fix a b :: string and w w' :: "'d disk" and u
  assume "rename_once a b w = (Inr u, w')"
  then show "places w' = (places w)(b := places w a, a := None)"
    by (auto simp: rename_once_def Let_def split: list.splits option.splits if_splits)
qed

lemma siblings_distinct:
  assumes "validate_swap_paths exists dir_at file_at target staged backup = Inr u"
  shows "distinct [target, staged, backup]" "\<not> exists backup"
  using assms by (auto simp: validate_swap_paths_def same_path_def result_simps split: if_splits option.splits)

text \<open>
  C30. Swapping in a new version never loses one. Whatever the renames answer, however often they are
  repeated, one of four things is true afterwards: nothing was touched; the new version is in place and
  the old one is the backup; both are where they were; or publishing and going back both failed, and
  the old version is still the backup that the error names and the new one still the staged directory.
\<close>

theorem swap_never_loses:
  assumes "transactional_swap rename_once (\<lambda>p. places w p \<noteq> None) dir_at file_at target staged backup w = (res, w')"
  shows "(res = Inr () \<and> places w' = (places w)(target := places w staged, backup := places w target, staged := None)) \<or>
     ((\<exists>e. res = Inl (Refused e) \<or> (\<exists>e. res = Inl (RenameFailed e))) \<and> places w' = places w) \<or>
     (\<exists>e e'. res = Inl (RollbackFailed e e' backup) \<and>
        places w' = (places w)(target := None, backup := places w target))"
proof (cases "validate_swap_paths (\<lambda>p. places w p \<noteq> None) dir_at file_at target staged backup")
  case (Inl e)
  then show ?thesis using assms by (auto simp: transactional_swap_def)
next
  case (Inr u)
  note paths = siblings_distinct[OF Inr]
  have "transactional_swap_with (rename_with_retry rename_once) target staged backup w = (res, w')"
    using assms Inr by (simp add: transactional_swap_def)
  from directory_rename.swap_outcomes[OF disk.retried this _ paths(1)] paths(2) show ?thesis by auto
qed

end
