(* ===== verification/Update_Download.thy ===== *)
theory Update_Download
  imports Prelude
begin

text \<open>
  \<open>crates/multicore-update/src/download.rs\<close>: receiving a file of a known size. The reader is the list
  of answers it will give, after which it is at its end; the writer is what it has stored, with two
  parameters for the operating system: whether it takes a piece, and whether flushing succeeds.
\<close>

record download_progress =
  received :: nat
  expected :: nat

text \<open>The code multiplies as \<open>u128\<close>, where \<open>received * 100\<close> cannot overflow.\<close>

definition percent :: "download_progress \<Rightarrow> nat" where
  "percent p = (if expected p = 0 then 0 else min (received p * 100 div expected p) 100)"

datatype download_error = DownloadRead | DownloadWrite | DownloadShort | DownloadLong

datatype read_event = Piece string | Interrupted | Broken

fun event_size :: "read_event \<Rightarrow> nat" where
  "event_size (Piece d) = Suc (length d)"
| "event_size _ = 1"

definition reader_size :: "read_event list \<Rightarrow> nat" where
  "reader_size r = sum_list (map event_size r)"

text \<open>\<open>read(&mut buffer[..limit])\<close>: at most \<open>limit\<close> bytes of the next piece, none at the end.\<close>

fun read_piece :: "nat \<Rightarrow> read_event list \<Rightarrow> read_event \<times> read_event list" where
  "read_piece limit [] = (Piece [], [])"
| "read_piece limit (Piece d # r) =
     (Piece (take limit d), if length d \<le> limit then r else Piece (drop limit d) # r)"
| "read_piece limit (e # r) = (e, r)"

text \<open>What a download leaves: the bytes stored and the calls of \<open>progress\<close>, in order.\<close>

record download =
  stored :: string
  calls :: "download_progress list"

definition DOWNLOAD_BUFFER :: nat where
  "DOWNLOAD_BUFFER = 64 * 1024"

lemma read_piece_shrinks:
  "read_piece n r = (e, r') \<Longrightarrow> e \<noteq> Piece [] \<Longrightarrow> 0 < n \<Longrightarrow> reader_size r' < reader_size r"
  by (cases "(n, r)" rule: read_piece.cases) (auto simp: reader_size_def split: if_splits)

function receive_loop ::
  "(string \<Rightarrow> string \<Rightarrow> bool) \<Rightarrow> nat \<Rightarrow> nat \<Rightarrow> nat \<Rightarrow> read_event list \<Rightarrow> download
   \<Rightarrow> (download_error + nat \<times> read_event list) \<times> download" where
  "receive_loop takes whole got reported r s =
     (if got < whole then
        (case read_piece (min DOWNLOAD_BUFFER (whole - got)) r of
           (Interrupted, r') \<Rightarrow> receive_loop takes whole got reported r' s
         | (Broken, r') \<Rightarrow> (Inl DownloadRead, s)
         | (Piece d, r') \<Rightarrow>
             if d = [] then (Inl DownloadShort, s)
             else if \<not> takes (stored s) d then (Inl DownloadWrite, s)
             else
               let s = s\<lparr>stored := stored s @ d\<rparr>; got = got + length d;
                   p = \<lparr>received = got, expected = whole\<rparr>
               in if percent p \<noteq> reported \<and> got < whole
                  then receive_loop takes whole got (percent p) r' (s\<lparr>calls := calls s @ [p]\<rparr>)
                  else receive_loop takes whole got reported r' s)
      else (Inr (got, r), s))"
  by pat_completeness auto
termination
  by (relation "measure (\<lambda>(takes, whole, got, reported, r, s). reader_size r)")
     (auto simp: DOWNLOAD_BUFFER_def intro!: read_piece_shrinks[OF sym])

declare receive_loop.simps [simp del]

fun nothing_follows :: "read_event list \<Rightarrow> download_error + unit" where
  "nothing_follows [] = Inr ()"
| "nothing_follows (Piece d # r) = (if d = [] then Inr () else Inl DownloadLong)"
| "nothing_follows (Interrupted # r) = nothing_follows r"
| "nothing_follows (Broken # r) = Inl DownloadRead"

definition receive_exact ::
  "(string \<Rightarrow> string \<Rightarrow> bool) \<Rightarrow> (string \<Rightarrow> bool) \<Rightarrow> nat \<Rightarrow> read_event list
   \<Rightarrow> (download_error + unit) \<times> download" where
  "receive_exact takes flushes whole r =
     (let start = \<lparr>received = 0, expected = whole\<rparr>;
          (res, s) = receive_loop takes whole 0 (percent start) r \<lparr>stored = [], calls = [start]\<rparr>
      in case res of
           Inl e \<Rightarrow> (Inl e, s)
         | Inr (got, r') \<Rightarrow>
             (case nothing_follows r' of
                Inl e \<Rightarrow> (Inl e, s)
              | Inr _ \<Rightarrow>
                  if \<not> flushes (stored s) then (Inl DownloadWrite, s)
                  else (Inr (),
                        if whole > 0
                        then s\<lparr>calls := calls s @ [\<lparr>received = got, expected = whole\<rparr>]\<rparr>
                        else s)))"

section \<open>Exactly the declared bytes, and few calls\<close>

text \<open>The bytes a reader delivers before its end, unless it breaks first.\<close>

fun delivered :: "read_event list \<Rightarrow> string option" where
  "delivered [] = Some []"
| "delivered (Piece d # r) = (if d = [] then Some [] else map_option ((@) d) (delivered r))"
| "delivered (Interrupted # r) = delivered r"
| "delivered (Broken # r) = None"

lemma read_piece_delivered:
  assumes "read_piece n r = (Piece d, r')" "d \<noteq> []" "0 < n"
  shows "delivered r = map_option ((@) d) (delivered r')" "length d \<le> n"
  using assms
  by (cases "(n, r)" rule: read_piece.cases; cases "delivered r'";
      fastforce split: if_splits simp flip: append_assoc)+

lemma read_piece_interrupted: "read_piece n r = (Interrupted, r') \<Longrightarrow> delivered r = delivered r'"
  by (cases "(n, r)" rule: read_piece.cases) auto

lemma nothing_follows_Inr: "nothing_follows r = Inr u \<longleftrightarrow> delivered r = Some []"
  by (induction r rule: nothing_follows.induct) auto

lemma percent_mono: "got \<le> got' \<Longrightarrow> percent \<lparr>received = got, expected = w\<rparr> \<le> percent \<lparr>received = got', expected = w\<rparr>"
proof -
  assume "got \<le> got'"
  then have "got * 100 div w \<le> got' * 100 div w" by (intro div_le_mono) simp
  then show ?thesis by (auto simp: percent_def)
qed

lemma percent_partial: "got < w \<Longrightarrow> percent \<lparr>received = got, expected = w\<rparr> < 100"
  by (auto simp: percent_def min_less_iff_disj less_mult_imp_div_less)

text \<open>The calls so far: they start at zero, their percentages grow, and none says a hundred.\<close>

definition calls_ok :: "nat \<Rightarrow> nat \<Rightarrow> download \<Rightarrow> bool" where
  "calls_ok whole reported s \<longleftrightarrow>
     calls s \<noteq> [] \<and> hd (calls s) = \<lparr>received = 0, expected = whole\<rparr> \<and>
     percent (last (calls s)) = reported \<and> received (last (calls s)) \<le> length (stored s) \<and>
     sorted_wrt (<) (map percent (calls s)) \<and>
     list_all (\<lambda>p. expected p = whole \<and> percent p < 100) (calls s)"

lemma calls_ok_stored: "calls_ok w rep s \<Longrightarrow> calls_ok w rep (s\<lparr>stored := stored s @ d\<rparr>)"
  by (simp add: calls_ok_def)

lemma calls_ok_snoc:
  assumes "calls_ok w rep s" "length (stored s) < w"
    "percent \<lparr>received = length (stored s), expected = w\<rparr> \<noteq> rep"
  shows "calls_ok w (percent \<lparr>received = length (stored s), expected = w\<rparr>)
           (s\<lparr>calls := calls s @ [\<lparr>received = length (stored s), expected = w\<rparr>]\<rparr>)"
proof -
  let ?p = "\<lparr>received = length (stored s), expected = w\<rparr>"
  obtain cs q where cs: "calls s = cs @ [q]"
    using assms(1) by (cases "calls s" rule: rev_cases) (auto simp: calls_ok_def)
  then have q: "expected q = w" "percent q = rep" "received q \<le> length (stored s)"
    using assms(1) by (auto simp: calls_ok_def)
  have "rep \<le> percent ?p"
    using percent_mono[OF q(3), of w] q(1,2) by (cases q) simp
  with assms(3) have "rep < percent ?p" by simp
  moreover have "\<forall>x\<in>set cs. percent x < rep"
    using assms(1) q(2) by (auto simp: calls_ok_def cs sorted_wrt_append)
  ultimately show ?thesis
    using assms(1) q(2) percent_partial[OF assms(2)]
    by (cases cs) (auto simp: calls_ok_def cs sorted_wrt_append)
qed
lemma receive_loop_sound:
  assumes "receive_loop takes w got rep r s = (res, s')" "got = length (stored s)" "got \<le> w"
    "calls_ok w rep s"
  shows "\<exists>rep' d. calls_ok w rep' s' \<and> stored s' = stored s @ d \<and> length (stored s') \<le> w \<and>
     (\<forall>got' r'. res = Inr (got', r') \<longrightarrow>
        got' = w \<and> length (stored s') = w \<and> delivered r = map_option ((@) d) (delivered r'))"
  using assms
proof (induction takes w got rep r s rule: receive_loop.induct)
  case (1 takes w got rep r s)
  show ?case
  proof (cases "got < w")
    case False
    then have "s' = s" "res = Inr (got, r)" "got = w"
      using "1.prems"(1,3) by (simp_all add: receive_loop.simps)
    moreover have "delivered r = map_option ((@) []) (delivered r)" by (cases "delivered r") auto
    ultimately show ?thesis using "1.prems"(2,4) by auto
  next
    case True
    let ?n = "min DOWNLOAD_BUFFER (w - got)"
    have n: "0 < ?n" using True by (simp add: DOWNLOAD_BUFFER_def)
    obtain e r1 where e: "read_piece ?n r = (e, r1)" by fastforce
    have step: "receive_loop takes w got rep r s =
      (case e of
         Interrupted \<Rightarrow> receive_loop takes w got rep r1 s
       | Broken \<Rightarrow> (Inl DownloadRead, s)
       | Piece d \<Rightarrow>
           if d = [] then (Inl DownloadShort, s)
           else if \<not> takes (stored s) d then (Inl DownloadWrite, s)
           else
             let s = s\<lparr>stored := stored s @ d\<rparr>; got = got + length d;
                 p = \<lparr>received = got, expected = w\<rparr>
             in if percent p \<noteq> rep \<and> got < w
                then receive_loop takes w got (percent p) r1 (s\<lparr>calls := calls s @ [p]\<rparr>)
                else receive_loop takes w got rep r1 s)"
      using True e by (subst receive_loop.simps) (simp split: read_event.split)
    consider "e = Interrupted" | "s' = s" "\<exists>x. res = Inl x"
      | d where "e = Piece d" "d \<noteq> []" "takes (stored s) d"
      using "1.prems"(1) unfolding step by (auto split: read_event.splits if_splits)
    then show ?thesis
    proof cases
      case 1
      then have "receive_loop takes w got rep r1 s = (res, s')" using "1.prems"(1) step by simp
      with "1.IH"(3)[OF True e[symmetric] 1] "1.prems"(2-4) read_piece_interrupted e 1
      show ?thesis by simp
    next
      case 2
      then show ?thesis using "1.prems" by auto
    next
      case (3 d)
      note piece = read_piece_delivered[OF e[unfolded 3(1)] 3(2) n]
      let ?s = "s\<lparr>stored := stored s @ d\<rparr>" and ?got = "got + length d"
      let ?p = "\<lparr>received = ?got, expected = w\<rparr>"
      have got: "?got = length (stored ?s)" "?got \<le> w" using "1.prems"(2) piece(2) True by simp_all arith
      have ok: "calls_ok w rep ?s" using "1.prems"(4) by (rule calls_ok_stored)
      have step: "receive_loop takes w got rep r s =
          (if percent ?p \<noteq> rep \<and> ?got < w
           then receive_loop takes w ?got (percent ?p) r1 (?s\<lparr>calls := calls ?s @ [?p]\<rparr>)
           else receive_loop takes w ?got rep r1 ?s)"
        using step 3 by (simp add: Let_def)
      have "\<exists>rep' d'. calls_ok w rep' s' \<and> stored s' = (stored s @ d) @ d' \<and> length (stored s') \<le> w \<and>
          (\<forall>got' r'. res = Inr (got', r') \<longrightarrow>
            got' = w \<and> length (stored s') = w \<and> delivered r1 = map_option ((@) d') (delivered r'))"
      proof (cases "percent ?p \<noteq> rep \<and> ?got < w")
        case True
        let ?s' = "?s\<lparr>calls := calls ?s @ [?p]\<rparr>"
        have "receive_loop takes w ?got (percent ?p) r1 ?s' = (res, s')"
          using "1.prems"(1) unfolding step if_P[OF True] .
        moreover have "calls_ok w (percent ?p) ?s'" using calls_ok_snoc[OF ok] True got by simp
        ultimately show ?thesis
          using "1.IH"(1)[OF \<open>got < w\<close> e[symmetric] 3(1,2) _ refl refl refl True] 3(3) got by simp
      next
        case False
        note False' = False
        have "receive_loop takes w ?got rep r1 ?s = (res, s')"
          using "1.prems"(1) unfolding step if_not_P[OF False] .
        then show ?thesis
          using "1.IH"(2)[OF \<open>got < w\<close> e[symmetric] 3(1,2) _ refl refl refl False] 3(3) got ok by simp
      qed
      then obtain rep' d' where "calls_ok w rep' s'" "stored s' = stored s @ (d @ d')"
        "length (stored s') \<le> w"
        "\<forall>got' r'. res = Inr (got', r') \<longrightarrow>
           got' = w \<and> length (stored s') = w \<and> delivered r1 = map_option ((@) d') (delivered r')"
        unfolding append_assoc by blast
      moreover have "map_option ((@) d) (map_option ((@) d') x) = map_option ((@) (d @ d')) x" for x :: "string option"
        by (cases x) simp_all
      ultimately show ?thesis using piece(1) by metis
    qed
  qed
qed

lemma receive_loop_complete:
  assumes "delivered r = Some d" "got + length d = w" "\<forall>b p. takes b p"
  shows "\<exists>r' s'. receive_loop takes w got rep r s = (Inr (w, r'), s') \<and> delivered r' = Some []"
  using assms
proof (induction takes w got rep r s arbitrary: d rule: receive_loop.induct)
  case (1 takes w got rep r s)
  show ?case
  proof (cases "got < w")
    case False
    then have "d = []" "got = w" using "1.prems"(2) by auto
    then show ?thesis using "1.prems" by (simp add: receive_loop.simps)
  next
    case True
    let ?n = "min DOWNLOAD_BUFFER (w - got)"
    have n: "0 < ?n" using True by (simp add: DOWNLOAD_BUFFER_def)
    obtain e r1 where e: "read_piece ?n r = (e, r1)" by fastforce
    have "e \<noteq> Broken" "e \<noteq> Piece []"
      using e "1.prems"(1,2) True n
      by (cases "(?n, r)" rule: read_piece.cases; auto split: if_splits simp del: min_less_iff_conj)+
    then consider "e = Interrupted" | p where "e = Piece p" "p \<noteq> []" by (cases e) auto
    then show ?thesis
    proof cases
      case 1
      then have "delivered r1 = Some d" using read_piece_interrupted e "1.prems"(1) by metis
      moreover have "receive_loop takes w got rep r s = receive_loop takes w got rep r1 s"
        using True e 1 by (subst receive_loop.simps) simp
      ultimately show ?thesis
        using "1.IH"(3)[OF True e[symmetric] 1 _ "1.prems"(2,3)] by (simp only: )
    next
      case (2 p)
      note piece = read_piece_delivered[OF e[unfolded 2(1)] 2(2) n]
      then obtain d' where d': "delivered r1 = Some d'" "d = p @ d'" using "1.prems"(1) by (cases "delivered r1") auto
      let ?got = "got + length p" and ?s = "s\<lparr>stored := stored s @ p\<rparr>"
      let ?p = "\<lparr>received = ?got, expected = w\<rparr>"
      have step: "receive_loop takes w got rep r s =
          (if percent ?p \<noteq> rep \<and> ?got < w
           then receive_loop takes w ?got (percent ?p) r1 (?s\<lparr>calls := calls ?s @ [?p]\<rparr>)
           else receive_loop takes w ?got rep r1 ?s)"
        using True e 2 "1.prems"(3) by (subst receive_loop.simps) (simp add: Let_def)
      have nn: "\<not> \<not> takes (stored s) p" using "1.prems"(3) by simp
      have sum: "?got + length d' = w" using d'(2) "1.prems"(2) by simp
      show ?thesis
      proof (cases "percent ?p \<noteq> rep \<and> ?got < w")
        case True
        show ?thesis
          using "1.IH"(1)[OF \<open>got < w\<close> e[symmetric] 2 nn refl refl refl True d'(1) sum "1.prems"(3)]
          unfolding step if_P[OF True] .
      next
        case False
        show ?thesis
          using "1.IH"(2)[OF \<open>got < w\<close> e[symmetric] 2 nn refl refl refl False d'(1) sum "1.prems"(3)]
          unfolding step if_not_P[OF False] .
      qed
    qed
  qed
qed

lemma few_percents: "sorted_wrt (<) (xs :: nat list) \<Longrightarrow> list_all (\<lambda>x. x \<le> 100) xs \<Longrightarrow> length xs \<le> 101"
proof -
  assume xs: "sorted_wrt (<) xs" "list_all (\<lambda>x. x \<le> 100) xs"
  then have "length xs = card (set xs)" by (simp add: distinct_card strict_sorted_iff)
  also have "\<dots> \<le> card {..100::nat}"
    using xs(2) by (intro card_mono) (auto simp: list_all_iff)
  finally show ?thesis by simp
qed

text \<open>
  A download either stops in the state its loop reached, and then something failed, or ends in that state
  with the last report added.
\<close>

lemma receive_exact_outcome:
  assumes "receive_exact takes flushes whole r = (res, s)"
  shows "\<exists>s1 rep. calls_ok whole rep s1 \<and> length (stored s1) \<le> whole \<and>
    (s = s1 \<and> res \<noteq> Inr () \<and> \<not> ((\<forall>b p. takes b p) \<and> (\<forall>b. flushes b) \<and> map_option length (delivered r) = Some whole) \<or>
     res = Inr () \<and> delivered r = Some (stored s1) \<and> length (stored s1) = whole \<and> flushes (stored s1) \<and>
     s = (if whole > 0 then s1\<lparr>calls := calls s1 @ [\<lparr>received = whole, expected = whole\<rparr>]\<rparr> else s1))"
proof -
  let ?start = "\<lparr>received = 0, expected = whole\<rparr>"
  let ?s0 = "\<lparr>stored = [], calls = [?start]\<rparr>"
  obtain res1 s1 where loop: "receive_loop takes whole 0 (percent ?start) r ?s0 = (res1, s1)" by fastforce
  have "calls_ok whole (percent ?start) ?s0" by (simp add: calls_ok_def percent_def)
  from receive_loop_sound[OF loop _ _ this] obtain rep d where inv: "calls_ok whole rep s1"
    "stored s1 = d" "length (stored s1) \<le> whole"
    "\<forall>got' r'. res1 = Inr (got', r') \<longrightarrow>
        got' = whole \<and> length (stored s1) = whole \<and> delivered r = map_option ((@) d) (delivered r')"
    by auto
  note complete = receive_loop_complete[of r _ 0 whole takes "percent ?start" ?s0]
  show ?thesis
  proof (cases res1)
    case (Inl e)
    then have "\<not> ((\<forall>b p. takes b p) \<and> map_option length (delivered r) = Some whole)" using complete loop by auto
    then show ?thesis using assms loop Inl inv(1,3) by (auto simp: receive_exact_def)
  next
    case (Inr x)
    then obtain r' where r': "res1 = Inr (whole, r')" using inv(4) by (cases x) auto
    show ?thesis
    proof (cases "nothing_follows r'")
      case (Inl e)
      then have "delivered r' \<noteq> Some []" using nothing_follows_Inr[of r'] by force
      then have "\<not> ((\<forall>b p. takes b p) \<and> map_option length (delivered r) = Some whole)" using complete loop r' by auto
      moreover have "s = s1" "res \<noteq> Inr ()" using assms loop r' Inl by (auto simp: receive_exact_def)
      ultimately show ?thesis using inv(1,3) by blast
    next
      case (Inr u)
      then have "delivered r' = Some []" using nothing_follows_Inr[of r'] by simp
      then have "delivered r = Some (stored s1)" "length (stored s1) = whole" using inv(2,4) r' by auto
      then show ?thesis
        using assms loop r' Inr inv(1)
        by (intro exI [of _ s1] exI [of _ rep]) (auto simp: receive_exact_def split: if_splits)
    qed
  qed
qed

lemma calls_ok_percents: "calls_ok whole rep s1 \<Longrightarrow> list_all (\<lambda>x. x \<le> 100) (map percent (calls s1))"
  by (auto simp: calls_ok_def list_all_iff)

text \<open>
  C31. A download succeeds only with exactly the declared number of bytes, all of them stored, nothing
  after them and the writer flushed; when the reader delivers exactly those and the writer takes them,
  it succeeds. Whatever happens, never more than the declared size is stored, and the progress is
  told at most 101 times, with growing percentages from zero.
\<close>

theorem download_exact:
  assumes "receive_exact takes flushes whole r = (res, s)"
  shows "length (stored s) \<le> whole \<and> sorted_wrt (<) (map percent (calls s)) \<and> length (calls s) \<le> 101 \<and>
     hd (calls s) = \<lparr>received = 0, expected = whole\<rparr> \<and>
     (res = Inr () \<longrightarrow> delivered r = Some (stored s) \<and> length (stored s) = whole \<and> flushes (stored s) \<and>
        last (calls s) = \<lparr>received = whole, expected = whole\<rparr>) \<and>
     ((\<forall>b p. takes b p) \<and> (\<forall>b. flushes b) \<and> map_option length (delivered r) = Some whole \<longrightarrow> res = Inr ())"
proof -
  obtain s1 rep where inv: "calls_ok whole rep s1" "length (stored s1) \<le> whole"
    and outcome: "s = s1 \<and> res \<noteq> Inr () \<and>
        \<not> ((\<forall>b p. takes b p) \<and> (\<forall>b. flushes b) \<and> map_option length (delivered r) = Some whole) \<or>
      res = Inr () \<and> delivered r = Some (stored s1) \<and> length (stored s1) = whole \<and> flushes (stored s1) \<and>
      s = (if whole > 0 then s1\<lparr>calls := calls s1 @ [\<lparr>received = whole, expected = whole\<rparr>]\<rparr> else s1)"
    using receive_exact_outcome [OF assms] by blast
  note percents = calls_ok_percents [OF inv(1)]
  have few: "length (calls s1) \<le> 101"
    using inv(1) percents few_percents[of "map percent (calls s1)"] by (simp add: calls_ok_def)
  have full: "percent \<lparr>received = whole, expected = whole\<rparr> = 100" if "whole > 0"
    using that by (simp add: percent_def)
  have end_call: "last (calls s1) = \<lparr>received = whole, expected = whole\<rparr>" if "whole = 0"
  proof -
    have "last (calls s1) \<in> set (calls s1)" using inv(1) by (simp add: calls_ok_def)
    then show ?thesis using inv that by (cases "last (calls s1)") (auto simp: calls_ok_def list_all_iff)
  qed
  show ?thesis
    using outcome
  proof (elim disjE)
    assume ok: "res = Inr () \<and> delivered r = Some (stored s1) \<and> length (stored s1) = whole \<and> flushes (stored s1) \<and>
      s = (if whole > 0 then s1\<lparr>calls := calls s1 @ [\<lparr>received = whole, expected = whole\<rparr>]\<rparr> else s1)"
    then show ?thesis
      using inv percents few_percents[of "map percent (calls s)"] few full end_call
      by (auto simp: calls_ok_def sorted_wrt_append list_all_iff)
  qed (use inv few in \<open>auto simp: calls_ok_def\<close>)
qed

theorem download_exact_witness:
  "\<exists>s. receive_exact (\<lambda>_ _. True) (\<lambda>_. True) 3 [Interrupted, Piece ''ab'', Piece ''c''] = (Inr (), s) \<and>
       stored s = ''abc'' \<and> length (calls s) \<le> 101"
proof -
  obtain res s where run: "receive_exact (\<lambda>_ _. True) (\<lambda>_. True) 3 [Interrupted, Piece ''ab'', Piece ''c''] = (res, s)"
    by fastforce
  from download_exact[OF this] run show ?thesis by auto
qed

end
