(* ===== verification/Update_Samples.thy ===== *)
theory Update_Samples
  imports Core_Hashes Update_Swap Update_Download
begin

definition zeros :: "nat \<Rightarrow> string" where
  "zeros n = replicate n (CHR 0x00)"

definition sample_pe :: string where
  "sample_pe = (''MZ'' @ zeros 58) @ le_bytes 4 64
     @ (''PE'' @ zeros 2 @ le_bytes 2 0x014c @ le_bytes 2 1 @ zeros 12 @ le_bytes 2 96 @ le_bytes 2 2)
     @ le_bytes 2 0x010b @ zeros 134"

lemma sample_pe_valid: "validate_pe X86 sample_pe"
proof -
  let ?coff = "''PE'' @ zeros 2 @ le_bytes 2 0x014c @ le_bytes 2 1 @ zeros 12 @ le_bytes 2 96 @ le_bytes 2 2"
  have le: "from_le_bytes (le_bytes 2 n) = n" if "n < 65536" for n
    using from_le_bytes_le[of n 2] that by simp
  have pe: "le_at 4 0x3c sample_pe = 64"
    using from_le_bytes_le[of 64 4] by (simp add: le_at_def sample_pe_def zeros_def)
  have coff: "take PE_SIGNATURE_AND_COFF_SIZE (drop 64 sample_pe) = ?coff"
    by (simp add: sample_pe_def zeros_def PE_SIGNATURE_AND_COFF_SIZE_def)
  have fields: "le_at 2 4 ?coff = 0x014c" "le_at 2 6 ?coff = 1" "le_at 2 20 ?coff = 96" "le_at 2 22 ?coff = 2"
    "take 4 ?coff = ''PE'' @ zeros 2"
    by (simp_all add: le_at_def zeros_def le del: append_Cons)
  have "le_at 2 88 sample_pe = 0x010b" by (simp add: le_at_def sample_pe_def zeros_def le)
  moreover have "length sample_pe = 224" "take 2 sample_pe = ''MZ''" by (simp_all add: sample_pe_def zeros_def)
  ultimately show ?thesis
    unfolding pe_check_exact Let_def pe coff coff_ok_def fields
    by (simp add: PE_SIGNATURE_AND_COFF_SIZE_def SECTION_HEADER_SIZE_def zeros_def numeral_2_eq_2)
qed

definition sample_entry :: "string \<Rightarrow> string \<Rightarrow> archive_entry" where
  "sample_entry n d =
     \<lparr>entry_name = n, unix_mode = None, is_dir = False, declared_size = length d,
      entry_stream = \<lparr>pieces = [d], fails = False\<rparr>\<rparr>"

definition sample_content :: "string \<Rightarrow> string" where
  "sample_content n = (if n \<in> set REQUIRED_PE_FILES then sample_pe else ''x'')"

definition sample_digest :: string where
  "sample_digest = replicate 64 CHR ''0''"

definition sample_hash :: "string \<Rightarrow> string" where
  "sample_hash b = (if b = ''y'' then replicate 64 CHR ''1'' else sample_digest)"

definition sample_sums :: string where
  "sample_sums = concat (map (\<lambda>n. sample_digest @ '' *'' @ n @ [newline]) REQUIRED_BUNDLE_FILES)"

definition sample_names :: "string list" where
  "sample_names = SUMS # REQUIRED_BUNDLE_FILES"

definition sample_file :: "string \<Rightarrow> string" where
  "sample_file n = (if n = SUMS then sample_sums else sample_content n)"

definition sample_archive :: archive where
  "sample_archive = map (\<lambda>n. Some (sample_entry n (sample_file n))) sample_names"

lemma copy_whole:
  assumes "d \<noteq> []" "length d \<le> 65536" "length d \<le> limit" "length d < 2 ^ 64"
  shows "copy_entry (\<lambda>_. True) (length d) limit p 0 [] \<lparr>pieces = [d], fails = False\<rparr> = (Inr (length d), d)"
proof -
  have "read_some (64 * 1024) \<lparr>pieces = [d], fails = False\<rparr> = (IoDone d, \<lparr>pieces = [], fails = False\<rparr>)"
    using assms by (simp add: read_some.simps)
  moreover have "read_some (64 * 1024) \<lparr>pieces = [], fails = False\<rparr> = (IoDone [], \<lparr>pieces = [], fails = False\<rparr>)"
    by (simp add: read_some.simps)
  ultimately show ?thesis
    using assms by (subst copy_entry.simps, simp add: checked_add_u64_def) (subst copy_entry.simps, simp)
qed

lemma sample_names_ok:
  "list_all (\<lambda>n. safe_archive_name n = Inr n \<and> name_path n \<noteq> []) sample_names"
  "distinct (map to_ascii_lowercase sample_names)" "distinct sample_names"
  "list_all (\<lambda>n. newline \<notin> set n \<and> CHR 0x0D \<notin> set n \<and> is_ascii n \<and> \<not> ends_with ''/'' n \<and> n \<noteq> SUMS) REQUIRED_BUNDLE_FILES"
  "list_all (\<lambda>n. n \<in> set REQUIRED_BUNDLE_FILES) REQUIRED_PE_FILES"
  by code_simp+

lemma sample_heads: "list_all (\<lambda>n. hd n \<noteq> CHR ''*'' \<and> hd n \<noteq> CHR '' '') REQUIRED_BUNDLE_FILES"
  by code_simp

lemma sample_paths_apart:
  "list_all (\<lambda>m. list_all (\<lambda>n. m = n \<or> take (length (name_path m)) (name_path n) \<noteq> name_path m) sample_names) sample_names"
  by code_simp

lemma sample_total: "sum_list (map length REQUIRED_BUNDLE_FILES) \<le> 1000" "length REQUIRED_BUNDLE_FILES = 11"
  by code_simp+

lemma scan_sample:
  assumes "list_all (\<lambda>n. safe_archive_name n = Inr n) ns" "distinct (map to_ascii_lowercase ns)"
    "\<forall>n\<in>set ns. to_ascii_lowercase n \<notin> set (seen sc)" "\<forall>n\<in>set (regular sc). to_ascii_lowercase n \<in> set (seen sc)"
    "expanded sc + sum_list (map (\<lambda>n. length (c n)) ns) \<le> limit" "limit < 2 ^ 64"
  shows "scan_archive limit sc (map (\<lambda>n. Some (sample_entry n (c n))) ns) =
     Inr \<lparr>seen = rev (map to_ascii_lowercase ns) @ seen sc, regular = rev ns @ regular sc,
          expanded = expanded sc + sum_list (map (\<lambda>n. length (c n)) ns)\<rparr>"
  using assms
proof (induction ns arbitrary: sc)
  case (Cons n ns)
  let ?sc = "\<lparr>seen = to_ascii_lowercase n # seen sc, regular = n # regular sc, expanded = expanded sc + length (c n)\<rparr>"
  have "n \<notin> set (regular sc)" using Cons.prems(3,4) by auto
  then have "scan_entry limit sc (Some (sample_entry n (c n))) = Inr ?sc"
    using Cons.prems by (simp add: scan_entry_def sample_entry_def is_link_def checked_add_u64_def Let_def)
  moreover have "scan_archive limit ?sc (map (\<lambda>n. Some (sample_entry n (c n))) ns) =
     Inr \<lparr>seen = rev (map to_ascii_lowercase ns) @ seen ?sc, regular = rev ns @ regular ?sc,
          expanded = expanded ?sc + sum_list (map (\<lambda>n. length (c n)) ns)\<rparr>"
  proof (rule Cons.IH)
    have "\<forall>m\<in>set ns. to_ascii_lowercase m \<noteq> to_ascii_lowercase n"
      using Cons.prems(2) by (auto simp: image_iff)
    then show "\<forall>m\<in>set ns. to_ascii_lowercase m \<notin> set (seen ?sc)" using Cons.prems(3) by auto
  qed (use Cons.prems in auto)
  ultimately show ?case by simp
qed simp

lemma split_lines: "\<forall>l\<in>set ls. newline \<notin> set l \<Longrightarrow> split_on newline (concat (map (\<lambda>l. l @ [newline]) ls)) = ls @ [[]]"
  by (induction ls) (auto simp: split_on_append_delim)

lemma str_lines_written:
  "\<forall>l\<in>set ls. newline \<notin> set l \<and> CHR 0x0D \<notin> set l \<Longrightarrow> str_lines (concat (map (\<lambda>l. l @ [newline]) ls)) = ls"
  by (auto simp: str_lines_def split_lines drop_cr_id intro!: map_idI)

lemma checksum_sample:
  assumes "list_all (\<lambda>n. safe_archive_name n = Inr n \<and> \<not> ends_with ''/'' n \<and> n \<noteq> SUMS) ns" "distinct ns"
    "valid_sha256 d" "\<forall>n\<in>set ns. dict_get sums n = None"
  shows "\<exists>sums'. checksum_lines sums (map (\<lambda>n. d @ '' *'' @ n) ns) = Inr sums' \<and>
     (\<forall>n. dict_get sums' n = (if n \<in> set ns then Some d else dict_get sums n))"
  using assms
proof (induction ns arbitrary: sums)
  case (Cons n ns)
  have "split_once_str '' *'' (d @ '' *'' @ n) = Some (d, n)"
    by (rule split_once_str_space[OF hex_digits(1)[OF Cons.prems(3)]])
  moreover have "\<exists>sums'. checksum_lines (ord_insert n d sums) (map (\<lambda>n. d @ '' *'' @ n) ns) = Inr sums' \<and>
     (\<forall>m. dict_get sums' m = (if m \<in> set ns then Some d else dict_get (ord_insert n d sums) m))"
    using Cons.prems by (intro Cons.IH) (auto simp: get_ord_insert)
  ultimately show ?case using Cons.prems by (auto simp: get_ord_insert)
qed simp

lemma fold_places:
  "fold (\<lambda>k t. t(take k p \<mapsto> Directory)) ks t q =
     (if \<exists>k\<in>set ks. q = take k p then Some Directory else t q)"
  by (induction ks arbitrary: t) auto

lemma made_directory: "q \<noteq> [] \<Longrightarrow> fold (\<lambda>k t. t(take k q \<mapsto> Directory)) [1..<length q + 1] t q = Some Directory"
  unfolding fold_places by (auto intro!: bexI[of _ "length q"] simp: Suc_le_eq)

lemma cut_of: "take k q = p \<Longrightarrow> take (length p) q = p"
  by (auto simp: min_def)

lemma extract_sample:
  assumes "list_all (\<lambda>n. safe_archive_name n = Inr n \<and> c n \<noteq> [] \<and> length (c n) \<le> 65536 \<and> length (c n) \<le> limit \<and>
      name_path n \<noteq> [] \<and> (n = SUMS \<or> dict_get sums n = Some (sha256 (c n)))) ns"
    "\<forall>m\<in>set ns. \<forall>n\<in>set ns. m \<noteq> n \<longrightarrow> take (length (name_path m)) (name_path n) \<noteq> name_path m" "distinct ns"
    "\<forall>n\<in>set ns. (\<forall>k b. \<not> file_in t (take k (name_path n)) b) \<and> t (name_path n) \<noteq> Some Directory"
  shows "\<exists>t'. extract_entries sha256 (\<lambda>_. True) limit sums (map (\<lambda>n. Some (sample_entry n (c n))) ns) t = (Inr (), t')"
  using assms
proof (induction ns arbitrary: t)
  case (Cons n ns)
  let ?p = "name_path n" and ?q = "butlast (name_path n)"
  define t1 where "t1 = fold (\<lambda>k t. t(take k ?q \<mapsto> Directory)) [1..<length ?q + 1] t"
  have cuts: "\<exists>j. take k ?q = take j ?p" for k by (auto simp: butlast_conv_take take_take)
  have free: "\<not> file_in t (take k ?q) b" for k b
  proof -
    obtain j where "take k ?q = take j ?p" using cuts by blast
    with Cons.prems(4) show ?thesis by auto
  qed
  then have made: "create_dir_all (\<lambda>_. True) ?q t = (True, t1)"
    unfolding t1_def
    by (auto simp: create_dir_all_def list_ex_iff file_in_def split: option.splits node.splits simp del: upt_Suc)
  have shorter: "?p \<noteq> take k ?q" for k
  proof -
    have "?p \<noteq> []" using Cons.prems(1) by simp
    then have "length (take k ?q) < length ?p" by (cases ?p rule: rev_cases) (auto simp: min_def)
    then show ?thesis using arg_cong[of ?p "take k ?q" length] by (metis less_irrefl_nat)
  qed
  have "t1 ?p = t ?p" using shorter by (simp add: t1_def fold_places)
  moreover have "?q \<noteq> [] \<longrightarrow> t1 ?q = Some Directory"
    unfolding t1_def using made_directory by blast
  ultimately have created: "create_file (\<lambda>_. True) ?p t1 = (True, t1(?p \<mapsto> Regular []))"
    using Cons.prems(1,4) by (auto simp: create_file_def)
  let ?t2 = "t1(?p \<mapsto> Regular (c n))"
  have "extract_file sha256 (\<lambda>_. True) limit sums (sample_entry n (c n)) n t = (Inr (), ?t2)"
    using Cons.prems(1) made created copy_whole[of "c n" limit ?p]
    by (auto simp: extract_file_def Let_def sample_entry_def)
  moreover have "\<exists>t'. extract_entries sha256 (\<lambda>_. True) limit sums (map (\<lambda>n. Some (sample_entry n (c n))) ns) ?t2 = (Inr (), t')"
  proof (rule Cons.IH)
    show "\<forall>m\<in>set ns. (\<forall>k b. \<not> file_in ?t2 (take k (name_path m)) b) \<and> ?t2 (name_path m) \<noteq> Some Directory"
    proof (intro ballI conjI allI)
      fix m k b
      assume m: "m \<in> set ns"
      then have "m \<noteq> n" using Cons.prems(3) by auto
      then have apart: "take (length ?p) (name_path m) \<noteq> ?p"
        "take (length (name_path m)) ?p \<noteq> name_path m" using Cons.prems(2) m by auto
      then have "take k (name_path m) \<noteq> ?p" using cut_of by metis
      moreover have "\<not> file_in t (take k (name_path m)) b" using Cons.prems(4) m by simp
      ultimately show "\<not> file_in ?t2 (take k (name_path m)) b"
        using create_dir_all_files[OF made, of "take k (name_path m)" b] by (simp add: file_in_def)
      have "name_path m \<noteq> take j ?q" for j
        using apart(2) cuts[of j] cut_of by metis
      then show "?t2 (name_path m) \<noteq> Some Directory"
        using Cons.prems(4) m by (auto simp: t1_def fold_places)
    qed
  qed (use Cons.prems in auto)
  ultimately show ?case using Cons.prems(1) by (auto simp: sample_entry_def)
qed simp

lemma sample_sizes: "length sample_pe = 224" "length sample_sums \<le> 2000" "737 \<le> length sample_sums" "length sample_digest = 64"
proof -
  show "length sample_pe = 224" by (simp add: sample_pe_def zeros_def)
  show d: "length sample_digest = 64" by (simp add: sample_digest_def)
  have "length sample_sums = sum_list (map (\<lambda>n. 67 + length n) REQUIRED_BUNDLE_FILES)"
    by (simp add: sample_sums_def length_concat d comp_def add.commute)
  also have "\<dots> = 67 * length REQUIRED_BUNDLE_FILES + sum_list (map length REQUIRED_BUNDLE_FILES)"
    by (simp only: sum_list_addf) (simp add: sum_list_triv)
  finally have "length sample_sums = 737 + sum_list (map length REQUIRED_BUNDLE_FILES)" by (simp add: sample_total(2))
  then show "length sample_sums \<le> 2000" "737 \<le> length sample_sums" using sample_total(1) by auto
qed

lemma sample_file_size: "sample_file n \<noteq> []" "length (sample_file n) \<le> 2000"
  using sample_sizes by (auto simp: sample_file_def sample_content_def)

lemma sample_hash_length: "length b \<noteq> 1 \<Longrightarrow> sample_hash b = sample_digest"
  by (auto simp: sample_hash_def)

lemma sample_hash_other: "sample_hash sample_pe = sample_digest" "sample_hash sample_sums = sample_digest"
  "sample_hash ''x'' = sample_digest"
proof -
  show "sample_hash sample_pe = sample_digest" "sample_hash sample_sums = sample_digest"
    by (rule sample_hash_length, use sample_sizes(1,3) in simp)+
  show "sample_hash ''x'' = sample_digest" by (simp add: sample_hash_def)
qed

lemma sample_file_hash: "sample_hash (sample_file n) = sample_digest"
  by (simp add: sample_file_def sample_content_def sample_hash_other)

lemma sample_sums_read:
  obtains sums where "parse_checksums sample_sums = Inr sums" "written_inventory sample_sums"
    "\<And>n. dict_get sums n = (if n \<in> set REQUIRED_BUNDLE_FILES then Some sample_digest else None)"
proof -
  let ?line = "\<lambda>n. sample_digest @ '' *'' @ n"
  have digest: "valid_sha256 sample_digest" "newline \<notin> set sample_digest" "CHR 0x0D \<notin> set sample_digest" "is_ascii sample_digest"
    by (simp_all add: sample_digest_def valid_sha256_def list_all_iff is_ascii_hexdigit_def is_ascii_digit_def
        is_ascii_uppercase_def is_ascii_def)
  have names: "\<forall>n\<in>set REQUIRED_BUNDLE_FILES. safe_archive_name n = Inr n \<and> newline \<notin> set n \<and> CHR 0x0D \<notin> set n \<and>
      is_ascii n \<and> \<not> ends_with ''/'' n \<and> n \<noteq> SUMS"
    using sample_names_ok(1,4) by (auto simp: list_all_iff sample_names_def)
  have joined: "sample_sums = concat (map (\<lambda>l. l @ [newline]) (map ?line REQUIRED_BUNDLE_FILES))"
    by (simp add: sample_sums_def comp_def)
  have lines: "str_lines sample_sums = map ?line REQUIRED_BUNDLE_FILES"
    unfolding joined by (rule str_lines_written) (use digest names in auto)
  have "distinct REQUIRED_BUNDLE_FILES" using sample_names_ok(3) by (simp add: sample_names_def)
  with checksum_sample[of REQUIRED_BUNDLE_FILES sample_digest "[]"] names digest(1) obtain sums where
    sums: "checksum_lines [] (map ?line REQUIRED_BUNDLE_FILES) = Inr sums"
      "\<forall>n. dict_get sums n = (if n \<in> set REQUIRED_BUNDLE_FILES then Some sample_digest else None)"
    by (auto simp: list_all_iff)
  have "hd REQUIRED_BUNDLE_FILES \<in> set REQUIRED_BUNDLE_FILES"
    using sample_total(2) by (intro hd_in_set) auto
  then have "dict_get sums (hd REQUIRED_BUNDLE_FILES) \<noteq> None" by (simp add: sums(2))
  then have "sums \<noteq> []" by auto
  moreover have "valid_utf8 sample_sums"
    by (rule is_ascii_valid_utf8) (use digest(4) names in \<open>auto simp: sample_sums_def is_ascii_def list_all_iff\<close>)
  ultimately have "parse_checksums sample_sums = Inr sums"
    unfolding parse_checksums_def lines sums(1) by simp
  moreover have "written_inventory sample_sums"
    unfolding written_inventory_def lines
  proof
    fix line assume "line \<in> set (map ?line REQUIRED_BUNDLE_FILES)"
    then obtain n where n: "n \<in> set REQUIRED_BUNDLE_FILES" "line = ?line n" by auto
    then have "written_line line (n, sample_digest)"
      using names digest(1) sample_heads by (auto simp: written_line_def list_all_iff)
    then show "\<exists>p. written_line line p" ..
  qed
  ultimately show thesis using that sums(2) by blast
qed

lemma sample_inspected:
  obtains sc sums where "inspect MAX_EXPANDED_BYTES sample_archive = Inr (sc, sums)"
    "\<And>n. dict_get sums n = (if n \<in> set REQUIRED_BUNDLE_FILES then Some sample_digest else None)"
    "parse_checksums sample_sums = Inr sums"
proof (rule sample_sums_read)
  fix sums
  assume sums: "parse_checksums sample_sums = Inr sums"
    "\<And>n. dict_get sums n = (if n \<in> set REQUIRED_BUNDLE_FILES then Some sample_digest else None)"
  have keys: "set (map fst sums) = set REQUIRED_BUNDLE_FILES"
    using dom_map_of_conv_image_fst[of sums] sums(2) by (auto simp: dom_def split: if_splits)
  let ?sc0 = "\<lparr>seen = [], regular = [], expanded = 0\<rparr>"
  have len: "length sample_names = 12" by (simp add: sample_names_def sample_total(2))
  have "sum_list (map (\<lambda>n. length (sample_file n)) sample_names) \<le> sum_list (map (\<lambda>_. 2000) sample_names)"
    by (rule sum_list_mono) (rule sample_file_size(2))
  then have total: "sum_list (map (\<lambda>n. length (sample_file n)) sample_names) \<le> MAX_EXPANDED_BYTES"
    by (simp add: sum_list_triv len MAX_EXPANDED_BYTES_def)
  obtain sc where scan: "scan_archive MAX_EXPANDED_BYTES ?sc0 sample_archive = Inr sc" "regular sc = rev sample_names"
    using scan_sample[of sample_names ?sc0 sample_file MAX_EXPANDED_BYTES] sample_names_ok(1,2) total
    by (auto simp: sample_archive_def MAX_EXPANDED_BYTES_def list_all_iff)
  have read: "read_sums sample_archive = Inr sums"
    using sums(1) sample_sizes(2) sample_file_size(1)[of SUMS]
    by (simp add: read_sums_def by_name_def sample_archive_def sample_names_def sample_entry_def sample_file_def
        List.map_filter_simps read_to_end_def)
  have "filter (\<lambda>n. n \<noteq> SUMS) (regular sc) = rev (filter (\<lambda>n. n \<noteq> SUMS) sample_names)"
    by (simp add: scan(2) rev_filter)
  then have payload: "set (filter (\<lambda>n. n \<noteq> SUMS) (regular sc)) = set REQUIRED_BUNDLE_FILES"
    using sample_names_ok(4) by (auto simp: sample_names_def list_all_iff)
  have "find (\<lambda>r. r \<notin> set (filter (\<lambda>n. n \<noteq> SUMS) (regular sc))) REQUIRED_BUNDLE_FILES = None"
    unfolding payload find_None by simp
  moreover have "SUMS \<in> set (regular sc)" by (simp add: scan(2) sample_names_def)
  moreover have "sample_archive \<noteq> []" "length sample_archive \<le> MAX_ARCHIVE_ENTRIES"
    by (simp_all add: sample_archive_def sample_names_def sample_total(2) MAX_ARCHIVE_ENTRIES_def)
  ultimately have "inspect MAX_EXPANDED_BYTES sample_archive = Inr (sc, sums)"
    using payload keys unfolding inspect_def Let_def scan(1) read by (simp del: set_filter)
  with sums that show thesis by blast
qed

lemma sample_unpacked:
  obtains i t where "extract_verified_bundle_checked sample_hash (\<lambda>_. True) (\<lambda>_. None)
     (Inr sample_archive) MAX_EXPANDED_BYTES X86 None = (Inr i, Some t)"
    "file_in t [SUMS] sample_sums" "file_in t [''cores'', ''mihomo.exe''] sample_pe"
proof (rule sample_inspected)
  fix sc sums
  assume ins: "inspect MAX_EXPANDED_BYTES sample_archive = Inr (sc, sums)"
    "\<And>n. dict_get sums n = (if n \<in> set REQUIRED_BUNDLE_FILES then Some sample_digest else None)"
  have "list_all (\<lambda>n. safe_archive_name n = Inr n \<and> sample_file n \<noteq> [] \<and> length (sample_file n) \<le> 65536 \<and>
      length (sample_file n) \<le> MAX_EXPANDED_BYTES \<and> name_path n \<noteq> [] \<and>
      (n = SUMS \<or> dict_get sums n = Some (sample_hash (sample_file n)))) sample_names"
    unfolding list_all_iff
  proof
    fix n assume n: "n \<in> set sample_names"
    have "length (sample_file n) \<le> 2000" "sample_file n \<noteq> []" by (rule sample_file_size)+
    with n sample_names_ok(1) show "safe_archive_name n = Inr n \<and> sample_file n \<noteq> [] \<and> length (sample_file n) \<le> 65536 \<and>
      length (sample_file n) \<le> MAX_EXPANDED_BYTES \<and> name_path n \<noteq> [] \<and> (n = SUMS \<or> dict_get sums n = Some (sample_hash (sample_file n)))"
      unfolding sample_file_hash by (auto simp: list_all_iff MAX_EXPANDED_BYTES_def ins(2) sample_names_def)
  qed
  then obtain t where t: "extract_entries sample_hash (\<lambda>_. True) MAX_EXPANDED_BYTES sums sample_archive (\<lambda>_. None) = (Inr (), t)"
    using extract_sample[of sample_file MAX_EXPANDED_BYTES sums "sample_hash" sample_names "\<lambda>_. None"]
      sample_paths_apart sample_names_ok(3)
    by (auto simp: sample_archive_def list_all_iff file_in_def)
  define es where "es = map (\<lambda>n. (sample_entry n (sample_file n), n)) sample_names"
  have named: "named sample_archive es"
    using sample_names_ok(1) by (auto simp: named_def es_def sample_archive_def sample_entry_def list_all_iff)
  have files: "files_of es = es" by (auto simp: files_of_def es_def sample_entry_def intro!: filter_True)
  have "distinct (map name_path sample_names)"
    using sample_paths_apart sample_names_ok(3) by (auto simp: distinct_map inj_on_def list_all_iff) (metis take_all_iff order_refl)
  moreover have "map (\<lambda>(_, n). name_path n) es = map name_path sample_names" by (simp add: es_def)
  ultimately have paths: "distinct (map (\<lambda>(_, n). name_path n) (files_of es))" unfolding files by simp
  have content: "file_in t (name_path n) (sample_file n)" if "n \<in> set sample_names" for n
  proof -
    have "(sample_entry n (sample_file n), n) \<in> set (files_of es)" using that by (simp only: files) (simp add: es_def)
    with extract_entries_Inr[OF t named paths] obtain data where
      "copied sample_hash sums (sample_entry n (sample_file n)) n data" "file_in t (name_path n) data" by blast
    then show ?thesis
      using sample_file_size(1)[of n] by (simp add: copied_def sample_entry_def read_to_end_def)
  qed
  have "each_result (check_executable (\<lambda>_. True) X86 t) REQUIRED_PE_FILES = Inr ()"
    unfolding each_result_Inr
  proof
    fix n assume n: "n \<in> set REQUIRED_PE_FILES"
    then have "n \<in> set REQUIRED_BUNDLE_FILES" using sample_names_ok(5) by (auto simp: list_all_iff)
    then have "n \<in> set sample_names" "sample_file n = sample_pe"
      using n sample_names_ok(4) by (auto simp: sample_names_def sample_file_def sample_content_def list_all_iff)
    then show "check_executable (\<lambda>_. True) X86 t n = Inr ()"
      using content[of n] sample_pe_valid by (simp add: check_executable_def file_in_def)
  qed
  then obtain i where "extract_verified_bundle_checked sample_hash (\<lambda>_. True) (\<lambda>_. None)
     (Inr sample_archive) MAX_EXPANDED_BYTES X86 None = (Inr i, Some t)"
    by (simp add: extract_verified_bundle_checked_def extract_inner_def effective_expanded_limit_def ins(1) t)
  moreover have "file_in t [SUMS] sample_sums"
    using content[of SUMS] by (simp add: SUMS_plain(3) sample_names_def sample_file_def)
  moreover have "file_in t [''cores'', ''mihomo.exe''] sample_pe"
  proof -
    have "''cores/mihomo.exe'' \<in> set sample_names" "sample_content ''cores/mihomo.exe'' = sample_pe"
      "''cores/mihomo.exe'' \<noteq> SUMS" "name_path ''cores/mihomo.exe'' = [''cores'', ''mihomo.exe'']"
      by (simp_all add: sample_names_def REQUIRED_BUNDLE_FILES_def sample_content_def REQUIRED_PE_FILES_def SUMS_def name_path_def)
    then show ?thesis using content[of "''cores/mihomo.exe''"] by (simp add: sample_file_def)
  qed
  ultimately show thesis by (rule that)
qed

theorem bundle_all_or_nothing_witness:
  "\<exists>i t. extract_verified_bundle_checked sample_hash (\<lambda>_. True) (\<lambda>_. None) (Inr sample_archive)
       MAX_EXPANDED_BYTES X86 None = (Inr i, Some t) \<and>
     verified_tree sample_hash X86 t \<and> file_in t [''cores'', ''mihomo.exe''] sample_pe"
proof (rule sample_unpacked)
  fix i t
  assume run: "extract_verified_bundle_checked sample_hash (\<lambda>_. True) (\<lambda>_. None) (Inr sample_archive)
      MAX_EXPANDED_BYTES X86 None = (Inr i, Some t)" "file_in t [''cores'', ''mihomo.exe''] sample_pe"
  from bundle_all_or_nothing[OF this(1)] run show ?thesis by blast
qed

theorem launch_check_matches_update_witness:
  "\<exists>t now. verified_tree sample_hash X86 t \<and>
     verify_core_hashes sample_hash (read_tree t) [''cores/mihomo.exe''] = Inr () \<and>
     now = t([''cores'', ''mihomo.exe''] \<mapsto> Regular ''y'') \<and>
     verify_core_hashes sample_hash (read_tree now) [''cores/mihomo.exe''] \<noteq> Inr ()"
proof (rule sample_unpacked)
  fix i t
  assume run: "extract_verified_bundle_checked sample_hash (\<lambda>_. True) (\<lambda>_. None) (Inr sample_archive)
      MAX_EXPANDED_BYTES X86 None = (Inr i, Some t)" "file_in t [SUMS] sample_sums"
    "file_in t [''cores'', ''mihomo.exe''] sample_pe"
  have ver: "verified_tree sample_hash X86 t" using bundle_success[OF run(1)] by blast
  let ?now = "t([''cores'', ''mihomo.exe''] \<mapsto> Regular ''y'')"
  have names: "name_path ''cores/mihomo.exe'' = [''cores'', ''mihomo.exe'']"
    "join_with CHR ''/'' [''cores'', ''mihomo.exe''] = ''cores/mihomo.exe''" "''cores/mihomo.exe'' \<noteq> SUMS"
    by (simp_all add: name_path_def SUMS_def)
  have listed: "\<forall>n\<in>set [''cores/mihomo.exe'']. n \<noteq> SUMS \<and> (\<exists>b. file_in t (name_path n) b) \<and> join_with CHR ''/'' (name_path n) = n"
    using run(3) names by auto
  have kept: "file_in ?now [SUMS] sample_sums" using run(2) by (simp add: file_in_def)
  have "written_inventory sample_sums" by (rule sample_sums_read) blast
  note check = launch_check_matches_update[OF ver run(2) this _ listed]
  have "sample_hash ''y'' \<noteq> sample_hash sample_pe"
    unfolding sample_hash_other by (simp add: sample_hash_def sample_digest_def)
  then have "verify_core_hashes sample_hash (read_tree ?now) [''cores/mihomo.exe''] \<noteq> Inr ()"
    using check[OF kept] run(3) by (auto simp: names(1) file_in_def)
  moreover have "verify_core_hashes sample_hash (read_tree t) [''cores/mihomo.exe''] = Inr ()"
    using check[OF run(2)] run(3) by (auto simp: names(1))
  ultimately show ?thesis using ver by blast
qed

definition sample_disk :: "nat disk" where
  "sample_disk = \<lparr>places = [''/opt/app'' \<mapsto> 1, ''/opt/new'' \<mapsto> 2], answers = [None, Some (OsError False (Some 17))]\<rparr>"

theorem swap_never_loses_witness:
  "\<exists>e w'. transactional_swap rename_once (\<lambda>p. places sample_disk p \<noteq> None) (\<lambda>_. True) (\<lambda>_. True)
       ''/opt/app'' ''/opt/new'' ''/opt/old'' sample_disk = (Inl (RenameFailed e), w') \<and>
     places w' = places sample_disk"
proof -
  have valid: "validate_swap_paths (\<lambda>p. places sample_disk p \<noteq> None) (\<lambda>_. True) (\<lambda>_. True)
      ''/opt/app'' ''/opt/new'' ''/opt/old'' = Inr ()"
    by code_simp
  obtain res w' where run: "transactional_swap rename_once (\<lambda>p. places sample_disk p \<noteq> None) (\<lambda>_. True) (\<lambda>_. True)
       ''/opt/app'' ''/opt/new'' ''/opt/old'' sample_disk = (res, w')" by fastforce
  have "\<exists>e. res = Inl (RenameFailed e)"
    using run valid
    by (simp add: transactional_swap_def transactional_swap_with_def rename_with_retry_def retry_transient_def
        RENAME_RETRY_ATTEMPTS_def retry_loop.simps rename_once_def sample_disk_def is_transient_lock_def
        split: prod.splits) auto
  with swap_never_loses[OF run] run show ?thesis by auto
qed

end
