(* ===== verification/Xray_Overlay.thy ===== *)
theory Xray_Overlay
  imports Json_Doc Ip_Addr "HOL-Library.Sublist"
begin

text \<open>
  The Xray half of staging (\<open>crates/multicore-core/src/snapshot.rs\<close>): the document Xray runs while
  Mihomo's tunnel is up. Every outbound is bound to the physical interface, and the addresses of
  servers that are domain names are resolved by a resolver of their own. The JSON reader and writer
  are parameters.
\<close>

section \<open>The domains of servers\<close>

datatype runtime_error = InvalidData string

definition ENDPOINT_DNS_TAG :: string where
  "ENDPOINT_DNS_TAG = ''multicore-endpoint-dns''"

definition ENDPOINT_DNS_OUTBOUND_TAG :: string where
  "ENDPOINT_DNS_OUTBOUND_TAG = ''multicore-endpoint-dns-direct''"

definition ENDPOINT_DNS_TIMEOUT_MS :: u64 where
  "ENDPOINT_DNS_TIMEOUT_MS = 1200"

definition ENDPOINT_DNS_RESOLVER :: string where
  "ENDPOINT_DNS_RESOLVER = ''77.88.8.8''"

text \<open>\<open>json!({..})\<close>, and \<open>value["key"]\<close>, which is null where there is no such member.\<close>

definition json_object :: "(string \<times> json) list \<Rightarrow> json" where
  "json_object kvs = JObject (fold (\<lambda>(k, v). ord_insert k v) kvs [])"

definition jmember :: "json \<Rightarrow> string \<Rightarrow> json" where
  "jmember v name =
     (case v of JObject m \<Rightarrow> (case dict_get m name of Some w \<Rightarrow> w | None \<Rightarrow> JNull) | _ \<Rightarrow> JNull)"

text \<open>A \<open>BTreeSet\<close> collected from a list, in iteration order.\<close>

definition btree_set :: "string list \<Rightarrow> string list" where
  "btree_set xs = remdups_adj (sort xs)"

definition outbound_server_domains :: "json_map \<Rightarrow> string list" where
  "outbound_server_domains outbound =
     (case Option.bind (dict_get outbound ''settings'') jas_object of
        None \<Rightarrow> []
      | Some settings \<Rightarrow>
          let direct = (case Option.bind (dict_get settings ''address'') jas_str of Some a \<Rightarrow> [a] | None \<Rightarrow> []);
              servers = concat (List.map_filter (\<lambda>key. Option.bind (dict_get settings key) jas_array)
                          [''servers'', ''vnext'']);
              addresses = List.map_filter (\<lambda>server.
                Option.bind (Option.bind (jas_object server) (\<lambda>m. dict_get m ''address'')) jas_str) servers
          in filter (\<lambda>a. a \<noteq> [] \<and> \<not> has_control a)
               (filter (\<lambda>a. parse_ip a = None) (direct @ addresses)))"

definition xray_outbound_server_domains :: "json \<Rightarrow> runtime_error + string list" where
  "xray_outbound_server_domains document =
     rbind (ok_or (InvalidData ''validated Xray outbounds section is not an array'')
              (Option.bind (Option.bind (jas_object document) (\<lambda>m. dict_get m ''outbounds'')) jas_array)) (\<lambda>outbounds.
     rbind (map_result (\<lambda>v. rbind (ok_or (InvalidData ''validated Xray outbound is not an object'') (jas_object v))
              (\<lambda>outbound. Inr (outbound_server_domains outbound))) outbounds) (\<lambda>domains.
       Inr (btree_set (concat domains))))"

definition normalize_domain :: "string \<Rightarrow> string" where
  "normalize_domain domain =
     (let domain = trim domain
      in to_ascii_lowercase (case strip_suffix ''.'' domain of Some d \<Rightarrow> d | None \<Rightarrow> domain))"

definition normalized_endpoint_domains :: "json \<Rightarrow> runtime_error + string list" where
  "normalized_endpoint_domains document =
     rbind (xray_outbound_server_domains document) (\<lambda>domains. Inr (btree_set (map normalize_domain domains)))"

definition local_dns_domain :: "string \<Rightarrow> bool" where
  "local_dns_domain domain \<longleftrightarrow>
     CHR ''.'' \<notin> set domain \<or>
     list_ex (\<lambda>suffix. domain = suffix \<or> ends_with (CHR ''.'' # suffix) domain)
       [''local'', ''localdomain'', ''localhost'', ''lan'', ''home.arpa'', ''example'', ''invalid'', ''test'']"

section \<open>Reserved tags\<close>

definition selects_prefix :: "json \<Rightarrow> bool" where
  "selects_prefix selector =
     (case jas_str selector of
        Some scalars \<Rightarrow> list_ex (\<lambda>prefix. starts_with prefix ENDPOINT_DNS_OUTBOUND_TAG) (split_on CHR '','' scalars)
      | None \<Rightarrow>
          (case jas_array selector of
             Some scalars \<Rightarrow>
               list_ex (\<lambda>prefix. starts_with prefix ENDPOINT_DNS_OUTBOUND_TAG) (List.map_filter jas_str scalars)
           | None \<Rightarrow> False))"

definition selects_endpoint_dns_outbound :: "json \<Rightarrow> bool" where
  "selects_endpoint_dns_outbound document \<longleftrightarrow>
     (case jas_array (jmember (jmember document ''routing'') ''balancers'') of
        Some balancers \<Rightarrow> list_ex (\<lambda>b. selects_prefix (jmember b ''selector'')) balancers
      | None \<Rightarrow> False) \<or>
     selects_prefix (jmember (jmember document ''observatory'') ''subjectSelector'') \<or>
     selects_prefix (jmember (jmember document ''burstObservatory'') ''subjectSelector'')"

fun contains_endpoint_dns_tag :: "json \<Rightarrow> bool" where
  "contains_endpoint_dns_tag (JString s) \<longleftrightarrow> s = ENDPOINT_DNS_TAG \<or> s = ENDPOINT_DNS_OUTBOUND_TAG"
| "contains_endpoint_dns_tag (JArray vs) \<longleftrightarrow> list_ex contains_endpoint_dns_tag vs"
| "contains_endpoint_dns_tag (JObject m) \<longleftrightarrow> list_ex (\<lambda>p. contains_endpoint_dns_tag (snd p)) m"
| "contains_endpoint_dns_tag v \<longleftrightarrow> False"

section \<open>Binding the outbounds\<close>

text \<open>\<open>entry(name).or_insert_with(..)\<close> with a null value replaced as well: an empty object, or an empty array.\<close>

definition section_of :: "string \<Rightarrow> json_map \<Rightarrow> string \<Rightarrow> runtime_error + json_map" where
  "section_of message m name =
     (case dict_get m name of
        None \<Rightarrow> Inr []
      | Some v \<Rightarrow> if v = JNull then Inr [] else ok_or (InvalidData message) (jas_object v))"

definition array_of :: "string \<Rightarrow> json list \<Rightarrow> json_map \<Rightarrow> string \<Rightarrow> runtime_error + json list" where
  "array_of message dflt m name =
     (case dict_get m name of
        None \<Rightarrow> Inr dflt
      | Some v \<Rightarrow> if v = JNull then Inr dflt else ok_or (InvalidData message) (jas_array v))"

definition bind_outbound :: "string \<Rightarrow> json \<Rightarrow> runtime_error + json" where
  "bind_outbound interface v =
     rbind (ok_or (InvalidData ''validated Xray outbound is not an object'') (jas_object v)) (\<lambda>outbound.
     rbind (section_of ''validated Xray streamSettings is not an object'' outbound ''streamSettings'') (\<lambda>stream.
     rbind (section_of ''validated Xray sockopt is not an object'' stream ''sockopt'') (\<lambda>sockopt.
       let must_resolve = outbound_server_domains outbound \<noteq> [];
           sockopt = ord_insert ''interface'' (JString interface) sockopt;
           sockopt = (if must_resolve then ord_insert ''domainStrategy'' (JString ''ForceIP'') sockopt else sockopt)
       in Inr (JObject (ord_insert ''streamSettings''
            (JObject (ord_insert ''sockopt'' (JObject sockopt) stream)) outbound)))))"

section \<open>Resolving the endpoints\<close>

definition endpoint_outbound :: json where
  "endpoint_outbound = json_object
     [(''tag'', JString ENDPOINT_DNS_OUTBOUND_TAG), (''protocol'', JString ''freedom''),
      (''settings'', json_object [(''domainStrategy'', JString ''AsIs'')]),
      (''streamSettings'', json_object [(''sockopt'', json_object [(''domainStrategy'', JString ''AsIs'')])])]"

definition endpoint_resolver :: "string list \<Rightarrow> json" where
  "endpoint_resolver domains = json_object
     [(''address'', JString ENDPOINT_DNS_RESOLVER),
      (''domains'', JArray (map (\<lambda>d. JString (''full:'' @ d)) domains)),
      (''skipFallback'', JBool True), (''finalQuery'', JBool True),
      (''disableCache'', JBool False), (''serveStale'', JBool False),
      (''tag'', JString ENDPOINT_DNS_TAG), (''timeoutMs'', JNumber (PosInt ENDPOINT_DNS_TIMEOUT_MS))]"

definition endpoint_rule :: json where
  "endpoint_rule = json_object
     [(''type'', JString ''field''), (''inboundTag'', JArray [JString ENDPOINT_DNS_TAG]),
      (''outboundTag'', JString ENDPOINT_DNS_OUTBOUND_TAG)]"

definition emergency_server :: "json \<Rightarrow> runtime_error + json_map" where
  "emergency_server server =
     rbind (case server of
              JString addr \<Rightarrow> Inr [(''address'', JString addr)]
            | JObject m \<Rightarrow> Inr m
            | _ \<Rightarrow> Inl (InvalidData ''validated Xray DNS server is not an object or string'')) (\<lambda>m.
       Inr (ord_insert ''skipFallback'' (JBool True) (ord_insert ''domains'' (JArray []) m)))"

definition names_localhost :: "json_map \<Rightarrow> bool" where
  "names_localhost server =
     (case Option.bind (dict_get server ''address'') jas_str of
        Some addr \<Rightarrow> eq_ignore_ascii_case (trim addr) ''localhost''
      | None \<Rightarrow> False)"

definition endpoint_servers :: "string list \<Rightarrow> json_map \<Rightarrow> runtime_error + json list" where
  "endpoint_servers domains dns =
     rbind (array_of ''validated Xray dns.servers section is not an array'' [JString ''localhost''] dns ''servers'') (\<lambda>servers.
       let servers = (if servers = [] then [JString ''localhost''] else servers)
       in rbind (emergency_server (hd servers)) (\<lambda>emergency.
            if names_localhost emergency \<and> list_ex local_dns_domain domains
            then Inl (InvalidData ''Xray public endpoint DNS cannot override local-only domains'')
            else Inr (JObject emergency # endpoint_resolver domains # servers)))"

definition resolve_endpoints :: "string list \<Rightarrow> json_map \<Rightarrow> runtime_error + json_map" where
  "resolve_endpoints domains root =
     rbind (section_of ''validated Xray dns section is not an object'' root ''dns'') (\<lambda>dns.
     rbind (endpoint_servers domains dns) (\<lambda>servers.
     rbind (section_of ''validated Xray routing section is not an object'' root ''routing'') (\<lambda>routing.
     rbind (array_of ''validated Xray routing.rules section is not an array'' [] routing ''rules'') (\<lambda>rules.
       Inr (ord_insert ''routing'' (JObject (ord_insert ''rules'' (JArray (endpoint_rule # rules)) routing))
             (ord_insert ''dns'' (JObject (ord_insert ''servers'' (JArray servers) dns)) root))))))"

section \<open>The runtime document\<close>

definition xray_runtime_document :: "string \<Rightarrow> json \<Rightarrow> runtime_error + json" where
  "xray_runtime_document interface document =
     rbind (normalized_endpoint_domains document) (\<lambda>domains.
     rbind (ensure (InvalidData ''Xray subscription captures a reserved endpoint DNS tag'')
             (\<not> (domains \<noteq> [] \<and>
                 (contains_endpoint_dns_tag document \<or> selects_endpoint_dns_outbound document)))) (\<lambda>_.
     rbind (ok_or (InvalidData ''validated Xray document is not an object'') (jas_object document)) (\<lambda>root.
     rbind (ok_or (InvalidData ''validated Xray outbounds section is not an array'')
             (Option.bind (dict_get root ''outbounds'') jas_array)) (\<lambda>outbounds.
     rbind (ensure (InvalidData ''validated Xray outbounds section must not be empty'') (outbounds \<noteq> [])) (\<lambda>_.
     rbind (map_result (bind_outbound interface) outbounds) (\<lambda>bound.
       if domains = [] then Inr (JObject (ord_insert ''outbounds'' (JArray bound) root))
       else rbind (resolve_endpoints domains
              (ord_insert ''outbounds'' (JArray (bound @ [endpoint_outbound])) root))
              (\<lambda>root. Inr (JObject root))))))))"

text \<open>\<open>map_err\<close> with the message of the reader or writer behind a prefix.\<close>

definition with_message :: "string \<Rightarrow> string + 'a \<Rightarrow> runtime_error + 'a" where
  "with_message text r = (case r of Inl e \<Rightarrow> Inl (InvalidData (text @ e)) | Inr v \<Rightarrow> Inr v)"

definition xray_runtime_bytes ::
  "(string \<Rightarrow> string + json) \<Rightarrow> (json \<Rightarrow> string) \<Rightarrow> string \<Rightarrow> string option \<Rightarrow> runtime_error + string" where
  "xray_runtime_bytes from_json to_json raw interface =
     (case interface of
        None \<Rightarrow> Inr raw
      | Some interface \<Rightarrow>
          rbind (with_message ''validated Xray document is invalid: '' (from_json raw)) (\<lambda>document.
          rbind (xray_runtime_document interface document) (\<lambda>document. Inr (to_json document))))"



section \<open>Reading along a path\<close>

fun jpath :: "string list \<Rightarrow> json \<Rightarrow> json option" where
  "jpath [] v = Some v"
| "jpath (k # ks) v = (case v of JObject m \<Rightarrow> Option.bind (dict_get m k) (jpath ks) | _ \<Rightarrow> None)"

text \<open>Where two documents agree: everywhere but at, above and below the given paths.\<close>

definition agree_except :: "string list list \<Rightarrow> json \<Rightarrow> json \<Rightarrow> bool" where
  "agree_except qs v w \<longleftrightarrow>
     (\<forall>p. (\<forall>q\<in>set qs. \<not> prefix p q \<and> \<not> prefix q p) \<longrightarrow> jpath p w = jpath p v)"

lemma jpath_object [simp]: "jpath (k # ks) (JObject m) = Option.bind (dict_get m k) (jpath ks)"
  by simp

lemma section_of_Inr:
  assumes "section_of e m k = Inr s"
  shows "dict_get m k = Some (JObject s) \<or> s = [] \<and> (dict_get m k = None \<or> dict_get m k = Some JNull)"
  using assms by (auto simp: section_of_def result_simps jas_object_Some split: option.splits if_splits)

lemma agree_except_insert:
  assumes "section_of e m k = Inr s" and "agree_except qs (JObject s) (JObject s')" and "qs \<noteq> []" and "[] \<notin> set qs"
  shows "agree_except (map ((#) k) qs) (JObject m) (JObject (ord_insert k (JObject s') m))"
  unfolding agree_except_def
proof (intro allI impI)
  fix p assume p: "\<forall>q\<in>set (map ((#) k) qs). \<not> prefix p q \<and> \<not> prefix q p"
  show "jpath p (JObject (ord_insert k (JObject s') m)) = jpath p (JObject m)"
  proof (cases p)
    case Nil
    with p assms(3) show ?thesis by (cases qs) auto
  next
    case (Cons j r)
    show ?thesis
    proof (cases "j = k")
      case True
      with p Cons have r: "\<forall>q\<in>set qs. \<not> prefix r q \<and> \<not> prefix q r" by auto
      with assms(3) have "r \<noteq> []" by (cases qs) auto
      with assms(2) r True Cons section_of_Inr[OF assms(1)] show ?thesis
        by (cases r) (auto simp: agree_except_def get_ord_insert)
    qed (simp add: Cons get_ord_insert)
  qed
qed

lemma agree_except_leaf: "agree_except [[k]] (JObject m) (JObject (ord_insert k v m))"
  unfolding agree_except_def
proof (intro allI impI)
  fix p assume "\<forall>q\<in>set [[k]]. \<not> prefix p q \<and> \<not> prefix q p"
  then show "jpath p (JObject (ord_insert k v m)) = jpath p (JObject m)"
    by (cases p) (auto simp: get_ord_insert)
qed

lemma agree_except_trans:
  "agree_except qs u v \<Longrightarrow> agree_except rs v w \<Longrightarrow> agree_except (qs @ rs) u w"
  by (auto simp: agree_except_def)

section \<open>Every outbound is bound\<close>

text \<open>What binding does to one outbound.\<close>

definition bound_to :: "string \<Rightarrow> json \<Rightarrow> json \<Rightarrow> bool" where
  "bound_to interface v w \<longleftrightarrow>
     (\<exists>outbound. v = JObject outbound \<and>
        jpath [''streamSettings'', ''sockopt'', ''interface''] w = Some (JString interface) \<and>
        (if outbound_server_domains outbound = []
         then agree_except [[''streamSettings'', ''sockopt'', ''interface'']] v w
         else jpath [''streamSettings'', ''sockopt'', ''domainStrategy''] w = Some (JString ''ForceIP'') \<and>
              agree_except [[''streamSettings'', ''sockopt'', ''interface''],
                            [''streamSettings'', ''sockopt'', ''domainStrategy'']] v w))"

lemma bind_outbound_bound:
  assumes "bind_outbound interface v = Inr w" shows "bound_to interface v w"
proof -
  obtain outbound stream sockopt where v: "v = JObject outbound"
    and stream: "section_of ''validated Xray streamSettings is not an object'' outbound ''streamSettings'' = Inr stream"
    and sockopt: "section_of ''validated Xray sockopt is not an object'' stream ''sockopt'' = Inr sockopt"
    and w: "w = JObject (ord_insert ''streamSettings'' (JObject (ord_insert ''sockopt''
      (JObject (let sockopt = ord_insert ''interface'' (JString interface) sockopt
        in if outbound_server_domains outbound \<noteq> []
           then ord_insert ''domainStrategy'' (JString ''ForceIP'') sockopt else sockopt)) stream)) outbound)"
    using assms by (auto simp: bind_outbound_def result_simps jas_object_Some Let_def)
  have leaf: "agree_except [[''interface'']] (JObject sockopt) (JObject (ord_insert ''interface'' (JString interface) sockopt))"
    by (rule agree_except_leaf)
  have up: "agree_except (map ((#) ''streamSettings'') (map ((#) ''sockopt'') qs)) v
      (JObject (ord_insert ''streamSettings'' (JObject (ord_insert ''sockopt'' (JObject s') stream)) outbound))"
    if "agree_except qs (JObject sockopt) (JObject s')" "qs \<noteq> []" "[] \<notin> set qs" for qs s'
    unfolding v using that by (intro agree_except_insert[OF stream] agree_except_insert[OF sockopt]) auto
  show ?thesis
  proof (cases "outbound_server_domains outbound = []")
    case True
    with w up[OF leaf] show ?thesis by (simp add: bound_to_def v get_ord_insert)
  next
    case False
    with w up[OF agree_except_trans[OF leaf agree_except_leaf]] show ?thesis
      by (simp add: bound_to_def v get_ord_insert)
  qed
qed


section \<open>The document as a whole\<close>

lemma list_ex_concat_map: "list_ex P (concat (map f xs)) = list_ex (\<lambda>x. list_ex P (f x)) xs"
  by (induction xs) auto

lemma contains_endpoint_dns_tag_values:
  "contains_endpoint_dns_tag v =
     list_ex (\<lambda>w. w = JString ENDPOINT_DNS_TAG \<or> w = JString ENDPOINT_DNS_OUTBOUND_TAG) (jvalues v)"
  by (induction v rule: contains_endpoint_dns_tag.induct) (simp_all add: list_ex_concat_map cong: list_ex_cong)

lemma contains_endpoint_dns_tag_iff:
  "contains_endpoint_dns_tag v \<longleftrightarrow>
     (\<exists>s. JString s \<in> set (jvalues v) \<and> (s = ENDPOINT_DNS_TAG \<or> s = ENDPOINT_DNS_OUTBOUND_TAG))"
  by (auto simp: contains_endpoint_dns_tag_values list_ex_iff)

lemma set_btree_set [simp]: "set (btree_set xs) = set xs"
  by (simp add: btree_set_def)

lemma btree_set_eq_Nil [simp]: "btree_set xs = [] \<longleftrightarrow> xs = []"
  by (metis set_btree_set set_empty)

text \<open>The domains of a document are those of its outbounds, normalised.\<close>

lemma normalized_domains_of:
  assumes "normalized_endpoint_domains document = Inr domains"
  shows "\<exists>root outbounds. document = JObject root \<and> dict_get root ''outbounds'' = Some (JArray (map JObject outbounds)) \<and>
     set domains = normalize_domain ` (\<Union>outbound\<in>set outbounds. set (outbound_server_domains outbound))"
proof -
  obtain root vs ds where d: "document = JObject root" "dict_get root ''outbounds'' = Some (JArray vs)"
    and ds: "map_result (\<lambda>v. rbind (ok_or (InvalidData ''validated Xray outbound is not an object'') (jas_object v))
              (\<lambda>outbound. Inr (outbound_server_domains outbound))) vs = Inr ds"
    and set: "set domains = normalize_domain ` set (concat ds)"
    using assms by (auto simp: normalized_endpoint_domains_def xray_outbound_server_domains_def result_simps
        jas_object_Some jas_array_Some Option.bind_eq_Some_conv)
  from ds have "list_all2 (\<lambda>v x. \<exists>m. v = JObject m \<and> outbound_server_domains m = x) vs ds"
    by (simp add: map_result_Inr result_simps jas_object_Some)
  then have "\<exists>ms. vs = map JObject ms \<and> ds = map outbound_server_domains ms"
  proof (induction rule: list_all2_induct)
    case (Cons v vs x xs)
    then obtain m ms where "v = JObject m" "outbound_server_domains m = x" "vs = map JObject ms"
      "xs = map outbound_server_domains ms" by blast
    then show ?case by (intro exI[of _ "m # ms"]) simp
  qed simp
  with d set show ?thesis by auto
qed

lemma array_of_Inr:
  assumes "array_of e dflt m k = Inr vs"
  shows "dict_get m k = Some (JArray vs) \<or> vs = dflt \<and> (dict_get m k = None \<or> dict_get m k = Some JNull)"
  using assms by (auto simp: array_of_def result_simps jas_array_Some split: option.splits if_splits)

text \<open>A list at a path of a document, or the default where there is none.\<close>

definition list_at :: "string list \<Rightarrow> json list \<Rightarrow> json \<Rightarrow> json list" where
  "list_at p dflt v = (case jpath p v of Some (JArray vs) \<Rightarrow> vs | _ \<Rightarrow> dflt)"

text \<open>The servers of a document; without any, the system's resolver.\<close>

definition servers_of :: "json \<Rightarrow> json list" where
  "servers_of document =
     (case list_at [''dns'', ''servers''] [] document of [] \<Rightarrow> [JString ''localhost''] | s # ss \<Rightarrow> s # ss)"

lemma list_at_section:
  assumes "section_of e m k = Inr s" and "array_of f dflt s j = Inr vs"
  shows "list_at [k, j] dflt (JObject m) = vs"
  using section_of_Inr[OF assms(1)] array_of_Inr[OF assms(2)] by (auto simp: list_at_def)

lemma endpoint_servers_Inr:
  assumes "endpoint_servers domains dns = Inr vs"
  shows "\<exists>servers emergency. array_of ''validated Xray dns.servers section is not an array'' [JString ''localhost''] dns ''servers'' = Inr servers \<and>
     emergency_server (hd (if servers = [] then [JString ''localhost''] else servers)) = Inr emergency \<and>
     \<not> (names_localhost emergency \<and> list_ex local_dns_domain domains) \<and>
     vs = JObject emergency # endpoint_resolver domains # (if servers = [] then [JString ''localhost''] else servers)"
  using assms by (auto simp: endpoint_servers_def result_simps Let_def split: if_splits)

lemma emergency_server_Inr:
  assumes "emergency_server server = Inr m"
  shows "dict_get m ''domains'' = Some (JArray []) \<and> dict_get m ''skipFallback'' = Some (JBool True)"
  using assms by (auto simp: emergency_server_def result_simps get_ord_insert)

text \<open>What the resolver changes: two lists, each only by what it puts in front.\<close>

lemma resolve_endpoints_Inr:
  assumes "resolve_endpoints domains root = Inr root'"
  shows "\<exists>emergency. emergency_server (hd (servers_of (JObject root))) = Inr emergency \<and>
     jpath [''dns'', ''servers''] (JObject root') =
       Some (JArray (JObject emergency # endpoint_resolver domains # servers_of (JObject root))) \<and>
     \<not> (names_localhost emergency \<and> list_ex local_dns_domain domains) \<and>
     jpath [''routing'', ''rules''] (JObject root') =
       Some (JArray (endpoint_rule # list_at [''routing'', ''rules''] [] (JObject root))) \<and>
     dict_get root' ''outbounds'' = dict_get root ''outbounds'' \<and>
     agree_except [[''dns'', ''servers''], [''routing'', ''rules'']] (JObject root) (JObject root')"
proof -
  obtain dns vs routing rules where
    dns: "section_of ''validated Xray dns section is not an object'' root ''dns'' = Inr dns" and
    vs: "endpoint_servers domains dns = Inr vs" and
    routing: "section_of ''validated Xray routing section is not an object'' root ''routing'' = Inr routing" and
    rules: "array_of ''validated Xray routing.rules section is not an array'' [] routing ''rules'' = Inr rules" and
    root': "root' = ord_insert ''routing'' (JObject (ord_insert ''rules'' (JArray (endpoint_rule # rules)) routing))
             (ord_insert ''dns'' (JObject (ord_insert ''servers'' (JArray vs) dns)) root)"
    using assms unfolding resolve_endpoints_def rbind_Inr by auto
  obtain servers emergency where
    servers: "array_of ''validated Xray dns.servers section is not an array'' [JString ''localhost''] dns ''servers'' = Inr servers" and
    e: "emergency_server (hd (if servers = [] then [JString ''localhost''] else servers)) = Inr emergency"
      "\<not> (names_localhost emergency \<and> list_ex local_dns_domain domains)"
      "vs = JObject emergency # endpoint_resolver domains # (if servers = [] then [JString ''localhost''] else servers)"
    using endpoint_servers_Inr[OF vs] by blast
  have old: "servers_of (JObject root) = (if servers = [] then [JString ''localhost''] else servers)"
    using section_of_Inr[OF dns] array_of_Inr[OF servers] by (auto simp: servers_of_def list_at_def split: list.splits)
  have "section_of ''validated Xray routing section is not an object''
      (ord_insert ''dns'' (JObject (ord_insert ''servers'' (JArray vs) dns)) root) ''routing'' = Inr routing"
    using routing by (simp add: section_of_def get_ord_insert)
  then have "agree_except (map ((#) ''routing'') [[''rules'']])
      (JObject (ord_insert ''dns'' (JObject (ord_insert ''servers'' (JArray vs) dns)) root)) (JObject root')"
    unfolding root' by (rule agree_except_insert[OF _ agree_except_leaf]) auto
  moreover have "agree_except (map ((#) ''dns'') [[''servers'']]) (JObject root)
      (JObject (ord_insert ''dns'' (JObject (ord_insert ''servers'' (JArray vs) dns)) root))"
    using dns by (rule agree_except_insert[OF _ agree_except_leaf]) auto
  ultimately have agree: "agree_except [[''dns'', ''servers''], [''routing'', ''rules'']] (JObject root) (JObject root')"
    using agree_except_trans by fastforce
  have "jpath [''dns'', ''servers''] (JObject root') = Some (JArray vs)"
    "jpath [''routing'', ''rules''] (JObject root') = Some (JArray (endpoint_rule # rules))"
    "dict_get root' ''outbounds'' = dict_get root ''outbounds''"
    by (simp_all add: root' get_ord_insert)
  with agree e old list_at_section[OF routing rules] show ?thesis
    by (intro exI[of _ emergency]) simp
qed

lemma xray_runtime_Inr:
  assumes "xray_runtime_document interface document = Inr out"
  obtains domains root outbounds bound where
    "normalized_endpoint_domains document = Inr domains" and "document = JObject root"
    "domains = [] \<or> \<not> contains_endpoint_dns_tag document \<and> \<not> selects_endpoint_dns_outbound document"
    "dict_get root ''outbounds'' = Some (JArray outbounds)" "outbounds \<noteq> []"
    "map_result (bind_outbound interface) outbounds = Inr bound"
    "if domains = [] then out = JObject (ord_insert ''outbounds'' (JArray bound) root)
     else \<exists>root'. resolve_endpoints domains (ord_insert ''outbounds'' (JArray (bound @ [endpoint_outbound])) root)
       = Inr root' \<and> out = JObject root'"
  using assms unfolding xray_runtime_document_def rbind_Inr ok_or_Inr ensure_Inr
  by (auto simp: jas_object_Some jas_array_Some Option.bind_eq_Some_conv result_simps split: if_splits)

text \<open>
  C34. The Xray document staged for a tunnel is the subscription's, but for this: every outbound, in its
  place, is bound to the physical interface and, where its server is a domain name, resolves it
  itself; with such a server one outbound is added after them, so the default outbound stays the
  first; and nothing else outside the server and rule lists changes.
\<close>

theorem xray_overlay_binds:
  assumes "xray_runtime_document interface document = Inr out"
  shows "\<exists>domains outbounds bound. normalized_endpoint_domains document = Inr domains \<and>
     jpath [''outbounds''] document = Some (JArray outbounds) \<and> outbounds \<noteq> [] \<and>
     jpath [''outbounds''] out = Some (JArray (bound @ (if domains = [] then [] else [endpoint_outbound]))) \<and>
     list_all2 (bound_to interface) outbounds bound \<and>
     agree_except ([''outbounds''] # (if domains = [] then [] else [[''dns'', ''servers''], [''routing'', ''rules'']]))
       document out"
proof (rule xray_runtime_Inr[OF assms])
  fix domains root outbounds bound
  assume d: "normalized_endpoint_domains document = Inr domains" "document = JObject root"
    "dict_get root ''outbounds'' = Some (JArray outbounds)" "outbounds \<noteq> []"
    and bound: "map_result (bind_outbound interface) outbounds = Inr bound"
    and out: "if domains = [] then out = JObject (ord_insert ''outbounds'' (JArray bound) root)
     else \<exists>root'. resolve_endpoints domains (ord_insert ''outbounds'' (JArray (bound @ [endpoint_outbound])) root)
       = Inr root' \<and> out = JObject root'"
  have all: "list_all2 (bound_to interface) outbounds bound"
    using bound bind_outbound_bound unfolding map_result_Inr by (rule list_all2_mono)
  show ?thesis
  proof (cases "domains = []")
    case True
    with d out all agree_except_leaf show ?thesis by (auto simp: get_ord_insert)
  next
    case False
    then obtain root' where r: "out = JObject root'"
      "resolve_endpoints domains (ord_insert ''outbounds'' (JArray (bound @ [endpoint_outbound])) root) = Inr root'"
      using out by auto
    note res = resolve_endpoints_Inr[OF r(2)]
    then have "agree_except [[''dns'', ''servers''], [''routing'', ''rules'']]
        (JObject (ord_insert ''outbounds'' (JArray (bound @ [endpoint_outbound])) root)) (JObject root')"
      and "dict_get root' ''outbounds'' = Some (JArray (bound @ [endpoint_outbound]))"
      by (auto simp: get_ord_insert)
    with False d r(1) all agree_except_trans[OF agree_except_leaf] show ?thesis by fastforce
  qed
qed

lemma xray_resolver:
  assumes "xray_runtime_document interface document = Inr out"
    and "normalized_endpoint_domains document = Inr domains" and "domains \<noteq> []"
  shows "\<exists>emergency. emergency_server (hd (servers_of document)) = Inr emergency \<and>
     jpath [''dns'', ''servers''] out =
       Some (JArray (JObject emergency # endpoint_resolver domains # servers_of document)) \<and>
     \<not> (names_localhost emergency \<and> list_ex local_dns_domain domains) \<and>
     jpath [''routing'', ''rules''] out =
       Some (JArray (endpoint_rule # list_at [''routing'', ''rules''] [] document)) \<and>
     \<not> contains_endpoint_dns_tag document"
proof (rule xray_runtime_Inr[OF assms(1)])
  fix ds root outbounds bound
  assume d: "normalized_endpoint_domains document = Inr ds" "document = JObject root"
    and tags: "ds = [] \<or> \<not> contains_endpoint_dns_tag document \<and> \<not> selects_endpoint_dns_outbound document"
    and "if ds = [] then out = JObject (ord_insert ''outbounds'' (JArray bound) root)
     else \<exists>root'. resolve_endpoints ds (ord_insert ''outbounds'' (JArray (bound @ [endpoint_outbound])) root)
       = Inr root' \<and> out = JObject root'"
  then obtain root' where r: "out = JObject root'" "ds = domains"
      "resolve_endpoints domains (ord_insert ''outbounds'' (JArray (bound @ [endpoint_outbound])) root) = Inr root'"
    using assms(2,3) by auto
  have same: "list_at [k, j] [] (JObject (ord_insert ''outbounds'' v root)) = list_at [k, j] [] document"
    if "k \<noteq> ''outbounds''" for k j v
    using that by (simp add: list_at_def d(2) get_ord_insert)
  have "servers_of (JObject (ord_insert ''outbounds'' v root)) = servers_of document" for v
    by (simp add: servers_of_def same)
  with resolve_endpoints_Inr[OF r(3)] same obtain emergency where e:
    "emergency_server (hd (servers_of document)) = Inr emergency"
    "jpath [''dns'', ''servers''] out = Some (JArray (JObject emergency # endpoint_resolver domains # servers_of document))"
    "\<not> (names_localhost emergency \<and> list_ex local_dns_domain domains)"
    "jpath [''routing'', ''rules''] out = Some (JArray (endpoint_rule # list_at [''routing'', ''rules''] [] document))"
    unfolding r(1) by auto
  with tags r(2) assms(3) show ?thesis by blast
qed

lemma xray_resolver_present:
  assumes "xray_runtime_document interface document = Inr out"
    and "normalized_endpoint_domains document = Inr domains" and "domains \<noteq> []"
  shows "endpoint_resolver domains \<in> set (list_at [''dns'', ''servers''] [] out)"
  using xray_resolver[OF assms] by (auto simp: list_at_def simp del: jpath.simps)

text \<open>
  C35. When a server is a domain name, its resolution is private: one resolver, asked before every
  server of the subscription, answers for exactly the normalised names of the outbounds, and the
  one rule that catches its queries sends them to the added outbound. The subscription's servers and
  rules follow in their order, none of them mentions a reserved tag at any depth, and the server kept
  in front for emergencies matches no domain and is no fallback.
\<close>

theorem xray_overlay_resolves:
  assumes "xray_runtime_document interface document = Inr out"
    and "normalized_endpoint_domains document = Inr domains" and "domains \<noteq> []"
  shows "\<exists>emergency outbounds.
     jpath [''dns'', ''servers''] out =
       Some (JArray (JObject emergency # endpoint_resolver domains # servers_of document)) \<and>
     dict_get emergency ''domains'' = Some (JArray []) \<and> dict_get emergency ''skipFallback'' = Some (JBool True) \<and>
     \<not> (names_localhost emergency \<and> (\<exists>d\<in>set domains. local_dns_domain d)) \<and>
     jpath [''routing'', ''rules''] out =
       Some (JArray (endpoint_rule # list_at [''routing'', ''rules''] [] document)) \<and>
     jpath [''outbounds''] document = Some (JArray (map JObject outbounds)) \<and>
     set domains = normalize_domain ` (\<Union>outbound\<in>set outbounds. set (outbound_server_domains outbound)) \<and>
     (\<forall>s. JString s \<in> set (jvalues document) \<longrightarrow> s \<noteq> ENDPOINT_DNS_TAG \<and> s \<noteq> ENDPOINT_DNS_OUTBOUND_TAG)"
proof -
  obtain outbounds where "jpath [''outbounds''] document = Some (JArray (map JObject outbounds))"
    "set domains = normalize_domain ` (\<Union>outbound\<in>set outbounds. set (outbound_server_domains outbound))"
    using normalized_domains_of[OF assms(2)] by auto
  moreover obtain emergency where "emergency_server (hd (servers_of document)) = Inr emergency"
    "jpath [''dns'', ''servers''] out = Some (JArray (JObject emergency # endpoint_resolver domains # servers_of document))"
    "\<not> (names_localhost emergency \<and> list_ex local_dns_domain domains)"
    "jpath [''routing'', ''rules''] out = Some (JArray (endpoint_rule # list_at [''routing'', ''rules''] [] document))"
    "\<not> contains_endpoint_dns_tag document"
    using xray_resolver[OF assms] by blast
  ultimately show ?thesis
    using emergency_server_Inr[of "hd (servers_of document)" emergency]
    by (intro exI[of _ emergency] exI[of _ outbounds]) (auto simp: contains_endpoint_dns_tag_iff list_ex_iff)
qed

section \<open>A sample\<close>

definition sample_outbound :: json where
  "sample_outbound = JObject [(''protocol'', JString ''trojan''),
     (''settings'', JObject [(''address'', JString ''Vpn.Example.org.'')])]"

definition sample_xray_config :: json where
  "sample_xray_config = JObject [(''outbounds'', JArray [sample_outbound])]"

lemma sample_domain:
  "parse_ip ''Vpn.Example.org.'' = None" "\<not> has_control ''Vpn.Example.org.''"
  "normalize_domain ''Vpn.Example.org.'' = ''vpn.example.org''"
  "\<not> local_dns_domain ''vpn.example.org''" "eq_ignore_ascii_case (trim ''localhost'') ''localhost''"
  by (simp add: ip_eval) code_simp+

lemma sample_server:
  "outbound_server_domains [(''protocol'', JString ''trojan''),
     (''settings'', JObject [(''address'', JString ''Vpn.Example.org.'')])] = [''Vpn.Example.org.'']"
  by (simp add: outbound_server_domains_def sample_domain List.map_filter_simps)

lemma sample_overlay_domains: "normalized_endpoint_domains sample_xray_config = Inr [''vpn.example.org'']"
  by (simp add: normalized_endpoint_domains_def xray_outbound_server_domains_def sample_xray_config_def
      sample_outbound_def sample_server btree_set_def sample_domain)

lemma sample_untagged:
  "\<not> contains_endpoint_dns_tag sample_xray_config" "\<not> selects_endpoint_dns_outbound sample_xray_config"
  by code_simp+

lemma sample_overlay: "\<exists>out. xray_runtime_document ''eth0'' sample_xray_config = Inr out"
  using sample_overlay_domains sample_untagged sample_server
  by (simp add: xray_runtime_document_def sample_xray_config_def sample_outbound_def bind_outbound_def
      section_of_def array_of_def Let_def ensure_def resolve_endpoints_def endpoint_servers_def
      emergency_server_def names_localhost_def sample_domain)

definition sample_overlaid :: json where
  "sample_overlaid = (case xray_runtime_document ''eth0'' sample_xray_config of Inr out \<Rightarrow> out | Inl e \<Rightarrow> JNull)"

lemma sample_overlay_Inr: "xray_runtime_document ''eth0'' sample_xray_config = Inr sample_overlaid"
  using sample_overlay by (auto simp: sample_overlaid_def)

lemma sample_servers: "servers_of sample_xray_config = [JString ''localhost'']"
  by (simp add: servers_of_def list_at_def sample_xray_config_def)

theorem xray_overlay_binds_witness:
  "\<exists>w. jpath [''outbounds''] sample_overlaid = Some (JArray [w, endpoint_outbound]) \<and> bound_to ''eth0'' sample_outbound w"
  using xray_overlay_binds[OF sample_overlay_Inr] unfolding sample_overlay_domains
  by (auto simp: sample_xray_config_def list_all2_Cons1)

theorem xray_overlay_resolves_witness:
  "\<exists>emergency. jpath [''dns'', ''servers''] sample_overlaid =
       Some (JArray [JObject emergency, endpoint_resolver [''vpn.example.org''], JString ''localhost'']) \<and>
     dict_get emergency ''domains'' = Some (JArray [])"
  using xray_overlay_resolves[OF sample_overlay_Inr sample_overlay_domains] unfolding sample_servers by blast

end
