(* ===== verification/Subscription_Input.thy ===== *)
theory Subscription_Input
  imports Yaml_Doc
begin

text \<open>
  \<open>crates/multicore-core/src/input.rs\<close>: reading a subscription's Mihomo document into what the user
  interface shows and the bridge to Xray needs: the proxy groups with their members, and the loopback
  SOCKS proxies. The YAML and JSON parsers and the regular expressions are parameters; \<open>compile p\<close> is
  the test of a pattern Rust can compile within its limits.
\<close>

section \<open>Reading fields\<close>

datatype config_error = TooLarge | InvalidUtf8 | InvalidMihomo | InvalidXray

definition MAX_CONFIG_BYTES :: nat where
  "MAX_CONFIG_BYTES = 32 * 1024 * 1024"

definition MAX_GROUP_ICON_FIELD_BYTES :: nat where
  "MAX_GROUP_ICON_FIELD_BYTES = 2048"

definition MAX_GROUP_PATTERN_BYTES :: nat where
  "MAX_GROUP_PATTERN_BYTES = 4096"

definition check_size :: "string \<Rightarrow> config_error + unit" where
  "check_size bytes = (if length bytes > MAX_CONFIG_BYTES then Inl TooLarge else Inr ())"

definition field_of :: "yaml \<Rightarrow> string \<Rightarrow> yaml option" where
  "field_of v name = (case yas_mapping v of None \<Rightarrow> None | Some m \<Rightarrow> yget m name)"

definition string_field :: "yaml \<Rightarrow> string \<Rightarrow> string option" where
  "string_field v name = (case field_of v name of None \<Rightarrow> None | Some w \<Rightarrow> yas_str w)"

text \<open>A tagged value is neither: the code matches on the constructor.\<close>

definition bool_field :: "yaml \<Rightarrow> string \<Rightarrow> bool" where
  "bool_field v name =
     (case field_of v name of
        Some (YBool b) \<Rightarrow> b
      | Some (YString s) \<Rightarrow> eq_ignore_ascii_case (trim s) ''true''
      | _ \<Rightarrow> False)"

definition validate_mihomo_sequence :: "yaml_map \<Rightarrow> string \<Rightarrow> config_error + unit" where
  "validate_mihomo_sequence m name =
     (case yget m name of
        Some v \<Rightarrow> if yas_sequence v = None then Inl InvalidMihomo else Inr ()
      | None \<Rightarrow> Inr ())"

text \<open>\<open>mapping.get(name).and_then(as_sequence).into_iter().flatten()\<close>\<close>

definition items :: "yaml_map \<Rightarrow> string \<Rightarrow> yaml list" where
  "items m name =
     (case yget m name of
        None \<Rightarrow> [] | Some v \<Rightarrow> (case yas_sequence v of None \<Rightarrow> [] | Some vs \<Rightarrow> vs))"

section \<open>Type names\<close>

definition mihomo_type_name :: "string \<Rightarrow> string" where
  "mihomo_type_name kind =
     (let k = to_ascii_lowercase kind
      in if k = ''ss'' then ''Shadowsocks''
         else if k = ''ssr'' then ''ShadowsocksR''
         else if k = ''socks5'' then ''Socks5''
         else if k = ''http'' then ''Http''
         else if k = ''hysteria2'' \<or> k = ''hy2'' then ''Hysteria2''
         else if k = ''select'' then ''Selector''
         else if k = ''url-test'' then ''URLTest''
         else if k = ''fallback'' then ''Fallback''
         else if k = ''load-balance'' then ''LoadBalance''
         else if k = ''relay'' then ''Relay''
         else kind)"

definition builtin_type_name :: "string \<Rightarrow> string" where
  "builtin_type_name name =
     (if name = ''DIRECT'' then ''Direct''
      else if name = ''REJECT'' then ''Reject''
      else if name = ''REJECT-DROP'' then ''RejectDrop''
      else if name = ''PASS'' then ''Pass''
      else if name = ''COMPATIBLE'' then ''Compatible''
      else if name = ''GLOBAL'' then ''Selector''
      else [])"

section \<open>Members of a group\<close>

record group_member =
  member_name :: string
  offered :: bool

definition compile_group_patterns ::
  "(string \<Rightarrow> (string \<Rightarrow> bool) option) \<Rightarrow> string \<Rightarrow> (string \<Rightarrow> bool) list option" where
  "compile_group_patterns compile patterns =
     (if length patterns > MAX_GROUP_PATTERN_BYTES then None
      else those (map compile (split_on CHR 0x60 patterns)))"

text \<open>\<open>filter(|name| seen.insert(name))\<close>: the new ones, and everything seen so far.\<close>

fun insert_new :: "string list \<Rightarrow> string list \<Rightarrow> string list \<times> string list" where
  "insert_new seen [] = ([], seen)"
| "insert_new seen (n # ns) =
     (if n \<in> set seen then insert_new seen ns
      else let (kept, seen) = insert_new (n # seen) ns in (n # kept, seen))"

definition non_empty :: "string option \<Rightarrow> string option" where
  "non_empty s = (case s of Some t \<Rightarrow> if t = [] then None else Some t | None \<Rightarrow> None)"

definition included :: "(string \<Rightarrow> (string \<Rightarrow> bool) option) \<Rightarrow> yaml \<Rightarrow> string list \<Rightarrow> string list" where
  "included compile grp all_proxies =
     (if bool_field grp ''include-all'' \<or> bool_field grp ''include-all-proxies''
      then case non_empty (string_field grp ''filter'') of
             None \<Rightarrow> all_proxies
           | Some pattern \<Rightarrow>
               (case compile_group_patterns compile pattern of
                  None \<Rightarrow> []
                | Some filters \<Rightarrow> filter (\<lambda>name. list_ex (\<lambda>f. f name) filters) all_proxies)
      else [])"

definition excluded_types :: "yaml \<Rightarrow> string list" where
  "excluded_types grp =
     (case string_field grp ''exclude-type'' of
        None \<Rightarrow> []
      | Some types \<Rightarrow> filter (\<lambda>k. k \<noteq> []) (map trim (split_on CHR ''|'' types)))"

definition exclude_filters :: "(string \<Rightarrow> (string \<Rightarrow> bool) option) \<Rightarrow> yaml \<Rightarrow> (string \<Rightarrow> bool) list" where
  "exclude_filters compile grp =
     (case non_empty (string_field grp ''exclude-filter'') of
        None \<Rightarrow> []
      | Some pattern \<Rightarrow> (case compile_group_patterns compile pattern of None \<Rightarrow> [] | Some fs \<Rightarrow> fs))"

definition group_members ::
  "(string \<Rightarrow> (string \<Rightarrow> bool) option) \<Rightarrow> yaml \<Rightarrow> string list \<Rightarrow> string list \<Rightarrow> (string, string) dict
   \<Rightarrow> group_member list" where
  "group_members compile grp explicit all_proxies member_types =
     (let (names, seen) = insert_new [] explicit;
          (more, _) = insert_new seen (included compile grp all_proxies);
          filters = exclude_filters compile grp;
          types = excluded_types grp
      in map (\<lambda>name.
           let filtered = list_ex (\<lambda>f. f name) filters;
               kind = (case dict_get member_types name of Some k \<Rightarrow> k | None \<Rightarrow> builtin_type_name name);
               excluded = list_ex (\<lambda>t. eq_ignore_ascii_case t kind) types
           in \<lparr>member_name = name, offered = \<not> filtered \<and> \<not> excluded\<rparr>) (names @ more))"

section \<open>The document\<close>

record proxy_group =
  group_name :: string
  group_type :: string
  group_proxies :: "string list"
  icon :: "string option"
  hidden :: bool
  members :: "group_member list"

record socks_mapping =
  mapping_name :: string
  mapping_port :: u16

record mihomo_config =
  raw_yaml :: string
  document :: yaml
  proxy_names :: "string list"
  groups :: "proxy_group list"
  loopback_socks_mappings :: "socks_mapping list"

definition MIHOMO_ROOT_KEYS :: "string list" where
  "MIHOMO_ROOT_KEYS =
     [''proxies'', ''proxy-groups'', ''rules'', ''rule-providers'', ''proxy-providers'', ''tun'', ''dns'',
      ''mixed-port'', ''socks-port'', ''redir-port'', ''tproxy-port'', ''listeners'', ''mode'']"

text \<open>\<open>trim_start_matches\<close> of the byte order mark, in UTF-8.\<close>

function trim_marks :: "string \<Rightarrow> string" where
  "trim_marks s =
     (case strip_prefix [CHR 0xEF, CHR 0xBB, CHR 0xBF] s of Some r \<Rightarrow> trim_marks r | None \<Rightarrow> s)"
  by pat_completeness auto
termination
  by (relation "measure length") (auto simp: strip_prefix_Some simp del: strip_prefix.simps)

declare trim_marks.simps [simp del]

definition named_and_typed :: "yaml \<Rightarrow> bool" where
  "named_and_typed v \<longleftrightarrow> string_field v ''name'' \<noteq> None \<and> string_field v ''type'' \<noteq> None"

text \<open>The name and the type name of an entry; the first entry of a name counts.\<close>

definition member_type :: "yaml \<Rightarrow> (string \<times> string) option" where
  "member_type v =
     (case (string_field v ''name'', string_field v ''type'') of
        (Some n, Some k) \<Rightarrow> Some (n, mihomo_type_name k) | _ \<Rightarrow> None)"

definition member_types :: "yaml_map \<Rightarrow> (string, string) dict" where
  "member_types m = List.map_filter member_type (items m ''proxies'' @ items m ''proxy-groups'')"

definition proxy_group_of ::
  "(string \<Rightarrow> (string \<Rightarrow> bool) option) \<Rightarrow> string list \<Rightarrow> (string, string) dict \<Rightarrow> yaml \<Rightarrow> proxy_group option" where
  "proxy_group_of compile all_proxies types v =
     (case (string_field v ''name'', string_field v ''type'', yas_mapping v) of
        (Some n, Some k, Some g) \<Rightarrow>
          let explicit = List.map_filter yas_str (items g ''proxies'');
              shown = (case map_option trim (string_field v ''icon'') of
                         Some i \<Rightarrow> if i \<noteq> [] \<and> length i \<le> MAX_GROUP_ICON_FIELD_BYTES then Some i else None
                       | None \<Rightarrow> None)
          in Some \<lparr>group_name = n, group_type = k, group_proxies = explicit, icon = shown,
                   hidden = bool_field v ''hidden'',
                   members = group_members compile v explicit all_proxies types\<rparr>
      | _ \<Rightarrow> None)"

definition socks_mapping_of :: "yaml \<Rightarrow> socks_mapping option" where
  "socks_mapping_of v =
     (case (string_field v ''name'', string_field v ''type'', string_field v ''server'', field_of v ''port'') of
        (Some n, Some k, Some server, Some p) \<Rightarrow>
          if \<not> eq_ignore_ascii_case k ''socks5'' \<or> server \<noteq> ''127.0.0.1'' then None
          else (case Option.bind (yas_u64 p) u16_try_from of
                  Some port \<Rightarrow> if port = 0 then None else Some \<lparr>mapping_name = n, mapping_port = port\<rparr>
                | None \<Rightarrow> None)
      | _ \<Rightarrow> None)"

fun first_mappings :: "string list \<Rightarrow> yaml list \<Rightarrow> socks_mapping list" where
  "first_mappings seen [] = []"
| "first_mappings seen (v # vs) =
     (case socks_mapping_of v of
        Some s \<Rightarrow> if mapping_name s \<in> set seen then first_mappings seen vs
                  else s # first_mappings (mapping_name s # seen) vs
      | None \<Rightarrow> first_mappings seen vs)"

definition mihomo_config_of ::
  "(string \<Rightarrow> (string \<Rightarrow> bool) option) \<Rightarrow> string \<Rightarrow> yaml \<Rightarrow> (yaml, yaml) dict \<Rightarrow> mihomo_config" where
  "mihomo_config_of compile raw doc m =
     (let names = List.map_filter (\<lambda>p. string_field p ''name'') (items m ''proxies'');
          all_proxies = remdups_adj (sort names)
      in \<lparr>raw_yaml = raw, document = doc, proxy_names = names,
          groups = List.map_filter (proxy_group_of compile all_proxies (member_types m)) (items m ''proxy-groups''),
          loopback_socks_mappings = first_mappings [] (items m ''proxies'')\<rparr>)"

definition parse_mihomo ::
  "(string \<Rightarrow> yaml option) \<Rightarrow> (string \<Rightarrow> (string \<Rightarrow> bool) option) \<Rightarrow> string \<Rightarrow> config_error + mihomo_config" where
  "parse_mihomo from_yaml compile bytes =
     rbind (check_size bytes) (\<lambda>_.
     rbind (ok_or InvalidUtf8 (to_str bytes)) (\<lambda>raw.
     let trimmed = trim_start (trim_marks raw)
     in if starts_with ''{'' trimmed \<or> starts_with ''['' trimmed then Inl InvalidMihomo
     else rbind (ok_or InvalidMihomo (from_yaml raw)) (\<lambda>doc.
     rbind (ok_or InvalidMihomo (yas_mapping doc)) (\<lambda>m.
     rbind (ensure InvalidMihomo (list_ex (\<lambda>k. yget m k \<noteq> None) MIHOMO_ROOT_KEYS)) (\<lambda>_.
     rbind (each_result (validate_mihomo_sequence m) [''rules'', ''proxies'', ''proxy-groups'']) (\<lambda>_.
     rbind (ensure InvalidMihomo (list_all named_and_typed (items m ''proxies''))) (\<lambda>_.
     rbind (ensure InvalidMihomo (list_all named_and_typed (items m ''proxy-groups''))) (\<lambda>_.
     Inr (mihomo_config_of compile raw doc m)))))))))"

definition parse_xray :: "(string \<Rightarrow> json option) \<Rightarrow> string \<Rightarrow> config_error + string" where
  "parse_xray from_json bytes =
     rbind (check_size bytes) (\<lambda>_.
     rbind (ok_or InvalidUtf8 (to_str bytes)) (\<lambda>raw.
     rbind (ok_or InvalidXray (from_json raw)) (\<lambda>doc.
       if jas_object doc = None then Inl InvalidXray else Inr bytes)))"

section \<open>The members of a group\<close>

text \<open>Each element once, where it came first.\<close>

fun first_of :: "'a list \<Rightarrow> 'a list" where
  "first_of [] = []"
| "first_of (x # xs) = x # filter (\<lambda>y. y \<noteq> x) (first_of xs)"

lemma set_first_of: "set (first_of xs) = set xs"
  by (induction xs) auto

lemma distinct_first_of: "distinct (first_of xs)"
  by (induction xs) auto

lemma insert_new_first:
  "fst (insert_new seen ns) = filter (\<lambda>n. n \<notin> set seen) (first_of ns) \<and>
   set (snd (insert_new seen ns)) = set seen \<union> set ns"
proof (induction ns arbitrary: seen)
  case (Cons n ns)
  have "filter (\<lambda>y. y \<notin> set seen) (filter (\<lambda>y. y \<noteq> n) xs) = filter (\<lambda>y. y \<notin> insert n (set seen)) xs" for xs
    by (induction xs) auto
  moreover have "filter (\<lambda>y. y \<notin> set seen) (filter (\<lambda>y. y \<noteq> n) xs) = filter (\<lambda>y. y \<notin> set seen) xs"
    if "n \<in> set seen" for xs
    using that by (induction xs) auto
  ultimately show ?case using Cons[of seen] Cons[of "n # seen"] by (auto split: prod.splits)
qed simp_all

text \<open>Whether Mihomo still offers a member: no exclude filter matches it and its type is not excluded.\<close>

definition still_offered ::
  "(string \<Rightarrow> (string \<Rightarrow> bool) option) \<Rightarrow> yaml \<Rightarrow> (string, string) dict \<Rightarrow> string \<Rightarrow> bool" where
  "still_offered compile grp types n \<longleftrightarrow>
     \<not> list_ex (\<lambda>f. f n) (exclude_filters compile grp) \<and>
     \<not> list_ex (\<lambda>t. eq_ignore_ascii_case t
          (case dict_get types n of Some k \<Rightarrow> k | None \<Rightarrow> builtin_type_name n)) (excluded_types grp)"

lemma group_members_eq:
  "group_members compile grp explicit all_proxies types =
      map (\<lambda>name. \<lparr>member_name = name, offered = still_offered compile grp types name\<rparr>)
        (first_of (explicit @ included compile grp all_proxies))"
proof -
  obtain names seen where n: "insert_new [] explicit = (names, seen)" by fastforce
  obtain more rest where m: "insert_new seen (included compile grp all_proxies) = (more, rest)" by fastforce
  have names: "names = first_of explicit" "set seen = set explicit"
    using insert_new_first[of "[]" explicit] n by simp_all
  have more: "more = filter (\<lambda>x. x \<notin> set explicit) (first_of (included compile grp all_proxies))"
    using insert_new_first[of seen "included compile grp all_proxies"] m names(2) by simp
  have append: "first_of (xs @ ys) = first_of xs @ filter (\<lambda>x. x \<notin> set xs) (first_of ys)" for xs ys :: "string list"
  proof (induction xs)
    case (Cons x xs)
    have "filter (\<lambda>y. y \<noteq> x) (filter (\<lambda>y. y \<notin> set xs) zs) = filter (\<lambda>y. y \<notin> set (x # xs)) zs" for zs
      by (induction zs) auto
    with Cons show ?case by simp
  qed simp
  have all: "names @ more = first_of (explicit @ included compile grp all_proxies)"
    by (simp add: append names(1) more)
  show ?thesis
    unfolding group_members_def n m Let_def prod.case all still_offered_def ..
qed

text \<open>
  A group lists its explicit proxies first, in their order, then what it includes from the sorted
  proxies of the document, each name once and at its first place; excluding never moves or removes a
  member but decides alone whether it can be selected.
\<close>

theorem group_members_exact:
  "map member_name (group_members compile grp explicit all_proxies types) =
     first_of (explicit @ included compile grp all_proxies) \<and>
   map offered (group_members compile grp explicit all_proxies types) =
     map (still_offered compile grp types) (first_of (explicit @ included compile grp all_proxies)) \<and>
   distinct (map member_name (group_members compile grp explicit all_proxies types))"
  using distinct_first_of[of "explicit @ included compile grp all_proxies"]
  by (simp add: group_members_eq comp_def)

section \<open>An accepted document\<close>

text \<open>
  A bridge of the document: a named SOCKS proxy on 127.0.0.1 with a port other than zero. It stands
  for the mapping of its name to its port.
\<close>

definition bridge :: "yaml \<Rightarrow> socks_mapping \<Rightarrow> bool" where
  "bridge v s \<longleftrightarrow>
     string_field v ''name'' = Some (mapping_name s) \<and> string_field v ''server'' = Some ''127.0.0.1'' \<and>
     (\<exists>k. string_field v ''type'' = Some k \<and> eq_ignore_ascii_case k ''socks5'') \<and>
     (\<exists>p n. field_of v ''port'' = Some p \<and> yas_u64 p = Some n \<and> unat n = unat (mapping_port s)) \<and>
     mapping_port s \<noteq> 0"

lemma u16_try_from_iff: "u16_try_from n = Some p \<longleftrightarrow> unat n = unat p"
proof
  assume n: "unat n = unat p"
  have "unat p < 2 ^ 16" using unsigned_less [of p, where ?'a = nat] by simp
  then show "u16_try_from n = Some p" unfolding u16_try_from_def n by simp
qed (auto dest: u16_try_from_Some)

lemma socks_mapping_bridge: "socks_mapping_of v = Some s \<longleftrightarrow> bridge v s"
proof
  assume "socks_mapping_of v = Some s"
  then show "bridge v s"
    by (auto simp: socks_mapping_of_def bridge_def bind_eq_Some_conv u16_try_from_iff
        split: option.splits if_splits)
next
  assume "bridge v s"
  then obtain k p n where v: "string_field v ''name'' = Some (mapping_name s)"
    "string_field v ''server'' = Some ''127.0.0.1''" "string_field v ''type'' = Some k"
    "eq_ignore_ascii_case k ''socks5''" "field_of v ''port'' = Some p" "yas_u64 p = Some n"
    and port: "unat n = unat (mapping_port s)" "mapping_port s \<noteq> 0"
    unfolding bridge_def by blast
  from port(1) have "u16_try_from n = Some (mapping_port s)" by (simp only: u16_try_from_iff)
  with v port(2) show "socks_mapping_of v = Some s" by (simp add: socks_mapping_of_def)
qed

lemma first_mappings_ok:
  "distinct (map mapping_name (first_mappings seen vs)) \<and>
   set (map mapping_name (first_mappings seen vs)) \<inter> set seen = {}"
  by (induction seen vs rule: first_mappings.induct) (auto split: option.splits)

text \<open>The first bridge of a name counts, and every name of a bridge is there.\<close>

definition first_bridge :: "yaml list \<Rightarrow> socks_mapping \<Rightarrow> bool" where
  "first_bridge vs s \<longleftrightarrow>
     (\<exists>xs v ys. vs = xs @ v # ys \<and> bridge v s \<and>
        (\<forall>u\<in>set xs. \<forall>t. bridge u t \<longrightarrow> mapping_name t \<noteq> mapping_name s))"

lemma first_bridge_Cons:
  "first_bridge (v # vs) s \<longleftrightarrow>
     bridge v s \<or> (\<forall>t. bridge v t \<longrightarrow> mapping_name t \<noteq> mapping_name s) \<and> first_bridge vs s"
proof
  assume "first_bridge (v # vs) s"
  then obtain xs u ys where u: "v # vs = xs @ u # ys" "bridge u s"
    "\<forall>w\<in>set xs. \<forall>t. bridge w t \<longrightarrow> mapping_name t \<noteq> mapping_name s"
    unfolding first_bridge_def by blast
  then show "bridge v s \<or> (\<forall>t. bridge v t \<longrightarrow> mapping_name t \<noteq> mapping_name s) \<and> first_bridge vs s"
    unfolding first_bridge_def by (cases xs) (simp, simp, blast)
next
  assume "bridge v s \<or> (\<forall>t. bridge v t \<longrightarrow> mapping_name t \<noteq> mapping_name s) \<and> first_bridge vs s"
  then show "first_bridge (v # vs) s"
  proof
    assume "bridge v s"
    then show ?thesis unfolding first_bridge_def by (intro exI [of _ "[]"]) auto
  next
    assume first: "(\<forall>t. bridge v t \<longrightarrow> mapping_name t \<noteq> mapping_name s) \<and> first_bridge vs s"
    then obtain xs u ys where u: "vs = xs @ u # ys" "bridge u s"
      "\<forall>w\<in>set xs. \<forall>t. bridge w t \<longrightarrow> mapping_name t \<noteq> mapping_name s"
      unfolding first_bridge_def by blast
    with first have "v # vs = (v # xs) @ u # ys \<and> bridge u s \<and>
        (\<forall>w\<in>set (v # xs). \<forall>t. bridge w t \<longrightarrow> mapping_name t \<noteq> mapping_name s)" by simp
    then show ?thesis unfolding first_bridge_def by blast
  qed
qed

lemma bridge_unique: "bridge v s \<Longrightarrow> bridge v t \<Longrightarrow> s = t"
  by (metis socks_mapping_bridge option.inject)

lemma first_mappings_exact:
  "s \<in> set (first_mappings seen vs) \<longleftrightarrow> first_bridge vs s \<and> mapping_name s \<notin> set seen"
proof (induction seen vs rule: first_mappings.induct)
  case (1 seen)
  then show ?case by (simp add: first_bridge_def)
next
  case (2 seen v vs)
  show ?case
  proof (cases "socks_mapping_of v")
    case None
    then have "\<not> bridge v t" for t by (simp flip: socks_mapping_bridge)
    with 2 None show ?thesis by (simp add: first_bridge_Cons)
  next
    case (Some u)
    then have u: "bridge v t \<longleftrightarrow> t = u" for t
      by (metis socks_mapping_bridge option.inject)
    show ?thesis
    proof (cases "mapping_name u \<in> set seen")
      case True
      with 2(2)[OF Some True] Some u show ?thesis by (simp add: first_bridge_Cons) metis
    next
      case False
      with 2(3)[OF Some False] Some u show ?thesis by (simp add: first_bridge_Cons) metis
    qed
  qed
qed

lemma map_filter_all: "list_all (\<lambda>x. f x \<noteq> None) xs \<Longrightarrow> List.map_filter f xs = map (\<lambda>x. the (f x)) xs"
  by (induction xs) (auto simp: List.map_filter_simps)

lemma string_field_mapping: "string_field v n \<noteq> None \<Longrightarrow> yas_mapping v \<noteq> None"
  by (auto simp: string_field_def field_of_def split: option.splits)

lemma map_filter_Some:
  "list_all (\<lambda>x. \<exists>y. f x = Some y \<and> P x y) xs \<Longrightarrow> list_all2 P xs (List.map_filter f xs)"
  by (induction xs) (auto simp: List.map_filter_simps)

lemma list_all2_map: "list_all2 (\<lambda>x y. f x = Some (g y)) xs ys \<longleftrightarrow> map f xs = map (\<lambda>y. Some (g y)) ys"
  by (induction xs arbitrary: ys) (auto simp: list_all2_Cons1 Cons_eq_map_conv)

text \<open>
  What a group shows of its entry: name, type, visibility, icon and its explicit proxies as the document
  lists them; its members are those and what it includes of the document's proxies, each at its first
  place, offered as long as no filter or type excludes it.
\<close>

definition group_reads ::
  "(string \<Rightarrow> (string \<Rightarrow> bool) option) \<Rightarrow> string list \<Rightarrow> (string, string) dict \<Rightarrow> yaml \<Rightarrow> proxy_group \<Rightarrow> bool"
  where
  "group_reads compile all_proxies types v grp \<longleftrightarrow>
     (\<exists>g. yas_mapping v = Some g \<and> group_proxies grp = List.map_filter yas_str (items g ''proxies'')) \<and>
     string_field v ''name'' = Some (group_name grp) \<and> string_field v ''type'' = Some (group_type grp) \<and>
     hidden grp = bool_field v ''hidden'' \<and>
     icon grp = (case map_option trim (string_field v ''icon'') of
       Some i \<Rightarrow> if i \<noteq> [] \<and> length i \<le> MAX_GROUP_ICON_FIELD_BYTES then Some i else None | None \<Rightarrow> None) \<and>
     members grp = map (\<lambda>n. \<lparr>member_name = n, offered = still_offered compile v types n\<rparr>)
       (first_of (group_proxies grp @ included compile v all_proxies))"

lemma proxy_group_of_reads:
  assumes "named_and_typed v"
  shows "\<exists>grp. proxy_group_of compile all_proxies types v = Some grp \<and>
    group_reads compile all_proxies types v grp"
proof -
  from assms obtain n k g where v: "string_field v ''name'' = Some n" "string_field v ''type'' = Some k"
    "yas_mapping v = Some g"
    using string_field_mapping[of v "''name''"] by (auto simp: named_and_typed_def)
  then show ?thesis
    by (simp add: proxy_group_of_def Let_def group_reads_def group_members_eq)
qed

lemma groups_read:
  assumes "list_all named_and_typed vs"
  shows "list_all2 (group_reads compile all_proxies types) vs
    (List.map_filter (proxy_group_of compile all_proxies types) vs)"
  using assms proxy_group_of_reads by (intro map_filter_Some) (auto simp: list_all_iff)

text \<open>\<open>sort\<close> and \<open>dedup\<close> leave every name once, in order.\<close>

lemma sort_dedup: "remdups_adj (sort xs) = sorted_list_of_set (set xs)"
  for xs :: "string list"
proof -
  have "sorted ys \<Longrightarrow> distinct (remdups_adj ys)" for ys :: "string list"
    by (induction ys rule: remdups_adj.induct) (auto simp: le_less dest: order.strict_trans2)
  then have "distinct (remdups_adj (sort xs))" by simp
  moreover have "sorted (remdups_adj (sort xs))" by (simp add: sorted_remdups_adj)
  ultimately show ?thesis by (intro sorted_distinct_set_unique) simp_all
qed

lemma parse_mihomo_Inr:
  assumes "parse_mihomo from_yaml compile bytes = Inr c"
  shows "\<exists>doc m. length bytes \<le> MAX_CONFIG_BYTES \<and> valid_utf8 bytes \<and> from_yaml bytes = Some doc \<and>
     yas_mapping doc = Some m \<and> list_all named_and_typed (items m ''proxies'') \<and>
     list_all named_and_typed (items m ''proxy-groups'') \<and> c = mihomo_config_of compile bytes doc m"
  using assms unfolding parse_mihomo_def check_size_def to_str_def Let_def
  by (simp only: rbind_Inr ok_or_Inr ensure_Inr if_distrib split: if_split_asm) (auto simp: not_less)

text \<open>
  C32. An accepted subscription document is text of at most 32 MiB that parses to a mapping. Every
  proxy and every group of it is kept, in order and with its name. A group keeps its type, its
  visibility, its icon and its explicit proxies; its members are those and the proxies of the document, sorted,
  that it includes, each once, and they are offered unless a filter or a type excludes them. The
  loopback ports, by which Mihomo reaches Xray, are exactly the named SOCKS proxies on 127.0.0.1 of
  the document with their ports, the first of every name.
\<close>

theorem subscription_accepted:
  assumes "parse_mihomo from_yaml compile bytes = Inr c"
  shows "\<exists>m. from_yaml bytes = Some (document c) \<and> yas_mapping (document c) = Some m \<and>
     raw_yaml c = bytes \<and> length bytes \<le> MAX_CONFIG_BYTES \<and> valid_utf8 bytes \<and>
     map (\<lambda>v. string_field v ''name'') (items m ''proxies'') = map Some (proxy_names c) \<and>
     list_all2 (group_reads compile (sorted_list_of_set (set (proxy_names c))) (member_types m))
       (items m ''proxy-groups'') (groups c) \<and>
     distinct (map mapping_name (loopback_socks_mappings c)) \<and>
     (\<forall>s. s \<in> set (loopback_socks_mappings c) \<longleftrightarrow> first_bridge (items m ''proxies'') s)"
proof -
  obtain doc m where c: "length bytes \<le> MAX_CONFIG_BYTES" "valid_utf8 bytes" "from_yaml bytes = Some doc"
    "yas_mapping doc = Some m" "list_all named_and_typed (items m ''proxies'')"
    "list_all named_and_typed (items m ''proxy-groups'')"
    and cfg: "c = mihomo_config_of compile bytes doc m"
    using parse_mihomo_Inr[OF assms] by blast
  let ?names = "List.map_filter (\<lambda>p. string_field p ''name'') (items m ''proxies'')"
  have "list_all (\<lambda>v. \<exists>n. string_field v ''name'' = Some n \<and> string_field v ''name'' = Some n) (items m ''proxies'')"
    using c(5) by (auto simp: list_all_iff named_and_typed_def)
  from map_filter_Some[OF this] have names: "map (\<lambda>v. string_field v ''name'') (items m ''proxies'') = map Some ?names"
    unfolding list_all2_map .
  have "distinct (map mapping_name (first_mappings [] (items m ''proxies'')))"
    using first_mappings_ok[of "[]" "items m ''proxies''"] by blast
  then show ?thesis
    using c names groups_read[OF c(6), of compile "sorted_list_of_set (set ?names)" "member_types m"]
    by (intro exI[of _ m]) (simp add: cfg mihomo_config_of_def Let_def sort_dedup first_mappings_exact)
qed

definition sample_socks :: yaml where
  "sample_socks = YMapping [(YString ''name'', YString ''bridge''), (YString ''type'', YString ''Socks5''),
     (YString ''server'', YString ''127.0.0.1''), (YString ''port'', YNumber (PosInt 1080))]"

definition sample_group :: yaml where
  "sample_group = YMapping [(YString ''name'', YString ''Auto''), (YString ''type'', YString ''select''),
     (YString ''include-all'', YBool True), (YString ''proxies'', YSequence [YString ''DIRECT''])]"

definition sample_subscription :: yaml where
  "sample_subscription = YMapping [(YString ''proxies'', YSequence [sample_socks]),
     (YString ''proxy-groups'', YSequence [sample_group])]"

lemmas sample_defs = sample_socks_def sample_group_def sample_subscription_def

lemma subscription_sample_items:
  "yas_mapping sample_subscription = Some [(YString ''proxies'', YSequence [sample_socks]),
     (YString ''proxy-groups'', YSequence [sample_group])] \<and>
   items [(YString ''proxies'', YSequence [sample_socks]),
     (YString ''proxy-groups'', YSequence [sample_group])] ''proxies'' = [sample_socks] \<and>
   items [(YString ''proxies'', YSequence [sample_socks]),
     (YString ''proxy-groups'', YSequence [sample_group])] ''proxy-groups'' = [sample_group]"
  by code_simp

lemma subscription_sample_checks:
  "list_ex (\<lambda>k. yget [(YString ''proxies'', YSequence [sample_socks]),
     (YString ''proxy-groups'', YSequence [sample_group])] k \<noteq> None) MIHOMO_ROOT_KEYS \<and>
   each_result (validate_mihomo_sequence [(YString ''proxies'', YSequence [sample_socks]),
     (YString ''proxy-groups'', YSequence [sample_group])]) [''rules'', ''proxies'', ''proxy-groups''] = Inr () \<and>
   named_and_typed sample_socks \<and> named_and_typed sample_group \<and> to_str ''mode: rule'' = Some ''mode: rule'' \<and>
   \<not> starts_with ''{'' (trim_start (trim_marks ''mode: rule'')) \<and>
   \<not> starts_with ''['' (trim_start (trim_marks ''mode: rule''))"
  by code_simp

definition sample_config :: mihomo_config where
  "sample_config = mihomo_config_of (\<lambda>_. None) ''mode: rule'' sample_subscription
     [(YString ''proxies'', YSequence [sample_socks]), (YString ''proxy-groups'', YSequence [sample_group])]"

lemma sample_parsed:
  "parse_mihomo (\<lambda>_. Some sample_subscription) (\<lambda>_. None) ''mode: rule'' = Inr sample_config"
  using subscription_sample_items subscription_sample_checks
  by (simp add: parse_mihomo_def check_size_def MAX_CONFIG_BYTES_def Let_def ensure_def sample_config_def)

lemma sample_socks_read:
  "string_field sample_socks ''name'' = Some ''bridge'' \<and> string_field sample_socks ''type'' = Some ''Socks5'' \<and>
   string_field sample_socks ''server'' = Some ''127.0.0.1'' \<and>
   field_of sample_socks ''port'' = Some (YNumber (PosInt 1080)) \<and> eq_ignore_ascii_case ''Socks5'' ''socks5''"
  by code_simp

lemma sample_group_read:
  "string_field sample_group ''name'' = Some ''Auto'' \<and> string_field sample_group ''type'' = Some ''select'' \<and>
   yas_mapping sample_group \<noteq> None \<and> items (the (yas_mapping sample_group)) ''proxies'' = [YString ''DIRECT''] \<and>
   yas_str (YString ''DIRECT'') = Some ''DIRECT'' \<and>
   included (\<lambda>_. None) sample_group [''bridge''] = [''bridge''] \<and> string_field sample_group ''icon'' = None"
  by code_simp

lemma sample_socks_mapping:
  "socks_mapping_of sample_socks = Some \<lparr>mapping_name = ''bridge'', mapping_port = 1080\<rparr>"
  using sample_socks_read by (simp add: socks_mapping_of_def u16_try_from_def)

lemma sample_config_read:
  "map (\<lambda>grp. map member_name (members grp)) (groups sample_config) = [[''DIRECT'', ''bridge'']] \<and>
   map mapping_port (loopback_socks_mappings sample_config) = [1080]"
proof -
  obtain g where g: "yas_mapping sample_group = Some g" using sample_group_read by auto
  have "map member_name (members (the (proxy_group_of (\<lambda>_. None) [''bridge''] types sample_group))) = [''DIRECT'', ''bridge'']
    \<and> proxy_group_of (\<lambda>_. None) [''bridge''] types sample_group \<noteq> None" for types
    using sample_group_read g
    by (simp add: proxy_group_of_def Let_def group_members_eq comp_def List.map_filter_simps)
  then obtain grp where grp: "map member_name (members grp) = [''DIRECT'', ''bridge'']" and
    "proxy_group_of (\<lambda>_. None) [''bridge''] (member_types [(YString ''proxies'', YSequence [sample_socks]),
       (YString ''proxy-groups'', YSequence [sample_group])]) sample_group = Some grp" by force
  moreover have "remdups_adj (sort [''bridge'']) = [''bridge'']" by simp
  ultimately have "groups sample_config = [grp]"
    using subscription_sample_items sample_socks_read
    by (simp only: sample_config_def mihomo_config_of_def Let_def) (simp add: List.map_filter_simps)
  moreover have "loopback_socks_mappings sample_config = [\<lparr>mapping_name = ''bridge'', mapping_port = 1080\<rparr>]"
    using subscription_sample_items sample_socks_mapping by (simp add: sample_config_def mihomo_config_of_def Let_def)
  ultimately show ?thesis using grp by simp
qed

theorem subscription_accepted_witness:
  "\<exists>m. yas_mapping (document sample_config) = Some m \<and>
     map (\<lambda>grp. map member_name (members grp)) (groups sample_config) = [[''DIRECT'', ''bridge'']] \<and>
     map mapping_port (loopback_socks_mappings sample_config) = [1080] \<and>
     (\<forall>s. s \<in> set (loopback_socks_mappings sample_config) \<longleftrightarrow> first_bridge (items m ''proxies'') s)"
  using subscription_accepted[OF sample_parsed] sample_config_read
  by (elim exE conjE, intro exI conjI)

end
