(* ===== verification/Runtime_Staging.thy ===== *)
theory Runtime_Staging
  imports Mihomo_Sanitize Dns_Guard Xray_Overlay Subscription_Input
begin

text \<open>
  The Mihomo half of staging (\<open>crates/multicore-core/src/snapshot.rs\<close>): the copy of the subscription's
  document that a core runs, with the daemon's controller, the tunnel's settings and the system
  proxy's port, and both documents together. The readers and writers of YAML and JSON and the
  display of a socket address are parameters.
\<close>

section \<open>The daemon's settings\<close>

datatype control_error =
  NotLoopback | EmptySecret | NoPort | BadInterface | RelativeUi | BadUiText | MissingUi | MissingIndex

record runtime_control =
  ctl_ip :: ip_addr
  ctl_port :: u16
  ctl_secret :: string
  xray_outbound_interface :: "string option"
  external_ui_directory :: "string option"
  proxy_mixed_port :: "u16 option"

definition control_new :: "ip_addr \<Rightarrow> u16 \<Rightarrow> string \<Rightarrow> control_error + runtime_control" where
  "control_new ip port secret =
     (if \<not> is_loopback ip then Inl NotLoopback
      else if secret = [] then Inl EmptySecret
      else Inr \<lparr>ctl_ip = ip, ctl_port = port, ctl_secret = secret, xray_outbound_interface = None,
                external_ui_directory = None, proxy_mixed_port = None\<rparr>)"

definition with_proxy_mode :: "u16 \<Rightarrow> runtime_control \<Rightarrow> control_error + runtime_control" where
  "with_proxy_mode port c = (if port = 0 then Inl NoPort else Inr (c\<lparr>proxy_mixed_port := Some port\<rparr>))"

definition with_xray_outbound_interface :: "string \<Rightarrow> runtime_control \<Rightarrow> control_error + runtime_control" where
  "with_xray_outbound_interface given c =
     (let interface = trim given
      in if interface = [] \<or> length interface > 256 \<or> has_control interface then Inl BadInterface
         else Inr (c\<lparr>xray_outbound_interface := Some interface\<rparr>))"

text \<open>\<open>is_dir\<close> and \<open>is_file\<close> are what the file system answers.\<close>

definition with_external_ui_directory ::
  "(string \<Rightarrow> bool) \<Rightarrow> (string \<Rightarrow> bool) \<Rightarrow> string \<Rightarrow> runtime_control \<Rightarrow> control_error + runtime_control" where
  "with_external_ui_directory is_dir is_file directory c =
     (if \<not> is_absolute directory then Inl RelativeUi
      else if (case to_str directory of None \<Rightarrow> True | Some t \<Rightarrow> has_control t) then Inl BadUiText
      else if \<not> is_dir directory then Inl MissingUi
      else if \<not> is_file (path_join directory ''index.html'') then Inl MissingIndex
      else Inr (c\<lparr>external_ui_directory := Some directory\<rparr>))"

section \<open>Sections of the document\<close>

definition OWNED_KEYS :: "string list" where
  "OWNED_KEYS =
     [''external-controller-unix'', ''external-controller-pipe'', ''external-controller-tls'',
      ''external-controller-cors'', ''external-controller-routing-mark'', ''cors'',
      ''external-doh-server'', ''global-client-fingerprint'']"

text \<open>\<open>entry(key).or_insert_with(..)\<close>, and the same with a value that is no mapping replaced.\<close>

definition or_insert :: "string \<Rightarrow> yaml \<Rightarrow> yaml_map \<Rightarrow> yaml_map" where
  "or_insert k v m = (case yget m k of None \<Rightarrow> yinsert k v m | Some _ \<Rightarrow> m)"

definition mapping_entry :: "string \<Rightarrow> yaml_map \<Rightarrow> yaml" where
  "mapping_entry k m =
     (case yget m k of
        None \<Rightarrow> YMapping [] | Some v \<Rightarrow> if yas_mapping v = None then YMapping [] else v)"

definition update_mapping :: "string \<Rightarrow> (yaml_map \<Rightarrow> yaml_map) \<Rightarrow> yaml_map \<Rightarrow> yaml_map" where
  "update_mapping k f m =
     (let v = mapping_entry k m
      in yinsert k (retag v (YMapping (case yas_mapping v of Some s \<Rightarrow> f s | None \<Rightarrow> []))) m)"

definition is_external_ui :: "yaml \<Rightarrow> bool" where
  "is_external_ui k \<longleftrightarrow> (case yas_str k of Some t \<Rightarrow> starts_with ''external-ui'' t | None \<Rightarrow> False)"

definition remove_external_ui :: "yaml_map \<Rightarrow> yaml_map" where
  "remove_external_ui m = fold swap_remove (filter is_external_ui (map fst m)) m"

definition set_controller ::
  "(ip_addr \<Rightarrow> u16 \<Rightarrow> string) \<Rightarrow> runtime_control \<Rightarrow> yaml_map \<Rightarrow> runtime_error + yaml_map" where
  "set_controller show_socket c m =
     (let m = yinsert ''external-controller'' (YString (show_socket (ctl_ip c) (ctl_port c))) m;
          m = yinsert ''secret'' (YString (ctl_secret c)) m
      in case external_ui_directory c of
           None \<Rightarrow> Inr m
         | Some directory \<Rightarrow>
             rbind (ok_or (InvalidData ''Mihomo external-ui directory is not valid Unicode'') (to_str directory))
               (\<lambda>text. Inr (yinsert ''external-ui'' (YString text) m)))"

definition stage_tun :: "bool \<Rightarrow> bool \<Rightarrow> yaml_map \<Rightarrow> yaml_map" where
  "stage_tun ipv6_off proxied tun =
     (let tun = yinsert ''device'' (YString ''MultiCore'') tun;
          tun = or_insert ''stack'' (YString ''gvisor'') tun;
          no_ipv6 = (ipv6_off \<or> Option.bind (yget tun ''inet6-address'') yas_sequence = Some []);
          auto_route = (Option.bind (yget tun ''auto-route'') yas_bool \<noteq> Some False);
          tun = (if no_ipv6 \<and> auto_route \<and>
                    (case yget tun ''strict-route'' of None \<Rightarrow> True | Some v \<Rightarrow> yis_null v)
                 then yinsert ''strict-route'' (YBool True) tun else tun)
      in if proxied then yinsert ''enable'' (YBool False) tun else tun)"

definition place_tun :: "bool \<Rightarrow> yaml_map \<Rightarrow> runtime_error + yaml_map" where
  "place_tun proxied m =
     (let ipv6_off = (Option.bind (yget m ''ipv6'') yas_bool = Some False);
          v = (case yget m ''tun'' of None \<Rightarrow> YMapping [] | Some v \<Rightarrow> v)
      in rbind (ok_or (InvalidData ''validated Mihomo tun section is not a mapping'') (yas_mapping v)) (\<lambda>tun.
           Inr (yinsert ''tun'' (retag v (YMapping (stage_tun ipv6_off proxied tun))) m)))"

definition set_proxy_port :: "u16 option \<Rightarrow> yaml_map \<Rightarrow> yaml_map" where
  "set_proxy_port port m =
     (case port of
        None \<Rightarrow> m
      | Some port \<Rightarrow>
          yinsert ''allow-lan'' (YBool False)
            (yinsert ''bind-address'' (YString ''127.0.0.1'')
              (yinsert ''mixed-port'' (YNumber (PosInt (ucast port))) m)))"

section \<open>Global mode\<close>

definition lists_global :: "yaml \<Rightarrow> bool" where
  "lists_global grp \<longleftrightarrow>
     (case Option.bind (field_of grp ''proxies'') yas_sequence of
        Some ws \<Rightarrow> list_ex (\<lambda>w. yas_str w = Some ''GLOBAL'') ws
      | None \<Rightarrow> False)"

definition global_group :: "string list \<Rightarrow> yaml" where
  "global_group names = YMapping
     [(YString ''name'', YString ''GLOBAL''), (YString ''type'', YString ''select''),
      (YString ''proxies'', YSequence (map YString names @ [YString ''DIRECT'']))]"

definition global_members :: "yaml list \<Rightarrow> string list" where
  "global_members gs = List.map_filter (\<lambda>g. string_field g ''name'') (filter (\<lambda>g. \<not> lists_global g) gs)"

definition route_global_mode_through_first_group :: "yaml_map \<Rightarrow> yaml_map" where
  "route_global_mode_through_first_group m =
     (if \<not> (case Option.bind (yget m ''mode'') yas_str of
               Some mode \<Rightarrow> eq_ignore_ascii_case (trim mode) ''global'' | None \<Rightarrow> False) then m
      else case yget m ''proxy-groups'' of
        None \<Rightarrow> m
      | Some v \<Rightarrow>
          (case yas_sequence v of
             None \<Rightarrow> m
           | Some gs \<Rightarrow>
               if list_ex (\<lambda>g. string_field g ''name'' = Some ''GLOBAL'') gs then m
               else if global_members gs = [] then m
               else yinsert ''proxy-groups'' (retag v (YSequence (gs @ [global_group (global_members gs)]))) m))"

section \<open>The staged document\<close>

definition answer_endpoints :: "string list \<Rightarrow> yaml_map \<Rightarrow> yaml_map" where
  "answer_endpoints domains =
     update_mapping ''dns'' (\<lambda>dns.
       exempt_from_fake_ip domains
         (update_mapping ''nameserver-policy''
           (fold (\<lambda>d. yinsert d (YString ENDPOINT_DNS_RESOLVER)) domains) dns))"

definition cleaned :: "yaml_map \<Rightarrow> yaml_map" where
  "cleaned m = remove_external_ui (normalize_reality_policy (fold yremove OWNED_KEYS m))"

definition stage_root ::
  "(ip_addr \<Rightarrow> u16 \<Rightarrow> string) \<Rightarrow> runtime_control \<Rightarrow> yaml_map \<Rightarrow> runtime_error + yaml_map" where
  "stage_root show_socket c m =
     rbind (set_controller show_socket c (cleaned m)) (\<lambda>m.
     rbind (place_tun (proxy_mixed_port c \<noteq> None) m) (\<lambda>m.
     let m = route_global_mode_through_first_group (apply_dns_guard (set_proxy_port (proxy_mixed_port c) m))
     in Inr (update_mapping ''profile'' (yinsert ''store-selected'' (YBool False)) m)))"

definition stage_mihomo_document ::
  "(ip_addr \<Rightarrow> u16 \<Rightarrow> string) \<Rightarrow> (runtime_error + string list) \<Rightarrow> runtime_control \<Rightarrow> yaml \<Rightarrow> runtime_error + yaml" where
  "stage_mihomo_document show_socket domains c doc =
     rbind (ok_or (InvalidData ''validated Mihomo document is not a mapping'') (yas_mapping doc)) (\<lambda>m.
     rbind (stage_root show_socket c m) (\<lambda>m.
     if xray_outbound_interface c = None then Inr (retag doc (YMapping m))
     else rbind domains (\<lambda>domains.
       Inr (retag doc (YMapping (if domains = [] then m else answer_endpoints domains m))))))"

definition snapshot_domains :: "(string \<Rightarrow> string + json) \<Rightarrow> string \<Rightarrow> runtime_error + string list" where
  "snapshot_domains from_json raw =
     rbind (with_message ''validated Xray document is invalid: '' (from_json raw)) normalized_endpoint_domains"

text \<open>Both documents of a staged runtime, Mihomo's first.\<close>

definition stage_documents ::
  "(string \<Rightarrow> string + json) \<Rightarrow> (json \<Rightarrow> string) \<Rightarrow> (yaml \<Rightarrow> string + string) \<Rightarrow> (ip_addr \<Rightarrow> u16 \<Rightarrow> string) \<Rightarrow>
   runtime_control \<Rightarrow> yaml \<Rightarrow> string \<Rightarrow> runtime_error + string \<times> string" where
  "stage_documents from_json to_json to_yaml show_socket c doc raw =
     rbind (stage_mihomo_document show_socket (snapshot_domains from_json raw) c doc) (\<lambda>staged.
     rbind (with_message [] (to_yaml staged)) (\<lambda>mihomo.
     rbind (xray_runtime_bytes from_json to_json raw (xray_outbound_interface c)) (\<lambda>xray.
       Inr (mihomo, xray))))"

section \<open>Lookups through the steps\<close>

lemma inv_fold_remove: "dict_inv m \<Longrightarrow> dict_inv (fold swap_remove ks m)"
  by (induction ks arbitrary: m) (auto simp: inv_swap_remove)

lemma get_fold_remove:
  "dict_inv m \<Longrightarrow> dict_get (fold swap_remove ks m) k = (if k \<in> set ks then None else dict_get m k)"
  by (induction ks arbitrary: m) (auto simp: get_swap_remove inv_swap_remove)

lemma fold_yremove: "fold yremove ns m = fold swap_remove (map YString ns) m"
  by (induction ns arbitrary: m) auto

lemma get_remove_external_ui:
  assumes "dict_inv m"
  shows "dict_get (remove_external_ui m) k = (if is_external_ui k then None else dict_get m k)"
  using get_fold_remove[OF assms, of "filter is_external_ui (map fst m)" k] map_of_eq_None_iff[of m k]
  by (auto simp: remove_external_ui_def)

lemma get_or_insert:
  "yget (or_insert k v m) n = (if n = k \<and> yget m k = None then Some v else yget m n)"
  by (simp add: or_insert_def get_idx_insert split: option.split)

definition section_in :: "yaml_map \<Rightarrow> string \<Rightarrow> yaml_map" where
  "section_in m k = (case Option.bind (yget m k) yas_mapping of Some s \<Rightarrow> s | None \<Rightarrow> [])"

lemma yas_mapping_retag [simp]: "yas_mapping (retag v w) = yas_mapping w"
  by (simp add: yas_mapping_def)

lemma section_update_mapping:
  "section_in (update_mapping k f m) n = (if n = k then f (section_in m k) else section_in m n)"
  by (auto simp: section_in_def update_mapping_def mapping_entry_def Let_def get_idx_insert split: option.split)

lemma get_update_mapping_other: "n \<noteq> k \<Longrightarrow> yget (update_mapping k f m) n = yget m n"
  by (simp add: update_mapping_def Let_def get_idx_insert)

lemma update_mapping_some: "\<exists>v. yget (update_mapping k f m) k = Some v \<and> yas_mapping v \<noteq> None"
  by (simp add: update_mapping_def Let_def get_idx_insert)

lemma get_guard_other: "k \<noteq> ''dns'' \<Longrightarrow> yget (apply_dns_guard m) k = yget m k"
  by (simp add: apply_dns_guard_def Let_def get_yupdate)

lemma get_global_other: "k \<noteq> ''proxy-groups'' \<Longrightarrow> yget (route_global_mode_through_first_group m) k = yget m k"
  by (simp add: route_global_mode_through_first_group_def get_idx_insert split: option.split)

lemma get_exempt_other: "k \<noteq> ''fake-ip-filter'' \<Longrightarrow> yget (exempt_from_fake_ip domains dns) k = yget dns k"
  by (simp add: exempt_from_fake_ip_def Let_def get_idx_insert split: option.split)

lemma get_proxy_port:
  "yget (set_proxy_port port m) k =
     (case port of
        None \<Rightarrow> yget m k
      | Some p \<Rightarrow>
          if k = ''mixed-port'' then Some (YNumber (PosInt (ucast p)))
          else if k = ''bind-address'' then Some (YString ''127.0.0.1'')
          else if k = ''allow-lan'' then Some (YBool False) else yget m k)"
  by (simp add: set_proxy_port_def get_idx_insert split: option.split)

lemma set_controller_Inr:
  assumes "set_controller show_socket c m = Inr m'"
  shows "yget m' k =
     (if k = ''external-controller'' then Some (YString (show_socket (ctl_ip c) (ctl_port c)))
      else if k = ''secret'' then Some (YString (ctl_secret c))
      else if k = ''external-ui'' \<and> external_ui_directory c \<noteq> None
      then map_option YString (external_ui_directory c) else yget m k)"
  using assms
  by (auto simp: set_controller_def Let_def result_simps get_idx_insert to_str_def split: option.splits if_splits)

lemma place_tun_Inr:
  assumes "place_tun proxied m = Inr m'"
  shows "k \<noteq> ''tun'' \<Longrightarrow> yget m' k = yget m k"
    "section_in m' ''tun'' = stage_tun (Option.bind (yget m ''ipv6'') yas_bool = Some False) proxied (section_in m ''tun'')"
  using assms by (auto simp: place_tun_def Let_def result_simps get_idx_insert section_in_def split: option.splits)

section \<open>The tunnel's section\<close>

text \<open>Whether the tunnel has no IPv6 of its own while Mihomo manages the routes.\<close>

definition leaves_ipv6_outside :: "bool \<Rightarrow> yaml_map \<Rightarrow> bool" where
  "leaves_ipv6_outside ipv6_off tun \<longleftrightarrow>
     (ipv6_off \<or> Option.bind (yget tun ''inet6-address'') yas_sequence = Some []) \<and>
     Option.bind (yget tun ''auto-route'') yas_bool \<noteq> Some False"

text \<open>
  The staged tunnel is the provider's, entry by entry, except that the adapter has MultiCore's name,
  the stack is gvisor unless the provider chose one, IPv6 that would pass outside is blocked by
  strict routing unless the provider decided about it, and system-proxy mode switches it off.
\<close>

theorem staged_tun_exact:
  "yget (stage_tun ipv6_off proxied tun) k =
     (if k = ''device'' then Some (YString ''MultiCore'')
      else if k = ''stack'' \<and> yget tun ''stack'' = None then Some (YString ''gvisor'')
      else if k = ''strict-route'' \<and> leaves_ipv6_outside ipv6_off tun \<and>
              (case yget tun ''strict-route'' of None \<Rightarrow> True | Some v \<Rightarrow> yis_null v)
      then Some (YBool True)
      else if k = ''enable'' \<and> proxied then Some (YBool False) else yget tun k)"
  by (simp add: stage_tun_def Let_def leaves_ipv6_outside_def get_idx_insert get_or_insert)

section \<open>The whole document\<close>

text \<open>The root keys that staging sets, removes or edits.\<close>

definition staged_keys :: "bool \<Rightarrow> string set" where
  "staged_keys proxied =
     set OWNED_KEYS \<union> {REALITY_MLKEM_KEY, REALITY_CLIENT_VERSION_KEY} \<union> {k. starts_with ''external-ui'' k} \<union>
     {''external-controller'', ''secret'', ''tun'', ''dns'', ''proxy-groups'', ''profile''} \<union>
     (if proxied then {''mixed-port'', ''bind-address'', ''allow-lan''} else {})"

lemma stage_mihomo_Inr:
  assumes "stage_mihomo_document show_socket domains c doc = Inr out"
  shows "\<exists>m root. yas_mapping doc = Some m \<and> stage_root show_socket c m = Inr root \<and>
     (if xray_outbound_interface c = None then yas_mapping out = Some root
      else \<exists>ds. domains = Inr ds \<and> yas_mapping out = Some (if ds = [] then root else answer_endpoints ds root))"
proof -
  obtain m root where m: "yas_mapping doc = Some m" "stage_root show_socket c m = Inr root"
    and out: "(if xray_outbound_interface c = None then Inr (retag doc (YMapping root))
      else rbind domains (\<lambda>domains.
        Inr (retag doc (YMapping (if domains = [] then root else answer_endpoints domains root))))) = Inr out"
    using assms unfolding stage_mihomo_document_def rbind_Inr ok_or_Inr by blast
  show ?thesis
  proof (cases "xray_outbound_interface c = None")
    case True
    with m out show ?thesis by auto
  next
    case False
    with out obtain ds where "domains = Inr ds"
      "out = retag doc (YMapping (if ds = [] then root else answer_endpoints ds root))"
      by (simp only: if_False rbind_Inr) blast
    with m False show ?thesis by (auto simp del: not_None_eq)
  qed
qed

lemma get_answer_other: "k \<noteq> ''dns'' \<Longrightarrow> yget (answer_endpoints ds m) k = yget m k"
  by (simp add: answer_endpoints_def get_update_mapping_other)

lemma owned_not_others:
  "k \<in> set OWNED_KEYS \<Longrightarrow> k \<notin> {REALITY_MLKEM_KEY, REALITY_CLIENT_VERSION_KEY} \<and> \<not> starts_with ''external-ui'' k \<and>
     k \<notin> {''external-controller'', ''secret'', ''tun'', ''dns'', ''proxy-groups'', ''profile'',
       ''mixed-port'', ''bind-address'', ''allow-lan'', ''ipv6'', ''external-ui''}"
  by (auto simp: OWNED_KEYS_def REALITY_MLKEM_KEY_def REALITY_CLIENT_VERSION_KEY_def starts_with_def)

lemma get_cleaned:
  assumes "dict_inv m"
  shows "k \<in> set OWNED_KEYS \<or> starts_with ''external-ui'' k \<Longrightarrow> yget (cleaned m) k = None"
    "k \<notin> set OWNED_KEYS \<union> {REALITY_MLKEM_KEY, REALITY_CLIENT_VERSION_KEY} \<Longrightarrow> \<not> starts_with ''external-ui'' k \<Longrightarrow>
       yget (cleaned m) k = yget m k"
proof -
  have inv: "dict_inv (fold yremove OWNED_KEYS m)"
    unfolding fold_yremove using assms by (rule inv_fold_remove)
  have removed: "yget (fold yremove OWNED_KEYS m) k = (if k \<in> set OWNED_KEYS then None else yget m k)" for k
    unfolding fold_yremove using assms by (auto simp: get_fold_remove)
  have get: "yget (cleaned m) k =
      (if starts_with ''external-ui'' k then None else yget (normalize_reality_policy (fold yremove OWNED_KEYS m)) k)" for k
    unfolding cleaned_def get_remove_external_ui[OF inv_normalize[OF inv]] by (simp add: is_external_ui_def)
  show "yget (cleaned m) k = None" if "k \<in> set OWNED_KEYS \<or> starts_with ''external-ui'' k"
    using that owned_not_others[of k] by (auto simp: get get_normalize_other[OF inv] removed)
  show "yget (cleaned m) k = yget m k"
    if "k \<notin> set OWNED_KEYS \<union> {REALITY_MLKEM_KEY, REALITY_CLIENT_VERSION_KEY}" "\<not> starts_with ''external-ui'' k"
    using that by (simp add: get get_normalize_other[OF inv] removed)
qed

lemma plain_key: "k \<in> {''tun'', ''ipv6''} \<Longrightarrow>
    k \<notin> set OWNED_KEYS \<union> {REALITY_MLKEM_KEY, REALITY_CLIENT_VERSION_KEY} \<and> \<not> starts_with ''external-ui'' k"
  by (auto simp: OWNED_KEYS_def REALITY_MLKEM_KEY_def REALITY_CLIENT_VERSION_KEY_def starts_with_def)

lemma get_cleaned_plain:
  "dict_inv m \<Longrightarrow> yget (cleaned m) ''tun'' = yget m ''tun''" "dict_inv m \<Longrightarrow> yget (cleaned m) ''ipv6'' = yget m ''ipv6''"
  using get_cleaned(2)[of m "''tun''"] get_cleaned(2)[of m "''ipv6''"] plain_key by blast+

text \<open>The root of a staged document, before the endpoints of a tunnel are answered.\<close>

lemma stage_root_Inr:
  assumes "stage_root show_socket c m = Inr root" and inv: "dict_inv m"
  shows "k \<in> set OWNED_KEYS \<Longrightarrow> yget root k = None"
    "yget root ''external-controller'' = Some (YString (show_socket (ctl_ip c) (ctl_port c)))"
    "yget root ''secret'' = Some (YString (ctl_secret c))"
    "starts_with ''external-ui'' k \<Longrightarrow>
       yget root k = (if k = ''external-ui'' then map_option YString (external_ui_directory c) else None)"
    "section_in root ''tun'' = stage_tun (Option.bind (yget m ''ipv6'') yas_bool = Some False)
       (proxy_mixed_port c \<noteq> None) (section_in m ''tun'')"
    "proxy_mixed_port c = Some p \<Longrightarrow> yget root ''mixed-port'' = Some (YNumber (PosInt (ucast p))) \<and>
       yget root ''bind-address'' = Some (YString ''127.0.0.1'') \<and> yget root ''allow-lan'' = Some (YBool False)"
    "yget (section_in root ''profile'') ''store-selected'' = Some (YBool False)"
    "k \<notin> staged_keys (proxy_mixed_port c \<noteq> None) \<Longrightarrow> yget root k = yget m k"
proof -
  obtain m3 m4 where m3: "set_controller show_socket c (cleaned m) = Inr m3" and m4: "place_tun (proxy_mixed_port c \<noteq> None) m3 = Inr m4"
    and root: "root = update_mapping ''profile'' (yinsert ''store-selected'' (YBool False))
      (route_global_mode_through_first_group (apply_dns_guard (set_proxy_port (proxy_mixed_port c) m4)))"
    using assms(1) unfolding stage_root_def Let_def rbind_Inr by auto
  note clean = get_cleaned[OF inv]
  have low: "yget root k = yget m4 k" if "k \<notin> {''dns'', ''proxy-groups'', ''profile'', ''mixed-port'', ''bind-address'', ''allow-lan''}" for k
    using that by (simp add: root get_update_mapping_other get_global_other get_guard_other get_proxy_port split: option.split)
  have high: "yget root k = yget m4 k" if "k \<notin> {''dns'', ''proxy-groups'', ''profile''}" "proxy_mixed_port c = None" for k
    using that by (simp add: root get_update_mapping_other get_global_other get_guard_other get_proxy_port)
  note tun = place_tun_Inr[OF m4]
  note ctl = set_controller_Inr[OF m3]
  have other: "yget m4 k = yget m k"
    if "k \<notin> set OWNED_KEYS \<union> {REALITY_MLKEM_KEY, REALITY_CLIENT_VERSION_KEY, ''external-controller'', ''secret'', ''tun''}"
      "\<not> starts_with ''external-ui'' k" for k
  proof -
    have "k \<noteq> ''external-ui''" using that(2) by (auto simp: starts_with_def)
    with that show ?thesis by (simp add: tun(1) ctl clean(2))
  qed
  show "yget root k = None" if "k \<in> set OWNED_KEYS" for k
    using owned_not_others[OF that] that by (simp add: low tun(1) ctl clean(1))
  show "yget root ''external-controller'' = Some (YString (show_socket (ctl_ip c) (ctl_port c)))"
    "yget root ''secret'' = Some (YString (ctl_secret c))"
    by (simp_all add: low tun(1) ctl)
  show "yget root k = (if k = ''external-ui'' then map_option YString (external_ui_directory c) else None)"
    if "starts_with ''external-ui'' k" for k
  proof -
    have "k \<notin> {''dns'', ''proxy-groups'', ''profile'', ''mixed-port'', ''bind-address'', ''allow-lan''}"
      "k \<noteq> ''tun''" "k \<noteq> ''external-controller''" "k \<noteq> ''secret''"
      using that by (auto simp: starts_with_def)
    moreover have "yget (cleaned m) k = None" using that by (simp add: clean(1))
    ultimately show ?thesis by (cases "k = ''external-ui''") (auto simp: low tun(1) ctl)
  qed
  have same: "yget m3 ''ipv6'' = yget m ''ipv6''" "yget m3 ''tun'' = yget m ''tun''"
    by (simp_all add: ctl get_cleaned_plain[OF inv])
  have "section_in root ''tun'' = section_in m4 ''tun''" by (simp add: section_in_def low)
  then show "section_in root ''tun'' = stage_tun (Option.bind (yget m ''ipv6'') yas_bool = Some False)
       (proxy_mixed_port c \<noteq> None) (section_in m ''tun'')"
    using tun(2) same by (simp add: section_in_def)
  show "yget root ''mixed-port'' = Some (YNumber (PosInt (ucast p))) \<and>
       yget root ''bind-address'' = Some (YString ''127.0.0.1'') \<and> yget root ''allow-lan'' = Some (YBool False)"
    if "proxy_mixed_port c = Some p"
    using that by (simp add: root get_update_mapping_other get_global_other get_guard_other get_proxy_port)
  show "yget (section_in root ''profile'') ''store-selected'' = Some (YBool False)"
    by (simp add: root section_update_mapping get_idx_insert)
  show "yget root k = yget m k" if "k \<notin> staged_keys (proxy_mixed_port c \<noteq> None)" for k
  proof (cases "proxy_mixed_port c = None")
    case True
    with that show ?thesis by (simp add: high other staged_keys_def)
  next
    case False
    with that show ?thesis by (simp add: low other staged_keys_def)
  qed
qed

section \<open>Global mode goes through the subscription's groups\<close>

definition global_mode :: "yaml_map \<Rightarrow> bool" where
  "global_mode m \<longleftrightarrow>
     (case Option.bind (yget m ''mode'') yas_str of
        Some mode \<Rightarrow> eq_ignore_ascii_case (trim mode) ''global'' | None \<Rightarrow> False)"

definition groups_in :: "yaml_map \<Rightarrow> yaml list" where
  "groups_in m = (case Option.bind (yget m ''proxy-groups'') yas_sequence of Some gs \<Rightarrow> gs | None \<Rightarrow> [])"

definition has_global :: "yaml list \<Rightarrow> bool" where
  "has_global gs \<longleftrightarrow> (\<exists>g\<in>set gs. string_field g ''name'' = Some ''GLOBAL'')"

lemma global_group_fields:
  "string_field (global_group names) ''name'' = Some ''GLOBAL''"
  "items (the (yas_mapping (global_group names))) ''proxies'' = map YString names @ [YString ''DIRECT'']"
  by (simp_all add: global_group_def string_field_def field_of_def items_def)

lemma yas_sequence_retag [simp]: "yas_sequence (retag v w) = yas_sequence w"
  by (simp add: yas_sequence_def)

lemma global_groups:
  "groups_in (route_global_mode_through_first_group m) =
     (if global_mode m \<and> \<not> has_global (groups_in m) \<and> global_members (groups_in m) \<noteq> []
      then groups_in m @ [global_group (global_members (groups_in m))] else groups_in m)"
  by (cases "yget m ''proxy-groups''")
    (auto simp: route_global_mode_through_first_group_def global_mode_def groups_in_def has_global_def list_ex_iff
      get_idx_insert global_members_def List.map_filter_simps split: option.splits)

lemma global_members_set:
  "n \<in> set (global_members gs) \<longleftrightarrow> (\<exists>g\<in>set gs. \<not> lists_global g \<and> string_field g ''name'' = Some n)"
  by (induction gs) (auto simp: global_members_def List.map_filter_simps split: option.splits)

text \<open>
  In global mode a subscription with a group that can be offered has a GLOBAL group afterwards:
  its own as written, or one that offers in order exactly the groups that do not list GLOBAL, so the
  first such group is what global mode uses. All groups stay, nothing else changes, and staging again
  adds nothing.
\<close>

theorem global_mode_routed:
  "(global_mode m \<and> (\<exists>g\<in>set (groups_in m). \<not> lists_global g \<and> string_field g ''name'' \<noteq> None) \<longrightarrow>
      has_global (groups_in (route_global_mode_through_first_group m))) \<and>
   (groups_in (route_global_mode_through_first_group m) = groups_in m \<or>
      \<not> has_global (groups_in m) \<and>
      groups_in (route_global_mode_through_first_group m) =
        groups_in m @ [global_group (List.map_filter (\<lambda>g. string_field g ''name'')
          (filter (\<lambda>g. \<not> lists_global g) (groups_in m)))]) \<and>
   (\<forall>k. k \<noteq> ''proxy-groups'' \<longrightarrow> yget (route_global_mode_through_first_group m) k = yget m k) \<and>
   groups_in (route_global_mode_through_first_group (route_global_mode_through_first_group m)) =
     groups_in (route_global_mode_through_first_group m)"
proof -
  have mode: "global_mode (route_global_mode_through_first_group m) = global_mode m"
    by (simp add: global_mode_def get_global_other)
  have "has_global (gs @ [global_group names])" for gs names
    by (simp add: has_global_def global_group_fields)
  moreover have "global_members gs \<noteq> []" if "\<exists>g\<in>set gs. \<not> lists_global g \<and> string_field g ''name'' \<noteq> None" for gs
    using that global_members_set[of _ gs] by (metis list.set_cases not_None_eq empty_iff list.set(1))
  ultimately show ?thesis
    using get_global_other unfolding global_groups mode global_members_def[symmetric] by auto
qed

theorem global_mode_routed_witness:
  "has_global (groups_in (route_global_mode_through_first_group
     [(YString ''mode'', YString ''Global''),
      (YString ''proxy-groups'', YSequence [YMapping [(YString ''name'', YString ''Auto'')]])]))"
proof -
  let ?g = "YMapping [(YString ''name'', YString ''Auto'')]"
  have "\<not> lists_global ?g" "string_field ?g ''name'' \<noteq> None"
    by (simp_all add: lists_global_def string_field_def field_of_def)
  moreover have "eq_ignore_ascii_case (trim ''Global'') ''global''" by code_simp
  ultimately show ?thesis
    using global_mode_routed[of "[(YString ''mode'', YString ''Global''), (YString ''proxy-groups'', YSequence [?g])]"]
    by (auto simp: global_mode_def groups_in_def)
qed

section \<open>Both cores resolve the same endpoints\<close>

lemma get_fold_insert:
  "yget (fold (\<lambda>d. yinsert d v) ds m) k = (if k \<in> set ds then Some v else yget m k)"
  by (induction ds arbitrary: m) (auto simp: get_idx_insert)

lemma answer_endpoints_policy:
  "yget (section_in (section_in (answer_endpoints ds m) ''dns'') ''nameserver-policy'') k =
     (if k \<in> set ds then Some (YString ENDPOINT_DNS_RESOLVER)
      else yget (section_in (section_in m ''dns'') ''nameserver-policy'') k)"
proof -
  have "section_in (exempt_from_fake_ip ds d) ''nameserver-policy'' = section_in d ''nameserver-policy''" for d
    by (simp add: section_in_def get_exempt_other)
  then show ?thesis
    by (simp add: answer_endpoints_def section_update_mapping get_fold_insert)
qed

lemma resolver_members:
  "jpath [''address''] (endpoint_resolver domains) = Some (JString ENDPOINT_DNS_RESOLVER)"
  "jpath [''domains''] (endpoint_resolver domains) = Some (JArray (map (\<lambda>d. JString (''full:'' @ d)) domains))"
  by (simp_all add: endpoint_resolver_def json_object_def get_ord_insert)

section \<open>The staged document, section by section\<close>

text \<open>One entry of the staged tunnel, of the guarded DNS section, and the group added for global mode.\<close>

definition tun_entry :: "bool \<Rightarrow> bool \<Rightarrow> yaml_map \<Rightarrow> string \<Rightarrow> yaml option" where
  "tun_entry ipv6_off proxied tun k =
     (if k = ''device'' then Some (YString ''MultiCore'')
      else if k = ''stack'' \<and> yget tun ''stack'' = None then Some (YString ''gvisor'')
      else if k = ''strict-route'' \<and> leaves_ipv6_outside ipv6_off tun \<and>
              (case yget tun ''strict-route'' of None \<Rightarrow> True | Some v \<Rightarrow> yis_null v)
      then Some (YBool True)
      else if k = ''enable'' \<and> proxied then Some (YBool False) else yget tun k)"

text \<open>The filter of fake addresses, once the names of the tunnel's servers are exempt.\<close>

definition exempted_filter :: "string list \<Rightarrow> yaml_map \<Rightarrow> yaml option \<Rightarrow> yaml option" where
  "exempted_filter ds dns f =
     (if ds = [] \<or> \<not> is_fake_ip dns then f
      else case filter_mode dns of
        None \<Rightarrow> f
      | Some mode \<Rightarrow>
          (let entry = (case f of Some v \<Rightarrow> if yis_null v then YSequence [] else v | None \<Rightarrow> YSequence [])
           in Some (case yas_sequence entry of
                      Some es \<Rightarrow> retag entry (YSequence (exempt_entries mode ds es)) | None \<Rightarrow> entry)))"

definition dns_entry :: "bool \<Rightarrow> yaml_map \<Rightarrow> string list \<Rightarrow> yaml_map \<Rightarrow> string \<Rightarrow> yaml option" where
  "dns_entry ipv6_off tun ds dns k =
     (if k = ''fake-ip-filter''
      then exempted_filter ds dns
        (if is_fake_ip dns \<and> fills_filter dns
         then Some (YSequence (map YString DEFAULT_FAKE_IP_FILTER)) else yget dns k)
      else if k = ''fake-ip-range6'' \<and> is_fake_ip dns \<and> \<not> ipv6_off \<and> drops_pool (Some tun) dns then None
      else yget dns k)"

text \<open>The names of the tunnel's servers that Mihomo answers: none without an outbound interface.\<close>

definition staged_endpoints :: "runtime_control \<Rightarrow> (runtime_error + string list) \<Rightarrow> string list" where
  "staged_endpoints c domains =
     (if xray_outbound_interface c = None then [] else case domains of Inr ds \<Rightarrow> ds | Inl _ \<Rightarrow> [])"

definition routed_groups :: "yaml_map \<Rightarrow> yaml list" where
  "routed_groups m =
     (if global_mode m \<and> \<not> has_global (groups_in m) \<and> global_members (groups_in m) \<noteq> []
      then groups_in m @ [YMapping
        [(YString ''name'', YString ''GLOBAL''), (YString ''type'', YString ''select''),
         (YString ''proxies'',
            YSequence (map YString (global_members (groups_in m)) @ [YString ''DIRECT'']))]]
      else groups_in m)"

lemma section_guard:
  "section_in (apply_dns_guard m) ''dns'' =
     guard_dns (Option.bind (yget m ''ipv6'') yas_bool = Some False)
       (Option.bind (yget m ''tun'') yas_mapping) (section_in m ''dns'')"
proof -
  have "guard_dns off tun [] = []" for off tun by (simp add: guard_dns_def is_fake_ip_def)
  then show ?thesis
    by (cases "yget m ''dns''"; cases "yas_mapping (the (yget m ''dns''))")
      (simp_all add: section_in_def apply_dns_guard_def Let_def get_yupdate)
qed

lemma reality_after:
  assumes "dict_inv m"
  shows "yget (normalize_reality_policy m) REALITY_MLKEM_KEY = map_option YString (reality_mlkem m)"
    "yget (normalize_reality_policy m) REALITY_CLIENT_VERSION_KEY = map_option YString (reality_version m)"
proof -
  let ?m = "case reality_mlkem m of Some v \<Rightarrow> yinsert REALITY_MLKEM_KEY (YString v) m
              | None \<Rightarrow> yremove REALITY_MLKEM_KEY m"
  have inv: "dict_inv ?m" using assms by (simp add: inv_idx_insert inv_swap_remove split: option.split)
  have "yget ?m REALITY_CLIENT_VERSION_KEY = yget m REALITY_CLIENT_VERSION_KEY"
    "yget ?m REALITY_MLKEM_KEY = map_option YString (reality_mlkem m)"
    using assms by (simp_all add: dict_simps REALITY_MLKEM_KEY_def REALITY_CLIENT_VERSION_KEY_def split: option.split)
  moreover from this(1) have "reality_version ?m = reality_version m" by (simp add: reality_version_def)
  ultimately show "yget (normalize_reality_policy m) REALITY_MLKEM_KEY = map_option YString (reality_mlkem m)"
    "yget (normalize_reality_policy m) REALITY_CLIENT_VERSION_KEY = map_option YString (reality_version m)"
    unfolding normalize_reality_policy_def Let_def using inv
    by (simp_all add: dict_simps REALITY_MLKEM_KEY_def REALITY_CLIENT_VERSION_KEY_def split: option.split)
qed

lemma reality_cleaned:
  assumes "dict_inv m"
  shows "yget (cleaned m) REALITY_MLKEM_KEY = map_option YString (reality_mlkem m)"
    "yget (cleaned m) REALITY_CLIENT_VERSION_KEY = map_option YString (reality_version m)"
proof -
  let ?m = "fold yremove OWNED_KEYS m"
  have inv: "dict_inv ?m" unfolding fold_yremove using assms by (rule inv_fold_remove)
  have keys: "\<not> starts_with ''external-ui'' REALITY_MLKEM_KEY" "\<not> starts_with ''external-ui'' REALITY_CLIENT_VERSION_KEY"
    "REALITY_MLKEM_KEY \<notin> set OWNED_KEYS" "REALITY_CLIENT_VERSION_KEY \<notin> set OWNED_KEYS"
    by (simp_all add: REALITY_MLKEM_KEY_def REALITY_CLIENT_VERSION_KEY_def OWNED_KEYS_def starts_with_def)
  then have "yget ?m REALITY_MLKEM_KEY = yget m REALITY_MLKEM_KEY"
    "yget ?m REALITY_CLIENT_VERSION_KEY = yget m REALITY_CLIENT_VERSION_KEY"
    unfolding fold_yremove using assms by (auto simp: get_fold_remove)
  then have "reality_mlkem ?m = reality_mlkem m" "reality_version ?m = reality_version m"
    by (simp_all add: reality_mlkem_def reality_version_def)
  with keys reality_after[OF inv] show "yget (cleaned m) REALITY_MLKEM_KEY = map_option YString (reality_mlkem m)"
    "yget (cleaned m) REALITY_CLIENT_VERSION_KEY = map_option YString (reality_version m)"
    by (simp_all add: cleaned_def get_remove_external_ui[OF inv_normalize[OF inv]] is_external_ui_def)
qed

text \<open>Where the sections that staging edits come from, before the endpoints of a tunnel are answered.\<close>

lemma stage_root_sections:
  assumes "stage_root show_socket c m = Inr root" and inv: "dict_inv m"
  shows "section_in root ''profile'' = yinsert ''store-selected'' (YBool False) (section_in m ''profile'')"
    "groups_in root = routed_groups m"
    "section_in root ''dns'' = guard_dns (Option.bind (yget m ''ipv6'') yas_bool = Some False)
       (Some (section_in root ''tun'')) (section_in m ''dns'')"
    "yget root REALITY_MLKEM_KEY = map_option YString (reality_mlkem m)"
    "yget root REALITY_CLIENT_VERSION_KEY = map_option YString (reality_version m)"
proof -
  obtain m3 m4 where m3: "set_controller show_socket c (cleaned m) = Inr m3" and m4: "place_tun (proxy_mixed_port c \<noteq> None) m3 = Inr m4"
    and root: "root = update_mapping ''profile'' (yinsert ''store-selected'' (YBool False))
      (route_global_mode_through_first_group (apply_dns_guard (set_proxy_port (proxy_mixed_port c) m4)))"
    using assms(1) unfolding stage_root_def Let_def rbind_Inr by auto
  let ?p = "set_proxy_port (proxy_mixed_port c) m4"
  note tun = place_tun_Inr[OF m4] and ctl = set_controller_Inr[OF m3]
  have port: "yget ?p k = yget m4 k" if "k \<notin> {''mixed-port'', ''bind-address'', ''allow-lan''}" for k
    using that by (simp add: get_proxy_port split: option.split)
  have plain: "yget ?p k = yget m k" if "k \<in> {''profile'', ''mode'', ''proxy-groups'', ''dns'', ''ipv6''}" for k
  proof -
    have k: "k \<notin> set OWNED_KEYS \<union> {REALITY_MLKEM_KEY, REALITY_CLIENT_VERSION_KEY}" "\<not> starts_with ''external-ui'' k"
      "k \<notin> {''mixed-port'', ''bind-address'', ''allow-lan'', ''tun'', ''external-controller'', ''secret'', ''external-ui''}"
      using that by (auto simp: OWNED_KEYS_def REALITY_MLKEM_KEY_def REALITY_CLIENT_VERSION_KEY_def starts_with_def)
    then show ?thesis using get_cleaned(2)[OF inv k(1,2)] by (simp add: port tun(1) ctl)
  qed
  have low: "yget root k = yget ?p k" if "k \<notin> {''dns'', ''proxy-groups'', ''profile''}" for k
    using that by (simp add: root get_update_mapping_other get_global_other get_guard_other)
  show "section_in root ''profile'' = yinsert ''store-selected'' (YBool False) (section_in m ''profile'')"
    unfolding root section_update_mapping
    by (simp add: section_in_def get_global_other get_guard_other plain)
  have "groups_in root = groups_in (route_global_mode_through_first_group (apply_dns_guard ?p))"
    by (simp add: groups_in_def root get_update_mapping_other)
  moreover have "groups_in (apply_dns_guard ?p) = groups_in m" "global_mode (apply_dns_guard ?p) = global_mode m"
    by (simp_all add: groups_in_def global_mode_def get_guard_other plain)
  ultimately show "groups_in root = routed_groups m"
    by (simp add: global_groups routed_groups_def global_group_def)
  have "section_in root ''dns'' = section_in (apply_dns_guard ?p) ''dns''"
    by (simp add: section_in_def root get_update_mapping_other get_global_other)
  moreover have "Option.bind (yget ?p ''tun'') yas_mapping = Some (section_in root ''tun'')"
    using m4 low[of "''tun''"] port[of "''tun''"]
    by (auto simp: place_tun_def Let_def result_simps section_in_def get_idx_insert)
  moreover have "section_in ?p ''dns'' = section_in m ''dns''" by (simp add: section_in_def plain)
  ultimately show "section_in root ''dns'' = guard_dns (Option.bind (yget m ''ipv6'') yas_bool = Some False)
       (Some (section_in root ''tun'')) (section_in m ''dns'')"
    by (simp add: section_guard plain)
  have real: "k \<noteq> ''tun'' \<and> k \<noteq> ''external-controller'' \<and> k \<noteq> ''secret'' \<and> k \<noteq> ''external-ui''
      \<and> k \<notin> {''mixed-port'', ''bind-address'', ''allow-lan'', ''dns'', ''proxy-groups'', ''profile''}"
    if "k \<in> {REALITY_MLKEM_KEY, REALITY_CLIENT_VERSION_KEY}" for k
    using that by (auto simp: REALITY_MLKEM_KEY_def REALITY_CLIENT_VERSION_KEY_def)
  have "yget root k = yget (cleaned m) k" if "k \<in> {REALITY_MLKEM_KEY, REALITY_CLIENT_VERSION_KEY}" for k
    using real[OF that] by (simp add: low port tun(1) ctl)
  then show "yget root REALITY_MLKEM_KEY = map_option YString (reality_mlkem m)"
    "yget root REALITY_CLIENT_VERSION_KEY = map_option YString (reality_version m)"
    using reality_cleaned[OF inv] by simp_all
qed

lemma get_exempt_filter:
  "yget (exempt_from_fake_ip ds dns) ''fake-ip-filter'' = exempted_filter ds dns (yget dns ''fake-ip-filter'')"
  by (simp add: exempt_from_fake_ip_def exempted_filter_def filter_entry_def Let_def get_idx_insert
      split: option.split)

lemma fake_ip_same:
  assumes "yget dns' ''enhanced-mode'' = yget dns ''enhanced-mode''"
    and "yget dns' ''fake-ip-filter-mode'' = yget dns ''fake-ip-filter-mode''"
  shows "exempted_filter ds dns' f = exempted_filter ds dns f"
  using assms by (simp add: exempted_filter_def is_fake_ip_def filter_mode_def)

text \<open>The DNS section of a staged document, from the guarded one.\<close>

lemma answered_dns:
  assumes "dict_inv dns" and guarded: "section_in root ''dns'' = guard_dns off (Some tun) dns"
    and m': "m' = (if ds = [] then root else answer_endpoints ds root)"
  shows "k \<noteq> ''nameserver-policy'' \<or> ds = [] \<Longrightarrow> yget (section_in m' ''dns'') k = dns_entry off tun ds dns k"
    "yget (section_in (section_in m' ''dns'') ''nameserver-policy'') d =
       (if d \<in> set ds then Some (YString ENDPOINT_DNS_RESOLVER)
        else yget (section_in dns ''nameserver-policy'') d)"
proof -
  let ?g = "guard_dns off (Some tun) dns"
  note exact = dns_guard_exact[OF assms(1)]
  have plain: "yget ?g k = dns_entry off tun [] dns k" for k
    by (simp add: exact dns_entry_def exempted_filter_def)
  have same: "yget ?g ''enhanced-mode'' = yget dns ''enhanced-mode''"
    "yget ?g ''fake-ip-filter-mode'' = yget dns ''fake-ip-filter-mode''"
    "yget ?g ''nameserver-policy'' = yget dns ''nameserver-policy''"
    by (simp_all add: exact)
  show "yget (section_in m' ''dns'') k = dns_entry off tun ds dns k"
    if k: "k \<noteq> ''nameserver-policy'' \<or> ds = []"
  proof (cases "ds = []")
    case True
    with plain show ?thesis by (simp add: m' guarded)
  next
    case False
    let ?p = "update_mapping ''nameserver-policy'' (fold (\<lambda>d. yinsert d (YString ENDPOINT_DNS_RESOLVER)) ds) ?g"
    have policy: "yget ?p j = yget ?g j" if "j \<noteq> ''nameserver-policy''" for j
      using that by (simp add: get_update_mapping_other)
    have sect: "section_in m' ''dns'' = exempt_from_fake_ip ds ?p"
      using False by (simp add: m' answer_endpoints_def section_update_mapping guarded)
    show ?thesis
    proof (cases "k = ''fake-ip-filter''")
      case True
      have "exempted_filter ds ?p f = exempted_filter ds dns f" for f
        by (rule fake_ip_same) (simp_all add: policy same)
      moreover have "exempted_filter [] dns f = f" for f by (simp add: exempted_filter_def)
      ultimately show ?thesis
        using True plain[of k] by (simp add: sect get_exempt_filter policy dns_entry_def)
    next
      case other: False
      with False k have "yget (section_in m' ''dns'') k = yget ?g k"
        by (simp add: sect get_exempt_other policy)
      with other plain show ?thesis by (simp add: dns_entry_def)
    qed
  qed
  show "yget (section_in (section_in m' ''dns'') ''nameserver-policy'') d =
      (if d \<in> set ds then Some (YString ENDPOINT_DNS_RESOLVER) else yget (section_in dns ''nameserver-policy'') d)"
  proof -
    have "section_in ?g ''nameserver-policy'' = section_in dns ''nameserver-policy''"
      by (simp add: section_in_def same)
    then show ?thesis by (simp add: m' answer_endpoints_policy guarded)
  qed
qed

text \<open>
  C33. Whatever a subscription says, the document Mihomo runs is the daemon's and the subscription's,
  section by section. It has the daemon's controller, secret and dashboard and no other way in. Its
  tunnel is the subscription's, entry by entry, except for MultiCore's adapter name, a stack where
  none was chosen, strict routing where IPv6 would pass outside, and off in system-proxy mode, where a
  port listens on the loopback address only. Its selections are not stored by Mihomo. Its DNS section
  is the subscription's, except for the safety net of the fake addresses, the exemption of the
  servers of the tunnel and the resolver they are answered from. Its groups are the subscription's,
  with one for global mode behind them if there is none. The keys of the REALITY policy hold their
  normalised values. Every other root entry is the subscription's.
\<close>

theorem staged_document_owned:
  assumes "stage_mihomo_document show_socket domains c doc = Inr out"
    and "yas_mapping doc = Some m" and "dict_inv m" and "dict_inv (section_in m ''dns'')"
  shows "\<exists>m'. yas_mapping out = Some m' \<and>
      (\<forall>k\<in>set OWNED_KEYS. yget m' k = None) \<and>
      yget m' ''external-controller'' = Some (YString (show_socket (ctl_ip c) (ctl_port c))) \<and>
      yget m' ''secret'' = Some (YString (ctl_secret c)) \<and>
      (\<forall>k. starts_with ''external-ui'' k \<longrightarrow>
         yget m' k = (if k = ''external-ui'' then map_option YString (external_ui_directory c) else None)) \<and>
      (\<forall>k. yget (section_in m' ''tun'') k =
         tun_entry (Option.bind (yget m ''ipv6'') yas_bool = Some False) (proxy_mixed_port c \<noteq> None)
           (section_in m ''tun'') k) \<and>
      (\<forall>p. proxy_mixed_port c = Some p \<longrightarrow> yget m' ''mixed-port'' = Some (YNumber (PosInt (ucast p))) \<and>
         yget m' ''bind-address'' = Some (YString ''127.0.0.1'') \<and> yget m' ''allow-lan'' = Some (YBool False)) \<and>
      (\<forall>k. yget (section_in m' ''profile'') k =
         (if k = ''store-selected'' then Some (YBool False) else yget (section_in m ''profile'') k)) \<and>
      groups_in m' = routed_groups m \<and>
      (\<forall>k. k \<noteq> ''nameserver-policy'' \<or> staged_endpoints c domains = [] \<longrightarrow>
         yget (section_in m' ''dns'') k =
           dns_entry (Option.bind (yget m ''ipv6'') yas_bool = Some False) (section_in m' ''tun'')
             (staged_endpoints c domains) (section_in m ''dns'') k) \<and>
      (\<forall>d. yget (section_in (section_in m' ''dns'') ''nameserver-policy'') d =
         (if d \<in> set (staged_endpoints c domains) then Some (YString ENDPOINT_DNS_RESOLVER)
          else yget (section_in (section_in m ''dns'') ''nameserver-policy'') d)) \<and>
      yget m' REALITY_MLKEM_KEY = map_option YString (reality_mlkem m) \<and>
      yget m' REALITY_CLIENT_VERSION_KEY = map_option YString (reality_version m) \<and>
      (\<forall>k. k \<notin> staged_keys (proxy_mixed_port c \<noteq> None) \<longrightarrow> yget m' k = yget m k)"
proof -
  let ?ds = "staged_endpoints c domains" and ?off = "Option.bind (yget m ''ipv6'') yas_bool = Some False"
  obtain root m' where root: "stage_root show_socket c m = Inr root" and m': "yas_mapping out = Some m'"
    and answered: "m' = (if ?ds = [] then root else answer_endpoints ?ds root)"
    using stage_mihomo_Inr[OF assms(1)] assms(2) by (fastforce simp: staged_endpoints_def split: if_splits)
  have same: "yget m' k = yget root k" if "k \<noteq> ''dns''" for k
    using that by (simp add: answered get_answer_other)
  have sections: "section_in m' k = section_in root k" if "k \<noteq> ''dns''" for k
    using same[OF that] by (simp add: section_in_def)
  note keys = stage_root_Inr[OF root assms(3)] and secs = stage_root_sections[OF root assms(3)]
  have dns: "section_in root ''dns'' = guard_dns ?off (Some (section_in m' ''tun'')) (section_in m ''dns'')"
    by (simp add: secs sections)
  have tun: "yget (section_in m' ''tun'') k =
      tun_entry ?off (proxy_mixed_port c \<noteq> None) (section_in m ''tun'') k" for k
  proof -
    have "section_in m' ''tun'' = stage_tun ?off (proxy_mixed_port c \<noteq> None) (section_in m ''tun'')"
      using keys(5) by (simp add: sections)
    then show ?thesis by (simp only: staged_tun_exact tun_entry_def)
  qed
  have profile: "yget (section_in m' ''profile'') k =
      (if k = ''store-selected'' then Some (YBool False) else yget (section_in m ''profile'') k)" for k
    by (simp add: sections secs get_idx_insert)
  have groups: "groups_in m' = routed_groups m"
    using same[of "''proxy-groups''"] by (simp add: groups_in_def flip: secs(2))
  have real: "REALITY_MLKEM_KEY \<noteq> ''dns''" "REALITY_CLIENT_VERSION_KEY \<noteq> ''dns''"
    by (simp_all add: REALITY_MLKEM_KEY_def REALITY_CLIENT_VERSION_KEY_def)
  have owned: "k \<noteq> ''dns''" if "k \<in> set OWNED_KEYS" for k using owned_not_others[OF that] by auto
  have ui: "k \<noteq> ''dns''" if "starts_with ''external-ui'' k" for k using that by (auto simp: starts_with_def)
  have "\<forall>k. k \<notin> staged_keys (proxy_mixed_port c \<noteq> None) \<longrightarrow> k \<noteq> ''dns''" by (auto simp: staged_keys_def)
  with m' keys(1-4,6,8) secs(4,5) same real owned ui tun profile groups
    answered_dns[OF assms(4) dns answered] show ?thesis by (intro exI[of _ m']) simp
qed

text \<open>
  When a tunnel is staged for servers with domain names, the two staged documents agree: Xray asks
  one resolver for exactly a list of names, and Mihomo, which captures those queries, answers every
  name of the list from that resolver and leaves its policy for other names as the subscription has it.
\<close>

theorem staged_cores_agree:
  assumes "stage_mihomo_document show_socket (normalized_endpoint_domains xray) c doc = Inr out"
    and "xray_outbound_interface c = Some i" and "xray_runtime_document i xray = Inr xout"
    and "normalized_endpoint_domains xray = Inr domains" and "domains \<noteq> []"
  shows "\<exists>m root m' resolver. yas_mapping doc = Some m \<and> stage_root show_socket c m = Inr root \<and> yas_mapping out = Some m' \<and>
     resolver \<in> set (list_at [''dns'', ''servers''] [] xout) \<and>
     jpath [''domains''] resolver = Some (JArray (map (\<lambda>d. JString (''full:'' @ d)) domains)) \<and>
     (\<forall>k. yget (section_in (section_in m' ''dns'') ''nameserver-policy'') k =
        (if k \<in> set domains
         then map_option YString (Option.bind (jpath [''address''] resolver) jas_str)
         else yget (section_in (section_in root ''dns'') ''nameserver-policy'') k))"
proof -
  obtain m root where m: "yas_mapping doc = Some m" "stage_root show_socket c m = Inr root"
    "yas_mapping out = Some (answer_endpoints domains root)"
    using stage_mihomo_Inr[OF assms(1)] assms(2,4,5) by auto
  have "endpoint_resolver domains \<in> set (list_at [''dns'', ''servers''] [] xout)"
    using xray_resolver_present[OF assms(3,4,5)] .
  with m show ?thesis
    using resolver_members[of domains] answer_endpoints_policy[of domains root]
    by (intro exI[of _ m] exI[of _ root] exI[of _ "answer_endpoints domains root"] exI[of _ "endpoint_resolver domains"]) simp
qed

section \<open>When staging fails\<close>

lemma place_tun_total:
  "(\<exists>m'. place_tun proxied m = Inr m') \<longleftrightarrow> (case yget m ''tun'' of None \<Rightarrow> True | Some v \<Rightarrow> yas_mapping v \<noteq> None)"
  by (auto simp: place_tun_def Let_def result_simps split: option.splits)

lemma stage_root_total:
  assumes "external_ui_directory c = None" and "dict_inv m"
  shows "(\<exists>root. stage_root show_socket c m = Inr root) \<longleftrightarrow>
     (case yget m ''tun'' of None \<Rightarrow> True | Some v \<Rightarrow> yas_mapping v \<noteq> None)"
proof -
  have "yget (cleaned m) ''tun'' = yget m ''tun''"
    using assms(2) by (rule get_cleaned_plain)
  moreover obtain m3 where m3: "set_controller show_socket c (cleaned m) = Inr m3"
    using assms(1) by (auto simp: set_controller_def)
  moreover have "(\<exists>root. stage_root show_socket c m = Inr root) \<longleftrightarrow> (\<exists>m4. place_tun (proxy_mixed_port c \<noteq> None) m3 = Inr m4)"
    using m3 unfolding stage_root_def Let_def by (auto simp: result_simps)
  ultimately show ?thesis
    using place_tun_total[of _ m3] set_controller_Inr[OF m3, of "''tun''"] assms(1) by simp
qed

text \<open>
  Without a tunnel and its dashboard, staging a document that is a mapping fails exactly when its
  tunnel section is present and no mapping.
\<close>

theorem staging_total_exact:
  assumes "yas_mapping doc = Some m" and "dict_inv m"
    and "external_ui_directory c = None" and "xray_outbound_interface c = None"
  shows "(\<exists>out. stage_mihomo_document show_socket domains c doc = Inr out) \<longleftrightarrow>
     (case yget m ''tun'' of None \<Rightarrow> True | Some v \<Rightarrow> yas_mapping v \<noteq> None)"
  unfolding stage_root_total[OF assms(3,2), of show_socket, symmetric]
  using assms(1,4) by (auto simp: stage_mihomo_document_def result_simps)

definition sample_control :: runtime_control where
  "sample_control = \<lparr>ctl_ip = V4 0x7F000001, ctl_port = 9090, ctl_secret = ''s3cret'',
     xray_outbound_interface = None, external_ui_directory = None, proxy_mixed_port = Some 7890\<rparr>"

definition sample_root :: yaml_map where
  "sample_root = [(YString ''mode'', YString ''rule''), (YString ''secret'', YString ''theirs''),
     (YString ''external-ui-url'', YString ''https://example.org''), (YString ''allow-lan'', YBool True)]"

lemma sample_root_inv: "dict_inv sample_root"
  by (simp add: dict_inv_def sample_root_def)

theorem staging_total_exact_witness:
  "\<exists>out. stage_mihomo_document show_socket domains sample_control (YMapping sample_root) = Inr out"
  using staging_total_exact[of "YMapping sample_root" sample_root sample_control show_socket domains] sample_root_inv
  by (simp add: sample_control_def) (simp add: sample_root_def)

lemma sample_staged: "\<exists>root. stage_root show_socket (sample_control\<lparr>xray_outbound_interface := i\<rparr>) sample_root = Inr root"
  using stage_root_total[of "sample_control\<lparr>xray_outbound_interface := i\<rparr>" sample_root show_socket] sample_root_inv
  by (simp add: sample_control_def) (simp add: sample_root_def)

lemma sample_stage_tunnel:
  "\<exists>out. stage_mihomo_document show_socket (normalized_endpoint_domains sample_xray_config)
     (sample_control\<lparr>xray_outbound_interface := Some ''eth0''\<rparr>) (YMapping sample_root) = Inr out"
  using sample_staged[of show_socket "Some ''eth0''"] sample_overlay_domains
  by (auto simp: stage_mihomo_document_def result_simps)

theorem staged_document_owned_witness:
  "\<exists>out m'. stage_mihomo_document (\<lambda>_ _. ''127.0.0.1:9090'') (normalized_endpoint_domains sample_xray_config)
       (sample_control\<lparr>xray_outbound_interface := Some ''eth0''\<rparr>) (YMapping sample_root) = Inr out \<and>
     yas_mapping out = Some m' \<and> yget m' ''secret'' = Some (YString ''s3cret'') \<and>
     yget m' ''external-ui-url'' = None \<and> yget m' ''allow-lan'' = Some (YBool False) \<and>
     yget m' ''mode'' = Some (YString ''rule'')"
proof -
  obtain out where out: "stage_mihomo_document (\<lambda>_ _. ''127.0.0.1:9090'') (normalized_endpoint_domains sample_xray_config)
       (sample_control\<lparr>xray_outbound_interface := Some ''eth0''\<rparr>) (YMapping sample_root) = Inr out"
    using sample_stage_tunnel by blast
  have "''mode'' \<notin> staged_keys True" "starts_with ''external-ui'' ''external-ui-url''"
    by (simp_all add: staged_keys_def OWNED_KEYS_def REALITY_MLKEM_KEY_def REALITY_CLIENT_VERSION_KEY_def starts_with_def)
  moreover have "yget sample_root ''mode'' = Some (YString ''rule'')" by (simp add: sample_root_def)
  ultimately show ?thesis
    using staged_document_owned[OF out _ sample_root_inv] out
    by (auto simp: sample_control_def section_in_def sample_root_def dict_inv_def)
qed

theorem staged_cores_agree_witness:
  "\<exists>out m'. stage_mihomo_document (\<lambda>_ _. ''127.0.0.1:9090'') (normalized_endpoint_domains sample_xray_config)
       (sample_control\<lparr>xray_outbound_interface := Some ''eth0''\<rparr>) (YMapping sample_root) = Inr out \<and>
     yas_mapping out = Some m' \<and>
     (\<exists>resolver\<in>set (list_at [''dns'', ''servers''] [] sample_overlaid).
        yget (section_in (section_in m' ''dns'') ''nameserver-policy'') ''vpn.example.org'' =
          map_option YString (Option.bind (jpath [''address''] resolver) jas_str))"
proof -
  obtain out where out: "stage_mihomo_document (\<lambda>_ _. ''127.0.0.1:9090'') (normalized_endpoint_domains sample_xray_config)
       (sample_control\<lparr>xray_outbound_interface := Some ''eth0''\<rparr>) (YMapping sample_root) = Inr out"
    using sample_stage_tunnel by blast
  show ?thesis
    using staged_cores_agree[OF out _ sample_overlay_Inr sample_overlay_domains] out by fastforce
qed

definition null_tun :: yaml where
  "null_tun = YMapping [(YString ''tun'', YNull)]"

lemma null_tun_accepted: "\<exists>cfg. parse_mihomo (\<lambda>_. Some null_tun) compile ''tun:'' = Inr cfg \<and> document cfg = null_tun"
proof -
  have "to_str ''tun:'' = Some ''tun:''" "\<not> starts_with ''{'' (trim_start (trim_marks ''tun:''))"
    "\<not> starts_with ''['' (trim_start (trim_marks ''tun:''))" by code_simp+
  then show ?thesis
    by (simp add: parse_mihomo_def check_size_def MAX_CONFIG_BYTES_def Let_def ensure_def null_tun_def
        MIHOMO_ROOT_KEYS_def validate_mihomo_sequence_def items_def mihomo_config_of_def)
qed

lemma parse_mihomo_accepts:
  assumes "length bytes \<le> MAX_CONFIG_BYTES" and "to_str bytes = Some raw"
    and "\<not> starts_with ''{'' (trim_start (trim_marks raw))" "\<not> starts_with ''['' (trim_start (trim_marks raw))"
    and "from_yaml raw = Some doc" "yas_mapping doc = Some m"
    and "list_ex (\<lambda>k. yget m k \<noteq> None) MIHOMO_ROOT_KEYS"
    and "\<forall>k\<in>{''rules'', ''proxies'', ''proxy-groups''}. validate_mihomo_sequence m k = Inr ()"
    and "list_all named_and_typed (items m ''proxies'')" "list_all named_and_typed (items m ''proxy-groups'')"
  shows "parse_mihomo from_yaml compile bytes = Inr (mihomo_config_of compile raw doc m)"
  using assms by (simp add: parse_mihomo_def check_size_def Let_def ensure_def)

lemma parse_mihomo_checked:
  assumes "parse_mihomo from_yaml compile bytes = Inr cfg" and "yas_mapping (document cfg) = Some m"
  shows "\<forall>k\<in>{''rules'', ''proxies'', ''proxy-groups''}. validate_mihomo_sequence m k = Inr ()"
    "list_all named_and_typed (items m ''proxies'')" "list_all named_and_typed (items m ''proxy-groups'')"
proof -
  obtain raw doc n where doc: "yas_mapping doc = Some n" "cfg = mihomo_config_of compile raw doc n"
    and checked: "each_result (validate_mihomo_sequence n) [''rules'', ''proxies'', ''proxy-groups''] = Inr ()"
      "list_all named_and_typed (items n ''proxies'')" "list_all named_and_typed (items n ''proxy-groups'')"
    using assms(1) unfolding parse_mihomo_def Let_def
    by (auto simp: result_simps ensure_def split: if_splits)
  moreover from doc assms(2) have "n = m" by (simp add: mihomo_config_of_def Let_def)
  ultimately show "\<forall>k\<in>{''rules'', ''proxies'', ''proxy-groups''}. validate_mihomo_sequence m k = Inr ()"
    "list_all named_and_typed (items m ''proxies'')" "list_all named_and_typed (items m ''proxy-groups'')"
    by (auto simp: result_simps)
qed

lemma odd_tun_never_staged:
  assumes "dict_inv m" and "yget m ''tun'' = Some v" and "yas_mapping v = None"
  shows "\<exists>e. stage_mihomo_document show_socket domains c (YMapping m) = Inl e"
proof (cases "stage_mihomo_document show_socket domains c (YMapping m)")
  case (Inr out)
  then obtain root where root: "stage_root show_socket c m = Inr root"
    by (auto dest: stage_mihomo_Inr)
  have "yget (cleaned m) ''tun'' = Some v" using get_cleaned_plain(1)[OF assms(1)] assms(2) by simp
  then show ?thesis
    using root set_controller_Inr[where k = "''tun''"] assms(3) unfolding stage_root_def Let_def
    by (auto simp: result_simps place_tun_def)
qed simp

lemma no_outbounds_never_bound:
  assumes "Option.bind (dict_get root ''outbounds'') jas_array \<in> {None, Some []}"
  shows "xray_runtime_document interface (JObject root) \<noteq> Inr out"
  using assms by (auto simp: xray_runtime_document_def normalized_endpoint_domains_def
      xray_outbound_server_domains_def result_simps ensure_def)

text \<open>
  C36. The checks on a subscription do not cover what staging asks for. Give any accepted Mihomo document
  a tunnel entry that is no mapping: it is accepted too, and no settings of the daemon can stage it. Any
  Xray document without outbounds is accepted too, runs as it is without an outbound interface, and can
  be staged for none.
\<close>

theorem accepted_never_staged:
  assumes "parse_mihomo from_yaml compile bytes = Inr cfg" and "yas_mapping (document cfg) = Some m" and "dict_inv m"
    and "length bytes' \<le> MAX_CONFIG_BYTES" and "to_str bytes' = Some raw'"
    and "\<not> starts_with ''{'' (trim_start (trim_marks raw'))" and "\<not> starts_with ''['' (trim_start (trim_marks raw'))"
    and "from_yaml raw' = Some (YMapping (yinsert ''tun'' v m))" and "yas_mapping v = None"
    and "length xbytes \<le> MAX_CONFIG_BYTES" and "to_str xbytes = Some xraw" and "from_json xraw = Inr (JObject root)"
    and "Option.bind (dict_get root ''outbounds'') jas_array \<in> {None, Some []}"
  shows "(\<exists>cfg'. parse_mihomo from_yaml compile bytes' = Inr cfg' \<and>
      document cfg' = YMapping (yinsert ''tun'' v m) \<and>
      (\<forall>show_socket domains c. \<exists>e. stage_mihomo_document show_socket domains c (document cfg') = Inl e)) \<and>
    parse_xray (\<lambda>text. case from_json text of Inr j \<Rightarrow> Some j | Inl _ \<Rightarrow> None) xbytes = Inr xbytes \<and>
    xray_runtime_bytes from_json to_json xraw None = Inr xraw \<and>
    (\<forall>interface. \<exists>e. xray_runtime_bytes from_json to_json xraw (Some interface) = Inl e)"
proof -
  let ?m = "yinsert ''tun'' v m"
  note checked = parse_mihomo_checked[OF assms(1,2)]
  have get: "yget ?m k = (if k = ''tun'' then Some v else yget m k)" for k by (simp add: get_idx_insert)
  have "list_ex (\<lambda>k. yget ?m k \<noteq> None) MIHOMO_ROOT_KEYS" by (simp add: MIHOMO_ROOT_KEYS_def get)
  moreover have "\<forall>k\<in>{''rules'', ''proxies'', ''proxy-groups''}. validate_mihomo_sequence ?m k = Inr ()"
    using checked(1) by (simp add: validate_mihomo_sequence_def get)
  moreover have "items ?m k = items m k" if "k \<noteq> ''tun''" for k using that by (simp add: items_def get)
  ultimately have accepts: "parse_mihomo from_yaml compile bytes' = Inr (mihomo_config_of compile raw' (YMapping ?m) ?m)"
    using assms(4-8) checked(2,3) by (intro parse_mihomo_accepts) simp_all
  have doc: "document (mihomo_config_of compile raw' (YMapping ?m) ?m) = YMapping ?m"
    by (simp add: mihomo_config_of_def Let_def)
  have never: "\<exists>e. stage_mihomo_document show_socket domains c (YMapping ?m) = Inl e" for show_socket domains c
    using assms(3,9) by (intro odd_tun_never_staged) (simp_all add: inv_idx_insert get)
  have xray: "parse_xray (\<lambda>text. case from_json text of Inr j \<Rightarrow> Some j | Inl _ \<Rightarrow> None) xbytes = Inr xbytes"
    using assms(10-12) by (simp add: parse_xray_def check_size_def)
  have unbound: "\<exists>e. xray_runtime_bytes from_json to_json xraw (Some interface) = Inl e" for interface
  proof (cases "xray_runtime_document interface (JObject root)")
    case (Inl e)
    then show ?thesis using assms(12) by (simp add: xray_runtime_bytes_def with_message_def)
  next
    case (Inr out)
    with no_outbounds_never_bound[OF assms(13)] show ?thesis by blast
  qed
  have "xray_runtime_bytes from_json to_json xraw None = Inr xraw" by (simp add: xray_runtime_bytes_def)
  with accepts doc never xray unbound show ?thesis
    by (intro conjI allI exI[of _ "mihomo_config_of compile raw' (YMapping ?m) ?m"]) (simp_all only:)
qed

theorem accepted_never_staged_witness:
  "(\<exists>cfg. parse_mihomo (\<lambda>_. Some null_tun) (\<lambda>_. None) ''tun:'' = Inr cfg \<and>
      (\<forall>show_socket domains c. \<exists>e. stage_mihomo_document show_socket domains c (document cfg) = Inl e)) \<and>
   (\<forall>interface. \<exists>e. xray_runtime_bytes (\<lambda>_. Inr (JObject [])) (\<lambda>_. []) ''{}'' (Some interface) = Inl e)"
proof -
  obtain cfg where cfg: "parse_mihomo (\<lambda>_. Some null_tun) (\<lambda>_. None) ''tun:'' = Inr cfg" "document cfg = null_tun"
    using null_tun_accepted by blast
  have texts: "to_str ''tun:'' = Some ''tun:''" "\<not> starts_with ''{'' (trim_start (trim_marks ''tun:''))"
    "\<not> starts_with ''['' (trim_start (trim_marks ''tun:''))" "to_str ''{}'' = Some ''{}''" by code_simp+
  have edited: "YMapping (yinsert ''tun'' YNull [(YString ''tun'', YNull)]) = null_tun"
    by (simp add: null_tun_def)
  show ?thesis
    using accepted_never_staged[OF cfg(1), of "[(YString ''tun'', YNull)]" "''tun:''" "''tun:''" YNull
        "''{}''" "''{}''" "\<lambda>_. Inr (JObject [])" "[]" "\<lambda>_. []"] cfg(2) texts edited
    by (simp add: null_tun_def dict_inv_def MAX_CONFIG_BYTES_def) blast
qed

end
