(* ===== verification/Store_Disk.thy ===== *)
theory Store_Disk
  imports Rust_Str
begin

text \<open>
  \<open>crates/multicore-core/src/store_root.rs\<close>: the directory operations of the subscription store on
  Unix, over a tree of directories and a plan of faults. Every operation takes the next fault of the
  plan. A call that fails has no effect, except that a failing write can leave the first bytes of the
  file, and that removing a directory stops after the entries it has removed. A process that dies is a
  plan of which every later call fails.
\<close>

section \<open>Directories and faults\<close>

datatype io_kind = NotFound | AlreadyExists | NotADirectory | IsADirectory | NotEmpty | BadData | LinkLoop | OtherKind

text \<open>A node of another kind (a symbolic link, a socket) comes with the error of opening it.\<close>

datatype tree = FileNode string | DirNode "(string \<times> tree) list" | SpecialNode io_kind

type_synonym folder = "(string, tree) dict"

text \<open>\<open>Fails k (Some j)\<close>: a write that fails has left its first \<open>j\<close> bytes.\<close>

datatype fault = Works | Fails io_kind "nat option"

record disk =
  entries :: folder
  plan :: "fault list"

type_synonym ('s, 'e, 'a) act = "'s disk_scheme \<Rightarrow> ('e + 'a) \<times> 's disk_scheme"

section \<open>Sequencing\<close>

definition return :: "'a \<Rightarrow> ('s, 'e, 'a) act" where
  "return x d = (Inr x, d)"

definition throw :: "'e \<Rightarrow> ('s, 'e, 'a) act" where
  "throw e d = (Inl e, d)"

definition andthen :: "('s, 'e, 'a) act \<Rightarrow> ('a \<Rightarrow> ('s, 'e, 'b) act) \<Rightarrow> ('s, 'e, 'b) act" where
  "andthen f g d = (case f d of (Inl e, d) \<Rightarrow> (Inl e, d) | (Inr x, d) \<Rightarrow> g x d)"

text \<open>\<open>match result\<close>: the result becomes the value.\<close>

definition attempt :: "('s, 'e, 'a) act \<Rightarrow> ('s, 'f, 'e + 'a) act" where
  "attempt f d = (let (r, d) = f d in (Inr r, d))"

definition map_error :: "('e \<Rightarrow> 'f) \<Rightarrow> ('s, 'e, 'a) act \<Rightarrow> ('s, 'f, 'a) act" where
  "map_error h f d = (case f d of (Inl e, d) \<Rightarrow> (Inl (h e), d) | (Inr x, d) \<Rightarrow> (Inr x, d))"

definition lift_result :: "'e + 'a \<Rightarrow> ('s, 'e, 'a) act" where
  "lift_result r d = (r, d)"

text \<open>\<open>let _ = f\<close>\<close>

definition ignoring :: "('s, 'f, 'a) act \<Rightarrow> ('s, 'e, unit) act" where
  "ignoring f = andthen (attempt f) (\<lambda>_. return ())"

fun for_each :: "('a \<Rightarrow> ('s, 'e, unit) act) \<Rightarrow> 'a list \<Rightarrow> ('s, 'e, unit) act" where
  "for_each f [] = return ()"
| "for_each f (x # xs) = andthen (f x) (\<lambda>_. for_each f xs)"

section \<open>System calls\<close>

definition next_fault :: "'s disk_scheme \<Rightarrow> fault \<times> 's disk_scheme" where
  "next_fault d = (case plan d of [] \<Rightarrow> (Works, d) | f # fs \<Rightarrow> (f, d\<lparr>plan := fs\<rparr>))"

definition syscall :: "(folder \<Rightarrow> (io_kind + 'a) \<times> folder) \<Rightarrow> ('s, io_kind, 'a) act" where
  "syscall f d =
     (case next_fault d of
        (Fails k _, d) \<Rightarrow> (Inl k, d)
      | (Works, d) \<Rightarrow> let (r, es) = f (entries d) in (r, d\<lparr>entries := es\<rparr>))"

definition looking :: "(folder \<Rightarrow> io_kind + 'a) \<Rightarrow> ('s, io_kind, 'a) act" where
  "looking f = syscall (\<lambda>es. (f es, es))"

definition removed :: "string \<Rightarrow> folder \<Rightarrow> folder" where
  "removed n es = dict_retain (\<lambda>k. k \<noteq> n) es"

definition is_dir :: "tree \<Rightarrow> bool" where
  "is_dir t \<longleftrightarrow> (case t of DirNode _ \<Rightarrow> True | _ \<Rightarrow> False)"

text \<open>\<open>renameat\<close>: a directory replaces nothing or an empty directory, another node anything but one.\<close>

definition renameat :: "string \<Rightarrow> string \<Rightarrow> folder \<Rightarrow> (io_kind + unit) \<times> folder" where
  "renameat a b es =
     (case dict_get es a of
        None \<Rightarrow> (Inl NotFound, es)
      | Some t \<Rightarrow>
          let moved = (Inr (), idx_insert b t (removed a es))
          in case (t, dict_get es b) of
               (DirNode _, None) \<Rightarrow> moved
             | (DirNode _, Some (DirNode bs)) \<Rightarrow> if bs = [] then moved else (Inl NotEmpty, es)
             | (DirNode _, Some _) \<Rightarrow> (Inl NotADirectory, es)
             | (_, Some (DirNode _)) \<Rightarrow> (Inl IsADirectory, es)
             | (_, _) \<Rightarrow> moved)"

section \<open>The operations\<close>

definition list_entries :: "('s, io_kind, (string \<times> bool) list) act" where
  "list_entries = looking (\<lambda>es. Inr (map (\<lambda>(n, t). (n, is_dir t)) es))"

definition file_metadata :: "string \<Rightarrow> ('s, io_kind, (bool \<times> nat) option) act" where
  "file_metadata n = looking (\<lambda>es. Inr (map_option
     (\<lambda>t. case t of FileNode b \<Rightarrow> (True, length b) | _ \<Rightarrow> (False, 0)) (dict_get es n)))"

definition open_file_read :: "string \<Rightarrow> folder \<Rightarrow> io_kind + string" where
  "open_file_read n es =
     (case dict_get es n of
        None \<Rightarrow> Inl NotFound
      | Some (FileNode b) \<Rightarrow> Inr b
      | Some (DirNode _) \<Rightarrow> Inl BadData
      | Some (SpecialNode k) \<Rightarrow> Inl k)"

definition read_file :: "string \<Rightarrow> nat \<Rightarrow> ('s, io_kind, string) act" where
  "read_file n max_bytes = looking (\<lambda>es.
     rbind (open_file_read n es) (\<lambda>b. if length b > max_bytes then Inl BadData else Inr b))"

definition secure_regular_file :: "string \<Rightarrow> ('s, io_kind, unit) act" where
  "secure_regular_file n = looking (\<lambda>es. rbind (open_file_read n es) (\<lambda>_. Inr ()))"

definition open_child :: "string \<Rightarrow> ('s, io_kind, unit) act" where
  "open_child n = looking (\<lambda>es.
     case dict_get es n of
       None \<Rightarrow> Inl NotFound
     | Some (DirNode _) \<Rightarrow> Inr ()
     | Some (FileNode _) \<Rightarrow> Inl NotADirectory
     | Some (SpecialNode k) \<Rightarrow> Inl k)"

definition mkdirat :: "string \<Rightarrow> ('s, io_kind, unit) act" where
  "mkdirat n = syscall (\<lambda>es.
     if dict_get es n \<noteq> None then (Inl AlreadyExists, es) else (Inr (), idx_insert n (DirNode []) es))"

definition create_child :: "string \<Rightarrow> ('s, io_kind, unit) act" where
  "create_child n = andthen (mkdirat n) (\<lambda>_. open_child n)"

definition write_file :: "string \<Rightarrow> string \<Rightarrow> ('s, io_kind, unit) act" where
  "write_file n b d =
     (case next_fault d of
        (Fails k (Some j), d) \<Rightarrow>
          (Inl k, if dict_get (entries d) n \<noteq> None then d
                  else d\<lparr>entries := idx_insert n (FileNode (take j b)) (entries d)\<rparr>)
      | (Fails k None, d) \<Rightarrow> (Inl k, d)
      | (Works, d) \<Rightarrow>
          if dict_get (entries d) n \<noteq> None then (Inl AlreadyExists, d)
          else (Inr (), d\<lparr>entries := idx_insert n (FileNode b) (entries d)\<rparr>))"

definition rename_child :: "string \<Rightarrow> string \<Rightarrow> ('s, io_kind, unit) act" where
  "rename_child a b = syscall (renameat a b)"

definition replace_file :: "string \<Rightarrow> string \<Rightarrow> ('s, io_kind, unit) act" where
  "replace_file a b = syscall (renameat a b)"

definition remove_file :: "string \<Rightarrow> ('s, io_kind, unit) act" where
  "remove_file n = syscall (\<lambda>es.
     case dict_get es n of
       None \<Rightarrow> (Inr (), es)
     | Some (DirNode _) \<Rightarrow> (Inl IsADirectory, es)
     | Some _ \<Rightarrow> (Inr (), removed n es))"

definition sync :: "('s, io_kind, unit) act" where
  "sync = looking (\<lambda>_. Inr ())"

text \<open>Working in a child directory that has been opened.\<close>

definition in_child :: "string \<Rightarrow> (unit, 'e, 'a) act \<Rightarrow> ('s, 'e, 'a) act" where
  "in_child n f d =
     (case dict_get (entries d) n of
        Some (DirNode es) \<Rightarrow>
          let (r, c) = f \<lparr>entries = es, plan = plan d\<rparr>
          in (r, d\<lparr>entries := idx_insert n (DirNode (entries c)) (entries d), plan := plan c\<rparr>)
      | _ \<Rightarrow> let (r, c) = f \<lparr>entries = [], plan = plan d\<rparr> in (r, d\<lparr>plan := plan c\<rparr>))"

section \<open>Removing a tree\<close>

fun take_fault :: "fault list \<Rightarrow> io_kind option \<times> fault list" where
  "take_fault [] = (None, [])"
| "take_fault (Works # fs) = (None, fs)"
| "take_fault (Fails k _ # fs) = (Some k, fs)"

text \<open>
  The entries of a directory one after the other, a directory by opening it, listing it, removing its
  entries and then itself: the first error, what is left, and the rest of the plan.
\<close>

fun clear_entries :: "folder \<Rightarrow> fault list \<Rightarrow> io_kind option \<times> folder \<times> fault list" where
  "clear_entries [] fs = (None, [], fs)"
| "clear_entries ((n, DirNode sub) # es) fs =
     (case take_fault fs of
        (Some k, fs) \<Rightarrow> (Some k, (n, DirNode sub) # es, fs)
      | (None, fs) \<Rightarrow>
     (case take_fault fs of
        (Some k, fs) \<Rightarrow> (Some k, (n, DirNode sub) # es, fs)
      | (None, fs) \<Rightarrow>
     (case clear_entries sub fs of
        (Some k, left, fs) \<Rightarrow> (Some k, (n, DirNode left) # es, fs)
      | (None, left, fs) \<Rightarrow>
     (case take_fault fs of
        (Some k, fs) \<Rightarrow> (Some k, (n, DirNode left) # es, fs)
      | (None, fs) \<Rightarrow> clear_entries es fs))))"
| "clear_entries ((n, t) # es) fs =
     (case take_fault fs of
        (Some k, fs) \<Rightarrow> (Some k, (n, t) # es, fs)
      | (None, fs) \<Rightarrow> clear_entries es fs)"

definition remove_child_tree :: "string \<Rightarrow> ('s, io_kind, unit) act" where
  "remove_child_tree n d =
     (case open_child n d of
        (Inl NotFound, d) \<Rightarrow> (Inr (), d)
      | (Inl k, d) \<Rightarrow> (Inl k, d)
      | (Inr _, d) \<Rightarrow>
     (case dict_get (entries d) n of
        Some (DirNode sub) \<Rightarrow>
     (case take_fault (plan d) of
        (Some k, fs) \<Rightarrow> (Inl k, d\<lparr>plan := fs\<rparr>)
      | (None, fs) \<Rightarrow>
     (case clear_entries sub fs of
        (Some k, left, fs) \<Rightarrow> (Inl k, d\<lparr>entries := idx_insert n (DirNode left) (entries d), plan := fs\<rparr>)
      | (None, left, fs) \<Rightarrow>
     (case take_fault fs of
        (Some k, fs) \<Rightarrow> (Inl k, d\<lparr>entries := idx_insert n (DirNode left) (entries d), plan := fs\<rparr>)
      | (None, fs) \<Rightarrow> (Inr (), d\<lparr>entries := removed n (entries d), plan := fs\<rparr>))))
      | _ \<Rightarrow> (Inr (), d)))"

definition remove_entry_nofollow :: "string \<Rightarrow> ('s, io_kind, unit) act" where
  "remove_entry_nofollow n =
     andthen (looking (\<lambda>es. Inr (dict_get es n))) (\<lambda>stat.
       case stat of
         None \<Rightarrow> return ()
       | Some (DirNode _) \<Rightarrow> remove_child_tree n
       | Some _ \<Rightarrow> remove_file n)"

end
