(* ===== verification/Store_Logic.thy ===== *)
theory Store_Logic
  imports Store_Disk
begin

text \<open>
  Reasoning about the actions of \<open>Store_Disk\<close>: weakest preconditions that hold for every plan of
  faults, the entries an action can touch, and the actions that change no entry.
\<close>

section \<open>Weakest preconditions\<close>

definition wp :: "('s, 'e, 'a) act \<Rightarrow> ('a \<Rightarrow> 's disk_scheme \<Rightarrow> bool) \<Rightarrow> ('e \<Rightarrow> 's disk_scheme \<Rightarrow> bool) \<Rightarrow>
    's disk_scheme \<Rightarrow> bool" where
  "wp f Q E d \<longleftrightarrow> (case f d of (Inr x, d') \<Rightarrow> Q x d' | (Inl e, d') \<Rightarrow> E e d')"

named_theorems wp_simps

lemma update_order [simp]: "d\<lparr>plan := fs, entries := es\<rparr> = d\<lparr>entries := es, plan := fs\<rparr>"
  by simp

lemma wp_ok: "wp f Q E d \<Longrightarrow> f d = (Inr x, d') \<Longrightarrow> Q x d'"
  by (simp add: wp_def)

lemma wp_error: "wp f Q E d \<Longrightarrow> f d = (Inl e, d') \<Longrightarrow> E e d'"
  by (simp add: wp_def)

lemma wpI: "(\<And>x d'. f d = (Inr x, d') \<Longrightarrow> Q x d') \<Longrightarrow> (\<And>e d'. f d = (Inl e, d') \<Longrightarrow> E e d') \<Longrightarrow> wp f Q E d"
  by (auto simp: wp_def split: prod.split sum.split)

lemma wp_mono:
  "wp f Q E d \<Longrightarrow> (\<And>x d'. Q x d' \<Longrightarrow> Q' x d') \<Longrightarrow> (\<And>e d'. E e d' \<Longrightarrow> E' e d') \<Longrightarrow> wp f Q' E' d"
  by (auto simp: wp_def split: prod.splits sum.splits)

lemma wp_conj:
  "wp f Q E d \<Longrightarrow> wp f Q' E' d \<Longrightarrow> wp f (\<lambda>x d. Q x d \<and> Q' x d) (\<lambda>e d. E e d \<and> E' e d) d"
  by (auto simp: wp_def split: prod.splits sum.splits)

lemma wp_return [wp_simps]: "wp (return x) Q E = Q x"
  by (simp add: wp_def return_def fun_eq_iff)

lemma wp_throw [wp_simps]: "wp (throw e) Q E = E e"
  by (simp add: wp_def throw_def fun_eq_iff)

lemma wp_lift [wp_simps]: "wp (lift_result r) Q E = (\<lambda>d. case r of Inr x \<Rightarrow> Q x d | Inl e \<Rightarrow> E e d)"
  by (simp add: wp_def lift_result_def fun_eq_iff split: sum.split)

lemma wp_andthen [wp_simps]: "wp (andthen f g) Q E = wp f (\<lambda>x. wp (g x) Q E) E"
  by (auto simp: wp_def andthen_def fun_eq_iff split: prod.splits sum.splits)

lemma wp_attempt [wp_simps]: "wp (attempt f) Q E = wp f (\<lambda>x. Q (Inr x)) (\<lambda>e. Q (Inl e))"
  by (auto simp: wp_def attempt_def fun_eq_iff Let_def split: prod.splits sum.splits)

lemma wp_map_error [wp_simps]: "wp (map_error h f) Q E = wp f Q (\<lambda>e. E (h e))"
  by (auto simp: wp_def map_error_def fun_eq_iff split: prod.splits sum.splits)

lemma wp_ignoring [wp_simps]: "wp (ignoring f) Q E = wp f (\<lambda>_. Q ()) (\<lambda>_. Q ())"
  by (simp add: ignoring_def wp_simps)

lemma wp_if [wp_simps]: "wp (if b then f else g) Q E = (\<lambda>d. if b then wp f Q E d else wp g Q E d)"
  by simp

lemma wp_option [wp_simps]:
  "wp (case v of None \<Rightarrow> f | Some x \<Rightarrow> g x) Q E = (\<lambda>d. case v of None \<Rightarrow> wp f Q E d | Some x \<Rightarrow> wp (g x) Q E d)"
  by (simp split: option.split)

lemma wp_sum [wp_simps]:
  "wp (case v of Inl e \<Rightarrow> f e | Inr x \<Rightarrow> g x) Q E = (\<lambda>d. case v of Inl e \<Rightarrow> wp (f e) Q E d | Inr x \<Rightarrow> wp (g x) Q E d)"
  by (simp split: sum.split)

lemma wp_prod [wp_simps]: "wp (case_prod g v) Q E = wp (g (fst v) (snd v)) Q E"
  by (simp add: case_prod_beta)

section \<open>What an action may touch\<close>

text \<open>Entries outside \<open>N\<close> stay as they are and in their order, whatever fails; so does the client's state,
  and no name appears twice.\<close>

definition outside :: "string set \<Rightarrow> folder \<Rightarrow> folder" where
  "outside N es = filter (\<lambda>(n, _). n \<notin> N) es"

definition frame :: "string set \<Rightarrow> 's disk_scheme \<Rightarrow> 's disk_scheme \<Rightarrow> bool" where
  "frame N d d' \<longleftrightarrow> outside N (entries d') = outside N (entries d) \<and> disk.more d' = disk.more d \<and>
     (dict_inv (entries d) \<longrightarrow> dict_inv (entries d'))"

definition touches :: "string set \<Rightarrow> ('s, 'e, 'a) act \<Rightarrow> bool" where
  "touches N f \<longleftrightarrow> (\<forall>d. frame N d (snd (f d)))"

named_theorems touch_intros

lemma get_outside: "n \<notin> N \<Longrightarrow> dict_get (outside N es) n = dict_get es n"
  by (induction es) (auto simp: outside_def)

lemma outside_insert [simp]: "n \<in> N \<Longrightarrow> outside N (idx_insert n t es) = outside N es"
  unfolding outside_def by (induction n t es rule: idx_insert.induct) auto

lemma outside_removed [simp]: "n \<in> N \<Longrightarrow> outside N (removed n es) = outside N es"
  unfolding removed_def dict_retain_def outside_def by (induction es) auto

lemma inv_removed [simp]: "dict_inv es \<Longrightarrow> dict_inv (removed n es)"
  by (simp add: removed_def inv_dict_retain)

declare inv_idx_insert [simp]

lemma outside_mono: "M \<subseteq> N \<Longrightarrow> outside M es = outside M es' \<Longrightarrow> outside N es = outside N es'"
proof -
  assume "M \<subseteq> N" "outside M es = outside M es'"
  moreover have "outside N es = outside N (outside M es)" if "M \<subseteq> N" for es
    using that unfolding outside_def filter_filter by (intro filter_cong) auto
  ultimately show ?thesis by metis
qed

lemma frame_refl [simp]: "frame N d d"
  by (simp add: frame_def)

lemma frame_trans: "frame N a b \<Longrightarrow> frame N b c \<Longrightarrow> frame N a c"
  by (simp add: frame_def)

lemma frame_mono: "frame M a b \<Longrightarrow> M \<subseteq> N \<Longrightarrow> frame N a b"
  unfolding frame_def using outside_mono by blast

lemma frame_get: "frame N d d' \<Longrightarrow> n \<notin> N \<Longrightarrow> dict_get (entries d') n = dict_get (entries d) n"
  by (metis frame_def get_outside)

lemma frame_more: "frame N d d' \<Longrightarrow> disk.more d' = disk.more d"
  by (simp add: frame_def)

lemma touchesD: "touches N f \<Longrightarrow> f d = (r, d') \<Longrightarrow> frame N d d'"
  by (metis touches_def snd_conv)

lemma wp_snd: "wp f (\<lambda>_. P) (\<lambda>_. P) d \<longleftrightarrow> P (snd (f d))"
  by (simp add: wp_def split: prod.split sum.split)

lemma touches_wp: "touches N f \<longleftrightarrow> (\<forall>d. wp f (\<lambda>_. frame N d) (\<lambda>_. frame N d) d)"
  by (simp add: touches_def wp_snd)

lemma wp_touches:
  assumes "touches N f" and "\<And>x d'. frame N d d' \<Longrightarrow> Q x d'" and "\<And>e d'. frame N d d' \<Longrightarrow> E e d'"
  shows "wp f Q E d"
  by (rule wp_mono [of f "\<lambda>_. frame N d" "\<lambda>_. frame N d"]) (use assms in \<open>auto simp: touches_wp\<close>)

lemma touches_mono: "touches M f \<Longrightarrow> M \<subseteq> N \<Longrightarrow> touches N f"
  unfolding touches_def by (blast intro: frame_mono)

lemma touches_return [touch_intros]: "touches N (return x)"
  by (simp add: touches_wp wp_simps)

lemma touches_throw [touch_intros]: "touches N (throw e)"
  by (simp add: touches_wp wp_simps)

lemma touches_lift [touch_intros]: "touches N (lift_result r)"
  by (simp add: touches_wp wp_simps split: sum.split)

lemma touches_andthen [touch_intros]:
  assumes "touches N f" "\<And>x. touches N (g x)"
  shows "touches N (andthen f g)"
  unfolding touches_wp wp_simps
proof
  fix d
  show "wp f (\<lambda>x. wp (g x) (\<lambda>_. frame N d) (\<lambda>_. frame N d)) (\<lambda>_. frame N d) d"
    by (rule wp_touches [OF assms(1)], rule wp_touches [OF assms(2)]) (blast intro: frame_trans)+
qed

lemma touches_attempt [touch_intros]: "touches N f \<Longrightarrow> touches N (attempt f)"
  by (simp add: touches_wp wp_simps)

lemma touches_map_error [touch_intros]: "touches N f \<Longrightarrow> touches N (map_error h f)"
  by (simp add: touches_wp wp_simps)

lemma touches_ignoring [touch_intros]: "touches N f \<Longrightarrow> touches N (ignoring f)"
  by (simp add: touches_wp wp_simps)

lemma touches_for_each [touch_intros]: "(\<And>x. x \<in> set xs \<Longrightarrow> touches N (f x)) \<Longrightarrow> touches N (for_each f xs)"
  by (induction xs) (auto intro: touch_intros)

lemma touches_cases [touch_intros]:
  "touches N f \<Longrightarrow> touches N g \<Longrightarrow> touches N (if b then f else g)"
  "touches N f \<Longrightarrow> (\<And>x. touches N (h x)) \<Longrightarrow> touches N (case_option f h v)"
  "(\<And>x. touches N (i x)) \<Longrightarrow> (\<And>x. touches N (j x)) \<Longrightarrow> touches N (case_sum i j w)"
  "(\<And>x y. touches N (l x y)) \<Longrightarrow> touches N (case_prod l u)"
  by (simp_all split: option.split sum.split prod.split)

section \<open>The operations\<close>

lemma next_fault_cases:
  obtains fs where "next_fault d = (Works, d\<lparr>plan := fs\<rparr>)"
  | k j fs where "next_fault d = (Fails k j, d\<lparr>plan := fs\<rparr>)"
proof (cases "plan d")
  case Nil
  then have "next_fault d = (Works, d\<lparr>plan := []\<rparr>)"
    by (cases d) (simp add: next_fault_def)
  then show thesis using that(1) by blast
next
  case (Cons f fs)
  then show thesis by (cases f) (auto simp: next_fault_def intro: that)
qed

lemma wp_syscall:
  assumes "\<And>k fs. E k (d\<lparr>plan := fs\<rparr>)"
    and "\<And>fs. case f (entries d) of
            (Inr x, es) \<Rightarrow> Q x (d\<lparr>entries := es, plan := fs\<rparr>) | (Inl k, es) \<Rightarrow> E k (d\<lparr>entries := es, plan := fs\<rparr>)"
  shows "wp (syscall f) Q E d"
  by (rule next_fault_cases [of d])
    (use assms in \<open>auto simp: wp_def syscall_def Let_def split: prod.splits sum.splits\<close>)

lemma wp_looking:
  assumes "\<And>k fs. E k (d\<lparr>plan := fs\<rparr>)" and "\<And>x fs. f (entries d) = Inr x \<Longrightarrow> Q x (d\<lparr>plan := fs\<rparr>)"
  shows "wp (looking f) Q E d"
  unfolding looking_def by (rule wp_syscall) (use assms in \<open>auto split: sum.split\<close>)

lemmas looking_defs = list_entries_def file_metadata_def read_file_def secure_regular_file_def open_child_def sync_def

lemma touches_syscall:
  "(\<And>es r es'. f es = (r, es') \<Longrightarrow> outside N es' = outside N es \<and> (dict_inv es \<longrightarrow> dict_inv es')) \<Longrightarrow>
   touches N (syscall f)"
  unfolding touches_wp
  by (intro allI wp_syscall) (auto simp: frame_def split: prod.split sum.split)

lemma touches_looking [touch_intros]: "touches N (looking f)"
  unfolding looking_def by (rule touches_syscall) simp

lemma touches_reads [touch_intros]:
  "touches N list_entries" "touches N (file_metadata n)" "touches N (read_file n k)"
  "touches N (secure_regular_file n)" "touches N (open_child n)" "touches N sync"
  unfolding looking_defs by (rule touches_looking)+

lemma touches_renameat: "a \<in> N \<Longrightarrow> b \<in> N \<Longrightarrow> touches N (syscall (renameat a b))"
  by (rule touches_syscall)
    (auto simp: renameat_def Let_def split: option.splits tree.splits if_splits)

lemma touches_writes [touch_intros]:
  "n \<in> N \<Longrightarrow> touches N (mkdirat n)" "n \<in> N \<Longrightarrow> touches N (create_child n)" "n \<in> N \<Longrightarrow> touches N (remove_file n)"
  "a \<in> N \<Longrightarrow> b \<in> N \<Longrightarrow> touches N (rename_child a b)" "a \<in> N \<Longrightarrow> b \<in> N \<Longrightarrow> touches N (replace_file a b)"
proof -
  show mk: "touches N (mkdirat n)" if "n \<in> N"
    using that unfolding mkdirat_def by (auto intro!: touches_syscall split: if_splits)
  show "touches N (create_child n)" if "n \<in> N"
    unfolding create_child_def by (intro touch_intros mk that)
  show "touches N (remove_file n)" if "n \<in> N"
    using that unfolding remove_file_def by (auto intro!: touches_syscall split: option.splits tree.splits)
qed (simp_all add: rename_child_def replace_file_def touches_renameat)

lemma wp_write_file:
  assumes "\<And>k fs. E k (d\<lparr>plan := fs\<rparr>)"
    and "\<And>k fs j. dict_get (entries d) n = None \<Longrightarrow>
           E k (d\<lparr>entries := idx_insert n (FileNode (take j b)) (entries d), plan := fs\<rparr>)"
    and "\<And>fs. dict_get (entries d) n = None \<Longrightarrow>
           Q () (d\<lparr>entries := idx_insert n (FileNode b) (entries d), plan := fs\<rparr>)"
  shows "wp (write_file n b) Q E d"
  by (rule next_fault_cases [of d])
    (use assms in \<open>auto simp: wp_def write_file_def split: option.splits\<close>)

lemma wp_mkdirat:
  assumes "\<And>k fs. E k (d\<lparr>plan := fs\<rparr>)"
    and "\<And>fs. dict_get (entries d) n = None \<Longrightarrow> Q () (d\<lparr>entries := idx_insert n (DirNode []) (entries d), plan := fs\<rparr>)"
  shows "wp (mkdirat n) Q E d"
  by (rule next_fault_cases [of d]) (use assms in \<open>auto simp: wp_def mkdirat_def syscall_def Let_def\<close>)

lemma wp_create_child:
  assumes "\<And>k d'. frame {n} d d' \<Longrightarrow> E k d'"
    and "\<And>fs. dict_get (entries d) n = None \<Longrightarrow> Q () (d\<lparr>entries := idx_insert n (DirNode []) (entries d), plan := fs\<rparr>)"
  shows "wp (create_child n) Q E d"
  unfolding create_child_def wp_simps open_child_def
  by (intro wp_mkdirat wp_looking) (use assms in \<open>auto simp: frame_def\<close>)

lemma touches_write_file [touch_intros]: "n \<in> N \<Longrightarrow> touches N (write_file n b)"
  unfolding touches_wp by (intro allI wp_write_file) (auto simp: frame_def)

lemma touches_remove_child_tree [touch_intros]:
  assumes "n \<in> N" shows "touches N (remove_child_tree n)"
  unfolding touches_def
proof
  fix d :: "'a disk_scheme"
  obtain r d1 where d1: "open_child n d = (r, d1)" by fastforce
  then have "frame N d d1" by (rule touchesD [OF touches_reads(5)])
  then show "frame N d (snd (remove_child_tree n d))"
    using assms
    by (auto simp: remove_child_tree_def d1 frame_def split: sum.split io_kind.split option.split tree.split prod.split)
qed

lemma touches_remove_entry [touch_intros]: "n \<in> N \<Longrightarrow> touches N (remove_entry_nofollow n)"
  unfolding remove_entry_nofollow_def
  by (intro touch_intros) (auto split: option.split tree.split intro: touch_intros)

lemma touches_in_child [touch_intros]: "n \<in> N \<Longrightarrow> touches N (in_child n f)"
  unfolding touches_def in_child_def frame_def by (auto split: option.split tree.split prod.split)

text \<open>An action in a child directory, seen from its parent.\<close>

lemma wp_in_child:
  assumes "dict_get (entries d) n = Some (DirNode es)"
  shows "wp (in_child n f) Q E d \<longleftrightarrow>
    wp f (\<lambda>x c. Q x (d\<lparr>entries := idx_insert n (DirNode (entries c)) (entries d), plan := plan c\<rparr>))
         (\<lambda>e c. E e (d\<lparr>entries := idx_insert n (DirNode (entries c)) (entries d), plan := plan c\<rparr>))
       \<lparr>entries = es, plan = plan d\<rparr>"
  using assms by (simp add: wp_def in_child_def Let_def split: prod.split sum.split)

section \<open>Looking only\<close>

definition pure :: "('s, 'e, 'a) act \<Rightarrow> bool" where
  "pure f \<longleftrightarrow> (\<forall>d. \<exists>fs. snd (f d) = d\<lparr>plan := fs\<rparr>)"

named_theorems pure_intros

lemma pure_wp: "pure f \<longleftrightarrow> (\<forall>d. wp f (\<lambda>_ d'. \<exists>fs. d' = d\<lparr>plan := fs\<rparr>) (\<lambda>_ d'. \<exists>fs. d' = d\<lparr>plan := fs\<rparr>) d)"
  by (simp add: pure_def wp_snd)

lemma wp_pure:
  "pure f \<Longrightarrow> (\<And>x fs. f d = (Inr x, d\<lparr>plan := fs\<rparr>) \<Longrightarrow> Q x (d\<lparr>plan := fs\<rparr>)) \<Longrightarrow>
   (\<And>e fs. f d = (Inl e, d\<lparr>plan := fs\<rparr>) \<Longrightarrow> E e (d\<lparr>plan := fs\<rparr>)) \<Longrightarrow> wp f Q E d"
  by (rule wpI; unfold pure_def; metis snd_conv)

lemma update_same [simp]: "d\<lparr>plan := plan d\<rparr> = d" "d\<lparr>entries := entries d\<rparr> = d"
  by simp_all

lemma pure_return [pure_intros]: "pure (return x)"
  unfolding pure_def return_def by (metis snd_conv update_same(1))

lemma pure_throw [pure_intros]: "pure (throw e)"
  unfolding pure_def throw_def by (metis snd_conv update_same(1))

lemma pure_lift [pure_intros]: "pure (lift_result r)"
  unfolding pure_def lift_result_def by (metis snd_conv update_same(1))

lemma pure_andthen [pure_intros]:
  assumes "pure f" "\<And>x. pure (g x)"
  shows "pure (andthen f g)"
  unfolding pure_wp wp_simps
  by (intro allI wp_pure assms) auto

lemma pure_attempt [pure_intros]: "pure f \<Longrightarrow> pure (attempt f)"
  by (simp add: pure_wp wp_simps)

lemma pure_map_error [pure_intros]: "pure f \<Longrightarrow> pure (map_error h f)"
  by (simp add: pure_wp wp_simps)

lemma pure_for_each [pure_intros]: "(\<And>x. x \<in> set xs \<Longrightarrow> pure (f x)) \<Longrightarrow> pure (for_each f xs)"
  by (induction xs) (auto intro: pure_intros)

lemma pure_cases [pure_intros]:
  "pure f \<Longrightarrow> pure g \<Longrightarrow> pure (if b then f else g)"
  "pure f \<Longrightarrow> (\<And>x. pure (h x)) \<Longrightarrow> pure (case_option f h v)"
  "(\<And>x. pure (i x)) \<Longrightarrow> (\<And>x. pure (j x)) \<Longrightarrow> pure (case_sum i j w)"
  "(\<And>x y. pure (l x y)) \<Longrightarrow> pure (case_prod l u)"
  by (simp_all split: option.split sum.split prod.split)

lemma pure_looking [pure_intros]: "pure (looking f)"
  unfolding pure_wp by (intro allI wp_looking) auto

lemma pure_reads [pure_intros]:
  "pure list_entries" "pure (file_metadata n)" "pure (read_file n k)"
  "pure (secure_regular_file n)" "pure (open_child n)" "pure sync"
  unfolding looking_defs by (rule pure_looking)+

lemma insert_present: "dict_get es n = Some t \<Longrightarrow> idx_insert n t es = es"
  by (induction es) (auto split: if_splits)

lemma pure_in_child [pure_intros]:
  assumes "pure f" shows "pure (in_child n f)"
proof -
  have f: "\<exists>r fs. f d = (r, d\<lparr>plan := fs\<rparr>)" for d
    using assms unfolding pure_def by (metis prod.collapse)
  show ?thesis
    unfolding pure_def
  proof
    fix d :: "'c disk_scheme"
    show "\<exists>fs. snd (in_child n f d) = d\<lparr>plan := fs\<rparr>"
      using f [of "\<lparr>entries = [], plan = plan d\<rparr>"]
        f [of "\<lparr>entries = (case dict_get (entries d) n of Some (DirNode es) \<Rightarrow> es | _ \<Rightarrow> []), plan = plan d\<rparr>"]
      by (auto simp: in_child_def insert_present Let_def split: option.splits tree.splits)
  qed
qed

lemma pure_touches: "pure f \<Longrightarrow> touches N f"
  unfolding pure_def touches_def frame_def by (metis (no_types, lifting) disk.select_convs(1) disk.surjective
    disk.update_convs(2) disk.select_convs(3))

section \<open>Without faults\<close>

lemma next_fault_none [simp]: "plan d = [] \<Longrightarrow> next_fault d = (Works, d)"
  by (simp add: next_fault_def)

lemma looking_works: "plan d = [] \<Longrightarrow> looking f d = (f (entries d), d)"
  by (simp add: looking_def syscall_def)

lemma for_each_works:
  "(\<And>x. x \<in> set xs \<Longrightarrow> f x d = (Inr (), d)) \<Longrightarrow> for_each f xs d = (Inr (), d)"
  by (induction xs) (auto simp: return_def andthen_def)

end
