(* ===== verification/Snapshot_Store.thy ===== *)
theory Snapshot_Store
  imports Store_Disk Subscription_Input
begin

text \<open>
  The generations of one subscription (\<open>PersistentSnapshotStore\<close> in
  \<open>crates/multicore-core/src/snapshot.rs\<close>): a directory \<open>snapshot-<n>\<close> per saved document, published by
  a rename and never changed afterwards. A \<open>codec\<close> holds what other code decides: whether a pair
  of documents parses, the JSON texts, Base64, the URL parser and the PNG checks. Of an error only its kind
  is kept.
\<close>

section \<open>Snapshots\<close>

datatype announcement_tone = Tone_Info | Tone_Success | Tone_Danger
datatype lang = Ru | En

record subscription_info =
  source_host :: string
  display_name :: string
  uploaded_bytes :: "u64 option"
  downloaded_bytes :: "u64 option"
  total_bytes :: "u64 option"
  expires_at_unix :: "u64 option"
  updated_at_unix :: u64
  refresh_interval_secs :: "u64 option"
  announcement_text :: "string option"
  announcement_action_label :: "string option"
  announcement_tone :: "announcement_tone option"
  dumb_mode :: bool
  app_language :: "lang option"

record subscription_targets =
  home_url :: "string option"
  support_url :: "string option"
  announcement_url :: "string option"
  logo_url :: "string option"

record subscription_record =
  source_url :: string
  info :: subscription_info
  targets :: subscription_targets

record snapshot =
  mihomo_raw :: string
  xray_raw :: string
  subscription :: "subscription_record option"
  service_logo_png :: "string option"
  group_icons :: "(string, string) dict"

text \<open>\<open>parse_url\<close> gives the scheme and the host of a URL.\<close>

record codec =
  parses :: "string \<Rightarrow> string \<Rightarrow> bool"
  encode_record :: "subscription_record \<Rightarrow> string"
  decode_record :: "string \<Rightarrow> subscription_record option"
  parse_url :: "string \<Rightarrow> (string \<times> string option) option"
  encode_texts :: "(string, string) dict \<Rightarrow> string"
  decode_texts :: "string \<Rightarrow> (string, string) dict option"
  base64_encode :: "string \<Rightarrow> string"
  base64_decode :: "string \<Rightarrow> string option"
  is_canonical_service_logo :: "string \<Rightarrow> bool"
  is_canonical_group_icon :: "string \<Rightarrow> bool"

definition MAX_SERVICE_LOGO_OUTPUT_BYTES :: nat where "MAX_SERVICE_LOGO_OUTPUT_BYTES = 512 * 1024"
definition MAX_GROUP_ICON_OUTPUT_BYTES :: nat where "MAX_GROUP_ICON_OUTPUT_BYTES = 128 * 1024"
definition MAX_GROUP_ICONS :: nat where "MAX_GROUP_ICONS = 32"
definition MAX_GROUP_ICONS_FILE_BYTES :: nat where
  "MAX_GROUP_ICONS_FILE_BYTES = MAX_GROUP_ICONS * MAX_GROUP_ICON_OUTPUT_BYTES * 4 div 3 + 64 * 1024"
definition MAX_RECORD_BYTES :: nat where "MAX_RECORD_BYTES = 16 * 1024"
definition RETAINED_GENERATIONS :: u64 where "RETAINED_GENERATIONS = 3"

definition MIHOMO_FILE :: string where "MIHOMO_FILE = ''mihomo.yaml''"
definition XRAY_FILE :: string where "XRAY_FILE = ''xray.json''"
definition RECORD_FILE :: string where "RECORD_FILE = ''subscription.json''"
definition LOGO_FILE :: string where "LOGO_FILE = ''service-logo.png''"
definition ICONS_FILE :: string where "ICONS_FILE = ''group-icons.json''"

lemmas file_names = MIHOMO_FILE_def XRAY_FILE_def RECORD_FILE_def LOGO_FILE_def ICONS_FILE_def

text \<open>\<open>attach_subscription\<close>, of metadata the response's headers gave.\<close>

record parsed_metadata =
  title :: "string option"
  meta_info :: subscription_info
  meta_targets :: subscription_targets

definition attach_subscription ::
  "codec \<Rightarrow> string \<Rightarrow> parsed_metadata \<Rightarrow> u64 \<Rightarrow> snapshot \<Rightarrow> config_error + snapshot" where
  "attach_subscription c raw m now s =
     (let url = trim raw
      in case parse_url c url of
           None \<Rightarrow> Inl InvalidMihomo
         | Some (scheme, host) \<Rightarrow>
             if length url > 8192 \<or> scheme \<notin> {''http'', ''https''} then Inl InvalidMihomo
             else case host of
               None \<Rightarrow> Inl InvalidMihomo
             | Some h \<Rightarrow> Inr (s\<lparr>subscription := Some
                 \<lparr>source_url = url,
                  info = (meta_info m)\<lparr>
                    display_name := (case title m of Some t \<Rightarrow> t | None \<Rightarrow> h), source_host := h, updated_at_unix := now\<rparr>,
                  targets = meta_targets m\<rparr>\<rparr>))"

section \<open>Names\<close>

definition bounded_add :: "u64 \<Rightarrow> u64 \<Rightarrow> u64" where
  "bounded_add a b = (if unat a + unat b < 2 ^ 64 then a + b else - 1)"

definition generation_id :: "string \<Rightarrow> u64 option" where
  "generation_id name = Option.bind (strip_prefix ''snapshot-'' name) parse_u64"

text \<open>\<open>format!("snapshot-{generation:020}")\<close>\<close>

definition published_name :: "u64 \<Rightarrow> string" where
  "published_name g =
     ''snapshot-'' @ (let t = show_nat (unat g) in replicate (20 - length t) (CHR ''0'') @ t)"

definition staging_suffix :: "nat \<Rightarrow> string" where
  "staging_suffix pid = ''.staging-'' @ show_nat pid"

definition staging_name :: "nat \<Rightarrow> u64 \<Rightarrow> string" where
  "staging_name pid g = CHR ''.'' # published_name g @ staging_suffix pid"

section \<open>Loading\<close>

text \<open>The record is taken back when it still names the host it was saved for.\<close>

definition accept_record :: "codec \<Rightarrow> string \<Rightarrow> subscription_record option" where
  "accept_record c text =
     Option.bind (decode_record c text) (\<lambda>r.
       case parse_url c (source_url r) of
         Some (scheme, host) \<Rightarrow>
           if length (source_url r) \<le> 8192 \<and> scheme \<in> {''http'', ''https''} \<and> host = Some (source_host (info r))
           then Some (if display_name (info r) = [] then r\<lparr>info := (info r)\<lparr>display_name := source_host (info r)\<rparr>\<rparr> else r)
           else None
       | None \<Rightarrow> None)"

definition is_group_icon_key :: "string \<Rightarrow> bool" where
  "is_group_icon_key key \<longleftrightarrow>
     length key = 32 \<and> list_all (\<lambda>b. is_ascii_digit b \<or> (CHR ''a'' \<le> b \<and> b \<le> CHR ''f'')) key"

definition decode_group_icons :: "codec \<Rightarrow> string \<Rightarrow> (string, string) dict" where
  "decode_group_icons c bytes =
     (case decode_texts c bytes of
        None \<Rightarrow> []
      | Some m \<Rightarrow> List.map_filter (\<lambda>(key, v).
          case base64_decode c v of
            Some png \<Rightarrow> if is_canonical_group_icon c png then Some (key, png) else None
          | None \<Rightarrow> None)
          (take MAX_GROUP_ICONS (dict_retain is_group_icon_key m)))"

definition encode_group_icons :: "codec \<Rightarrow> (string, string) dict \<Rightarrow> string" where
  "encode_group_icons c icons = encode_texts c (map (\<lambda>(key, png). (key, base64_encode c png)) icons)"

definition optional_file :: "string \<Rightarrow> nat \<Rightarrow> ('s, 'e, string option) act" where
  "optional_file name max_bytes =
     andthen (attempt (file_metadata name)) (\<lambda>meta.
       case meta of
         Inr (Some (regular, len)) \<Rightarrow>
           if regular \<and> len \<le> max_bytes
           then andthen (attempt (read_file name max_bytes)) (\<lambda>r. return (ok r))
           else return None
       | _ \<Rightarrow> return None)"

definition load_generation :: "codec \<Rightarrow> ('s, io_kind, snapshot) act" where
  "load_generation c =
     andthen (read_file MIHOMO_FILE MAX_CONFIG_BYTES) (\<lambda>m.
     andthen (read_file XRAY_FILE MAX_CONFIG_BYTES) (\<lambda>x.
     if \<not> parses c m x then throw BadData
     else andthen (optional_file RECORD_FILE MAX_RECORD_BYTES) (\<lambda>r.
          andthen (optional_file LOGO_FILE MAX_SERVICE_LOGO_OUTPUT_BYTES) (\<lambda>l.
          andthen (optional_file ICONS_FILE MAX_GROUP_ICONS_FILE_BYTES) (\<lambda>i.
          return \<lparr>mihomo_raw = m, xray_raw = x, subscription = Option.bind r (accept_record c),
            service_logo_png = (case l of Some b \<Rightarrow> if is_canonical_service_logo c b then Some b else None | None \<Rightarrow> None),
            group_icons = (case i of Some b \<Rightarrow> decode_group_icons c b | None \<Rightarrow> [])\<rparr>)))))"

definition generation_names :: "(string \<times> bool) list \<Rightarrow> (u64 \<times> string) list" where
  "generation_names listing =
     List.map_filter (\<lambda>(n, dir). if dir then map_option (\<lambda>g. (g, n)) (generation_id n) else None) listing"

definition generation_directories :: "('s, io_kind, (u64 \<times> string) list) act" where
  "generation_directories =
     andthen list_entries (\<lambda>listing.
     andthen (for_each (\<lambda>(g, n). open_child n) (generation_names listing)) (\<lambda>_.
     return (generation_names listing)))"

definition CONFIG_FILES :: "string list" where
  "CONFIG_FILES = [MIHOMO_FILE, XRAY_FILE, RECORD_FILE, LOGO_FILE, ICONS_FILE]"

definition check_config :: "string \<Rightarrow> ('s, io_kind, unit) act" where
  "check_config name =
     andthen (file_metadata name) (\<lambda>meta.
       case meta of
         Some (regular, _) \<Rightarrow>
           if regular then secure_regular_file name
           else if name \<in> {LOGO_FILE, ICONS_FILE} then return () else throw BadData
       | None \<Rightarrow> return ())"

fun newest_loadable :: "codec \<Rightarrow> (u64 \<times> string) list \<Rightarrow> ('s, 'e, (u64 \<times> snapshot) option) act" where
  "newest_loadable c [] = return None"
| "newest_loadable c ((g, n) # gens) =
     andthen (attempt (in_child n (load_generation c))) (\<lambda>r.
       case r of Inr s \<Rightarrow> return (Some (g, s)) | Inl _ \<Rightarrow> newest_loadable c gens)"

definition by_newest :: "(u64 \<times> string) list \<Rightarrow> (u64 \<times> string) list" where
  "by_newest gens = rev (sort_key fst gens)"

definition next_generation :: "(u64 \<times> string) list \<Rightarrow> u64" where
  "next_generation gens = max (bounded_add (case by_newest gens of [] \<Rightarrow> 0 | (g, _) # _ \<Rightarrow> g) 1) 1"

text \<open>The current snapshot with its generation, and the next generation.\<close>

definition open_capability :: "codec \<Rightarrow> ('s, io_kind, (u64 \<times> snapshot) option \<times> u64) act" where
  "open_capability c =
     andthen generation_directories (\<lambda>gens.
     andthen (for_each (\<lambda>(g, n). in_child n (for_each check_config CONFIG_FILES)) gens) (\<lambda>_.
     andthen (newest_loadable c (by_newest gens)) (\<lambda>current.
     return (current, next_generation gens))))"

definition load_latest_readonly :: "codec \<Rightarrow> ('s, io_kind, snapshot option) act" where
  "load_latest_readonly c =
     andthen generation_directories (\<lambda>gens.
     andthen (newest_loadable c (by_newest gens)) (\<lambda>current.
     return (map_option snd current)))"

section \<open>Committing\<close>

definition without_logo_url :: "subscription_record \<Rightarrow> subscription_record" where
  "without_logo_url r = r\<lparr>targets := (targets r)\<lparr>logo_url := None\<rparr>\<rparr>"

definition snapshot_files :: "codec \<Rightarrow> snapshot \<Rightarrow> (string, string) dict" where
  "snapshot_files c s =
     [(MIHOMO_FILE, mihomo_raw s), (XRAY_FILE, xray_raw s)] @
     (case subscription s of Some r \<Rightarrow> [(RECORD_FILE, encode_record c (without_logo_url r))] | None \<Rightarrow> []) @
     (case service_logo_png s of Some l \<Rightarrow> [(LOGO_FILE, l)] | None \<Rightarrow> []) @
     (if group_icons s \<noteq> [] then [(ICONS_FILE, encode_group_icons c (group_icons s))] else [])"

definition publish_generation :: "codec \<Rightarrow> nat \<Rightarrow> u64 \<Rightarrow> snapshot \<Rightarrow> ('s, io_kind, io_kind + unit) act" where
  "publish_generation c pid g s =
     andthen (in_child (staging_name pid g)
       (andthen (for_each (\<lambda>(n, b). write_file n b) (snapshot_files c s)) (\<lambda>_. sync))) (\<lambda>_.
     andthen (rename_child (staging_name pid g) (published_name g)) (\<lambda>_. attempt sync))"

definition is_superseded :: "u64 \<Rightarrow> string \<Rightarrow> bool" where
  "is_superseded newest name \<longleftrightarrow>
     (case generation_id name of Some i \<Rightarrow> bounded_add i RETAINED_GENERATIONS \<le> newest | None \<Rightarrow> False)"

definition is_abandoned :: "nat \<Rightarrow> string \<Rightarrow> bool" where
  "is_abandoned pid name \<longleftrightarrow>
     starts_with ''.snapshot-'' name \<and> contains_str ''.staging-'' name \<and> \<not> ends_with (staging_suffix pid) name"

definition prune_superseded_generations :: "nat \<Rightarrow> u64 \<Rightarrow> ('s, 'e, unit) act" where
  "prune_superseded_generations pid newest =
     andthen (attempt list_entries) (\<lambda>listing.
       case listing of
         Inl _ \<Rightarrow> return ()
       | Inr es \<Rightarrow> for_each (\<lambda>(n, dir).
           if dir \<and> (is_superseded newest n \<or> is_abandoned pid n) then ignoring (remove_child_tree n)
           else return ()) es)"

text \<open>The logo of the published generation is opened again, to keep its file.\<close>

definition retain_logo :: "u64 \<Rightarrow> snapshot \<Rightarrow> io_kind + unit \<Rightarrow> ('s, 'e, io_kind option) act" where
  "retain_logo g s synced =
     (let debt = (case synced of Inl k \<Rightarrow> Some k | Inr _ \<Rightarrow> None)
      in if service_logo_png s = None then return debt
         else andthen (attempt (andthen (open_child (published_name g)) (\<lambda>_.
                in_child (published_name g) (read_file LOGO_FILE MAX_SERVICE_LOGO_OUTPUT_BYTES)))) (\<lambda>r.
                return (case r of Inl k \<Rightarrow> Some k | Inr _ \<Rightarrow> debt)))"

definition commit_with_generation_status ::
  "codec \<Rightarrow> nat \<Rightarrow> u64 \<Rightarrow> snapshot \<Rightarrow> ('s, io_kind, u64 \<times> io_kind option) act" where
  "commit_with_generation_status c pid g s =
     andthen (create_child (staging_name pid g)) (\<lambda>_.
     andthen (attempt (publish_generation c pid g s)) (\<lambda>published.
       case published of
         Inl e \<Rightarrow> andthen (remove_child_tree (staging_name pid g)) (\<lambda>_. throw e)
       | Inr synced \<Rightarrow>
           andthen (retain_logo g s synced) (\<lambda>debt.
           andthen (prune_superseded_generations pid g) (\<lambda>_. return (g, debt)))))"

end
