(* ===== verification/Snapshot_Logic.thy ===== *)
theory Snapshot_Logic
  imports Store_Logic Snapshot_Store
begin

text \<open>
  What \<open>Snapshot_Store\<close> does to a subscription's directory: what loading it gives when nothing fails,
  and for every plan of faults what a failed and what a successful commit leave.
\<close>

section \<open>Loading without faults\<close>

definition optional_of :: "string \<Rightarrow> nat \<Rightarrow> folder \<Rightarrow> string option" where
  "optional_of n max_bytes es =
     (case dict_get es n of Some (FileNode b) \<Rightarrow> if length b \<le> max_bytes then Some b else None | _ \<Rightarrow> None)"

definition loaded :: "codec \<Rightarrow> folder \<Rightarrow> snapshot option" where
  "loaded c es =
     (case (optional_of MIHOMO_FILE MAX_CONFIG_BYTES es, optional_of XRAY_FILE MAX_CONFIG_BYTES es) of
        (Some m, Some x) \<Rightarrow>
          if parses c m x then
            Some \<lparr>mihomo_raw = m, xray_raw = x,
              subscription = Option.bind (optional_of RECORD_FILE MAX_RECORD_BYTES es) (accept_record c),
              service_logo_png = (case optional_of LOGO_FILE MAX_SERVICE_LOGO_OUTPUT_BYTES es of
                Some b \<Rightarrow> if is_canonical_service_logo c b then Some b else None | None \<Rightarrow> None),
              group_icons = (case optional_of ICONS_FILE MAX_GROUP_ICONS_FILE_BYTES es of
                Some b \<Rightarrow> decode_group_icons c b | None \<Rightarrow> [])\<rparr>
          else None
      | _ \<Rightarrow> None)"

lemmas act_simps = andthen_def attempt_def return_def throw_def map_error_def lift_result_def Let_def

lemma read_file_works:
  "plan d = [] \<Longrightarrow> \<exists>k. read_file n mx d = (case optional_of n mx (entries d) of Some b \<Rightarrow> Inr b | None \<Rightarrow> Inl k, d)"
  by (auto simp: read_file_def looking_works open_file_read_def optional_of_def split: option.split tree.split)

lemma optional_file_works: "plan d = [] \<Longrightarrow> optional_file n mx d = (Inr (optional_of n mx (entries d)), d)"
  using read_file_works [of d n mx]
  by (auto simp: optional_file_def act_simps file_metadata_def looking_works optional_of_def
      split: option.split tree.split)

lemma load_generation_works:
  assumes "plan d = []"
  shows "\<exists>k. load_generation c d = (case loaded c (entries d) of Some s \<Rightarrow> Inr s | None \<Rightarrow> Inl k, d)"
  using read_file_works [OF assms, of MIHOMO_FILE MAX_CONFIG_BYTES] read_file_works [OF assms, of XRAY_FILE MAX_CONFIG_BYTES]
  by (auto simp: load_generation_def act_simps loaded_def optional_file_works [OF assms] split: option.split)

definition child :: "folder \<Rightarrow> string \<Rightarrow> folder" where
  "child es n = (case dict_get es n of Some (DirNode sub) \<Rightarrow> sub | _ \<Rightarrow> [])"

lemma in_child_works:
  assumes "plan d = []" "f \<lparr>entries = child (entries d) n, plan = []\<rparr> = (r, \<lparr>entries = child (entries d) n, plan = []\<rparr>)"
  shows "in_child n f d = (r, d)"
  using assms by (auto simp: in_child_def child_def insert_present Let_def split: option.splits tree.splits)

fun newest_in :: "codec \<Rightarrow> folder \<Rightarrow> (u64 \<times> string) list \<Rightarrow> (u64 \<times> snapshot) option" where
  "newest_in c es [] = None"
| "newest_in c es ((g, n) # gens) =
     (case loaded c (child es n) of Some s \<Rightarrow> Some (g, s) | None \<Rightarrow> newest_in c es gens)"

lemma newest_loadable_works:
  assumes "plan d = []"
  shows "newest_loadable c gens d = (Inr (newest_in c (entries d) gens), d)"
proof (induction gens)
  case (Cons gn gens)
  obtain g n where gn: "gn = (g, n)" by force
  obtain k where "load_generation c \<lparr>entries = child (entries d) n, plan = []\<rparr> =
      (case loaded c (child (entries d) n) of Some s \<Rightarrow> Inr s | None \<Rightarrow> Inl k, \<lparr>entries = child (entries d) n, plan = []\<rparr>)"
    using load_generation_works [of "\<lparr>entries = child (entries d) n, plan = []\<rparr>" c] by auto
  then have "in_child n (load_generation c) d =
      (case loaded c (child (entries d) n) of Some s \<Rightarrow> Inr s | None \<Rightarrow> Inl k, d)"
    by (rule in_child_works [OF assms])
  then show ?case
    using Cons.IH by (simp add: gn act_simps split: option.split)
qed (simp add: return_def)

section \<open>Directories that open\<close>

definition generations :: "folder \<Rightarrow> (u64 \<times> string) list" where
  "generations es = generation_names (map (\<lambda>(n, t). (n, is_dir t)) es)"

definition current_of :: "codec \<Rightarrow> folder \<Rightarrow> (u64 \<times> snapshot) option" where
  "current_of c es = newest_in c es (by_newest (generations es))"

text \<open>The configuration files a generation has are regular files.\<close>

definition configs_ok :: "folder \<Rightarrow> bool" where
  "configs_ok es \<longleftrightarrow> (\<forall>(n, t)\<in>set es. n \<in> {MIHOMO_FILE, XRAY_FILE, RECORD_FILE} \<longrightarrow> (\<exists>b. t = FileNode b))"

definition generations_ok :: "folder \<Rightarrow> bool" where
  "generations_ok es \<longleftrightarrow> dict_inv es \<and>
     (\<forall>n sub. (n, DirNode sub) \<in> set es \<longrightarrow> generation_id n \<noteq> None \<longrightarrow> configs_ok sub)"

lemma in_generations:
  "(g, n) \<in> set (generations es) \<longleftrightarrow> generation_id n = Some g \<and> (\<exists>sub. (n, DirNode sub) \<in> set es)"
  by (force simp: generations_def generation_names_def List.map_filter_def is_dir_def split: tree.splits if_splits)

lemma child_in: "dict_inv es \<Longrightarrow> (n, DirNode sub) \<in> set es \<Longrightarrow> dict_get es n = Some (DirNode sub) \<and> child es n = sub"
  by (simp add: get_in [symmetric] child_def)

lemma check_config_works:
  assumes "plan d = []" "configs_ok (entries d)" "n \<in> set CONFIG_FILES"
  shows "check_config n d = (Inr (), d)"
proof (cases "dict_get (entries d) n")
  case (Some t)
  then have "(n, t) \<in> set (entries d)" by (rule map_of_SomeD)
  then show ?thesis
    using assms Some
    by (cases t) (auto simp: check_config_def act_simps file_metadata_def secure_regular_file_def looking_works
        open_file_read_def configs_ok_def CONFIG_FILES_def)
qed (use assms in \<open>simp add: check_config_def act_simps file_metadata_def looking_works\<close>)

lemma open_works:
  assumes d: "plan d = []" and ok: "generations_ok (entries d)"
  shows "open_capability c d = (Inr (current_of c (entries d), next_generation (generations (entries d))), d)"
proof -
  have sub: "\<exists>sub. dict_get (entries d) n = Some (DirNode sub) \<and> child (entries d) n = sub \<and> configs_ok sub"
    if "(g, n) \<in> set (generations (entries d))" for g n
    using that ok child_in unfolding in_generations generations_ok_def by blast
  have "for_each (\<lambda>(g, n). open_child n) (generations (entries d)) d = (Inr (), d)"
    by (rule for_each_works) (auto dest!: sub simp: open_child_def looking_works d)
  then have gens: "generation_directories d = (Inr (generations (entries d)), d)"
    by (simp add: generation_directories_def list_entries_def looking_works d act_simps generations_def)
  have "for_each (\<lambda>(g, n). in_child n (for_each check_config CONFIG_FILES)) (generations (entries d)) d = (Inr (), d)"
    by (rule for_each_works)
      (auto dest!: sub intro!: in_child_works d for_each_works check_config_works)
  then show ?thesis
    by (simp add: open_capability_def gens act_simps newest_loadable_works [OF d] current_of_def)
qed

lemma generations_outside:
  assumes N: "\<And>n. generation_id n \<noteq> None \<Longrightarrow> n \<notin> N" and same: "outside N es' = outside N es"
  shows "generations es' = generations es"
proof -
  have out: "generations (outside N es) = generations es" for es
    unfolding generations_def generation_names_def outside_def List.map_filter_def
    by (induction es) (use N in \<open>auto split: if_splits\<close>)
  show ?thesis using out [of es] out [of es'] same by simp
qed

lemma current_of_outside:
  assumes N: "\<And>n. generation_id n \<noteq> None \<Longrightarrow> n \<notin> N" and same: "outside N es' = outside N es"
  shows "current_of c es' = current_of c es"
proof -
  have newest: "\<forall>(g, n)\<in>set gs. n \<notin> N \<Longrightarrow> newest_in c es' gs = newest_in c es gs" for gs
  proof (induction gs)
    case (Cons gn gs)
    obtain g n where gn: "gn = (g, n)" by force
    have "dict_get es' n = dict_get es n"
      using Cons.prems get_outside [of n N es] get_outside [of n N es'] same by (simp add: gn)
    then have "child es' n = child es n" by (simp add: child_def)
    then show ?case
      using Cons by (simp add: gn split: option.split)
  qed simp
  have "\<forall>(g, n)\<in>set (by_newest (generations es)). n \<notin> N"
    using N by (auto simp: by_newest_def in_generations)
  then show ?thesis
    by (simp add: current_of_def generations_outside [OF assms] newest)
qed

section \<open>Names\<close>

lemma digits_val_zeros: "digits_val 0 (replicate k (CHR ''0'') @ t) = digits_val 0 t"
  by (induction k) (auto simp: is_ascii_digit_def)

lemma parse_uint_digits: "digits_val 0 s = Some n \<Longrightarrow> s \<noteq> [] \<Longrightarrow> n \<le> hi \<Longrightarrow> parse_uint hi s = Some n"
  by (cases s) (auto simp: parse_uint_def is_ascii_digit_def)

lemma generation_id_published [simp]: "generation_id (published_name g) = Some g"
proof -
  have "unat g \<le> 18446744073709551615" using unat_bound [of g] by simp
  then have "parse_u64 (replicate k (CHR ''0'') @ show_nat (unat g)) = Some g" for k
    by (simp add: parse_u64_def parse_uint_digits digits_val_zeros digits_val_show_nat)
  then show ?thesis
    by (simp add: generation_id_def published_name_def Let_def strip_prefix_Some [THEN iffD2, OF refl])
qed

lemma generation_id_staging [simp]: "generation_id (staging_name pid g) = None"
  by (simp add: generation_id_def staging_name_def)

lemma published_not_staging [simp]: "published_name g \<noteq> staging_name pid g'"
  by (simp add: published_name_def staging_name_def)

section \<open>Removing and renaming\<close>

text \<open>What is left when removing a directory's entries stops.\<close>

inductive remains :: "folder \<Rightarrow> folder \<Rightarrow> bool" where
  none: "remains es []"
| all: "remains es es"
| part: "remains ((n, DirNode sub) # es) ((n, DirNode sub') # es)"
| rest: "remains es left \<Longrightarrow> remains (x # es) left"

lemma clear_entries_remains: "clear_entries es fs = (r, left, fs') \<Longrightarrow> remains es left"
proof (induction es fs arbitrary: r left fs' rule: clear_entries.induct)
  case (2 n sub es fs)
  obtain r1 fs1 where t1: "take_fault fs = (r1, fs1)" by force
  obtain r2 fs2 where t2: "take_fault fs1 = (r2, fs2)" by force
  obtain r3 mid fs3 where c: "clear_entries sub fs2 = (r3, mid, fs3)" by (metis prod_cases3)
  obtain r4 fs4 where t4: "take_fault fs3 = (r4, fs4)" by force
  show ?case
  proof (cases "r1 = None \<and> r2 = None \<and> r3 = None \<and> r4 = None")
    case True
    then show ?thesis
      using "2.prems" "2.IH"(2) [of r1 fs1 r2 fs2 r3] by (auto simp: t1 t2 c t4 intro: rest)
  next
    case False
    then have "left \<in> {(n, DirNode sub) # es, (n, DirNode mid) # es}"
      using "2.prems" by (auto simp: t1 t2 c t4 split: option.splits)
    then show ?thesis by (auto intro: remains.intros)
  qed
qed (auto split: prod.splits option.splits intro: remains.intros)

lemma remains_keys: "remains es left \<Longrightarrow> set (map fst left) \<subseteq> set (map fst es)"
  by (induction rule: remains.induct) auto

lemma remains_inv: "remains es left \<Longrightarrow> dict_inv es \<Longrightarrow> dict_inv left"
  by (induction rule: remains.induct) (auto simp: dict_inv_def)

lemma remains_configs: "remains es left \<Longrightarrow> configs_ok es \<Longrightarrow> configs_ok left"
  by (induction rule: remains.induct) (auto simp: configs_ok_def)

lemma generations_ok_insert:
  "generations_ok es \<Longrightarrow> (generation_id n \<noteq> None \<Longrightarrow> configs_ok sub) \<Longrightarrow> generations_ok (idx_insert n (DirNode sub) es)"
  unfolding generations_ok_def by (auto simp: idx_insert_in split: if_splits)

lemma generations_ok_removed: "generations_ok es \<Longrightarrow> generations_ok (removed n es)"
  unfolding generations_ok_def by (auto simp: removed_def set_dict_retain inv_dict_retain)

lemma generations_ok_frame:
  assumes "frame N d d'" and N: "\<And>n. generation_id n \<noteq> None \<Longrightarrow> n \<notin> N" and ok: "generations_ok (entries d)"
  shows "generations_ok (entries d')"
proof -
  have "(n, t) \<in> set (outside N es) \<longleftrightarrow> (n, t) \<in> set es" if "generation_id n \<noteq> None" for n t es
    using N [OF that] by (auto simp: outside_def)
  note out = this
  have eq: "outside N (entries d') = outside N (entries d)" using assms(1) by (simp add: frame_def)
  have same: "(n, t) \<in> set (entries d)" if "(n, t) \<in> set (entries d')" "generation_id n \<noteq> None" for n t
    using that(1) out [OF that(2), of t "entries d'"] out [OF that(2), of t "entries d"] eq by simp
  have "dict_inv (entries d')" using assms(1) ok by (simp add: frame_def generations_ok_def)
  moreover have "configs_ok sub" if "(n, DirNode sub) \<in> set (entries d')" "generation_id n \<noteq> None" for n sub
    using same [OF that] that(2) ok unfolding generations_ok_def by blast
  ultimately show ?thesis unfolding generations_ok_def by blast
qed

lemma remove_child_tree_cases:
  assumes "remove_child_tree n d = (r, d')"
  obtains fs where "d' = d\<lparr>plan := fs\<rparr>"
  | fs where "d' = d\<lparr>entries := removed n (entries d), plan := fs\<rparr>"
  | fs sub left where "dict_get (entries d) n = Some (DirNode sub)" "remains sub left"
      "d' = d\<lparr>entries := idx_insert n (DirNode left) (entries d), plan := fs\<rparr>"
proof -
  define same where "same = (\<exists>fs. d' = d\<lparr>plan := fs\<rparr>)"
  define gone where "gone = (\<exists>fs. d' = d\<lparr>entries := removed n (entries d), plan := fs\<rparr>)"
  define less where "less = (\<lambda>left. \<exists>fs. d' = d\<lparr>entries := idx_insert n (DirNode left) (entries d), plan := fs\<rparr>)"
  obtain x d1 where d1: "open_child n d = (x, d1)" by fastforce
  then obtain fs1 where fs1: "d1 = d\<lparr>plan := fs1\<rparr>"
    using pure_reads(5) unfolding pure_def by (metis snd_conv)
  have same: "d' = d\<lparr>plan := fs\<rparr> \<Longrightarrow> same" and gone: "d' = d\<lparr>entries := removed n (entries d), plan := fs\<rparr> \<Longrightarrow> gone"
    and less: "d' = d\<lparr>entries := idx_insert n (DirNode left) (entries d), plan := fs\<rparr> \<Longrightarrow> less left" for fs left
    by (auto simp: same_def gone_def less_def)
  show thesis
  proof (cases x)
    case (Inl k)
    then have same using assms same [of fs1] by (auto simp: remove_child_tree_def d1 fs1 split: io_kind.splits)
    then show thesis using that(1) by (auto simp: same_def)
  next
    case (Inr u)
    show thesis
    proof (cases "dict_get (entries d) n")
      case (Some t)
      show thesis
      proof (cases t)
        case (DirNode sub)
        obtain r1 fs2 where t1: "take_fault fs1 = (r1, fs2)" by force
        obtain r2 left fs3 where c: "clear_entries sub fs2 = (r2, left, fs3)" by (metis prod_cases3)
        obtain r3 fs4 where t3: "take_fault fs3 = (r3, fs4)" by force
        have "same \<or> gone \<or> less left"
          using assms same [of fs2] gone [of fs4] less [where left = left and fs = fs3] less [where left = left and fs = fs4]
          by (cases r1; cases r2; cases r3) (simp_all add: remove_child_tree_def d1 fs1 Inr Some DirNode t1 c t3)
        then show thesis
          using that Some DirNode clear_entries_remains [OF c] unfolding same_def gone_def less_def by blast
      qed (use that(1) [of fs1] assms in \<open>auto simp: remove_child_tree_def d1 fs1 Inr Some\<close>)
    qed (use that(1) [of fs1] assms in \<open>auto simp: remove_child_tree_def d1 fs1 Inr\<close>)
  qed
qed

lemma remove_child_tree_ok:
  assumes ok: "generations_ok (entries d)" and run: "remove_child_tree n d = (r, d')"
  shows "generations_ok (entries d')"
  using run
proof (cases rule: remove_child_tree_cases)
  case (3 fs sub left)
  have "generation_id n \<noteq> None \<Longrightarrow> configs_ok sub"
    using ok map_of_SomeD [OF 3(1)] unfolding generations_ok_def by blast
  then show ?thesis
    using 3 ok by (simp add: generations_ok_insert remains_configs del: not_None_eq)
qed (use ok in \<open>simp_all add: generations_ok_removed\<close>)

lemma prune_touches:
  "touches {n. is_superseded g n \<or> is_abandoned pid n} (prune_superseded_generations pid g)"
proof -
  have each: "touches {n. is_superseded g n \<or> is_abandoned pid n} (for_each (\<lambda>(n, dir).
      if dir \<and> (is_superseded g n \<or> is_abandoned pid n) then ignoring (remove_child_tree n) else return ()) es)" for es
    by (rule touches_for_each, clarsimp) (intro conjI impI touch_intros; simp)
  show ?thesis
    unfolding prune_superseded_generations_def
    by (intro touches_andthen touches_attempt touches_reads, split sum.split)
      (intro conjI allI impI touches_return each)
qed

definition keeps :: "('s disk_scheme \<Rightarrow> bool) \<Rightarrow> ('s, 'e, 'a) act \<Rightarrow> bool" where
  "keeps P f \<longleftrightarrow> (\<forall>d. P d \<longrightarrow> P (snd (f d)))"

named_theorems keep_intros

lemma keeps_wp: "keeps P f \<longleftrightarrow> (\<forall>d. P d \<longrightarrow> wp f (\<lambda>_. P) (\<lambda>_. P) d)"
  by (simp add: keeps_def wp_snd)

lemma keeps_return [keep_intros]: "keeps P (return x)"
  by (simp add: keeps_def return_def)

lemma keeps_andthen [keep_intros]: "keeps P f \<Longrightarrow> (\<And>x. keeps P (g x)) \<Longrightarrow> keeps P (andthen f g)"
  unfolding keeps_wp wp_simps by (blast intro: wp_mono)

lemma keeps_attempt [keep_intros]: "keeps P f \<Longrightarrow> keeps P (attempt f)"
  by (simp add: keeps_wp wp_simps)

lemma keeps_ignoring [keep_intros]: "keeps P f \<Longrightarrow> keeps P (ignoring f)"
  by (simp add: keeps_wp wp_simps)

lemma keeps_for_each [keep_intros]: "(\<And>x. keeps P (f x)) \<Longrightarrow> keeps P (for_each f xs)"
  by (induction xs) (auto intro: keep_intros)

lemma keeps_pure: "pure f \<Longrightarrow> (\<And>d fs. P d \<Longrightarrow> P (d\<lparr>plan := fs\<rparr>)) \<Longrightarrow> keeps P f"
  unfolding keeps_def pure_def by metis

lemma prune_keeps:
  assumes remove: "\<And>n. keeps P (remove_child_tree n)" and list: "keeps P list_entries"
  shows "keeps P (prune_superseded_generations pid g)"
proof -
  have each: "keeps P (for_each (\<lambda>(n, dir).
      if dir \<and> (is_superseded g n \<or> is_abandoned pid n) then ignoring (remove_child_tree n) else return ()) es)" for es
    by (rule keeps_for_each, clarsimp) (intro conjI impI keeps_ignoring remove keeps_return)
  show ?thesis
    unfolding prune_superseded_generations_def
    by (intro keeps_andthen keeps_attempt list, split sum.split) (intro conjI allI impI keeps_return each)
qed

lemma list_entries_keeps: "(\<And>d fs. P d \<Longrightarrow> P (d\<lparr>plan := fs\<rparr>)) \<Longrightarrow> keeps P list_entries"
  unfolding list_entries_def by (rule keeps_pure [OF pure_looking])

lemma prune_ok: "keeps (\<lambda>d. generations_ok (entries d)) (prune_superseded_generations pid g)"
  by (rule prune_keeps [OF _ list_entries_keeps])
    (auto simp: keeps_def intro: remove_child_tree_ok [OF _ prod.collapse [symmetric]])

lemma generations_insert:
  "set (generations (idx_insert n (DirNode sub) es)) \<subseteq> {(i, n) |i. generation_id n = Some i} \<union> set (generations es)"
  using set_idx_insert [of n "DirNode sub" es] by (force simp: in_generations)

lemma generations_removed: "set (generations (removed n es)) \<subseteq> set (generations es)"
  by (force simp: in_generations removed_def set_dict_retain)

lemma prune_generations: "keeps (\<lambda>d. set (generations (entries d)) \<subseteq> G) (prune_superseded_generations pid g)"
proof (rule prune_keeps [OF _ list_entries_keeps])
  fix n :: string
  have "set (generations (entries d')) \<subseteq> set (generations (entries d))"
    if "remove_child_tree n d = (r, d')" for r and d d' :: "'a disk_scheme"
    using that
  proof (cases rule: remove_child_tree_cases)
    case (3 fs sub left)
    then show ?thesis
      using generations_insert [of n left "entries d"] in_generations [of _ n "entries d"] map_of_SomeD [OF 3(1)]
      by auto
  qed (use generations_removed in auto)
  then show "keeps (\<lambda>d :: 'a disk_scheme. set (generations (entries d)) \<subseteq> G) (remove_child_tree n)"
    unfolding keeps_def by (metis prod.collapse subset_trans)
qed simp

lemma renameat_error: "renameat a b es = (Inl k, es') \<Longrightarrow> es' = es"
  by (auto simp: renameat_def Let_def split: option.splits tree.splits if_splits)

lemma renameat_dir:
  "renameat a b es = (Inr u, es') \<Longrightarrow> dict_get es a = Some t \<Longrightarrow> es' = idx_insert b t (removed a es)"
  by (auto simp: renameat_def Let_def split: option.splits tree.splits if_splits)

lemma wp_rename_child:
  assumes "\<And>k fs. E k (d\<lparr>plan := fs\<rparr>)" and "dict_get (entries d) a = Some t"
    and "\<And>fs. Q () (d\<lparr>entries := idx_insert b t (removed a (entries d)), plan := fs\<rparr>)"
  shows "wp (rename_child a b) Q E d"
  unfolding rename_child_def
proof (rule wp_syscall)
  fix fs
  show "case renameat a b (entries d) of
      (Inr x, es) \<Rightarrow> Q x (d\<lparr>entries := es, plan := fs\<rparr>) | (Inl k, es) \<Rightarrow> E k (d\<lparr>entries := es, plan := fs\<rparr>)"
    using renameat_error renameat_dir [OF _ assms(2)] assms(1,3)
    by (auto split: prod.split sum.split) (metis update_same(2) disk.surjective disk.update_convs(1,2))
qed (rule assms(1))

section \<open>Committing\<close>

definition stored_files :: "codec \<Rightarrow> snapshot \<Rightarrow> folder" where
  "stored_files c s = map (\<lambda>(n, b). (n, FileNode b)) (snapshot_files c s)"

lemma insert_new: "dict_get es n = None \<Longrightarrow> idx_insert n t es = es @ [(n, t)]"
  by (induction es) (auto split: if_splits)

lemma write_files:
  assumes "distinct (map fst files)" "\<forall>(n, b)\<in>set files. dict_get (entries d) n = None"
  shows "wp (for_each (\<lambda>(n, b). write_file n b) files)
    (\<lambda>_ d'. entries d' = entries d @ map (\<lambda>(n, b). (n, FileNode b)) files) (\<lambda>_ _. True) d"
  using assms
proof (induction files arbitrary: d)
  case (Cons nb files)
  obtain n b where nb: "nb = (n, b)" by force
  have "wp (for_each (\<lambda>(n, b). write_file n b) files)
      (\<lambda>_ d'. entries d' = entries d @ map (\<lambda>(n, b). (n, FileNode b)) (nb # files)) (\<lambda>_ _. True)
      (d\<lparr>entries := idx_insert n (FileNode b) (entries d), plan := fs\<rparr>)" for fs
    using Cons.prems by (intro wp_mono [OF Cons.IH]) (auto simp: nb insert_new get_idx_insert image_iff)
  then show ?case
    by (auto simp: nb wp_simps intro!: wp_write_file)
qed (simp add: wp_simps)

lemma snapshot_files_distinct: "distinct (map fst (snapshot_files c s))"
  by (simp add: snapshot_files_def file_names split: option.split)

lemma stored_configs_ok: "configs_ok (stored_files c s)"
  by (auto simp: configs_ok_def stored_files_def)

text \<open>A commit that fails has touched its staging directory only.\<close>

definition committed_names :: "nat \<Rightarrow> u64 \<Rightarrow> string set" where
  "committed_names pid g = {staging_name pid g, published_name g} \<union> {n. is_superseded g n \<or> is_abandoned pid n}"

definition published :: "codec \<Rightarrow> nat \<Rightarrow> u64 \<Rightarrow> snapshot \<Rightarrow> 's disk_scheme \<Rightarrow> 's disk_scheme \<Rightarrow> bool" where
  "published c pid g s d d' \<longleftrightarrow>
     frame (committed_names pid g) d d' \<and>
     dict_get (entries d') (published_name g) = Some (DirNode (stored_files c s)) \<and>
     set (generations (entries d')) \<subseteq> insert (g, published_name g) (set (generations (entries d))) \<and>
     (generations_ok (entries d) \<longrightarrow> generations_ok (entries d'))"

lemma published_plan [simp]: "published c pid g s d (d'\<lparr>plan := fs\<rparr>) \<longleftrightarrow> published c pid g s d d'"
  by (simp add: published_def frame_def)

lemma not_superseded: "g < - 1 \<Longrightarrow> \<not> is_superseded g (published_name g)"
proof -
  assume g: "g < - 1"
  have "unat (g + 3) = unat g + 3" if "unat g + 3 < 2 ^ 64"
    using that by (simp add: unat_word_ariths)
  then have "\<not> bounded_add g 3 \<le> g"
    using g [unfolded word_less_nat_alt] by (auto simp: bounded_add_def word_le_nat_alt)
  then show ?thesis by (simp add: is_superseded_def RETAINED_GENERATIONS_def)
qed

lemma not_abandoned: "\<not> is_abandoned pid (published_name g)"
  by (simp add: is_abandoned_def published_name_def starts_with_iff)

lemma published_prune:
  assumes "published c pid g s d d1" and g: "g < - 1"
  shows "wp (prune_superseded_generations pid g) (\<lambda>_. published c pid g s d) (\<lambda>_. published c pid g s d) d1"
proof -
  let ?G = "insert (g, published_name g) (set (generations (entries d)))"
  have "published c pid g s d d2" if f: "frame {n. is_superseded g n \<or> is_abandoned pid n} d1 d2"
    and k: "generations_ok (entries d1) \<Longrightarrow> generations_ok (entries d2)"
    and "set (generations (entries d1)) \<subseteq> ?G \<Longrightarrow> set (generations (entries d2)) \<subseteq> ?G" for d2
    using assms(1) that(2-) frame_get [OF f, of "published_name g"] not_superseded [OF g] not_abandoned
      frame_mono [OF f, of "committed_names pid g"]
    unfolding published_def committed_names_def by (auto intro: frame_trans)
  moreover have "frame {n. is_superseded g n \<or> is_abandoned pid n} d1 (snd (prune_superseded_generations pid g d1))"
    using prune_touches unfolding touches_def by blast
  ultimately show ?thesis
    unfolding wp_snd using prune_ok prune_generations [of ?G] unfolding keeps_def by blast
qed

lemma rename_publishes:
  assumes "dict_get (entries d) (staging_name pid g) = Some (DirNode (stored_files c s))"
  shows "published c pid g s d
    (d\<lparr>entries := idx_insert (published_name g) (DirNode (stored_files c s)) (removed (staging_name pid g) (entries d)), plan := fs\<rparr>)"
  using generations_insert [of "published_name g" "stored_files c s" "removed (staging_name pid g) (entries d)"]
    generations_removed [of "staging_name pid g" "entries d"]
  by (auto simp: published_def frame_def committed_names_def get_idx_insert generations_ok_insert generations_ok_removed
      stored_configs_ok)

lemma published_frame:
  assumes "frame {staging_name pid g} d d1" "published c pid g s d1 d2"
  shows "published c pid g s d d2"
proof -
  have "frame (committed_names pid g) d d1"
    using assms(1) by (rule frame_mono) (simp add: committed_names_def)
  moreover have "generations_ok (entries d) \<Longrightarrow> generations_ok (entries d1)"
    by (rule generations_ok_frame [OF assms(1)]) auto
  moreover have "generations (entries d1) = generations (entries d)"
    by (rule generations_outside [of "{staging_name pid g}"]) (use assms(1) in \<open>auto simp: frame_def\<close>)
  ultimately show ?thesis
    using assms(2) unfolding published_def by (metis frame_trans)
qed

lemma publish_spec:
  assumes "dict_get (entries d) (staging_name pid g) = Some (DirNode [])"
  shows "wp (publish_generation c pid g s) (\<lambda>_. published c pid g s d) (\<lambda>_. frame {staging_name pid g} d) d"
proof -
  define st where "st = staging_name pid g"
  have files: "wp (andthen (for_each (\<lambda>(n, b). write_file n b) (snapshot_files c s)) (\<lambda>_. sync))
      (\<lambda>_ c'. entries c' = stored_files c s) (\<lambda>_ _. True) \<lparr>entries = [], plan = plan d\<rparr>"
    unfolding wp_simps
    by (rule wp_mono [OF write_files [OF snapshot_files_distinct]])
      (auto simp: sync_def stored_files_def intro!: wp_looking)
  have rename: "wp (andthen (rename_child st (published_name g)) (\<lambda>_. attempt sync))
      (\<lambda>_. published c pid g s d) (\<lambda>_. frame {st} d)
      (d\<lparr>entries := idx_insert st (DirNode (entries c')) (entries d), plan := plan c'\<rparr>)"
    if "entries c' = stored_files c s" for c' :: disk
    unfolding wp_simps
  proof (rule wp_rename_child)
    let ?d = "d\<lparr>entries := idx_insert st (DirNode (entries c')) (entries d), plan := plan c'\<rparr>"
    fix fs
    have d1: "frame {st} d ?d" by (simp add: frame_def)
    then show "frame {st} d (?d\<lparr>plan := fs\<rparr>)" for k :: io_kind by (simp add: frame_def)
    show "dict_get (entries ?d) st = Some (DirNode (stored_files c s))" by (simp add: get_idx_insert that)
    then have "published c pid g s d (?d\<lparr>entries := idx_insert (published_name g)
        (DirNode (stored_files c s)) (removed st (entries ?d)), plan := fs\<rparr>)"
      unfolding st_def by (intro published_frame [OF d1 [unfolded st_def]] rename_publishes)
    then show "wp sync (\<lambda>x. published c pid g s d) (\<lambda>e. published c pid g s d)
        (?d\<lparr>entries := idx_insert (published_name g) (DirNode (stored_files c s)) (removed st (entries ?d)), plan := fs\<rparr>)"
      unfolding sync_def by (intro wp_looking) (simp_all only: published_plan)
  qed
  show ?thesis
    unfolding publish_generation_def wp_andthen [of "in_child _ _"] st_def [symmetric]
    by (subst wp_in_child) (use assms in \<open>auto simp: st_def frame_def
      intro!: wp_mono [OF files] rename [unfolded st_def]\<close>)
qed

definition never_fails :: "('s, 'e, 'a) act \<Rightarrow> bool" where
  "never_fails f \<longleftrightarrow> (\<forall>d. wp f (\<lambda>_ _. True) (\<lambda>_ _. False) d)"

named_theorems total_intros

lemma never_fails_return [total_intros]: "never_fails (return x)"
  by (simp add: never_fails_def wp_simps)

lemma never_fails_attempt [total_intros]: "never_fails (attempt f)" "never_fails (ignoring f)"
  by (simp_all add: never_fails_def wp_simps wp_snd)

lemma never_fails_andthen [total_intros]:
  "never_fails f \<Longrightarrow> (\<And>x. never_fails (g x)) \<Longrightarrow> never_fails (andthen f g)"
  unfolding never_fails_def wp_simps by (blast intro: wp_mono)

lemma never_fails_for_each [total_intros]: "(\<And>x. never_fails (f x)) \<Longrightarrow> never_fails (for_each f xs)"
  by (induction xs) (auto intro: total_intros)

lemma never_fails_wp: "never_fails f \<Longrightarrow> wp f Q E d \<Longrightarrow> wp f Q E' d"
  unfolding never_fails_def wp_def by (force split: prod.splits sum.splits)

lemma retain_logo_pure: "pure (retain_logo g s synced)" "never_fails (retain_logo g s synced)"
  unfolding retain_logo_def Let_def
  by (simp_all add: pure_return never_fails_return) (intro impI pure_intros total_intros)+

lemma prune_never_fails: "never_fails (prune_superseded_generations pid g)"
proof -
  have each: "never_fails (for_each (\<lambda>(n, dir).
      if dir \<and> (is_superseded g n \<or> is_abandoned pid n) then ignoring (remove_child_tree n) else return ()) es)" for es
    by (rule never_fails_for_each, clarsimp) (intro conjI impI total_intros)
  show ?thesis
    unfolding prune_superseded_generations_def
    by (intro total_intros, split sum.split) (intro conjI allI impI total_intros each)
qed

lemma commit_spec:
  assumes g: "g < - 1"
  shows "wp (commit_with_generation_status c pid g s)
    (\<lambda>r d'. fst r = g \<and> published c pid g s d d') (\<lambda>_. frame {staging_name pid g} d) d"
proof -
  define st where "st = staging_name pid g"
  have finish: "wp (andthen (retain_logo g s synced) (\<lambda>debt. andthen (prune_superseded_generations pid g) (\<lambda>_. return (g, debt))))
      (\<lambda>r d'. fst r = g \<and> published c pid g s d d') (\<lambda>_. frame {st} d) d2"
    if "published c pid g s d d2" for d2 synced
  proof -
    have prune: "wp (prune_superseded_generations pid g) (\<lambda>_. published c pid g s d) E (d2\<lparr>plan := fs\<rparr>)" for E fs
      by (rule never_fails_wp [OF prune_never_fails published_prune [OF published_plan [THEN iffD2, OF that] g]])
    show ?thesis
      unfolding wp_simps
      by (rule never_fails_wp [OF retain_logo_pure(2), where E = "\<lambda>_ _. True"], rule wp_pure [OF retain_logo_pure(1)])
        (simp_all add: prune)
  qed
  have staged: "wp (attempt (publish_generation c pid g s))
      (\<lambda>r d'. case r of Inl _ \<Rightarrow> frame {st} d d' | Inr _ \<Rightarrow> published c pid g s d d') E d1"
    if "frame {st} d d1" "dict_get (entries d1) st = Some (DirNode [])" for d1 E
    unfolding wp_simps
    by (rule wp_mono [OF publish_spec])
      (use that in \<open>auto simp: st_def intro: published_frame frame_trans\<close>)
  have "wp (create_child st) (\<lambda>_ d1. frame {st} d d1 \<and> dict_get (entries d1) st = Some (DirNode [])) (\<lambda>_. frame {st} d) d"
    by (rule wp_create_child) (auto simp: frame_def get_idx_insert)
  moreover have remove: "wp (remove_child_tree st) (\<lambda>_. frame {st} d) (\<lambda>_. frame {st} d) d2" if "frame {st} d d2" for d2
    by (rule wp_touches [OF touches_remove_child_tree [of st "{st}"]]) (auto intro: frame_trans that)
  ultimately show ?thesis
    unfolding commit_with_generation_status_def st_def [symmetric] wp_andthen [of "create_child st"]
  proof (elim wp_mono)
    fix d1
    assume "frame {st} d d1 \<and> dict_get (entries d1) st = Some (DirNode [])"
    then have "wp (attempt (publish_generation c pid g s))
        (\<lambda>r d'. case r of Inl _ \<Rightarrow> frame {st} d d' | Inr _ \<Rightarrow> published c pid g s d d') E d1" for E
      by (intro staged) auto
    then show "wp (andthen (attempt (publish_generation c pid g s)) (\<lambda>published. case published of
          Inl e \<Rightarrow> andthen (remove_child_tree st) (\<lambda>_. throw e)
        | Inr synced \<Rightarrow> andthen (retain_logo g s synced)
            (\<lambda>debt. andthen (prune_superseded_generations pid g) (\<lambda>_. return (g, debt)))))
        (\<lambda>r d'. fst r = g \<and> published c pid g s d d') (\<lambda>_. frame {st} d) d1"
      unfolding wp_andthen [of "attempt _"]
    proof (rule wp_mono)
      fix r :: "io_kind + io_kind + unit" and d2
      assume r: "case r of Inl _ \<Rightarrow> frame {st} d d2 | Inr _ \<Rightarrow> published c pid g s d d2"
      have "wp (andthen (remove_child_tree st) (\<lambda>_. throw e)) Q (\<lambda>_. frame {st} d) d2" if "frame {st} d d2" for e Q
        unfolding wp_simps by (rule remove [OF that])
      then show "wp (case r of
            Inl e \<Rightarrow> andthen (remove_child_tree st) (\<lambda>_. throw e)
          | Inr synced \<Rightarrow> andthen (retain_logo g s synced)
              (\<lambda>debt. andthen (prune_superseded_generations pid g) (\<lambda>_. return (g, debt))))
          (\<lambda>r d'. fst r = g \<and> published c pid g s d d') (\<lambda>_. frame {st} d) d2"
        using r by (auto split: sum.splits intro: finish)
    qed
  qed auto
qed

section \<open>What is loaded afterwards\<close>

definition ids_below :: "nat \<Rightarrow> folder \<Rightarrow> bool" where
  "ids_below k es \<longleftrightarrow> (\<forall>(i, n)\<in>set (generations es). unat i < k)"

lemma by_newest_hd:
  assumes "x \<in> set gens" "\<forall>y\<in>set gens. y \<noteq> x \<longrightarrow> fst y < fst x"
  shows "\<exists>rest. by_newest gens = x # rest"
proof -
  let ?s = "sort_key fst gens"
  have ne: "?s \<noteq> []" using assms(1) by (cases gens) auto
  obtain i where i: "i < length ?s" "?s ! i = x" using assms(1) by (metis in_set_conv_nth set_sort)
  have "fst x \<le> fst (last ?s)"
    using i ne sorted_nth_mono [of "map fst ?s" i "length ?s - 1"] by (simp add: last_conv_nth del: length_sort)
  moreover have "last ?s \<in> set gens" using ne by (metis last_in_set set_sort)
  ultimately have "last ?s = x" using assms(2) by (meson leD)
  then have "hd (rev ?s) = x" using ne by (simp add: hd_rev)
  then show ?thesis using ne by (metis by_newest_def list.collapse rev_is_Nil_conv)
qed

lemma by_newest_max: "(i, n) \<in> set gens \<Longrightarrow> by_newest gens = (j, m) # rest \<Longrightarrow> i \<le> j"
proof -
  assume i: "(i, n) \<in> set gens" and b: "by_newest gens = (j, m) # rest"
  have "sorted (map fst (rev (by_newest gens)))" by (simp add: by_newest_def)
  moreover have "(i, n) \<in> set (rev (by_newest gens))" using i by (simp add: by_newest_def)
  ultimately show ?thesis unfolding b by (auto simp: sorted_append)
qed

lemma next_generation_bound:
  assumes "ids_below k es" "k < 2 ^ 64 - 1"
  shows "\<forall>(i, n)\<in>set (generations es). i < next_generation (generations es)"
    and "unat (next_generation (generations es)) \<le> max k 1" and "0 < unat (next_generation (generations es))"
proof -
  let ?gens = "generations es"
  define h where "h = (case by_newest ?gens of [] \<Rightarrow> 0 | (g, _) # _ \<Rightarrow> g)"
  have top: "i \<le> h" if "(i, n) \<in> set ?gens" for i n
  proof (cases "by_newest ?gens")
    case Nil
    then have "?gens = []" by (metis by_newest_def set_empty set_rev set_sort)
    then show ?thesis using that by simp
  next
    case (Cons gm rest)
    then show ?thesis using by_newest_max [OF that, of "fst gm" "snd gm" rest] by (cases gm) (auto simp: h_def)
  qed
  have h: "unat h < k \<or> h = 0"
  proof (cases "by_newest ?gens")
    case (Cons gm rest)
    then have "gm \<in> set ?gens" by (metis by_newest_def list.set_intros(1) set_rev set_sort)
    then show ?thesis using assms(1) Cons by (auto simp: ids_below_def h_def)
  qed (simp add: h_def)
  then have "unat h + 1 < 2 ^ 64" using assms(2) by auto
  then have n: "unat (next_generation ?gens) = unat h + 1"
    unfolding next_generation_def h_def [symmetric]
    by (auto simp: bounded_add_def unat_word_ariths max_def word_le_nat_alt)
  show "\<forall>(i, n)\<in>set ?gens. i < next_generation ?gens"
    using top n by (fastforce simp: word_less_nat_alt word_le_nat_alt)
  show "unat (next_generation ?gens) \<le> max k 1" "0 < unat (next_generation ?gens)"
    using n h by auto
qed

lemma published_current:
  assumes p: "published c pid g s d d'" and ids: "\<forall>(i, n)\<in>set (generations (entries d)). i < g"
    and "generations_ok (entries d)" and "loaded c (stored_files c s) = Some t"
  shows "current_of c (entries d') = Some (g, t)"
proof -
  have get: "dict_get (entries d') (published_name g) = Some (DirNode (stored_files c s))"
    using p by (simp add: published_def)
  then have "(g, published_name g) \<in> set (generations (entries d'))"
    by (auto simp: in_generations dest!: map_of_SomeD)
  moreover have "\<forall>y\<in>set (generations (entries d')). y \<noteq> (g, published_name g) \<longrightarrow> fst y < g"
  proof
    fix y assume "y \<in> set (generations (entries d'))"
    then have "y \<in> insert (g, published_name g) (set (generations (entries d)))"
      using p unfolding published_def by blast
    then show "y \<noteq> (g, published_name g) \<longrightarrow> fst y < g" using ids by (cases y) auto
  qed
  ultimately obtain rest where "by_newest (generations (entries d')) = (g, published_name g) # rest"
    using by_newest_hd [of "(g, published_name g)"] by auto
  then show ?thesis
    using get assms(4) by (simp add: current_of_def child_def)
qed

lemma published_below:
  "published c pid g s d d' \<Longrightarrow> ids_below k (entries d) \<Longrightarrow> unat g < k' \<Longrightarrow> k \<le> k' \<Longrightarrow> ids_below k' (entries d')"
proof -
  assume p: "published c pid g s d d'" and k: "ids_below k (entries d)" "unat g < k'" "k \<le> k'"
  have "set (generations (entries d')) \<subseteq> insert (g, published_name g) (set (generations (entries d)))"
    using p by (simp add: published_def)
  moreover have "\<forall>y\<in>insert (g, published_name g) (set (generations (entries d))). unat (fst y) < k'"
    using k by (auto simp: ids_below_def)
  ultimately have "\<forall>y\<in>set (generations (entries d')). unat (fst y) < k'" by blast
  then show ?thesis unfolding ids_below_def by auto
qed

end
