(* ===== verification/Profile_Store.thy ===== *)
theory Profile_Store
  imports Snapshot_Store Std_Io
begin

text \<open>
  \<open>crates/multicore-core/src/profile.rs\<close>: the saved subscriptions. The store keeps an index of
  profiles in memory and in \<open>index.json\<close>, and a directory of generations per profile. Every operation holds
  the index lock, so operations follow each other. The random bytes of new identifiers are a list of
  draws, \<open>None\<close> when the system gives none; drawing from an empty list fails too.
\<close>

section \<open>Profile identifiers\<close>

definition is_lower_hex :: "char \<Rightarrow> bool" where
  "is_lower_hex b \<longleftrightarrow> is_ascii_digit b \<or> (CHR ''a'' \<le> b \<and> b \<le> CHR ''f'')"

definition is_valid_profile_id :: "string \<Rightarrow> bool" where
  "is_valid_profile_id value \<longleftrightarrow>
     length value = 36 \<and>
     list_all (\<lambda>(i, b). if i \<in> {8, 13, 18, 23} then b = CHR ''-'' else is_lower_hex b) (enumerate 0 value) \<and>
     value ! 14 = CHR ''4'' \<and> value ! 19 \<in> {CHR ''8'', CHR ''9'', CHR ''a'', CHR ''b''}"

definition hex_digit :: "nat \<Rightarrow> char" where
  "hex_digit n = (if n < 10 then char_of (48 + n) else char_of (87 + n))"

definition hex_byte :: "u8 \<Rightarrow> string" where
  "hex_byte b = [hex_digit (unat b div 16), hex_digit (unat b mod 16)]"

unbundle bit_operations_syntax

definition version_bits :: "u8 list \<Rightarrow> u8 list" where
  "version_bits bytes = bytes[6 := (bytes ! 6 AND 0x0f) OR 0x40, 8 := (bytes ! 8 AND 0x3f) OR 0x80]"

definition format_id :: "u8 list \<Rightarrow> string" where
  "format_id bytes =
     (let h = (\<lambda>i n. concat (map hex_byte (take n (drop i bytes))))
      in h 0 4 @ ''-'' @ h 4 2 @ ''-'' @ h 6 2 @ ''-'' @ h 8 2 @ ''-'' @ h 10 6)"

definition generate_id :: "u8 list \<Rightarrow> string" where
  "generate_id bytes = format_id (version_bits bytes)"

section \<open>The index and errors\<close>

definition MAX_PROFILES :: nat where "MAX_PROFILES = 100"
definition MAX_PROFILE_INDEX_BYTES :: nat where "MAX_PROFILE_INDEX_BYTES = 128 * 1024"
definition INDEX_SCHEMA_VERSION :: u32 where "INDEX_SCHEMA_VERSION = 1"
definition INDEX_FILE :: string where "INDEX_FILE = ''index.json''"
definition INDEX_TEMP_FILE :: string where "INDEX_TEMP_FILE = ''index.json.tmp''"
definition SERVICE_LOGO_PREFIX :: string where "SERVICE_LOGO_PREFIX = ''logo-''"

record profile_index_entry =
  entry_id :: string
  created_at_unix :: u64

record profile_index =
  schema_version :: u32
  profiles :: "profile_index_entry list"
  active_id :: "string option"

datatype profile_error =
    Io io_kind
  | SnapshotFailed io_kind
  | InvalidIndex
  | LimitReached
  | Locked
  | ProfileNotFound string
  | Unavailable string
  | CleanupDebt string bool io_kind
  | IndexMaintenanceDebt string io_kind
  | PostCommitRead string profile_error
  | SelectionMaintenanceDebt string io_kind
  | InvalidSelection

fun mutation_committed :: "profile_error \<Rightarrow> bool" where
  "mutation_committed (IndexMaintenanceDebt _ _) = True"
| "mutation_committed (SelectionMaintenanceDebt _ _) = True"
| "mutation_committed (PostCommitRead _ _) = True"
| "mutation_committed (CleanupDebt _ committed _) = committed"
| "mutation_committed _ = False"

definition ids_of :: "profile_index \<Rightarrow> string list" where
  "ids_of idx = map entry_id (profiles idx)"

definition validate_index :: "profile_index \<Rightarrow> profile_error + unit" where
  "validate_index idx =
     (if schema_version idx \<noteq> INDEX_SCHEMA_VERSION then Inl InvalidIndex
      else if length (profiles idx) > MAX_PROFILES then Inl InvalidIndex
      else if \<not> distinct (ids_of idx) then Inl InvalidIndex
      else if (profiles idx = []) \<noteq> (active_id idx = None) then Inl InvalidIndex
      else case active_id idx of
        Some a \<Rightarrow> if a \<notin> set (ids_of idx) then Inl InvalidIndex else Inr ()
      | None \<Rightarrow> Inr ())"

text \<open>The JSON texts of \<open>serde_json\<close>, and SHA-256.\<close>

record store_codec =
  snapshots :: codec
  encode_index :: "profile_index \<Rightarrow> string"
  decode_index :: "string \<Rightarrow> profile_index option"
  sha256 :: "string \<Rightarrow> string"

text \<open>A \<open>ProfileId\<close> in the text has to be a valid identifier.\<close>

definition parse_index :: "store_codec \<Rightarrow> string \<Rightarrow> profile_error + profile_index" where
  "parse_index c bytes =
     (case decode_index c bytes of
        None \<Rightarrow> Inl InvalidIndex
      | Some idx \<Rightarrow>
          if list_all is_valid_profile_id (ids_of idx) \<and> pred_option is_valid_profile_id (active_id idx)
          then Inr idx else Inl InvalidIndex)"

section \<open>The store\<close>

record store = disk +
  indexed :: profile_index
  maintenance_debt :: bool
  rolls :: "u8 list option list"

type_synonym 'a op = "store \<Rightarrow> (profile_error + 'a) \<times> store"

definition with_index :: "(profile_index \<Rightarrow> 'a op) \<Rightarrow> 'a op" where
  "with_index f s = f (indexed s) s"

definition put_index :: "profile_index \<Rightarrow> unit op" where
  "put_index idx s = (Inr (), s\<lparr>indexed := idx\<rparr>)"

definition owe_maintenance :: "unit op" where
  "owe_maintenance s = (Inr (), s\<lparr>maintenance_debt := True\<rparr>)"

definition profile_entry_ids :: "string list op" where
  "profile_entry_ids =
     andthen (map_error Io list_entries) (\<lambda>listing. return (sort (filter is_valid_profile_id (map fst listing))))"

definition occupied_profile_slots :: "nat op" where
  "occupied_profile_slots =
     andthen profile_entry_ids (\<lambda>ids. with_index (\<lambda>idx. return (length (remdups (ids_of idx @ ids)))))"

text \<open>\<open>Iterator::position\<close>\<close>

fun first_at :: "('a \<Rightarrow> bool) \<Rightarrow> 'a list \<Rightarrow> nat option" where
  "first_at P [] = None"
| "first_at P (x # xs) = (if P x then Some 0 else map_option Suc (first_at P xs))"

definition require_entry :: "profile_index \<Rightarrow> string \<Rightarrow> nat op" where
  "require_entry idx ident =
     (case first_at (\<lambda>e. entry_id e = ident) (profiles idx) of
        Some n \<Rightarrow> return n
      | None \<Rightarrow> throw (ProfileNotFound ident))"

definition open_profile :: "string \<Rightarrow> unit op" where
  "open_profile ident =
     map_error (\<lambda>k. if k \<in> {NotFound, BadData, LinkLoop} then Unavailable ident else Io k) (open_child ident)"

definition load_profile :: "store_codec \<Rightarrow> string \<Rightarrow> (u64 \<times> snapshot) op" where
  "load_profile c ident =
     andthen (open_profile ident) (\<lambda>_.
     andthen (map_error SnapshotFailed (in_child ident (open_capability (snapshots c)))) (\<lambda>(current, _).
       case current of None \<Rightarrow> throw (Unavailable ident) | Some gs \<Rightarrow> return gs))"

definition remove_profile_directory :: "string \<Rightarrow> ('s, io_kind, unit) act" where
  "remove_profile_directory ident = andthen (remove_child_tree ident) (\<lambda>_. sync)"

datatype index_commit = Clean | MaintenanceDebt io_kind

definition write_index :: "string \<Rightarrow> ('s, io_kind, index_commit) act" where
  "write_index bytes =
     andthen (file_metadata INDEX_TEMP_FILE) (\<lambda>meta.
     andthen (if meta \<noteq> None then remove_file INDEX_TEMP_FILE else return ()) (\<lambda>_.
     andthen (write_file INDEX_TEMP_FILE bytes) (\<lambda>_.
     andthen (replace_file INDEX_TEMP_FILE INDEX_FILE) (\<lambda>_.
     andthen (attempt sync) (\<lambda>r. return (case r of Inr _ \<Rightarrow> Clean | Inl k \<Rightarrow> MaintenanceDebt k))))))"

definition persist_index :: "store_codec \<Rightarrow> profile_index \<Rightarrow> index_commit op" where
  "persist_index c idx =
     andthen (lift_result (validate_index idx)) (\<lambda>_.
     andthen (attempt (write_index (encode_index c idx))) (\<lambda>r.
       case r of
         Inr commit \<Rightarrow> return commit
       | Inl e \<Rightarrow> andthen (map_error Io (remove_file INDEX_TEMP_FILE)) (\<lambda>_. throw (Io e))))"

section \<open>Adding, replacing, activating, deleting\<close>

fun pick_id_from :: "(string \<Rightarrow> bool) \<Rightarrow> u8 list option list \<Rightarrow> string op" where
  "pick_id_from taken [] s = (Inl (Io OtherKind), s\<lparr>rolls := []\<rparr>)"
| "pick_id_from taken (None # rs) s = (Inl (Io OtherKind), s\<lparr>rolls := rs\<rparr>)"
| "pick_id_from taken (Some bytes # rs) s =
     (let ident = generate_id bytes
      in if taken ident then pick_id_from taken rs s
         else case file_metadata ident s of
           (Inl k, s) \<Rightarrow> (Inl (Io k), s\<lparr>rolls := rs\<rparr>)
         | (Inr None, s) \<Rightarrow> (Inr ident, s\<lparr>rolls := rs\<rparr>)
         | (Inr (Some _), s) \<Rightarrow> pick_id_from taken rs s)"

definition pick_id :: "(string \<Rightarrow> bool) \<Rightarrow> string op" where
  "pick_id taken s = pick_id_from taken (rolls s) s"

text \<open>A profile directory that did not become a profile is removed again.\<close>

definition abandon :: "string \<Rightarrow> profile_error \<Rightarrow> 'a op" where
  "abandon ident e =
     andthen (attempt (remove_profile_directory ident)) (\<lambda>r.
       case r of
         Inr _ \<Rightarrow> throw e
       | Inl k \<Rightarrow> andthen owe_maintenance (\<lambda>_. throw (CleanupDebt ident False k)))"

definition open_and_commit :: "store_codec \<Rightarrow> nat \<Rightarrow> string \<Rightarrow> snapshot \<Rightarrow> (u64 \<times> io_kind option) op" where
  "open_and_commit c pid ident snap =
     map_error SnapshotFailed (in_child ident
       (andthen (open_capability (snapshots c)) (\<lambda>(_, g). commit_with_generation_status (snapshots c) pid g snap)))"

definition store_snapshot :: "store_codec \<Rightarrow> nat \<Rightarrow> string \<Rightarrow> snapshot \<Rightarrow> io_kind option op" where
  "store_snapshot c pid ident snap =
     andthen (open_and_commit c pid ident snap) (\<lambda>(_, debt).
     andthen (load_profile c ident) (\<lambda>_. return debt))"

definition with_profile :: "string \<Rightarrow> u64 \<Rightarrow> bool \<Rightarrow> profile_index \<Rightarrow> profile_index" where
  "with_profile ident now activate idx =
     idx\<lparr>profiles := profiles idx @ [\<lparr>entry_id = ident, created_at_unix = now\<rparr>],
         active_id := if activate then Some ident else active_id idx\<rparr>"

definition publish_profile :: "store_codec \<Rightarrow> string \<Rightarrow> profile_index \<Rightarrow> io_kind option \<Rightarrow> string op" where
  "publish_profile c ident proposed snapshot_debt =
     andthen (attempt (persist_index c proposed)) (\<lambda>r.
       case r of
         Inl e \<Rightarrow> abandon ident e
       | Inr commit \<Rightarrow> andthen (put_index proposed) (\<lambda>_.
           case (case commit of MaintenanceDebt k \<Rightarrow> Some k | Clean \<Rightarrow> snapshot_debt) of
             None \<Rightarrow> return ident
           | Some k \<Rightarrow> andthen owe_maintenance (\<lambda>_. throw (IndexMaintenanceDebt ident k))))"

definition insert_profile :: "store_codec \<Rightarrow> nat \<Rightarrow> u64 \<Rightarrow> snapshot \<Rightarrow> bool \<Rightarrow> string op" where
  "insert_profile c pid now snap act = with_index (\<lambda>idx.
     andthen occupied_profile_slots (\<lambda>occupied.
     if occupied \<ge> MAX_PROFILES then throw LimitReached
     else
     andthen (pick_id (\<lambda>ident. ident \<in> set (ids_of idx))) (\<lambda>ident.
     andthen (map_error Io (create_child ident)) (\<lambda>_.
     andthen (attempt (store_snapshot c pid ident snap)) (\<lambda>result.
       case result of
         Inl e \<Rightarrow> abandon ident e
       | Inr snapshot_debt \<Rightarrow> publish_profile c ident (with_profile ident now act idx) snapshot_debt)))))"

definition create_profile :: "store_codec \<Rightarrow> nat \<Rightarrow> u64 \<Rightarrow> snapshot \<Rightarrow> string op" where
  "create_profile c pid now snap = insert_profile c pid now snap True"

definition add_profile :: "store_codec \<Rightarrow> nat \<Rightarrow> u64 \<Rightarrow> snapshot \<Rightarrow> string op" where
  "add_profile c pid now snap = insert_profile c pid now snap False"

definition REVISION_DOMAIN :: string where
  "REVISION_DOMAIN = ''multicore.catalog-revision.v1'' @ [CHR 0x00]"

definition catalog_revision :: "store_codec \<Rightarrow> string \<Rightarrow> u64 \<Rightarrow> u64" where
  "catalog_revision c ident physical_generation =
     of_nat (from_le_bytes (rev (take 8 (sha256 c
       (REVISION_DOMAIN @ ident @ rev (le_bytes 8 (unat physical_generation))))))) OR push_bit 63 1"

definition replace_profile_loaded :: "store_codec \<Rightarrow> nat \<Rightarrow> string \<Rightarrow> snapshot \<Rightarrow> (u64 \<times> u64 \<times> snapshot) op" where
  "replace_profile_loaded c pid ident snap = with_index (\<lambda>idx.
     andthen (require_entry idx ident) (\<lambda>_.
     andthen (open_profile ident) (\<lambda>_.
     andthen (open_and_commit c pid ident snap) (\<lambda>(generation, debt).
     andthen (map_error (PostCommitRead ident) (load_profile c ident)) (\<lambda>(reloaded_generation, reloaded).
     if reloaded_generation \<noteq> generation then throw (PostCommitRead ident (Unavailable ident))
     else case debt of
       Some k \<Rightarrow> andthen owe_maintenance (\<lambda>_. throw (IndexMaintenanceDebt ident k))
     | None \<Rightarrow> return (catalog_revision c ident generation, generation, reloaded))))))"

definition activate :: "store_codec \<Rightarrow> string \<Rightarrow> snapshot op" where
  "activate c ident = with_index (\<lambda>idx.
     andthen (require_entry idx ident) (\<lambda>_.
     andthen (load_profile c ident) (\<lambda>(_, snap).
     if active_id idx = Some ident then return snap
     else andthen (persist_index c (idx\<lparr>active_id := Some ident\<rparr>)) (\<lambda>commit.
          andthen (put_index (idx\<lparr>active_id := Some ident\<rparr>)) (\<lambda>_.
          case commit of
            Clean \<Rightarrow> return snap
          | MaintenanceDebt k \<Rightarrow> andthen owe_maintenance (\<lambda>_. throw (IndexMaintenanceDebt ident k)))))))"

definition service_logo_names :: "string \<Rightarrow> string list op" where
  "service_logo_names ident =
     andthen (attempt list_entries) (\<lambda>r. return (filter (\<lambda>name.
       case strip_prefix (SERVICE_LOGO_PREFIX @ ident) name of
         Some rest \<Rightarrow> starts_with ''-'' rest \<or> rest = ''.tmp''
       | None \<Rightarrow> False) (case r of Inr listing \<Rightarrow> map fst listing | Inl _ \<Rightarrow> [])))"

definition remove_service_logos :: "string \<Rightarrow> unit op" where
  "remove_service_logos ident =
     andthen (service_logo_names ident) (for_each (\<lambda>name. ignoring (remove_file name)))"

definition without_profile :: "nat \<Rightarrow> string \<Rightarrow> profile_index \<Rightarrow> profile_index" where
  "without_profile position ident idx =
     (let ps = take position (profiles idx) @ drop (Suc position) (profiles idx)
      in idx\<lparr>profiles := ps,
             active_id := if active_id idx = Some ident
               then (if position < length ps then Some (entry_id (ps ! position))
                     else if ps = [] then None else Some (entry_id (last ps)))
               else active_id idx\<rparr>)"

text \<open>The profile that becomes active has to load.\<close>

definition successor_loads :: "store_codec \<Rightarrow> string \<Rightarrow> profile_index \<Rightarrow> profile_index \<Rightarrow> unit op" where
  "successor_loads c ident idx proposed =
     (case active_id proposed of
        Some next_active \<Rightarrow>
          if active_id idx = Some ident then andthen (load_profile c next_active) (\<lambda>_. return ()) else return ()
      | None \<Rightarrow> return ())"

definition clear_profile :: "string \<Rightarrow> profile_index \<Rightarrow> string option op" where
  "clear_profile ident proposed =
     andthen (remove_service_logos ident) (\<lambda>_.
     andthen (attempt (remove_profile_directory ident)) (\<lambda>r.
       case r of
         Inr _ \<Rightarrow> return (active_id proposed)
       | Inl k \<Rightarrow> andthen owe_maintenance (\<lambda>_. throw (CleanupDebt ident True k))))"

definition delete :: "store_codec \<Rightarrow> string \<Rightarrow> string option op" where
  "delete c ident = with_index (\<lambda>idx.
     andthen (require_entry idx ident) (\<lambda>position.
     (let proposed = without_profile position ident idx
      in andthen (successor_loads c ident idx proposed) (\<lambda>_.
         andthen (persist_index c proposed) (\<lambda>commit.
         andthen (put_index proposed) (\<lambda>_.
         case commit of
           MaintenanceDebt k \<Rightarrow> andthen owe_maintenance (\<lambda>_. throw (IndexMaintenanceDebt ident k))
         | Clean \<Rightarrow> clear_profile ident proposed))))))"

end
