(* ===== verification/Profile_Logic.thy ===== *)
theory Profile_Logic
  imports Snapshot_Logic Profile_Store
begin

text \<open>
  What each operation of \<open>Profile_Store\<close> does for every plan of faults.
\<close>

section \<open>Identifiers\<close>

lemma hex_digit_ok: "n < 16 \<Longrightarrow> is_lower_hex (hex_digit n)"
  using is_ascii_digit_char [of n] by (auto simp: is_lower_hex_def hex_digit_def digit_char_def less_eq_char_def)

lemma hex_byte_ok: "is_lower_hex (hex_digit (unat (b :: u8) div 16))" "is_lower_hex (hex_digit (unat b mod 16))"
  using unat_bound [of b] by (auto intro: hex_digit_ok)

lemma unat_or_and: "y AND m = 0 \<Longrightarrow> unat m + unat y < 256 \<Longrightarrow> unat ((b AND m) OR y :: u8) = unat (b AND m) + unat y"
proof -
  assume y: "y AND m = 0" and small: "unat m + unat y < 256"
  have "(b AND m) AND y = 0" by (metis and.assoc and.commute bit.conj_zero_right y)
  then have "(b AND m) OR y = (b AND m) + y" using word_plus_and_or [of "b AND m" y] by simp
  moreover have "unat (b AND m) \<le> unat m" using word_and_le1 [of b m] by (simp add: word_le_nat_alt)
  ultimately show ?thesis using small by (simp add: unat_word_ariths)
qed

lemma high_nibble:
  "unat ((b AND 15) OR 64 :: u8) div 16 = 4" "unat ((b AND 63) OR 128 :: u8) div 16 \<in> {8, 9, 10, 11}"
proof -
  have "unat (b AND 15) \<le> 15" "unat (b AND 63) \<le> 63"
    using word_and_le1 [of b 15] word_and_le1 [of b 63] by (simp_all add: word_le_nat_alt)
  then show "unat ((b AND 15) OR 64 :: u8) div 16 = 4" "unat ((b AND 63) OR 128 :: u8) div 16 \<in> {8, 9, 10, 11}"
    using unat_or_and [of 64 15 b] unat_or_and [of 128 63 b] by auto
qed

lemma generate_id_valid:
  assumes "length bytes = 16" shows "is_valid_profile_id (generate_id bytes)"
proof -
  obtain b0 b1 b2 b3 b4 b5 b6 b7 b8 b9 b10 b11 b12 b13 b14 b15
    where b: "bytes = [b0, b1, b2, b3, b4, b5, b6, b7, b8, b9, b10, b11, b12, b13, b14, b15]"
    using assms by (auto simp: numeral_eq_Suc length_Suc_conv)
  have "hex_digit 4 = CHR ''4''" "hex_digit 8 = CHR ''8''" "hex_digit 9 = CHR ''9''" "hex_digit 10 = CHR ''a''"
    "hex_digit 11 = CHR ''b''"
    by (simp_all add: hex_digit_def char_of_def bit_0)
  moreover have "is_lower_hex (CHR ''4'')" by (simp add: is_lower_hex_def is_ascii_digit_def)
  ultimately show ?thesis
    using high_nibble(1) [of b6] high_nibble(2) [of b8]
    unfolding is_valid_profile_id_def generate_id_def format_id_def version_bits_def b
    by (auto simp: hex_byte_def hex_byte_ok Let_def)
qed

lemma valid_id_names: "is_valid_profile_id n \<Longrightarrow> n \<notin> {INDEX_FILE, INDEX_TEMP_FILE}"
  by (auto simp: is_valid_profile_id_def INDEX_FILE_def INDEX_TEMP_FILE_def)

section \<open>Actions that only look\<close>

lemma pure_optional_file [pure_intros]: "pure (optional_file n k)"
  unfolding optional_file_def by (intro pure_intros)

lemma pure_load_generation [pure_intros]: "pure (load_generation c)"
  unfolding load_generation_def by (intro pure_intros)

lemma pure_check_config [pure_intros]: "pure (check_config n)"
  unfolding check_config_def by (intro pure_intros)

lemma pure_newest_loadable [pure_intros]: "pure (newest_loadable c gens)"
  by (induction gens) (auto intro!: pure_intros)

lemma pure_generation_directories [pure_intros]: "pure generation_directories"
  unfolding generation_directories_def by (intro pure_intros)

lemma pure_open_capability [pure_intros]: "pure (open_capability c)"
  unfolding open_capability_def by (intro pure_intros)

lemma pure_load_profile [pure_intros]: "pure (load_profile c p)"
  unfolding load_profile_def open_profile_def by (intro pure_intros)

lemma pure_with_index [pure_intros]: "(\<And>idx. pure (f idx)) \<Longrightarrow> pure (with_index f)"
  by (simp add: pure_def with_index_def)

lemma pure_require_entry [pure_intros]: "pure (require_entry idx p)"
  unfolding require_entry_def by (intro pure_intros)

lemma pure_occupied [pure_intros]: "pure occupied_profile_slots"
  unfolding occupied_profile_slots_def profile_entry_ids_def by (intro pure_intros)

section \<open>One profile's directory\<close>

text \<open>What loading shows of a directory of generations does not depend on more than this.\<close>

definition same_generations :: "folder \<Rightarrow> folder \<Rightarrow> bool" where
  "same_generations es es' \<longleftrightarrow>
     (\<forall>c. current_of c es' = current_of c es) \<and> generations es' = generations es \<and>
     (generations_ok es \<longrightarrow> generations_ok es')"

definition profile_ok :: "codec \<Rightarrow> nat \<Rightarrow> folder \<Rightarrow> bool" where
  "profile_ok c k es \<longleftrightarrow> generations_ok es \<and> ids_below k es \<and> current_of c es \<noteq> None"

lemma same_generations_refl [simp]: "same_generations es es"
  by (simp add: same_generations_def)

lemma same_generations_ok: "same_generations es es' \<Longrightarrow> profile_ok c k es \<Longrightarrow> profile_ok c k es'"
  by (simp add: same_generations_def profile_ok_def ids_below_def)

lemma profile_ok_mono: "profile_ok c k es \<Longrightarrow> k \<le> k' \<Longrightarrow> profile_ok c k' es"
  by (force simp: profile_ok_def ids_below_def)

lemma frame_same_generations:
  assumes "frame N d d'" "\<And>n. generation_id n \<noteq> None \<Longrightarrow> n \<notin> N"
  shows "same_generations (entries d) (entries d')"
  unfolding same_generations_def
proof (intro conjI allI impI)
  have same: "outside N (entries d') = outside N (entries d)" using assms(1) by (simp add: frame_def)
  show "current_of c (entries d') = current_of c (entries d)" for c
    by (rule current_of_outside [where N = N]) (use assms(2) same in auto)
  show "generations (entries d') = generations (entries d)"
    by (rule generations_outside [where N = N]) (use assms(2) same in auto)
qed (rule generations_ok_frame [OF assms])

definition refreshed :: "codec \<Rightarrow> nat \<Rightarrow> snapshot \<Rightarrow> folder \<Rightarrow> bool" where
  "refreshed c k t es \<longleftrightarrow> generations_ok es \<and> ids_below k es \<and> (\<exists>g. current_of c es = Some (g, t))"

lemma open_capability_next:
  "wp (open_capability c) (\<lambda>(_, g) d'. g = next_generation (generations (entries d)) \<and> (\<exists>fs. d' = d\<lparr>plan := fs\<rparr>))
     (\<lambda>_ d'. \<exists>fs. d' = d\<lparr>plan := fs\<rparr>) d"
proof -
  have gens: "wp generation_directories
      (\<lambda>gens d'. gens = generations (entries d) \<and> (\<exists>fs. d' = d\<lparr>plan := fs\<rparr>)) (\<lambda>_ d'. \<exists>fs. d' = d\<lparr>plan := fs\<rparr>) d"
    unfolding generation_directories_def wp_simps list_entries_def
    by (rule wp_looking, blast, rule wp_pure [OF pure_for_each])
      (auto simp: generations_def intro!: pure_intros)
  have rest: "wp (andthen (for_each (\<lambda>(g, n). in_child n (for_each check_config CONFIG_FILES)) gens) (\<lambda>_.
      andthen (newest_loadable c (by_newest gens)) (\<lambda>current. return (current, next_generation gens))))
      (\<lambda>(_, g) d'. g = next_generation gens \<and> (\<exists>fs. d' = d\<lparr>plan := fs\<rparr>)) (\<lambda>_ d'. \<exists>fs. d' = d\<lparr>plan := fs\<rparr>) d1"
    if "d1 = d\<lparr>plan := fs1\<rparr>" for d1 fs1 gens
    unfolding wp_simps that
    by (rule wp_pure [OF pure_for_each], (auto intro!: pure_intros)[1], rule wp_pure [OF pure_newest_loadable]) auto
  show ?thesis
    unfolding open_capability_def wp_andthen [of generation_directories]
    by (rule wp_mono [OF gens]) (auto intro: rest)
qed

lemma open_and_commit_folder:
  assumes ok: "generations_ok (entries d)" "ids_below k (entries d)" "1 \<le> k" "k < 2 ^ 64 - 1"
    and t: "loaded c (stored_files c snap) = Some t"
  shows "wp (andthen (open_capability c) (\<lambda>(_, g). commit_with_generation_status c pid g snap))
    (\<lambda>r d'. refreshed c (Suc k) t (entries d') \<and> current_of c (entries d') = Some (fst r, t))
    (\<lambda>_ d'. same_generations (entries d) (entries d')) d"
  unfolding wp_andthen [of "open_capability c"]
proof (rule wp_mono [OF open_capability_next])
  fix x :: "(u64 \<times> snapshot) option \<times> u64" and d1
  assume "(case x of (_, g) \<Rightarrow> \<lambda>d'. g = next_generation (generations (entries d)) \<and> (\<exists>fs. d' = d\<lparr>plan := fs\<rparr>)) d1"
  then obtain fs where g: "snd x = next_generation (generations (entries d))" and d1: "d1 = d\<lparr>plan := fs\<rparr>"
    by (auto simp: case_prod_beta)
  let ?g = "next_generation (generations (entries d))"
  note bound = next_generation_bound [OF ok(2,4)]
  have less: "?g < - 1"
  proof -
    have "unat (- 1 :: u64) = 2 ^ 64 - 1" by (simp add: unsigned_minus_1_eq_mask mask_eq_exp_minus_1)
    then have "unat ?g < unat (- 1 :: u64)" using bound(2) ok(3,4) by simp
    then show ?thesis by (simp only: word_less_nat_alt)
  qed
  show "wp (case x of (_, g) \<Rightarrow> commit_with_generation_status c pid g snap)
    (\<lambda>r d'. refreshed c (Suc k) t (entries d') \<and> current_of c (entries d') = Some (fst r, t))
    (\<lambda>_ d'. same_generations (entries d) (entries d')) d1"
    unfolding wp_prod g
  proof (rule wp_mono [OF commit_spec [OF less]])
    fix r d'
    assume r: "fst r = ?g \<and> published c pid ?g snap d1 d'"
    have "current_of c (entries d') = Some (?g, t)"
      by (rule published_current [of _ pid _ snap d1]) (use r d1 bound(1) ok t in auto)
    moreover have "ids_below (Suc k) (entries d')"
      by (rule published_below [of c pid ?g snap d1 d' k]) (use r d1 bound(2) ok in auto)
    moreover have "generations_ok (entries d')" using r d1 ok by (simp add: published_def)
    ultimately show "refreshed c (Suc k) t (entries d') \<and> current_of c (entries d') = Some (fst r, t)"
      using r by (auto simp: refreshed_def)
  next
    fix d'
    assume "frame {staging_name pid ?g} d1 d'"
    then have "same_generations (entries d1) (entries d')" by (rule frame_same_generations) auto
    then show "same_generations (entries d) (entries d')" by (simp add: d1)
  qed
qed auto

section \<open>The store's directory\<close>

definition same_profile :: "folder \<Rightarrow> folder \<Rightarrow> string \<Rightarrow> bool" where
  "same_profile es es' p \<longleftrightarrow> dict_get es' p = dict_get es p \<or>
     (\<exists>sub sub'. dict_get es p = Some (DirNode sub) \<and> dict_get es' p = Some (DirNode sub') \<and> same_generations sub sub')"

definition sframe :: "string set \<Rightarrow> store \<Rightarrow> store \<Rightarrow> bool" where
  "sframe N s s' \<longleftrightarrow>
     outside N (entries s') = outside N (entries s) \<and> (dict_inv (entries s) \<longrightarrow> dict_inv (entries s')) \<and>
     indexed s' = indexed s \<and> set (rolls s') \<subseteq> set (rolls s)"

lemma sframe_refl [simp]: "sframe N s s"
  by (simp add: sframe_def)

lemma sframe_trans: "sframe N a b \<Longrightarrow> sframe N b c \<Longrightarrow> sframe N a c"
  by (auto simp: sframe_def)

lemma sframe_mono: "sframe M a b \<Longrightarrow> M \<subseteq> N \<Longrightarrow> sframe N a b"
  unfolding sframe_def using outside_mono by blast

lemma sframe_get: "sframe N s s' \<Longrightarrow> n \<notin> N \<Longrightarrow> dict_get (entries s') n = dict_get (entries s) n"
  using get_outside [of n N "entries s"] get_outside [of n N "entries s'"] by (simp add: sframe_def)

lemma sframe_updates [simp]:
  "sframe N s (s'\<lparr>plan := fs\<rparr>) = sframe N s s'" "sframe N s (s'\<lparr>maintenance_debt := b\<rparr>) = sframe N s s'"
  by (simp_all add: sframe_def)

lemma frame_store: "frame N s s' \<Longrightarrow> sframe N s s'"
  by (cases s; cases s') (simp add: frame_def sframe_def)

lemma wp_sframe:
  assumes "touches N f" and "\<And>x s'. sframe N s s' \<Longrightarrow> Q x s'" and "\<And>e s'. sframe N s s' \<Longrightarrow> E e s'"
  shows "wp f Q E (s :: store)"
  by (rule wp_touches [OF assms(1)]) (rule assms(2) assms(3), erule frame_store)+

lemma wp_with_index [wp_simps]: "wp (with_index f) Q E = (\<lambda>s. wp (f (indexed s)) Q E s)"
  by (simp add: wp_def with_index_def fun_eq_iff)

lemma wp_put_index [wp_simps]: "wp (put_index idx) Q E = (\<lambda>s. Q () (s\<lparr>indexed := idx\<rparr>))"
  by (simp add: wp_def put_index_def fun_eq_iff)

lemma wp_owe [wp_simps]: "wp owe_maintenance Q E = (\<lambda>s. Q () (s\<lparr>maintenance_debt := True\<rparr>))"
  by (simp add: wp_def owe_maintenance_def fun_eq_iff)

lemma open_and_commit_spec:
  assumes sub: "dict_get (entries s) p = Some (DirNode sub)"
    and ok: "generations_ok sub" "ids_below k sub" "1 \<le> k" "k < 2 ^ 64 - 1"
    and t: "loaded (snapshots c) (stored_files (snapshots c) snap) = Some t"
  shows "wp (open_and_commit c pid p snap)
    (\<lambda>r s'. sframe {p} s s' \<and> (\<exists>sub'. dict_get (entries s') p = Some (DirNode sub') \<and>
       refreshed (snapshots c) (Suc k) t sub' \<and> current_of (snapshots c) sub' = Some (fst r, t)))
    (\<lambda>e s'. \<not> mutation_committed e \<and> sframe {p} s s' \<and>
       (\<exists>sub'. dict_get (entries s') p = Some (DirNode sub') \<and> same_generations sub sub')) s"
  unfolding open_and_commit_def wp_map_error wp_in_child [OF sub]
  by (rule wp_mono [OF open_and_commit_folder [where k = k and t = t]])
    (use ok t in \<open>auto simp: sframe_def get_idx_insert\<close>)

section \<open>The index file\<close>

lemma wp_replace_file:
  assumes "\<And>k fs. E k (d\<lparr>plan := fs\<rparr>)" and "dict_get (entries d) a = Some t"
    and "\<And>fs. Q () (d\<lparr>entries := idx_insert b t (removed a (entries d)), plan := fs\<rparr>)"
  shows "wp (replace_file a b) Q E d"
  unfolding replace_file_def rename_child_def [symmetric] by (rule wp_rename_child) (fact assms)+

lemma index_names: "INDEX_TEMP_FILE \<noteq> INDEX_FILE"
  by (simp add: INDEX_FILE_def INDEX_TEMP_FILE_def)

lemma write_index_spec:
  "wp (write_index bytes)
     (\<lambda>_ s'. sframe {INDEX_TEMP_FILE, INDEX_FILE} s s' \<and> dict_get (entries s') INDEX_FILE = Some (FileNode bytes))
     (\<lambda>_. sframe {INDEX_TEMP_FILE} s) s"
proof -
  let ?T = INDEX_TEMP_FILE
  have finish: "wp (andthen (replace_file ?T INDEX_FILE) (\<lambda>_. andthen (attempt sync)
        (\<lambda>r. return (case r of Inr _ \<Rightarrow> Clean | Inl k \<Rightarrow> MaintenanceDebt k))))
      (\<lambda>_ s'. sframe {?T, INDEX_FILE} s s' \<and> dict_get (entries s') INDEX_FILE = Some (FileNode bytes))
      (\<lambda>_. sframe {?T} s) s2"
    if "sframe {?T} s s2" "dict_get (entries s2) ?T = Some (FileNode bytes)" for s2
    unfolding wp_simps sync_def
    by (rule wp_replace_file [OF _ that(2)]; (intro wp_looking)?)
      (use that(1) outside_mono [of "{?T}" "{?T, INDEX_FILE}" "entries s2" "entries s"]
        in \<open>auto simp: sframe_def get_idx_insert\<close>)
  have renew: "wp (andthen (write_file ?T bytes) (\<lambda>_. andthen (replace_file ?T INDEX_FILE) (\<lambda>_. andthen (attempt sync)
        (\<lambda>r. return (case r of Inr _ \<Rightarrow> Clean | Inl k \<Rightarrow> MaintenanceDebt k)))))
      (\<lambda>_ s'. sframe {?T, INDEX_FILE} s s' \<and> dict_get (entries s') INDEX_FILE = Some (FileNode bytes))
      (\<lambda>_. sframe {?T} s) s1" if "sframe {?T} s s1" for s1
    unfolding wp_andthen [of "write_file _ _"]
    by (rule wp_write_file; (rule finish)?) (use that in \<open>auto simp: sframe_def get_idx_insert\<close>)
  have "touches {?T} (andthen (file_metadata ?T) (\<lambda>meta. if meta \<noteq> None then remove_file ?T else return ()))"
    by (intro touch_intros) simp
  then have "wp (andthen (file_metadata ?T) (\<lambda>meta. if meta \<noteq> None then remove_file ?T else return ()))
      (\<lambda>_. sframe {?T} s) (\<lambda>_. sframe {?T} s) s"
    by (rule wp_sframe)
  then show ?thesis
    unfolding write_index_def wp_andthen [of "file_metadata _"] wp_andthen [of "if _ then _ else _"]
    by (elim wp_mono) (auto elim!: wp_mono intro: renew)
qed

lemma persist_index_spec:
  "wp (persist_index c idx)
     (\<lambda>_ s'. validate_index idx = Inr () \<and> sframe {INDEX_TEMP_FILE, INDEX_FILE} s s' \<and>
        dict_get (entries s') INDEX_FILE = Some (FileNode (encode_index c idx)))
     (\<lambda>e s'. \<not> mutation_committed e \<and> sframe {INDEX_TEMP_FILE} s s') s"
proof -
  have clean: "wp (andthen (map_error Io (remove_file INDEX_TEMP_FILE)) (\<lambda>_. throw (Io e)))
      Q (\<lambda>e s'. \<not> mutation_committed e \<and> sframe {INDEX_TEMP_FILE} s s') s1"
    if "sframe {INDEX_TEMP_FILE} s s1" for e s1 and Q :: "index_commit \<Rightarrow> store \<Rightarrow> bool"
    unfolding wp_simps
    by (rule wp_sframe [of "{INDEX_TEMP_FILE}"]) (auto intro: touch_intros sframe_trans that)
  have valid: "\<not> mutation_committed e" if "validate_index idx = Inl e" for e
    using that by (auto simp: validate_index_def split: if_splits option.splits)
  show ?thesis
    unfolding persist_index_def wp_andthen [of "lift_result _"] wp_andthen [of "attempt _"] wp_lift wp_attempt
    by (auto split: sum.split simp: valid wp_return intro!: wp_mono [OF write_index_spec] clean)
qed

end
