(* ===== verification/Profile_Insert.thy ===== *)
theory Profile_Insert
  imports Profile_Logic
begin

text \<open>
  The mutations of the profile store: each leaves the index, the index file and every profile as they
  were, or it has taken effect, and \<open>mutation_committed\<close> of its error says which.
\<close>

section \<open>Unchanged stores\<close>

definition unchanged :: "store \<Rightarrow> store \<Rightarrow> bool" where
  "unchanged s s' \<longleftrightarrow>
     indexed s' = indexed s \<and> dict_get (entries s') INDEX_FILE = dict_get (entries s) INDEX_FILE \<and>
     (\<forall>p\<in>set (ids_of (indexed s)). same_profile (entries s) (entries s') p) \<and>
     (dict_inv (entries s) \<longrightarrow> dict_inv (entries s')) \<and> set (rolls s') \<subseteq> set (rolls s)"

definition rolls_ok :: "store \<Rightarrow> bool" where
  "rolls_ok s \<longleftrightarrow> (\<forall>bytes. Some bytes \<in> set (rolls s) \<longrightarrow> length bytes = 16)"

definition ids_ok :: "store \<Rightarrow> bool" where
  "ids_ok s \<longleftrightarrow> (\<forall>p\<in>set (ids_of (indexed s)). is_valid_profile_id p)"

lemma sframe_unchanged:
  assumes f: "sframe N s s'" and "INDEX_FILE \<notin> N" "N \<inter> set (ids_of (indexed s)) = {}"
  shows "unchanged s s'"
proof -
  have "same_profile (entries s) (entries s') p" if "p \<in> set (ids_of (indexed s))" for p
    using sframe_get [OF f, of p] assms(3) that by (auto simp: same_profile_def)
  then show ?thesis
    using f sframe_get [OF f assms(2)] by (simp add: unchanged_def sframe_def)
qed

lemma ids_names: "ids_ok s \<Longrightarrow> {INDEX_TEMP_FILE, INDEX_FILE} \<inter> set (ids_of (indexed s)) = {}"
  using valid_id_names unfolding ids_ok_def by blast

lemma outside_none [simp]: "outside {} es = es"
  by (simp add: outside_def)

section \<open>Parts of the mutations\<close>

lemma wp_true: "wp f (\<lambda>_ _. True) (\<lambda>_ _. True) d"
  by (simp add: wp_snd)

lemma load_profile_error: "wp (load_profile c p) (\<lambda>_ _. True) (\<lambda>e _. \<not> mutation_committed e) s"
  unfolding load_profile_def open_profile_def wp_simps
  by (rule wp_mono [OF wp_true], rule wp_mono [OF wp_true]) (simp_all add: wp_simps split: option.split)

lemma load_profile_spec:
  "wp (load_profile c p) (\<lambda>_ s'. \<exists>fs. s' = s\<lparr>plan := fs\<rparr>)
     (\<lambda>e s'. \<not> mutation_committed e \<and> (\<exists>fs. s' = s\<lparr>plan := fs\<rparr>)) s"
proof -
  have "wp (load_profile c p) (\<lambda>_ s'. \<exists>fs. s' = s\<lparr>plan := fs\<rparr>) (\<lambda>_ s'. \<exists>fs. s' = s\<lparr>plan := fs\<rparr>) s"
    using pure_load_profile unfolding pure_wp by blast
  then show ?thesis by (rule wp_mono [OF wp_conj [OF load_profile_error]]) auto
qed

lemma pick_id_from_spec:
  assumes "\<forall>bytes. Some bytes \<in> set rs \<longrightarrow> length bytes = 16" "set rs \<subseteq> set (rolls s0)" "sframe {} s0 s"
  shows "wp (pick_id_from taken rs)
    (\<lambda>p s'. \<not> taken p \<and> is_valid_profile_id p \<and> dict_get (entries s0) p = None \<and> sframe {} s0 s')
    (\<lambda>e s'. \<not> mutation_committed e \<and> sframe {} s0 s') s"
  using assms
proof (induction rs arbitrary: s)
  case (Cons r rs)
  show ?case
  proof (cases r)
    case None
    then show ?thesis using Cons.prems by (auto simp: wp_def sframe_def)
  next
    case (Some bytes)
    let ?p = "generate_id bytes"
    have valid: "is_valid_profile_id ?p" using Cons.prems(1) Some by (intro generate_id_valid) auto
    obtain x s1 where m: "file_metadata ?p s = (x, s1)" by fastforce
    then obtain fs where s1: "s1 = s\<lparr>plan := fs\<rparr>"
      using pure_reads(2) unfolding pure_def by (metis snd_conv)
    have absent: "dict_get (entries s) ?p = None" if "x = Inr None"
    proof -
      have "wp (file_metadata ?p) (\<lambda>r _. r = None \<longrightarrow> dict_get (entries s) ?p = None) (\<lambda>_ _. True) s"
        unfolding file_metadata_def by (rule wp_looking) auto
      then show ?thesis using m that by (auto simp: wp_def)
    qed
    have again: "wp (pick_id_from taken rs)
        (\<lambda>p s'. \<not> taken p \<and> is_valid_profile_id p \<and> dict_get (entries s0) p = None \<and> sframe {} s0 s')
        (\<lambda>e s'. \<not> mutation_committed e \<and> sframe {} s0 s') s2" if "s2 \<in> {s, s1}" for s2
      by (rule Cons.IH) (use Cons.prems that s1 in auto)
    show ?thesis
    proof (cases "taken ?p")
      case True
      then show ?thesis using again [of s] Some by (simp add: wp_def)
    next
      case False
      show ?thesis
        using again [of s1] valid absent False Cons.prems
        by (cases x) (auto simp: wp_def Some m s1 sframe_def split: option.split)
    qed
  qed
qed (auto simp: wp_def sframe_def)

lemma pick_id_spec:
  "rolls_ok s \<Longrightarrow> wp (pick_id taken)
    (\<lambda>p s'. \<not> taken p \<and> is_valid_profile_id p \<and> dict_get (entries s) p = None \<and> sframe {} s s')
    (\<lambda>e s'. \<not> mutation_committed e \<and> sframe {} s s') s"
  using pick_id_from_spec [of "rolls s" s s taken] by (simp add: wp_def pick_id_def rolls_ok_def)

lemma abandon_spec:
  assumes "sframe N s s1" "p \<in> N" "\<not> mutation_committed e"
  shows "wp (abandon p e) Q (\<lambda>e s'. \<not> mutation_committed e \<and> sframe N s s') s1"
proof -
  have "touches N (remove_profile_directory p :: (_, _, _) act)"
    unfolding remove_profile_directory_def by (intro touch_intros assms(2))
  then show ?thesis
    unfolding abandon_def wp_simps
    by (rule wp_sframe) (auto simp: wp_simps assms(3) intro: sframe_trans [OF assms(1)])
qed

lemma generations_ok_empty: "generations_ok []" "ids_below k []" "generations [] = []"
  by (simp_all add: generations_ok_def ids_below_def dict_inv_def generations_def generation_names_def
      List.map_filter_def)

lemma store_snapshot_spec:
  assumes "dict_get (entries s) p = Some (DirNode [])"
    and t: "loaded (snapshots c) (stored_files (snapshots c) snap) = Some t"
  shows "wp (store_snapshot c pid p snap)
    (\<lambda>_ s'. sframe {p} s s' \<and> (\<exists>sub. dict_get (entries s') p = Some (DirNode sub) \<and> refreshed (snapshots c) 2 t sub))
    (\<lambda>e s'. \<not> mutation_committed e \<and> sframe {p} s s') s"
proof -
  have load: "wp (andthen (load_profile c p) (\<lambda>_. return debt))
      (\<lambda>_ s'. sframe {p} s s' \<and> (\<exists>sub. dict_get (entries s') p = Some (DirNode sub) \<and> refreshed (snapshots c) 2 t sub))
      (\<lambda>e s'. \<not> mutation_committed e \<and> sframe {p} s s') s1"
    if "sframe {p} s s1" "\<exists>sub. dict_get (entries s1) p = Some (DirNode sub) \<and> refreshed (snapshots c) 2 t sub" for s1 debt
    unfolding wp_simps by (rule wp_mono [OF load_profile_spec]) (use that in auto)
  show ?thesis
    unfolding store_snapshot_def wp_andthen [of "open_and_commit _ _ _ _"]
    by (rule wp_mono [OF open_and_commit_spec [where k = 1, OF assms(1) _ _ _ _ t]])
      (auto simp: generations_ok_empty wp_prod numeral_2_eq_2 [symmetric] intro!: load)
qed

section \<open>Inserting\<close>

definition inserted :: "store_codec \<Rightarrow> u64 \<Rightarrow> bool \<Rightarrow> snapshot \<Rightarrow> string \<Rightarrow> store \<Rightarrow> store \<Rightarrow> bool" where
  "inserted c now act t p s s' \<longleftrightarrow>
     p \<notin> set (ids_of (indexed s)) \<and> is_valid_profile_id p \<and>
     indexed s' = with_profile p now act (indexed s) \<and> validate_index (indexed s') = Inr () \<and>
     dict_get (entries s') INDEX_FILE = Some (FileNode (encode_index c (indexed s'))) \<and>
     (\<exists>sub. dict_get (entries s') p = Some (DirNode sub) \<and> refreshed (snapshots c) 2 t sub) \<and>
     (\<forall>q\<in>set (ids_of (indexed s)). dict_get (entries s') q = dict_get (entries s) q) \<and>
     (dict_inv (entries s) \<longrightarrow> dict_inv (entries s')) \<and> set (rolls s') \<subseteq> set (rolls s)"

lemma inserted_debt [simp]: "inserted c now act t p s (s'\<lparr>maintenance_debt := b\<rparr>) = inserted c now act t p s s'"
  by (simp add: inserted_def)

lemma insertedI:
  assumes fresh: "p \<notin> set (ids_of (indexed s))" "is_valid_profile_id p" and ids: "ids_ok s"
    and s1: "sframe {p} s s1" "dict_get (entries s1) p = Some (DirNode sub)" "refreshed (snapshots c) 2 t sub"
    and idx: "proposed = with_profile p now act (indexed s)" "validate_index proposed = Inr ()"
    and s2: "sframe {INDEX_TEMP_FILE, INDEX_FILE} s1 s2"
      "dict_get (entries s2) INDEX_FILE = Some (FileNode (encode_index c proposed))"
  shows "inserted c now act t p s (s2\<lparr>indexed := proposed\<rparr>)"
proof -
  have "p \<notin> {INDEX_TEMP_FILE, INDEX_FILE}" using valid_id_names [OF fresh(2)] by blast
  then have "dict_get (entries s2) p = Some (DirNode sub)"
    using sframe_get [OF s2(1)] s1(2) by simp
  moreover have "dict_get (entries s2) q = dict_get (entries s) q" if "q \<in> set (ids_of (indexed s))" for q
  proof -
    have "q \<notin> {INDEX_TEMP_FILE, INDEX_FILE}" using ids_names [OF ids] that by blast
    then have "dict_get (entries s2) q = dict_get (entries s1) q" by (rule sframe_get [OF s2(1)])
    also have "\<dots> = dict_get (entries s) q" by (rule sframe_get [OF s1(1)]) (use that fresh in auto)
    finally show ?thesis .
  qed
  moreover have "set (rolls s2) \<subseteq> set (rolls s)" "dict_inv (entries s) \<Longrightarrow> dict_inv (entries s2)"
    using s1(1) s2(1) by (auto simp: sframe_def)
  ultimately show ?thesis
    using fresh idx s2(2) s1(3) unfolding inserted_def by auto
qed

definition outcome :: "(store \<Rightarrow> bool) \<Rightarrow> store \<Rightarrow> profile_error \<Rightarrow> store \<Rightarrow> bool" where
  "outcome done s e s' \<longleftrightarrow> (if mutation_committed e then done s' else unchanged s s')"

lemma publish_profile_spec:
  assumes "p \<notin> set (ids_of (indexed s))" "is_valid_profile_id p" "ids_ok s"
    and s1: "sframe {p} s s1" "dict_get (entries s1) p = Some (DirNode sub)" "refreshed (snapshots c) 2 t sub"
  shows "wp (publish_profile c p (with_profile p now act (indexed s)) debt) (\<lambda>q s'. q = p \<and> inserted c now act t p s s')
    (\<lambda>e s'. if mutation_committed e then inserted c now act t p s s' else sframe {p, INDEX_TEMP_FILE} s s') s1"
  unfolding publish_profile_def wp_andthen [of "attempt _"] wp_attempt
proof (rule wp_mono [OF persist_index_spec])
  let ?proposed = "with_profile p now act (indexed s)"
  fix commit s2
  assume s2: "validate_index ?proposed = Inr () \<and> sframe {INDEX_TEMP_FILE, INDEX_FILE} s1 s2 \<and>
    dict_get (entries s2) INDEX_FILE = Some (FileNode (encode_index c ?proposed))"
  have "inserted c now act t p s (s2\<lparr>indexed := ?proposed\<rparr>)"
    by (rule insertedI) (use assms s2 in auto)
  then show "wp (case Inr commit of Inl e \<Rightarrow> abandon p e
      | Inr commit \<Rightarrow> andthen (put_index ?proposed) (\<lambda>_.
          case case commit of Clean \<Rightarrow> debt | MaintenanceDebt x \<Rightarrow> Some x of None \<Rightarrow> return p
          | Some k \<Rightarrow> andthen owe_maintenance (\<lambda>_. throw (IndexMaintenanceDebt p k))))
      (\<lambda>q s'. q = p \<and> inserted c now act t p s s')
      (\<lambda>e s'. if mutation_committed e then inserted c now act t p s s' else sframe {p, INDEX_TEMP_FILE} s s') s2"
    by (simp add: wp_simps split: option.split)
next
  fix e s2
  assume e: "\<not> mutation_committed e \<and> sframe {INDEX_TEMP_FILE} s1 s2"
  have fr: "sframe {p, INDEX_TEMP_FILE} s s2"
    using sframe_mono [OF s1(1)] sframe_mono [of "{INDEX_TEMP_FILE}" s1 s2] e by (blast intro: sframe_trans)
  show "wp (case Inl e of Inl e \<Rightarrow> abandon p e
      | Inr commit \<Rightarrow> andthen (put_index (with_profile p now act (indexed s))) (\<lambda>_.
          case case commit of Clean \<Rightarrow> debt | MaintenanceDebt x \<Rightarrow> Some x of None \<Rightarrow> return p
          | Some k \<Rightarrow> andthen owe_maintenance (\<lambda>_. throw (IndexMaintenanceDebt p k))))
      (\<lambda>q s'. q = p \<and> inserted c now act t p s s')
      (\<lambda>e s'. if mutation_committed e then inserted c now act t p s s' else sframe {p, INDEX_TEMP_FILE} s s') s2"
    unfolding sum.case by (rule wp_mono [OF abandon_spec [OF fr]]) (use e in auto)
qed

lemma insert_profile_spec:
  assumes ids: "ids_ok s" and rolls: "rolls_ok s"
    and t: "loaded (snapshots c) (stored_files (snapshots c) snap) = Some t"
  shows "wp (insert_profile c pid now snap act) (\<lambda>p s'. inserted c now act t p s s')
    (outcome (\<lambda>s'. \<exists>p. inserted c now act t p s s') s) s"
proof -
  let ?E = "outcome (\<lambda>s'. \<exists>p. inserted c now act t p s s') s"
  let ?idx = "indexed s"
  have quiet: "?E e s'" if "\<not> mutation_committed e" "sframe N s s'" "INDEX_FILE \<notin> N" "N \<inter> set (ids_of ?idx) = {}" for e s' N
    using sframe_unchanged [OF that(2-4)] that(1) by (simp add: outcome_def)
  have stored: "wp (andthen (attempt (store_snapshot c pid p snap)) (\<lambda>result. case result of
        Inl e \<Rightarrow> abandon p e | Inr debt \<Rightarrow> publish_profile c p (with_profile p now act ?idx) debt))
      (\<lambda>p s'. inserted c now act t p s s') ?E s1"
    if p: "p \<notin> set (ids_of ?idx)" "is_valid_profile_id p" and s1: "sframe {p} s s1" "dict_get (entries s1) p = Some (DirNode [])"
    for p s1
  proof -
    have out: "INDEX_FILE \<notin> {p, INDEX_TEMP_FILE}" "{p, INDEX_TEMP_FILE} \<inter> set (ids_of ?idx) = {}"
      using valid_id_names [OF p(2)] index_names ids_names [OF ids] p(1) by auto
    have "wp (abandon p e) Q ?E s2" if "\<not> mutation_committed e" "sframe {p} s1 s2" for e s2 Q
      by (rule wp_mono [OF abandon_spec [of "{p}" s s2 p e]])
        (use sframe_trans [OF s1(1) that(2)] that(1) out in \<open>auto intro: quiet\<close>)
    moreover have "wp (publish_profile c p (with_profile p now act ?idx) debt) (\<lambda>p s'. inserted c now act t p s s') ?E s2"
      if "sframe {p} s1 s2" "dict_get (entries s2) p = Some (DirNode sub)" "refreshed (snapshots c) 2 t sub" for s2 sub debt
      by (rule wp_mono [OF publish_profile_spec [OF p ids sframe_trans [OF s1(1) that(1)] that(2,3)]])
        (use sframe_unchanged [OF _ out] in \<open>auto simp: outcome_def split: if_splits\<close>)
    ultimately show ?thesis
      unfolding wp_andthen [of "attempt _"] wp_attempt
      by (intro wp_mono [OF store_snapshot_spec [OF s1(2) t]]) auto
  qed
  have created: "wp (andthen (map_error Io (create_child p)) (\<lambda>_. andthen (attempt (store_snapshot c pid p snap))
        (\<lambda>result. case result of Inl e \<Rightarrow> abandon p e | Inr debt \<Rightarrow> publish_profile c p (with_profile p now act ?idx) debt)))
      (\<lambda>p s'. inserted c now act t p s s') ?E s1"
    if p: "p \<notin> set (ids_of ?idx)" "is_valid_profile_id p" and s1: "sframe {} s s1" for p s1
    unfolding wp_andthen [of "map_error _ _"] wp_map_error
  proof (rule wp_create_child)
    fix k s2
    assume "frame {p} s1 s2"
    then have "sframe {p} s s2" using s1 sframe_mono [of "{}" s s1 "{p}"] by (blast intro: sframe_trans frame_store)
    then show "?E (Io k) s2"
      by (rule quiet [rotated]) (use p valid_id_names [OF p(2)] in auto)
  next
    fix fs
    show "wp (andthen (attempt (store_snapshot c pid p snap))
        (\<lambda>result. case result of Inl e \<Rightarrow> abandon p e | Inr debt \<Rightarrow> publish_profile c p (with_profile p now act ?idx) debt))
      (\<lambda>p s'. inserted c now act t p s s') ?E (s1\<lparr>entries := idx_insert p (DirNode []) (entries s1), plan := fs\<rparr>)"
      by (rule stored [OF p]) (use s1 in \<open>auto simp: sframe_def get_idx_insert\<close>)
  qed
  show ?thesis
    unfolding insert_profile_def wp_with_index wp_andthen [of occupied_profile_slots] wp_if wp_throw
      wp_andthen [of "pick_id _"]
  proof (rule wp_pure [OF pure_occupied])
    fix n fs
    have "rolls_ok (s\<lparr>plan := fs\<rparr>)" using rolls by (simp add: rolls_ok_def)
    have "wp (pick_id (\<lambda>p. p \<in> set (ids_of ?idx)))
        (\<lambda>p. wp (andthen (map_error Io (create_child p)) (\<lambda>_. andthen (attempt (store_snapshot c pid p snap))
          (\<lambda>result. case result of Inl e \<Rightarrow> abandon p e | Inr debt \<Rightarrow> publish_profile c p (with_profile p now act ?idx) debt)))
          (\<lambda>p s'. inserted c now act t p s s') ?E) ?E (s\<lparr>plan := fs\<rparr>)"
      by (rule wp_mono [OF pick_id_spec])
        (use rolls in \<open>auto simp: rolls_ok_def sframe_def intro!: created quiet [of _ "{}"]\<close>)
    then show "if MAX_PROFILES \<le> n then ?E LimitReached (s\<lparr>plan := fs\<rparr>)
      else wp (pick_id (\<lambda>p. p \<in> set (ids_of ?idx)))
        (\<lambda>p. wp (andthen (map_error Io (create_child p)) (\<lambda>_. andthen (attempt (store_snapshot c pid p snap))
          (\<lambda>result. case result of Inl e \<Rightarrow> abandon p e | Inr debt \<Rightarrow> publish_profile c p (with_profile p now act ?idx) debt)))
          (\<lambda>p s'. inserted c now act t p s s') ?E) ?E (s\<lparr>plan := fs\<rparr>)"
      by (auto intro: quiet [of _ "{}"])
  next
    fix e fs
    assume "occupied_profile_slots s = (Inl e, s\<lparr>plan := fs\<rparr>)"
    moreover have "wp occupied_profile_slots (\<lambda>_ _. True) (\<lambda>e _. \<not> mutation_committed e) s"
      unfolding occupied_profile_slots_def profile_entry_ids_def wp_simps by (rule wp_mono [OF wp_true]) auto
    ultimately show "?E e (s\<lparr>plan := fs\<rparr>)"
      by (intro quiet [of _ "{}"]) (auto simp: wp_def)
  qed
qed

end
