(* ===== verification/Profile_Change.thy ===== *)
theory Profile_Change
  imports Profile_Insert
begin

text \<open>
  Replacing, activating and deleting a profile: as in \<open>Profile_Insert\<close>, for every plan of faults.
\<close>

section \<open>Looking up a profile\<close>

lemma first_at_Some: "first_at P xs = Some n \<Longrightarrow> n < length xs \<and> P (xs ! n)"
  by (induction xs arbitrary: n) (auto split: if_splits)

lemma first_at_None: "first_at P xs = None \<longleftrightarrow> (\<forall>x\<in>set xs. \<not> P x)"
  by (induction xs) auto

lemma entry_at: "first_at (\<lambda>e. entry_id e = p) (profiles idx) = Some n \<Longrightarrow> p \<in> set (ids_of idx)"
  using first_at_Some [of _ "profiles idx" n] by (force simp: ids_of_def)

lemma wp_require_entry:
  assumes "p \<notin> set (ids_of idx) \<Longrightarrow> E (ProfileNotFound p) s"
    and "\<And>n. first_at (\<lambda>e. entry_id e = p) (profiles idx) = Some n \<Longrightarrow> p \<in> set (ids_of idx) \<Longrightarrow> Q n s"
  shows "wp (require_entry idx p) Q E s"
  using assms entry_at [of p idx] first_at_None [of "\<lambda>e. entry_id e = p" "profiles idx"]
  by (auto simp: require_entry_def wp_simps ids_of_def split: option.split)

lemma wp_open_profile:
  assumes "\<And>e fs. \<not> mutation_committed e \<Longrightarrow> E e (s\<lparr>plan := fs\<rparr>)" "\<And>fs. Q () (s\<lparr>plan := fs\<rparr>)"
  shows "wp (open_profile p) Q E s"
  unfolding open_profile_def wp_map_error open_child_def by (rule wp_looking) (use assms in auto)

lemma unchanged_updates [simp]: "unchanged s (s'\<lparr>plan := fs\<rparr>) = unchanged s s'"
  by (simp add: unchanged_def)

lemma unchanged_refl [simp]: "unchanged s s"
  by (simp add: unchanged_def same_profile_def)

lemma outcome_quiet: "\<not> mutation_committed e \<Longrightarrow> unchanged s s' \<Longrightarrow> outcome P s e s'"
  by (simp add: outcome_def)

lemma temp_unchanged: "ids_ok s \<Longrightarrow> sframe {INDEX_TEMP_FILE} s s' \<Longrightarrow> unchanged s s'"
  using sframe_unchanged [of "{INDEX_TEMP_FILE}"] ids_names [of s] index_names by auto

section \<open>Replacing\<close>

definition replaced :: "store_codec \<Rightarrow> nat \<Rightarrow> string \<Rightarrow> snapshot \<Rightarrow> store \<Rightarrow> store \<Rightarrow> bool" where
  "replaced c k p t s s' \<longleftrightarrow>
     p \<in> set (ids_of (indexed s)) \<and> indexed s' = indexed s \<and>
     dict_get (entries s') INDEX_FILE = dict_get (entries s) INDEX_FILE \<and>
     (\<exists>sub. dict_get (entries s') p = Some (DirNode sub) \<and> refreshed (snapshots c) k t sub) \<and>
     (\<forall>q\<in>set (ids_of (indexed s)) - {p}. dict_get (entries s') q = dict_get (entries s) q) \<and>
     (dict_inv (entries s) \<longrightarrow> dict_inv (entries s')) \<and> set (rolls s') \<subseteq> set (rolls s)"

lemma replaced_updates [simp]:
  "replaced c k p t s (s'\<lparr>maintenance_debt := b\<rparr>) = replaced c k p t s s'"
  "replaced c k p t s (s'\<lparr>plan := fs\<rparr>) = replaced c k p t s s'"
  by (simp_all add: replaced_def)

lemma replace_profile_spec:
  assumes ids: "ids_ok s"
    and sub: "p \<in> set (ids_of (indexed s)) \<Longrightarrow>
      dict_get (entries s) p = Some (DirNode sub) \<and> generations_ok sub \<and> ids_below k sub"
    and k: "1 \<le> k" "k < 2 ^ 64 - 1"
    and t: "loaded (snapshots c) (stored_files (snapshots c) snap) = Some t"
  shows "wp (replace_profile_loaded c pid p snap) (\<lambda>r s'. replaced c (Suc k) p t s s')
    (outcome (replaced c (Suc k) p t s) s) s"
proof -
  let ?E = "outcome (replaced c (Suc k) p t s) s"
  define finish where "finish = (\<lambda>(generation :: u64, debt). andthen (map_error (PostCommitRead p) (load_profile c p))
    (\<lambda>(reloaded_generation, reloaded).
       if reloaded_generation \<noteq> generation then throw (PostCommitRead p (Unavailable p))
       else case debt of
         Some k \<Rightarrow> andthen owe_maintenance (\<lambda>_. throw (IndexMaintenanceDebt p k))
       | None \<Rightarrow> return (catalog_revision c p generation, generation, reloaded)))"
  have finished: "wp (finish r) (\<lambda>_. replaced c (Suc k) p t s) ?E s2" if "replaced c (Suc k) p t s s2" for r s2
    unfolding finish_def wp_simps
    by (rule wp_mono [OF load_profile_spec])
      (use that in \<open>auto simp: wp_simps outcome_def split: option.split\<close>)
  have commit: "wp (andthen (open_and_commit c pid p snap) finish) (\<lambda>_. replaced c (Suc k) p t s) ?E (s\<lparr>plan := fs\<rparr>)"
    if p: "p \<in> set (ids_of (indexed s))" for fs
  proof -
    let ?s = "s\<lparr>plan := fs\<rparr>"
    have s: "dict_get (entries ?s) p = Some (DirNode sub)" "generations_ok sub" "ids_below k sub"
      using sub [OF p] by auto
    have names: "INDEX_FILE \<noteq> p" using ids_names [OF ids] p by auto
    have "replaced c (Suc k) p t s s2"
      if f: "sframe {p} ?s s2" and "dict_get (entries s2) p = Some (DirNode sub')" "refreshed (snapshots c) (Suc k) t sub'" for s2 sub'
      using that p names sframe_get [OF f] by (auto simp: replaced_def sframe_def)
    moreover have "unchanged s s2"
      if f: "sframe {p} ?s s2" and "dict_get (entries s2) p = Some (DirNode sub')" "same_generations sub sub'" for s2 sub'
    proof -
      have "same_profile (entries s) (entries s2) q" for q
        using that s(1) sframe_get [OF f, of q] by (cases "q = p") (auto simp: same_profile_def)
      then show ?thesis
        using f names sframe_get [OF f, of INDEX_FILE] by (auto simp: unchanged_def sframe_def)
    qed
    ultimately show ?thesis
      unfolding wp_andthen
      by (intro wp_mono [OF open_and_commit_spec [OF s k t]]) (auto intro: finished outcome_quiet)
  qed
  show ?thesis
    unfolding replace_profile_loaded_def finish_def [symmetric] wp_with_index wp_andthen [of "require_entry _ _"]
      wp_andthen [of "open_profile _"]
    by (rule wp_require_entry) (auto intro!: wp_open_profile commit outcome_quiet)
qed

section \<open>Activating\<close>

definition activated :: "store_codec \<Rightarrow> string \<Rightarrow> store \<Rightarrow> store \<Rightarrow> bool" where
  "activated c p s s' \<longleftrightarrow>
     p \<in> set (ids_of (indexed s)) \<and> indexed s' = (indexed s)\<lparr>active_id := Some p\<rparr> \<and>
     (if active_id (indexed s) = Some p
      then dict_get (entries s') INDEX_FILE = dict_get (entries s) INDEX_FILE
      else validate_index (indexed s') = Inr () \<and>
        dict_get (entries s') INDEX_FILE = Some (FileNode (encode_index c (indexed s')))) \<and>
     (\<forall>q\<in>set (ids_of (indexed s)). dict_get (entries s') q = dict_get (entries s) q) \<and>
     (dict_inv (entries s) \<longrightarrow> dict_inv (entries s')) \<and> set (rolls s') \<subseteq> set (rolls s)"

lemma activated_updates [simp]:
  "activated c p s (s'\<lparr>maintenance_debt := b\<rparr>) = activated c p s s'"
  by (simp add: activated_def)

lemma index_frame:
  "ids_ok s \<Longrightarrow> sframe {INDEX_TEMP_FILE, INDEX_FILE} s s' \<Longrightarrow> q \<in> set (ids_of (indexed s)) \<Longrightarrow>
   dict_get (entries s') q = dict_get (entries s) q"
  using ids_names [of s] by (intro sframe_get) auto

lemma activate_spec:
  assumes ids: "ids_ok s"
  shows "wp (activate c p) (\<lambda>_. activated c p s) (outcome (activated c p s) s) s"
proof -
  let ?E = "outcome (activated c p s) s"
  let ?idx = "(indexed s)\<lparr>active_id := Some p\<rparr>"
  define finish where "finish = (\<lambda>snap. if active_id (indexed s) = Some p then return snap
    else andthen (persist_index c ?idx) (\<lambda>commit.
         andthen (put_index ?idx) (\<lambda>_. case commit of
           Clean \<Rightarrow> return (snap :: snapshot)
         | MaintenanceDebt k \<Rightarrow> andthen owe_maintenance (\<lambda>_. throw (IndexMaintenanceDebt p k)))))"
  have finished: "wp (finish snap) (\<lambda>_. activated c p s) ?E (s\<lparr>plan := fs\<rparr>)"
    if p: "p \<in> set (ids_of (indexed s))" for snap fs
  proof (cases "active_id (indexed s) = Some p")
    case True
    then show ?thesis using p by (simp add: finish_def wp_simps activated_def)
  next
    case False
    have "activated c p s (s2\<lparr>indexed := ?idx\<rparr>)"
      if f: "sframe {INDEX_TEMP_FILE, INDEX_FILE} (s\<lparr>plan := fs\<rparr>) s2" and "validate_index ?idx = Inr ()"
        "dict_get (entries s2) INDEX_FILE = Some (FileNode (encode_index c ?idx))" for s2
      using that p False index_frame [of "s\<lparr>plan := fs\<rparr>" s2] ids
      by (auto simp: activated_def sframe_def ids_ok_def)
    moreover have "unchanged s s2" if "sframe {INDEX_TEMP_FILE} (s\<lparr>plan := fs\<rparr>) s2" for s2
      by (rule temp_unchanged [OF ids]) (use that in \<open>simp add: sframe_def\<close>)
    ultimately show ?thesis
      unfolding finish_def wp_andthen [of "persist_index _ _"] using False
      by (simp add: wp_simps) (rule wp_mono [OF persist_index_spec],
        auto simp: wp_simps outcome_quiet split: index_commit.split simp: outcome_def)
  qed
  show ?thesis
    unfolding activate_def finish_def [symmetric] wp_with_index wp_andthen [of "require_entry _ _"]
      wp_andthen [of "load_profile _ _"]
    by (rule wp_require_entry, simp add: outcome_quiet, rule wp_mono [OF load_profile_spec])
      (auto intro!: finished outcome_quiet simp: wp_prod)
qed

section \<open>Deleting\<close>

definition deleted :: "store_codec \<Rightarrow> string \<Rightarrow> store \<Rightarrow> store \<Rightarrow> bool" where
  "deleted c p s s' \<longleftrightarrow>
     (\<exists>n. first_at (\<lambda>e. entry_id e = p) (profiles (indexed s)) = Some n \<and>
       indexed s' = without_profile n p (indexed s)) \<and>
     validate_index (indexed s') = Inr () \<and>
     dict_get (entries s') INDEX_FILE = Some (FileNode (encode_index c (indexed s'))) \<and>
     (\<forall>q\<in>set (ids_of (indexed s)) - {p}. dict_get (entries s') q = dict_get (entries s) q) \<and>
     (dict_inv (entries s) \<longrightarrow> dict_inv (entries s')) \<and> set (rolls s') \<subseteq> set (rolls s)"

lemma deleted_updates [simp]: "deleted c p s (s'\<lparr>maintenance_debt := b\<rparr>) = deleted c p s s'"
  by (simp add: deleted_def)

definition logo_names :: "string set" where
  "logo_names = {n. starts_with SERVICE_LOGO_PREFIX n}"

lemma valid_id_no_logo: "is_valid_profile_id q \<Longrightarrow> q \<notin> logo_names"
  by (auto simp: is_valid_profile_id_def logo_names_def SERVICE_LOGO_PREFIX_def starts_with_iff is_lower_hex_def
      is_ascii_digit_def)

lemma index_no_logo: "INDEX_FILE \<notin> logo_names"
  by (auto simp: logo_names_def SERVICE_LOGO_PREFIX_def starts_with_iff INDEX_FILE_def)

lemma remove_logos_spec: "wp (remove_service_logos p) (\<lambda>_. sframe logo_names s) (\<lambda>_ _. False) s"
proof -
  have names: "wp (service_logo_names p) (\<lambda>ns s'. set ns \<subseteq> logo_names \<and> sframe logo_names s s') (\<lambda>_ _. False) s"
    unfolding service_logo_names_def wp_simps
    by (rule wp_sframe [OF touches_reads(1) [of logo_names]])
      (auto simp: logo_names_def starts_with_iff strip_prefix_Some split: option.splits)
  have each: "wp (for_each (\<lambda>name. ignoring (remove_file name)) ns :: unit op) (\<lambda>_. sframe logo_names s) (\<lambda>_ _. False) s'"
    if "set ns \<subseteq> logo_names" "sframe logo_names s s'" for ns s'
  proof -
    have "touches logo_names (for_each (\<lambda>name. ignoring (remove_file name)) ns :: unit op)"
      by (intro touch_intros) (use that in auto)
    then have "wp (for_each (\<lambda>name. ignoring (remove_file name)) ns :: unit op) (\<lambda>_. sframe logo_names s) (\<lambda>_ _. True) s'"
      by (rule wp_sframe) (use that in \<open>auto intro: sframe_trans\<close>)
    then show ?thesis by (rule never_fails_wp [rotated]) (intro total_intros)
  qed
  show ?thesis
    unfolding remove_service_logos_def wp_andthen by (rule wp_mono [OF names]) (auto intro: each)
qed

lemma deleted_frame:
  assumes "deleted c p s s1" and ids: "ids_ok s" and p: "p \<in> set (ids_of (indexed s))"
    and f: "sframe (insert p logo_names) s1 s2"
  shows "deleted c p s s2"
proof -
  have out: "q \<notin> insert p logo_names" if "q \<in> set (ids_of (indexed s)) - {p}" for q
    using that ids valid_id_no_logo by (auto simp: ids_ok_def)
  have "INDEX_FILE \<notin> insert p logo_names"
    using index_no_logo ids_names [OF ids] p by auto
  then show ?thesis
    using assms(1) f sframe_get [OF f] out unfolding deleted_def by (auto simp: sframe_def)
qed

lemma delete_spec:
  assumes ids: "ids_ok s"
  shows "wp (delete c p) (\<lambda>_. deleted c p s) (outcome (deleted c p s) s) s"
proof -
  let ?E = "outcome (deleted c p s) s"
  have clears: "wp (clear_profile p proposed) (\<lambda>_. deleted c p s) ?E s1"
    if "deleted c p s s1" "p \<in> set (ids_of (indexed s))" for s1 proposed
  proof -
    have "wp (remove_profile_directory p) (\<lambda>_. deleted c p s) (\<lambda>_. deleted c p s) s2" if f: "sframe logo_names s1 s2" for s2
    proof (rule wp_sframe [where N = "{p}"])
      show "touches {p} (remove_profile_directory p :: (_, _, _) act)"
        unfolding remove_profile_directory_def by (intro touch_intros) simp
      show "deleted c p s s3" if "sframe {p} s2 s3" for s3
        using deleted_frame [OF \<open>deleted c p s s1\<close> ids \<open>p \<in> _\<close>] sframe_mono [OF f, of "insert p logo_names"]
          sframe_mono [OF that, of "insert p logo_names"] by (blast intro: sframe_trans)
      then show "deleted c p s s3" if "sframe {p} s2 s3" for s3 using that by blast
    qed
    then show ?thesis
      unfolding clear_profile_def wp_andthen wp_attempt
      by (intro wp_mono [OF remove_logos_spec]) (auto elim!: wp_mono simp: wp_simps outcome_def)
  qed
  have persisted: "wp (andthen (persist_index c idx) (\<lambda>commit. andthen (put_index idx) (\<lambda>_. case commit of
        MaintenanceDebt k \<Rightarrow> andthen owe_maintenance (\<lambda>_. throw (IndexMaintenanceDebt p k)) | Clean \<Rightarrow> clear_profile p idx)))
      (\<lambda>_. deleted c p s) ?E (s\<lparr>plan := fs\<rparr>)"
    if n: "first_at (\<lambda>e. entry_id e = p) (profiles (indexed s)) = Some n" and idx: "idx = without_profile n p (indexed s)" for n idx fs
  proof -
    have p: "p \<in> set (ids_of (indexed s))" using entry_at [OF n] .
    have "deleted c p s (s2\<lparr>indexed := idx\<rparr>)"
      if f: "sframe {INDEX_TEMP_FILE, INDEX_FILE} (s\<lparr>plan := fs\<rparr>) s2" and "validate_index idx = Inr ()"
        "dict_get (entries s2) INDEX_FILE = Some (FileNode (encode_index c idx))" for s2
      using that n idx index_frame [of "s\<lparr>plan := fs\<rparr>" s2] ids
      by (auto simp: deleted_def sframe_def ids_ok_def)
    moreover have "unchanged s s2" if "sframe {INDEX_TEMP_FILE} (s\<lparr>plan := fs\<rparr>) s2" for s2
      by (rule temp_unchanged [OF ids]) (use that in \<open>simp add: sframe_def\<close>)
    ultimately show ?thesis
      unfolding wp_andthen [of "persist_index _ _"]
      by (intro wp_mono [OF persist_index_spec])
        (auto simp: wp_simps outcome_def split: index_commit.split intro: clears p)
  qed
  have checked: "wp (successor_loads c p (indexed s) idx) (\<lambda>_ s'. \<exists>fs. s' = s\<lparr>plan := fs\<rparr>)
      (\<lambda>e s'. \<not> mutation_committed e \<and> (\<exists>fs. s' = s\<lparr>plan := fs\<rparr>)) s" for idx
    unfolding successor_loads_def
    by (auto simp: wp_simps split: option.split intro: exI [of _ "plan s"] intro!: wp_mono [OF load_profile_spec])
  show ?thesis
    unfolding delete_def Let_def wp_with_index wp_andthen [of "require_entry _ _"]
      wp_andthen [of "successor_loads _ _ _ _"]
    by (rule wp_require_entry, simp add: outcome_quiet, rule wp_mono [OF checked])
      (auto intro!: persisted outcome_quiet)
qed

end
