(* ===== verification/Profile_Open.thy ===== *)
theory Profile_Open
  imports Profile_Store
begin

text \<open>
  Opening the profile store (\<open>ProfileStore::open\<close> in \<open>crates/multicore-core/src/profile.rs\<close>) with the
  import of a store of an earlier version and the removal of directories no index names, and what is read
  of an open store.
\<close>

section \<open>Directories without a profile\<close>

fun remove_orphans :: "string list \<Rightarrow> bool \<Rightarrow> string list \<Rightarrow> unit op" where
  "remove_orphans known removed_any [] = (if removed_any then map_error Io sync else return ())"
| "remove_orphans known removed_any (ident # ids) =
     (if ident \<in> set known then remove_orphans known removed_any ids
      else andthen (attempt (remove_entry_nofollow ident)) (\<lambda>r.
        case r of
          Inr _ \<Rightarrow> remove_orphans known True ids
        | Inl k \<Rightarrow> andthen (if removed_any then ignoring sync else return ()) (\<lambda>_.
            throw (CleanupDebt ident False k))))"

definition cleanup_unindexed_profile_directories :: "profile_index \<Rightarrow> unit op" where
  "cleanup_unindexed_profile_directories idx = andthen profile_entry_ids (remove_orphans (ids_of idx) False)"

section \<open>Opening\<close>

datatype lock_failure = Contended | LockFailed io_kind

definition map_lock_error :: "lock_failure \<Rightarrow> profile_error" where
  "map_lock_error e = (case e of Contended \<Rightarrow> Locked | LockFailed k \<Rightarrow> Io k)"

definition map_root_open_error :: "io_kind \<Rightarrow> profile_error" where
  "map_root_open_error k = (if k \<in> {BadData, NotADirectory, LinkLoop} then InvalidIndex else Io k)"

definition empty_index :: profile_index where
  "empty_index = \<lparr>schema_version = INDEX_SCHEMA_VERSION, profiles = [], active_id = None\<rparr>"

text \<open>The index file, \<open>None\<close> when there is none.\<close>

definition read_profile_index :: "store_codec \<Rightarrow> profile_index option op" where
  "read_profile_index c =
     andthen (map_error Io (file_metadata INDEX_FILE)) (\<lambda>meta.
       case meta of
         None \<Rightarrow> return None
       | Some (regular, len) \<Rightarrow>
           if \<not> regular \<or> len > MAX_PROFILE_INDEX_BYTES then throw InvalidIndex
           else andthen (map_error Io (read_file INDEX_FILE MAX_PROFILE_INDEX_BYTES)) (\<lambda>bytes.
                andthen (lift_result (parse_index c bytes)) (\<lambda>idx.
                andthen (lift_result (validate_index idx)) (\<lambda>_. return (Some idx)))))"

definition legacy_snapshot :: "store_codec \<Rightarrow> io_kind + disk \<Rightarrow> io_kind + snapshot option" where
  "legacy_snapshot c legacy = rbind legacy (\<lambda>d. fst (load_latest_readonly (snapshots c) d))"

definition import_snapshot :: "store_codec \<Rightarrow> nat \<Rightarrow> u64 \<Rightarrow> string \<Rightarrow> snapshot \<Rightarrow> index_commit op" where
  "import_snapshot c pid now ident snap =
     andthen (open_and_commit c pid ident snap) (\<lambda>(_, debt).
       case debt of
         Some k \<Rightarrow> throw (Io k)
       | None \<Rightarrow>
           andthen (load_profile c ident) (\<lambda>_.
           (let proposed = \<lparr>schema_version = INDEX_SCHEMA_VERSION,
                  profiles = [\<lparr>entry_id = ident, created_at_unix = now\<rparr>], active_id = Some ident\<rparr>
            in andthen (persist_index c proposed) (\<lambda>commit.
               andthen (put_index proposed) (\<lambda>_. return commit)))))"

definition migrate_legacy :: "store_codec \<Rightarrow> nat \<Rightarrow> u64 \<Rightarrow> io_kind + disk \<Rightarrow> unit op" where
  "migrate_legacy c pid now legacy =
     (case legacy_snapshot c legacy of
        Inl k \<Rightarrow> if k = NotFound then return () else throw (SnapshotFailed k)
      | Inr None \<Rightarrow> return ()
      | Inr (Some snap) \<Rightarrow>
          andthen (pick_id (\<lambda>_. False)) (\<lambda>ident.
          andthen (map_error Io (create_child ident)) (\<lambda>_.
          andthen (attempt (import_snapshot c pid now ident snap)) (\<lambda>r.
            case r of
              Inl e \<Rightarrow> abandon ident e
            | Inr commit \<Rightarrow> if commit = Clean then return () else owe_maintenance))))"

text \<open>
  \<open>create_dir_all\<close>, the opening of the root and its lock are arguments; \<open>legacy\<close> is the directory of the
  earlier version, or the error of opening it.
\<close>

definition open_impl ::
  "store_codec \<Rightarrow> nat \<Rightarrow> u64 \<Rightarrow> io_kind + unit \<Rightarrow> io_kind + unit \<Rightarrow> lock_failure + unit \<Rightarrow> (io_kind + disk) option \<Rightarrow>
   unit op" where
  "open_impl c pid now create_dir_all open_root lock_exclusive legacy =
     andthen (map_error Io (lift_result create_dir_all)) (\<lambda>_.
     andthen (map_error map_root_open_error (lift_result open_root)) (\<lambda>_.
     andthen (map_error map_lock_error (lift_result lock_exclusive)) (\<lambda>_.
     andthen (read_profile_index c) (\<lambda>found.
     andthen (map_error Io sync) (\<lambda>_.
     andthen (put_index (case found of Some idx \<Rightarrow> idx | None \<Rightarrow> empty_index)) (\<lambda>_.
     andthen (case legacy of
                Some l \<Rightarrow> if found = None then migrate_legacy c pid now l else return ()
              | None \<Rightarrow> return ()) (\<lambda>_.
     with_index cleanup_unindexed_profile_directories)))))))"

section \<open>Reading an open store\<close>

record profile_summary =
  summary_id :: string
  summary_created :: u64
  is_active :: bool
  available :: bool

record loaded_profile =
  summary :: profile_summary
  revision :: "u64 option"
  physical_generation :: "u64 option"
  profile_shown :: "snapshot option"

fun load_all :: "store_codec \<Rightarrow> string option \<Rightarrow> profile_index_entry list \<Rightarrow> loaded_profile list op" where
  "load_all c active [] = return []"
| "load_all c active (e # es) =
     andthen (attempt (load_profile c (entry_id e))) (\<lambda>r.
     andthen (load_all c active es) (\<lambda>rest.
     return (\<lparr>summary = \<lparr>summary_id = entry_id e, summary_created = created_at_unix e,
                is_active = (active = Some (entry_id e)), available = is_ok r\<rparr>,
              revision = map_option (\<lambda>(g, _). catalog_revision c (entry_id e) g) (ok r),
              physical_generation = map_option fst (ok r),
              profile_shown = map_option snd (ok r)\<rparr> # rest)))"

definition list_loaded :: "store_codec \<Rightarrow> loaded_profile list op" where
  "list_loaded c = with_index (\<lambda>idx. load_all c (active_id idx) (profiles idx))"

definition active_snapshot_generation :: "store_codec \<Rightarrow> (string \<times> u64 \<times> u64 \<times> snapshot) option op" where
  "active_snapshot_generation c = with_index (\<lambda>idx.
     case active_id idx of
       None \<Rightarrow> return None
     | Some ident \<Rightarrow> andthen (load_profile c ident) (\<lambda>(g, snap).
         return (Some (ident, catalog_revision c ident g, g, snap))))"

definition profile_snapshot_generation :: "store_codec \<Rightarrow> string \<Rightarrow> (u64 \<times> u64 \<times> snapshot) op" where
  "profile_snapshot_generation c ident = with_index (\<lambda>idx.
     andthen (require_entry idx ident) (\<lambda>_.
     andthen (load_profile c ident) (\<lambda>(g, snap). return (catalog_revision c ident g, g, snap))))"

fun find_source :: "store_codec \<Rightarrow> string \<Rightarrow> profile_index_entry list \<Rightarrow> string option op" where
  "find_source c url [] = return None"
| "find_source c url (e # es) =
     andthen (attempt (load_profile c (entry_id e))) (\<lambda>r.
       case r of
         Inr (_, snap) \<Rightarrow>
           if map_option source_url (subscription snap) = Some url then return (Some (entry_id e)) else find_source c url es
       | Inl (Unavailable _) \<Rightarrow> find_source c url es
       | Inl err \<Rightarrow> throw err)"

definition find_exact_source :: "store_codec \<Rightarrow> string \<Rightarrow> string option op" where
  "find_exact_source c trimmed_url = with_index (\<lambda>idx. find_source c trimmed_url (profiles idx))"

definition cleanup_unindexed_profile :: "string \<Rightarrow> bool op" where
  "cleanup_unindexed_profile ident = with_index (\<lambda>idx.
     if ident \<in> set (ids_of idx) then return False
     else andthen (attempt (remove_profile_directory ident)) (\<lambda>r.
       case r of
         Inr _ \<Rightarrow> return True
       | Inl k \<Rightarrow> if k = NotFound then return True else throw (Io k)))"

end
