(* ===== verification/Profile_Guarantees.thy ===== *)
theory Profile_Guarantees
  imports Profile_Change Profile_Open
begin

text \<open>
  What the profile store promises over any sequence of mutations under any plan of faults: a failed
  mutation changes nothing, a committed one has taken effect, no profile is lost, and the store opens
  again with the same profiles after a crash.
\<close>

section \<open>Mutations\<close>

datatype mutation =
    Create snapshot u64
  | Add snapshot u64
  | Replace string snapshot
  | Activate string
  | Delete string

fun run_mutation :: "store_codec \<Rightarrow> nat \<Rightarrow> mutation \<Rightarrow> unit op" where
  "run_mutation c pid (Create snap now) = andthen (create_profile c pid now snap) (\<lambda>_. return ())"
| "run_mutation c pid (Add snap now) = andthen (add_profile c pid now snap) (\<lambda>_. return ())"
| "run_mutation c pid (Replace p snap) = andthen (replace_profile_loaded c pid p snap) (\<lambda>_. return ())"
| "run_mutation c pid (Activate p) = andthen (activate c p) (\<lambda>_. return ())"
| "run_mutation c pid (Delete p) = andthen (delete c p) (\<lambda>_. return ())"

text \<open>A \<open>Snapshot\<close> exists for documents that parse within their limit only (\<open>Snapshot::parse\<close>).\<close>

definition snapshot_wf :: "codec \<Rightarrow> snapshot \<Rightarrow> bool" where
  "snapshot_wf c s \<longleftrightarrow>
     parses c (mihomo_raw s) (xray_raw s) \<and> length (mihomo_raw s) \<le> MAX_CONFIG_BYTES \<and> length (xray_raw s) \<le> MAX_CONFIG_BYTES"

fun mutation_wf :: "store_codec \<Rightarrow> mutation \<Rightarrow> bool" where
  "mutation_wf c (Create snap _) = snapshot_wf (snapshots c) snap"
| "mutation_wf c (Add snap _) = snapshot_wf (snapshots c) snap"
| "mutation_wf c (Replace _ snap) = snapshot_wf (snapshots c) snap"
| "mutation_wf c (Activate _) = True"
| "mutation_wf c (Delete _) = True"

text \<open>What a saved snapshot is loaded as.\<close>

definition reloaded :: "codec \<Rightarrow> snapshot \<Rightarrow> snapshot" where
  "reloaded c s =
     \<lparr>mihomo_raw = mihomo_raw s, xray_raw = xray_raw s,
      subscription = Option.bind (subscription s) (\<lambda>r.
        let text = encode_record c (without_logo_url r)
        in if length text \<le> MAX_RECORD_BYTES then accept_record c text else None),
      service_logo_png = Option.bind (service_logo_png s) (\<lambda>b.
        if length b \<le> MAX_SERVICE_LOGO_OUTPUT_BYTES \<and> is_canonical_service_logo c b then Some b else None),
      group_icons =
        (let text = encode_group_icons c (group_icons s)
         in if group_icons s \<noteq> [] \<and> length text \<le> MAX_GROUP_ICONS_FILE_BYTES then decode_group_icons c text else [])\<rparr>"

lemma loaded_stored: "snapshot_wf c s \<Longrightarrow> loaded c (stored_files c s) = Some (reloaded c s)"
proof -
  assume wf: "snapshot_wf c s"
  have get: "dict_get (stored_files c s) n = map_option FileNode (dict_get (snapshot_files c s) n)" for n
    by (simp add: stored_files_def map_of_map [symmetric, of FileNode, unfolded comp_def] case_prod_beta map_of_map)
  have "dict_get (snapshot_files c s) MIHOMO_FILE = Some (mihomo_raw s)" "dict_get (snapshot_files c s) XRAY_FILE = Some (xray_raw s)"
    "dict_get (snapshot_files c s) RECORD_FILE = map_option (\<lambda>r. encode_record c (without_logo_url r)) (subscription s)"
    "dict_get (snapshot_files c s) LOGO_FILE = service_logo_png s"
    "dict_get (snapshot_files c s) ICONS_FILE = (if group_icons s \<noteq> [] then Some (encode_group_icons c (group_icons s)) else None)"
    by (auto simp: snapshot_files_def file_names split: option.split)
  then show ?thesis
    using wf by (cases "subscription s"; cases "service_logo_png s")
      (auto simp: loaded_def optional_of_def get snapshot_wf_def reloaded_def Let_def)
qed

section \<open>The invariant\<close>

text \<open>\<open>k\<close> bounds the generation numbers in use.\<close>

definition index_on_disk :: "store_codec \<Rightarrow> store \<Rightarrow> bool" where
  "index_on_disk c s \<longleftrightarrow>
     (case dict_get (entries s) INDEX_FILE of
        None \<Rightarrow> indexed s = empty_index
      | Some (FileNode b) \<Rightarrow> length b \<le> MAX_PROFILE_INDEX_BYTES \<and> parse_index c b = Inr (indexed s)
      | Some _ \<Rightarrow> False)"

definition store_ok :: "store_codec \<Rightarrow> nat \<Rightarrow> store \<Rightarrow> bool" where
  "store_ok c k s \<longleftrightarrow>
     dict_inv (entries s) \<and> validate_index (indexed s) = Inr () \<and> rolls_ok s \<and> ids_ok s \<and> index_on_disk c s \<and>
     (\<forall>p\<in>set (ids_of (indexed s)). \<exists>sub. dict_get (entries s) p = Some (DirNode sub) \<and> profile_ok (snapshots c) k sub)"

text \<open>What \<open>serde_json\<close> promises of the index: a valid index is read back, and it fits its limit.\<close>

definition codec_ok :: "store_codec \<Rightarrow> bool" where
  "codec_ok c \<longleftrightarrow> (\<forall>idx. validate_index idx = Inr () \<longrightarrow> list_all is_valid_profile_id (ids_of idx) \<longrightarrow>
     decode_index c (encode_index c idx) = Some idx \<and> length (encode_index c idx) \<le> MAX_PROFILE_INDEX_BYTES)"

text \<open>What loading a profile gives when nothing fails.\<close>

definition reads :: "store_codec \<Rightarrow> string \<Rightarrow> store \<Rightarrow> profile_error + u64 \<times> snapshot" where
  "reads c p s = fst (load_profile c p (s\<lparr>plan := []\<rparr>))"

lemma load_works:
  assumes "plan s = []" "dict_get (entries s) p = Some (DirNode sub)" "generations_ok sub"
  shows "load_profile c p s = (case current_of (snapshots c) sub of Some gs \<Rightarrow> Inr gs | None \<Rightarrow> Inl (Unavailable p), s)"
proof -
  have "in_child p (open_capability (snapshots c)) s =
      (Inr (current_of (snapshots c) sub, next_generation (generations sub)), s)"
    by (rule in_child_works)
      (use assms open_works [of "\<lparr>entries = sub, plan = []\<rparr>" "snapshots c"] in \<open>auto simp: child_def\<close>)
  moreover have "open_profile p s = (Inr (), s)"
    using assms by (simp add: open_profile_def open_child_def looking_works map_error_def)
  ultimately show ?thesis
    by (auto simp: load_profile_def andthen_def map_error_def return_def throw_def split: option.split)
qed

lemma reads_current:
  "dict_get (entries s) p = Some (DirNode sub) \<Longrightarrow> generations_ok sub \<Longrightarrow>
   reads c p s = (case current_of (snapshots c) sub of Some gs \<Rightarrow> Inr gs | None \<Rightarrow> Inl (Unavailable p))"
  using load_works [of "s\<lparr>plan := []\<rparr>" p sub c] by (simp add: reads_def)

lemma reads_same:
  assumes "same_profile (entries s) (entries s') p" "dict_get (entries s) p = Some (DirNode sub)" "generations_ok sub"
  shows "reads c p s' = reads c p s"
proof -
  obtain sub' where "dict_get (entries s') p = Some (DirNode sub')" "same_generations sub sub'"
    using assms by (auto simp: same_profile_def)
  then show ?thesis
    using assms reads_current [of s p sub c] reads_current [of s' p sub' c] by (simp add: same_generations_def)
qed

section \<open>Every mutation\<close>

fun took_effect :: "store_codec \<Rightarrow> nat \<Rightarrow> mutation \<Rightarrow> store \<Rightarrow> store \<Rightarrow> bool" where
  "took_effect c k (Create snap now) s s' \<longleftrightarrow> (\<exists>p. inserted c now True (reloaded (snapshots c) snap) p s s')"
| "took_effect c k (Add snap now) s s' \<longleftrightarrow> (\<exists>p. inserted c now False (reloaded (snapshots c) snap) p s s')"
| "took_effect c k (Replace p snap) s s' \<longleftrightarrow> replaced c k p (reloaded (snapshots c) snap) s s'"
| "took_effect c k (Activate p) s s' \<longleftrightarrow> activated c p s s'"
| "took_effect c k (Delete p) s s' \<longleftrightarrow> deleted c p s s'"

lemma mutation_spec:
  assumes ok: "store_ok c k s" and wf: "mutation_wf c m" and k: "1 \<le> k" "k < 2 ^ 64 - 1"
  shows "wp (run_mutation c pid m) (\<lambda>_. took_effect c (Suc k) m s) (outcome (took_effect c (Suc k) m s) s) s"
proof -
  have ids: "ids_ok s" and rolls: "rolls_ok s" using ok by (simp_all add: store_ok_def)
  show ?thesis
  proof (cases m)
    case (Create snap now)
    then show ?thesis
      using insert_profile_spec [OF ids rolls loaded_stored, of c snap pid now True] wf
      by (auto simp: wp_simps create_profile_def outcome_def elim!: wp_mono)
  next
    case (Add snap now)
    then show ?thesis
      using insert_profile_spec [OF ids rolls loaded_stored, of c snap pid now False] wf
      by (auto simp: wp_simps add_profile_def outcome_def elim!: wp_mono)
  next
    case (Replace p snap)
    obtain sub where "p \<in> set (ids_of (indexed s)) \<Longrightarrow>
        dict_get (entries s) p = Some (DirNode sub) \<and> generations_ok sub \<and> ids_below k sub"
      using ok unfolding store_ok_def profile_ok_def by blast
    then show ?thesis
      using replace_profile_spec [OF ids _ k loaded_stored, of p sub c snap pid] Replace wf
      by (auto simp: wp_simps outcome_def elim!: wp_mono)
  next
    case (Activate p)
    then show ?thesis using activate_spec [OF ids, of c p] by (auto simp: wp_simps outcome_def elim!: wp_mono)
  next
    case (Delete p)
    then show ?thesis using delete_spec [OF ids, of c p] by (auto simp: wp_simps outcome_def elim!: wp_mono)
  qed
qed

section \<open>Keeping the invariant\<close>

lemma store_ok_entry:
  "store_ok c k s \<Longrightarrow> p \<in> set (ids_of (indexed s)) \<Longrightarrow>
   \<exists>sub. dict_get (entries s) p = Some (DirNode sub) \<and> profile_ok (snapshots c) k sub"
  by (simp add: store_ok_def)

lemma index_on_disk_cong:
  "dict_get (entries s') INDEX_FILE = dict_get (entries s) INDEX_FILE \<Longrightarrow> indexed s' = indexed s \<Longrightarrow>
   index_on_disk c s' = index_on_disk c s"
  unfolding index_on_disk_def by (simp only:)

lemma refreshed_ok: "refreshed c k t sub \<Longrightarrow> profile_ok c k sub"
  by (auto simp: refreshed_def profile_ok_def)

lemma unchanged_ok:
  assumes u: "unchanged s s'" and ok: "store_ok c k s"
  shows "store_ok c k s'"
proof -
  have "\<exists>sub. dict_get (entries s') p = Some (DirNode sub) \<and> profile_ok (snapshots c) k sub"
    if p: "p \<in> set (ids_of (indexed s))" for p
  proof -
    obtain sub where sub: "dict_get (entries s) p = Some (DirNode sub)" "profile_ok (snapshots c) k sub"
      using store_ok_entry [OF ok p] by blast
    have "same_profile (entries s) (entries s') p" using u p by (simp add: unchanged_def)
    then show ?thesis using sub same_generations_ok unfolding same_profile_def by force
  qed
  then show ?thesis
    using u ok index_on_disk_cong [of s' s c] by (auto simp: unchanged_def store_ok_def rolls_ok_def ids_ok_def)
qed

lemma written_index:
  assumes "codec_ok c" "validate_index (indexed s) = Inr ()" "ids_ok s"
    "dict_get (entries s) INDEX_FILE = Some (FileNode (encode_index c (indexed s)))"
  shows "index_on_disk c s"
proof -
  have ids: "list_all is_valid_profile_id (ids_of (indexed s))" using assms(3) by (simp add: ids_ok_def list_all_iff)
  have "pred_option is_valid_profile_id (active_id (indexed s))"
    using assms(2,3) by (auto simp: validate_index_def ids_ok_def split: if_splits option.splits)
  then show ?thesis
    using assms(1,2,4) ids by (simp add: index_on_disk_def parse_index_def codec_ok_def)
qed

lemma ids_with_profile [simp]: "ids_of (with_profile p now act idx) = ids_of idx @ [p]"
  by (simp add: ids_of_def with_profile_def)

lemma ids_activated [simp]: "ids_of (idx\<lparr>active_id := a\<rparr>) = ids_of idx"
  by (simp add: ids_of_def)

lemma ids_without: "set (ids_of (without_profile n p idx)) \<subseteq> set (ids_of idx)"
  by (auto simp: ids_of_def without_profile_def Let_def dest: in_set_takeD in_set_dropD)

lemma ids_without_self:
  assumes n: "first_at (\<lambda>e. entry_id e = p) (profiles idx) = Some n" and d: "distinct (ids_of idx)"
  shows "p \<notin> set (ids_of (without_profile n p idx))"
proof -
  have n: "n < length (profiles idx)" "entry_id (profiles idx ! n) = p" using first_at_Some [OF n] by auto
  have "profiles idx = take n (profiles idx) @ profiles idx ! n # drop (Suc n) (profiles idx)"
    using n(1) by (rule id_take_nth_drop)
  then have "distinct (map entry_id (take n (profiles idx)) @ p # map entry_id (drop (Suc n) (profiles idx)))"
    using d n(2) unfolding ids_of_def by (metis list.simps(9) map_append)
  then show ?thesis by (auto simp: ids_of_def without_profile_def Let_def)
qed

lemma took_effect_ok:
  assumes e: "took_effect c k' m s s'" and ok: "store_ok c k s" and codec: "codec_ok c" and k: "k \<le> k'" "2 \<le> k'"
  shows "store_ok c k' s'"
proof -
  have old: "\<exists>sub. dict_get (entries s') p = Some (DirNode sub) \<and> profile_ok (snapshots c) k' sub"
    if "p \<in> set (ids_of (indexed s))" "dict_get (entries s') p = dict_get (entries s) p" for p
    using store_ok_entry [OF ok that(1)] that(2) profile_ok_mono [OF _ k(1)] by auto
  have rolls: "rolls_ok s'" if "set (rolls s') \<subseteq> set (rolls s)"
    using that ok by (auto simp: store_ok_def rolls_ok_def)
  have insert: "store_ok c k' s'" if i: "inserted c now act t p s s'" for now act t p
  proof -
    obtain sub where "dict_get (entries s') p = Some (DirNode sub)" "profile_ok (snapshots c) 2 sub"
      using i refreshed_ok unfolding inserted_def by blast
    then have "\<exists>sub. dict_get (entries s') p = Some (DirNode sub) \<and> profile_ok (snapshots c) k' sub"
      using profile_ok_mono [OF _ k(2)] by blast
    moreover have "ids_ok s'" using i ok by (auto simp: inserted_def store_ok_def ids_ok_def)
    ultimately show ?thesis
      using i ok old rolls written_index [OF codec, of s'] unfolding inserted_def store_ok_def by auto
  qed
  show ?thesis
  proof (cases m)
    case (Replace p snap)
    then have r: "replaced c k' p (reloaded (snapshots c) snap) s s'" using e by simp
    have "\<exists>sub. dict_get (entries s') q = Some (DirNode sub) \<and> profile_ok (snapshots c) k' sub"
      if "q \<in> set (ids_of (indexed s))" for q
      using r refreshed_ok old [OF that] that unfolding replaced_def by (cases "q = p") blast+
    moreover have "ids_ok s'" "index_on_disk c s'" "validate_index (indexed s') = Inr ()" "dict_inv (entries s')" "rolls_ok s'"
      using r ok rolls index_on_disk_cong [of s' s c] by (auto simp: replaced_def store_ok_def ids_ok_def)
    moreover have "indexed s' = indexed s" using r by (simp add: replaced_def)
    ultimately show ?thesis by (simp add: store_ok_def)
  next
    case (Activate p)
    then have a: "activated c p s s'" using e by simp
    have ids: "ids_ok s'" using a ok by (auto simp: activated_def store_ok_def ids_ok_def)
    have "index_on_disk c s' \<and> validate_index (indexed s') = Inr ()"
    proof (cases "active_id (indexed s) = Some p")
      case True
      then have "indexed s' = indexed s" using a by (simp add: activated_def)
      then show ?thesis using True a ok index_on_disk_cong [of s' s c] by (simp add: activated_def store_ok_def)
    next
      case False
      then show ?thesis using a written_index [OF codec _ ids] by (auto simp: activated_def)
    qed
    then show ?thesis using a ok old rolls ids unfolding activated_def store_ok_def by auto
  next
    case (Delete p)
    then have d: "deleted c p s s'" using e by simp
    then obtain n where n: "first_at (\<lambda>e. entry_id e = p) (profiles (indexed s)) = Some n"
      and idx: "indexed s' = without_profile n p (indexed s)" by (auto simp: deleted_def)
    have "distinct (ids_of (indexed s))" using ok by (auto simp: store_ok_def validate_index_def split: if_splits)
    then have keep: "q \<in> set (ids_of (indexed s)) - {p}" if "q \<in> set (ids_of (indexed s'))" for q
      using that ids_without ids_without_self [OF n] unfolding idx by blast
    have ids: "ids_ok s'" using keep ok by (auto simp: store_ok_def ids_ok_def)
    have "\<exists>sub. dict_get (entries s') q = Some (DirNode sub) \<and> profile_ok (snapshots c) k' sub"
      if "q \<in> set (ids_of (indexed s'))" for q
      using keep [OF that] d old [of q] by (auto simp: deleted_def)
    then show ?thesis
      using d ok ids rolls written_index [OF codec _ ids] by (auto simp: deleted_def store_ok_def)
  qed (use e insert in auto)
qed

fun run_all :: "store_codec \<Rightarrow> nat \<Rightarrow> mutation list \<Rightarrow> store \<Rightarrow> store" where
  "run_all c pid [] s = s"
| "run_all c pid (m # ms) s = run_all c pid ms (snd (run_mutation c pid m s))"

lemma mutation_ok:
  assumes ok: "store_ok c k s" and codec: "codec_ok c" and wf: "mutation_wf c m" and k: "1 \<le> k" "k < 2 ^ 64 - 1"
  shows "store_ok c (Suc k) (snd (run_mutation c pid m s))"
proof -
  have mono: "store_ok c (Suc k) s'" if "store_ok c k s'" for s'
    using that profile_ok_mono [of "snapshots c" k _ "Suc k"] unfolding store_ok_def by (meson le_SucI order_refl)
  have took: "store_ok c (Suc k) s'" if "took_effect c (Suc k) m s s'" for s'
    by (rule took_effect_ok [OF that ok codec]) (use k in auto)
  have "wp (run_mutation c pid m) (\<lambda>_. store_ok c (Suc k)) (\<lambda>_. store_ok c (Suc k)) s"
    by (rule wp_mono [OF mutation_spec [OF ok wf k]])
      (auto simp: outcome_def split: if_splits intro: took mono unchanged_ok [OF _ ok])
  then show ?thesis by (simp add: wp_snd)
qed

lemma run_all_ok:
  assumes "store_ok c k s" "codec_ok c" "list_all (mutation_wf c) ms" "1 \<le> k" "k + length ms < 2 ^ 64 - 1"
  shows "store_ok c (k + length ms) (run_all c pid ms s)"
  using assms
proof (induction ms arbitrary: k s)
  case (Cons m ms)
  then show ?case using Cons.IH [of "Suc k" "snd (run_mutation c pid m s)"] mutation_ok [of c k s m pid] by auto
qed simp

end
