(* ===== verification/Profile_Success.thy ===== *)
theory Profile_Success
  imports Profile_Guarantees
begin

text \<open>
  When nothing fails, saving a subscription succeeds: the steps of \<open>Snapshot_Store\<close> and
  \<open>Profile_Store\<close> run to their end with an empty plan.
\<close>

section \<open>Steps without faults\<close>

lemma ok_looking: "plan d = [] \<Longrightarrow> f (entries d) = Inr x \<Longrightarrow> Q x d \<Longrightarrow> wp (looking f) Q E d"
  by (simp add: wp_def looking_works)

lemma ok_mkdirat:
  "plan d = [] \<Longrightarrow> dict_get (entries d) n = None \<Longrightarrow> Q () (d\<lparr>entries := idx_insert n (DirNode []) (entries d)\<rparr>) \<Longrightarrow>
   wp (mkdirat n) Q E d"
  by (simp add: wp_def mkdirat_def syscall_def)

lemma ok_create_child:
  "plan d = [] \<Longrightarrow> dict_get (entries d) n = None \<Longrightarrow> Q () (d\<lparr>entries := idx_insert n (DirNode []) (entries d)\<rparr>) \<Longrightarrow>
   wp (create_child n) Q E d"
  unfolding create_child_def wp_simps open_child_def
  by (intro ok_mkdirat ok_looking) (auto simp: get_idx_insert)

lemma ok_write_file:
  "plan d = [] \<Longrightarrow> dict_get (entries d) n = None \<Longrightarrow> Q () (d\<lparr>entries := idx_insert n (FileNode b) (entries d)\<rparr>) \<Longrightarrow>
   wp (write_file n b) Q E d"
  by (simp add: wp_def write_file_def)

lemma ok_renameat:
  assumes "plan d = []" "renameat a b (entries d) = (Inr (), es)" "Q () (d\<lparr>entries := es\<rparr>)"
  shows "wp (rename_child a b) Q E d" "wp (replace_file a b) Q E d"
  using assms by (simp_all add: wp_def rename_child_def replace_file_def syscall_def)

lemma ok_sync: "plan d = [] \<Longrightarrow> Q () d \<Longrightarrow> wp sync Q E d"
  unfolding sync_def by (rule ok_looking) auto

lemma ok_write_files:
  assumes "plan d = []" "distinct (map fst files)" "\<forall>(n, b)\<in>set files. dict_get (entries d) n = None"
  shows "wp (for_each (\<lambda>(n, b). write_file n b) files)
    (\<lambda>_ d'. d' = d\<lparr>entries := entries d @ map (\<lambda>(n, b). (n, FileNode b)) files\<rparr>) E d"
  using assms
proof (induction files arbitrary: d)
  case (Cons nb files)
  obtain n b where nb: "nb = (n, b)" by force
  have "wp (for_each (\<lambda>(n, b). write_file n b) files)
      (\<lambda>_ d'. d' = d\<lparr>entries := entries d @ map (\<lambda>(n, b). (n, FileNode b)) (nb # files)\<rparr>) E
      (d\<lparr>entries := idx_insert n (FileNode b) (entries d)\<rparr>)"
    using Cons.prems by (intro wp_mono [OF Cons.IH]) (auto simp: nb insert_new get_idx_insert image_iff)
  then show ?case
    using Cons.prems by (auto simp: nb wp_simps intro!: ok_write_file)
qed (simp add: wp_simps)

text \<open>An empty plan stays empty.\<close>

abbreviation quiet :: "'s disk_scheme \<Rightarrow> bool" where
  "quiet d \<equiv> plan d = []"

lemma clear_entries_quiet: "clear_entries es [] = (None, [], [])"
proof -
  have "fs = [] \<Longrightarrow> clear_entries es fs = (None, [], [])" for fs
    by (induction es fs rule: clear_entries.induct) auto
  then show ?thesis by simp
qed

lemma remove_child_tree_quiet:
  assumes "quiet d" "dict_get (entries d) n \<in> {None, Some (DirNode sub)}"
  shows "\<exists>d'. remove_child_tree n d = (Inr (), d') \<and> quiet d'"
  using assms by (auto simp: remove_child_tree_def open_child_def looking_works clear_entries_quiet)

lemma keeps_quiet_remove: "keeps quiet (remove_child_tree n)"
  unfolding keeps_def
proof (intro allI impI)
  fix d :: "'a disk_scheme"
  assume d: "quiet d"
  show "quiet (snd (remove_child_tree n d))"
    using d by (auto simp: remove_child_tree_def open_child_def looking_works clear_entries_quiet
        split: option.split tree.split io_kind.split)
qed

lemma prune_keeps_quiet: "keeps quiet (prune_superseded_generations pid g)"
proof (rule prune_keeps [OF keeps_quiet_remove])
  show "keeps quiet list_entries"
    unfolding keeps_def list_entries_def by (simp add: looking_works)
qed

lemma prune_quiet: "quiet d \<Longrightarrow> wp (prune_superseded_generations pid g) (\<lambda>_. quiet) E d"
  by (rule never_fails_wp [OF prune_never_fails, where E = "\<lambda>_. quiet"])
    (use prune_keeps_quiet [unfolded keeps_wp] in blast)

section \<open>A commit\<close>

lemma in_child_quiet:
  assumes "quiet d" "dict_get (entries d) n = Some (DirNode es)"
    and "wp f (\<lambda>x c. quiet c \<and> Q x (d\<lparr>entries := idx_insert n (DirNode (entries c)) (entries d)\<rparr>)) (\<lambda>_ _. False) \<lparr>entries = es, plan = []\<rparr>"
  shows "wp (in_child n f) Q E d"
proof -
  have "d\<lparr>entries := x, plan := []\<rparr> = d\<lparr>entries := x\<rparr>" for x
    using assms(1) by (metis update_order update_same(1))
  then show ?thesis
    unfolding wp_in_child [OF assms(2)] assms(1) by (intro wp_mono [OF assms(3)]) auto
qed

lemma retain_logo_quiet:
  assumes "quiet d" "dict_get (entries d) (published_name g) = Some (DirNode (stored_files c s))"
    and logo: "pred_option (\<lambda>b. length b \<le> MAX_SERVICE_LOGO_OUTPUT_BYTES) (service_logo_png s)"
  shows "wp (retain_logo g s (Inr ())) (\<lambda>debt d'. debt = None \<and> d' = d) E d"
proof (cases "service_logo_png s")
  case None
  then show ?thesis by (simp add: retain_logo_def wp_simps)
next
  case (Some b)
  have "dict_get (stored_files c s) LOGO_FILE = Some (FileNode b)"
    by (auto simp: stored_files_def snapshot_files_def file_names Some split: option.split)
  then have "wp (read_file LOGO_FILE MAX_SERVICE_LOGO_OUTPUT_BYTES) (\<lambda>_ c'. c' = \<lparr>entries = stored_files c s, plan = []\<rparr>)
      (\<lambda>_ _. False) \<lparr>entries = stored_files c s, plan = []\<rparr>"
    unfolding read_file_def by (intro ok_looking) (use logo Some in \<open>auto simp: open_file_read_def\<close>)
  then have "wp (in_child (published_name g) (read_file LOGO_FILE MAX_SERVICE_LOGO_OUTPUT_BYTES)) (\<lambda>_ d'. d' = d) (\<lambda>_ _. False) d"
    by (intro in_child_quiet [OF assms(1,2)]) (auto elim!: wp_mono simp: insert_present [OF assms(2)])
  then show ?thesis
    using assms(1,2) Some unfolding retain_logo_def
    by (auto simp: wp_simps open_child_def intro!: ok_looking elim!: wp_mono)
qed

lemma publish_quiet:
  assumes d: "quiet d" "dict_get (entries d) (staging_name pid g) = Some (DirNode [])"
    "dict_get (entries d) (published_name g) = None"
  shows "wp (publish_generation c pid g s) (\<lambda>r d'. r = Inr () \<and> quiet d' \<and>
      dict_get (entries d') (published_name g) = Some (DirNode (stored_files c s))) E d"
proof -
  let ?st = "staging_name pid g"
  have files: "wp (andthen (for_each (\<lambda>(n, b). write_file n b) (snapshot_files c s)) (\<lambda>_. sync))
      (\<lambda>_ c'. c' = \<lparr>entries = stored_files c s, plan = []\<rparr>) (\<lambda>_ _. False) \<lparr>entries = [], plan = []\<rparr>"
    unfolding wp_andthen
    by (rule wp_mono [OF ok_write_files [OF _ snapshot_files_distinct]])
      (auto simp: stored_files_def intro!: ok_sync)
  have "wp (andthen (rename_child ?st (published_name g)) (\<lambda>_. attempt sync))
      (\<lambda>r d'. r = Inr () \<and> quiet d' \<and> dict_get (entries d') (published_name g) = Some (DirNode (stored_files c s))) E
      (d\<lparr>entries := idx_insert ?st (DirNode (stored_files c s)) (entries d)\<rparr>)"
    unfolding wp_andthen wp_attempt
    by (rule ok_renameat) (use d in \<open>auto simp: renameat_def get_idx_insert Let_def intro!: ok_sync\<close>)
  then show ?thesis
    unfolding publish_generation_def wp_andthen [of "in_child _ _"]
    by (intro in_child_quiet [OF d(1,2)]) (auto intro!: wp_mono [OF files])
qed

lemma commit_quiet:
  assumes d: "quiet d" "dict_get (entries d) (staging_name pid g) = None" "dict_get (entries d) (published_name g) = None"
    and logo: "pred_option (\<lambda>b. length b \<le> MAX_SERVICE_LOGO_OUTPUT_BYTES) (service_logo_png s)"
  shows "wp (commit_with_generation_status c pid g s) (\<lambda>r d'. r = (g, None) \<and> quiet d') E d"
proof -
  let ?st = "staging_name pid g"
  have finish: "wp (andthen (retain_logo g s (Inr ())) (\<lambda>debt. andthen (prune_superseded_generations pid g) (\<lambda>_. return (g, debt))))
      (\<lambda>r d'. r = (g, None) \<and> quiet d') E d2"
    if "quiet d2" "dict_get (entries d2) (published_name g) = Some (DirNode (stored_files c s))" for d2
    unfolding wp_andthen
    by (rule wp_mono [OF retain_logo_quiet [OF that logo]])
      (use that(1) in \<open>auto simp: wp_simps intro!: wp_mono [OF prune_quiet]\<close>)
  show ?thesis
    unfolding commit_with_generation_status_def wp_andthen [of "create_child _"] wp_andthen [of "attempt _"] wp_attempt
    by (rule ok_create_child [OF d(1,2)], rule wp_mono [OF publish_quiet [of _ pid g c s]])
      (use d in \<open>auto simp: get_idx_insert intro: finish\<close>)
qed

section \<open>Adding a subscription\<close>

lemma open_and_commit_quiet:
  assumes "quiet s" "dict_get (entries s) p = Some (DirNode [])"
    and "pred_option (\<lambda>b. length b \<le> MAX_SERVICE_LOGO_OUTPUT_BYTES) (service_logo_png snap)"
  shows "wp (open_and_commit c pid p snap) (\<lambda>r s'. r = (1, None) \<and> quiet s') E s"
  unfolding open_and_commit_def wp_map_error
proof (rule in_child_quiet [OF assms(1,2)])
  let ?d = "\<lparr>entries = [], plan = []\<rparr>"
  have next1: "next_generation [] = 1" by (simp add: next_generation_def by_newest_def bounded_add_def)
  have "open_capability (snapshots c) ?d = (Inr (current_of (snapshots c) [], 1), ?d)"
    using open_works [of ?d "snapshots c"] by (simp add: generations_ok_empty next1)
  moreover have "wp (commit_with_generation_status (snapshots c) pid 1 snap) (\<lambda>r d'. r = (1, None) \<and> quiet d') (\<lambda>_ _. False) ?d"
    by (rule commit_quiet) (use assms(3) in auto)
  ultimately show "wp (andthen (open_capability (snapshots c)) (\<lambda>(_, g). commit_with_generation_status (snapshots c) pid g snap))
      (\<lambda>r d'. quiet d' \<and> r = (1, None) \<and> quiet (s\<lparr>entries := idx_insert p (DirNode (entries d')) (entries s)\<rparr>))
      (\<lambda>_ _. False) ?d"
    using assms(1) unfolding wp_andthen by (auto simp: wp_def split: prod.splits sum.splits)
qed

lemma store_snapshot_quiet:
  assumes "quiet s" "dict_get (entries s) p = Some (DirNode [])"
    and "pred_option (\<lambda>b. length b \<le> MAX_SERVICE_LOGO_OUTPUT_BYTES) (service_logo_png snap)"
    and t: "loaded (snapshots c) (stored_files (snapshots c) snap) = Some t"
  shows "wp (store_snapshot c pid p snap) (\<lambda>debt s'. debt = None \<and> quiet s') E s"
proof -
  have load: "wp (andthen (load_profile c p) (\<lambda>_. return None)) (\<lambda>debt s'. debt = None \<and> quiet s') E s1"
    if "quiet s1" "dict_get (entries s1) p = Some (DirNode sub)" "refreshed (snapshots c) 2 t sub" for s1 sub
    using load_works [OF that(1,2)] that(1,3) by (auto simp: refreshed_def wp_def andthen_def return_def)
  have commit: "wp (open_and_commit c pid p snap)
      (\<lambda>r s'. (r = (1, None) \<and> quiet s') \<and>
        (\<exists>sub. dict_get (entries s') p = Some (DirNode sub) \<and> refreshed (snapshots c) 2 t sub)) (\<lambda>_ _. False) s"
    by (rule wp_mono [OF wp_conj [OF open_and_commit_quiet [OF assms(1-3), where E = "\<lambda>_ _. False"]
        open_and_commit_spec [OF assms(2) generations_ok_empty(1), of 1 c snap t pid]]])
      (use t in \<open>auto simp: generations_ok_empty numeral_2_eq_2 [symmetric]\<close>)
  show ?thesis
    unfolding store_snapshot_def wp_andthen [of "open_and_commit _ _ _ _"]
    by (rule wp_mono [OF commit]) (auto intro: load)
qed

definition not_a_folder :: "string \<Rightarrow> folder \<Rightarrow> bool" where
  "not_a_folder n es \<longleftrightarrow> (case dict_get es n of Some (DirNode _) \<Rightarrow> False | _ \<Rightarrow> True)"

lemma ok_remove_file:
  "quiet d \<Longrightarrow> not_a_folder n (entries d) \<Longrightarrow>
   (dict_get (removed n (entries d)) n = None \<Longrightarrow> Q () (d\<lparr>entries := removed n (entries d)\<rparr>)) \<Longrightarrow>
   (dict_get (entries d) n = None \<Longrightarrow> Q () d) \<Longrightarrow> wp (remove_file n) Q E d"
  by (auto simp: wp_def remove_file_def syscall_def not_a_folder_def removed_def get_dict_retain
      split: option.splits tree.splits)

lemma write_index_quiet:
  assumes "quiet s" "not_a_folder INDEX_TEMP_FILE (entries s)" "not_a_folder INDEX_FILE (entries s)"
  shows "wp (write_index bytes) (\<lambda>r s'. r = Clean \<and> quiet s') E s"
proof -
  let ?T = INDEX_TEMP_FILE
  have renew: "wp (andthen (write_file ?T bytes) (\<lambda>_. andthen (replace_file ?T INDEX_FILE) (\<lambda>_. andthen (attempt sync)
        (\<lambda>r. return (case r of Inr _ \<Rightarrow> Clean | Inl k \<Rightarrow> MaintenanceDebt k))))) (\<lambda>r s'. r = Clean \<and> quiet s') E s1"
    if "quiet s1" "dict_get (entries s1) ?T = None" "not_a_folder INDEX_FILE (entries s1)" for s1
    unfolding wp_simps
    by (rule ok_write_file [OF that(1,2)], rule ok_renameat(2))
      (use that index_names in \<open>auto simp: renameat_def get_idx_insert Let_def not_a_folder_def wp_simps
        intro!: ok_sync split: option.splits tree.splits\<close>)
  show ?thesis
    unfolding write_index_def wp_andthen [of "file_metadata _"] wp_andthen [of "if _ then _ else _"]
    unfolding file_metadata_def
    by (rule ok_looking [OF assms(1) refl])
      (use assms index_names in \<open>auto simp: wp_return removed_def get_dict_retain not_a_folder_def
        intro!: ok_remove_file renew\<close>)
qed

lemma persist_index_quiet:
  assumes "quiet s" "not_a_folder INDEX_TEMP_FILE (entries s)" "not_a_folder INDEX_FILE (entries s)"
    "validate_index idx = Inr ()"
  shows "wp (persist_index c idx) (\<lambda>r s'. r = Clean \<and> quiet s') E s"
  unfolding persist_index_def wp_andthen [of "lift_result _"] wp_andthen [of "attempt _"] wp_lift wp_attempt
  by (simp add: assms(4), rule wp_mono [OF write_index_quiet [OF assms(1-3)]]) (auto simp: wp_return)

lemma profile_entry_ids_works:
  "quiet s \<Longrightarrow> profile_entry_ids s = (Inr (sort (filter is_valid_profile_id (map fst (entries s)))), s)"
  by (simp add: profile_entry_ids_def list_entries_def looking_works andthen_def map_error_def return_def
      comp_def case_prod_beta)

definition occupied_slots :: "store \<Rightarrow> nat" where
  "occupied_slots s = card (set (ids_of (indexed s)) \<union> {n \<in> fst ` set (entries s). is_valid_profile_id n})"

lemma occupied_works: "quiet s \<Longrightarrow> occupied_profile_slots s = (Inr (occupied_slots s), s)"
proof -
  assume q: "quiet s"
  have "length (remdups (ids_of (indexed s) @ sort (filter is_valid_profile_id (map fst (entries s))))) = occupied_slots s"
    by (simp only: length_remdups_card_conv set_append set_sort set_filter set_map occupied_slots_def)
  then show ?thesis
    using q by (simp add: occupied_profile_slots_def andthen_def profile_entry_ids_works with_index_def return_def
        del: length_remdups_card_conv)
qed

lemma occupied_indexed: "validate_index (indexed s) = Inr () \<Longrightarrow> length (profiles (indexed s)) \<le> occupied_slots s"
proof -
  assume "validate_index (indexed s) = Inr ()"
  then have "distinct (ids_of (indexed s))" by (auto simp: validate_index_def split: if_splits)
  then have "card (set (ids_of (indexed s))) = length (profiles (indexed s))"
    using distinct_card [of "ids_of (indexed s)"] by (simp add: ids_of_def)
  moreover have "card (set (ids_of (indexed s))) \<le> occupied_slots s"
    unfolding occupied_slots_def by (rule card_mono) auto
  ultimately show ?thesis by simp
qed

lemma with_profile_valid:
  assumes "validate_index idx = Inr ()" "length (profiles idx) < MAX_PROFILES" "p \<notin> set (ids_of idx)"
    "act \<or> active_id idx \<noteq> None"
  shows "validate_index (with_profile p now act idx) = Inr ()"
  using assms by (auto simp: validate_index_def with_profile_def ids_of_def split: if_splits option.splits)

lemma pick_id_works:
  assumes "quiet s" "rolls s = Some bytes # rs" "\<not> taken (generate_id bytes)" "dict_get (entries s) (generate_id bytes) = None"
  shows "pick_id taken s = (Inr (generate_id bytes), s\<lparr>rolls := rs\<rparr>)"
  using assms by (simp add: pick_id_def file_metadata_def looking_works)

lemma insert_profile_quiet:
  assumes s: "quiet s" "validate_index (indexed s) = Inr ()" "ids_ok s" "rolls_ok s"
    and roll: "rolls s = Some bytes # rs" "generate_id bytes \<notin> set (ids_of (indexed s))"
      "dict_get (entries s) (generate_id bytes) = None"
    and files: "not_a_folder INDEX_TEMP_FILE (entries s)" "not_a_folder INDEX_FILE (entries s)"
    and room: "occupied_slots s < MAX_PROFILES" "act \<or> active_id (indexed s) \<noteq> None"
    and logo: "pred_option (\<lambda>b. length b \<le> MAX_SERVICE_LOGO_OUTPUT_BYTES) (service_logo_png snap)"
    and t: "loaded (snapshots c) (stored_files (snapshots c) snap) = Some t"
  shows "wp (insert_profile c pid now snap act) (\<lambda>p s'. p = generate_id bytes \<and> quiet s') E s"
proof -
  let ?p = "generate_id bytes"
  let ?s = "s\<lparr>rolls := rs, entries := idx_insert ?p (DirNode []) (entries s)\<rparr>"
  have valid: "is_valid_profile_id ?p" by (rule generate_id_valid) (use s(4) roll(1) in \<open>simp add: rolls_ok_def\<close>)
  note names = valid_id_names [OF valid]
  have start: "quiet ?s" "dict_get (entries ?s) ?p = Some (DirNode [])"
    "not_a_folder INDEX_TEMP_FILE (entries ?s)" "not_a_folder INDEX_FILE (entries ?s)"
    using s(1) files names by (auto simp: get_idx_insert not_a_folder_def)
  have index: "validate_index (with_profile ?p now act (indexed s)) = Inr ()"
    using s(2) occupied_indexed [OF s(2)] room roll(2) by (intro with_profile_valid) auto
  have publish_generation: "wp (publish_profile c ?p (with_profile ?p now act (indexed s)) None)
      (\<lambda>p s'. p = ?p \<and> quiet s') E s1" if "quiet s1" "sframe {?p} ?s s1" for s1
  proof -
    have "dict_get (entries s1) INDEX_TEMP_FILE = dict_get (entries ?s) INDEX_TEMP_FILE"
      "dict_get (entries s1) INDEX_FILE = dict_get (entries ?s) INDEX_FILE"
      using names sframe_get [OF that(2), of INDEX_TEMP_FILE] sframe_get [OF that(2), of INDEX_FILE] by auto
    then have "not_a_folder INDEX_TEMP_FILE (entries s1)" "not_a_folder INDEX_FILE (entries s1)"
      using start(3,4) by (simp_all add: not_a_folder_def)
    then show ?thesis
      unfolding publish_profile_def wp_andthen [of "attempt _"] wp_attempt
      by (intro wp_mono [OF persist_index_quiet [OF that(1) _ _ index]]) (auto simp: wp_simps)
  qed
  have store: "wp (attempt (store_snapshot c pid ?p snap)) (\<lambda>r s'. r = Inr None \<and> quiet s' \<and> sframe {?p} ?s s') E ?s"
    unfolding wp_attempt
    by (rule wp_mono [OF wp_conj [OF store_snapshot_quiet [OF start(1,2) logo t, where E = "\<lambda>_ _. False"]
          store_snapshot_spec [OF start(2) t]]]) auto
  have save: "wp (andthen (attempt (store_snapshot c pid ?p snap)) (\<lambda>result. case result of
        Inl e \<Rightarrow> abandon ?p e
      | Inr debt \<Rightarrow> publish_profile c ?p (with_profile ?p now act (indexed s)) debt)) (\<lambda>p s'. p = ?p \<and> quiet s') E ?s"
    unfolding wp_andthen by (rule wp_mono [OF store]) (auto intro: publish_generation)
  have make: "create_child ?p (s\<lparr>rolls := rs\<rparr>) = (Inr (), ?s)"
    using s(1) roll(3)
    by (simp add: create_child_def andthen_def mkdirat_def syscall_def open_child_def looking_works get_idx_insert)
  have "insert_profile c pid now snap act s = andthen (attempt (store_snapshot c pid ?p snap)) (\<lambda>result. case result of
        Inl e \<Rightarrow> abandon ?p e
      | Inr debt \<Rightarrow> publish_profile c ?p (with_profile ?p now act (indexed s)) debt) ?s"
    using room(1) roll(2)
    by (simp add: insert_profile_def with_index_def andthen_def [of occupied_profile_slots] occupied_works [OF s(1)]
        andthen_def [of "pick_id _"] pick_id_works [OF s(1) roll(1) _ roll(3)] andthen_def [of "map_error _ _"]
        map_error_def make)
  then show ?thesis using save by (simp add: wp_def)
qed

end
