(* ===== verification/Profile_Reopen.thy ===== *)
theory Profile_Reopen
  imports Profile_Success
begin

text \<open>
  Opening a store again when nothing fails: the index file gives back the index, the profiles it names
  are not touched, and directories it does not name are gone.
\<close>

lemma remove_entry_quiet:
  assumes "quiet s"
  shows "wp (remove_entry_nofollow n) (\<lambda>_ s'. quiet s' \<and> dict_get (entries s') n = None) E s"
  unfolding remove_entry_nofollow_def wp_andthen
proof (rule ok_looking [OF assms refl])
  have "wp (remove_child_tree n) (\<lambda>_ s'. quiet s' \<and> dict_get (entries s') n = None) E s"
    if "dict_get (entries s) n = Some (DirNode sub)" for sub
    using assms that by (simp add: wp_def remove_child_tree_def open_child_def looking_works clear_entries_quiet
        removed_def get_dict_retain)
  then show "wp (case dict_get (entries s) n of None \<Rightarrow> return () | Some (DirNode _) \<Rightarrow> remove_child_tree n | Some _ \<Rightarrow> remove_file n)
      (\<lambda>_ s'. quiet s' \<and> dict_get (entries s') n = None) E s"
    using assms by (auto simp: wp_return not_a_folder_def removed_def get_dict_retain intro!: ok_remove_file
        split: option.split tree.split)
qed

lemma remove_entry_sframe: "quiet s \<Longrightarrow>
  wp (remove_entry_nofollow n) (\<lambda>_ s'. (quiet s' \<and> dict_get (entries s') n = None) \<and> sframe {n} s s') (\<lambda>_ _. False) (s :: store)"
proof -
  assume q: "quiet s"
  have "wp (remove_entry_nofollow n) (\<lambda>_. sframe {n} s) (\<lambda>_. sframe {n} s) s"
    by (rule wp_sframe [of "{n}"]) (auto intro: touch_intros)
  from wp_conj [OF remove_entry_quiet [OF q, of n "\<lambda>_ _. False"] this] show ?thesis by (rule wp_mono) auto
qed

lemma remove_orphans_quiet:
  "quiet s \<Longrightarrow> wp (remove_orphans known any ids)
     (\<lambda>_ s'. sframe (set ids - set known) s s' \<and> (\<forall>n\<in>set ids - set known. dict_get (entries s') n = None))
     (\<lambda>_ _. False) s"
proof (induction ids arbitrary: s any)
  case Nil
  then show ?case by (auto simp: wp_simps intro: ok_sync)
next
  case (Cons n ids)
  show ?case
  proof (cases "n \<in> set known")
    case True
    have eq: "set (n # ids) - set known = set ids - set known" using True by auto
    show ?thesis unfolding eq using True Cons.IH [OF Cons.prems] by simp
  next
    case False
    let ?N = "insert n (set ids) - set known"
    have step: "wp (remove_orphans known True ids)
        (\<lambda>_ s'. sframe ?N s s' \<and> (\<forall>m\<in>?N. dict_get (entries s') m = None)) (\<lambda>_ _. False) s1"
      if s1: "quiet s1" "dict_get (entries s1) n = None" "sframe {n} s s1" for s1
    proof (rule wp_mono [OF Cons.IH [OF s1(1)]])
      fix u s'
      assume s': "sframe (set ids - set known) s1 s' \<and> (\<forall>m\<in>set ids - set known. dict_get (entries s') m = None)"
      have "sframe ?N s s'"
        by (rule sframe_trans [OF sframe_mono [OF s1(3)] sframe_mono [OF conjunct1 [OF s']]]) (use False in auto)
      moreover have "dict_get (entries s') n = None"
        using s' s1(2) sframe_get [OF conjunct1 [OF s'], of n] by (cases "n \<in> set ids") (use False in auto)
      ultimately show "sframe ?N s s' \<and> (\<forall>m\<in>?N. dict_get (entries s') m = None)" using s' by auto
    qed simp
    show ?thesis
      using False by (auto simp: wp_simps intro!: wp_mono [OF remove_entry_sframe [OF Cons.prems]] step)
  qed
qed

definition restarted :: "store \<Rightarrow> store" where
  "restarted s = s\<lparr>plan := [], indexed := empty_index, maintenance_debt := False\<rparr>"

lemma read_index_works:
  assumes "index_on_disk c s" "validate_index (indexed s) = Inr ()"
  shows "\<exists>found. read_profile_index c (restarted s) = (Inr found, restarted s) \<and>
    (case found of Some idx \<Rightarrow> idx | None \<Rightarrow> empty_index) = indexed s"
proof (cases "dict_get (entries s) INDEX_FILE")
  case None
  then show ?thesis
    using assms by (simp add: index_on_disk_def read_profile_index_def act_simps file_metadata_def looking_works restarted_def)
next
  case (Some t)
  then obtain b where "t = FileNode b" "length b \<le> MAX_PROFILE_INDEX_BYTES" "parse_index c b = Inr (indexed s)"
    using assms by (cases t) (auto simp: index_on_disk_def)
  then show ?thesis
    using Some assms(2)
    by (simp add: read_profile_index_def act_simps file_metadata_def looking_works restarted_def read_file_def open_file_read_def)
qed

lemma sframe_reads:
  assumes "sframe N s s'" "p \<notin> N" "dict_get (entries s) p = Some (DirNode sub)" "generations_ok sub"
  shows "reads c p s' = reads c p s"
  using reads_same [OF _ assms(3,4), of s' c] sframe_get [OF assms(1,2)] by (simp add: same_profile_def)

lemma gone: "\<forall>n\<in>A - B. f n = None \<Longrightarrow> n \<notin> B \<Longrightarrow> f n \<noteq> None \<Longrightarrow> n \<notin> A"
  by (metis DiffI)

lemma not_listed: "is_valid_profile_id n \<Longrightarrow> n \<notin> set (sort (filter is_valid_profile_id (map fst es))) \<Longrightarrow> dict_get es n = None"
proof -
  assume "is_valid_profile_id n" "n \<notin> set (sort (filter is_valid_profile_id (map fst es)))"
  then have "n \<notin> fst ` set es" unfolding set_sort set_filter set_map by blast
  then show ?thesis by (simp only: map_of_eq_None_iff not_False_eq_True)
qed

lemma open_works_again:
  assumes ok: "store_ok c k s"
  shows "\<exists>s'. open_impl c pid now (Inr ()) (Inr ()) (Inr ()) None (restarted s) = (Inr (), s') \<and>
    indexed s' = indexed s \<and> (\<forall>p\<in>set (ids_of (indexed s)). reads c p s' = reads c p s) \<and>
    (\<forall>n. is_valid_profile_id n \<longrightarrow> dict_get (entries s') n \<noteq> None \<longrightarrow> n \<in> set (ids_of (indexed s)))"
proof -
  obtain found where found: "read_profile_index c (restarted s) = (Inr found, restarted s)"
    and idx: "(case found of Some idx \<Rightarrow> idx | None \<Rightarrow> empty_index) = indexed s"
    using ok read_index_works [of c s] unfolding store_ok_def by blast
  let ?s = "(restarted s)\<lparr>indexed := indexed s\<rparr>"
  let ?ids = "sort (filter is_valid_profile_id (map fst (entries ?s)))" and ?known = "ids_of (indexed s)"
  have q: "quiet ?s" by (simp add: restarted_def)
  have "quiet (restarted s)" by (simp add: restarted_def)
  then have opened: "open_impl c pid now (Inr ()) (Inr ()) (Inr ()) None (restarted s) =
      with_index cleanup_unindexed_profile_directories ?s"
    using found idx by (simp add: open_impl_def act_simps sync_def looking_works put_index_def)
  have cleanup: "with_index cleanup_unindexed_profile_directories ?s = remove_orphans ?known False ?ids ?s"
    by (simp add: with_index_def cleanup_unindexed_profile_directories_def andthen_def profile_entry_ids_works [OF q])
  obtain s' where run: "remove_orphans ?known False ?ids ?s = (Inr (), s')"
    and s': "sframe (set ?ids - set ?known) ?s s'" "\<forall>n\<in>set ?ids - set ?known. dict_get (entries s') n = None"
    using remove_orphans_quiet [OF q, of ?known False ?ids] by (auto simp: wp_def split: prod.splits sum.splits)
  have same_reads: "reads c p s' = reads c p s" if p: "p \<in> set ?known" for p
  proof -
    obtain sub where sub: "dict_get (entries s) p = Some (DirNode sub)" "generations_ok sub"
      using store_ok_entry [OF ok p] by (auto simp: profile_ok_def)
    have "reads c p s' = reads c p ?s"
      by (rule sframe_reads [OF s'(1) _ _ sub(2)]) (use p sub(1) in \<open>auto simp: restarted_def\<close>)
    also have "\<dots> = reads c p s" by (rule reads_same [OF _ sub]) (simp add: restarted_def same_profile_def)
    finally show ?thesis .
  qed
  have listed: "n \<in> set ?known" if n: "is_valid_profile_id n" "dict_get (entries s') n \<noteq> None" for n
  proof (rule ccontr)
    assume unknown: "n \<notin> set ?known"
    have out: "n \<notin> set ?ids" by (rule gone [OF s'(2) unknown n(2)])
    have same: "dict_get (entries s') n = dict_get (entries ?s) n"
      by (rule sframe_get [OF s'(1) contra_subsetD [OF Diff_subset out]])
    show False
      by (rule notE [OF n(2)]) (rule trans [OF same not_listed [OF n(1) out]])
  qed
  show ?thesis
  proof (intro exI [of _ s'] conjI ballI allI impI)
    show "open_impl c pid now (Inr ()) (Inr ()) (Inr ()) None (restarted s) = (Inr (), s')"
      unfolding opened cleanup by (rule run)
    show "indexed s' = indexed s" using s'(1) by (simp add: sframe_def)
  qed (rule same_reads listed; assumption)+
qed

end
