(* ===== verification/Profile_Faults.thy ===== *)
theory Profile_Faults
  imports Profile_Reopen
begin

text \<open>
  Placing a fault: an action that runs through takes a number of working calls, so a plan can let everything
  before a call work and that call fail.
\<close>

definition steady :: "('s, 'e, 'a) act \<Rightarrow> bool" where
  "steady f \<longleftrightarrow> (\<forall>d. quiet d \<longrightarrow> quiet (snd (f d)) \<and>
     (\<exists>n. \<forall>fs. f (d\<lparr>plan := replicate n Works @ fs\<rparr>) = (fst (f d), (snd (f d))\<lparr>plan := fs\<rparr>)))"

named_theorems steady_intros

lemma steadyI:
  assumes "\<And>d. quiet d \<Longrightarrow> \<exists>n r d'. f d = (r, d') \<and> quiet d' \<and>
    (\<forall>fs. f (d\<lparr>plan := replicate n Works @ fs\<rparr>) = (r, d'\<lparr>plan := fs\<rparr>))"
  shows "steady f"
  unfolding steady_def
proof (intro allI impI)
  fix d :: "'a disk_scheme"
  assume "quiet d"
  then obtain n r d' where "f d = (r, d')" "quiet d'"
    "\<forall>fs. f (d\<lparr>plan := replicate n Works @ fs\<rparr>) = (r, d'\<lparr>plan := fs\<rparr>)" using assms by blast
  then show "quiet (snd (f d)) \<and> (\<exists>n. \<forall>fs. f (d\<lparr>plan := replicate n Works @ fs\<rparr>) = (fst (f d), (snd (f d))\<lparr>plan := fs\<rparr>))"
    by auto
qed

lemma steadyE:
  assumes "steady f" "quiet d"
  obtains n where "quiet (snd (f d))"
    "\<forall>fs. f (d\<lparr>plan := replicate n Works @ fs\<rparr>) = (fst (f d), (snd (f d))\<lparr>plan := fs\<rparr>)"
  using assms unfolding steady_def by blast

lemma steady_plain [steady_intros]: "steady (return x)" "steady (throw e)" "steady (lift_result r)"
  by (rule steadyI, rule exI [of _ 0], simp add: return_def throw_def lift_result_def)+

lemma steady_looking: "steady (looking f)"
  by (rule steadyI, rule exI [of _ 1]) (simp add: looking_works, simp add: looking_def syscall_def next_fault_def)

lemma steady_reads [steady_intros]:
  "steady list_entries" "steady (file_metadata n)" "steady (read_file n k)"
  "steady (secure_regular_file n)" "steady (open_child n)" "steady sync"
  unfolding looking_defs by (rule steady_looking)+

lemma steady_andthen [steady_intros]:
  assumes f: "steady f" and g: "\<And>x. steady (g x)"
  shows "steady (andthen f g)"
proof (rule steadyI)
  fix d :: "'a disk_scheme"
  assume "quiet d"
  then obtain n where n: "quiet (snd (f d))"
    "\<forall>fs. f (d\<lparr>plan := replicate n Works @ fs\<rparr>) = (fst (f d), (snd (f d))\<lparr>plan := fs\<rparr>)"
    using f unfolding steady_def by blast
  show "\<exists>n r d'. andthen f g d = (r, d') \<and> quiet d' \<and>
      (\<forall>fs. andthen f g (d\<lparr>plan := replicate n Works @ fs\<rparr>) = (r, d'\<lparr>plan := fs\<rparr>))"
  proof (cases "fst (f d)")
    case (Inl e)
    then show ?thesis
      using n by (intro exI [of _ n] exI [of _ "Inl e"] exI [of _ "snd (f d)"]) (auto simp: andthen_def split: prod.split)
  next
    case (Inr x)
    obtain m where m: "quiet (snd (g x (snd (f d))))"
      "\<forall>fs. g x ((snd (f d))\<lparr>plan := replicate m Works @ fs\<rparr>) = (fst (g x (snd (f d))), (snd (g x (snd (f d))))\<lparr>plan := fs\<rparr>)"
      using g n(1) unfolding steady_def by blast
    have "andthen f g d = g x (snd (f d))" using Inr by (cases "f d") (simp add: andthen_def)
    moreover have "andthen f g (d\<lparr>plan := replicate (n + m) Works @ fs\<rparr>) =
        (fst (g x (snd (f d))), (snd (g x (snd (f d))))\<lparr>plan := fs\<rparr>)" for fs
      using n(2) [rule_format, of "replicate m Works @ fs"] m(2) [rule_format, of fs] Inr by (simp add: andthen_def replicate_add)
    ultimately show ?thesis using m(1)
      by (intro exI [of _ "n + m"] exI [of _ "fst (g x (snd (f d)))"] exI [of _ "snd (g x (snd (f d)))"]) simp
  qed
qed

lemma steady_attempt [steady_intros]: "steady f \<Longrightarrow> steady (attempt f)"
proof (rule steadyI)
  fix d :: "'a disk_scheme"
  assume "steady f" "quiet d"
  then obtain n where "quiet (snd (f d))"
    "\<forall>fs. f (d\<lparr>plan := replicate n Works @ fs\<rparr>) = (fst (f d), (snd (f d))\<lparr>plan := fs\<rparr>)"
    unfolding steady_def by blast
  then show "\<exists>n r d'. attempt f d = (r, d') \<and> quiet d' \<and>
      (\<forall>fs. attempt f (d\<lparr>plan := replicate n Works @ fs\<rparr>) = (r, d'\<lparr>plan := fs\<rparr>))"
    by (intro exI [of _ n]) (simp add: attempt_def case_prod_beta)
qed

lemma steady_map_error [steady_intros]: "steady f \<Longrightarrow> steady (map_error h f)"
proof (rule steadyI)
  fix d :: "'a disk_scheme"
  assume "steady f" "quiet d"
  then obtain n where n: "quiet (snd (f d))"
    "\<forall>fs. f (d\<lparr>plan := replicate n Works @ fs\<rparr>) = (fst (f d), (snd (f d))\<lparr>plan := fs\<rparr>)"
    unfolding steady_def by blast
  have f: "f d = (fst (f d), snd (f d))" by simp
  show "\<exists>n r d'. map_error h f d = (r, d') \<and> quiet d' \<and>
      (\<forall>fs. map_error h f (d\<lparr>plan := replicate n Works @ fs\<rparr>) = (r, d'\<lparr>plan := fs\<rparr>))"
    using n by (intro exI [of _ n], subst (1) map_error_def, subst f)
      (cases "fst (f d)"; simp add: map_error_def)
qed

lemma steady_for_each [steady_intros]: "(\<And>x. x \<in> set xs \<Longrightarrow> steady (f x)) \<Longrightarrow> steady (for_each f xs)"
  by (induction xs) (auto intro: steady_intros)

lemma steady_cases [steady_intros]:
  "steady f \<Longrightarrow> steady g \<Longrightarrow> steady (if b then f else g)"
  "steady f \<Longrightarrow> (\<And>x. steady (h x)) \<Longrightarrow> steady (case_option f h v)"
  "(\<And>x. steady (i x)) \<Longrightarrow> (\<And>x. steady (j x)) \<Longrightarrow> steady (case_sum i j w)"
  "(\<And>x y. steady (l x y)) \<Longrightarrow> steady (case_prod l u)"
  by (simp_all split: option.split sum.split prod.split)

lemma steady_in_child [steady_intros]:
  assumes "steady f" shows "steady (in_child p f :: ('d, _, _) act)"
proof (rule steadyI)
  fix d :: "'d disk_scheme"
  assume d: "quiet d"
  define c where "c = \<lparr>entries = (case dict_get (entries d) p of Some (DirNode es) \<Rightarrow> es | _ \<Rightarrow> []), plan = []\<rparr>"
  obtain n where n: "quiet (snd (f c))"
    "\<forall>fs. f (c\<lparr>plan := replicate n Works @ fs\<rparr>) = (fst (f c), (snd (f c))\<lparr>plan := fs\<rparr>)"
    by (rule steadyE [OF assms, of c]) (auto simp: c_def)
  show "\<exists>n r d'. in_child p f d = (r, d') \<and> quiet d' \<and>
      (\<forall>fs. in_child p f (d\<lparr>plan := replicate n Works @ fs\<rparr>) = (r, d'\<lparr>plan := fs\<rparr>))"
    using d n unfolding c_def in_child_def
    by (intro exI [of _ n]) (auto simp: case_prod_beta Let_def split: option.split tree.split)
qed

lemma steady_optional_file [steady_intros]: "steady (optional_file n k)"
  unfolding optional_file_def by (intro steady_intros)

lemma steady_load_generation [steady_intros]: "steady (load_generation c)"
  unfolding load_generation_def by (intro steady_intros)

lemma steady_check_config [steady_intros]: "steady (check_config n)"
  unfolding check_config_def by (intro steady_intros)

lemma steady_newest_loadable [steady_intros]: "steady (newest_loadable c gens)"
  by (induction gens) (auto intro!: steady_intros)

lemma steady_open_capability [steady_intros]: "steady (open_capability c)"
  unfolding open_capability_def generation_directories_def by (intro steady_intros)

section \<open>A staging directory that stays\<close>

text \<open>The store with an empty staging directory of the process in a profile's folder.\<close>

definition left_staging :: "nat \<Rightarrow> string \<Rightarrow> folder \<Rightarrow> store \<Rightarrow> store" where
  "left_staging pid p sub s =
     s\<lparr>entries := idx_insert p (DirNode (idx_insert (staging_name pid (next_generation (generations sub))) (DirNode []) sub))
       (entries s)\<rparr>"

lemma left_staging_simps [simp]:
  "indexed (left_staging pid p sub s) = indexed s" "plan (left_staging pid p sub s) = plan s"
  "dict_get (entries (left_staging pid p sub s)) p =
     Some (DirNode (idx_insert (staging_name pid (next_generation (generations sub))) (DirNode []) sub))"
  by (simp_all add: left_staging_def get_idx_insert)

lemma staging_names_differ: "pid \<noteq> pid' \<Longrightarrow> staging_name pid' g \<noteq> staging_name pid g"
  by (auto simp: staging_name_def staging_suffix_def dest: show_nat_inj)

lemma left_generations:
  assumes "generations_ok sub"
  shows "generations_ok (idx_insert (staging_name pid g) (DirNode []) sub)"
    "generations (idx_insert (staging_name pid g) (DirNode []) sub) = generations sub"
    "current_of c (idx_insert (staging_name pid g) (DirNode []) sub) = current_of c sub"
proof -
  let ?st = "staging_name pid g"
  have "frame {?st} \<lparr>entries = sub, plan = []\<rparr> \<lparr>entries = idx_insert ?st (DirNode []) sub, plan = []\<rparr>" by (simp add: frame_def)
  then have "same_generations sub (idx_insert ?st (DirNode []) sub)"
    using frame_same_generations [of "{?st}"] by fastforce
  then show "generations_ok (idx_insert ?st (DirNode []) sub)"
    "generations (idx_insert ?st (DirNode []) sub) = generations sub"
    "current_of c (idx_insert ?st (DirNode []) sub) = current_of c sub"
    using assms by (simp_all add: same_generations_def)
qed

text \<open>
  The directory is there when the call after the one that created it fails, and no further call is made:
  the rest of the plan is as it was.
\<close>

lemma staging_stays:
  assumes "quiet s" "dict_get (entries s) p = Some (DirNode sub)" "generations_ok sub"
    and fresh: "dict_get sub (staging_name pid (next_generation (generations sub))) = None"
  shows "\<exists>n. \<forall>e j fs. open_and_commit c pid p snap (s\<lparr>plan := replicate n Works @ Works # Fails e j # fs\<rparr>) =
    (Inl (SnapshotFailed e), (left_staging pid p sub s)\<lparr>plan := fs\<rparr>)"
proof -
  let ?d = "\<lparr>entries = sub, plan = []\<rparr>" and ?g = "next_generation (generations sub)"
  obtain n where n: "\<forall>fs. open_capability (snapshots c) (?d\<lparr>plan := replicate n Works @ fs\<rparr>) =
      (fst (open_capability (snapshots c) ?d), (snd (open_capability (snapshots c) ?d))\<lparr>plan := fs\<rparr>)"
    by (rule steadyE [OF steady_open_capability, of ?d]) auto
  have "open_and_commit c pid p snap (s\<lparr>plan := replicate n Works @ Works # Fails e j # fs\<rparr>) =
      (Inl (SnapshotFailed e), (left_staging pid p sub s)\<lparr>plan := fs\<rparr>)" for e j fs
  proof -
    have "open_capability (snapshots c) (?d\<lparr>plan := replicate n Works @ Works # Fails e j # fs\<rparr>) =
        (Inr (current_of (snapshots c) sub, ?g), ?d\<lparr>plan := Works # Fails e j # fs\<rparr>)"
      using n open_works [of ?d "snapshots c"] assms(3) by simp
    then have "andthen (open_capability (snapshots c)) (\<lambda>(_, g). commit_with_generation_status (snapshots c) pid g snap)
        \<lparr>entries = sub, plan = replicate n Works @ Works # Fails e j # fs\<rparr> =
        (Inl e, \<lparr>entries = idx_insert (staging_name pid ?g) (DirNode []) sub, plan = fs\<rparr>)"
      using fresh by (simp add: andthen_def commit_with_generation_status_def create_child_def mkdirat_def open_child_def
          looking_def syscall_def next_fault_def)
    then show ?thesis
      using assms(2) by (simp add: open_and_commit_def map_error_def in_child_def Let_def left_staging_def)
  qed
  then show ?thesis by blast
qed

lemma replace_first:
  assumes "p \<in> set (ids_of (indexed s))" "plan s = Works # fs" "dict_get (entries s) p = Some (DirNode sub)"
    and "open_and_commit c pid p snap (s\<lparr>plan := fs\<rparr>) = (Inl e, s')"
  shows "replace_profile_loaded c pid p snap s = (Inl e, s')"
proof -
  have "\<exists>n. first_at (\<lambda>e. entry_id e = p) es = Some n" if "p \<in> entry_id ` set es" for es
    using that by (induction es) auto
  then obtain n where "first_at (\<lambda>e. entry_id e = p) (profiles (indexed s)) = Some n"
    using assms(1) by (auto simp: ids_of_def)
  then have entry: "require_entry (indexed s) p s = (Inr n, s)" by (simp add: require_entry_def return_def)
  have "open_profile p s = (Inr (), s\<lparr>plan := fs\<rparr>)"
    using assms(2,3) by (auto simp: open_profile_def map_error_def open_child_def looking_def syscall_def next_fault_def)
  then show ?thesis
    using entry assms(4) by (simp add: replace_profile_loaded_def with_index_def andthen_def)
qed

text \<open>While it is there, no refresh of the process succeeds or changes anything, whatever else fails.\<close>

lemma staging_stops_commit:
  assumes "dict_get (entries d) (staging_name pid g) \<noteq> None"
  shows "wp (commit_with_generation_status c pid g snap) (\<lambda>_ _. False) (\<lambda>_ d'. \<exists>fs. d' = d\<lparr>plan := fs\<rparr>) d"
proof -
  have "wp (mkdirat (staging_name pid g)) (\<lambda>_ _. False) (\<lambda>_ d'. \<exists>fs. d' = d\<lparr>plan := fs\<rparr>) d"
    using assms by (cases d) (auto simp: wp_def mkdirat_def syscall_def next_fault_def split: list.splits fault.splits)
  then show ?thesis
    unfolding commit_with_generation_status_def create_child_def wp_andthen by (rule wp_mono) simp_all
qed

lemma staging_stops_open:
  assumes "dict_get (entries s) p = Some (DirNode sub)"
    and "dict_get sub (staging_name pid (next_generation (generations sub))) \<noteq> None"
  shows "wp (open_and_commit c pid p snap) (\<lambda>_ _. False) (\<lambda>_ s'. \<exists>fs. s' = s\<lparr>plan := fs\<rparr>) s"
proof -
  have stops: "wp (andthen (open_capability (snapshots c)) (\<lambda>(_, g). commit_with_generation_status (snapshots c) pid g snap))
      (\<lambda>_ _. False) (\<lambda>_ d'. \<exists>fs. d' = \<lparr>entries = sub, plan = fs\<rparr>) \<lparr>entries = sub, plan = plan s\<rparr>"
    unfolding wp_andthen
  proof (rule wp_mono [OF open_capability_next])
    fix x :: "(u64 \<times> snapshot) option \<times> u64" and d1 :: disk
    assume "(case x of (_, g) \<Rightarrow> \<lambda>d'. g = next_generation (generations (entries \<lparr>entries = sub, plan = plan s\<rparr>)) \<and>
        (\<exists>fs. d' = \<lparr>entries = sub, plan = plan s\<rparr>\<lparr>plan := fs\<rparr>)) d1"
    then obtain fs where "snd x = next_generation (generations sub)" "d1 = \<lparr>entries = sub, plan = fs\<rparr>"
      by (auto simp: case_prod_beta)
    then show "wp (case x of (_, g) \<Rightarrow> commit_with_generation_status (snapshots c) pid g snap)
        (\<lambda>_ _. False) (\<lambda>_ d'. \<exists>fs. d' = \<lparr>entries = sub, plan = fs\<rparr>) d1"
      unfolding wp_prod by (intro wp_mono [OF staging_stops_commit]) (use assms(2) in auto)
  qed auto
  show ?thesis
    unfolding open_and_commit_def wp_map_error wp_in_child [OF assms(1)]
    by (rule wp_mono [OF stops]) (auto simp: insert_present [OF assms(1)])
qed

lemma staging_stops_replace:
  assumes "dict_get (entries s) p = Some (DirNode sub)"
    and "dict_get sub (staging_name pid (next_generation (generations sub))) \<noteq> None"
  shows "wp (replace_profile_loaded c pid p snap) (\<lambda>_ _. False) (\<lambda>_ s'. \<exists>fs. s' = s\<lparr>plan := fs\<rparr>) s"
proof -
  have commit: "wp (open_and_commit c pid p snap) (\<lambda>_ _. False) (\<lambda>_ s'. \<exists>fs. s' = s\<lparr>plan := fs\<rparr>) (s\<lparr>plan := fs\<rparr>)" for fs
    by (rule wp_mono [OF staging_stops_open [of "s\<lparr>plan := fs\<rparr>" p sub]]) (use assms in auto)
  have opened: "wp (open_profile p) (\<lambda>_ s'. \<exists>fs. s' = s\<lparr>plan := fs\<rparr>) (\<lambda>_ s'. \<exists>fs. s' = s\<lparr>plan := fs\<rparr>) (s\<lparr>plan := fs\<rparr>)" for fs
    unfolding open_profile_def by (rule wp_pure) (auto intro!: pure_intros)
  show ?thesis
    unfolding replace_profile_loaded_def wp_with_index wp_andthen [of "require_entry _ _"] wp_andthen [of "open_profile _"]
      wp_andthen [of "open_and_commit _ _ _ _"]
    by (rule wp_pure [OF pure_require_entry]; (rule wp_mono [OF opened])?; (elim exE)?; simp?; (rule wp_mono [OF commit])?; auto)
qed

lemma staging_exists:
  assumes "p \<in> set (ids_of (indexed s))" "quiet s" "dict_get (entries s) p = Some (DirNode sub)" "generations_ok sub"
    and "dict_get sub (staging_name pid (next_generation (generations sub))) \<noteq> None"
  shows "replace_profile_loaded c pid p snap s = (Inl (SnapshotFailed AlreadyExists), s)"
proof -
  let ?d = "\<lparr>entries = sub, plan = []\<rparr>"
  have "andthen (open_capability (snapshots c)) (\<lambda>(_, g). commit_with_generation_status (snapshots c) pid g snap) ?d =
      (Inl AlreadyExists, ?d)"
    using assms(5) open_works [of ?d "snapshots c"] assms(4)
    by (simp add: andthen_def commit_with_generation_status_def create_child_def mkdirat_def syscall_def)
  then have "in_child p (andthen (open_capability (snapshots c))
      (\<lambda>(_, g). commit_with_generation_status (snapshots c) pid g snap)) s = (Inl AlreadyExists, s)"
    by (intro in_child_works) (use assms(2,3) in \<open>simp_all add: child_def\<close>)
  then have "open_and_commit c pid p snap s = (Inl (SnapshotFailed AlreadyExists), s)"
    by (simp add: open_and_commit_def map_error_def)
  moreover have "\<exists>n. first_at (\<lambda>e. entry_id e = p) es = Some n" if "p \<in> entry_id ` set es" for es
    using that by (induction es) auto
  then obtain n where "first_at (\<lambda>e. entry_id e = p) (profiles (indexed s)) = Some n"
    using assms(1) by (auto simp: ids_of_def)
  then have "require_entry (indexed s) p s = (Inr n, s)" by (simp add: require_entry_def return_def)
  moreover have "open_profile p s = (Inr (), s)"
    using assms(2,3) by (simp add: open_profile_def open_child_def looking_works map_error_def)
  ultimately show ?thesis by (simp add: replace_profile_loaded_def with_index_def andthen_def)
qed

text \<open>A process with another number is not stopped.\<close>

lemma open_and_commit_quiet_next:
  assumes "quiet s" "dict_get (entries s) p = Some (DirNode sub)" "generations_ok sub"
    and "dict_get sub (staging_name pid (next_generation (generations sub))) = None"
    and "dict_get sub (published_name (next_generation (generations sub))) = None"
    and "pred_option (\<lambda>b. length b \<le> MAX_SERVICE_LOGO_OUTPUT_BYTES) (service_logo_png snap)"
  shows "wp (open_and_commit c pid p snap) (\<lambda>r s'. snd r = None \<and> quiet s') E s"
  unfolding open_and_commit_def wp_map_error
proof (rule in_child_quiet [OF assms(1,2)])
  let ?d = "\<lparr>entries = sub, plan = []\<rparr>" and ?g = "next_generation (generations sub)"
  have "open_capability (snapshots c) ?d = (Inr (current_of (snapshots c) sub, ?g), ?d)"
    using open_works [of ?d "snapshots c"] assms(3) by simp
  moreover have "wp (commit_with_generation_status (snapshots c) pid ?g snap) (\<lambda>r d'. r = (?g, None) \<and> quiet d') (\<lambda>_ _. False) ?d"
    by (rule commit_quiet) (use assms(4-6) in auto)
  ultimately show "wp (andthen (open_capability (snapshots c)) (\<lambda>(_, g). commit_with_generation_status (snapshots c) pid g snap))
      (\<lambda>r d'. quiet d' \<and> snd r = None \<and> quiet (s\<lparr>entries := idx_insert p (DirNode (entries d')) (entries s)\<rparr>))
      (\<lambda>_ _. False) ?d"
    using assms(1) unfolding wp_andthen by (auto simp: wp_def split: prod.splits sum.splits)
qed

lemma replace_quiet:
  assumes "p \<in> set (ids_of (indexed s))" "quiet s" "dict_get (entries s) p = Some (DirNode sub)"
    and ok: "generations_ok sub" "ids_below k sub" "1 \<le> k" "k < 2 ^ 64 - 1"
    and free: "dict_get sub (staging_name pid (next_generation (generations sub))) = None"
      "dict_get sub (published_name (next_generation (generations sub))) = None"
    and logo: "pred_option (\<lambda>b. length b \<le> MAX_SERVICE_LOGO_OUTPUT_BYTES) (service_logo_png snap)"
    and t: "loaded (snapshots c) (stored_files (snapshots c) snap) = Some t"
  shows "\<exists>r g s'. replace_profile_loaded c pid p snap s = (Inr (r, g, t), s')"
proof -
  have "wp (open_and_commit c pid p snap) (\<lambda>r s'. (snd r = None \<and> quiet s') \<and> sframe {p} s s' \<and>
      (\<exists>sub'. dict_get (entries s') p = Some (DirNode sub') \<and> refreshed (snapshots c) (Suc k) t sub' \<and>
        current_of (snapshots c) sub' = Some (fst r, t))) (\<lambda>_ _. False) s"
    by (rule wp_mono [OF wp_conj [OF open_and_commit_quiet_next [OF assms(2,3) ok(1) free logo, where E = "\<lambda>_ _. False"]
        open_and_commit_spec [OF assms(3) ok t]]]) auto
  then obtain g s' sub' where commit: "open_and_commit c pid p snap s = (Inr (g, None), s')" "quiet s'"
    "dict_get (entries s') p = Some (DirNode sub')" "refreshed (snapshots c) (Suc k) t sub'"
    "current_of (snapshots c) sub' = Some (g, t)"
    by (auto simp: wp_def split: prod.splits sum.splits)
  have load: "load_profile c p s' = (Inr (g, t), s')"
    using load_works [OF commit(2,3)] commit(4,5) by (simp add: refreshed_def)
  have "\<exists>n. first_at (\<lambda>e. entry_id e = p) es = Some n" if "p \<in> entry_id ` set es" for es
    using that by (induction es) auto
  then obtain n where "first_at (\<lambda>e. entry_id e = p) (profiles (indexed s)) = Some n"
    using assms(1) by (auto simp: ids_of_def)
  then have entry: "require_entry (indexed s) p s = (Inr n, s)" by (simp add: require_entry_def return_def)
  have "open_profile p s = (Inr (), s)"
    using assms(2,3) by (simp add: open_profile_def open_child_def looking_works map_error_def)
  then show ?thesis
    using entry commit(1) load
    by (simp add: replace_profile_loaded_def with_index_def andthen_def map_error_def return_def)
qed

end
