(* ===== verification/Profile_Samples.thy ===== *)
theory Profile_Samples
  imports Profile_Faults
begin

text \<open>
  A concrete codec with the laws the guarantees ask for, and stores to apply them to.
\<close>

section \<open>A codec\<close>

definition entry_text :: "profile_index_entry \<Rightarrow> string" where
  "entry_text e = entry_id e @ le_bytes 8 (unat (created_at_unix e))"

definition index_text :: "profile_index \<Rightarrow> string" where
  "index_text idx = (case active_id idx of None \<Rightarrow> [CHR ''-''] | Some a \<Rightarrow> CHR ''+'' # a) @ concat (map entry_text (profiles idx))"

function parse_entries :: "string \<Rightarrow> profile_index_entry list" where
  "parse_entries t =
     (if t = [] then []
      else \<lparr>entry_id = take 36 t, created_at_unix = of_nat (from_le_bytes (take 8 (drop 36 t)))\<rparr> # parse_entries (drop 44 t))"
  by auto
termination by (relation "measure length") auto

declare parse_entries.simps [simp del]

definition parse_index_text :: "string \<Rightarrow> profile_index option" where
  "parse_index_text t =
     (case t of
        [] \<Rightarrow> None
      | c # rest \<Rightarrow>
          if c = CHR ''-'' then Some \<lparr>schema_version = 1, profiles = parse_entries rest, active_id = None\<rparr>
          else Some \<lparr>schema_version = 1, profiles = parse_entries (drop 36 rest), active_id = Some (take 36 rest)\<rparr>)"

definition sample_record :: subscription_record where
  "sample_record =
     \<lparr>source_url = ''https://example.org/a'',
      info = \<lparr>source_host = ''example.org'', display_name = ''Example'', uploaded_bytes = None, downloaded_bytes = None,
        total_bytes = None, expires_at_unix = None, updated_at_unix = 7, refresh_interval_secs = None,
        announcement_text = None, announcement_action_label = None, announcement_tone = None, dumb_mode = False,
        app_language = None\<rparr>,
      targets = \<lparr>home_url = None, support_url = None, announcement_url = None, logo_url = None\<rparr>\<rparr>"

definition sample_snapshots :: codec where
  "sample_snapshots =
     \<lparr>parses = (\<lambda>m x. m \<noteq> [] \<and> x \<noteq> []),
      encode_record = (\<lambda>_. ''record''), decode_record = (\<lambda>t. if t = ''record'' then Some sample_record else None),
      parse_url = (\<lambda>_. Some (''https'', Some ''example.org'')),
      encode_texts = (\<lambda>_. ''{}''), decode_texts = (\<lambda>_. Some []),
      base64_encode = (\<lambda>b. b), base64_decode = Some,
      is_canonical_service_logo = (\<lambda>b. b \<noteq> []), is_canonical_group_icon = (\<lambda>b. b \<noteq> [])\<rparr>"

definition sample_codec :: store_codec where
  "sample_codec = \<lparr>snapshots = sample_snapshots, encode_index = index_text, decode_index = parse_index_text,
     sha256 = (\<lambda>_. replicate 32 (CHR ''x''))\<rparr>"

definition sample_snapshot :: snapshot where
  "sample_snapshot = \<lparr>mihomo_raw = ''mode: rule'', xray_raw = ''{}'', subscription = Some sample_record,
     service_logo_png = Some ''png'', group_icons = []\<rparr>"

definition empty_store :: "fault list \<Rightarrow> store" where
  "empty_store fs = \<lparr>entries = [], plan = fs, indexed = empty_index, maintenance_debt = False,
     rolls = [Some (replicate 16 0)]\<rparr>"

lemma entry_text_length: "length (entry_id e) = 36 \<Longrightarrow> length (entry_text e) = 44"
  by (simp add: entry_text_def length_le_bytes)

lemma parse_entries_text:
  "\<forall>e\<in>set es. length (entry_id e) = 36 \<Longrightarrow> parse_entries (concat (map entry_text es)) = es"
proof (induction es)
  case Nil
  then show ?case by (simp add: parse_entries.simps)
next
  case (Cons e es)
  have e: "take 36 (entry_text e) = entry_id e" "take 8 (drop 36 (entry_text e)) = le_bytes 8 (unat (created_at_unix e))"
    "entry_text e \<noteq> []" "length (entry_text e) = 44"
    using Cons.prems by (auto simp: entry_text_def length_le_bytes)
  have "unat (created_at_unix e) < 256 ^ 8" using unat_bound [of "created_at_unix e"] by simp
  then have "of_nat (from_le_bytes (le_bytes 8 (unat (created_at_unix e)))) = created_at_unix e"
    by (simp add: from_le_bytes_le)
  then show ?case
    using e Cons by (subst parse_entries.simps) simp
qed

lemma validate_indexD:
  assumes "validate_index idx = Inr ()"
  shows "schema_version idx = INDEX_SCHEMA_VERSION" "length (profiles idx) \<le> MAX_PROFILES"
    "active_id idx = Some a \<Longrightarrow> a \<in> set (ids_of idx)"
  using assms by (auto simp: validate_index_def split: if_splits)

lemma concat_entry_length: "\<forall>e\<in>set es. length (entry_id e) = 36 \<Longrightarrow> length (concat (map entry_text es)) = 44 * length es"
  by (induction es) (simp_all add: entry_text_length)

lemma sample_codec_ok: "codec_ok sample_codec"
  unfolding codec_ok_def
proof (intro allI impI)
  fix idx
  assume v: "validate_index idx = Inr ()" and "list_all is_valid_profile_id (ids_of idx)"
  then have len: "\<forall>p\<in>set (ids_of idx). length p = 36" by (auto simp: list_all_iff is_valid_profile_id_def)
  then have es: "\<forall>e\<in>set (profiles idx). length (entry_id e) = 36" by (simp add: ids_of_def)
  have "length (concat (map entry_text (profiles idx))) \<le> 4400"
    unfolding concat_entry_length [OF es] using validate_indexD(2) [OF v] by (simp add: MAX_PROFILES_def)
  moreover have "length a = 36" if "active_id idx = Some a" for a
    using len validate_indexD(3) [OF v that] by blast
  ultimately show "decode_index sample_codec (encode_index sample_codec idx) = Some idx \<and>
      length (encode_index sample_codec idx) \<le> MAX_PROFILE_INDEX_BYTES"
    using validate_indexD(1) [OF v] parse_entries_text [OF es]
    by (cases idx) (auto simp: sample_codec_def index_text_def parse_index_text_def INDEX_SCHEMA_VERSION_def
      MAX_PROFILE_INDEX_BYTES_def split: option.split)
qed

lemma empty_store_ok: "store_ok c k (empty_store fs)"
  by (simp add: store_ok_def empty_store_def dict_inv_def validate_index_def empty_index_def ids_of_def
      INDEX_SCHEMA_VERSION_def MAX_PROFILES_def rolls_ok_def ids_ok_def index_on_disk_def)

lemma sample_snapshot_wf: "snapshot_wf sample_snapshots sample_snapshot"
  by (simp add: snapshot_wf_def sample_snapshots_def sample_snapshot_def MAX_CONFIG_BYTES_def)

lemma sample_wf: "mutation_wf sample_codec (Create sample_snapshot now)"
  using sample_snapshot_wf by (simp add: sample_codec_def)

section \<open>A store with a saved subscription\<close>

definition sample_id :: string where
  "sample_id = generate_id (replicate 16 0)"

definition sample_index :: profile_index where
  "sample_index = with_profile sample_id 5 True empty_index"

definition sample_folder :: folder where
  "sample_folder = [(published_name 1, DirNode (stored_files sample_snapshots sample_snapshot))]"

definition saved_store :: "fault list \<Rightarrow> store" where
  "saved_store fs =
     \<lparr>entries = [(INDEX_FILE, FileNode (index_text sample_index)), (sample_id, DirNode sample_folder)], plan = fs,
      indexed = sample_index, maintenance_debt = False, rolls = [Some (replicate 16 1)]\<rparr>"

lemma sample_ids: "ids_of sample_index = [sample_id]"
  by (simp add: sample_index_def ids_of_def with_profile_def empty_index_def)

lemma sample_id_valid: "is_valid_profile_id sample_id"
  unfolding sample_id_def by (rule generate_id_valid) simp

lemma sample_folder_ok:
  "generations_ok sample_folder" "generations sample_folder = [(1, published_name 1)]"
  "current_of sample_snapshots sample_folder = Some (1, reloaded sample_snapshots sample_snapshot)"
proof -
  have "generations_ok (idx_insert (published_name 1) (DirNode (stored_files sample_snapshots sample_snapshot)) [])"
    by (rule generations_ok_insert [OF generations_ok_empty(1) stored_configs_ok])
  then show "generations_ok sample_folder" by (simp add: sample_folder_def)
  show gens: "generations sample_folder = [(1, published_name 1)]"
    by (simp add: generations_def sample_folder_def generation_names_def List.map_filter_def is_dir_def)
  show "current_of sample_snapshots sample_folder = Some (1, reloaded sample_snapshots sample_snapshot)"
    using loaded_stored [OF sample_snapshot_wf] unfolding current_of_def gens
    by (simp add: by_newest_def child_def sample_folder_def)
qed

lemma saved_store_ok: "store_ok sample_codec 2 (saved_store fs)"
proof -
  have names: "sample_id \<noteq> INDEX_FILE" using valid_id_names [OF sample_id_valid] by simp
  have valid: "validate_index sample_index = Inr ()"
    by (simp add: validate_index_def sample_index_def with_profile_def empty_index_def ids_of_def INDEX_SCHEMA_VERSION_def
        MAX_PROFILES_def)
  have ids: "ids_ok (saved_store fs)" by (simp add: ids_ok_def saved_store_def sample_ids sample_id_valid)
  have "index_on_disk sample_codec (saved_store fs)"
    by (rule written_index [OF sample_codec_ok _ ids]) (simp_all add: saved_store_def valid sample_codec_def)
  moreover have "profile_ok sample_snapshots 2 sample_folder"
    using sample_folder_ok by (simp add: profile_ok_def ids_below_def)
  ultimately show ?thesis
    using names ids valid
    by (simp add: store_ok_def saved_store_def dict_inv_def rolls_ok_def sample_ids sample_codec_def)
qed

end
