(* ===== verification/Profile_Claims.thy ===== *)
theory Profile_Claims
  imports Profile_Samples
begin

text \<open>
  The guarantees of the subscription store over what a client sees of it: the index and what loading each
  profile gives.
\<close>

section \<open>What a client sees\<close>

definition same_reads :: "store_codec \<Rightarrow> string set \<Rightarrow> store \<Rightarrow> store \<Rightarrow> bool" where
  "same_reads c ps s s' \<longleftrightarrow> (\<forall>p\<in>ps. reads c p s' = reads c p s)"

definition appeared :: "store_codec \<Rightarrow> u64 \<Rightarrow> bool \<Rightarrow> snapshot \<Rightarrow> store \<Rightarrow> store \<Rightarrow> bool" where
  "appeared c now act snap s s' \<longleftrightarrow>
     (\<exists>p g. p \<notin> set (ids_of (indexed s)) \<and> is_valid_profile_id p \<and> indexed s' = with_profile p now act (indexed s) \<and>
        reads c p s' = Inr (g, reloaded (snapshots c) snap)) \<and>
     same_reads c (set (ids_of (indexed s))) s s'"

fun visible :: "store_codec \<Rightarrow> mutation \<Rightarrow> store \<Rightarrow> store \<Rightarrow> bool" where
  "visible c (Create snap now) s s' \<longleftrightarrow> appeared c now True snap s s'"
| "visible c (Add snap now) s s' \<longleftrightarrow> appeared c now False snap s s'"
| "visible c (Replace p snap) s s' \<longleftrightarrow>
     p \<in> set (ids_of (indexed s)) \<and> indexed s' = indexed s \<and>
     (\<exists>g. reads c p s' = Inr (g, reloaded (snapshots c) snap)) \<and> same_reads c (set (ids_of (indexed s)) - {p}) s s'"
| "visible c (Activate p) s s' \<longleftrightarrow>
     p \<in> set (ids_of (indexed s)) \<and> indexed s' = (indexed s)\<lparr>active_id := Some p\<rparr> \<and>
     same_reads c (set (ids_of (indexed s))) s s'"
| "visible c (Delete p) s s' \<longleftrightarrow>
     (\<exists>n. first_at (\<lambda>e. entry_id e = p) (profiles (indexed s)) = Some n \<and>
        indexed s' = without_profile n p (indexed s)) \<and>
     p \<notin> set (ids_of (indexed s')) \<and> same_reads c (set (ids_of (indexed s'))) s s'"

definition committed :: "profile_error + unit \<Rightarrow> bool" where
  "committed r \<longleftrightarrow> (case r of Inr _ \<Rightarrow> True | Inl e \<Rightarrow> mutation_committed e)"

lemma same_readsI:
  assumes ok: "store_ok c k s" and ps: "ps \<subseteq> set (ids_of (indexed s))"
    and same: "\<forall>p\<in>ps. dict_get (entries s') p = dict_get (entries s) p"
  shows "same_reads c ps s s'"
  unfolding same_reads_def
proof
  fix p assume p: "p \<in> ps"
  then obtain sub where "dict_get (entries s) p = Some (DirNode sub)" "generations_ok sub"
    using store_ok_entry [OF ok, of p] ps by (auto simp: profile_ok_def)
  moreover have "same_profile (entries s) (entries s') p" using same p by (simp add: same_profile_def)
  ultimately show "reads c p s' = reads c p s" by (intro reads_same)
qed

lemma reads_refreshed:
  "dict_get (entries s) p = Some (DirNode sub) \<Longrightarrow> refreshed (snapshots c) k t sub \<Longrightarrow> \<exists>g. reads c p s = Inr (g, t)"
  using reads_current [of s p sub c] by (auto simp: refreshed_def)

lemma inserted_appeared:
  assumes ok: "store_ok c k s" and i: "inserted c now act (reloaded (snapshots c) snap) p s s'"
  shows "appeared c now act snap s s'"
proof -
  have "\<exists>g. reads c p s' = Inr (g, reloaded (snapshots c) snap)"
    using i reads_refreshed [of s' p _ c] unfolding inserted_def by blast
  moreover have "same_reads c (set (ids_of (indexed s))) s s'"
    by (rule same_readsI [OF ok order_refl]) (use i in \<open>simp add: inserted_def\<close>)
  ultimately show ?thesis using i unfolding appeared_def inserted_def by blast
qed

lemma took_effect_visible:
  assumes ok: "store_ok c k s" and e: "took_effect c k' m s s'"
  shows "visible c m s s'"
proof (cases m)
  case (Replace p snap)
  then have r: "replaced c k' p (reloaded (snapshots c) snap) s s'" using e by simp
  have "\<exists>g. reads c p s' = Inr (g, reloaded (snapshots c) snap)"
    using r reads_refreshed [of s' p _ c] unfolding replaced_def by blast
  moreover have "same_reads c (set (ids_of (indexed s)) - {p}) s s'"
    by (rule same_readsI [OF ok]) (use r in \<open>auto simp: replaced_def\<close>)
  ultimately show ?thesis using Replace r by (simp add: replaced_def)
next
  case (Activate p)
  then have a: "activated c p s s'" using e by simp
  have "same_reads c (set (ids_of (indexed s))) s s'"
    by (rule same_readsI [OF ok order_refl]) (use a in \<open>simp add: activated_def\<close>)
  then show ?thesis using Activate a by (simp add: activated_def)
next
  case (Delete p)
  then have d: "deleted c p s s'" using e by simp
  then obtain n where n: "first_at (\<lambda>e. entry_id e = p) (profiles (indexed s)) = Some n"
    and idx: "indexed s' = without_profile n p (indexed s)" by (auto simp: deleted_def)
  have "distinct (ids_of (indexed s))" using ok by (auto simp: store_ok_def validate_index_def split: if_splits)
  then have gone: "p \<notin> set (ids_of (indexed s'))" unfolding idx by (rule ids_without_self [OF n])
  have "same_reads c (set (ids_of (indexed s'))) s s'"
  proof (rule same_readsI [OF ok])
    show "set (ids_of (indexed s')) \<subseteq> set (ids_of (indexed s))" unfolding idx by (rule ids_without)
    then show "\<forall>q\<in>set (ids_of (indexed s')). dict_get (entries s') q = dict_get (entries s) q"
      using d gone unfolding deleted_def by blast
  qed
  then show ?thesis using Delete n idx gone by auto
qed (use e inserted_appeared [OF ok] in auto)

lemma create_works:
  assumes "store_ok c k s" "plan s = []" "snapshot_wf (snapshots c) snap" "occupied_slots s < MAX_PROFILES"
    and "pred_option (\<lambda>b. length b \<le> MAX_SERVICE_LOGO_OUTPUT_BYTES) (service_logo_png snap)"
    and "rolls s = Some bytes # rs" "generate_id bytes \<notin> set (ids_of (indexed s))"
    and "dict_get (entries s) (generate_id bytes) = None" "not_a_folder INDEX_TEMP_FILE (entries s)"
  shows "\<exists>s'. create_profile c pid now snap s = (Inr (generate_id bytes), s') \<and>
    plan s' = [] \<and> indexed s' = with_profile (generate_id bytes) now True (indexed s) \<and>
    (\<exists>g. reads c (generate_id bytes) s' = Inr (g, reloaded (snapshots c) snap))"
proof -
  have ok: "validate_index (indexed s) = Inr ()" "ids_ok s" "rolls_ok s" "not_a_folder INDEX_FILE (entries s)"
    using assms(1) by (auto simp: store_ok_def index_on_disk_def not_a_folder_def split: option.splits tree.splits)
  note t = loaded_stored [OF assms(3)]
  have "wp (create_profile c pid now snap) (\<lambda>p s'. (p = generate_id bytes \<and> plan s' = []) \<and>
      inserted c now True (reloaded (snapshots c) snap) p s s') (\<lambda>_ _. False) s"
    unfolding create_profile_def
    by (rule wp_mono [OF wp_conj [OF insert_profile_quiet [OF assms(2) ok(1-3) assms(6-9) ok(4) assms(4) _ assms(5) t,
          where act = True and pid = pid and now = now and E = "\<lambda>_ _. False"] insert_profile_spec [OF ok(2,3) t]]]) auto
  then obtain s' where run: "create_profile c pid now snap s = (Inr (generate_id bytes), s')"
    and i: "plan s' = []" "inserted c now True (reloaded (snapshots c) snap) (generate_id bytes) s s'"
    by (auto simp: wp_def split: prod.splits sum.splits)
  have "\<exists>g. reads c (generate_id bytes) s' = Inr (g, reloaded (snapshots c) snap)"
    using i reads_refreshed [of s' "generate_id bytes" _ c] unfolding inserted_def by blast
  then show ?thesis using run i by (auto simp: inserted_def)
qed

lemma sample_create:
  "\<exists>s'. create_profile sample_codec 4 now sample_snapshot (empty_store []) = (Inr sample_id, s') \<and> plan s' = [] \<and>
     indexed s' = with_profile sample_id now True empty_index \<and>
     (\<exists>g. reads sample_codec sample_id s' = Inr (g, reloaded sample_snapshots sample_snapshot))"
  using create_works [OF empty_store_ok [of sample_codec 1], where bytes = "replicate 16 0" and rs = "[]" and pid = 4
      and now = now and snap = sample_snapshot] sample_wf [of 5]
  by (simp add: empty_store_def occupied_slots_def empty_index_def ids_of_def MAX_PROFILES_def sample_snapshot_def
      MAX_SERVICE_LOGO_OUTPUT_BYTES_def not_a_folder_def sample_id_def sample_codec_def)

section \<open>The guarantees\<close>

text \<open>
  C8. A mutation that fails without having committed changes nothing a client sees, whatever went wrong: the
  index in memory and on disk are the old ones, and every profile loads what it loaded before.
\<close>

theorem failed_mutation_changes_nothing:
  assumes "store_ok c k s" "mutation_wf c m" "1 \<le> k" "k < 2 ^ 64 - 1"
    and "run_mutation c pid m s = (r, s')" "\<not> committed r"
  shows "indexed s' = indexed s \<and> dict_get (entries s') INDEX_FILE = dict_get (entries s) INDEX_FILE \<and>
    same_reads c (set (ids_of (indexed s))) s s'"
proof -
  obtain e where r: "r = Inl e" "\<not> mutation_committed e" using assms(6) by (cases r) (auto simp: committed_def)
  have u: "unchanged s s'"
    using wp_error [OF mutation_spec [OF assms(1-4)], of pid e s'] assms(5) r by (simp add: outcome_def)
  have "reads c p s' = reads c p s" if p: "p \<in> set (ids_of (indexed s))" for p
  proof -
    obtain sub where "dict_get (entries s) p = Some (DirNode sub)" "generations_ok sub"
      using store_ok_entry [OF assms(1) p] by (auto simp: profile_ok_def)
    then show ?thesis using u p by (intro reads_same) (auto simp: unchanged_def)
  qed
  then show ?thesis using u by (simp add: unchanged_def same_reads_def)
qed

theorem failed_mutation_changes_nothing_witness:
  "let s = saved_store [Fails OtherKind None]; (r, s') = run_mutation sample_codec 4 (Create sample_snapshot 5) s
   in \<not> committed r \<and> sample_id \<in> set (ids_of (indexed s')) \<and> reads sample_codec sample_id s' = reads sample_codec sample_id s"
proof -
  let ?s = "saved_store [Fails OtherKind None]"
  have run: "run_mutation sample_codec 4 (Create sample_snapshot 5) ?s = (Inl (Io OtherKind), saved_store [])"
    by (simp add: create_profile_def insert_profile_def with_index_def occupied_profile_slots_def profile_entry_ids_def
        list_entries_def looking_def syscall_def next_fault_def act_simps saved_store_def)
  have "\<not> committed (Inl (Io OtherKind))" by (simp add: committed_def)
  then have "same_reads sample_codec (set (ids_of (indexed ?s))) ?s (saved_store [])"
    using failed_mutation_changes_nothing [OF saved_store_ok sample_wf _ _ run] by simp
  then show ?thesis using run by (simp add: saved_store_def sample_ids same_reads_def committed_def)
qed

text \<open>
  C10. A mutation that succeeds, or fails after it has committed, has taken effect: a new profile is in the
  index and loads as saved, a replaced one loads the new documents, the chosen one is active, a deleted one is
  gone; every other profile loads as before, and the index file holds the index.
\<close>

theorem committed_mutation_took_effect:
  assumes "store_ok c k s" "codec_ok c" "mutation_wf c m" "1 \<le> k" "k < 2 ^ 64 - 1"
    and "run_mutation c pid m s = (r, s')" "committed r"
  shows "visible c m s s' \<and> index_on_disk c s'"
proof -
  have e: "took_effect c (Suc k) m s s'"
  proof (cases r)
    case (Inr u)
    then show ?thesis using wp_ok [OF mutation_spec [OF assms(1,3-5)], of pid u s'] assms(6) by simp
  next
    case (Inl e)
    then show ?thesis
      using wp_error [OF mutation_spec [OF assms(1,3-5)], of pid e s'] assms(6,7) by (simp add: outcome_def committed_def)
  qed
  have "store_ok c (Suc k) s'" by (rule took_effect_ok [OF e assms(1,2)]) (use assms(4) in auto)
  then show ?thesis using took_effect_visible [OF assms(1) e] by (simp add: store_ok_def)
qed

theorem committed_mutation_took_effect_witness:
  "let (r, s') = run_mutation sample_codec 4 (Create sample_snapshot 5) (empty_store [])
   in committed r \<and> visible sample_codec (Create sample_snapshot 5) (empty_store []) s' \<and> index_on_disk sample_codec s'"
proof -
  obtain s' where "create_profile sample_codec 4 5 sample_snapshot (empty_store []) = (Inr sample_id, s')"
    using sample_create by blast
  then have run: "run_mutation sample_codec 4 (Create sample_snapshot 5) (empty_store []) = (Inr (), s')"
    by (simp add: andthen_def return_def)
  have "committed (Inr ())" by (simp add: committed_def)
  then show ?thesis
    using committed_mutation_took_effect [OF empty_store_ok [of _ 1] sample_codec_ok sample_wf _ _ run] run by simp
qed

text \<open>
  C38. When nothing fails, saving a subscription succeeds and makes it the active one: there is room for it, the
  drawn identifier is new and no folder stands in the way of the index file.
\<close>

theorem create_succeeds:
  assumes "store_ok c k s" "plan s = []" "snapshot_wf (snapshots c) snap" "occupied_slots s < MAX_PROFILES"
    and "pred_option (\<lambda>b. length b \<le> MAX_SERVICE_LOGO_OUTPUT_BYTES) (service_logo_png snap)"
    and "rolls s = Some bytes # rs" "generate_id bytes \<notin> set (ids_of (indexed s))"
    and "dict_get (entries s) (generate_id bytes) = None" "not_a_folder INDEX_TEMP_FILE (entries s)"
  shows "\<exists>s'. create_profile c pid now snap s = (Inr (generate_id bytes), s') \<and>
    indexed s' = with_profile (generate_id bytes) now True (indexed s) \<and>
    (\<exists>g. reads c (generate_id bytes) s' = Inr (g, reloaded (snapshots c) snap))"
  using create_works [OF assms, of pid now] by blast

theorem create_succeeds_witness:
  "\<exists>s'. create_profile sample_codec 4 5 sample_snapshot (empty_store []) = (Inr sample_id, s') \<and>
     (\<exists>g. reads sample_codec sample_id s' = Inr (g, reloaded sample_snapshots sample_snapshot))"
  using create_succeeds [OF empty_store_ok [of sample_codec 1], where bytes = "replicate 16 0" and rs = "[]" and pid = 4
      and now = 5 and snap = sample_snapshot] sample_wf [of 5]
  by (auto simp: empty_store_def occupied_slots_def empty_index_def ids_of_def MAX_PROFILES_def sample_snapshot_def
      MAX_SERVICE_LOGO_OUTPUT_BYTES_def not_a_folder_def sample_id_def sample_codec_def)

text \<open>
  C37. No profile is lost: after any mutations under any faults, every profile of the index loads, and the index
  file holds the index.
\<close>

theorem no_profile_lost:
  assumes "store_ok c k s" "codec_ok c" "list_all (mutation_wf c) ms" "1 \<le> k" "k + length ms < 2 ^ 64 - 1"
  shows "index_on_disk c (run_all c pid ms s) \<and>
    (\<forall>p\<in>set (ids_of (indexed (run_all c pid ms s))). \<exists>g snap. reads c p (run_all c pid ms s) = Inr (g, snap))"
proof -
  let ?s = "run_all c pid ms s"
  have ok: "store_ok c (k + length ms) ?s" by (rule run_all_ok [OF assms])
  have "\<exists>g snap. reads c p ?s = Inr (g, snap)" if p: "p \<in> set (ids_of (indexed ?s))" for p
    using store_ok_entry [OF ok p] reads_current [of ?s p _ c] by (force simp: profile_ok_def)
  then show ?thesis using ok by (simp add: store_ok_def)
qed

theorem no_profile_lost_witness:
  "\<exists>g snap. reads sample_codec sample_id (run_all sample_codec 4 [Create sample_snapshot 5] (empty_store [])) = Inr (g, snap)"
proof -
  obtain s' where "create_profile sample_codec 4 5 sample_snapshot (empty_store []) = (Inr sample_id, s')"
    and "indexed s' = with_profile sample_id 5 True empty_index"
    using sample_create by blast
  then have "sample_id \<in> set (ids_of (indexed (run_all sample_codec 4 [Create sample_snapshot 5] (empty_store []))))"
    by (simp add: andthen_def return_def)
  then show ?thesis
    using no_profile_lost [OF empty_store_ok [of _ 1] sample_codec_ok, where ms = "[Create sample_snapshot 5]" and pid = 4] sample_wf
    by simp
qed

text \<open>
  C9. After any mutations under any faults, the process may die: started again with nothing failing, the store
  opens, has the same index, every profile loads what it loaded, and directories without a profile are gone.
\<close>

theorem store_reopens_after_crash:
  assumes "store_ok c k s" "codec_ok c" "list_all (mutation_wf c) ms" "1 \<le> k" "k + length ms < 2 ^ 64 - 1"
  shows "\<exists>s'. open_impl c pid' now (Inr ()) (Inr ()) (Inr ()) None (restarted (run_all c pid ms s)) = (Inr (), s') \<and>
    indexed s' = indexed (run_all c pid ms s) \<and>
    (\<forall>p\<in>set (ids_of (indexed s')). reads c p s' = reads c p (run_all c pid ms s)) \<and>
    (\<forall>n. is_valid_profile_id n \<longrightarrow> dict_get (entries s') n \<noteq> None \<longrightarrow> n \<in> set (ids_of (indexed s')))"
  using open_works_again [OF run_all_ok [OF assms, of pid], of pid' now] by metis

theorem store_reopens_after_crash_witness:
  "\<exists>s'. open_impl sample_codec 9 7 (Inr ()) (Inr ()) (Inr ()) None
      (restarted (run_all sample_codec 4 [Delete ''x'', Activate sample_id] (saved_store [Works, Fails OtherKind None]))) = (Inr (), s')"
  using store_reopens_after_crash [OF saved_store_ok sample_codec_ok, where ms = "[Delete ''x'', Activate sample_id]"
      and fs1 = "[Works, Fails OtherKind None]" and pid' = 9 and now = 7 and pid = 4] by fastforce

text \<open>
  C39. The record of a subscription's source, saved with its documents and loaded again, is the one that was
  attached, without the logo's address, exactly when its text has at most 16 KiB; a longer one is saved and then
  lost, and the profile has no source any more.
\<close>

theorem attached_record_loads_back:
  assumes "attach_subscription c raw m now s0 = Inr s" "snapshot_wf c s0" "subscription s = Some r"
    and "display_name (info r) \<noteq> []"
    and "decode_record c (encode_record c (without_logo_url r)) = Some (without_logo_url r)"
  shows "\<exists>snap. load_generation c \<lparr>entries = stored_files c s, plan = []\<rparr> = (Inr snap, \<lparr>entries = stored_files c s, plan = []\<rparr>) \<and>
    mihomo_raw snap = mihomo_raw s0 \<and> xray_raw snap = xray_raw s0 \<and>
    subscription snap =
      (if length (encode_record c (without_logo_url r)) \<le> MAX_RECORD_BYTES then Some (without_logo_url r) else None)"
proof -
  obtain scheme h where url: "parse_url c (trim raw) = Some (scheme, Some h)" "length (trim raw) \<le> 8192"
      "scheme \<in> {''http'', ''https''}"
    and s: "s = s0\<lparr>subscription := subscription s\<rparr>" and r: "source_url r = trim raw" "source_host (info r) = h"
    using assms(1,3) by (auto simp: attach_subscription_def Let_def split: option.splits if_splits)
  have same: "mihomo_raw s = mihomo_raw s0" "xray_raw s = xray_raw s0" by (subst s, simp)+
  then have "snapshot_wf c s" using assms(2) by (simp add: snapshot_wf_def)
  then have "load_generation c \<lparr>entries = stored_files c s, plan = []\<rparr> =
      (Inr (reloaded c s), \<lparr>entries = stored_files c s, plan = []\<rparr>)"
    using load_generation_works [of "\<lparr>entries = stored_files c s, plan = []\<rparr>" c] loaded_stored by auto
  moreover have "accept_record c (encode_record c (without_logo_url r)) = Some (without_logo_url r)"
    using url r assms(4,5) by (auto simp: accept_record_def without_logo_url_def)
  ultimately show ?thesis using same assms(3) by (simp add: reloaded_def Let_def)
qed

definition sample_metadata :: parsed_metadata where
  "sample_metadata = \<lparr>title = Some ''Example'', meta_info = info sample_record, meta_targets = targets sample_record\<rparr>"

theorem attached_record_loads_back_witness:
  "\<exists>s snap. attach_subscription sample_snapshots ''https://example.org/a'' sample_metadata 7 sample_snapshot = Inr s \<and>
     fst (load_generation sample_snapshots \<lparr>entries = stored_files sample_snapshots s, plan = []\<rparr>) = Inr snap \<and>
     subscription snap = Some sample_record"
proof -
  let ?s = "sample_snapshot\<lparr>subscription := Some sample_record\<rparr>"
  have trimmed: "trim ''https://example.org/a'' = ''https://example.org/a''" by code_simp
  have attached: "attach_subscription sample_snapshots ''https://example.org/a'' sample_metadata 7 sample_snapshot = Inr ?s"
    by (simp add: attach_subscription_def trimmed sample_snapshots_def sample_metadata_def sample_record_def)
  have plain: "without_logo_url sample_record = sample_record" by (simp add: without_logo_url_def sample_record_def)
  show ?thesis
    using attached_record_loads_back [OF attached sample_snapshot_wf, of sample_record] attached
    unfolding plain by (auto simp: sample_snapshots_def sample_record_def MAX_RECORD_BYTES_def)
qed

section \<open>What the store does not do\<close>

text \<open>
  C40. One failed call can block the refreshes of a profile for as long as a process runs. When every call
  works up to the one that opens the new staging directory, and that one fails, nothing is called
  afterwards, so the directory stays. From then on every refresh of the profile by this process fails and
  changes nothing, whatever else works or fails, and with an error that the directory exists when
  everything works. A process with another number, which has no such directory, is not blocked: when
  nothing fails its refresh succeeds.
\<close>

theorem leftover_staging_blocks_refresh:
  assumes "store_ok c k s" "plan s = []" "p \<in> set (ids_of (indexed s))" "dict_get (entries s) p = Some (DirNode sub)"
    and "dict_get sub (staging_name pid (next_generation (generations sub))) = None"
    and "1 \<le> k" "k < 2 ^ 64 - 1" "dict_get sub (published_name (next_generation (generations sub))) = None"
  shows "(\<exists>n. \<forall>e j fs. replace_profile_loaded c pid p snap (s\<lparr>plan := replicate n Works @ Works # Fails e j # fs\<rparr>) =
      (Inl (SnapshotFailed e), (left_staging pid p sub s)\<lparr>plan := fs\<rparr>)) \<and>
    (\<forall>snap' fs. \<exists>e fs'. replace_profile_loaded c pid p snap' ((left_staging pid p sub s)\<lparr>plan := fs\<rparr>) =
      (Inl e, (left_staging pid p sub s)\<lparr>plan := fs'\<rparr>)) \<and>
    (\<forall>snap'. replace_profile_loaded c pid p snap' (left_staging pid p sub s) =
      (Inl (SnapshotFailed AlreadyExists), left_staging pid p sub s)) \<and>
    (\<forall>pid' snap'. pid' \<noteq> pid \<longrightarrow> dict_get sub (staging_name pid' (next_generation (generations sub))) = None \<longrightarrow>
      snapshot_wf (snapshots c) snap' \<longrightarrow>
      pred_option (\<lambda>b. length b \<le> MAX_SERVICE_LOGO_OUTPUT_BYTES) (service_logo_png snap') \<longrightarrow>
      (\<exists>r g s'. replace_profile_loaded c pid' p snap' (left_staging pid p sub s) =
         (Inr (r, g, reloaded (snapshots c) snap'), s')))"
proof (intro conjI allI impI)
  let ?g = "next_generation (generations sub)" and ?s = "left_staging pid p sub s"
  let ?sub = "idx_insert (staging_name pid ?g) (DirNode []) sub"
  have ok: "generations_ok sub" "ids_below k sub"
    using store_ok_entry [OF assms(1,3)] assms(4) by (auto simp: profile_ok_def)
  note left = left_generations [OF ok(1), where pid = pid and g = ?g]
  have entry: "dict_get (entries (?s\<lparr>plan := fs\<rparr>)) p = Some (DirNode ?sub)" for fs by simp
  have there: "dict_get ?sub (staging_name pid (next_generation (generations ?sub))) \<noteq> None"
    by (simp add: left(2) get_idx_insert)
  obtain n where n: "\<forall>e j fs. open_and_commit c pid p snap (s\<lparr>plan := replicate n Works @ Works # Fails e j # fs\<rparr>) =
      (Inl (SnapshotFailed e), ?s\<lparr>plan := fs\<rparr>)"
    using staging_stays [OF assms(2,4) ok(1) assms(5)] by blast
  show "\<exists>n. \<forall>e j fs. replace_profile_loaded c pid p snap (s\<lparr>plan := replicate n Works @ Works # Fails e j # fs\<rparr>) =
      (Inl (SnapshotFailed e), ?s\<lparr>plan := fs\<rparr>)"
  proof (intro exI [of _ "Suc n"] allI)
    fix e j fs
    show "replace_profile_loaded c pid p snap (s\<lparr>plan := replicate (Suc n) Works @ Works # Fails e j # fs\<rparr>) =
        (Inl (SnapshotFailed e), ?s\<lparr>plan := fs\<rparr>)"
      by (rule replace_first [of _ _ "replicate n Works @ Works # Fails e j # fs" sub]) (use assms(3,4) n in simp_all)
  qed
  show "\<exists>e fs'. replace_profile_loaded c pid p snap' (?s\<lparr>plan := fs\<rparr>) = (Inl e, ?s\<lparr>plan := fs'\<rparr>)" for snap' fs
    using staging_stops_replace [OF entry there, of c snap' fs]
    by (auto simp: wp_def split: prod.splits sum.splits)
  show "replace_profile_loaded c pid p snap' ?s = (Inl (SnapshotFailed AlreadyExists), ?s)" for snap'
    by (rule staging_exists [of _ _ ?sub]) (use assms(2,3) entry [of "[]"] left(1) there in simp_all)
  show "\<exists>r g s'. replace_profile_loaded c pid' p snap' ?s = (Inr (r, g, reloaded (snapshots c) snap'), s')"
    if "pid' \<noteq> pid" "dict_get sub (staging_name pid' ?g) = None" "snapshot_wf (snapshots c) snap'"
      "pred_option (\<lambda>b. length b \<le> MAX_SERVICE_LOGO_OUTPUT_BYTES) (service_logo_png snap')" for pid' snap'
    by (rule replace_quiet [of _ _ ?sub k])
      (use that assms left ok loaded_stored [OF that(3)] staging_names_differ [of pid pid' ?g]
        in \<open>simp_all add: get_idx_insert ids_below_def\<close>)
qed

theorem leftover_staging_blocks_refresh_witness:
  "\<exists>fs s'. replace_profile_loaded sample_codec 4 sample_id sample_snapshot (saved_store fs) = (Inl (SnapshotFailed OtherKind), s') \<and>
     replace_profile_loaded sample_codec 4 sample_id sample_snapshot s' = (Inl (SnapshotFailed AlreadyExists), s')"
proof -
  have s: "sample_id \<in> set (ids_of (indexed (saved_store [])))" "plan (saved_store []) = []"
    "(saved_store [])\<lparr>plan := fs\<rparr> = saved_store fs"
    "dict_get (entries (saved_store [])) sample_id = Some (DirNode sample_folder)" for fs
    using valid_id_names [OF sample_id_valid] by (simp_all add: saved_store_def sample_ids)
  have fresh: "dict_get sample_folder (staging_name 4 (next_generation (generations sample_folder))) = None"
    using published_not_staging [of 1 4] by (simp add: sample_folder_def eq_commute)
  have new: "dict_get sample_folder (published_name (next_generation (generations sample_folder))) = None"
  proof -
    have "next_generation (generations sample_folder) = 2"
      by (simp add: sample_folder_ok(2) next_generation_def by_newest_def bounded_add_def)
    moreover have "published_name 2 \<noteq> published_name 1" by code_simp
    ultimately show ?thesis by (simp add: sample_folder_def)
  qed
  let ?left = "left_staging 4 sample_id sample_folder (saved_store [])"
  have left: "?left\<lparr>plan := []\<rparr> = ?left" using s(2) by (metis left_staging_simps(2) update_same(1))
  have bounds: "1 \<le> (2 :: nat)" "(2 :: nat) < 2 ^ 64 - 1" by simp_all
  note blocked = leftover_staging_blocks_refresh [OF saved_store_ok s(2,1,4) fresh bounds new, of sample_snapshot]
  obtain n where "\<forall>e j fs. replace_profile_loaded sample_codec 4 sample_id sample_snapshot
      ((saved_store [])\<lparr>plan := replicate n Works @ Works # Fails e j # fs\<rparr>) = (Inl (SnapshotFailed e), ?left\<lparr>plan := fs\<rparr>)"
    using blocked [THEN conjunct1] by (elim exE)
  then have "replace_profile_loaded sample_codec 4 sample_id sample_snapshot
      (saved_store (replicate n Works @ Works # Fails OtherKind None # [])) = (Inl (SnapshotFailed OtherKind), ?left)"
    unfolding s(3) by (simp only: left)
  moreover have "replace_profile_loaded sample_codec 4 sample_id sample_snapshot ?left =
      (Inl (SnapshotFailed AlreadyExists), ?left)"
    by (rule blocked [THEN conjunct2, THEN conjunct2, THEN conjunct1, rule_format])
  ultimately show ?thesis by blast
qed

text \<open>
  Adding a subscription to an empty store without activating it never succeeds, whatever the faults, although
  its comment says that no active profile stays none: the index it would write is not a valid one.
\<close>

theorem add_needs_active:
  assumes "store_ok c k s" "profiles (indexed s) = []" "snapshot_wf (snapshots c) snap" "add_profile c pid now snap s = (r, s')"
  shows "\<exists>e. r = Inl e \<and> \<not> mutation_committed e"
proof -
  have "active_id (indexed s) = None" using assms(1,2) by (auto simp: store_ok_def validate_index_def split: if_splits)
  then have bad: "validate_index (with_profile p now False (indexed s)) \<noteq> Inr ()" for p
    using assms(2) by (auto simp: validate_index_def with_profile_def)
  have never: "\<not> inserted c now False t p s s'" for t p using bad by (auto simp: inserted_def)
  have ok: "ids_ok s" "rolls_ok s" using assms(1) by (simp_all add: store_ok_def)
  note spec = insert_profile_spec [OF ok loaded_stored [OF assms(3)], of pid now False, folded add_profile_def]
  show ?thesis
    using wp_ok [OF spec, of _ s'] wp_error [OF spec, of _ s'] assms(4) never
    by (cases r) (auto simp: outcome_def split: if_splits)
qed

theorem add_needs_active_witness:
  "\<exists>e. fst (add_profile sample_codec 4 5 sample_snapshot (empty_store [])) = Inl e \<and> \<not> mutation_committed e"
  by (rule add_needs_active [OF empty_store_ok [of _ 1] _ _ prod.collapse [symmetric]])
    (use sample_wf [of 5] in \<open>simp_all add: empty_store_def empty_index_def\<close>)

end
