(* ===== verification/Spec2Isabelle.thy ===== *)
theory Spec2Isabelle
  imports Xray_Properties Mihomo_Properties Dns_Guard Troubleshoot Elevation_Protocol
    Event_Redaction Service_Protocol Journal_Writer Journal_Paging Session_Index Connection_Properties
    Service_Runs Controller_Proxy Update_Samples Runtime_Staging Profile_Claims
begin

text \<open>
  A verification development for multicore, a VPN client that runs two proxy cores, Mihomo and Xray,
  behind one switch.

  The program and how its parts interact. A desktop application talks to a daemon of the same user.
  The daemon stages configuration documents of a subscription, and starts the cores directly, through
  an elevated host, or through the always-ready service that runs as SYSTEM or root. Both privileged
  programs speak length-prefixed JSON frames. The service copies the user's staged documents through
  a sanitiser, starts the cores from its own directory, hands the daemon a filtered controller
  instead of Mihomo's own secret, switches the tunnel on and off, restarts crashed cores once, and
  keeps logs the daemon may page through. Without a tunnel the daemon applies Mihomo's port as the
  user's system proxy and puts the user's settings back afterwards.

  Conventions. A Rust \<open>str\<close>, \<open>String\<close> or byte slice is a list of characters, one per UTF-8 byte;
  \<open>valid_utf8\<close> tells text from bytes. Integers keep their width (\<open>u8\<close> to \<open>u64\<close> are words) where the
  code computes with them; sizes of lists and times are \<open>nat\<close>. \<open>Result\<close> is a sum with the error on the
  left, with \<open>rbind\<close> for the question mark. A JSON object is a key-ordered association list and a
  YAML mapping an insertion-ordered one, as in \<open>serde_json\<close> and \<open>serde_yaml_ng\<close>. Paths are Unix
  paths. An operation under a lock is one step. Everything is executable, so that the
  witnesses evaluate the definitions on concrete inputs.

  Shared layer.
  \<^item> \<open>Prelude\<close>: results and loops that stop at the first error, dictionaries and the locale
    \<open>document_dict\<close> both kinds of object satisfy.
  \<^item> \<open>Rust_Str\<close>, \<open>Canonical_Decimal\<close>, \<open>Ip_Addr\<close>, \<open>Json_Doc\<close>, \<open>Yaml_Doc\<close>: what the source uses of Rust's
    standard library (\<open>str\<close>, decimal integers, \<open>Path\<close>, \<open>IpAddr\<close>) and of the two document libraries.

  Configuration documents (\<open>crates/multicore-core/src/config_sanitize.rs\<close>, \<open>mihomo_dns_guard.rs\<close>).
  \<^item> \<open>Sanitize_Base\<close>, \<open>Xray_Sanitize\<close>: \<open>sanitize_xray\<close> pass by pass. \<open>Xray_Safety\<close> and \<open>Xray_Guarantees\<close>
    characterise the refusals at any depth and carry them through the rewriting passes with the
    locale \<open>member_property\<close>, \<open>Xray_Strings\<close> does so for the strings that name geodata files;
    \<open>Xray_Properties\<close> states what an accepted document satisfies and where the checks end: inside the
    sniffing lists, which are split after the check, and in drive settings nested inside one another.
  \<^item> \<open>Mihomo_Sanitize\<close>, \<open>Mihomo_Properties\<close>: \<open>sanitize_mihomo\<close> and what its output guarantees (keys the
    service owns, the mixed port in system-proxy mode only, every other allowed setting as staged, confined
    providers, no credential files).
  \<^item> \<open>Dns_Guard\<close>: the DNS safety net, exact in fake-ip mode, with the semantics of its CIDR test.

  Protocols (\<open>elevation_protocol.rs\<close>, \<open>service_protocol.rs\<close>, \<open>troubleshoot.rs\<close>, \<open>event.rs\<close>).
  \<^item> \<open>Elevation_Protocol\<close>: frames of at most 64 KiB, their round trip, damaged frames, the constant-time
    comparison and the pairing of answers with commands. \<open>Service_Protocol\<close>: version 2, its commands
    and the redaction of logs. \<open>Troubleshoot\<close>: fixes, their tokens, order and exit codes.
    \<open>Event_Redaction\<close>: events and the redaction of every field.

  Logs and sessions (\<open>core_sessions.rs\<close>).
  \<^item> \<open>Core_Journal\<close>, \<open>Journal_Writer\<close>, \<open>Journal_Paging\<close>: lines, segment names, pruning, the writer as a
    state machine over any run, and paging, which ends and delivers every line once when segments start at
    distinct times (otherwise it may not end, which a theorem shows). A segment name is tried 64 times, as in the code; the number of pages is bounded by the bytes to be read.
  \<^item> \<open>Core_Sessions\<close>, \<open>Session_Index\<close>: the index of sessions refines a list of sessions; windows; and the
    session a torn last line costs.

  Running the cores (\<open>supervisor.rs\<close>, \<open>state.rs\<close>, \<open>sidecar.rs\<close>, the daemon's \<open>connection_mode.rs\<close> and
  \<open>system_proxy.rs\<close>, and \<open>core_loop.rs\<close> of the core host).
  \<^item> \<open>Connection_State\<close>: the contract of a process controller as the locale \<open>process_controller\<close>, the
    supervisor proved against it, the state machine and the controllers by mode. \<open>Sidecar_Control\<close>
    interprets it for the process table; its readiness wait is a function of the time that polls every
    30 ms until a deadline and therefore ends; without a readiness check it accepts at once. \<open>System_Proxy\<close>:
    applying, restoring and recovering the user's settings. The four values are written one by one and a
    write may stop after any of them: \<open>lossless_writes\<close> names the places from which the settings can be
    recovered, and what is lost elsewhere is proved too. \<open>Connection_Properties\<close> interprets the locale for
    the composed controllers and proves that connecting is all or nothing as long as cores can be stopped.
  \<^item> \<open>Service_Loop\<close>, \<open>Service_Lifecycle\<close>, \<open>Service_Runs\<close>: the always-ready service over arbitrary cores.
    The calls it makes of the cores are recorded, updates and fixes run in phases between which any
    step may come, and an invariant over all runs says what is true of the record. The reported state of
    the tunnel is true except after a switch on whose rollback failed too, a case described on its own.
  \<^item> \<open>Http_Request\<close>, \<open>Controller_Proxy\<close> (\<open>controller_proxy.rs\<close>): the filtered controller. A connection is the
    list of pieces it delivers and how it ends; a head is searched before the 16 KiB limit is checked,
    so it may exceed it by one read of 4096 bytes. The lemmas follow a request from its bytes through
    the allow-list to the rebuilt head and parse that head again.

  Updates (\<open>crates/multicore-update\<close>, \<open>crates/multicore-platform/src/elf.rs\<close>, \<open>core_hashes.rs\<close>).
  \<^item> \<open>Std_Io\<close>: lines, little-endian integers, components of a path and byte streams, shared with the proxy.
  \<^item> \<open>Update_Release\<close>: repository, versions with their order, and GitHub's answer; \<open>Update_Download\<close>: a
    download of a known size.
  \<^item> \<open>Image_Check\<close>: the checks of PE and ELF images, exact in terms of their bytes. \<open>Update_Bundle\<close>: unpacking
    an archive into a tree of files; \<open>Bundle_Properties\<close> follows the two passes and shows that the tree
    is what its inventory lists. \<open>Core_Hashes\<close>: the check before a core is launched, whose parser agrees
    with the updater's. \<open>Update_Swap\<close>: renames as the locale \<open>directory_rename\<close>, which retrying keeps,
    and the swap. \<open>Update_Samples\<close> runs them on an archive with every required file.

  Subscriptions.
  \<^item> \<open>Subscription_Input\<close> (\<open>input.rs\<close>): accepting a document, its groups with their members and the loopback
    bridges between the cores. Members are characterised by lists without repetition, bridges as the first
    SOCKS proxies on the loopback address of every name.
  \<^item> \<open>Xray_Overlay\<close>, \<open>Runtime_Staging\<close> (\<open>snapshot.rs\<close>): the documents the cores run. A document is compared
    with the subscription's along paths of keys: \<open>agree_except\<close> says that two documents differ at the given
    paths only; Mihomo's is compared section by section (\<open>tun_entry\<close>, \<open>dns_entry\<close>, \<open>routed_groups\<close>). The display of a socket address is a parameter.

  \<^item> \<open>Store_Disk\<close>, \<open>Store_Logic\<close> (\<open>store_root.rs\<close>): the directory operations on a tree, each of which takes
    the next fault of a plan, and a calculus of weakest preconditions that hold for every plan. A process
    that dies is a plan of which every later call fails; a loss of power is not modelled, so \<open>sync\<close> only can fail.
  \<^item> \<open>Snapshot_Store\<close>, \<open>Snapshot_Logic\<close> (\<open>snapshot.rs\<close>): the generations of a profile, what a commit leaves
    when it fails and when it succeeds, and what is loaded then. Numbers of generations stay below the bound
    \<open>k\<close> of the invariant, which every mutation raises by one, so they never wrap in \<open>2 ^ 64 - 2\<close> mutations.
  \<^item> \<open>Profile_Store\<close>, \<open>Profile_Open\<close> (\<open>profile.rs\<close>): the index, the mutations, opening and reading. \<open>Profile_Logic\<close>,
    \<open>Profile_Insert\<close> and \<open>Profile_Change\<close> specify each mutation, \<open>Profile_Guarantees\<close> joins them to an invariant
    of any run, \<open>Profile_Success\<close> and \<open>Profile_Reopen\<close> follow the steps when nothing fails, \<open>Profile_Faults\<close>
    places one fault and follows the staging directory it leaves, \<open>Profile_Samples\<close> holds a concrete codec and stores, and \<open>Profile_Claims\<close> states what a
    client of the store can rely on.

  Parameters. Code outside the repository is an argument: parsers and emitters of JSON and YAML (their
  documents are the inputs and outputs here), zip archives, SHA-256, base64, regular expressions, and everything an
  operating system answers (files, processes, clocks, registry values). Where a theorem needs
  documented behaviour of one, it is a named hypothesis and a witness instantiates it.

  Not modelled. The desktop user interface and its shell integration, the daemon's HTTP server and its
  clients, pipes, sockets, tokens and service managers, process groups and job objects, because they
  are sequences of system and framework calls around the logic above; fetching subscriptions over HTTP, the caches of images and
  the saved selections of groups beside the stored subscriptions, the Windows side of the store, and the updater's
  program, which waits for processes around the modelled swap. Tests and build scripts state nothing of their own.
\<close>

end
